(* ===== verification/Prelude.thy ===== *)
theory Prelude
  imports Main "HOL-Library.AList" "HOL-Library.List_Lexorder" "HOL-Library.Char_ord"
begin

text \<open>
  Shared vocabulary of the development.

  The programs verified here are Python scripts.  A function that can raise is modelled as a
  function into \<open>'a result\<close>, the sum of the exceptions it can raise (\<open>Inl\<close>) and its normal
  results (\<open>Inr\<close>); \<open>bind_res\<close> is sequential composition, \<open>require\<close> is the helper of the same
  name that every runner defines, and \<open>requires\<close> is a run of consecutive \<open>require\<close> calls.
  A \<open>for\<close> loop whose body can raise is \<open>fold_res\<close>.

  A Python \<open>dict\<close> is an association list in insertion order with distinct keys: the library's
  \<open>AList.update\<close> overwrites in place and appends a new key at the end, exactly as the
  interpreter does.  Text is a \<open>string\<close> (a list of characters).
\<close>

named_theorems result_simps \<open>rewriting of sequenced fallible computations\<close>
named_theorems dict_simps \<open>lookups after dictionary updates\<close>

section \<open>Exceptions and fallible computations\<close>

datatype py_error =
    LabError string
  | ImageError string
  | StructError
  | IndexError
  | KeyError
  | ValueError
  | TypeError
  | AttributeError
  | RecursionError
  | UnicodeError
  | OSError

type_synonym 'a result = "py_error + 'a"

definition bind_res :: "'a result \<Rightarrow> ('a \<Rightarrow> 'b result) \<Rightarrow> 'b result" where
  "bind_res m f = (case m of Inl e \<Rightarrow> Inl e | Inr x \<Rightarrow> f x)"

definition require :: "bool \<Rightarrow> string \<Rightarrow> unit result" where
  "require condition message = (if condition then Inr () else Inl (LabError message))"

fun requires :: "(bool \<times> string) list \<Rightarrow> unit result" where
  "requires [] = Inr ()"
| "requires ((condition, message) # rest) =
     bind_res (require condition message) (\<lambda>_. requires rest)"

fun fold_res :: "('s \<Rightarrow> 'a \<Rightarrow> 's result) \<Rightarrow> 's \<Rightarrow> 'a list \<Rightarrow> 's result" where
  "fold_res f s [] = Inr s"
| "fold_res f s (x # xs) = bind_res (f s x) (\<lambda>t. fold_res f t xs)"

fun map_res :: "('a \<Rightarrow> 'b result) \<Rightarrow> 'a list \<Rightarrow> 'b list result" where
  "map_res f [] = Inr []"
| "map_res f (x # xs) = bind_res (f x) (\<lambda>y. bind_res (map_res f xs) (\<lambda>ys. Inr (y # ys)))"

lemma bind_res_Inr [simp]: "bind_res (Inr x) f = f x"
  by (simp add: bind_res_def)

lemma bind_res_Inl [simp]: "bind_res (Inl e) f = Inl e"
  by (simp add: bind_res_def)

lemma bind_res_assoc: "bind_res (bind_res m f) g = bind_res m (\<lambda>x. bind_res (f x) g)"
  by (cases m) simp_all

lemma bind_res_cong [fundef_cong]:
  "m = m' \<Longrightarrow> (\<And>x. m' = Inr x \<Longrightarrow> f x = f' x) \<Longrightarrow> bind_res m f = bind_res m' f'"
  by (cases m') simp_all

lemma bind_res_eq_Inr [result_simps]:
  "bind_res m f = Inr y \<longleftrightarrow> (\<exists>x. m = Inr x \<and> f x = Inr y)"
  by (cases m) simp_all

lemma bind_res_eq_Inl:
  "bind_res m f = Inl e \<longleftrightarrow> m = Inl e \<or> (\<exists>x. m = Inr x \<and> f x = Inl e)"
  by (cases m) simp_all

lemma bind_res_InrE:
  assumes "bind_res m f = Inr y"
  obtains x where "m = Inr x" and "f x = Inr y"
  using assms by (auto simp: bind_res_eq_Inr)

lemma require_True [simp]: "require True message = Inr ()"
  by (simp add: require_def)

lemma require_eq_Inr [result_simps]: "require c message = Inr u \<longleftrightarrow> c"
  by (simp add: require_def)

lemma require_eq_Inl: "require c message = Inl e \<longleftrightarrow> \<not> c \<and> e = LabError message"
  by (auto simp: require_def)

lemma requires_eq_Inr [result_simps]: "requires cs = Inr u \<longleftrightarrow> list_all fst cs"
  by (induction cs) (auto simp: bind_res_eq_Inr require_eq_Inr)

lemma requires_append:
  "requires (cs @ ds) = bind_res (requires cs) (\<lambda>_. requires ds)"
  by (induction cs) (auto simp: bind_res_assoc)

lemma bind_require_eq_Inr [result_simps]:
  "bind_res (require c message) f = Inr y \<longleftrightarrow> c \<and> f () = Inr y"
  by (cases c) (auto simp: require_def)

lemma bind_requires_eq_Inr [result_simps]:
  "bind_res (requires cs) f = Inr y \<longleftrightarrow> list_all fst cs \<and> f () = Inr y"
  by (auto simp: bind_res_eq_Inr requires_eq_Inr)

text \<open>A failing run of checks raises the message of its first failing check.\<close>

lemma requires_first_failure:
  "requires cs = (case dropWhile fst cs of [] \<Rightarrow> Inr () | (_, message) # _ \<Rightarrow> Inl (LabError message))"
  by (induction cs) (auto simp: require_def)

lemma fold_res_append:
  "fold_res f s (xs @ ys) = bind_res (fold_res f s xs) (\<lambda>t. fold_res f t ys)"
  by (induction xs arbitrary: s) (simp_all add: bind_res_assoc)

lemma fold_res_Inr: "fold_res (\<lambda>s x. Inr (f s x)) s xs = Inr (foldl f s xs)"
  by (induction xs arbitrary: s) simp_all

lemma fold_res_cong [fundef_cong]:
  "s = s' \<Longrightarrow> xs = xs' \<Longrightarrow> (\<And>t x. x \<in> set xs' \<Longrightarrow> f t x = g t x) \<Longrightarrow>
     fold_res f s xs = fold_res g s' xs'"
proof (induction xs arbitrary: s s' xs')
  case Nil
  then show ?case by simp
next
  case (Cons x xs)
  have "fold_res f t xs = fold_res g t xs" for t
    using Cons.prems by (intro Cons.IH) auto
  with Cons.prems show ?case by auto
qed

lemma map_res_eq_Inr:
  "map_res f xs = Inr ys \<longleftrightarrow> list_all2 (\<lambda>x y. f x = Inr y) xs ys"
proof (induction xs arbitrary: ys)
  case Nil
  then show ?case by auto
next
  case (Cons x xs)
  then show ?case by (cases ys) (auto simp: bind_res_eq_Inr)
qed

lemma fold_res_member:
  assumes "fold_res f s xs = Inr t" and "x \<in> set xs"
  shows "\<exists>u u'. f u x = Inr u'"
proof -
  from assms(2) obtain as bs where "xs = as @ x # bs" by (meson split_list)
  with assms(1) show ?thesis by (auto simp: fold_res_append elim!: bind_res_InrE)
qed

text \<open>
  Partial correctness of a fallible computation: whatever it returns satisfies the predicate.  One
  rule per construct reduces a statement about a whole function to its final values.
\<close>

definition ensures :: "'a result \<Rightarrow> ('a \<Rightarrow> bool) \<Rightarrow> bool" where
  "ensures r Q \<longleftrightarrow> (\<forall>x. r = Inr x \<longrightarrow> Q x)"

lemma ensuresD: "ensures r Q \<Longrightarrow> r = Inr x \<Longrightarrow> Q x"
  by (simp add: ensures_def)

lemma ensures_bind: "(\<And>x. m = Inr x \<Longrightarrow> ensures (f x) Q) \<Longrightarrow> ensures (bind_res m f) Q"
  by (auto simp: ensures_def elim!: bind_res_InrE)

lemma ensures_Inr: "Q x \<Longrightarrow> ensures (Inr x) Q"
  by (simp add: ensures_def)

lemma ensures_Inl: "ensures (Inl e) Q"
  by (simp add: ensures_def)

lemma ensures_pair: "(\<And>x y. p = (x, y) \<Longrightarrow> ensures (f x y) Q) \<Longrightarrow> ensures (case p of (x, y) \<Rightarrow> f x y) Q"
  by (cases p) simp

lemma ensures_if: "(c \<Longrightarrow> ensures a Q) \<Longrightarrow> (\<not> c \<Longrightarrow> ensures b Q) \<Longrightarrow> ensures (if c then a else b) Q"
  by simp

lemma ensures_sum:
  "(\<And>e. x = Inl e \<Longrightarrow> ensures (f e) Q) \<Longrightarrow> (\<And>y. x = Inr y \<Longrightarrow> ensures (g y) Q) \<Longrightarrow>
     ensures (case x of Inl e \<Rightarrow> f e | Inr y \<Rightarrow> g y) Q"
  by (cases x) simp_all

lemma ensures_option:
  "(x = None \<Longrightarrow> ensures a Q) \<Longrightarrow> (\<And>y. x = Some y \<Longrightarrow> ensures (g y) Q) \<Longrightarrow>
     ensures (case x of None \<Rightarrow> a | Some y \<Rightarrow> g y) Q"
  by (cases x) simp_all

lemmas ensures_rules = ensures_bind ensures_Inr ensures_Inl ensures_pair ensures_if ensures_sum ensures_option

text \<open>
  The contract a trace reducer offers its clients: a state and an event give a new state or a
  refusal, and some predicate on states survives every accepted event.  What clients get from it
  is that the predicate holds after every accepted run, and at every point inside one.
\<close>

locale reducer =
  fixes step :: "'s \<Rightarrow> 'e \<Rightarrow> 's result"
    and inv :: "'s \<Rightarrow> bool"
  assumes step_inv: "step s e = Inr t \<Longrightarrow> inv s \<Longrightarrow> inv t"
begin

lemma run_inv: "fold_res step s es = Inr t \<Longrightarrow> inv s \<Longrightarrow> inv t"
proof (induction es arbitrary: s)
  case Nil
  then show ?case by simp
next
  case (Cons e es)
  from Cons.prems(1) obtain u where "step s e = Inr u" and "fold_res step u es = Inr t"
    by (auto elim: bind_res_InrE)
  with Cons show ?case by (blast intro: step_inv)
qed

lemma prefix_inv:
  assumes "fold_res step s (es @ fs) = Inr t" and "inv s"
  obtains u where "fold_res step s es = Inr u" and "inv u" and "fold_res step u fs = Inr t"
proof -
  from assms(1) obtain u where u: "fold_res step s es = Inr u" "fold_res step u fs = Inr t"
    by (auto simp: fold_res_append elim: bind_res_InrE)
  moreover from u(1) assms(2) have "inv u" by (rule run_inv)
  ultimately show ?thesis using that by blast
qed

end

text \<open>
  A reducer with a balance: every accepted event changes a quantity of the state by an amount that
  depends on the event only.  The quantity after a run is then a sum over its events.
\<close>

locale counting_reducer = reducer +
  fixes balance :: "'s \<Rightarrow> int"
    and weight :: "'e \<Rightarrow> int"
  assumes step_balance: "step s e = Inr t \<Longrightarrow> inv s \<Longrightarrow> balance t = balance s + weight e"
begin

lemma run_balance: "fold_res step s es = Inr t \<Longrightarrow> inv s \<Longrightarrow> balance t = balance s + sum_list (map weight es)"
proof (induction es arbitrary: s)
  case Nil
  then show ?case by simp
next
  case (Cons e es)
  from Cons.prems(1) obtain u where u: "step s e = Inr u" "fold_res step u es = Inr t"
    by (auto elim: bind_res_InrE)
  with Cons.IH [OF u(2) step_inv [OF u(1) Cons.prems(2)]] step_balance [OF u(1) Cons.prems(2)]
  show ?case by simp
qed

end

section \<open>Dictionaries\<close>

type_synonym ('k, 'v) dict = "('k \<times> 'v) list"

definition dkeys :: "('k, 'v) dict \<Rightarrow> 'k list" where
  "dkeys d = map fst d"

definition dvalues :: "('k, 'v) dict \<Rightarrow> 'v list" where
  "dvalues d = map snd d"

text \<open>\<open>d[k]\<close> raises \<open>KeyError\<close> on a missing key; \<open>d.get(k, v)\<close> falls back to \<open>v\<close>.\<close>

definition dget :: "('k, 'v) dict \<Rightarrow> 'k \<Rightarrow> 'v result" where
  "dget d k = (case map_of d k of None \<Rightarrow> Inl KeyError | Some v \<Rightarrow> Inr v)"

definition dget_or :: "('k, 'v) dict \<Rightarrow> 'k \<Rightarrow> 'v \<Rightarrow> 'v" where
  "dget_or d k v = (case map_of d k of None \<Rightarrow> v | Some w \<Rightarrow> w)"

definition dput :: "'k \<Rightarrow> 'v \<Rightarrow> ('k, 'v) dict \<Rightarrow> ('k, 'v) dict" where
  "dput k v d = AList.update k v d"

definition dpop :: "'k \<Rightarrow> ('k, 'v) dict \<Rightarrow> ('k, 'v) dict" where
  "dpop k d = AList.delete k d"

definition dict_ok :: "('k, 'v) dict \<Rightarrow> bool" where
  "dict_ok d \<longleftrightarrow> distinct (dkeys d)"

lemma map_of_dput [simp, dict_simps]: "map_of (dput k v d) = (map_of d)(k \<mapsto> v)"
  by (simp add: dput_def update_conv')

lemma map_of_dpop [simp, dict_simps]: "map_of (dpop k d) = (map_of d)(k := None)"
  by (simp add: dpop_def delete_conv')

lemma set_dkeys: "set (dkeys d) = dom (map_of d)"
  by (simp add: dkeys_def dom_map_of_conv_image_fst)

lemma dict_ok_dput [simp]: "dict_ok d \<Longrightarrow> dict_ok (dput k v d)"
  by (simp add: dict_ok_def dkeys_def dput_def distinct_update)

lemma dict_ok_dpop [simp]: "dict_ok d \<Longrightarrow> dict_ok (dpop k d)"
  by (simp add: dict_ok_def dkeys_def dpop_def distinct_delete)

lemma dict_ok_Nil [simp]: "dict_ok []"
  by (simp add: dict_ok_def dkeys_def)

lemma dput_new: "k \<notin> set (dkeys d) \<Longrightarrow> dput k v d = d @ [(k, v)]"
  by (induction d) (auto simp: dput_def dkeys_def)

lemma dict_ok_mem: "dict_ok d \<Longrightarrow> (k, v) \<in> set d \<longleftrightarrow> map_of d k = Some v"
  by (auto simp: dict_ok_def dkeys_def)

text \<open>Sums over the values of a dictionary.\<close>

definition dsum :: "('v \<Rightarrow> int) \<Rightarrow> ('k, 'v) dict \<Rightarrow> int" where
  "dsum f d = sum_list (map (f \<circ> snd) d)"

lemma dsum_dput:
  "dict_ok d \<Longrightarrow> dsum f (dput k v d) = dsum f d + f v - (case map_of d k of None \<Rightarrow> 0 | Some w \<Rightarrow> f w)"
proof (induction d)
  case Nil
  then show ?case by (simp add: dput_def dsum_def)
next
  case (Cons a d)
  have ok: "dict_ok d" using Cons.prems by (simp add: dict_ok_def dkeys_def)
  show ?case using Cons.IH [OF ok] by (cases a) (auto simp: dput_def dsum_def)
qed

text \<open>What a client of a dictionary relies on, whatever the representation.\<close>

locale dictionary =
  fixes empty :: 'd
    and put :: "'k \<Rightarrow> 'v \<Rightarrow> 'd \<Rightarrow> 'd"
    and pop :: "'k \<Rightarrow> 'd \<Rightarrow> 'd"
    and look :: "'d \<Rightarrow> 'k \<Rightarrow> 'v option"
    and items :: "'d \<Rightarrow> ('k \<times> 'v) list"
    and ok :: "'d \<Rightarrow> bool"
  assumes look_empty: "look empty = Map.empty"
    and look_put: "look (put k v d) = (look d)(k \<mapsto> v)"
    and look_pop: "look (pop k d) = (look d)(k := None)"
    and items_look: "ok d \<Longrightarrow> set (items d) = {(k, v). look d k = Some v}"
    and ok_empty: "ok empty"
    and ok_put: "ok d \<Longrightarrow> ok (put k v d)"
    and ok_pop: "ok d \<Longrightarrow> ok (pop k d)"
begin

text \<open>A loop that only overwrites keys leaves exactly the last written value of each key.\<close>

definition put_all :: "('k \<times> 'v) list \<Rightarrow> 'd \<Rightarrow> 'd" where
  "put_all kvs d = foldl (\<lambda>d (k, v). put k v d) d kvs"

lemma look_put_all: "look (put_all kvs d) = look d ++ map_of (rev kvs)"
  by (induction kvs arbitrary: d) (auto simp: put_all_def look_put map_add_def fun_eq_iff split: option.splits)

lemma ok_put_all: "ok d \<Longrightarrow> ok (put_all kvs d)"
  by (induction kvs arbitrary: d) (auto simp: put_all_def ok_put)

end

interpretation pydict: dictionary "[] :: ('k, 'v) dict" dput dpop map_of "\<lambda>d. d" dict_ok
  by unfold_locales (auto simp: dict_ok_mem)

section \<open>Lists\<close>

text \<open>Python's \<open>xs[i:j]\<close> for \<open>0 \<le> i\<close> and \<open>0 \<le> j\<close>: positions past the end are clamped.\<close>

definition py_slice :: "'a list \<Rightarrow> nat \<Rightarrow> nat \<Rightarrow> 'a list" where
  "py_slice xs i j = take (j - i) (drop i xs)"

text \<open>The slice assignment \<open>xs[i:j] = ys\<close> with \<open>i \<le> j\<close>.\<close>

definition py_slice_assign :: "'a list \<Rightarrow> nat \<Rightarrow> nat \<Rightarrow> 'a list \<Rightarrow> 'a list" where
  "py_slice_assign xs i j ys = take i xs @ ys @ drop (max i j) xs"

text \<open>\<open>range(a, b, s)\<close> with a positive step.\<close>

function py_range :: "nat \<Rightarrow> nat \<Rightarrow> nat \<Rightarrow> nat list" where
  "py_range a b s = (if a < b \<and> 0 < s then a # py_range (a + s) b s else [])"
  by pat_completeness auto
termination
  by (relation "measure (\<lambda>(a, b, s). b - a)") auto

declare py_range.simps [simp del]

lemma length_py_slice: "length (py_slice xs i j) = min (j - i) (length xs - i)"
  by (simp add: py_slice_def)

lemma nth_py_slice: "k < j - i \<Longrightarrow> i + k < length xs \<Longrightarrow> py_slice xs i j ! k = xs ! (i + k)"
  by (simp add: py_slice_def)

lemma py_slice_py_slice: "py_slice (py_slice xs i j) a b = py_slice xs (i + a) (min j (i + b))"
proof -
  have "min (b - a) (j - i - a) = min j (i + b) - (i + a)"
    by (auto simp: min_def)
  then show ?thesis
    by (simp add: py_slice_def drop_take add.commute)
qed

lemma length_py_slice_assign:
  "i \<le> j \<Longrightarrow> j \<le> length xs \<Longrightarrow> length ys = j - i \<Longrightarrow> length (py_slice_assign xs i j ys) = length xs"
  by (simp add: py_slice_assign_def max_def)

lemma nth_py_slice_assign:
  assumes "i \<le> j" and "j \<le> length xs" and "length ys = j - i"
  shows "py_slice_assign xs i j ys ! k = (if i \<le> k \<and> k < j then ys ! (k - i) else xs ! k)"
  using assms by (auto simp: py_slice_assign_def nth_append max_def)

lemma py_range_eq: "0 < s \<Longrightarrow> py_range a b s = map (\<lambda>i. a + i * s) [0..<(b + s - 1 - a) div s]"
proof (induction a b s rule: py_range.induct)
  case (1 a b s)
  show ?case
  proof (cases "a < b")
    case True
    have q: "(b + s - 1 - a) div s = Suc ((b + s - 1 - (a + s)) div s)"
    proof -
      have "b + s - 1 - a = (b + s - 1 - (a + s)) + s"
        using True "1.prems" by simp
      then show ?thesis using "1.prems" by (metis div_add_self2 neq0_conv Suc_eq_plus1)
    qed
    have "py_range a b s = a # map (\<lambda>i. a + s + i * s) [0..<(b + s - 1 - (a + s)) div s]"
      using True 1 by (simp add: py_range.simps [of a b s])
    also have "\<dots> = map (\<lambda>i. a + i * s) [0..<(b + s - 1 - a) div s]"
      unfolding q by (simp add: upt_conv_Cons map_Suc_upt [symmetric] del: upt_Suc) 
    finally show ?thesis .
  next
    case False
    then have "(b + s - 1 - a) div s = 0" using "1.prems" by simp
    with False show ?thesis by (simp add: py_range.simps [of a b s])
  qed
qed

end
