(* ===== verification/PyText.thy ===== *)
theory PyText
  imports Prelude
begin

text \<open>
  The operations on Python \<open>str\<close> that the runners use: decimal and hexadecimal rendering,
  \<open>int()\<close>, \<open>split\<close>, \<open>splitlines\<close>, \<open>join\<close>, \<open>find\<close>, \<open>count\<close>, \<open>startswith\<close> and substring
  tests.  Transcripts are text whose line separators and white space are the ASCII ones;
  the interpreter's limit on the number of digits \<open>int()\<close> accepts is not modelled.
\<close>

section \<open>Numbers as text\<close>

definition digit_char :: "nat \<Rightarrow> char" where
  "digit_char d = ''0123456789abcdef'' ! d"

definition digit_val :: "char \<Rightarrow> nat" where
  "digit_val c = of_char c - 48"

definition is_digit :: "char \<Rightarrow> bool" where
  "is_digit c \<longleftrightarrow> c \<in> set ''0123456789''"

fun show_base :: "nat \<Rightarrow> nat \<Rightarrow> string" where
  "show_base b n = (if n < b \<or> b < 2 then [digit_char n] else show_base b (n div b) @ [digit_char (n mod b)])"

declare show_base.simps [simp del]

definition show_nat :: "nat \<Rightarrow> string" where
  "show_nat n = show_base 10 n"

definition show_int :: "int \<Rightarrow> string" where
  "show_int i = (if i < 0 then ''-'' @ show_nat (nat (- i)) else show_nat (nat i))"

definition show_hex :: "nat \<Rightarrow> string" where
  "show_hex n = ''0x'' @ show_base 16 n"

definition read_nat :: "string \<Rightarrow> nat" where
  "read_nat s = foldl (\<lambda>n c. 10 * n + digit_val c) 0 s"

text \<open>\<open>re.fullmatch(r"-?[0-9]+", s)\<close>\<close>

definition is_int_literal :: "string \<Rightarrow> bool" where
  "is_int_literal s \<longleftrightarrow>
     (let body = (if take 1 s = ''-'' then drop 1 s else s) in body \<noteq> [] \<and> list_all is_digit body)"

text \<open>\<open>int(s)\<close> on such a literal.\<close>

definition read_int :: "string \<Rightarrow> int" where
  "read_int s = (if take 1 s = ''-'' then - int (read_nat (drop 1 s)) else int (read_nat s))"

text \<open>The same value computed with integers only.\<close>

definition digits_int :: "string \<Rightarrow> int" where
  "digits_int s = foldl (\<lambda>n c. 10 * n + max 0 (of_char c - 48)) 0 s"

lemma read_int_code [code]:
  "read_int s = (if take 1 s = ''-'' then - digits_int (drop 1 s) else digits_int s)"
proof -
  have "int (digit_val c) = max 0 (of_char c - 48)" for c
  proof -
    have "(of_char c :: int) = int (of_char c)" by (simp add: of_nat_of_char)
    then show ?thesis by (simp add: digit_val_def of_nat_diff_if max_def del: of_nat_of_char)
  qed
  then have "int (foldl (\<lambda>n c. 10 * n + digit_val c) n s) = foldl (\<lambda>n c. 10 * n + max 0 (of_char c - 48)) (int n) s" for n s
    by (induction s arbitrary: n) simp_all
  from this [of 0] have "int (read_nat s) = digits_int s" for s by (simp add: read_nat_def digits_int_def)
  then show ?thesis by (simp add: read_int_def)
qed

lemma digit_val_digit_char: "d < 10 \<Longrightarrow> digit_val (digit_char d) = d"
  unfolding digit_val_def digit_char_def
  by (auto simp: less_Suc_eq numeral_eq_Suc)

lemma is_digit_digit_char: "d < 10 \<Longrightarrow> is_digit (digit_char d)"
  unfolding is_digit_def digit_char_def
  by (auto simp: less_Suc_eq numeral_eq_Suc)

lemma show_nat_digits: "list_all is_digit (show_nat n)"
  unfolding show_nat_def
proof (induction "10::nat" n rule: show_base.induct)
  case (1 n)
  then show ?case
    by (cases "n < 10") (auto simp: show_base.simps [of 10 n] is_digit_digit_char)
qed

lemma show_nat_nonempty [simp]: "show_nat n \<noteq> []"
  by (simp add: show_nat_def show_base.simps [of 10 n])

lemma read_nat_append: "read_nat (s @ [c]) = 10 * read_nat s + digit_val c"
  by (simp add: read_nat_def)

lemma read_show_nat [simp]: "read_nat (show_nat n) = n"
  unfolding show_nat_def
proof (induction "10::nat" n rule: show_base.induct)
  case (1 n)
  show ?case
  proof (cases "n < 10")
    case True
    then show ?thesis
      by (simp add: show_base.simps [of 10 n] read_nat_def digit_val_digit_char)
  next
    case False
    then have "read_nat (show_base 10 (n div 10)) = n div 10" using 1 by simp
    with False show ?thesis
      by (simp add: show_base.simps [of 10 n] read_nat_append digit_val_digit_char)
  qed
qed

lemma minus_not_digit: "\<not> is_digit CHR ''-''"
  by (simp add: is_digit_def)

lemma take1_show_nat: "take 1 (show_nat n) \<noteq> ''-''"
proof
  assume "take 1 (show_nat n) = ''-''"
  then obtain cs where "show_nat n = CHR ''-'' # cs" by (cases "show_nat n") auto
  with show_nat_digits [of n] show False by (simp add: minus_not_digit)
qed

lemma read_show_int [simp]: "read_int (show_int i) = i"
  using take1_show_nat [of "nat i"] by (simp add: read_int_def show_int_def)

lemma is_int_literal_show_int [simp]: "is_int_literal (show_int i)"
  using take1_show_nat [of "nat i"] show_nat_digits
  by (simp add: is_int_literal_def show_int_def Let_def)

lemma show_int_nonempty [simp]: "show_int i \<noteq> []"
  by (simp add: show_int_def)

lemma set_show_nat: "c \<in> set (show_nat n) \<Longrightarrow> is_digit c"
  using show_nat_digits [of n] by (simp add: list_all_iff)

lemma set_show_int: "c \<in> set (show_int i) \<Longrightarrow> c = CHR ''-'' \<or> is_digit c"
  by (auto simp: show_int_def dest: set_show_nat split: if_splits)

lemma show_nat_inject: "show_nat m = show_nat n \<longleftrightarrow> m = n"
  by (metis read_show_nat)

lemma show_int_inject: "show_int i = show_int j \<longleftrightarrow> i = j"
  by (metis read_show_int)

section \<open>Searching\<close>

definition starts_with :: "string \<Rightarrow> string \<Rightarrow> bool" where
  "starts_with s p \<longleftrightarrow> take (length p) s = p"

definition ends_with :: "string \<Rightarrow> string \<Rightarrow> bool" where
  "ends_with s p \<longleftrightarrow> length p \<le> length s \<and> drop (length s - length p) s = p"

text \<open>\<open>s.find(p)\<close>, with \<open>None\<close> for \<open>-1\<close>, and \<open>s.find(p, start)\<close>.\<close>

fun find_sub :: "string \<Rightarrow> string \<Rightarrow> nat option" where
  "find_sub p [] = (if p = [] then Some 0 else None)"
| "find_sub p (c # cs) =
     (if starts_with (c # cs) p then Some 0 else map_option Suc (find_sub p cs))"

definition find_from :: "string \<Rightarrow> string \<Rightarrow> nat \<Rightarrow> nat option" where
  "find_from p s start =
     (if start \<le> length s then map_option ((+) start) (find_sub p (drop start s)) else None)"

definition contains :: "string \<Rightarrow> string \<Rightarrow> bool" where
  "contains s p \<longleftrightarrow> find_sub p s \<noteq> None"

text \<open>\<open>s.count(p)\<close>: non-overlapping occurrences from the left.\<close>

function count_sub :: "string \<Rightarrow> string \<Rightarrow> nat" where
  "count_sub p s =
     (if p = [] then length s + 1
      else if s = [] then 0
      else if starts_with s p then Suc (count_sub p (drop (length p) s))
      else count_sub p (tl s))"
  by pat_completeness auto
termination
  by (relation "measure (\<lambda>(p, s). length s)") (auto simp: length_greater_0_conv [symmetric] simp del: length_greater_0_conv)

declare count_sub.simps [simp del]

lemma starts_with_append [simp]: "starts_with (p @ s) p"
  by (simp add: starts_with_def)

lemma starts_with_iff: "starts_with s p \<longleftrightarrow> (\<exists>rest. s = p @ rest)"
  by (metis append_take_drop_id starts_with_append starts_with_def)

lemma find_sub_Some:
  "find_sub p s = Some k \<Longrightarrow> k + length p \<le> length s \<and> take (length p) (drop k s) = p"
proof (induction s arbitrary: k)
  case Nil
  then show ?case by (simp split: if_splits)
next
  case (Cons c cs)
  show ?case
  proof (cases "starts_with (c # cs) p")
    case True
    then have "length p \<le> length (c # cs)"
      by (metis starts_with_iff length_append le_add1)
    with True Cons.prems show ?thesis by (auto simp: starts_with_def)
  next
    case False
    with Cons show ?thesis by auto
  qed
qed

lemma find_sub_None: "find_sub p s = None \<longleftrightarrow> \<not> (\<exists>a b. s = a @ p @ b)"
proof (induction s)
  case Nil
  then show ?case by simp
next
  case (Cons c cs)
  have "(\<exists>a b. c # cs = a @ p @ b) \<longleftrightarrow> starts_with (c # cs) p \<or> (\<exists>a b. cs = a @ p @ b)"
    (is "?L \<longleftrightarrow> ?R")
  proof
    assume ?L
    then obtain a b where ab: "c # cs = a @ p @ b" by blast
    then show ?R by (cases a) (auto simp: starts_with_iff)
  next
    assume ?R
    then show ?L by (auto simp: starts_with_iff) (metis append_Nil, metis append_Cons)
  qed
  with Cons.IH show ?case by simp
qed

lemma contains_iff: "contains s p \<longleftrightarrow> (\<exists>a b. s = a @ p @ b)"
  by (simp add: contains_def find_sub_None)

section \<open>Splitting and joining\<close>

definition newline :: char where "newline = CHR 0x0A"
definition carriage_return :: char where "carriage_return = CHR 0x0D"

definition is_line_sep :: "char \<Rightarrow> bool" where
  "is_line_sep c \<longleftrightarrow> c \<in> {CHR 0x0A, CHR 0x0B, CHR 0x0C, CHR 0x0D, CHR 0x1C, CHR 0x1D, CHR 0x1E}"

definition is_space :: "char \<Rightarrow> bool" where
  "is_space c \<longleftrightarrow>
     c \<in> {CHR 0x09, CHR 0x0A, CHR 0x0B, CHR 0x0C, CHR 0x0D, CHR 0x1C, CHR 0x1D, CHR 0x1E, CHR 0x1F, CHR '' ''}"

text \<open>\<open>s.splitlines()\<close>: \<open>"\r\n"\<close> is one separator and a final separator adds no empty line.\<close>

function lines_from :: "string \<Rightarrow> string \<Rightarrow> string list" where
  "lines_from cur [] = (if cur = [] then [] else [cur])"
| "lines_from cur (c # cs) =
     (if c = CHR 0x0D \<and> take 1 cs = [CHR 0x0A] then cur # lines_from [] (drop 1 cs)
      else if is_line_sep c then cur # lines_from [] cs
      else lines_from (cur @ [c]) cs)"
  by pat_completeness auto
termination
  by (relation "measure (\<lambda>(cur, s). length s)") auto

definition splitlines :: "string \<Rightarrow> string list" where
  "splitlines s = lines_from [] s"

text \<open>\<open>s.split()\<close>: maximal runs of non-space characters.\<close>

fun words_from :: "string \<Rightarrow> string \<Rightarrow> string list" where
  "words_from cur [] = (if cur = [] then [] else [cur])"
| "words_from cur (c # cs) =
     (if is_space c then (if cur = [] then words_from [] cs else cur # words_from [] cs)
      else words_from (cur @ [c]) cs)"

definition split_ws :: "string \<Rightarrow> string list" where
  "split_ws s = words_from [] s"

text \<open>\<open>s.split(sep)\<close>\<close>

fun split_on :: "char \<Rightarrow> string \<Rightarrow> string list" where
  "split_on sep [] = [[]]"
| "split_on sep (c # cs) =
     (if c = sep then [] # split_on sep cs
      else (case split_on sep cs of [] \<Rightarrow> [[c]] | p # ps \<Rightarrow> (c # p) # ps))"

lemma split_on_not_Nil: "split_on sep s \<noteq> []"
  by (cases s) (auto split: list.split)

lemma split_on_append: "split_on sep (a @ sep # b) = split_on sep a @ split_on sep b"
  by (induction a) (auto simp: split_on_not_Nil split: list.split)

lemma split_on_id: "sep \<notin> set a \<Longrightarrow> split_on sep a = [a]"
  by (induction a) auto

text \<open>\<open>s.split(sep, 1)\<close> for a one-character separator that occurs in \<open>s\<close>.\<close>

definition split_once :: "char \<Rightarrow> string \<Rightarrow> string \<times> string" where
  "split_once sep s = (takeWhile (\<lambda>c. c \<noteq> sep) s, drop 1 (dropWhile (\<lambda>c. c \<noteq> sep) s))"

text \<open>\<open>s.strip()\<close> and \<open>s.strip(chars)\<close>\<close>

definition strip_chars :: "(char \<Rightarrow> bool) \<Rightarrow> string \<Rightarrow> string" where
  "strip_chars p s = rev (dropWhile p (rev (dropWhile p s)))"

fun py_join :: "string \<Rightarrow> string list \<Rightarrow> string" where
  "py_join sep [] = []"
| "py_join sep [s] = s"
| "py_join sep (s # t # ts) = s @ sep @ py_join sep (t # ts)"

definition remove_cr :: "string \<Rightarrow> string" where
  "remove_cr s = filter (\<lambda>c. c \<noteq> CHR 0x0D) s"

lemma lines_from_no_sep:
  "list_all (\<lambda>c. \<not> is_line_sep c) l \<Longrightarrow> lines_from cur (l @ CHR 0x0A # rest) = (cur @ l) # lines_from [] rest"
proof (induction l arbitrary: cur)
  case Nil
  then show ?case by (simp add: is_line_sep_def)
next
  case (Cons c l)
  then have "\<not> is_line_sep c" and "c \<noteq> CHR 0x0D" by (auto simp: is_line_sep_def)
  with Cons show ?case by simp
qed

lemma splitlines_unlines:
  "list_all (list_all (\<lambda>c. \<not> is_line_sep c)) ls \<Longrightarrow>
     splitlines (concat (map (\<lambda>l. l @ [CHR 0x0A]) ls) @ rest) = ls @ splitlines rest"
  by (induction ls) (simp_all add: splitlines_def lines_from_no_sep)

lemma words_from_word:
  "list_all (\<lambda>c. \<not> is_space c) w \<Longrightarrow> words_from cur (w @ s) = words_from (cur @ w) s"
  by (induction w arbitrary: cur) auto

lemma split_ws_join:
  "list_all (\<lambda>w. w \<noteq> [] \<and> list_all (\<lambda>c. \<not> is_space c) w) ws \<Longrightarrow> split_ws (py_join '' '' ws) = ws"
proof (induction "'' '' :: string" ws rule: py_join.induct)
  case 1
  then show ?case by (simp add: split_ws_def)
next
  case (2 w)
  then show ?case using words_from_word [of w "[]" "[]"] by (simp add: split_ws_def)
next
  case (3 w v ws)
  then have "words_from [] (w @ '' '' @ py_join '' '' (v # ws)) = words_from w ('' '' @ py_join '' '' (v # ws))"
    using words_from_word [of w "[]"] by simp
  also have "\<dots> = w # words_from [] (py_join '' '' (v # ws))"
    using "3.prems" by (simp add: is_space_def)
  finally show ?case using 3 by (simp add: split_ws_def)
qed

lemma split_once_join: "sep \<notin> set k \<Longrightarrow> split_once sep (k @ sep # v) = (k, v)"
  by (induction k) (auto simp: split_once_def)

lemma remove_cr_id: "list_all (\<lambda>c. \<not> is_line_sep c) s \<Longrightarrow> remove_cr s = s"
  by (induction s) (auto simp: remove_cr_def is_line_sep_def)

end
