(* ===== verification/PyStruct.thy ===== *)
theory PyStruct
  imports Prelude "HOL-Library.Word"
begin

unbundle bit_operations_syntax

text \<open>
  Python \<open>bytes\<close> and the part of the \<open>struct\<close> module the recovery tools use: little-endian
  formats built from \<open>h\<close>, \<open>H\<close>, \<open>i\<close>, \<open>I\<close> and \<open><n>s\<close>, without padding.
  A byte is an \<open>8 word\<close>.  Reading past the end of a buffer raises \<open>struct.error\<close>.
\<close>

type_synonym byte = "8 word"
type_synonym bytes = "byte list"

section \<open>Little-endian integers\<close>

fun le_nat :: "bytes \<Rightarrow> nat" where
  "le_nat [] = 0"
| "le_nat (b # bs) = unat b + 256 * le_nat bs"

text \<open>The \<open>n\<close> low bytes of a number, least significant first.\<close>

fun le_bytes :: "nat \<Rightarrow> nat \<Rightarrow> bytes" where
  "le_bytes 0 v = []"
| "le_bytes (Suc n) v = word_of_nat v # le_bytes n (v div 256)"

text \<open>Two's complement reading of a \<open>w\<close>-bit number.\<close>

definition signed :: "nat \<Rightarrow> nat \<Rightarrow> int" where
  "signed w v = (if v < 2 ^ (w - 1) then int v else int v - 2 ^ w)"

definition unsigned_of :: "nat \<Rightarrow> int \<Rightarrow> nat" where
  "unsigned_of w i = nat (i mod 2 ^ w)"

lemma byte_bound: "unat (b :: byte) < 256"
  using unsigned_less [of b, where ?'a = nat] by simp

lemma length_le_bytes [simp]: "length (le_bytes n v) = n"
  by (induction n arbitrary: v) simp_all

lemma le_nat_bound: "le_nat bs < 256 ^ length bs"
proof (induction bs)
  case Nil
  then show ?case by simp
next
  case (Cons b bs)
  have "unat b < 256" by (rule byte_bound)
  with Cons.IH show ?case by simp
qed

lemma le_nat_le_bytes: "le_nat (le_bytes n v) = v mod 256 ^ n"
proof (induction n arbitrary: v)
  case 0
  then show ?case by simp
next
  case (Suc n)
  have "le_nat (le_bytes (Suc n) v) = v mod 256 + 256 * (v div 256 mod 256 ^ n)"
    using Suc.IH by (simp add: unat_of_nat)
  also have "\<dots> = v mod (256 * 256 ^ n)"
    by (simp add: mod_mult2_eq)
  finally show ?case by simp
qed

lemma le_bytes_le_nat: "le_bytes (length bs) (le_nat bs) = bs"
proof (induction bs)
  case Nil
  then show ?case by simp
next
  case (Cons b bs)
  have b: "unat b < 256" by (rule byte_bound)
  have "(unat b + 256 * le_nat bs) div 256 = le_nat bs" using b by simp
  moreover have "(word_of_nat (unat b + 256 * le_nat bs) :: byte) = b"
    by (rule word_unat_eq_iff [THEN iffD2]) (use b in \<open>simp add: unat_of_nat del: of_nat_add\<close>)
  ultimately show ?case using Cons.IH by simp
qed

lemma signed_bounds: "v < 2 ^ w \<Longrightarrow> 0 < w \<Longrightarrow> - (2 ^ (w - 1)) \<le> signed w v \<and> signed w v < 2 ^ (w - 1)"
proof -
  assume v: "v < 2 ^ w" and w: "0 < w"
  have two: "(2::int) ^ w = 2 * 2 ^ (w - 1)" using w by (cases w) simp_all
  from v have "int v < 2 ^ w" by (metis of_nat_less_iff of_nat_numeral of_nat_power)
  moreover have "v < 2 ^ (w - 1) \<longleftrightarrow> int v < 2 ^ (w - 1)"
    by (metis of_nat_less_iff of_nat_numeral of_nat_power)
  ultimately show ?thesis unfolding signed_def using two by auto
qed

lemma signed_unsigned_of:
  assumes "- (2 ^ (w - 1)) \<le> i" and "i < 2 ^ (w - 1)" and "0 < w"
  shows "signed w (unsigned_of w i) = i"
proof -
  have two: "(2::int) ^ w = 2 * 2 ^ (w - 1)" using assms(3) by (cases w) simp_all
  have lt: "k < 2 ^ (w - 1) \<longleftrightarrow> int k < 2 ^ (w - 1)" for k :: nat
    by (metis of_nat_less_iff of_nat_numeral of_nat_power)
  show ?thesis
  proof (cases "0 \<le> i")
    case True
    then have "i mod 2 ^ w = i" using assms two by simp
    with True assms lt show ?thesis by (simp add: signed_def unsigned_of_def)
  next
    case False
    have "(i + 2 ^ w) mod 2 ^ w = i + 2 ^ w"
      using assms two False by (intro mod_pos_pos_trivial) auto
    then have "i mod 2 ^ w = i + 2 ^ w" by simp
    moreover have "int (nat (i + 2 ^ w)) = i + 2 ^ w" using assms two False by simp
    ultimately show ?thesis using assms two False lt by (simp add: signed_def unsigned_of_def)
  qed
qed

section \<open>Formats\<close>

datatype fmt_code = Fmt_h | Fmt_H | Fmt_i | Fmt_I | Fmt_s nat

datatype py_value = PInt int | PNat nat | PBytes bytes

fun code_size :: "fmt_code \<Rightarrow> nat" where
  "code_size Fmt_h = 2"
| "code_size Fmt_H = 2"
| "code_size Fmt_i = 4"
| "code_size Fmt_I = 4"
| "code_size (Fmt_s n) = n"

definition calcsize :: "fmt_code list \<Rightarrow> nat" where
  "calcsize fmt = sum_list (map code_size fmt)"

text \<open>Values of unsigned codes are numbers, values of signed codes are integers.\<close>

fun decode :: "fmt_code \<Rightarrow> bytes \<Rightarrow> py_value" where
  "decode Fmt_h bs = PInt (signed 16 (le_nat bs))"
| "decode Fmt_H bs = PNat (le_nat bs)"
| "decode Fmt_i bs = PInt (signed 32 (le_nat bs))"
| "decode Fmt_I bs = PNat (le_nat bs)"
| "decode (Fmt_s n) bs = PBytes bs"

fun decode_all :: "fmt_code list \<Rightarrow> bytes \<Rightarrow> py_value list" where
  "decode_all [] bs = []"
| "decode_all (c # cs) bs = decode c (take (code_size c) bs) # decode_all cs (drop (code_size c) bs)"

text \<open>
  \<open>struct.unpack_from(fmt, data, offset)\<close> needs \<open>calcsize(fmt)\<close> bytes from the offset on;
  \<open>struct.unpack(fmt, data)\<close> needs the buffer to have exactly that size.
\<close>

definition unpack_from :: "fmt_code list \<Rightarrow> bytes \<Rightarrow> nat \<Rightarrow> py_value list result" where
  "unpack_from fmt data offset =
     (if offset + calcsize fmt \<le> length data then Inr (decode_all fmt (drop offset data))
      else Inl StructError)"

definition unpack :: "fmt_code list \<Rightarrow> bytes \<Rightarrow> py_value list result" where
  "unpack fmt data =
     (if length data = calcsize fmt then Inr (decode_all fmt data) else Inl StructError)"

text \<open>
  \<open>struct.pack_into\<close> writes in place.  A value outside the range of its code, or a write past the
  end of the buffer, raises \<open>struct.error\<close>.
\<close>

fun encode :: "fmt_code \<Rightarrow> py_value \<Rightarrow> bytes result" where
  "encode Fmt_h (PInt i) =
     (if - (2 ^ 15) \<le> i \<and> i < 2 ^ 15 then Inr (le_bytes 2 (unsigned_of 16 i)) else Inl StructError)"
| "encode Fmt_i (PInt i) =
     (if - (2 ^ 31) \<le> i \<and> i < 2 ^ 31 then Inr (le_bytes 4 (unsigned_of 32 i)) else Inl StructError)"
| "encode Fmt_H (PNat v) = (if v < 2 ^ 16 then Inr (le_bytes 2 v) else Inl StructError)"
| "encode Fmt_I (PNat v) = (if v < 2 ^ 32 then Inr (le_bytes 4 v) else Inl StructError)"
| "encode _ _ = Inl StructError"

fun encode_all :: "fmt_code list \<Rightarrow> py_value list \<Rightarrow> bytes result" where
  "encode_all [] [] = Inr []"
| "encode_all (c # cs) (v # vs) =
     bind_res (encode c v) (\<lambda>b. bind_res (encode_all cs vs) (\<lambda>bs. Inr (b @ bs)))"
| "encode_all _ _ = Inl StructError"

definition pack_into :: "fmt_code list \<Rightarrow> bytes \<Rightarrow> nat \<Rightarrow> py_value list \<Rightarrow> bytes result" where
  "pack_into fmt data offset values =
     (if offset + calcsize fmt \<le> length data
      then bind_res (encode_all fmt values) (\<lambda>bs. Inr (py_slice_assign data offset (offset + calcsize fmt) bs))
      else Inl StructError)"

fun as_nat :: "py_value \<Rightarrow> nat" where
  "as_nat (PNat n) = n"
| "as_nat (PInt i) = nat i"
| "as_nat (PBytes bs) = 0"

fun as_int :: "py_value \<Rightarrow> int" where
  "as_int (PNat n) = int n"
| "as_int (PInt i) = i"
| "as_int (PBytes bs) = 0"

fun as_bytes :: "py_value \<Rightarrow> bytes" where
  "as_bytes (PBytes bs) = bs"
| "as_bytes _ = []"

lemma calcsize_simps [simp]:
  "calcsize [] = 0" "calcsize (c # cs) = code_size c + calcsize cs"
  "calcsize (cs @ ds) = calcsize cs + calcsize ds"
  "calcsize (replicate n c) = n * code_size c"
  by (simp_all add: calcsize_def sum_list_replicate)

lemma length_decode_all [simp]: "length (decode_all fmt bs) = length fmt"
  by (induction fmt arbitrary: bs) simp_all

lemma decode_all_append:
  "decode_all (cs @ ds) bs = decode_all cs bs @ decode_all ds (drop (calcsize cs) bs)"
  by (induction cs arbitrary: bs) (simp_all add: add.commute)

text \<open>The \<open>k\<close>-th 32-bit word of a buffer, counted from a byte offset.\<close>

definition u32_at :: "bytes \<Rightarrow> nat \<Rightarrow> nat" where
  "u32_at data offset = le_nat (py_slice data offset (offset + 4))"

lemma decode_all_I: "decode_all (replicate n Fmt_I) bs = map (\<lambda>k. PNat (u32_at bs (4 * k))) [0..<n]"
proof (induction n arbitrary: bs)
  case 0
  then show ?case by simp
next
  case (Suc n)
  have "u32_at (drop 4 bs) (4 * k) = u32_at bs (4 * Suc k)" for k
    by (simp add: u32_at_def py_slice_def add.commute)
  then have "decode_all (replicate (Suc n) Fmt_I) bs
      = PNat (u32_at bs (4 * 0)) # map (\<lambda>k. PNat (u32_at bs (4 * Suc k))) [0..<n]"
    using Suc.IH by (simp add: u32_at_def py_slice_def)
  also have "\<dots> = map (\<lambda>k. PNat (u32_at bs (4 * k))) [0..<Suc n]"
    by (simp only: upt_conv_Cons [OF zero_less_Suc] list.map map_Suc_upt [symmetric] map_map comp_def)
  finally show ?case .
qed

lemma u32_at_bound: "u32_at data offset < 2 ^ 32"
proof -
  have "length (py_slice data offset (offset + 4)) \<le> 4" by (simp add: length_py_slice)
  then have "(256::nat) ^ length (py_slice data offset (offset + 4)) \<le> 256 ^ 4"
    by (intro power_increasing) simp_all
  moreover have "u32_at data offset < 256 ^ length (py_slice data offset (offset + 4))"
    unfolding u32_at_def by (rule le_nat_bound)
  ultimately show ?thesis by simp
qed

section \<open>Round trips\<close>

text \<open>
  The contract of a format code: what was packed is what is unpacked, in as many bytes as
  \<open>calcsize\<close> announces.  Its consequence for whole formats and for buffers is proved once.
\<close>

locale codec =
  fixes enc :: "'c \<Rightarrow> 'v \<Rightarrow> bytes result"
    and dec :: "'c \<Rightarrow> bytes \<Rightarrow> 'v"
    and size :: "'c \<Rightarrow> nat"
  assumes enc_size: "enc c v = Inr bs \<Longrightarrow> length bs = size c"
    and dec_enc: "enc c v = Inr bs \<Longrightarrow> dec c bs = v"
begin

lemma dec_enc_prefix: "enc c v = Inr bs \<Longrightarrow> dec c (take (size c) (bs @ rest)) = v"
  using enc_size dec_enc by fastforce

end

lemma unsigned_of_bound: "unsigned_of w i < 2 ^ w"
  by (simp add: unsigned_of_def nat_less_iff)

interpretation struct_code: codec encode decode code_size
proof
  fix c v bs
  assume "encode c v = Inr bs"
  then show "length bs = code_size c"
    by (cases c; cases v) (auto split: if_splits)
next
  fix c v bs
  assume "encode c v = Inr bs"
  then show "decode c bs = v"
    using unsigned_of_bound [of 16] unsigned_of_bound [of 32] signed_unsigned_of [of 16] signed_unsigned_of [of 32]
    by (cases c; cases v) (auto simp: le_nat_le_bytes split: if_splits)
qed

lemma encode_all_length: "encode_all fmt vs = Inr bs \<Longrightarrow> length bs = calcsize fmt"
  by (induction fmt vs arbitrary: bs rule: encode_all.induct)
    (auto simp: bind_res_eq_Inr dest: struct_code.enc_size)

lemma decode_encode_all: "encode_all fmt vs = Inr bs \<Longrightarrow> decode_all fmt (bs @ rest) = vs"
proof (induction fmt vs arbitrary: bs rule: encode_all.induct)
  case (2 c cs v vs)
  then obtain b bs' where b: "encode c v = Inr b" and bs': "encode_all cs vs = Inr bs'"
    and "bs = b @ bs'" by (auto simp: bind_res_eq_Inr)
  with "2.IH" [OF b bs'] struct_code.dec_enc_prefix [OF b, of "bs' @ rest"] struct_code.enc_size [OF b]
  show ?case by simp
qed simp_all

lemma pack_into_unpack_from:
  assumes "pack_into fmt data offset vs = Inr data'"
  shows "length data' = length data" and "unpack_from fmt data' offset = Inr vs"
proof -
  from assms obtain bs where len: "offset + calcsize fmt \<le> length data"
    and bs: "encode_all fmt vs = Inr bs"
    and data': "data' = py_slice_assign data offset (offset + calcsize fmt) bs"
    by (auto simp: pack_into_def bind_res_eq_Inr split: if_splits)
  have lbs: "length bs = calcsize fmt" using bs by (rule encode_all_length)
  then show l: "length data' = length data"
    using len data' by (simp add: length_py_slice_assign)
  have "drop offset data' = bs @ drop (offset + calcsize fmt) data"
    using len data' by (simp add: py_slice_assign_def)
  with l len bs show "unpack_from fmt data' offset = Inr vs"
    by (simp add: unpack_from_def decode_encode_all)
qed

end
