(* ===== verification/Fsck.thy ===== *)
theory Fsck
  imports PyText PyStruct
begin

text \<open>
  The offline checker \<open>resources/recovery/fsck.py\<close>: a read-only examination of an xv6 disk image.
  The image is parsed (superblock, log header, inodes, block maps, directories), the pending log is
  replayed into a shadow copy, and both views are inspected; every irregularity is recorded as a
  diagnostic.  The mutable \<open>Diagnostics\<close> object is a set of texts that every function takes and
  returns.  Reads that could run past the end of a buffer keep the exception of the source.
\<close>

section \<open>Constants and data\<close>

definition BSIZE :: nat where "BSIZE = 1024"
definition FSMAGIC :: nat where "FSMAGIC = 0x10203040"
definition ROOTINO :: nat where "ROOTINO = 1"
definition NDIRECT :: nat where "NDIRECT = 12"
definition NINDIRECT :: nat where "NINDIRECT = BSIZE div 4"
definition MAXFILE :: nat where "MAXFILE = NDIRECT + NINDIRECT"
definition IPB :: nat where "IPB = BSIZE div 64"
definition BPB :: nat where "BPB = BSIZE * 8"
definition LOGBLOCKS :: nat where "LOGBLOCKS = 30"
definition T_DIR :: int where "T_DIR = 1"
definition T_FILE :: int where "T_FILE = 2"
definition T_DEVICE :: int where "T_DEVICE = 3"
definition VALID_TYPES :: "int set" where "VALID_TYPES = {T_DIR, T_FILE, T_DEVICE}"
definition DINODE :: "fmt_code list" where
  "DINODE = [Fmt_h, Fmt_h, Fmt_h, Fmt_h, Fmt_I] @ replicate 13 Fmt_I"
definition DIRENT :: "fmt_code list" where "DIRENT = [Fmt_H, Fmt_s 14]"
definition SUPER :: "fmt_code list" where "SUPER = replicate 8 Fmt_I"

lemmas fsck_consts = BSIZE_def FSMAGIC_def ROOTINO_def NDIRECT_def NINDIRECT_def MAXFILE_def
  IPB_def BPB_def LOGBLOCKS_def T_DIR_def T_FILE_def T_DEVICE_def VALID_TYPES_def

record geometry =
  g_size :: nat
  g_nblocks :: nat
  g_ninodes :: nat
  g_nlog :: nat
  g_logstart :: nat
  g_inodestart :: nat
  g_bmapstart :: nat
  g_data_start :: nat

record inode =
  i_inum :: nat
  i_type :: int
  i_major :: int
  i_minor :: int
  i_nlink :: int
  i_size :: nat
  i_addrs :: "nat list"

datatype block_kind = Data | Indirect

type_synonym inodes = "(nat, inode) dict"
type_synonym block_ref = "block_kind \<times> nat \<times> nat"

section \<open>Diagnostics\<close>

type_synonym diags = "string set"

text \<open>
  \<open>Diagnostics.add\<close>: the keyword arguments are rendered in alphabetical order behind the code;
  \<open>Diagnostics.codes\<close> lists the recorded texts in order.
\<close>

definition diag_add :: "string \<Rightarrow> (string \<times> string) list \<Rightarrow> diags \<Rightarrow> diags" where
  "diag_add code kwargs items =
     (let detail = py_join '','' (map (\<lambda>(key, value). key @ ''='' @ value) (sort_key fst kwargs))
      in insert (if detail = [] then code else code @ '':'' @ detail) items)"

definition codes :: "diags \<Rightarrow> string list" where
  "codes items = sorted_list_of_set items"

section \<open>Superblock and log\<close>

definition block :: "bytes \<Rightarrow> nat \<Rightarrow> bytes" where
  "block data number = (let start = number * BSIZE in py_slice data start (start + BSIZE))"

definition parse_geometry :: "bytes \<Rightarrow> diags \<Rightarrow> (geometry option \<times> diags) result" where
  "parse_geometry data diagnostics =
     (if length data < 2 * BSIZE then
        Inr (None, diag_add ''E_IMAGE_TRUNCATED'' [(''bytes'', show_nat (length data))] diagnostics)
      else bind_res (unpack_from SUPER data BSIZE) (\<lambda>values.
        (case map as_nat values of
           [magic, sz, nblocks, ninodes, nlog, logstart, inodestart, bmapstart] \<Rightarrow>
             if magic \<noteq> FSMAGIC then
               Inr (None, diag_add ''E_SUPER_MAGIC'' [(''observed'', show_hex magic)] diagnostics)
             else
               let nbitmap = (sz + BPB - 1) div BPB;
                   data_start = bmapstart + nbitmap;
                   valid = (sz > 0 \<and> length data = sz * BSIZE \<and>
                            0 < ninodes \<and> ninodes \<le> sz * IPB \<and>
                            nlog = LOGBLOCKS + 1 \<and>
                            logstart = 2 \<and>
                            inodestart = logstart + nlog \<and>
                            bmapstart = inodestart + (ninodes + IPB - 1) div IPB \<and>
                            data_start < sz \<and> nblocks = sz - data_start)
               in if \<not> valid then
                    Inr (None, diag_add ''E_SUPER_GEOMETRY''
                           [(''bytes'', show_nat (length data)), (''size'', show_nat sz)] diagnostics)
                  else
                    Inr (Some \<lparr>g_size = sz, g_nblocks = nblocks, g_ninodes = ninodes,
                               g_nlog = nlog, g_logstart = logstart, g_inodestart = inodestart,
                               g_bmapstart = bmapstart, g_data_start = data_start\<rparr>, diagnostics)
         | _ \<Rightarrow> Inl ValueError)))"

definition log_target_step :: "geometry \<Rightarrow> nat set \<times> diags \<Rightarrow> nat \<times> nat \<Rightarrow> nat set \<times> diags" where
  "log_target_step geometry = (\<lambda>(seen, diagnostics) (index, target).
     let kwargs = [(''index'', show_nat index), (''target'', show_nat target)];
         diagnostics =
           (if target < g_inodestart geometry \<or> target \<ge> g_size geometry \<or>
               (g_logstart geometry \<le> target \<and> target < g_logstart geometry + g_nlog geometry)
            then diag_add ''E_LOG_TARGET'' kwargs diagnostics else diagnostics);
         diagnostics =
           (if target \<in> seen then diag_add ''E_LOG_DUP'' kwargs diagnostics else diagnostics)
     in (insert target seen, diagnostics))"

definition replay_step :: "bytes \<Rightarrow> geometry \<Rightarrow> bytes \<Rightarrow> nat \<times> nat \<Rightarrow> bytes" where
  "replay_step data geometry shadow = (\<lambda>(index, target).
     let source = g_logstart geometry + 1 + index
     in py_slice_assign shadow (target * BSIZE) ((target + 1) * BSIZE) (block data source))"

definition parse_log ::
    "bytes \<Rightarrow> geometry \<Rightarrow> diags \<Rightarrow> ((int \<times> nat list \<times> bytes option) \<times> diags) result" where
  "parse_log data geometry diagnostics =
     (let header = block data (g_logstart geometry) in
      bind_res (unpack_from [Fmt_i] header 0) (\<lambda>values.
      let count = as_int (hd values) in
      if count < 0 \<or> count > int LOGBLOCKS then
        Inr ((count, [], None), diag_add ''E_LOG_COUNT'' [(''count'', show_int count)] diagnostics)
      else
        bind_res (if count \<noteq> 0 then unpack_from (replicate (nat count) Fmt_I) header 4 else Inr [])
        (\<lambda>entries.
         let targets = map as_nat entries;
             (seen, diagnostics) =
               foldl (log_target_step geometry) ({}, diagnostics) (enumerate 0 targets)
         in if diagnostics \<noteq> {} then Inr ((count, targets, None), diagnostics)
            else
              let shadow = foldl (replay_step data geometry) data (enumerate 0 targets)
              in bind_res (pack_into [Fmt_i] shadow (g_logstart geometry * BSIZE) [PInt 0])
                   (\<lambda>shadow. Inr ((count, targets, Some shadow), diagnostics)))))"

section \<open>Inodes and their block maps\<close>

definition inode_of_fields :: "nat \<Rightarrow> py_value list \<Rightarrow> inode" where
  "inode_of_fields inum values =
     \<lparr>i_inum = inum, i_type = as_int (values ! 0), i_major = as_int (values ! 1),
      i_minor = as_int (values ! 2), i_nlink = as_int (values ! 3), i_size = as_nat (values ! 4),
      i_addrs = map as_nat (drop 5 values)\<rparr>"

definition parse_inode_step ::
    "bytes \<Rightarrow> geometry \<Rightarrow> inodes \<times> diags \<Rightarrow> nat \<Rightarrow> (inodes \<times> diags) result" where
  "parse_inode_step data geometry = (\<lambda>(inodes, diagnostics) inum.
     let offset = g_inodestart geometry * BSIZE + inum * calcsize DINODE in
     bind_res (unpack_from DINODE data offset) (\<lambda>values.
       let inode = inode_of_fields inum values in
       if i_type inode = 0 then Inr (inodes, diagnostics)
       else if i_type inode \<notin> VALID_TYPES then
         Inr (inodes, diag_add ''E_INODE_TYPE''
                [(''inum'', show_nat inum), (''type'', show_int (i_type inode))] diagnostics)
       else
         Inr (dput inum inode inodes,
              if i_size inode > MAXFILE * BSIZE
              then diag_add ''E_INODE_SIZE''
                     [(''inum'', show_nat inum), (''size'', show_nat (i_size inode))] diagnostics
              else diagnostics)))"

definition parse_inodes :: "bytes \<Rightarrow> geometry \<Rightarrow> diags \<Rightarrow> (inodes \<times> diags) result" where
  "parse_inodes data geometry diagnostics =
     bind_res (fold_res (parse_inode_step data geometry) ([], diagnostics) [1..<g_ninodes geometry])
     (\<lambda>(inodes, diagnostics).
        Inr (inodes,
             (case map_of inodes ROOTINO of
                None \<Rightarrow> diag_add ''E_ROOT'' [] diagnostics
              | Some root \<Rightarrow> if i_type root \<noteq> T_DIR then diag_add ''E_ROOT'' [] diagnostics
                             else diagnostics)))"

definition in_region :: "geometry \<Rightarrow> nat \<Rightarrow> bool" where
  "in_region geometry address \<longleftrightarrow> g_data_start geometry \<le> address \<and> address < g_size geometry"

definition map_step :: "inode \<Rightarrow> nat \<Rightarrow> diags \<Rightarrow> nat \<times> nat \<Rightarrow> diags" where
  "map_step inode required diagnostics = (\<lambda>(index, address).
     let kwargs = [(''index'', show_nat index), (''inum'', show_nat (i_inum inode))]
     in if index < required \<and> address = 0 then diag_add ''E_INODE_HOLE'' kwargs diagnostics
        else if index \<ge> required \<and> address \<noteq> 0 then diag_add ''E_INODE_TRAILING'' kwargs diagnostics
        else diagnostics)"

definition show_kind :: "block_kind \<Rightarrow> string" where
  "show_kind kind = (case kind of Data \<Rightarrow> ''data'' | Indirect \<Rightarrow> ''indirect'')"

definition region_step :: "geometry \<Rightarrow> inode \<Rightarrow> diags \<Rightarrow> block_ref \<Rightarrow> diags" where
  "region_step geometry inode diagnostics = (\<lambda>(kind, index, address).
     if \<not> in_region geometry address then
       diag_add ''E_BLOCK_REGION''
         [(''block'', show_nat address), (''index'', show_nat index),
          (''inum'', show_nat (i_inum inode)), (''kind'', show_kind kind)] diagnostics
     else diagnostics)"

definition nonzero_refs :: "nat \<Rightarrow> nat list \<Rightarrow> block_ref list" where
  "nonzero_refs base entries =
     map (\<lambda>(index, address). (Data, base + index, address))
       (filter (\<lambda>(index, address). address \<noteq> 0) (enumerate 0 entries))"

definition inode_blocks ::
    "bytes \<Rightarrow> geometry \<Rightarrow> inode \<Rightarrow> diags \<Rightarrow> (block_ref list \<times> diags) result" where
  "inode_blocks data geometry inode diagnostics =
     (let direct = take NDIRECT (i_addrs inode);
          addresses = nonzero_refs 0 direct in
      if NDIRECT < length (i_addrs inode) then
        let indirect = i_addrs inode ! NDIRECT in
        bind_res
          (if indirect \<noteq> 0 \<and> in_region geometry indirect
           then bind_res (unpack (replicate NINDIRECT Fmt_I) (block data indirect))
                  (\<lambda>entries. Inr (map as_nat entries))
           else Inr (replicate NINDIRECT 0))
          (\<lambda>entries.
           let addresses =
                 (if indirect \<noteq> 0
                  then addresses @ [(Indirect, NDIRECT, indirect)] @ nonzero_refs NDIRECT entries
                  else addresses);
               logical = direct @ entries;
               required = (i_size inode + BSIZE - 1) div BSIZE;
               diagnostics = foldl (map_step inode required) diagnostics (enumerate 0 logical);
               diagnostics =
                 (if required \<le> NDIRECT \<and> indirect \<noteq> 0
                  then diag_add ''E_INODE_TRAILING''
                         [(''index'', show_nat NDIRECT), (''inum'', show_nat (i_inum inode))] diagnostics
                  else diagnostics);
               diagnostics = foldl (region_step geometry inode) diagnostics addresses
           in Inr (addresses, diagnostics))
      else Inl IndexError)"

definition bitmap_bit :: "bytes \<Rightarrow> geometry \<Rightarrow> nat \<Rightarrow> bool result" where
  "bitmap_bit data geometry number =
     (let bitmap_block = g_bmapstart geometry + number div BPB;
          offset = number mod BPB;
          bytes = block data bitmap_block
      in if offset div 8 < length bytes then Inr (bit (bytes ! (offset div 8)) (offset mod 8))
         else Inl IndexError)"

definition read_chunk_step ::
    "bytes \<Rightarrow> inode \<Rightarrow> (nat, nat) dict \<Rightarrow> bytes \<times> nat \<times> diags \<Rightarrow> nat \<Rightarrow> bytes \<times> nat \<times> diags" where
  "read_chunk_step data inode data_blocks = (\<lambda>(chunks, remaining, diagnostics) index.
     let count = min remaining BSIZE in
     (case map_of data_blocks index of
        None \<Rightarrow> (chunks @ replicate count 0, remaining - count,
                 diag_add ''E_INODE_HOLE''
                   [(''index'', show_nat index), (''inum'', show_nat (i_inum inode))] diagnostics)
      | Some address \<Rightarrow>
          (chunks @ take count (block data address), remaining - count, diagnostics)))"

definition read_inode_bytes ::
    "bytes \<Rightarrow> geometry \<Rightarrow> inode \<Rightarrow> diags \<Rightarrow> (bytes \<times> diags) result" where
  "read_inode_bytes data geometry inode diagnostics =
     bind_res (inode_blocks data geometry inode diagnostics) (\<lambda>(refs, diagnostics).
       let data_blocks =
             foldl (\<lambda>d (kind, index, address). dput index address d) []
               (filter (\<lambda>(kind, index, address). kind = Data \<and> in_region geometry address) refs);
           (chunks, remaining, diagnostics) =
             foldl (read_chunk_step data inode data_blocks) ([], i_size inode, diagnostics)
               [0..<(i_size inode + BSIZE - 1) div BSIZE]
       in Inr (chunks, diagnostics))"

definition decode_name :: "bytes \<Rightarrow> bytes" where
  "decode_name raw = takeWhile (\<lambda>b. b \<noteq> 0) raw"

section \<open>Inspection of a view\<close>

text \<open>
  \<open>inspect_view\<close> runs five passes over the inode table; each pass is a function of its own.
  A \<open>defaultdict\<close> is a dictionary read with a default.
\<close>

definition incr :: "nat \<Rightarrow> (nat, nat) dict \<Rightarrow> (nat, nat) dict" where
  "incr key d = dput key (dget_or d key 0 + 1) d"

definition dappend :: "'k \<Rightarrow> 'v \<Rightarrow> ('k, 'v list) dict \<Rightarrow> ('k, 'v list) dict" where
  "dappend key x d = dput key (dget_or d key [] @ [x]) d"

type_synonym owner_table = "(nat, (nat \<times> block_kind \<times> nat) list) dict"

definition owner_step :: "geometry \<Rightarrow> inode \<Rightarrow> owner_table \<Rightarrow> block_ref \<Rightarrow> owner_table" where
  "owner_step geometry inode owners = (\<lambda>(kind, index, address).
     if in_region geometry address then dappend address (i_inum inode, kind, index) owners
     else owners)"

definition owners_of_inode ::
    "bytes \<Rightarrow> geometry \<Rightarrow> owner_table \<times> diags \<Rightarrow> inode \<Rightarrow> (owner_table \<times> diags) result" where
  "owners_of_inode data geometry = (\<lambda>(owners, diagnostics) inode.
     bind_res (inode_blocks data geometry inode diagnostics) (\<lambda>(refs, diagnostics).
       Inr (foldl (owner_step geometry inode) owners refs, diagnostics)))"

definition owners_pass ::
    "bytes \<Rightarrow> geometry \<Rightarrow> inodes \<Rightarrow> diags \<Rightarrow> (owner_table \<times> diags) result" where
  "owners_pass data geometry inodes diagnostics =
     fold_res (owners_of_inode data geometry) ([], diagnostics) (dvalues inodes)"

definition owner_check ::
    "bytes \<Rightarrow> geometry \<Rightarrow> diags \<Rightarrow> nat \<times> (nat \<times> block_kind \<times> nat) list \<Rightarrow> diags result" where
  "owner_check data geometry diagnostics = (\<lambda>(number, entries).
     let diagnostics =
           (if length entries > 1
            then diag_add ''E_BLOCK_DUP''
                   [(''block'', show_nat number), (''owners'', show_nat (length entries))] diagnostics
            else diagnostics)
     in bind_res (bitmap_bit data geometry number) (\<lambda>marked.
          Inr (if \<not> marked
               then diag_add ''E_BITMAP_UNMARKED'' [(''block'', show_nat number)] diagnostics
               else diagnostics)))"

definition metadata_check :: "bytes \<Rightarrow> geometry \<Rightarrow> diags \<Rightarrow> nat \<Rightarrow> diags result" where
  "metadata_check data geometry diagnostics number =
     bind_res (bitmap_bit data geometry number) (\<lambda>marked.
       Inr (if \<not> marked
            then diag_add ''E_BITMAP_METADATA'' [(''block'', show_nat number)] diagnostics
            else diagnostics))"

definition leak_check ::
    "bytes \<Rightarrow> geometry \<Rightarrow> owner_table \<Rightarrow> diags \<Rightarrow> nat \<Rightarrow> diags result" where
  "leak_check data geometry owners diagnostics number =
     bind_res (bitmap_bit data geometry number) (\<lambda>marked.
       Inr (if marked \<and> number \<notin> set (dkeys owners)
            then diag_add ''E_BITMAP_LEAK'' [(''block'', show_nat number)] diagnostics
            else diagnostics))"

definition bitmap_pass ::
    "bytes \<Rightarrow> geometry \<Rightarrow> owner_table \<Rightarrow> diags \<Rightarrow> diags result" where
  "bitmap_pass data geometry owners diagnostics =
     bind_res (fold_res (owner_check data geometry) diagnostics owners) (\<lambda>diagnostics.
     bind_res (fold_res (metadata_check data geometry) diagnostics [0..<g_data_start geometry])
     (\<lambda>diagnostics.
       fold_res (leak_check data geometry owners) diagnostics
         [g_data_start geometry..<g_size geometry]))"

record dir_scan =
  sc_edges :: "(nat, (bytes \<times> nat) list) dict"
  sc_dots :: "nat set"
  sc_dotdot :: "(nat, nat) dict"
  sc_references :: "(nat, nat) dict"

definition DOT :: bytes where "DOT = [0x2E]"
definition DOTDOT :: bytes where "DOTDOT = [0x2E, 0x2E]"

definition bytes_hex :: "bytes \<Rightarrow> string" where
  "bytes_hex bs = concat (map (\<lambda>b. [digit_char (unat b div 16), digit_char (unat b mod 16)]) bs)"

definition dirent_entry ::
    "inodes \<Rightarrow> nat \<Rightarrow> nat \<Rightarrow> bytes set \<times> dir_scan \<times> diags \<Rightarrow> nat \<Rightarrow> bytes
       \<Rightarrow> bytes set \<times> dir_scan \<times> diags" where
  "dirent_entry inodes inum offset = (\<lambda>(names, scan, diagnostics) target raw_name.
     if target = 0 then (names, scan, diagnostics)
     else let name = decode_name raw_name in
       if name = [] then
         (names, scan, diag_add ''E_DIR_NAME''
            [(''inum'', show_nat inum), (''offset'', show_nat offset)] diagnostics)
       else
         let diagnostics =
               (if name \<in> names
                then diag_add ''E_DIR_NAME_DUP''
                       [(''inum'', show_nat inum), (''name'', bytes_hex name)] diagnostics
                else diagnostics);
             names = insert name names;
             kwargs = [(''inum'', show_nat inum), (''target'', show_nat target)]
         in if target \<notin> set (dkeys inodes) then
              (names, scan, diag_add ''E_DIRENT_INUM'' kwargs diagnostics)
            else if name = DOT then
              (names, scan\<lparr>sc_dots := insert inum (sc_dots scan)\<rparr>,
               if target \<noteq> inum then diag_add ''E_DOT'' kwargs diagnostics else diagnostics)
            else if name = DOTDOT then
              (names, scan\<lparr>sc_dotdot := dput inum target (sc_dotdot scan)\<rparr>, diagnostics)
            else
              (names, scan\<lparr>sc_edges := dappend inum (name, target) (sc_edges scan),
                           sc_references := incr target (sc_references scan)\<rparr>, diagnostics))"

definition scan_dirent ::
    "inodes \<Rightarrow> nat \<Rightarrow> bytes \<Rightarrow> bytes set \<times> dir_scan \<times> diags \<Rightarrow> nat
       \<Rightarrow> (bytes set \<times> dir_scan \<times> diags) result" where
  "scan_dirent inodes inum payload state offset =
     bind_res (unpack_from DIRENT payload offset) (\<lambda>values.
       Inr (dirent_entry inodes inum offset state (as_nat (values ! 0)) (as_bytes (values ! 1))))"

definition scan_directory ::
    "bytes \<Rightarrow> geometry \<Rightarrow> inodes \<Rightarrow> dir_scan \<times> diags \<Rightarrow> inode \<Rightarrow> (dir_scan \<times> diags) result" where
  "scan_directory data geometry inodes = (\<lambda>(scan, diagnostics) inode.
     if i_type inode \<noteq> T_DIR then Inr (scan, diagnostics)
     else bind_res (read_inode_bytes data geometry inode diagnostics) (\<lambda>(payload, diagnostics).
       let diagnostics =
             (if length payload mod calcsize DIRENT \<noteq> 0
              then diag_add ''E_DIR_SIZE''
                     [(''inum'', show_nat (i_inum inode)), (''size'', show_nat (length payload))]
                     diagnostics
              else diagnostics)
       in bind_res
            (fold_res (scan_dirent inodes (i_inum inode) payload) ({}, scan, diagnostics)
               (py_range 0 (length payload + 1 - calcsize DIRENT) (calcsize DIRENT)))
            (\<lambda>(names, scan, diagnostics). Inr (scan, diagnostics))))"

definition directory_pass ::
    "bytes \<Rightarrow> geometry \<Rightarrow> inodes \<Rightarrow> diags \<Rightarrow> (dir_scan \<times> diags) result" where
  "directory_pass data geometry inodes diagnostics =
     fold_res (scan_directory data geometry inodes)
       (\<lparr>sc_edges = [], sc_dots = {}, sc_dotdot = [], sc_references = []\<rparr>, diagnostics)
       (dvalues inodes)"

record walk =
  w_queue :: "nat list"
  w_reachable :: "nat set"
  w_parents :: "(nat, nat) dict"
  w_incoming :: "(nat, nat) dict"
  w_children :: "(nat, nat) dict"
  w_diags :: diags

definition walk_edge :: "inodes \<Rightarrow> nat \<Rightarrow> walk \<Rightarrow> bytes \<times> nat \<Rightarrow> walk" where
  "walk_edge inodes current w = (\<lambda>(name, target).
     (case map_of inodes target of
        None \<Rightarrow> w
      | Some child \<Rightarrow>
          if i_type child = T_DIR then
            let kwargs = [(''inum'', show_nat target)];
                w = w\<lparr>w_children := incr current (w_children w),
                      w_incoming := incr target (w_incoming w)\<rparr>;
                w = (if dget_or (w_incoming w) target 0 > 1
                     then w\<lparr>w_diags := diag_add ''E_DIR_MULTIPARENT'' kwargs (w_diags w)\<rparr> else w);
                w = (case map_of (w_parents w) target of
                       Some parent \<Rightarrow>
                         if parent \<noteq> current
                         then w\<lparr>w_diags := diag_add ''E_DIR_PARENT'' kwargs (w_diags w)\<rparr>
                         else w\<lparr>w_parents := dput target current (w_parents w)\<rparr>
                     | None \<Rightarrow> w\<lparr>w_parents := dput target current (w_parents w)\<rparr>)
            in if target \<in> w_reachable w
               then w\<lparr>w_diags := diag_add ''E_DIR_CYCLE'' kwargs (w_diags w)\<rparr>
               else w\<lparr>w_queue := w_queue w @ [target]\<rparr>
          else w\<lparr>w_reachable := insert target (w_reachable w)\<rparr>))"

definition walk_visit :: "inodes \<Rightarrow> (nat, (bytes \<times> nat) list) dict \<Rightarrow> nat \<Rightarrow> walk \<Rightarrow> walk" where
  "walk_visit inodes edges current w =
     foldl (walk_edge inodes current) (w\<lparr>w_reachable := insert current (w_reachable w)\<rparr>)
       (dget_or edges current [])"

lemma walk_edge_reachable: "w_reachable w \<subseteq> w_reachable (walk_edge inodes current w e)"
  by (cases e) (auto simp: walk_edge_def Let_def split: option.splits)

lemma walk_edges_reachable:
  "w_reachable w \<subseteq> w_reachable (foldl (walk_edge inodes current) w es)"
  by (induction es arbitrary: w) (auto dest: subsetD [OF walk_edge_reachable])

lemma walk_visit_reachable: "insert current (w_reachable w) \<subseteq> w_reachable (walk_visit inodes edges current w)"
  unfolding walk_visit_def
  using walk_edges_reachable [of "w\<lparr>w_reachable := insert current (w_reachable w)\<rparr>"] by simp

lemma dget_or_default: "key \<notin> set (dkeys d) \<Longrightarrow> dget_or d key x = x"
  by (simp add: dget_or_def dkeys_def map_of_eq_None_iff [THEN iffD2])

text \<open>The breadth-first search over directory entries, \<open>while queue\<close>.\<close>

function bfs :: "inodes \<Rightarrow> (nat, (bytes \<times> nat) list) dict \<Rightarrow> walk \<Rightarrow> walk" where
  "bfs inodes edges w =
     (case w_queue w of
        [] \<Rightarrow> w
      | current # rest \<Rightarrow>
          if current \<in> w_reachable w then bfs inodes edges (w\<lparr>w_queue := rest\<rparr>)
          else bfs inodes edges (walk_visit inodes edges current (w\<lparr>w_queue := rest\<rparr>)))"
  by pat_completeness auto

termination bfs
proof (relation "inv_image ({(m, n). m < n} <*lex*> {(m, n). m < n})
    (\<lambda>(inodes, edges, w). (card (set (dkeys edges) - w_reachable w), length (w_queue w)))", goal_cases)
  case 1
  show ?case by (intro wf_inv_image wf_lex_prod wf_less)
next
  case (2 inodes edges w current rest)
  then show ?case by simp
next
  case (3 inodes edges w current rest)
  let ?w = "w\<lparr>w_queue := rest\<rparr>" and ?v = "walk_visit inodes edges current (w\<lparr>w_queue := rest\<rparr>)"
  have sub: "insert current (w_reachable w) \<subseteq> w_reachable ?v"
    using walk_visit_reachable [of current ?w inodes edges] by simp
  show ?case
  proof (cases "current \<in> set (dkeys edges)")
    case True
    then have "card (set (dkeys edges) - w_reachable ?v) < card (set (dkeys edges) - w_reachable w)"
      using sub 3(2) by (intro psubset_card_mono) auto
    then show ?thesis by simp
  next
    case False
    then have v: "?v = ?w\<lparr>w_reachable := insert current (w_reachable w)\<rparr>"
      by (simp add: walk_visit_def dget_or_default)
    have "set (dkeys edges) - insert current (w_reachable w) = set (dkeys edges) - w_reachable w"
      using False by auto
    then show ?thesis using 3(1) by (simp add: v)
  qed
qed

declare bfs.simps [simp del]

definition links_check ::
    "dir_scan \<Rightarrow> walk \<Rightarrow> diags \<Rightarrow> nat \<times> inode \<Rightarrow> diags" where
  "links_check scan w diagnostics = (\<lambda>(inum, inode).
     let n = show_nat inum;
         diagnostics =
           (if i_type inode = T_DIR \<and> inum \<notin> sc_dots scan
            then diag_add ''E_DOT'' [(''inum'', n), (''target'', ''-1'')] diagnostics
            else diagnostics);
         diagnostics =
           (if inum \<notin> w_reachable w
            then diag_add (if i_nlink inode = 0 then ''E_ORPHAN'' else ''E_UNREACHABLE'')
                   [(''inum'', n)] diagnostics
            else diagnostics);
         expected_parent = (if inum = ROOTINO then Some ROOTINO else map_of (w_parents w) inum);
         diagnostics =
           (if i_type inode = T_DIR \<and> inum \<in> w_reachable w
               \<and> map_of (sc_dotdot scan) inum \<noteq> expected_parent
            then diag_add ''E_DOTDOT''
                   [(''inum'', n),
                    (''target'', case map_of (sc_dotdot scan) inum of
                                   None \<Rightarrow> ''-1'' | Some target \<Rightarrow> show_nat target)] diagnostics
            else diagnostics)
     in if i_type inode = T_DIR then
          let expected_links = 1 + dget_or (w_children w) inum 0
          in if inum \<in> w_reachable w \<and> i_nlink inode \<noteq> int expected_links
             then diag_add ''E_NLINK''
                    [(''expected'', show_nat expected_links), (''inum'', n),
                     (''observed'', show_int (i_nlink inode))] diagnostics
             else diagnostics
        else
          let expected = dget_or (sc_references scan) inum 0
          in if i_nlink inode \<noteq> int expected
             then diag_add ''E_NLINK''
                    [(''expected'', show_nat expected), (''inum'', n),
                     (''observed'', show_int (i_nlink inode))] diagnostics
             else diagnostics)"

record view =
  v_allocated_inodes :: nat
  v_owned_blocks :: nat
  v_reachable_inodes :: nat
  v_diagnostics :: "string list"

definition walk_start :: "inodes \<Rightarrow> diags \<Rightarrow> walk" where
  "walk_start inodes diagnostics =
     \<lparr>w_queue = (if ROOTINO \<in> set (dkeys inodes) then [ROOTINO] else []), w_reachable = {},
      w_parents = [(ROOTINO, ROOTINO)], w_incoming = [], w_children = [], w_diags = diagnostics\<rparr>"

definition inspect_view :: "bytes \<Rightarrow> geometry \<Rightarrow> view result" where
  "inspect_view data geometry =
     bind_res (parse_inodes data geometry {}) (\<lambda>(inodes, diagnostics).
     bind_res (owners_pass data geometry inodes diagnostics) (\<lambda>(owners, diagnostics).
     bind_res (bitmap_pass data geometry owners diagnostics) (\<lambda>diagnostics.
     bind_res (directory_pass data geometry inodes diagnostics) (\<lambda>(scan, diagnostics).
       let w = bfs inodes (sc_edges scan) (walk_start inodes diagnostics);
           diagnostics = foldl (links_check scan w) (w_diags w) inodes
       in Inr \<lparr>v_allocated_inodes = length inodes, v_owned_blocks = length owners,
               v_reachable_inodes = card (w_reachable w), v_diagnostics = codes diagnostics\<rparr>))))"

section \<open>The report\<close>

record check_report =
  r_clean :: bool
  r_raw_clean :: bool
  r_recovered_clean :: bool
  r_log_pending :: "bool option"
  r_geometry :: "geometry option"
  r_log :: "(int \<times> nat list) option"
  r_raw_sha256 :: "string option"
  r_shadow_sha256 :: "string option"
  r_raw :: "view option"
  r_replayed :: "view option"
  r_diagnostics :: "string list"
  r_input_sha256 :: "string option"

definition failed_report ::
    "geometry option \<Rightarrow> (int \<times> nat list) option \<Rightarrow> string list \<Rightarrow> check_report" where
  "failed_report geometry log diagnostics =
     \<lparr>r_clean = False, r_raw_clean = False, r_recovered_clean = False, r_log_pending = None,
      r_geometry = geometry, r_log = log, r_raw_sha256 = None, r_shadow_sha256 = None,
      r_raw = None, r_replayed = None, r_diagnostics = diagnostics, r_input_sha256 = None\<rparr>"

text \<open>The digest function (\<open>hashlib.sha256(..).hexdigest()\<close>) is an argument.\<close>

definition check_bytes :: "(bytes \<Rightarrow> string) \<Rightarrow> bytes \<Rightarrow> check_report result" where
  "check_bytes sha256 data =
     bind_res (parse_geometry data {}) (\<lambda>(parsed, top).
     (case parsed of
        None \<Rightarrow> Inr (failed_report None None (codes top))
      | Some geometry \<Rightarrow>
          bind_res (parse_log data geometry top) (\<lambda>((count, targets, replay), top).
          (case replay of
             None \<Rightarrow> Inr (failed_report (Some geometry) (Some (count, targets)) (codes top))
           | Some shadow \<Rightarrow>
               bind_res (inspect_view data geometry) (\<lambda>raw.
               bind_res (inspect_view shadow geometry) (\<lambda>replayed.
               let raw_clean = (codes top = [] \<and> v_diagnostics raw = []);
                   recovered_clean = (codes top = [] \<and> v_diagnostics replayed = [])
               in Inr \<lparr>r_clean = recovered_clean, r_raw_clean = raw_clean,
                       r_recovered_clean = recovered_clean, r_log_pending = Some (count \<noteq> 0),
                       r_geometry = Some geometry, r_log = Some (count, targets),
                       r_raw_sha256 = Some (sha256 data), r_shadow_sha256 = Some (sha256 shadow),
                       r_raw = Some raw, r_replayed = Some replayed,
                       r_diagnostics = codes top @ v_diagnostics replayed,
                       r_input_sha256 = None\<rparr>))))))"

text \<open>
  \<open>check_path\<close> reads the file three times; the arguments are the contents that the three reads see.
  \<open>main\<close> turns the outcome into the exit status.
\<close>

definition check_path ::
    "(bytes \<Rightarrow> string) \<Rightarrow> bytes \<Rightarrow> bytes \<Rightarrow> bytes \<Rightarrow> check_report result" where
  "check_path sha256 read1 read2 read3 =
     (let before = sha256 read1 in
      bind_res (check_bytes sha256 read2) (\<lambda>result.
      let after = sha256 read3 in
      if before \<noteq> after then Inl (ImageError ''checker modified its input'')
      else Inr (result\<lparr>r_input_sha256 := Some before\<rparr>)))"

definition fsck_main ::
    "(bytes \<Rightarrow> string) \<Rightarrow> bytes \<Rightarrow> bytes \<Rightarrow> bytes \<Rightarrow> nat result" where
  "fsck_main sha256 read1 read2 read3 =
     (case check_path sha256 read1 read2 read3 of
        Inl (ImageError msg) \<Rightarrow> Inr 2
      | Inl StructError \<Rightarrow> Inr 2
      | Inl ValueError \<Rightarrow> Inr 2
      | Inl other \<Rightarrow> Inl other
      | Inr result \<Rightarrow> Inr (if r_clean result then 0 else 1))"

end
