(* ===== verification/FsckLog.thy ===== *)
theory FsckLog
  imports Fsck
begin

text \<open>
  Geometry and log replay of the image checker.  An accepted geometry fixes the layout of the
  image; on such an image the log parser never raises, and an accepted log is replayed exactly:
  every home block receives the payload of its log slot, the header count becomes zero and no
  other byte changes.  Replaying the result again changes nothing.
\<close>

section \<open>Images as block devices\<close>

text \<open>
  What the log code relies on when it treats the image as an array of blocks: a block reads back
  what was last written to it and a write disturbs no other block.
\<close>

locale block_device =
  fixes rd :: "'d \<Rightarrow> nat \<Rightarrow> 'b"
    and wr :: "nat \<Rightarrow> 'b \<Rightarrow> 'd \<Rightarrow> 'd"
    and blocks :: "'d \<Rightarrow> nat"
    and device :: "'d \<Rightarrow> bool"
    and whole :: "'b \<Rightarrow> bool"
  assumes wr_device: "device d \<Longrightarrow> n < blocks d \<Longrightarrow> whole b \<Longrightarrow> device (wr n b d)"
    and wr_blocks: "device d \<Longrightarrow> n < blocks d \<Longrightarrow> whole b \<Longrightarrow> blocks (wr n b d) = blocks d"
    and rd_wr: "device d \<Longrightarrow> n < blocks d \<Longrightarrow> m < blocks d \<Longrightarrow> whole b \<Longrightarrow>
      rd (wr n b d) m = (if m = n then b else rd d m)"
    and rd_whole: "device d \<Longrightarrow> n < blocks d \<Longrightarrow> whole (rd d n)"
begin

definition write_all :: "(nat \<times> 'b) list \<Rightarrow> 'd \<Rightarrow> 'd" where
  "write_all ws d = foldl (\<lambda>d (n, b). wr n b d) d ws"

definition writable :: "'d \<Rightarrow> (nat \<times> 'b) list \<Rightarrow> bool" where
  "writable d ws \<longleftrightarrow> (\<forall>(n, b) \<in> set ws. n < blocks d \<and> whole b)"

lemma write_all_device:
  "device d \<Longrightarrow> writable d ws \<Longrightarrow> device (write_all ws d) \<and> blocks (write_all ws d) = blocks d"
proof (induction ws arbitrary: d)
  case Nil
  then show ?case by (simp add: write_all_def)
next
  case (Cons w ws)
  then show ?case
    by (cases w) (auto simp: write_all_def writable_def wr_device wr_blocks)
qed

lemma rd_write_all:
  "device d \<Longrightarrow> writable d ws \<Longrightarrow> m < blocks d \<Longrightarrow>
     rd (write_all ws d) m = (case map_of (rev ws) m of None \<Rightarrow> rd d m | Some b \<Rightarrow> b)"
proof (induction ws arbitrary: d)
  case Nil
  then show ?case by (simp add: write_all_def)
next
  case (Cons w ws)
  obtain n b where w: "w = (n, b)" by (cases w)
  have n: "n < blocks d" "whole b" and ws: "writable d ws"
    using Cons.prems(2) by (auto simp: writable_def w)
  let ?d = "wr n b d"
  have "device ?d" "blocks ?d = blocks d" using Cons.prems n by (auto simp: wr_device wr_blocks)
  moreover have "writable ?d ws" using ws \<open>blocks ?d = blocks d\<close> by (simp add: writable_def)
  ultimately have "rd (write_all ws ?d) m
      = (case map_of (rev ws) m of None \<Rightarrow> rd ?d m | Some b \<Rightarrow> b)"
    using Cons.IH [of ?d] Cons.prems(3) by simp
  then show ?case
    using Cons.prems n by (auto simp: w write_all_def rd_wr map_add_def split: option.splits)
qed

end

definition write_block :: "nat \<Rightarrow> bytes \<Rightarrow> bytes \<Rightarrow> bytes" where
  "write_block n b data = py_slice_assign data (n * BSIZE) ((n + 1) * BSIZE) b"

definition image_blocks :: "bytes \<Rightarrow> nat" where
  "image_blocks data = length data div BSIZE"

definition is_image :: "bytes \<Rightarrow> bool" where
  "is_image data \<longleftrightarrow> BSIZE dvd length data"

lemma BSIZE_pos [simp]: "0 < BSIZE"
  by (simp add: BSIZE_def)

lemma block_bound: "n < image_blocks data \<Longrightarrow> n * BSIZE + BSIZE \<le> length data"
proof -
  assume "n < image_blocks data"
  then have "Suc n \<le> length data div BSIZE" by (simp add: image_blocks_def)
  then have "Suc n * BSIZE \<le> length data div BSIZE * BSIZE" by (rule mult_le_mono1)
  also have "\<dots> \<le> length data" by simp
  finally show ?thesis by simp
qed

lemma length_block [simp]: "n < image_blocks data \<Longrightarrow> length (block data n) = BSIZE"
  using block_bound [of n data] by (simp add: block_def length_py_slice Let_def)

lemma nth_block: "n < image_blocks data \<Longrightarrow> k < BSIZE \<Longrightarrow> block data n ! k = data ! (n * BSIZE + k)"
  using block_bound [of n data] by (simp add: block_def nth_py_slice Let_def)

lemma length_write_block:
  "n < image_blocks data \<Longrightarrow> length b = BSIZE \<Longrightarrow> length (write_block n b data) = length data"
  using block_bound [of n data] unfolding write_block_def by (intro length_py_slice_assign) simp_all

lemma block_index_disjoint:
  fixes k s :: nat
  assumes "k < s"
  shows "n * s \<le> m * s + k \<and> m * s + k < n * s + s \<longleftrightarrow> m = n"
proof
  assume *: "n * s \<le> m * s + k \<and> m * s + k < n * s + s"
  have "(m * s + k) div s = m" using assms by simp
  moreover have "(m * s + k) div s = n"
    using * by (intro div_nat_eqI) (simp_all add: mult.commute)
  ultimately show "m = n" by simp
qed (use assms in simp)

lemma block_write_block:
  assumes "n < image_blocks data" and "m < image_blocks data" and "length b = BSIZE"
  shows "block (write_block n b data) m = (if m = n then b else block data m)"
proof (rule nth_equalityI)
  have m: "m < image_blocks (write_block n b data)"
    using assms by (simp add: image_blocks_def length_write_block)
  then show "length (block (write_block n b data) m) = length (if m = n then b else block data m)"
    using assms by simp
  fix k
  assume "k < length (block (write_block n b data) m)"
  then have k: "k < BSIZE" using m by simp
  have "block (write_block n b data) m ! k = write_block n b data ! (m * BSIZE + k)"
    using m k by (rule nth_block)
  also have "\<dots> = (if n * BSIZE \<le> m * BSIZE + k \<and> m * BSIZE + k < n * BSIZE + BSIZE
      then b ! (m * BSIZE + k - n * BSIZE) else data ! (m * BSIZE + k))"
    using block_bound [OF assms(1)] assms(3) unfolding write_block_def
    by (subst nth_py_slice_assign) (simp_all add: add.commute)
  also have "\<dots> = (if m = n then b else block data m) ! k"
    using block_index_disjoint [OF k, of n m] nth_block [OF assms(2) k] by simp
  finally show "block (write_block n b data) m ! k = (if m = n then b else block data m) ! k" .
qed

interpretation img: block_device block write_block image_blocks is_image "\<lambda>b. length b = BSIZE"
  by unfold_locales
    (simp_all add: is_image_def length_write_block image_blocks_def block_write_block)

text \<open>An image is determined by its blocks.\<close>

lemma image_eqI:
  assumes "is_image d" and "length d' = length d"
    and "\<And>n. n < image_blocks d \<Longrightarrow> block d' n = block d n"
  shows "d' = d"
proof (rule nth_equalityI)
  show "length d' = length d" by fact
  fix k
  assume k: "k < length d'"
  let ?n = "k div BSIZE"
  have n: "?n < image_blocks d"
    using k assms(1,2) unfolding image_blocks_def is_image_def
    by (metis div_less_iff_less_mult BSIZE_pos dvd_div_mult_self)
  have n': "?n < image_blocks d'" using n assms(2) by (simp add: image_blocks_def)
  have k': "k mod BSIZE < BSIZE" by simp
  have "d' ! k = block d' ?n ! (k mod BSIZE)"
    using nth_block [OF n' k'] by simp
  also have "\<dots> = d ! k"
    using assms(3) [OF n] nth_block [OF n k'] by simp
  finally show "d' ! k = d ! k" .
qed

section \<open>Geometry\<close>

text \<open>The layout that \<open>parse_geometry\<close> promises to its callers.\<close>

definition geometry_ok :: "bytes \<Rightarrow> geometry \<Rightarrow> bool" where
  "geometry_ok data g \<longleftrightarrow>
     length data = g_size g * BSIZE \<and> 0 < g_ninodes g \<and> g_ninodes g \<le> g_size g * IPB \<and>
     g_nlog g = LOGBLOCKS + 1 \<and> g_logstart g = 2 \<and>
     g_inodestart g = g_logstart g + g_nlog g \<and>
     g_bmapstart g = g_inodestart g + (g_ninodes g + IPB - 1) div IPB \<and>
     g_data_start g = g_bmapstart g + (g_size g + BPB - 1) div BPB \<and>
     g_data_start g < g_size g \<and> g_nblocks g = g_size g - g_data_start g"

lemma diag_add_mono: "ds \<subseteq> diag_add c kw ds"
  by (auto simp: diag_add_def Let_def)

lemma diag_add_nonempty [simp]: "diag_add c kw ds \<noteq> {}" "{} \<noteq> diag_add c kw ds"
  by (auto simp: diag_add_def Let_def)

lemma finite_diag_add [simp]: "finite (diag_add c kw ds) \<longleftrightarrow> finite ds"
  by (simp add: diag_add_def Let_def)

lemma codes_eq_Nil: "finite ds \<Longrightarrow> codes ds = [] \<longleftrightarrow> ds = {}"
  by (simp add: codes_def)

lemma codes_empty [simp]: "codes {} = []"
  by (simp add: codes_def)

lemma SUPER_values:
  assumes "2 * BSIZE \<le> length data"
  shows "unpack_from SUPER data BSIZE
    = Inr (map (\<lambda>k. PNat (u32_at (drop BSIZE data) (4 * k))) [0..<8])"
  using assms by (simp add: unpack_from_def SUPER_def decode_all_I BSIZE_def)

definition super_word :: "bytes \<Rightarrow> nat \<Rightarrow> nat" where
  "super_word data k = u32_at (drop BSIZE data) (4 * k)"

lemma parse_geometry_eq:
  assumes "2 * BSIZE \<le> length data"
  shows "parse_geometry data ds =
    (let w = super_word data; g = \<lparr>g_size = w 1, g_nblocks = w 2, g_ninodes = w 3, g_nlog = w 4,
           g_logstart = w 5, g_inodestart = w 6, g_bmapstart = w 7,
           g_data_start = w 7 + (w 1 + BPB - 1) div BPB\<rparr> in
     if w 0 \<noteq> FSMAGIC
     then Inr (None, diag_add ''E_SUPER_MAGIC'' [(''observed'', show_hex (w 0))] ds)
     else if geometry_ok data g then Inr (Some g, ds)
     else Inr (None, diag_add ''E_SUPER_GEOMETRY''
            [(''bytes'', show_nat (length data)), (''size'', show_nat (w 1))] ds))"
proof -
  have upt: "[0..<8] = [0, 1, 2, 3, 4, 5, 6, 7::nat]" by (simp add: upt_rec)
  have "(x :: nat) > 0 \<and> P \<longleftrightarrow> P" if "P \<Longrightarrow> x > 0" for x P using that by auto
  then show ?thesis
    using assms unfolding parse_geometry_def SUPER_values [OF assms] super_word_def [symmetric] upt
    by (simp add: Let_def geometry_ok_def; auto)
qed

lemma parse_geometry_total: "\<exists>r ds'. parse_geometry data ds = Inr (r, ds')"
proof (cases "2 * BSIZE \<le> length data")
  case True
  then show ?thesis by (simp add: parse_geometry_eq Let_def)
next
  case False
  then show ?thesis by (simp add: parse_geometry_def)
qed

lemma parse_geometry_Some:
  assumes "parse_geometry data ds = Inr (Some g, ds')"
  shows "geometry_ok data g" and "ds' = ds" and "super_word data 0 = FSMAGIC"
    and "2 * BSIZE \<le> length data"
proof -
  show len: "2 * BSIZE \<le> length data"
    using assms by (auto simp: parse_geometry_def split: if_splits)
  show "geometry_ok data g" "ds' = ds" "super_word data 0 = FSMAGIC"
    using assms by (auto simp: parse_geometry_eq [OF len] Let_def split: if_splits)
qed

lemma parse_geometry_None:
  assumes "parse_geometry data ds = Inr (None, ds')"
  shows "ds' \<noteq> {}" and "finite ds \<Longrightarrow> finite ds'"
proof -
  have "ds' \<noteq> {} \<and> (finite ds \<longrightarrow> finite ds')"
  proof (cases "2 * BSIZE \<le> length data")
    case True
    with assms show ?thesis by (auto simp: parse_geometry_eq Let_def split: if_splits)
  next
    case False
    with assms show ?thesis by (auto simp: parse_geometry_def)
  qed
  then show "ds' \<noteq> {}" "finite ds \<Longrightarrow> finite ds'" by simp_all
qed

lemma geometry_ok_image:
  assumes "geometry_ok data g"
  shows "is_image data" and "image_blocks data = g_size g"
  using assms by (simp_all add: geometry_ok_def is_image_def image_blocks_def)

lemma geometry_ok_length:
  "geometry_ok data g \<Longrightarrow> length data' = length data \<Longrightarrow> geometry_ok data' g"
  by (simp add: geometry_ok_def)

lemma geometry_ok_logstart: "geometry_ok data g \<Longrightarrow> g_logstart g < g_size g"
  by (simp add: geometry_ok_def)

section \<open>Log replay\<close>

text \<open>The declarative reading of the log header of an image.\<close>

definition log_count :: "bytes \<Rightarrow> geometry \<Rightarrow> int" where
  "log_count data g = signed 32 (u32_at (block data (g_logstart g)) 0)"

definition log_targets :: "bytes \<Rightarrow> geometry \<Rightarrow> nat list" where
  "log_targets data g =
     map (\<lambda>k. u32_at (block data (g_logstart g)) (4 + 4 * k)) [0..<nat (log_count data g)]"

definition log_ok :: "bytes \<Rightarrow> geometry \<Rightarrow> bool" where
  "log_ok data g \<longleftrightarrow>
     0 \<le> log_count data g \<and> log_count data g \<le> int LOGBLOCKS \<and>
     distinct (log_targets data g) \<and>
     (\<forall>t \<in> set (log_targets data g). g_inodestart g \<le> t \<and> t < g_size g)"

text \<open>What recovery promises: each block of the recovered image, as a function of the crashed one.\<close>

definition log_slot :: "bytes \<Rightarrow> geometry \<Rightarrow> nat \<Rightarrow> nat option" where
  "log_slot data g n = map_of (zip (log_targets data g) [0..<length (log_targets data g)]) n"

definition recovered_block :: "bytes \<Rightarrow> geometry \<Rightarrow> nat \<Rightarrow> bytes" where
  "recovered_block data g n =
     (if n = g_logstart g then replicate 4 0 @ drop 4 (block data n)
      else case log_slot data g n of
             None \<Rightarrow> block data n
           | Some i \<Rightarrow> block data (g_logstart g + 1 + i))"

lemma target_loop:
  "foldl (log_target_step g) (seen, ds) (enumerate k ts) = (seen', ds') \<Longrightarrow>
     (ds' = {} \<longleftrightarrow> ds = {} \<and> distinct ts \<and> set ts \<inter> seen = {} \<and>
        (\<forall>t \<in> set ts. g_inodestart g \<le> t \<and> t < g_size g \<and>
           \<not> (g_logstart g \<le> t \<and> t < g_logstart g + g_nlog g))) \<and>
     (finite ds \<longrightarrow> finite ds')"
proof (induction ts arbitrary: seen ds k)
  case Nil
  then show ?case by simp
next
  case (Cons t ts)
  obtain ds1 where step: "log_target_step g (seen, ds) (k, t) = (insert t seen, ds1)"
    and ds1: "ds1 = {} \<longleftrightarrow> ds = {} \<and> t \<notin> seen \<and> g_inodestart g \<le> t \<and> t < g_size g \<and>
        \<not> (g_logstart g \<le> t \<and> t < g_logstart g + g_nlog g)" "finite ds \<longrightarrow> finite ds1"
    by (auto simp: log_target_step_def Let_def)
  have "foldl (log_target_step g) (insert t seen, ds1) (enumerate (Suc k) ts) = (seen', ds')"
    using Cons.prems by (simp add: step)
  from Cons.IH [OF this] show ?case using ds1 by auto
qed

lemma log_header_count:
  assumes "geometry_ok data g"
  shows "unpack_from [Fmt_i] (block data (g_logstart g)) 0 = Inr [PInt (log_count data g)]"
proof -
  have "length (block data (g_logstart g)) = BSIZE"
    using assms geometry_ok_logstart geometry_ok_image by simp
  then show ?thesis
    by (simp add: unpack_from_def log_count_def u32_at_def py_slice_def BSIZE_def)
qed

lemma log_header_targets:
  assumes "geometry_ok data g" and "0 \<le> log_count data g" and "log_count data g \<le> int LOGBLOCKS"
  shows "unpack_from (replicate (nat (log_count data g)) Fmt_I) (block data (g_logstart g)) 4
    = Inr (map PNat (log_targets data g))"
proof -
  have len: "length (block data (g_logstart g)) = BSIZE"
    using assms geometry_ok_logstart geometry_ok_image by simp
  have "nat (log_count data g) \<le> 30" using assms(3) by (simp add: LOGBLOCKS_def)
  moreover have "u32_at (drop 4 b) (4 * k) = u32_at b (4 + 4 * k)" for b :: bytes and k
    by (simp add: u32_at_def py_slice_def add.commute)
  ultimately show ?thesis
    by (simp add: unpack_from_def decode_all_I log_targets_def len BSIZE_def)
qed

text \<open>The result of the log parser in closed form.\<close>

definition zero_count :: "geometry \<Rightarrow> bytes \<Rightarrow> bytes" where
  "zero_count g data =
     py_slice_assign data (g_logstart g * BSIZE) (g_logstart g * BSIZE + 4) (replicate 4 0)"

definition replay :: "bytes \<Rightarrow> geometry \<Rightarrow> bytes" where
  "replay data g = zero_count g (foldl (replay_step data g) data (enumerate 0 (log_targets data g)))"

lemma map_as_nat_PNat [simp]: "map as_nat (map PNat xs) = xs"
  by (induction xs) simp_all

lemma as_nat_comp_PNat [simp]: "as_nat \<circ> PNat = (\<lambda>x. x)"
  by auto

definition replay_writes :: "bytes \<Rightarrow> geometry \<Rightarrow> (nat \<times> bytes) list" where
  "replay_writes data g =
     map (\<lambda>(i, t). (t, block data (g_logstart g + 1 + i))) (enumerate 0 (log_targets data g))"

lemma replay_fold:
  "foldl (replay_step data g) d (enumerate 0 (log_targets data g)) = img.write_all (replay_writes data g) d"
  unfolding replay_writes_def img.write_all_def foldl_map
  by (rule arg_cong [where f = "\<lambda>f. foldl f d _"])
    (auto simp: replay_step_def write_block_def Let_def fun_eq_iff)

lemma log_ok_length: "log_ok data g \<Longrightarrow> length (log_targets data g) \<le> LOGBLOCKS"
  by (simp add: log_ok_def log_targets_def nat_le_iff)

lemma replay_writable:
  assumes "geometry_ok data g" and "log_ok data g"
  shows "img.writable data (replay_writes data g)"
proof -
  have "t < g_size g \<and> length (block data (Suc (g_logstart g + i))) = BSIZE"
    if "(i, t) \<in> set (enumerate 0 (log_targets data g))" for i t
  proof
    from that have i: "i < length (log_targets data g)" and t: "t \<in> set (log_targets data g)"
      by (auto simp: in_set_enumerate_eq)
    from t assms(2) show "t < g_size g" by (auto simp: log_ok_def)
    from i log_ok_length [OF assms(2)] assms(1) have "Suc (g_logstart g + i) < g_size g"
      by (auto simp: geometry_ok_def)
    then show "length (block data (Suc (g_logstart g + i))) = BSIZE"
      using geometry_ok_image [OF assms(1)] by simp
  qed
  then show ?thesis
    using geometry_ok_image [OF assms(1)] by (auto simp: img.writable_def replay_writes_def)
qed

lemma map_of_rev_distinct: "distinct (map fst xs) \<Longrightarrow> map_of (rev xs) = map_of xs"
  by (rule ext) (metis map_of_eqI distinct_rev map_fst_zip rev_map set_rev map_of_is_SomeI map_of_SomeD
      map_of_eq_None_iff list.set_map not_Some_eq)

lemma replay_writes_lookup:
  assumes "log_ok data g"
  shows "map_of (rev (replay_writes data g)) n
    = map_option (\<lambda>i. block data (g_logstart g + 1 + i)) (log_slot data g n)"
proof -
  let ?ts = "log_targets data g"
  have ws: "replay_writes data g
      = map (\<lambda>(t, i). (t, block data (g_logstart g + 1 + i))) (zip ?ts [0..<length ?ts])"
    unfolding replay_writes_def enumerate_eq_zip by (subst (2) zip_commute) auto
  have "map fst (replay_writes data g) = ?ts"
    by (simp add: replay_writes_def case_prod_beta comp_def)
  then have "distinct (map fst (replay_writes data g))" using assms by (simp add: log_ok_def)
  then have "map_of (rev (replay_writes data g)) = map_of (replay_writes data g)"
    by (rule map_of_rev_distinct)
  then show ?thesis by (simp add: ws map_of_map log_slot_def)
qed

lemma zero_count_block:
  assumes "is_image d" and "n < image_blocks d" and "g_logstart g < image_blocks d"
  shows "block (zero_count g d) n
    = (if n = g_logstart g then replicate 4 0 @ drop 4 (block d n) else block d n)"
    and "length (zero_count g d) = length d"
proof -
  let ?l = "g_logstart g"
  have four: "4 \<le> BSIZE" by (simp add: BSIZE_def)
  have bd: "?l * BSIZE + BSIZE \<le> length d" using assms(3) by (rule block_bound)
  let ?b = "replicate 4 0 @ drop 4 (block d ?l)"
  have lb: "length ?b = BSIZE" using four assms(3) by simp
  have split: "take BSIZE (drop (?l * BSIZE) d) = block d ?l" by (simp add: block_def py_slice_def Let_def)
  let ?x = "drop (?l * BSIZE) d"
  have "?x = block d ?l @ drop (?l * BSIZE + BSIZE) d"
    using append_take_drop_id [of BSIZE ?x] by (simp add: split add.commute)
  then have "drop 4 ?x = drop 4 (block d ?l) @ drop (?l * BSIZE + BSIZE) d"
    using four assms(3) by (metis drop_append drop_0 diff_is_0_eq length_block)
  then have "drop (?l * BSIZE + 4) d = drop 4 (block d ?l) @ drop (?l * BSIZE + BSIZE) d"
    by (simp add: add.commute)
  then have "zero_count g d = write_block ?l ?b d"
    using four by (simp add: zero_count_def write_block_def py_slice_assign_def add.commute)
  then show "block (zero_count g d) n = (if n = ?l then replicate 4 0 @ drop 4 (block d n) else block d n)"
    and "length (zero_count g d) = length d"
    using img.rd_wr [OF assms(1,3,2) lb] length_write_block [OF assms(3) lb] by auto
qed

text \<open>Refinement: the replayed image, block by block, is the promised one.\<close>

lemma replay_correct:
  assumes "geometry_ok data g" and "log_ok data g"
  shows "length (replay data g) = length data"
    and "n < g_size g \<Longrightarrow> block (replay data g) n = recovered_block data g n"
proof -
  let ?ws = "replay_writes data g" and ?ts = "log_targets data g"
  let ?d = "img.write_all ?ws data"
  note im = geometry_ok_image [OF assms(1)] and wr = replay_writable [OF assms]
  have d: "is_image ?d" "image_blocks ?d = g_size g"
    using img.write_all_device [OF im(1) wr] im(2) by auto
  have l: "g_logstart g < g_size g" using assms(1) by (rule geometry_ok_logstart)
  have "length ?d = length data"
    using d im unfolding is_image_def image_blocks_def by (metis dvd_div_mult_self)
  then show "length (replay data g) = length data"
    using zero_count_block(2) [of ?d "g_logstart g" g] d l by (simp add: replay_def replay_fold)
  assume n: "n < g_size g"
  have rd: "block ?d n = (case map_of (rev ?ws) n of None \<Rightarrow> block data n | Some b \<Rightarrow> b)"
    using img.rd_write_all [OF im(1) wr] n im(2) by simp
  have nolog: "log_slot data g (g_logstart g) = None"
    using assms by (auto simp: log_slot_def log_ok_def geometry_ok_def map_of_zip_is_None)
  show "block (replay data g) n = recovered_block data g n"
    using zero_count_block(1) [of ?d n g] d l n nolog rd
    by (auto simp: replay_def replay_fold recovered_block_def replay_writes_lookup [OF assms(2)]
        split: option.splits)
qed

lemma le_bytes_0: "le_bytes n 0 = replicate n 0"
  by (induction n) simp_all

lemma pack_zero:
  assumes "g_logstart g * BSIZE + 4 \<le> length d"
  shows "pack_into [Fmt_i] d (g_logstart g * BSIZE) [PInt 0] = Inr (zero_count g d)"
proof -
  have "le_bytes 4 (unsigned_of 32 0) = replicate 4 0"
    by (simp add: unsigned_of_def le_bytes_0)
  then show ?thesis using assms by (simp add: pack_into_def zero_count_def)
qed

lemma parse_log_eq:
  assumes g: "geometry_ok data g" and fin_ds: "finite ds"
  obtains ds' where "ds' \<noteq> {}" and "finite ds'"
    and "parse_log data g ds =
      (if ds = {} \<and> log_ok data g
       then Inr ((log_count data g, log_targets data g, Some (replay data g)), {})
       else Inr ((log_count data g,
                  if 0 \<le> log_count data g \<and> log_count data g \<le> int LOGBLOCKS
                  then log_targets data g else [], None), ds'))"
proof (cases "0 \<le> log_count data g \<and> log_count data g \<le> int LOGBLOCKS")
  case False
  then show ?thesis
    using that [of "diag_add ''E_LOG_COUNT'' [(''count'', show_int (log_count data g))] ds"]
    using fin_ds by (auto simp: parse_log_def log_header_count [OF g] log_ok_def Let_def)
next
  case True
  let ?ts = "log_targets data g"
  obtain seen ds1 where loop:
    "foldl (log_target_step g) ({}, ds) (enumerate 0 ?ts) = (seen, ds1)" by fastforce
  have ok: "ds1 = {} \<longleftrightarrow> ds = {} \<and> log_ok data g" and fin: "finite ds \<longrightarrow> finite ds1"
    using target_loop [OF loop] True g by (auto simp: log_ok_def geometry_ok_def)
  have entries: "(if log_count data g \<noteq> 0
      then unpack_from (replicate (nat (log_count data g)) Fmt_I) (block data (g_logstart g)) 4
      else Inr []) = Inr (map PNat ?ts)"
    using log_header_targets [OF g] True by (auto simp: log_targets_def)
  have pack: "pack_into [Fmt_i] (foldl (replay_step data g) data (enumerate 0 ?ts))
      (g_logstart g * BSIZE) [PInt 0] = Inr (replay data g)" if "ds1 = {}"
  proof -
    have "log_ok data g" using that ok by simp
    then have "length (foldl (replay_step data g) data (enumerate 0 ?ts)) = length data"
      using img.write_all_device replay_writable [OF g] geometry_ok_image [OF g]
      unfolding replay_fold is_image_def image_blocks_def by (metis dvd_div_mult_self)
    moreover have "4 \<le> BSIZE" by (simp add: BSIZE_def)
    ultimately show ?thesis
      using block_bound [of "g_logstart g" data] geometry_ok_logstart [OF g] geometry_ok_image [OF g]
      unfolding replay_def by (intro pack_zero) simp
  qed
  have "parse_log data g ds =
      (if ds1 \<noteq> {} then Inr ((log_count data g, ?ts, None), ds1)
       else Inr ((log_count data g, ?ts, Some (replay data g)), ds1))"
    using True pack
    by (simp only: parse_log_def log_header_count [OF g] Let_def bind_res_Inr list.sel as_int.simps
        entries map_as_nat_PNat loop prod.case not_less [symmetric]) simp
  then show ?thesis
    using that [of "if ds1 = {} then {undefined} else ds1"] ok fin fin_ds True by (auto split: if_splits)
qed

lemma u32_at_take: "off + 4 \<le> n \<Longrightarrow> u32_at (take n bs) off = u32_at bs off"
  by (simp add: u32_at_def py_slice_def drop_take min_def)

section \<open>Replaying twice\<close>

lemma super_word_block:
  assumes "2 * BSIZE \<le> length data" and "k < 8"
  shows "super_word data k = u32_at (block data 1) (4 * k)"
proof -
  have "block data 1 = take BSIZE (drop BSIZE data)" by (simp add: block_def py_slice_def)
  then show ?thesis
    unfolding super_word_def using assms(2) by (simp add: u32_at_take BSIZE_def)
qed

lemma parse_geometry_cong:
  assumes "length data' = length data" and "block data' 1 = block data 1"
  shows "parse_geometry data' ds = parse_geometry data ds"
proof (cases "2 * BSIZE \<le> length data")
  case True
  then have "super_word data' k = super_word data k" if "k < 8" for k
    using that assms by (simp add: super_word_block)
  then show ?thesis
    using True assms(1) by (simp add: parse_geometry_eq geometry_ok_def Let_def)
next
  case False
  then show ?thesis using assms(1) by (simp add: parse_geometry_def)
qed

lemma replay_header:
  assumes "geometry_ok data g" and "log_ok data g"
  shows "log_count (replay data g) g = 0" and "log_targets (replay data g) g = []"
    and "log_ok (replay data g) g"
proof -
  have "block (replay data g) (g_logstart g) = replicate 4 0 @ drop 4 (block data (g_logstart g))"
    using replay_correct(2) [OF assms, of "g_logstart g"] geometry_ok_logstart [OF assms(1)]
    by (simp add: recovered_block_def)
  moreover have "le_nat (replicate n 0) = 0" for n by (induction n) simp_all
  ultimately show "log_count (replay data g) g = 0"
    by (simp add: log_count_def u32_at_def py_slice_def signed_def)
  then show "log_targets (replay data g) g = []" "log_ok (replay data g) g"
    by (simp_all add: log_targets_def log_ok_def)
qed

lemma replay_replay:
  assumes "geometry_ok data g" and "log_ok data g"
  shows "replay (replay data g) g = replay data g"
proof (rule image_eqI)
  let ?s = "replay data g"
  have g': "geometry_ok ?s g"
    using geometry_ok_length [OF assms(1) replay_correct(1) [OF assms]] .
  note ok' = replay_header(3) [OF assms]
  show "is_image ?s" using g' by (rule geometry_ok_image)
  show "length (replay ?s g) = length ?s" using replay_correct(1) [OF g' ok'] .
  fix n
  assume "n < image_blocks ?s"
  then have n: "n < g_size g" using geometry_ok_image(2) [OF g'] by simp
  have "block (replay ?s g) n = recovered_block ?s g n" using replay_correct(2) [OF g' ok' n] .
  also have "\<dots> = block ?s n"
    using replay_correct(2) [OF assms n] replay_header(2) [OF assms]
    by (auto simp: recovered_block_def log_slot_def)
  finally show "block (replay ?s g) n = block ?s n" .
qed

lemma replay_geometry:
  assumes "parse_geometry data {} = Inr (Some g, {})" and "log_ok data g"
  shows "parse_geometry (replay data g) {} = Inr (Some g, {})"
proof -
  have g: "geometry_ok data g" using parse_geometry_Some(1) [OF assms(1)] .
  then have 1: "1 < g_size g" "1 \<noteq> g_logstart g" by (auto simp: geometry_ok_def)
  have "log_slot data g 1 = None"
    using assms(2) g by (auto simp: log_slot_def log_ok_def geometry_ok_def map_of_zip_is_None)
  then have "block (replay data g) 1 = block data 1"
    using replay_correct(2) [OF g assms(2) 1(1)] 1(2) by (simp add: recovered_block_def)
  then show ?thesis
    using parse_geometry_cong [OF replay_correct(1) [OF g assms(2)]] assms(1) by simp
qed

end
