(* ===== verification/FsckBlocks.thy ===== *)
theory FsckBlocks
  imports FsckLog
begin

text \<open>
  The first passes of the inspection: the inode table, the block map of every inode, block
  ownership and the allocation bitmap.  Each pass is shown to be total on an image with a valid
  geometry, and to add no diagnostic exactly when the part of the image it reads is consistent.
\<close>

section \<open>Loops that only collect diagnostics\<close>

text \<open>
  The contract of a check inside a loop: it adds nothing exactly when its subject is good.  The
  loop then adds nothing exactly when every subject is good.
\<close>

locale diag_check =
  fixes chk :: "diags \<Rightarrow> 'a \<Rightarrow> diags"
    and good :: "'a \<Rightarrow> bool"
  assumes chk_empty: "chk ds x = {} \<longleftrightarrow> ds = {} \<and> good x"
    and chk_finite: "finite ds \<Longrightarrow> finite (chk ds x)"
begin

lemma loop_empty: "foldl chk ds xs = {} \<longleftrightarrow> ds = {} \<and> (\<forall>x \<in> set xs. good x)"
  by (induction xs arbitrary: ds) (auto simp: chk_empty)

lemma loop_finite: "finite ds \<Longrightarrow> finite (foldl chk ds xs)"
  by (induction xs arbitrary: ds) (auto simp: chk_finite)

end

section \<open>The inode table\<close>

lemma calcsize_DINODE [simp]: "calcsize DINODE = 64"
  by (simp add: DINODE_def)

lemma calcsize_DIRENT [simp]: "calcsize DIRENT = 16"
  by (simp add: DIRENT_def)

definition inode_at :: "bytes \<Rightarrow> geometry \<Rightarrow> nat \<Rightarrow> inode" where
  "inode_at data g inum =
     inode_of_fields inum (decode_all DINODE (drop (g_inodestart g * BSIZE + inum * 64) data))"

definition live :: "bytes \<Rightarrow> geometry \<Rightarrow> nat \<Rightarrow> bool" where
  "live data g inum \<longleftrightarrow>
     1 \<le> inum \<and> inum < g_ninodes g \<and> i_type (inode_at data g inum) \<in> VALID_TYPES"

definition inode_table :: "bytes \<Rightarrow> geometry \<Rightarrow> inodes" where
  "inode_table data g =
     map (\<lambda>i. (i, inode_at data g i))
       (filter (\<lambda>i. i_type (inode_at data g i) \<in> VALID_TYPES) [1..<g_ninodes g])"

definition inodes_ok :: "bytes \<Rightarrow> geometry \<Rightarrow> bool" where
  "inodes_ok data g \<longleftrightarrow>
     (\<forall>i \<in> {1..<g_ninodes g}.
        i_type (inode_at data g i) = 0 \<or>
        i_type (inode_at data g i) \<in> VALID_TYPES \<and> i_size (inode_at data g i) \<le> MAXFILE * BSIZE) \<and>
     live data g ROOTINO \<and> i_type (inode_at data g ROOTINO) = T_DIR"

lemma i_inum_inode_at [simp]: "i_inum (inode_at data g i) = i"
  by (simp add: inode_at_def inode_of_fields_def)

lemma length_addrs_inode_at [simp]: "length (i_addrs (inode_at data g i)) = 13"
  by (simp add: inode_at_def inode_of_fields_def DINODE_def)

lemma inode_fits:
  assumes "geometry_ok data g" and "inum < g_ninodes g"
  shows "g_inodestart g * BSIZE + inum * 64 + 64 \<le> length data"
proof -
  have "inum * 64 + 64 \<le> (g_ninodes g + 15) div 16 * 1024" using assms(2) by linarith
  moreover have "(g_inodestart g + (g_ninodes g + 15) div 16) * 1024 \<le> g_size g * 1024"
    using assms(1) unfolding geometry_ok_def fsck_consts by (intro mult_le_mono1) (auto simp: add.commute)
  ultimately show ?thesis
    using assms(1) by (simp add: geometry_ok_def BSIZE_def add_mult_distrib)
qed

lemma dkeys_inode_table: "set (dkeys (inode_table data g)) = {i. live data g i}"
  by (auto simp: dkeys_def inode_table_def live_def)

lemma dict_ok_inode_table [simp]: "dict_ok (inode_table data g)"
  by (simp add: dict_ok_def dkeys_def inode_table_def comp_def)

lemma map_of_inode_table:
  "map_of (inode_table data g) i = (if live data g i then Some (inode_at data g i) else None)"
proof (cases "live data g i")
  case True
  then have "(i, inode_at data g i) \<in> set (inode_table data g)"
    by (auto simp: inode_table_def live_def)
  with True show ?thesis using dict_ok_mem [OF dict_ok_inode_table] by auto
next
  case False
  then show ?thesis using dkeys_inode_table [of data g] by (auto simp: set_dkeys)
qed

lemma dvalues_inode_table: "set (dvalues (inode_table data g)) = inode_at data g ` {i. live data g i}"
  by (auto simp: dvalues_def inode_table_def live_def)

lemma VALID_TYPES_0: "0 \<notin> VALID_TYPES"
  by (simp add: fsck_consts)

definition inode_check :: "bytes \<Rightarrow> geometry \<Rightarrow> diags \<Rightarrow> nat \<Rightarrow> diags" where
  "inode_check data g ds i =
     (let ino = inode_at data g i in
      if i_type ino = 0 then ds
      else if i_type ino \<notin> VALID_TYPES
      then diag_add ''E_INODE_TYPE'' [(''inum'', show_nat i), (''type'', show_int (i_type ino))] ds
      else if i_size ino > MAXFILE * BSIZE
      then diag_add ''E_INODE_SIZE'' [(''inum'', show_nat i), (''size'', show_nat (i_size ino))] ds
      else ds)"

interpretation inode_check: diag_check "inode_check data g"
  "\<lambda>i. i_type (inode_at data g i) = 0 \<or>
     i_type (inode_at data g i) \<in> VALID_TYPES \<and> i_size (inode_at data g i) \<le> MAXFILE * BSIZE"
  for data g
  by unfold_locales (auto simp: inode_check_def Let_def VALID_TYPES_0)

lemma parse_inode_step_eq:
  assumes "geometry_ok data g" and "n < g_ninodes g" and "n \<notin> set (dkeys t)"
  shows "parse_inode_step data g (t, ds) n
    = Inr (t @ (if i_type (inode_at data g n) \<in> VALID_TYPES then [(n, inode_at data g n)] else []),
           inode_check data g ds n)"
proof -
  have up: "unpack_from DINODE data (g_inodestart g * BSIZE + n * 64)
      = Inr (decode_all DINODE (drop (g_inodestart g * BSIZE + n * 64) data))"
    using inode_fits [OF assms(1,2)] by (simp add: unpack_from_def)
  have fold: "inode_of_fields n (decode_all DINODE (drop (g_inodestart g * BSIZE + n * 64) data))
      = inode_at data g n"
    by (simp add: inode_at_def)
  show ?thesis
    using VALID_TYPES_0
    by (simp add: parse_inode_step_def up fold dput_new [OF assms(3)] inode_check_def Let_def)
qed

lemma parse_inode_loop:
  assumes "geometry_ok data g" and "distinct is" and "set is \<subseteq> {..<g_ninodes g}"
  shows "fold_res (parse_inode_step data g) ([], ds) is
    = Inr (map (\<lambda>i. (i, inode_at data g i)) (filter (\<lambda>i. i_type (inode_at data g i) \<in> VALID_TYPES) is),
           foldl (inode_check data g) ds is)"
  using assms(2,3)
proof (induction "is" rule: rev_induct)
  case Nil
  then show ?case by simp
next
  case (snoc i "is")
  then show ?case
    using assms(1) by (auto simp: fold_res_append parse_inode_step_eq dkeys_def)
qed

lemma parse_inodes_eq:
  assumes "geometry_ok data g" and "finite ds"
  obtains ds' where "finite ds'" and "ds' = {} \<longleftrightarrow> ds = {} \<and> inodes_ok data g"
    and "parse_inodes data g ds = Inr (inode_table data g, ds')"
proof -
  let ?ds = "foldl (inode_check data g) ds [1..<g_ninodes g]"
  have run: "fold_res (parse_inode_step data g) ([], ds) [1..<g_ninodes g] = Inr (inode_table data g, ?ds)"
    unfolding inode_table_def by (rule parse_inode_loop [OF assms(1)]) auto
  have p: "parse_inodes data g ds = Inr (inode_table data g,
      if live data g ROOTINO \<and> i_type (inode_at data g ROOTINO) = T_DIR then ?ds
      else diag_add ''E_ROOT'' [] ?ds)"
    by (simp add: parse_inodes_def run map_of_inode_table del: One_nat_def)
  show ?thesis
    by (rule that [OF _ _ p])
      (use inode_check.loop_finite [OF assms(2)] inode_check.loop_empty in \<open>auto simp: inodes_ok_def\<close>)
qed

section \<open>Block maps\<close>

definition indirect_entries :: "bytes \<Rightarrow> geometry \<Rightarrow> inode \<Rightarrow> nat list" where
  "indirect_entries data g ino =
     (let indirect = i_addrs ino ! NDIRECT in
      if indirect \<noteq> 0 \<and> in_region g indirect
      then map (\<lambda>k. u32_at (block data indirect) (4 * k)) [0..<NINDIRECT]
      else replicate NINDIRECT 0)"

definition logical_blocks :: "bytes \<Rightarrow> geometry \<Rightarrow> inode \<Rightarrow> nat list" where
  "logical_blocks data g ino = take NDIRECT (i_addrs ino) @ indirect_entries data g ino"

definition inode_refs :: "bytes \<Rightarrow> geometry \<Rightarrow> inode \<Rightarrow> block_ref list" where
  "inode_refs data g ino =
     nonzero_refs 0 (take NDIRECT (i_addrs ino)) @
     (if i_addrs ino ! NDIRECT \<noteq> 0
      then (Indirect, NDIRECT, i_addrs ino ! NDIRECT) # nonzero_refs NDIRECT (indirect_entries data g ino)
      else [])"

definition required_blocks :: "inode \<Rightarrow> nat" where
  "required_blocks ino = (i_size ino + BSIZE - 1) div BSIZE"

text \<open>
  A block map is well formed when exactly the blocks covered by the file size are present, an
  indirect block exists only if it is needed, and every referenced block is a data block.
\<close>

definition block_map_ok :: "bytes \<Rightarrow> geometry \<Rightarrow> inode \<Rightarrow> bool" where
  "block_map_ok data g ino \<longleftrightarrow>
     (\<forall>i < MAXFILE. logical_blocks data g ino ! i \<noteq> 0 \<longleftrightarrow> i < required_blocks ino) \<and>
     (required_blocks ino \<le> NDIRECT \<longrightarrow> i_addrs ino ! NDIRECT = 0) \<and>
     (\<forall>(k, i, a) \<in> set (inode_refs data g ino). in_region g a)"

interpretation map_check: diag_check "map_step ino required"
  "\<lambda>(index, address). address \<noteq> 0 \<longleftrightarrow> index < required" for ino required
  by unfold_locales (auto simp: map_step_def Let_def split: prod.splits if_splits)

interpretation region_check: diag_check "region_step g ino" "\<lambda>(kind, index, address). in_region g address"
  for g ino
  by unfold_locales (auto simp: region_step_def split: prod.splits if_splits)

lemma length_logical_blocks [simp]:
  "length (i_addrs ino) = 13 \<Longrightarrow> length (logical_blocks data g ino) = MAXFILE"
  by (simp add: logical_blocks_def indirect_entries_def fsck_consts Let_def)

lemma inode_blocks_eq:
  assumes "geometry_ok data g" and "length (i_addrs ino) = 13" and "finite ds"
  obtains ds' where "finite ds'" and "ds' = {} \<longleftrightarrow> ds = {} \<and> block_map_ok data g ino"
    and "inode_blocks data g ino ds = Inr (inode_refs data g ino, ds')"
proof -
  let ?ind = "i_addrs ino ! NDIRECT" and ?r = "required_blocks ino"
  have len: "NDIRECT < length (i_addrs ino)" by (simp add: assms NDIRECT_def)
  have ent: "(if ?ind \<noteq> 0 \<and> in_region g ?ind
      then bind_res (unpack (replicate NINDIRECT Fmt_I) (block data ?ind)) (\<lambda>entries. Inr (map as_nat entries))
      else Inr (replicate NINDIRECT 0)) = Inr (indirect_entries data g ino)"
  proof (cases "?ind \<noteq> 0 \<and> in_region g ?ind")
    case True
    then have "length (block data ?ind) = BSIZE"
      using geometry_ok_image [OF assms(1)] by (simp add: in_region_def)
    then have "unpack (replicate NINDIRECT Fmt_I) (block data ?ind)
        = Inr (map (\<lambda>k. PNat (u32_at (block data ?ind) (4 * k))) [0..<NINDIRECT])"
      by (simp add: unpack_def decode_all_I NINDIRECT_def BSIZE_def)
    then show ?thesis using True by (simp add: indirect_entries_def Let_def comp_def)
  qed (auto simp: indirect_entries_def Let_def)
  define d1 where "d1 = foldl (map_step ino ?r) ds (enumerate 0 (logical_blocks data g ino))"
  define d2 where "d2 = (if ?r \<le> NDIRECT \<and> ?ind \<noteq> 0
      then diag_add ''E_INODE_TRAILING'' [(''index'', show_nat NDIRECT), (''inum'', show_nat (i_inum ino))] d1
      else d1)"
  define d3 where "d3 = foldl (region_step g ino) d2 (inode_refs data g ino)"
  have "inode_blocks data g ino ds = Inr (inode_refs data g ino, d3)"
    using len unfolding inode_blocks_def Let_def ent d3_def d2_def d1_def
    by (simp add: inode_refs_def logical_blocks_def required_blocks_def)
  moreover have "d1 = {} \<longleftrightarrow> ds = {} \<and> (\<forall>i < MAXFILE. logical_blocks data g ino ! i \<noteq> 0 \<longleftrightarrow> i < ?r)"
    using assms(2) unfolding d1_def map_check.loop_empty
    by (auto simp: in_set_enumerate_eq Ball_def)
  moreover have "finite d3"
    unfolding d3_def d2_def d1_def
    by (intro region_check.loop_finite) (simp add: map_check.loop_finite assms(3))
  ultimately show ?thesis
    by (intro that [of d3]) (auto simp: d3_def d2_def region_check.loop_empty block_map_ok_def)
qed

section \<open>Block ownership\<close>

text \<open>Every in-region reference of every live inode: the block, and who refers to it.\<close>

definition refs_of :: "bytes \<Rightarrow> geometry \<Rightarrow> inode \<Rightarrow> (nat \<times> nat \<times> block_kind \<times> nat) list" where
  "refs_of data g ino =
     map (\<lambda>(k, i, a). (a, i_inum ino, k, i))
       (filter (\<lambda>(k, i, a). in_region g a) (inode_refs data g ino))"

definition owned_refs :: "bytes \<Rightarrow> geometry \<Rightarrow> (nat \<times> nat \<times> block_kind \<times> nat) list" where
  "owned_refs data g = concat (map (refs_of data g) (dvalues (inode_table data g)))"

definition owned_block_list :: "bytes \<Rightarrow> geometry \<Rightarrow> nat list" where
  "owned_block_list data g = map fst (owned_refs data g)"

text \<open>Appending into a dictionary of lists groups the values by key.\<close>

definition group_into :: "('k, 'v list) dict \<Rightarrow> ('k \<times> 'v) list \<Rightarrow> ('k, 'v list) dict" where
  "group_into d xs = foldl (\<lambda>d (k, x). dappend k x d) d xs"

lemma group_into_simps [simp]:
  "group_into d [] = d" "group_into d ((k, x) # xs) = group_into (dappend k x d) xs"
  by (simp_all add: group_into_def)

lemma group_into_append: "group_into d (xs @ ys) = group_into (group_into d xs) ys"
  by (simp add: group_into_def)

lemma map_of_group_into:
  "map_of (group_into d xs) k =
     (let ys = map snd (filter (\<lambda>p. fst p = k) xs)
      in if ys = [] then map_of d k else Some (dget_or d k [] @ ys))"
proof (induction xs arbitrary: d)
  case Nil
  then show ?case by simp
next
  case (Cons p xs)
  obtain k' x where p: "p = (k', x)" by (cases p)
  show ?case
    using Cons.IH [of "dappend k' x d"]
    by (auto simp: p dappend_def dget_or_def Let_def split: option.splits if_splits)
qed

lemma dict_ok_group_into: "dict_ok d \<Longrightarrow> dict_ok (group_into d xs)"
  by (induction xs arbitrary: d) (auto simp: dappend_def)

lemma dkeys_group: "set (dkeys (group_into [] xs)) = fst ` set xs"
proof -
  have "k \<in> dom (map_of (group_into [] xs)) \<longleftrightarrow> k \<in> fst ` set xs" for k
    by (auto simp: map_of_group_into Let_def dom_def filter_empty_conv image_iff)
  then show ?thesis by (auto simp: set_dkeys)
qed

lemma distinct_iff_count: "distinct xs \<longleftrightarrow> (\<forall>x. count_list xs x \<le> 1)"
proof (induction xs)
  case Nil
  then show ?case by simp
next
  case (Cons a xs)
  have "(\<forall>x. count_list (a # xs) x \<le> 1) \<longleftrightarrow> count_list xs a = 0 \<and> (\<forall>x. count_list xs x \<le> 1)"
  proof
    assume *: "\<forall>x. count_list (a # xs) x \<le> 1"
    have "count_list xs x \<le> count_list (a # xs) x" for x by simp
    with * have "\<forall>x. count_list xs x \<le> 1" by (meson le_trans)
    moreover have "count_list xs a = 0" using spec [OF *, of a] by simp
    ultimately show "count_list xs a = 0 \<and> (\<forall>x. count_list xs x \<le> 1)" by simp
  qed auto
  with Cons.IH show ?case by (simp add: count_list_0_iff)
qed

lemma distinct_groups:
  "distinct (map fst xs) \<longleftrightarrow> (\<forall>(k, ys) \<in> set (group_into [] xs). length ys \<le> 1)"
proof -
  have cnt: "length (map snd (filter (\<lambda>p. fst p = k) xs)) = count_list (map fst xs) k" for k
    by (induction xs) auto
  have mem: "(k, ys) \<in> set (group_into [] xs) \<longleftrightarrow>
      ys = map snd (filter (\<lambda>p. fst p = k) xs) \<and> ys \<noteq> []" for k ys
    using dict_ok_mem [OF dict_ok_group_into [OF dict_ok_Nil], of k ys xs]
    by (auto simp: map_of_group_into Let_def dget_or_def)
  have "distinct (map fst xs) \<longleftrightarrow> (\<forall>k. count_list (map fst xs) k \<le> 1)"
    by (rule distinct_iff_count)
  also have "\<dots> \<longleftrightarrow> (\<forall>(k, ys) \<in> set (group_into [] xs). length ys \<le> 1)"
    using mem cnt by (auto simp: Ball_def) (metis count_list_0_iff le0 length_0_conv cnt)+
  finally show ?thesis .
qed

lemma owner_steps: "foldl (owner_step g ino) owners (inode_refs data g ino)
    = group_into owners (refs_of data g ino)"
proof -
  have "foldl (owner_step g ino) owners rs = group_into owners
      (map (\<lambda>(k, i, a). (a, i_inum ino, k, i)) (filter (\<lambda>(k, i, a). in_region g a) rs))" for rs
    by (induction rs arbitrary: owners) (auto simp: owner_step_def)
  then show ?thesis by (simp add: refs_of_def)
qed

lemma owners_loop:
  assumes "geometry_ok data g" and "finite ds" and "\<forall>ino \<in> set inos. length (i_addrs ino) = 13"
  shows "\<exists>ds'. finite ds' \<and> (ds' = {} \<longleftrightarrow> ds = {} \<and> (\<forall>ino \<in> set inos. block_map_ok data g ino)) \<and>
    fold_res (owners_of_inode data g) (owners, ds) inos
      = Inr (group_into owners (concat (map (refs_of data g) inos)), ds')"
  using assms(2,3)
proof (induction inos arbitrary: owners ds)
  case Nil
  then show ?case by simp
next
  case (Cons ino inos)
  obtain ds1 where ds1: "finite ds1" "ds1 = {} \<longleftrightarrow> ds = {} \<and> block_map_ok data g ino"
    and b: "inode_blocks data g ino ds = Inr (inode_refs data g ino, ds1)"
    using inode_blocks_eq [OF assms(1) _ Cons.prems(1), of ino] Cons.prems(2) by (metis list.set_intros(1))
  let ?o = "group_into owners (refs_of data g ino)"
  have step: "owners_of_inode data g (owners, ds) ino = Inr (?o, ds1)"
    by (simp add: owners_of_inode_def b owner_steps)
  obtain ds2 where "finite ds2" "ds2 = {} \<longleftrightarrow> ds1 = {} \<and> (\<forall>ino \<in> set inos. block_map_ok data g ino)"
    and "fold_res (owners_of_inode data g) (?o, ds1) inos
      = Inr (group_into ?o (concat (map (refs_of data g) inos)), ds2)"
    using Cons.IH [OF ds1(1), of ?o] Cons.prems(2) by auto
  then show ?case
    using ds1(2) by (intro exI [of _ ds2]) (simp add: step group_into_append)
qed

definition block_maps_ok :: "bytes \<Rightarrow> geometry \<Rightarrow> bool" where
  "block_maps_ok data g \<longleftrightarrow> (\<forall>i. live data g i \<longrightarrow> block_map_ok data g (inode_at data g i))"

lemma owners_pass_eq:
  assumes "geometry_ok data g" and "finite ds"
  obtains ds' where "finite ds'" and "ds' = {} \<longleftrightarrow> ds = {} \<and> block_maps_ok data g"
    and "owners_pass data g (inode_table data g) ds = Inr (group_into [] (owned_refs data g), ds')"
  using owners_loop [OF assms, of "dvalues (inode_table data g)" "[]"]
  by (auto simp: owners_pass_def owned_refs_def block_maps_ok_def dvalues_inode_table)

section \<open>The allocation bitmap\<close>

definition marked :: "bytes \<Rightarrow> geometry \<Rightarrow> nat \<Rightarrow> bool" where
  "marked data g n = bit (block data (g_bmapstart g + n div BPB) ! (n mod BPB div 8)) (n mod BPB mod 8)"

definition bitmap_ok :: "bytes \<Rightarrow> geometry \<Rightarrow> bool" where
  "bitmap_ok data g \<longleftrightarrow>
     distinct (owned_block_list data g) \<and>
     (\<forall>n < g_size g. marked data g n \<longleftrightarrow> n < g_data_start g \<or> n \<in> set (owned_block_list data g))"

lemma bitmap_bit_eq:
  assumes "geometry_ok data g" and "n < g_size g"
  shows "bitmap_bit data g n = Inr (marked data g n)"
proof -
  have "n div 8192 < (g_size g + 8191) div 8192" using assms(2) by linarith
  then have "g_bmapstart g + n div BPB < g_data_start g"
    using assms(1) by (simp add: geometry_ok_def BPB_def BSIZE_def add.commute)
  then have "g_bmapstart g + n div BPB < g_size g"
    using assms(1) by (simp add: geometry_ok_def)
  then have "length (block data (g_bmapstart g + n div BPB)) = BSIZE"
    using geometry_ok_image [OF assms(1)] by simp
  moreover have "n mod BPB div 8 < BSIZE" by (simp add: BPB_def BSIZE_def)
  ultimately show ?thesis by (simp add: bitmap_bit_def marked_def Let_def)
qed

definition owner_diag ::
    "bytes \<Rightarrow> geometry \<Rightarrow> diags \<Rightarrow> nat \<times> (nat \<times> block_kind \<times> nat) list \<Rightarrow> diags" where
  "owner_diag data g ds = (\<lambda>(n, es).
     let ds = (if length es > 1
               then diag_add ''E_BLOCK_DUP'' [(''block'', show_nat n), (''owners'', show_nat (length es))] ds
               else ds)
     in if \<not> marked data g n then diag_add ''E_BITMAP_UNMARKED'' [(''block'', show_nat n)] ds else ds)"

definition metadata_diag :: "bytes \<Rightarrow> geometry \<Rightarrow> diags \<Rightarrow> nat \<Rightarrow> diags" where
  "metadata_diag data g ds n =
     (if \<not> marked data g n then diag_add ''E_BITMAP_METADATA'' [(''block'', show_nat n)] ds else ds)"

definition leak_diag :: "bytes \<Rightarrow> geometry \<Rightarrow> owner_table \<Rightarrow> diags \<Rightarrow> nat \<Rightarrow> diags" where
  "leak_diag data g owners ds n =
     (if marked data g n \<and> n \<notin> set (dkeys owners)
      then diag_add ''E_BITMAP_LEAK'' [(''block'', show_nat n)] ds else ds)"

interpretation owner_diag: diag_check "owner_diag data g" "\<lambda>(n, es). length es \<le> 1 \<and> marked data g n"
  for data g
  by unfold_locales (auto simp: owner_diag_def Let_def split: prod.splits if_splits)

interpretation metadata_diag: diag_check "metadata_diag data g" "marked data g" for data g
  by unfold_locales (auto simp: metadata_diag_def)

interpretation leak_diag: diag_check "leak_diag data g owners"
  "\<lambda>n. marked data g n \<longrightarrow> n \<in> set (dkeys owners)" for data g owners
  by unfold_locales (auto simp: leak_diag_def)

lemma owned_in_region: "n \<in> set (owned_block_list data g) \<Longrightarrow> g_data_start g \<le> n \<and> n < g_size g"
  by (auto simp: owned_block_list_def owned_refs_def refs_of_def in_region_def)

lemma bitmap_exact:
  fixes s z :: nat
  assumes "s < z" and "\<forall>n \<in> Ow. s \<le> n \<and> n < z"
  shows "(\<forall>n \<in> Ow. M n) \<and> (\<forall>n \<in> set [0..<s]. M n) \<and> (\<forall>n \<in> set [s..<z]. M n \<longrightarrow> n \<in> Ow) \<longleftrightarrow>
    (\<forall>n < z. M n \<longleftrightarrow> n < s \<or> n \<in> Ow)" (is "?l \<longleftrightarrow> ?r")
proof
  assume l: ?l
  show ?r
  proof (intro allI impI)
    fix n
    assume "n < z"
    then have "n < s \<or> n \<in> set [s..<z]" by auto
    moreover have "n < s \<Longrightarrow> n \<in> set [0..<s]" by simp
    moreover have "n \<in> set [s..<z] \<Longrightarrow> \<not> n < s" by simp
    ultimately show "M n \<longleftrightarrow> n < s \<or> n \<in> Ow" using l by blast
  qed
qed (use assms in auto)

lemma bitmap_pass_eq:
  assumes "geometry_ok data g" and "finite ds"
  obtains ds' where "finite ds'" and "ds' = {} \<longleftrightarrow> ds = {} \<and> bitmap_ok data g"
    and "bitmap_pass data g (group_into [] (owned_refs data g)) ds = Inr ds'"
proof -
  let ?o = "group_into [] (owned_refs data g)"
  let ?d1 = "foldl (owner_diag data g) ds ?o"
  let ?d2 = "foldl (metadata_diag data g) ?d1 [0..<g_data_start g]"
  let ?d3 = "foldl (leak_diag data g ?o) ?d2 [g_data_start g..<g_size g]"
  have ds: "g_data_start g < g_size g" using assms(1) by (simp add: geometry_ok_def)
  have keys: "set (dkeys ?o) = set (owned_block_list data g)"
    by (simp add: dkeys_group owned_block_list_def)
  have own: "n < g_size g" if "(n, es) \<in> set ?o" for n es
    using that keys owned_in_region [of n data g] by (force simp: dkeys_def)
  have bit: "bitmap_bit data g n = Inr (marked data g n)" if "n < g_size g" for n
    using assms(1) that by (rule bitmap_bit_eq)
  have "fold_res (owner_check data g) ds ?o = fold_res (\<lambda>d x. Inr (owner_diag data g d x)) ds ?o"
    by (rule fold_res_cong) (auto simp: owner_check_def owner_diag_def bit own Let_def)
  moreover have "fold_res (metadata_check data g) ?d1 [0..<g_data_start g]
      = fold_res (\<lambda>d x. Inr (metadata_diag data g d x)) ?d1 [0..<g_data_start g]"
    by (rule fold_res_cong) (use ds in \<open>auto simp: metadata_check_def metadata_diag_def bit\<close>)
  moreover have "fold_res (leak_check data g ?o) ?d2 [g_data_start g..<g_size g]
      = fold_res (\<lambda>d x. Inr (leak_diag data g ?o d x)) ?d2 [g_data_start g..<g_size g]"
    by (rule fold_res_cong) (auto simp: leak_check_def leak_diag_def bit)
  ultimately have "bitmap_pass data g ?o ds = Inr ?d3"
    by (simp add: bitmap_pass_def fold_res_Inr)
  moreover have "finite ?d3"
    by (intro leak_diag.loop_finite metadata_diag.loop_finite owner_diag.loop_finite assms(2))
  moreover have "?d3 = {} \<longleftrightarrow> ds = {} \<and> bitmap_ok data g"
  proof -
    have 1: "(\<forall>(n, es) \<in> set ?o. length es \<le> 1 \<and> marked data g n) \<longleftrightarrow>
        distinct (owned_block_list data g) \<and> (\<forall>n \<in> set (owned_block_list data g). marked data g n)"
      unfolding owned_block_list_def distinct_groups keys [unfolded owned_block_list_def, symmetric]
      by (auto simp: dkeys_def)
    show ?thesis
      unfolding leak_diag.loop_empty metadata_diag.loop_empty owner_diag.loop_empty 1 keys bitmap_ok_def
      using bitmap_exact [OF ds, of "set (owned_block_list data g)" "marked data g"]
        owned_in_region [of _ data g] by blast
  qed
  ultimately show ?thesis using that by blast
qed

end
