(* ===== verification/FsckDirs.thy ===== *)
theory FsckDirs
  imports FsckBlocks
begin

text \<open>
  File contents and directories: reading an inode returns exactly the bytes its block map
  describes, and the directory pass records exactly the entries of every directory.
\<close>

section \<open>File contents\<close>

definition file_bytes :: "bytes \<Rightarrow> geometry \<Rightarrow> inode \<Rightarrow> bytes" where
  "file_bytes data g ino =
     take (i_size ino) (concat (map (\<lambda>i. block data (logical_blocks data g ino ! i)) [0..<required_blocks ino]))"

lemma enumerate_shift: "enumerate (b + k) xs = map (\<lambda>(i, a). (b + i, a)) (enumerate k xs)"
  by (induction xs arbitrary: k) (auto simp flip: add_Suc_right)

lemma nonzero_refs_eq:
  "nonzero_refs b xs = map (\<lambda>(i, a). (Data, i, a)) (filter (\<lambda>(i, a). a \<noteq> 0) (enumerate b xs))"
  using enumerate_shift [of b 0 xs]
  by (simp add: nonzero_refs_def filter_map comp_def case_prod_unfold)

lemma nonzero_refs_append: "nonzero_refs b (xs @ ys) = nonzero_refs b xs @ nonzero_refs (b + length xs) ys"
  by (simp add: nonzero_refs_eq enumerate_append_eq)

lemma nonzero_refs_zeros: "nonzero_refs b (replicate n 0) = []"
  by (auto simp: nonzero_refs_eq filter_empty_conv in_set_enumerate_eq)

lemma data_refs:
  assumes "length (i_addrs ino) = 13"
  shows "filter (\<lambda>(k, i, a). k = Data \<and> P a) (inode_refs data g ino)
    = filter (\<lambda>(k, i, a). P a) (nonzero_refs 0 (logical_blocks data g ino))"
proof -
  have n: "length (take NDIRECT (i_addrs ino)) = NDIRECT" using assms by (simp add: NDIRECT_def)
  have d: "filter (\<lambda>x. fst x = Data \<and> P (snd (snd x))) (nonzero_refs b xs)
      = filter (\<lambda>x. P (snd (snd x))) (nonzero_refs b xs)" for b xs
    by (auto simp: nonzero_refs_eq intro!: filter_cong)
  have z: "nonzero_refs NDIRECT (indirect_entries data g ino) = []" if "i_addrs ino ! NDIRECT = 0"
    using that by (simp add: indirect_entries_def nonzero_refs_zeros)
  show ?thesis
    using n z by (simp add: inode_refs_def logical_blocks_def nonzero_refs_append case_prod_unfold d)
qed

definition block_lookup :: "bytes \<Rightarrow> geometry \<Rightarrow> inode \<Rightarrow> (nat, nat) dict" where
  "block_lookup data g ino =
     foldl (\<lambda>d (kind, index, address). dput index address d) []
       (filter (\<lambda>(kind, index, address). kind = Data \<and> in_region g address) (inode_refs data g ino))"

lemma block_lookup_eq:
  assumes "length (i_addrs ino) = 13"
  shows "map_of (block_lookup data g ino) i =
    (if i < MAXFILE \<and> logical_blocks data g ino ! i \<noteq> 0 \<and> in_region g (logical_blocks data g ino ! i)
     then Some (logical_blocks data g ino ! i) else None)"
proof -
  let ?l = "logical_blocks data g ino"
  let ?kvs = "filter (\<lambda>(i, a). a \<noteq> 0 \<and> in_region g a) (enumerate 0 ?l)"
  have "block_lookup data g ino = foldl (\<lambda>d (k, v). dput k v d) [] ?kvs"
    unfolding block_lookup_def data_refs [OF assms] nonzero_refs_eq filter_map foldl_map filter_filter comp_def
    by (simp add: case_prod_unfold conj_commute)
  also have "\<dots> = pydict.put_all ?kvs []" by (simp add: pydict.put_all_def)
  finally have look: "map_of (block_lookup data g ino) = map_of (rev ?kvs)"
    by (simp add: pydict.look_put_all)
  have dis: "distinct (map fst ?kvs)"
    by (rule distinct_map_filter) simp
  have "map_of ?kvs i = Some a \<longleftrightarrow> i < MAXFILE \<and> ?l ! i = a \<and> a \<noteq> 0 \<and> in_region g a" for a
    using dis assms by (auto simp: in_set_enumerate_eq)
  then show ?thesis
    unfolding look map_of_rev_distinct [OF dis] by (cases "map_of ?kvs i") auto
qed

lemma block_lookup_region:
  assumes "length (i_addrs ino) = 13" and "map_of (block_lookup data g ino) i = Some a"
  shows "in_region g a"
  using assms(2) by (simp add: block_lookup_eq [OF assms(1)] split: if_splits)

lemma read_chunks:
  assumes "geometry_ok data g" and "length (i_addrs ino) = 13" and "finite ds"
    and "k \<le> required_blocks ino"
  defines "L \<equiv> map_of (block_lookup data g ino)"
  shows "\<exists>chunks ds'. foldl (read_chunk_step data ino (block_lookup data g ino)) ([], i_size ino, ds) [0..<k]
      = (chunks, i_size ino - k * BSIZE, ds') \<and> finite ds' \<and>
      length chunks = min (i_size ino) (k * BSIZE) \<and>
      (ds' = {} \<longleftrightarrow> ds = {} \<and> (\<forall>i < k. L i \<noteq> None)) \<and>
      ((\<forall>i < k. L i \<noteq> None) \<longrightarrow> chunks = take (i_size ino) (concat (map (\<lambda>i. block data (the (L i))) [0..<k])))"
  using assms(4)
proof (induction k)
  case 0
  then show ?case using assms(3) by simp
next
  case (Suc k)
  from Suc.IH [OF Suc_leD [OF Suc.prems]] obtain chunks ds1 where run:
    "foldl (read_chunk_step data ino (block_lookup data g ino)) ([], i_size ino, ds) [0..<k]
      = (chunks, i_size ino - k * BSIZE, ds1)" and fin: "finite ds1"
    and len: "length chunks = min (i_size ino) (k * BSIZE)"
    and iff: "ds1 = {} \<longleftrightarrow> ds = {} \<and> (\<forall>i < k. L i \<noteq> None)"
    and val: "(\<forall>i < k. L i \<noteq> None) \<Longrightarrow> chunks = take (i_size ino) (concat (map (\<lambda>i. block data (the (L i))) [0..<k]))"
    by blast
  let ?c = "min (i_size ino - k * BSIZE) BSIZE"
  have rem: "i_size ino - k * BSIZE - ?c = i_size ino - Suc k * BSIZE" by (simp add: min_def algebra_simps)
  have lb: "length (block data a) = BSIZE" if "L i = Some a" for i a
    using block_lookup_region [OF assms(2)] geometry_ok_image [OF assms(1)] that
    by (auto simp: in_region_def L_def)
  show ?case
  proof (cases "L k")
    case None
    have no: "\<not> (\<forall>i < Suc k. L i \<noteq> None)" using None by auto
    have total: "min (i_size ino) (k * BSIZE) + ?c = min (i_size ino) (Suc k * BSIZE)"
      by (auto simp: min_def)
    have "read_chunk_step data ino (block_lookup data g ino) (chunks, i_size ino - k * BSIZE, ds1) k
        = (chunks @ replicate ?c 0, i_size ino - Suc k * BSIZE, diag_add ''E_INODE_HOLE''
             [(''index'', show_nat k), (''inum'', show_nat (i_inum ino))] ds1)"
      using None rem by (simp add: read_chunk_step_def L_def Let_def)
    then show ?thesis using run fin len no total by (auto simp: None)
  next
    case (Some a)
    have c: "take ?c (block data a) = take (i_size ino - k * BSIZE) (block data a)"
      using lb [OF Some] by (simp add: min_def)
    have "length (concat (map (\<lambda>i. block data (the (L i))) [0..<k])) = k * BSIZE"
      if "\<forall>i < k. L i \<noteq> None"
    proof -
      have "map (length \<circ> (\<lambda>i. block data (the (L i)))) [0..<k] = replicate k BSIZE"
        using that lb by (intro nth_equalityI) fastforce+
      then show ?thesis by (simp add: length_concat sum_list_replicate)
    qed
    then show ?thesis
      using run fin len iff rem val Some lb [OF Some] c
      by (auto simp: read_chunk_step_def L_def [symmetric] Let_def less_Suc_eq all_conj_distrib)
  qed
qed

lemma required_cover: "required_blocks ino \<le> MAXFILE \<longleftrightarrow> i_size ino \<le> MAXFILE * BSIZE"
  unfolding required_blocks_def fsck_consts by auto

text \<open>Every present block of a well-formed map is a data block.\<close>

lemma logical_region:
  assumes "length (i_addrs ino) = 13" and "block_map_ok data g ino" and "i < MAXFILE"
    and "logical_blocks data g ino ! i \<noteq> 0"
  shows "in_region g (logical_blocks data g ino ! i)"
proof -
  have "(Data, i, logical_blocks data g ino ! i) \<in> set (nonzero_refs 0 (logical_blocks data g ino))"
    using assms(1,3,4) by (force simp: nonzero_refs_eq in_set_enumerate_eq)
  then have "(Data, i, logical_blocks data g ino ! i)
      \<in> set (filter (\<lambda>(k, i, a). k = Data \<and> True) (inode_refs data g ino))"
    unfolding data_refs [OF assms(1), of "\<lambda>_. True"] by simp
  then have "(Data, i, logical_blocks data g ino ! i) \<in> set (inode_refs data g ino)" by simp
  with assms(2) show ?thesis by (auto simp: block_map_ok_def)
qed

lemma read_inode_bytes_eq:
  assumes "geometry_ok data g" and "length (i_addrs ino) = 13" and "finite ds"
  obtains payload ds' where "read_inode_bytes data g ino ds = Inr (payload, ds')" and "finite ds'"
    and "length payload = i_size ino"
    and "ds' = {} \<longleftrightarrow> ds = {} \<and> block_map_ok data g ino \<and> i_size ino \<le> MAXFILE * BSIZE"
    and "ds' = {} \<Longrightarrow> payload = file_bytes data g ino"
proof -
  obtain ds1 where ds1: "finite ds1" "ds1 = {} \<longleftrightarrow> ds = {} \<and> block_map_ok data g ino"
    and b: "inode_blocks data g ino ds = Inr (inode_refs data g ino, ds1)"
    by (rule inode_blocks_eq [OF assms])
  let ?r = "required_blocks ino" and ?L = "map_of (block_lookup data g ino)"
  obtain chunks ds2 where run:
    "foldl (read_chunk_step data ino (block_lookup data g ino)) ([], i_size ino, ds1) [0..<?r]
      = (chunks, i_size ino - ?r * BSIZE, ds2)" and fin: "finite ds2"
    and len: "length chunks = min (i_size ino) (?r * BSIZE)"
    and iff: "ds2 = {} \<longleftrightarrow> ds1 = {} \<and> (\<forall>i < ?r. ?L i \<noteq> None)"
    and val: "(\<forall>i < ?r. ?L i \<noteq> None) \<Longrightarrow>
      chunks = take (i_size ino) (concat (map (\<lambda>i. block data (the (?L i))) [0..<?r]))"
    using read_chunks [OF assms(1,2) ds1(1) order.refl] by blast
  have read: "read_inode_bytes data g ino ds = Inr (chunks, ds2)"
    unfolding read_inode_bytes_def b bind_res_Inr prod.case block_lookup_def [symmetric]
      required_blocks_def [symmetric] Let_def run by simp
  have "i_size ino \<le> ?r * BSIZE" unfolding required_blocks_def BSIZE_def by auto
  then have len': "length chunks = i_size ino" using len by simp
  have "ds2 = {} \<longleftrightarrow> ds = {} \<and> block_map_ok data g ino \<and> ?r \<le> MAXFILE"
  proof -
    have "(\<forall>i < ?r. ?L i \<noteq> None) \<longleftrightarrow> ?r \<le> MAXFILE" if m: "block_map_ok data g ino"
    proof
      assume *: "\<forall>i < ?r. ?L i \<noteq> None"
      show "?r \<le> MAXFILE"
      proof (rule ccontr)
        assume "\<not> ?r \<le> MAXFILE"
        with * have "?L MAXFILE \<noteq> None" by simp
        then show False by (simp add: block_lookup_eq [OF assms(2)])
      qed
    next
      assume r: "?r \<le> MAXFILE"
      show "\<forall>i < ?r. ?L i \<noteq> None"
      proof (intro allI impI)
        fix i
        assume "i < ?r"
        then have "i < MAXFILE" "logical_blocks data g ino ! i \<noteq> 0"
          using r m by (auto simp: block_map_ok_def)
        then show "?L i \<noteq> None" using logical_region [OF assms(2) m] by (simp add: block_lookup_eq [OF assms(2)])
      qed
    qed
    then show ?thesis using iff ds1(2) by auto
  qed
  moreover have "chunks = file_bytes data g ino" if "ds2 = {}"
  proof -
    have all: "\<forall>i < ?r. ?L i \<noteq> None" using that iff by simp
    have "the (?L i) = logical_blocks data g ino ! i" if "i < ?r" for i
    proof -
      from all that obtain a where "?L i = Some a" by auto
      then show ?thesis by (simp add: block_lookup_eq [OF assms(2)] split: if_splits)
    qed
    then have "map (\<lambda>i. block data (the (?L i))) [0..<?r]
        = map (\<lambda>i. block data (logical_blocks data g ino ! i)) [0..<?r]" by (intro map_cong) simp_all
    then show ?thesis using val [OF all] by (simp only: file_bytes_def)
  qed
  ultimately show ?thesis using that [OF read fin len'] required_cover by simp
qed

section \<open>Directory entries\<close>

type_synonym entry = "bytes \<times> nat"

text \<open>The used slots of a directory, as pairs of name and inode number.\<close>

definition slot_at :: "bytes \<Rightarrow> nat \<Rightarrow> nat \<times> bytes" where
  "slot_at payload offset = (le_nat (py_slice payload offset (offset + 2)),
     py_slice payload (offset + 2) (offset + 16))"

definition slots :: "bytes \<Rightarrow> (nat \<times> bytes) list" where
  "slots payload = map (\<lambda>k. slot_at payload (16 * k)) [0..<length payload div 16]"

definition used_entries :: "(nat \<times> bytes) list \<Rightarrow> entry list" where
  "used_entries ss = map (\<lambda>(t, raw). (decode_name raw, t)) (filter (\<lambda>(t, raw). t \<noteq> 0) ss)"

definition named :: "entry list \<Rightarrow> entry list" where
  "named es = filter (\<lambda>(n, t). n \<noteq> DOT \<and> n \<noteq> DOTDOT) es"

definition entries_ok :: "(nat \<Rightarrow> bool) \<Rightarrow> nat \<Rightarrow> entry list \<Rightarrow> bool" where
  "entries_ok alive inum es \<longleftrightarrow>
     (\<forall>(n, t) \<in> set es. n \<noteq> [] \<and> alive t \<and> (n = DOT \<longrightarrow> t = inum)) \<and> distinct (map fst es)"

text \<open>What the directory pass records for the entries of one directory.\<close>

definition record_entries :: "nat \<Rightarrow> entry list \<Rightarrow> dir_scan \<Rightarrow> dir_scan" where
  "record_entries inum es sc =
     \<lparr>sc_edges = group_into (sc_edges sc) (map (Pair inum) (named es)),
      sc_dots = (if DOT \<in> fst ` set es then insert inum (sc_dots sc) else sc_dots sc),
      sc_dotdot = foldl (\<lambda>d (n, t). dput inum t d) (sc_dotdot sc) (filter (\<lambda>(n, t). n = DOTDOT) es),
      sc_references = foldl (\<lambda>d t. incr t d) (sc_references sc) (map snd (named es))\<rparr>"

lemma DOT_DOTDOT [simp]: "DOT \<noteq> DOTDOT" "DOTDOT \<noteq> DOT" "DOT \<noteq> []" "DOTDOT \<noteq> []"
  by (simp_all add: DOT_def DOTDOT_def)

lemma scan_offsets: "py_range 0 (n + 1 - 16) 16 = map (\<lambda>k. 16 * k) [0..<n div 16]"
proof -
  have "(n + 1 - 16 + 16 - 1 - 0) div 16 = n div 16" by (cases "n < 16") auto
  then show ?thesis by (simp add: py_range_eq mult.commute)
qed

lemma unpack_DIRENT:
  assumes "offset + 16 \<le> length payload"
  shows "unpack_from DIRENT payload offset
    = Inr [PNat (fst (slot_at payload offset)), PBytes (snd (slot_at payload offset))]"
  using assms
  by (simp add: unpack_from_def DIRENT_def slot_at_def py_slice_def add.commute)

lemma record_entries_simps:
  "record_entries inum [] sc = sc"
  "n \<noteq> DOT \<Longrightarrow> n \<noteq> DOTDOT \<Longrightarrow> record_entries inum ((n, t) # es) sc =
     record_entries inum es (sc\<lparr>sc_edges := dappend inum (n, t) (sc_edges sc),
       sc_references := incr t (sc_references sc)\<rparr>)"
  "record_entries inum ((DOT, t) # es) sc = record_entries inum es (sc\<lparr>sc_dots := insert inum (sc_dots sc)\<rparr>)"
  "record_entries inum ((DOTDOT, t) # es) sc = record_entries inum es (sc\<lparr>sc_dotdot := dput inum t (sc_dotdot sc)\<rparr>)"
  by (auto simp: record_entries_def named_def)

text \<open>The loop over the slots of one directory.\<close>

lemma slot_loop:
  assumes "alive = (\<lambda>t. t \<in> set (dkeys inodes))"
  shows "finite ds \<Longrightarrow> \<exists>names' sc' ds'.
    foldl (\<lambda>st (off, t, raw). dirent_entry inodes inum off st t raw) (names, sc, ds) ss = (names', sc', ds') \<and>
    finite ds' \<and>
    (ds' = {} \<longleftrightarrow> ds = {} \<and> entries_ok alive inum (used_entries (map snd ss)) \<and>
       fst ` set (used_entries (map snd ss)) \<inter> names = {}) \<and>
    (ds' = {} \<longrightarrow> sc' = record_entries inum (used_entries (map snd ss)) sc)"
proof (induction ss arbitrary: names sc ds)
  case Nil
  then show ?case by (simp add: used_entries_def entries_ok_def record_entries_simps)
next
  case (Cons s ss)
  obtain off t raw where s: "s = (off, t, raw)" by (cases s)
  let ?es = "used_entries (map snd ss)" and ?n = "decode_name raw"
  obtain names1 sc1 ds1 where step: "dirent_entry inodes inum off (names, sc, ds) t raw = (names1, sc1, ds1)"
    by (rule prod_cases3)
  have fin: "finite ds1"
    using step Cons.prems by (auto simp: dirent_entry_def Let_def split: if_splits)
  from Cons.IH [OF fin, of names1 sc1] obtain names2 sc2 ds2 where
    run: "foldl (\<lambda>st (off, t, raw). dirent_entry inodes inum off st t raw) (names1, sc1, ds1) ss = (names2, sc2, ds2)"
    and fin2: "finite ds2"
    and iff: "ds2 = {} \<longleftrightarrow> ds1 = {} \<and> entries_ok alive inum ?es \<and> fst ` set ?es \<inter> names1 = {}"
    and val: "ds2 = {} \<longrightarrow> sc2 = record_entries inum ?es sc1" by blast
  have whole: "foldl (\<lambda>st (off, t, raw). dirent_entry inodes inum off st t raw) (names, sc, ds) (s # ss)
      = (names2, sc2, ds2)" by (simp add: s step run)
  show ?case
  proof (cases "t = 0")
    case True
    then have "names1 = names" "sc1 = sc" "ds1 = ds" "used_entries (map snd (s # ss)) = ?es"
      using step by (auto simp: dirent_entry_def used_entries_def s)
    then show ?thesis using whole fin2 iff val by auto
  next
    case False
    have used: "used_entries (map snd (s # ss)) = (?n, t) # ?es"
      using False by (simp add: used_entries_def s)
    define good where "good \<longleftrightarrow> ?n \<noteq> [] \<and> alive t \<and> (?n = DOT \<longrightarrow> t = inum) \<and> ?n \<notin> names"
    have ok: "entries_ok alive inum ((?n, t) # ?es) \<and> fst ` set ((?n, t) # ?es) \<inter> names = {} \<longleftrightarrow>
        good \<and> entries_ok alive inum ?es \<and> fst ` set ?es \<inter> insert ?n names = {}"
      by (auto simp: entries_ok_def good_def)
    have ds1: "ds1 = {} \<longleftrightarrow> ds = {} \<and> good"
      using step False by (auto simp: dirent_entry_def Let_def good_def assms split: if_splits)
    have n1: "good \<Longrightarrow> names1 = insert ?n names"
      using step False by (auto simp: dirent_entry_def Let_def good_def assms split: if_splits)
    have rec: "good \<Longrightarrow> record_entries inum ?es sc1 = record_entries inum ((?n, t) # ?es) sc"
      using step False
      by (cases "?n = DOT"; cases "?n = DOTDOT")
        (auto simp: dirent_entry_def Let_def good_def assms record_entries_simps split: if_splits)
    have "ds2 = {} \<longleftrightarrow> ds = {} \<and> good \<and> entries_ok alive inum ?es \<and> fst ` set ?es \<inter> insert ?n names = {}"
      using iff ds1 n1 by (cases good) simp_all
    moreover have "ds2 = {} \<longrightarrow> sc2 = record_entries inum ((?n, t) # ?es) sc"
      using iff ds1 val rec by simp
    ultimately show ?thesis
      unfolding used ok using whole fin2 by blast
  qed
qed

lemma scan_slots:
  assumes "finite ds"
  shows "\<exists>names' sc' ds'. fold_res (scan_dirent inodes inum payload) ({}, sc, ds)
      (py_range 0 (length payload + 1 - calcsize DIRENT) (calcsize DIRENT)) = Inr (names', sc', ds') \<and>
    finite ds' \<and>
    (ds' = {} \<longleftrightarrow> ds = {} \<and> entries_ok (\<lambda>t. t \<in> set (dkeys inodes)) inum (used_entries (slots payload))) \<and>
    (ds' = {} \<longrightarrow> sc' = record_entries inum (used_entries (slots payload)) sc)"
proof -
  let ?offs = "map (\<lambda>k. 16 * k) [0..<length payload div 16]"
  let ?ss = "map (\<lambda>off. (off, slot_at payload off)) ?offs"
  have fits: "off + 16 \<le> length payload" if "off \<in> set ?offs" for off
    using that by auto
  have "fold_res (scan_dirent inodes inum payload) ({}, sc, ds) ?offs
      = fold_res (\<lambda>st off. Inr (dirent_entry inodes inum off st (fst (slot_at payload off)) (snd (slot_at payload off))))
          ({}, sc, ds) ?offs"
    by (rule fold_res_cong) (use fits in \<open>simp_all add: scan_dirent_def unpack_DIRENT\<close>)
  also have "\<dots> = Inr (foldl (\<lambda>st (off, t, raw). dirent_entry inodes inum off st t raw) ({}, sc, ds) ?ss)"
    by (simp add: fold_res_Inr foldl_map case_prod_unfold)
  finally have run: "fold_res (scan_dirent inodes inum payload) ({}, sc, ds)
      (py_range 0 (length payload + 1 - calcsize DIRENT) (calcsize DIRENT))
      = Inr (foldl (\<lambda>st (off, t, raw). dirent_entry inodes inum off st t raw) ({}, sc, ds) ?ss)"
    by (simp only: calcsize_DIRENT scan_offsets)
  have ss: "map snd ?ss = slots payload" by (simp add: slots_def)
  show ?thesis
    using slot_loop [OF refl assms, of inodes inum "{}" sc ?ss] unfolding run ss by auto
qed

section \<open>The directory pass\<close>

definition is_dir :: "bytes \<Rightarrow> geometry \<Rightarrow> nat \<Rightarrow> bool" where
  "is_dir data g i \<longleftrightarrow> live data g i \<and> i_type (inode_at data g i) = T_DIR"

definition dir_entries :: "bytes \<Rightarrow> geometry \<Rightarrow> nat \<Rightarrow> entry list" where
  "dir_entries data g i = used_entries (slots (file_bytes data g (inode_at data g i)))"

definition dir_ok :: "bytes \<Rightarrow> geometry \<Rightarrow> nat \<Rightarrow> bool" where
  "dir_ok data g i \<longleftrightarrow>
     i_size (inode_at data g i) mod 16 = 0 \<and> entries_ok (live data g) i (dir_entries data g i)"

definition readable :: "bytes \<Rightarrow> geometry \<Rightarrow> inode \<Rightarrow> bool" where
  "readable data g ino \<longleftrightarrow> block_map_ok data g ino \<and> i_size ino \<le> MAXFILE * BSIZE"

lemma scan_directory_eq:
  assumes "geometry_ok data g" and "finite ds" and "live data g i"
  shows "\<exists>sc' ds'. scan_directory data g (inode_table data g) (sc, ds) (inode_at data g i) = Inr (sc', ds') \<and>
    finite ds' \<and>
    (ds' = {} \<longleftrightarrow> ds = {} \<and> (is_dir data g i \<longrightarrow> readable data g (inode_at data g i) \<and> dir_ok data g i)) \<and>
    (ds' = {} \<longrightarrow> sc' = (if is_dir data g i then record_entries i (dir_entries data g i) sc else sc))"
proof (cases "is_dir data g i")
  case False
  then show ?thesis using assms by (auto simp: scan_directory_def is_dir_def)
next
  case True
  let ?ino = "inode_at data g i"
  obtain payload ds1 where read: "read_inode_bytes data g ?ino ds = Inr (payload, ds1)"
    and fin: "finite ds1" and len: "length payload = i_size ?ino"
    and iff: "ds1 = {} \<longleftrightarrow> ds = {} \<and> block_map_ok data g ?ino \<and> i_size ?ino \<le> MAXFILE * BSIZE"
    and val: "ds1 = {} \<Longrightarrow> payload = file_bytes data g ?ino"
    using read_inode_bytes_eq [OF assms(1) length_addrs_inode_at assms(2)] by metis
  define ds2 where "ds2 = (if length payload mod calcsize DIRENT \<noteq> 0
      then diag_add ''E_DIR_SIZE'' [(''inum'', show_nat (i_inum ?ino)), (''size'', show_nat (length payload))] ds1
      else ds1)"
  have ds2: "finite ds2" "ds2 = {} \<longleftrightarrow> ds1 = {} \<and> i_size ?ino mod 16 = 0"
    using fin len by (auto simp: ds2_def)
  have alive: "(\<lambda>t. t \<in> set (dkeys (inode_table data g))) = live data g"
    by (simp add: dkeys_inode_table)
  obtain names3 sc3 ds3 where slots:
    "fold_res (scan_dirent (inode_table data g) i payload) ({}, sc, ds2)
      (py_range 0 (length payload + 1 - calcsize DIRENT) (calcsize DIRENT)) = Inr (names3, sc3, ds3)"
    "finite ds3"
    "ds3 = {} \<longleftrightarrow> ds2 = {} \<and> entries_ok (live data g) i (used_entries (slots payload))"
    "ds3 = {} \<longrightarrow> sc3 = record_entries i (used_entries (slots payload)) sc"
    using scan_slots [OF ds2(1), of "inode_table data g" i payload sc] unfolding alive by blast
  have scan: "scan_directory data g (inode_table data g) (sc, ds) ?ino = Inr (sc3, ds3)"
  proof -
    have ty: "\<not> i_type ?ino \<noteq> T_DIR" using True by (simp add: is_dir_def)
    show ?thesis
      unfolding scan_directory_def prod.case if_not_P [OF ty] read bind_res_Inr Let_def ds2_def [symmetric]
      unfolding i_inum_inode_at slots(1) by simp
  qed
  have "ds3 = {} \<longleftrightarrow> ds = {} \<and> readable data g ?ino \<and> dir_ok data g i"
    using slots(3) ds2(2) iff val by (auto simp: readable_def dir_ok_def dir_entries_def)
  moreover have "ds3 = {} \<longrightarrow> sc3 = record_entries i (dir_entries data g i) sc"
    using slots(3,4) ds2(2) val by (auto simp: dir_entries_def)
  ultimately show ?thesis using scan slots(2) True by auto
qed

definition live_list :: "bytes \<Rightarrow> geometry \<Rightarrow> nat list" where
  "live_list data g = filter (live data g) [1..<g_ninodes g]"

definition dir_list :: "bytes \<Rightarrow> geometry \<Rightarrow> nat list" where
  "dir_list data g = filter (is_dir data g) (live_list data g)"

definition scan_of :: "bytes \<Rightarrow> geometry \<Rightarrow> nat list \<Rightarrow> dir_scan" where
  "scan_of data g is = foldl (\<lambda>sc i. record_entries i (dir_entries data g i) sc)
     \<lparr>sc_edges = [], sc_dots = {}, sc_dotdot = [], sc_references = []\<rparr> is"

lemma set_live_list [simp]: "set (live_list data g) = {i. live data g i}"
  by (auto simp: live_list_def live_def)

lemma set_dir_list [simp]: "set (dir_list data g) = {i. is_dir data g i}"
  by (auto simp: dir_list_def is_dir_def)

lemma distinct_lists [simp]: "distinct (live_list data g)" "distinct (dir_list data g)"
  by (simp_all add: live_list_def dir_list_def)

lemma inode_table_live_list: "inode_table data g = map (\<lambda>i. (i, inode_at data g i)) (live_list data g)"
  unfolding inode_table_def live_list_def
  by (intro arg_cong [where f = "map _"] filter_cong) (auto simp: live_def)

lemma directory_loop:
  assumes "geometry_ok data g" and "finite ds" and "\<forall>i \<in> set is. live data g i"
  shows "\<exists>sc' ds'. fold_res (scan_directory data g (inode_table data g)) (sc, ds) (map (inode_at data g) is)
      = Inr (sc', ds') \<and> finite ds' \<and>
    (ds' = {} \<longleftrightarrow> ds = {} \<and> (\<forall>i \<in> set is. is_dir data g i \<longrightarrow> readable data g (inode_at data g i) \<and> dir_ok data g i)) \<and>
    (ds' = {} \<longrightarrow> sc' = foldl (\<lambda>sc i. record_entries i (dir_entries data g i) sc) sc (filter (is_dir data g) is))"
  using assms(2,3)
proof (induction "is" arbitrary: sc ds)
  case Nil
  then show ?case by simp
next
  case (Cons i "is")
  have "live data g i" using Cons.prems(2) by simp
  from scan_directory_eq [OF assms(1) Cons.prems(1) this, of sc] obtain sc1 ds1 where
    step: "scan_directory data g (inode_table data g) (sc, ds) (inode_at data g i) = Inr (sc1, ds1)"
    and fin: "finite ds1"
    and iff1: "ds1 = {} \<longleftrightarrow> ds = {} \<and> (is_dir data g i \<longrightarrow> readable data g (inode_at data g i) \<and> dir_ok data g i)"
    and val1: "ds1 = {} \<longrightarrow> sc1 = (if is_dir data g i then record_entries i (dir_entries data g i) sc else sc)"
    by blast
  have "\<forall>i \<in> set is. live data g i" using Cons.prems(2) by simp
  from Cons.IH [OF fin this, of sc1] obtain sc2 ds2 where
    run: "fold_res (scan_directory data g (inode_table data g)) (sc1, ds1) (map (inode_at data g) is)
      = Inr (sc2, ds2)" and fin2: "finite ds2"
    and iff2: "ds2 = {} \<longleftrightarrow> ds1 = {} \<and>
      (\<forall>i \<in> set is. is_dir data g i \<longrightarrow> readable data g (inode_at data g i) \<and> dir_ok data g i)"
    and val2: "ds2 = {} \<longrightarrow>
      sc2 = foldl (\<lambda>sc i. record_entries i (dir_entries data g i) sc) sc1 (filter (is_dir data g) is)"
    by blast
  have "ds2 = {} \<longleftrightarrow> ds = {} \<and>
      (\<forall>i \<in> set (i # is). is_dir data g i \<longrightarrow> readable data g (inode_at data g i) \<and> dir_ok data g i)"
    using iff1 iff2 by auto
  moreover have "ds2 = {} \<longrightarrow>
      sc2 = foldl (\<lambda>sc i. record_entries i (dir_entries data g i) sc) sc (filter (is_dir data g) (i # is))"
    using val1 val2 iff2 by simp
  ultimately show ?case using step run fin2 by simp
qed

lemma directory_pass_eq:
  assumes "geometry_ok data g" and "finite ds"
  obtains sc ds' where "directory_pass data g (inode_table data g) ds = Inr (sc, ds')" and "finite ds'"
    and "ds' = {} \<longleftrightarrow> ds = {} \<and>
      (\<forall>i. is_dir data g i \<longrightarrow> readable data g (inode_at data g i) \<and> dir_ok data g i)"
    and "ds' = {} \<Longrightarrow> sc = scan_of data g (dir_list data g)"
proof -
  have vals: "dvalues (inode_table data g) = map (inode_at data g) (live_list data g)"
    by (simp add: inode_table_live_list dvalues_def comp_def)
  have dirs: "(\<forall>i \<in> set (live_list data g). is_dir data g i \<longrightarrow> P i) \<longleftrightarrow> (\<forall>i. is_dir data g i \<longrightarrow> P i)" for P
    by (auto simp: is_dir_def)
  have "\<forall>i \<in> set (live_list data g). live data g i" by simp
  from directory_loop [OF assms this, of
      "\<lparr>sc_edges = [], sc_dots = {}, sc_dotdot = [], sc_references = []\<rparr>"]
  show ?thesis
    unfolding directory_pass_def [symmetric] vals [symmetric] dirs scan_of_def [symmetric] dir_list_def [symmetric]
    using that by blast
qed

section \<open>What the scan records\<close>

lemma dget_or_incr: "dget_or (incr k d) x 0 = dget_or d x 0 + (if x = k then 1 else 0)"
  by (simp add: incr_def dget_or_def)

lemma dget_or_incrs: "dget_or (foldl (\<lambda>d t. incr t d) d ts) x 0 = dget_or d x 0 + count_list ts x"
  by (induction ts arbitrary: d) (simp_all add: dget_or_incr)

lemma dget_or_group: "dget_or (group_into d xs) k [] = dget_or d k [] @ map snd (filter (\<lambda>p. fst p = k) xs)"
  by (simp add: dget_or_def map_of_group_into Let_def split: option.splits)

lemma dotdot_fold:
  assumes "distinct (map fst es)"
  shows "map_of (foldl (\<lambda>d (n, t). dput i t d) d (filter (\<lambda>(n, t). n = DOTDOT) es)) x
    = (if x = i then case map_of es DOTDOT of None \<Rightarrow> map_of d i | Some t \<Rightarrow> Some t else map_of d x)"
  using assms
proof (induction es arbitrary: d)
  case Nil
  then show ?case by simp
next
  case (Cons e es)
  obtain n t where e: "e = (n, t)" by (cases e)
  show ?case
  proof (cases "n = DOTDOT")
    case True
    then have "map_of es DOTDOT = None"
      using Cons.prems e by (simp add: map_of_eq_None_iff)
    with Cons True e show ?thesis by auto
  next
    case False
    with Cons e show ?thesis by auto
  qed
qed

lemma scan_of_facts:
  assumes "distinct is" and "\<forall>i \<in> set is. distinct (map fst (dir_entries data g i))"
  shows "dget_or (sc_edges (scan_of data g is)) u [] = (if u \<in> set is then named (dir_entries data g u) else [])"
    and "sc_dots (scan_of data g is) = {i \<in> set is. DOT \<in> fst ` set (dir_entries data g i)}"
    and "map_of (sc_dotdot (scan_of data g is)) u
      = (if u \<in> set is then map_of (dir_entries data g u) DOTDOT else None)"
    and "dget_or (sc_references (scan_of data g is)) u 0
      = count_list (concat (map (\<lambda>i. map snd (named (dir_entries data g i))) is)) u"
proof -
  have app: "scan_of data g (is @ [i]) = record_entries i (dir_entries data g i) (scan_of data g is)" for i "is"
    by (simp add: scan_of_def)
  have nil: "scan_of data g [] = \<lparr>sc_edges = [], sc_dots = {}, sc_dotdot = [], sc_references = []\<rparr>"
    by (simp add: scan_of_def)
  have emp: "dget_or [] k x = x" for k :: nat and x :: 'v
    by (simp add: dget_or_def)
  have flt: "map snd (filter (\<lambda>p. fst p = u) (map (Pair i) es)) = (if u = i then es else [])" for i and es :: "entry list"
    by (induction es) auto
  show "dget_or (sc_edges (scan_of data g is)) u [] = (if u \<in> set is then named (dir_entries data g u) else [])"
    using assms(1)
    by (induction "is" rule: rev_induct)
      (auto simp: app record_entries_def dget_or_group flt nil emp)
  show "sc_dots (scan_of data g is) = {i \<in> set is. DOT \<in> fst ` set (dir_entries data g i)}"
    by (induction "is" rule: rev_induct) (auto simp: app nil record_entries_def)
  show "map_of (sc_dotdot (scan_of data g is)) u
      = (if u \<in> set is then map_of (dir_entries data g u) DOTDOT else None)"
    using assms
  proof (induction "is" rule: rev_induct)
    case Nil
    then show ?case by (simp add: scan_of_def)
  next
    case (snoc i "is")
    then have "distinct (map fst (dir_entries data g i))" by simp
    from dotdot_fold [OF this, of i "sc_dotdot (scan_of data g is)" u] snoc show ?case
      by (auto simp: app record_entries_def split: option.splits)
  qed
  show "dget_or (sc_references (scan_of data g is)) u 0
      = count_list (concat (map (\<lambda>i. map snd (named (dir_entries data g i))) is)) u"
    by (induction "is" rule: rev_induct)
      (simp_all add: app nil emp record_entries_def dget_or_incrs)
qed

end
