(* ===== verification/FsckTree.thy ===== *)
theory FsckTree
  imports FsckDirs "HOL-Library.Multiset"
begin

text \<open>
  The search from the root directory and the link counts.  The breadth-first search visits exactly
  the directories reachable from the root; it adds no diagnostic exactly when no directory is named
  twice and nothing names the root, that is, when the directories form a tree.
\<close>

section \<open>The search invariant\<close>

definition dir_in :: "inodes \<Rightarrow> nat \<Rightarrow> bool" where
  "dir_in inodes t \<longleftrightarrow> (\<exists>c. map_of inodes t = Some c \<and> i_type c = T_DIR)"

definition leaf_in :: "inodes \<Rightarrow> nat \<Rightarrow> bool" where
  "leaf_in inodes t \<longleftrightarrow> (\<exists>c. map_of inodes t = Some c \<and> i_type c \<noteq> T_DIR)"

text \<open>The directory-to-directory edges among the edges examined so far.\<close>

definition dir_edges :: "inodes \<Rightarrow> (nat \<times> nat) list \<Rightarrow> (nat \<times> nat) list" where
  "dir_edges inodes es = filter (\<lambda>(u, t). dir_in inodes t) es"

definition tree_like :: "(nat \<times> nat) list \<Rightarrow> bool" where
  "tree_like es \<longleftrightarrow> distinct (map snd es) \<and> ROOTINO \<notin> snd ` set es"

text \<open>
  The state of the search after visiting the directories \<open>ps\<close> and examining the edges \<open>es\<close>.
\<close>

definition walk_inv :: "inodes \<Rightarrow> diags \<Rightarrow> nat list \<Rightarrow> (nat \<times> nat) list \<Rightarrow> walk \<Rightarrow> bool" where
  "walk_inv inodes d0 ps es w \<longleftrightarrow>
     w_reachable w = set ps \<union> {t. leaf_in inodes t \<and> t \<in> snd ` set es} \<and>
     (\<forall>t. dget_or (w_incoming w) t 0 = count_list (map snd (dir_edges inodes es)) t) \<and>
     (\<forall>u. dget_or (w_children w) u 0 = count_list (map fst (dir_edges inodes es)) u) \<and>
     (\<forall>t. map_of (w_parents w) t = None \<longleftrightarrow> t \<noteq> ROOTINO \<and> t \<notin> snd ` set (dir_edges inodes es)) \<and>
     (\<forall>t u. map_of (w_parents w) t = Some u \<longrightarrow> (u, t) \<in> set (dir_edges inodes es) \<or> t = ROOTINO \<and> u = ROOTINO) \<and>
     (w_diags w = {} \<longleftrightarrow> d0 = {} \<and> tree_like (dir_edges inodes es)) \<and>
     finite (w_diags w) \<and> distinct ps \<and>
     (\<forall>u \<in> set ps \<union> set (w_queue w). dir_in inodes u \<and> (u = ROOTINO \<or> u \<in> snd ` set (dir_edges inodes es))) \<and>
     snd ` set (dir_edges inodes es) \<subseteq> set ps \<union> set (w_queue w) \<and>
     ROOTINO \<in> set ps \<union> set (w_queue w) \<and>
     fst ` set es \<subseteq> set ps \<and>
     (\<forall>u \<in> set ps \<union> set (w_queue w). (ROOTINO, u) \<in> (set es)\<^sup>*)"

lemma walk_invD:
  assumes "walk_inv inodes d0 ps es w"
  shows "w_reachable w = set ps \<union> {t. leaf_in inodes t \<and> t \<in> snd ` set es}"
    and "dget_or (w_incoming w) t 0 = count_list (map snd (dir_edges inodes es)) t"
    and "dget_or (w_children w) u 0 = count_list (map fst (dir_edges inodes es)) u"
    and "map_of (w_parents w) t = None \<longleftrightarrow> t \<noteq> ROOTINO \<and> t \<notin> snd ` set (dir_edges inodes es)"
    and "map_of (w_parents w) t = Some u \<Longrightarrow> (u, t) \<in> set (dir_edges inodes es) \<or> t = ROOTINO \<and> u = ROOTINO"
    and "w_diags w = {} \<longleftrightarrow> d0 = {} \<and> tree_like (dir_edges inodes es)"
    and "finite (w_diags w)" and "distinct ps"
    and "u \<in> set ps \<union> set (w_queue w) \<Longrightarrow> dir_in inodes u"
    and "u \<in> set ps \<union> set (w_queue w) \<Longrightarrow> u = ROOTINO \<or> u \<in> snd ` set (dir_edges inodes es)"
    and "snd ` set (dir_edges inodes es) \<subseteq> set ps \<union> set (w_queue w)"
    and "ROOTINO \<in> set ps \<union> set (w_queue w)"
    and "fst ` set es \<subseteq> set ps"
    and "u \<in> set ps \<union> set (w_queue w) \<Longrightarrow> (ROOTINO, u) \<in> (set es)\<^sup>*"
  using assms by (simp_all add: walk_inv_def)

lemma dir_edges_snoc:
  "dir_edges inodes (es @ [(u, t)]) = dir_edges inodes es @ (if dir_in inodes t then [(u, t)] else [])"
  by (simp add: dir_edges_def)

lemma dget_or_incr': "dget_or (incr k d) x 0 = (if x = k then Suc (dget_or d x 0) else dget_or d x 0)"
  by (simp add: dget_or_incr)

lemma tree_like_snoc:
  "tree_like (es @ [(u, t)]) \<longleftrightarrow> tree_like es \<and> t \<noteq> ROOTINO \<and> t \<notin> snd ` set es"
  by (auto simp: tree_like_def)

lemma count_snd_zero: "count_list (map snd es) t = 0 \<longleftrightarrow> t \<notin> snd ` set es"
  by (simp add: count_list_0_iff)

lemma rtrancl_mono_snoc: "p \<in> (set es)\<^sup>* \<Longrightarrow> p \<in> (insert e (set es))\<^sup>*"
  by (meson rtrancl_mono subsetD subset_insertI)

lemma walk_edge_leaf:
  assumes "walk_inv inodes d0 ps es w" and "u \<in> set ps" and "\<not> dir_in inodes t"
  shows "walk_inv inodes d0 ps (es @ [(u, t)]) (walk_edge inodes u w (n, t))"
proof -
  note D = walk_invD [OF assms(1)]
  have ed: "dir_edges inodes (es @ [(u, t)]) = dir_edges inodes es"
    using assms(3) by (simp add: dir_edges_snoc)
  have reach: "(ROOTINO, x) \<in> (set (es @ [(u, t)]))\<^sup>*" if "x \<in> set ps \<union> set (w_queue w)" for x
    using D(14) [OF that] rtrancl_mono_snoc by simp
  let ?r = "set ps \<union> {x. leaf_in inodes x \<and> x \<in> snd ` set (es @ [(u, t)])}"
  have "walk_edge inodes u w (n, t) = w\<lparr>w_reachable := ?r\<rparr>"
  proof (cases "leaf_in inodes t")
    case True
    then have "walk_edge inodes u w (n, t) = w\<lparr>w_reachable := insert t (w_reachable w)\<rparr>"
      by (auto simp: leaf_in_def walk_edge_def)
    moreover have "insert t (w_reachable w) = ?r" using True D(1) by auto
    ultimately show ?thesis by simp
  next
    case False
    then have "walk_edge inodes u w (n, t) = w"
      using assms(3) by (auto simp: leaf_in_def dir_in_def walk_edge_def split: option.splits)
    moreover have "w_reachable w = ?r" using False D(1) by auto
    ultimately show ?thesis by simp
  qed
  then show ?thesis
    unfolding walk_inv_def ed using D(2-13) reach assms(2) by simp
qed

text \<open>When an edge to a directory is clean: nothing named that directory before.\<close>

lemma walk_edge_clean:
  assumes inv: "walk_inv inodes d0 ps es w" and "u \<in> set ps" and "dir_in inodes t"
    and tree: "tree_like (dir_edges inodes es)"
  shows "(dget_or (w_incoming w) t 0 > 0 \<or> (\<exists>p. map_of (w_parents w) t = Some p \<and> p \<noteq> u) \<or>
      t \<in> w_reachable w) \<longleftrightarrow> t = ROOTINO \<or> t \<in> snd ` set (dir_edges inodes es)"
proof -
  note D = walk_invD [OF inv]
  have nl: "\<not> leaf_in inodes t" using assms(3) by (auto simp: dir_in_def leaf_in_def)
  have inc: "dget_or (w_incoming w) t 0 > 0 \<longleftrightarrow> t \<in> snd ` set (dir_edges inodes es)"
    unfolding D(2) neq0_conv [symmetric] by (simp only: count_snd_zero not_not)
  have reach: "t \<in> w_reachable w \<longleftrightarrow> t \<in> set ps" using nl by (simp add: D(1))
  show ?thesis
  proof (cases "t = ROOTINO")
    case True
    then obtain p where p: "map_of (w_parents w) t = Some p" using D(4) [of t] by auto
    have "(p, t) \<notin> set (dir_edges inodes es)"
      using tree True by (auto simp: tree_like_def image_iff)
    then have "p = ROOTINO" using D(5) [OF p] by simp
    then show ?thesis using True p reach assms(2) by auto
  next
    case False
    have "t \<in> snd ` set (dir_edges inodes es)" if "map_of (w_parents w) t = Some p" for p
      using D(4) [of t] that False by simp
    moreover have "t \<in> snd ` set (dir_edges inodes es)" if "t \<in> set ps"
      using D(10) [of t] that False by simp
    ultimately show ?thesis using False inc reach by blast
  qed
qed

lemma walk_edge_dir:
  assumes inv: "walk_inv inodes d0 ps es w" and u: "u \<in> set ps" and t: "dir_in inodes t"
  shows "walk_inv inodes d0 ps (es @ [(u, t)]) (walk_edge inodes u w (n, t))"
proof -
  let ?w = "walk_edge inodes u w (n, t)"
  note D = walk_invD [OF inv]
  obtain c where c: "map_of inodes t = Some c" "i_type c = T_DIR" using t by (auto simp: dir_in_def)
  have nl: "\<not> leaf_in inodes t" using c by (simp add: leaf_in_def)
  have reach: "t \<in> w_reachable w \<longleftrightarrow> t \<in> set ps" using nl by (simp add: D(1))
  have fields: "w_reachable ?w = w_reachable w" "w_incoming ?w = incr t (w_incoming w)"
    "w_children ?w = incr u (w_children w)"
    "w_queue ?w = w_queue w @ (if t \<in> w_reachable w then [] else [t])"
    "map_of (w_parents ?w) = (if map_of (w_parents w) t = None then (map_of (w_parents w))(t \<mapsto> u)
       else map_of (w_parents w))"
    using c by (auto simp: walk_edge_def Let_def split: option.splits)
  have diags: "w_diags ?w = {} \<longleftrightarrow> w_diags w = {} \<and>
      \<not> (dget_or (w_incoming w) t 0 > 0 \<or> (\<exists>p. map_of (w_parents w) t = Some p \<and> p \<noteq> u) \<or> t \<in> w_reachable w)"
    and fin: "finite (w_diags ?w)"
    using c D(7) by (auto simp: walk_edge_def Let_def dget_or_incr split: option.splits)
  have clean: "w_diags ?w = {} \<longleftrightarrow> d0 = {} \<and> tree_like (dir_edges inodes (es @ [(u, t)]))"
  proof (cases "tree_like (dir_edges inodes es)")
    case True
    then show ?thesis
      using t unfolding diags D(6) walk_edge_clean [OF inv u t True] dir_edges_snoc
      by (simp add: tree_like_snoc)
  next
    case False
    then show ?thesis using t unfolding diags D(6) dir_edges_snoc by (simp add: tree_like_snoc)
  qed
  have ed: "dir_edges inodes (es @ [(u, t)]) = dir_edges inodes es @ [(u, t)]"
    using t by (simp add: dir_edges_snoc)
  show ?thesis
    unfolding walk_inv_def
  proof (intro conjI allI ballI impI)
    show "w_reachable ?w = set ps \<union> {t'. leaf_in inodes t' \<and> t' \<in> snd ` set (es @ [(u, t)])}"
      using nl D(1) fields(1) by auto
    fix x y
    show "dget_or (w_incoming ?w) x 0 = count_list (map snd (dir_edges inodes (es @ [(u, t)]))) x"
      "dget_or (w_children ?w) x 0 = count_list (map fst (dir_edges inodes (es @ [(u, t)]))) x"
      by (simp_all add: fields ed dget_or_incr' D(2,3))
    show "map_of (w_parents ?w) x = None \<longleftrightarrow>
        x \<noteq> ROOTINO \<and> x \<notin> snd ` set (dir_edges inodes (es @ [(u, t)]))"
      using D(4) [of x] D(4) [of t] by (auto simp: fields ed)
    show "map_of (w_parents ?w) x = Some y \<Longrightarrow>
        (y, x) \<in> set (dir_edges inodes (es @ [(u, t)])) \<or> x = ROOTINO \<and> y = ROOTINO"
      using D(5) [of x y] by (auto simp: fields ed split: if_splits)
  next
    fix x
    assume "x \<in> set ps \<union> set (w_queue ?w)"
    then have x: "x \<in> set ps \<union> set (w_queue w) \<or> x = t" by (auto simp: fields split: if_splits)
    then show "dir_in inodes x" "x = ROOTINO \<or> x \<in> snd ` set (dir_edges inodes (es @ [(u, t)]))"
      using D(9,10) [of x] t by (auto simp: ed)
    have "(ROOTINO, u) \<in> (insert (u, t) (set es))\<^sup>*" using D(14) [of u] u rtrancl_mono_snoc by simp
    then have "(ROOTINO, t) \<in> (insert (u, t) (set es))\<^sup>*" by (rule rtrancl_into_rtrancl) simp
    then show "(ROOTINO, x) \<in> (set (es @ [(u, t)]))\<^sup>*"
      using x D(14) [of x] rtrancl_mono_snoc by auto
  next
    show "snd ` set (dir_edges inodes (es @ [(u, t)])) \<subseteq> set ps \<union> set (w_queue ?w)"
      using D(11) reach by (auto simp: fields ed)
  qed (use clean fin D(8,12,13) u fields in \<open>auto split: if_splits\<close>)
qed

lemma walk_edge_inv:
  "walk_inv inodes d0 ps es w \<Longrightarrow> u \<in> set ps \<Longrightarrow> walk_inv inodes d0 ps (es @ [(u, t)]) (walk_edge inodes u w (n, t))"
  using walk_edge_leaf walk_edge_dir by (cases "dir_in inodes t") blast+

lemma walk_edges_inv:
  "walk_inv inodes d0 ps es w \<Longrightarrow> u \<in> set ps \<Longrightarrow>
     walk_inv inodes d0 ps (es @ map (\<lambda>(n, t). (u, t)) ns) (foldl (walk_edge inodes u) w ns)"
proof (induction ns arbitrary: es w)
  case Nil
  then show ?case by simp
next
  case (Cons a ns)
  obtain n t where a: "a = (n, t)" by (cases a)
  from Cons.IH [OF walk_edge_inv [OF Cons.prems, of t n] Cons.prems(2)] show ?case by (simp add: a)
qed

lemma walk_visit_inv:
  assumes "walk_inv inodes d0 ps es w" and "w_queue w = u # rest" and "u \<notin> w_reachable w"
  shows "walk_inv inodes d0 (ps @ [u]) (es @ map (\<lambda>(n, t). (u, t)) (dget_or edges u []))
    (walk_visit inodes edges u (w\<lparr>w_queue := rest\<rparr>))"
  unfolding walk_visit_def
proof (rule walk_edges_inv)
  note D = walk_invD [OF assms(1)]
  have q: "set ps \<union> set (w_queue w) = insert u (set ps) \<union> set rest" by (auto simp: assms(2))
  have u: "u \<notin> set ps" using assms(3) by (simp add: D(1))
  have fst_es: "fst ` set es \<subseteq> insert u (set ps)" using D(13) by blast
  show "walk_inv inodes d0 (ps @ [u]) es
      (w\<lparr>w_queue := rest, w_reachable := insert u (w_reachable (w\<lparr>w_queue := rest\<rparr>))\<rparr>)"
    unfolding walk_inv_def
    using D(1-8) D(9,10) [unfolded q] D(11,12) [unfolded q] D(14) [unfolded q] u fst_es by simp
qed simp

lemma walk_skip_inv:
  assumes "walk_inv inodes d0 ps es w" and "w_queue w = u # rest" and "u \<in> w_reachable w"
  shows "walk_inv inodes d0 ps es (w\<lparr>w_queue := rest\<rparr>)"
proof -
  note D = walk_invD [OF assms(1)]
  have "dir_in inodes u" using D(9) [of u] assms(2) by simp
  then have "\<not> leaf_in inodes u" by (auto simp: dir_in_def leaf_in_def)
  then have "u \<in> set ps" using assms(3) D(1) by simp
  then have q: "set ps \<union> set (w_queue w) = set ps \<union> set rest" by (auto simp: assms(2))
  show ?thesis
    unfolding walk_inv_def
    using D(1-8) D(9,10) [unfolded q] D(11,12) [unfolded q] D(13) D(14) [unfolded q] by simp
qed

definition edges_of :: "(nat, entry list) dict \<Rightarrow> nat list \<Rightarrow> (nat \<times> nat) list" where
  "edges_of edges ps = concat (map (\<lambda>u. map (\<lambda>(n, t). (u, t)) (dget_or edges u [])) ps)"

lemma bfs_inv:
  "walk_inv inodes d0 ps (edges_of edges ps) w \<Longrightarrow>
     \<exists>qs. walk_inv inodes d0 (ps @ qs) (edges_of edges (ps @ qs)) (bfs inodes edges w) \<and>
       w_queue (bfs inodes edges w) = []"
proof (induction inodes edges w arbitrary: ps rule: bfs.induct)
  case (1 inodes edges w)
  show ?case
  proof (cases "w_queue w")
    case Nil
    then show ?thesis using "1.prems" by (intro exI [of _ "[]"]) (simp add: bfs.simps)
  next
    case (Cons u rest)
    show ?thesis
    proof (cases "u \<in> w_reachable w")
      case True
      then show ?thesis
        using "1.IH"(1) [OF Cons True] walk_skip_inv [OF "1.prems" Cons True]
        by (subst (1 2) bfs.simps) (simp add: Cons)
    next
      case False
      have "edges_of edges (ps @ [u]) = edges_of edges ps @ map (\<lambda>(n, t). (u, t)) (dget_or edges u [])"
        by (simp add: edges_of_def)
      then have "\<exists>qs. walk_inv inodes d0 ((ps @ [u]) @ qs) (edges_of edges ((ps @ [u]) @ qs))
          (bfs inodes edges (walk_visit inodes edges u (w\<lparr>w_queue := rest\<rparr>))) \<and>
          w_queue (bfs inodes edges (walk_visit inodes edges u (w\<lparr>w_queue := rest\<rparr>))) = []"
        using "1.IH"(2) [OF Cons False, of "ps @ [u]"] walk_visit_inv [OF "1.prems" Cons False, of edges]
        by (simp only:)
      then obtain qs where "walk_inv inodes d0 (ps @ u # qs) (edges_of edges (ps @ u # qs))
          (bfs inodes edges (walk_visit inodes edges u (w\<lparr>w_queue := rest\<rparr>))) \<and>
          w_queue (bfs inodes edges (walk_visit inodes edges u (w\<lparr>w_queue := rest\<rparr>))) = []"
        by auto
      then show ?thesis
        using False by (intro exI [of _ "u # qs"]) (subst (1 2) bfs.simps, simp add: Cons)
    qed
  qed
qed

end
