(* ===== verification/FsckView.thy ===== *)
theory FsckView
  imports FsckTree
begin

text \<open>
  Soundness and completeness of the inspection: a declarative statement of what a consistent xv6
  file system is, and the proof that the view of an image has no diagnostics exactly when the image
  satisfies it.
\<close>

section \<open>Consistency of a file system image\<close>

text \<open>All named directory entries of the image, as edges from directory to target.\<close>

definition links :: "bytes \<Rightarrow> geometry \<Rightarrow> (nat \<times> nat) list" where
  "links data g =
     concat (map (\<lambda>u. map (\<lambda>(n, t). (u, t)) (named (dir_entries data g u))) (dir_list data g))"

definition subdirs :: "bytes \<Rightarrow> geometry \<Rightarrow> (nat \<times> nat) list" where
  "subdirs data g = filter (\<lambda>(u, t). is_dir data g t) (links data g)"

definition all_reachable :: "bytes \<Rightarrow> geometry \<Rightarrow> bool" where
  "all_reachable data g \<longleftrightarrow> (\<forall>i. live data g i \<longrightarrow> (ROOTINO, i) \<in> (set (links data g))\<^sup>*)"

definition dots_ok :: "bytes \<Rightarrow> geometry \<Rightarrow> bool" where
  "dots_ok data g \<longleftrightarrow>
     (\<forall>i. is_dir data g i \<longrightarrow>
        DOT \<in> fst ` set (dir_entries data g i) \<and>
        (\<exists>p. map_of (dir_entries data g i) DOTDOT = Some p \<and>
           (if i = ROOTINO then p = ROOTINO else (p, i) \<in> set (links data g))))"

definition nlink_ok :: "bytes \<Rightarrow> geometry \<Rightarrow> bool" where
  "nlink_ok data g \<longleftrightarrow>
     (\<forall>i. live data g i \<longrightarrow> i_nlink (inode_at data g i) =
        (if is_dir data g i then 1 + int (count_list (map fst (subdirs data g)) i)
         else int (count_list (map snd (links data g)) i)))"

definition fs_consistent :: "bytes \<Rightarrow> geometry \<Rightarrow> bool" where
  "fs_consistent data g \<longleftrightarrow>
     inodes_ok data g \<and> block_maps_ok data g \<and> bitmap_ok data g \<and>
     (\<forall>i. is_dir data g i \<longrightarrow> dir_ok data g i) \<and>
     all_reachable data g \<and> tree_like (subdirs data g) \<and> dots_ok data g \<and> nlink_ok data g"

section \<open>The final pass\<close>

definition links_good :: "dir_scan \<Rightarrow> walk \<Rightarrow> nat \<times> inode \<Rightarrow> bool" where
  "links_good sc w = (\<lambda>(i, ino).
     (i_type ino = T_DIR \<longrightarrow> i \<in> sc_dots sc) \<and> i \<in> w_reachable w \<and>
     (i_type ino = T_DIR \<longrightarrow>
        map_of (sc_dotdot sc) i = (if i = ROOTINO then Some ROOTINO else map_of (w_parents w) i)) \<and>
     i_nlink ino = (if i_type ino = T_DIR then 1 + int (dget_or (w_children w) i 0)
                    else int (dget_or (sc_references sc) i 0)))"

interpretation links_chk: diag_check "links_check sc w" "links_good sc w" for sc w
proof
  fix ds and x :: "nat \<times> inode"
  obtain i ino where x: "x = (i, ino)" by (cases x)
  show "links_check sc w ds x = {} \<longleftrightarrow> ds = {} \<and> links_good sc w x"
    by (cases "i_type ino = T_DIR"; cases "i \<in> w_reachable w")
      (simp_all add: x links_check_def links_good_def Let_def)
  show "finite ds \<Longrightarrow> finite (links_check sc w ds x)"
    by (simp add: x links_check_def Let_def)
qed

section \<open>The search on an image\<close>

lemma walk_edge_diags: "w_diags w \<subseteq> w_diags (walk_edge inodes u w e) \<and>
    (finite (w_diags w) \<longrightarrow> finite (w_diags (walk_edge inodes u w e)))"
  by (cases e) (auto simp: walk_edge_def Let_def diag_add_def split: option.splits)

lemma walk_visit_diags: "w_diags w \<subseteq> w_diags (walk_visit inodes edges u w) \<and>
    (finite (w_diags w) \<longrightarrow> finite (w_diags (walk_visit inodes edges u w)))"
proof -
  have "w_diags w \<subseteq> w_diags (foldl (walk_edge inodes u) w es) \<and>
      (finite (w_diags w) \<longrightarrow> finite (w_diags (foldl (walk_edge inodes u) w es)))" for es w
  proof (induction es arbitrary: w)
    case Nil
    then show ?case by simp
  next
    case (Cons e es)
    from Cons.IH [of "walk_edge inodes u w e"] walk_edge_diags [of w inodes u e] show ?case
      by (simp only: foldl.simps) blast
  qed
  from this [of "w\<lparr>w_reachable := insert u (w_reachable w)\<rparr>"] show ?thesis
    by (simp add: walk_visit_def)
qed

lemma bfs_diags: "w_diags w \<subseteq> w_diags (bfs inodes edges w) \<and>
    (finite (w_diags w) \<longrightarrow> finite (w_diags (bfs inodes edges w)))"
proof (induction inodes edges w rule: bfs.induct)
  case (1 inodes edges w)
  show ?case
  proof (cases "w_queue w")
    case Nil
    then show ?thesis by (simp add: bfs.simps)
  next
    case (Cons u rest)
    show ?thesis
    proof (cases "u \<in> w_reachable w")
      case True
      with Cons "1.IH"(1) [OF Cons True] show ?thesis by (subst (1 2) bfs.simps) simp
    next
      case False
      have "bfs inodes edges w = bfs inodes edges (walk_visit inodes edges u (w\<lparr>w_queue := rest\<rparr>))"
        by (subst bfs.simps) (simp add: Cons False)
      moreover have "w_diags (w\<lparr>w_queue := rest\<rparr>) = w_diags w" by simp
      ultimately show ?thesis
        using "1.IH"(2) [OF Cons False] walk_visit_diags [of "w\<lparr>w_queue := rest\<rparr>" inodes edges u]
        by (metis subset_trans)
    qed
  qed
qed

lemma dir_in_table: "dir_in (inode_table data g) t \<longleftrightarrow> is_dir data g t"
  by (simp add: dir_in_def map_of_inode_table is_dir_def)

lemma leaf_in_table: "leaf_in (inode_table data g) t \<longleftrightarrow> live data g t \<and> \<not> is_dir data g t"
  by (simp add: leaf_in_def map_of_inode_table is_dir_def)

lemma walk_start_inv:
  assumes "is_dir data g ROOTINO" and "finite ds"
  shows "walk_inv (inode_table data g) ds [] (edges_of edges []) (walk_start (inode_table data g) ds)"
  using assms
  by (simp add: walk_inv_def walk_start_def edges_of_def dir_edges_def dkeys_inode_table dir_in_table
      tree_like_def is_dir_def dget_or_def)

lemma mset_concat_map:
  assumes "mset xs = mset ys"
  shows "mset (concat (map f xs)) = mset (concat (map f ys))"
proof -
  have "mset (concat (map f zs)) = sum_mset (image_mset (\<lambda>z. mset (f z)) (mset zs))" for zs
    by (induction zs) simp_all
  then show ?thesis using assms by simp
qed

lemma count_list_mset: "count_list xs x = count (mset xs) x"
  by (induction xs) auto

lemma mset_subdirs: "mset es = mset es' \<Longrightarrow>
    tree_like (filter P es) = tree_like (filter P es') \<and>
    count_list (map fst (filter P es)) x = count_list (map fst (filter P es')) x"
proof -
  assume eq: "mset es = mset es'"
  then have f: "mset (filter P es) = mset (filter P es')" by (metis mset_filter)
  then have "mset (map snd (filter P es)) = mset (map snd (filter P es'))"
    "mset (map fst (filter P es)) = mset (map fst (filter P es'))" by simp_all
  moreover from f have "set (filter P es) = set (filter P es')" by (metis mset_eq_setD)
  ultimately show ?thesis
    by (simp only: tree_like_def count_list_mset) (metis distinct_count_atmost_1 mset_eq_setD)
qed

text \<open>
  On an image whose directories are well formed, the search visits the directories \<open>ps\<close>; its
  reachable set is the reflexive transitive closure of the directory entries.
\<close>

definition image_search :: "bytes \<Rightarrow> geometry \<Rightarrow> walk" where
  "image_search data g =
     bfs (inode_table data g) (sc_edges (scan_of data g (dir_list data g))) (walk_start (inode_table data g) {})"

definition visited_edges :: "bytes \<Rightarrow> geometry \<Rightarrow> nat list \<Rightarrow> (nat \<times> nat) list" where
  "visited_edges data g ps = concat (map (\<lambda>u. map (\<lambda>(n, t). (u, t)) (named (dir_entries data g u))) ps)"

lemma set_links: "(u, t) \<in> set (links data g) \<longleftrightarrow> is_dir data g u \<and> t \<in> snd ` set (named (dir_entries data g u))"
  by (force simp: links_def)

lemma set_visited_edges:
  "(u, t) \<in> set (visited_edges data g ps) \<longleftrightarrow> u \<in> set ps \<and> t \<in> snd ` set (named (dir_entries data g u))"
  by (force simp: visited_edges_def)

lemma image_search_inv:
  assumes root: "is_dir data g ROOTINO" and dirs: "\<forall>i. is_dir data g i \<longrightarrow> dir_ok data g i"
  obtains ps where "walk_inv (inode_table data g) {} ps (visited_edges data g ps) (image_search data g)"
    and "w_queue (image_search data g) = []" and "set ps \<subseteq> {i. is_dir data g i}"
proof -
  let ?sc = "scan_of data g (dir_list data g)"
  have dis: "\<forall>i \<in> set (dir_list data g). distinct (map fst (dir_entries data g i))"
    using dirs by (auto simp: dir_ok_def entries_ok_def)
  note edges = scan_of_facts(1) [OF distinct_lists(2) dis]
  from bfs_inv [OF walk_start_inv [OF root finite.emptyI, of "sc_edges ?sc"]]
  obtain ps where inv: "walk_inv (inode_table data g) {} ps (edges_of (sc_edges ?sc) ps) (image_search data g)"
    and q: "w_queue (image_search data g) = []"
    by (auto simp: image_search_def)
  have sub: "set ps \<subseteq> {i. is_dir data g i}"
    using walk_invD(9) [OF inv] by (auto simp: dir_in_table)
  then have "edges_of (sc_edges ?sc) ps = visited_edges data g ps"
    unfolding edges_of_def visited_edges_def
    by (intro arg_cong [where f = concat] map_cong) (auto simp: edges)
  with inv q sub that show ?thesis by simp
qed

lemma image_search_reachable:
  assumes root: "is_dir data g ROOTINO" and dirs: "\<forall>i. is_dir data g i \<longrightarrow> dir_ok data g i"
  shows "w_reachable (image_search data g) = {i. live data g i \<and> (ROOTINO, i) \<in> (set (links data g))\<^sup>*}"
proof -
  obtain ps where inv: "walk_inv (inode_table data g) {} ps (visited_edges data g ps) (image_search data g)"
    and q: "w_queue (image_search data g) = []" and sub: "set ps \<subseteq> {i. is_dir data g i}"
    by (rule image_search_inv [OF assms])
  note D = walk_invD [OF inv]
  let ?E = "set (visited_edges data g ps)"
  have EL: "?E \<subseteq> set (links data g)" using sub by (auto simp: set_visited_edges set_links)
  have star: "(ROOTINO, u) \<in> (set (links data g))\<^sup>*" if "u \<in> set ps" for u
    using D(14) [of u] that rtrancl_mono [OF EL] by auto
  show ?thesis
  proof (intro equalityI subsetI)
    fix i
    assume "i \<in> w_reachable (image_search data g)"
    then consider "i \<in> set ps" | u where "live data g i" "(u, i) \<in> ?E"
      by (auto simp: D(1) leaf_in_table)
    then show "i \<in> {i. live data g i \<and> (ROOTINO, i) \<in> (set (links data g))\<^sup>*}"
    proof cases
      case 1
      then show ?thesis using sub star by (auto simp: is_dir_def)
    next
      case 2
      then have "u \<in> set ps" "(u, i) \<in> set (links data g)"
        using subsetD [OF EL] by (simp_all add: set_visited_edges)
      then show ?thesis using star 2(1) by (auto intro: rtrancl_into_rtrancl)
    qed
  next
    fix i
    assume "i \<in> {i. live data g i \<and> (ROOTINO, i) \<in> (set (links data g))\<^sup>*}"
    then have li: "live data g i" and st: "(ROOTINO, i) \<in> (set (links data g))\<^sup>*" by auto
    from st have "(is_dir data g i \<longrightarrow> i \<in> set ps) \<and> (live data g i \<longrightarrow> i \<in> w_reachable (image_search data g))"
    proof (induction rule: rtrancl_induct)
      case base
      then show ?case using D(1,12) q by auto
    next
      case (step y z)
      then have "y \<in> set ps" "(y, z) \<in> ?E" by (auto simp: set_links set_visited_edges)
      then have "is_dir data g z \<Longrightarrow> z \<in> snd ` set (dir_edges (inode_table data g) (visited_edges data g ps))"
        by (force simp: dir_edges_def dir_in_table)
      then have "is_dir data g z \<Longrightarrow> z \<in> set ps" using D(11) q by auto
      moreover have "live data g z \<Longrightarrow> \<not> is_dir data g z \<Longrightarrow> z \<in> w_reachable (image_search data g)"
        using \<open>(y, z) \<in> ?E\<close> by (force simp: D(1) leaf_in_table)
      ultimately show ?case using D(1) by auto
    qed
    with li show "i \<in> w_reachable (image_search data g)" by simp
  qed
qed

text \<open>When everything is reachable, the search has examined every entry exactly once.\<close>

lemma image_search_complete:
  assumes root: "is_dir data g ROOTINO" and dirs: "\<forall>i. is_dir data g i \<longrightarrow> dir_ok data g i"
    and all: "all_reachable data g"
  shows "w_diags (image_search data g) = {} \<longleftrightarrow> tree_like (subdirs data g)"
    and "dget_or (w_children (image_search data g)) i 0 = count_list (map fst (subdirs data g)) i"
    and "tree_like (subdirs data g) \<Longrightarrow> is_dir data g i \<Longrightarrow> i \<noteq> ROOTINO \<Longrightarrow>
      \<exists>r. map_of (w_parents (image_search data g)) i = Some r \<and> (\<forall>p. (p, i) \<in> set (links data g) \<longleftrightarrow> p = r)"
proof -
  obtain ps where inv: "walk_inv (inode_table data g) {} ps (visited_edges data g ps) (image_search data g)"
    and q: "w_queue (image_search data g) = []" and sub: "set ps \<subseteq> {i. is_dir data g i}"
    by (rule image_search_inv [OF root dirs])
  note D = walk_invD [OF inv]
  have "i \<in> set ps" if "is_dir data g i" for i
  proof -
    have "i \<in> w_reachable (image_search data g)"
      using that all unfolding image_search_reachable [OF root dirs] all_reachable_def is_dir_def by simp
    then show ?thesis using that by (simp add: D(1) leaf_in_table)
  qed
  then have ps: "set ps = set (dir_list data g)" using sub by auto
  then have "mset ps = mset (dir_list data g)"
    using D(8) by (simp add: set_eq_iff_mset_eq_distinct [symmetric])
  then have m: "mset (visited_edges data g ps) = mset (links data g)"
    unfolding visited_edges_def links_def by (rule mset_concat_map)
  have de: "dir_edges (inode_table data g) es = filter (\<lambda>(u, t). is_dir data g t) es" for es
    by (simp add: dir_edges_def dir_in_table)
  show "w_diags (image_search data g) = {} \<longleftrightarrow> tree_like (subdirs data g)"
    using mset_subdirs [OF m] D(6) by (simp add: de subdirs_def)
  show "dget_or (w_children (image_search data g)) i 0 = count_list (map fst (subdirs data g)) i"
    using mset_subdirs [OF m] D(3) by (simp add: de subdirs_def)
  have set: "set (visited_edges data g ps) = set (links data g)" using m by (rule mset_eq_setD)
  assume tree: "tree_like (subdirs data g)" and i: "is_dir data g i" "i \<noteq> ROOTINO"
  have "i \<in> set ps" using ps i(1) by simp
  then have "i \<in> snd ` set (dir_edges (inode_table data g) (visited_edges data g ps))" using D(10) [of i] i(2) by simp
  then obtain r where r: "map_of (w_parents (image_search data g)) i = Some r" using D(4) [of i] by auto
  have rl: "(r, i) \<in> set (subdirs data g)"
    using D(5) [OF r] i(2) by (simp add: de set subdirs_def)
  have inj: "inj_on snd (set (subdirs data g))" using tree by (simp add: tree_like_def distinct_map)
  have "p = r" if "(p, i) \<in> set (subdirs data g)" for p
    using inj_onD [OF inj _ that rl] by simp
  moreover have "(p, i) \<in> set (links data g) \<longleftrightarrow> (p, i) \<in> set (subdirs data g)" for p
    using i(1) by (simp add: subdirs_def)
  ultimately have "(p, i) \<in> set (links data g) \<longleftrightarrow> p = r" for p using rl by metis
  then show "\<exists>r. map_of (w_parents (image_search data g)) i = Some r \<and>
      (\<forall>p. (p, i) \<in> set (links data g) \<longleftrightarrow> p = r)"
    using r by blast
qed

lemma final_pass:
  assumes root: "is_dir data g ROOTINO" and dirs: "\<forall>i. is_dir data g i \<longrightarrow> dir_ok data g i"
  shows "foldl (links_check (scan_of data g (dir_list data g)) (image_search data g))
      (w_diags (image_search data g)) (inode_table data g) = {} \<longleftrightarrow>
    all_reachable data g \<and> tree_like (subdirs data g) \<and> dots_ok data g \<and> nlink_ok data g"
proof -
  let ?sc = "scan_of data g (dir_list data g)" and ?w = "image_search data g"
  have dis: "\<forall>i \<in> set (dir_list data g). distinct (map fst (dir_entries data g i))"
    using dirs by (auto simp: dir_ok_def entries_ok_def)
  note sc = scan_of_facts [OF distinct_lists(2) dis]
  have refs: "dget_or (sc_references ?sc) i 0 = count_list (map snd (links data g)) i" for i
    unfolding sc(4) links_def map_concat by (simp add: comp_def case_prod_unfold)
  let ?good = "\<lambda>i. links_good ?sc ?w (i, inode_at data g i)"
  have iff: "foldl (links_check ?sc ?w) (w_diags ?w) (inode_table data g) = {} \<longleftrightarrow>
      w_diags ?w = {} \<and> (\<forall>i. live data g i \<longrightarrow> ?good i)"
    unfolding links_chk.loop_empty inode_table_live_list by auto
  have reach: "(\<forall>i. live data g i \<longrightarrow> i \<in> w_reachable ?w) \<longleftrightarrow> all_reachable data g"
    unfolding image_search_reachable [OF assms] all_reachable_def by blast
  show ?thesis
  proof (cases "all_reachable data g")
    case False
    then obtain i where "live data g i" "i \<notin> w_reachable ?w" using reach by blast
    then have "\<not> ?good i" by (simp add: links_good_def)
    then show ?thesis using False iff \<open>live data g i\<close> by blast
  next
    case True
    note C = image_search_complete [OF assms True]
    show ?thesis
    proof (cases "tree_like (subdirs data g)")
      case False
      then show ?thesis using iff C(1) by simp
    next
      case tree: True
      have dots: "i \<in> sc_dots ?sc \<longleftrightarrow> DOT \<in> fst ` set (dir_entries data g i)" if "is_dir data g i" for i
        using that by (simp add: sc(2))
      have dd: "map_of (sc_dotdot ?sc) i = (if i = ROOTINO then Some ROOTINO else map_of (w_parents ?w) i) \<longleftrightarrow>
          (\<exists>p. map_of (dir_entries data g i) DOTDOT = Some p \<and>
             (if i = ROOTINO then p = ROOTINO else (p, i) \<in> set (links data g)))" if "is_dir data g i" for i
      proof (cases "i = ROOTINO")
        case True
        then show ?thesis using that by (simp add: sc(3))
      next
        case False
        from C(3) [OF tree that False] obtain r where r: "map_of (w_parents ?w) i = Some r"
          "\<And>p. (p, i) \<in> set (links data g) \<longleftrightarrow> p = r" by blast
        then show ?thesis using that False by (simp add: sc(3))
      qed
      have good: "?good i \<longleftrightarrow>
          (is_dir data g i \<longrightarrow> DOT \<in> fst ` set (dir_entries data g i) \<and>
             (\<exists>p. map_of (dir_entries data g i) DOTDOT = Some p \<and>
                (if i = ROOTINO then p = ROOTINO else (p, i) \<in> set (links data g)))) \<and>
          i_nlink (inode_at data g i) = (if is_dir data g i then 1 + int (count_list (map fst (subdirs data g)) i)
             else int (count_list (map snd (links data g)) i))" if "live data g i" for i
      proof -
        have t: "i_type (inode_at data g i) = T_DIR \<longleftrightarrow> is_dir data g i" using that by (simp add: is_dir_def)
        have "i \<in> w_reachable ?w" using reach True that by blast
        then show ?thesis
          unfolding links_good_def prod.case t refs C(2) using dots [of i] dd [of i] by auto
      qed
      have "(\<forall>i. live data g i \<longrightarrow> ?good i) \<longleftrightarrow> dots_ok data g \<and> nlink_ok data g"
        unfolding dots_ok_def nlink_ok_def using good by (auto simp: is_dir_def)
      then show ?thesis using iff C(1) True tree by simp
    qed
  qed
qed

section \<open>The inspection decides consistency\<close>

lemma readable_live:
  assumes "inodes_ok data g" and "block_maps_ok data g" and "live data g i"
  shows "readable data g (inode_at data g i)"
proof -
  have "i \<in> {1..<g_ninodes g}" and "i_type (inode_at data g i) \<noteq> 0"
    using assms(3) VALID_TYPES_0 by (auto simp: live_def)
  then have "i_size (inode_at data g i) \<le> MAXFILE * BSIZE" using assms(1) unfolding inodes_ok_def by blast
  then show ?thesis using assms(2,3) by (simp add: readable_def block_maps_ok_def)
qed

lemma inspect_view_decides:
  assumes g: "geometry_ok data g"
  obtains v where "inspect_view data g = Inr v" and "v_diagnostics v = [] \<longleftrightarrow> fs_consistent data g"
    and "v_allocated_inodes v = length (live_list data g)"
    and "v_owned_blocks v = card (set (owned_block_list data g))"
    and "fs_consistent data g \<Longrightarrow> v_reachable_inodes v = length (live_list data g)"
proof -
  let ?T = "inode_table data g" and ?O = "group_into [] (owned_refs data g)"
  obtain d1 where d1: "finite d1" "d1 = {} \<longleftrightarrow> {} = ({} :: diags) \<and> inodes_ok data g"
    and p1: "parse_inodes data g {} = Inr (?T, d1)"
    by (rule parse_inodes_eq [OF g finite.emptyI])
  obtain d2 where d2: "finite d2" "d2 = {} \<longleftrightarrow> d1 = {} \<and> block_maps_ok data g"
    and p2: "owners_pass data g ?T d1 = Inr (?O, d2)"
    by (rule owners_pass_eq [OF g d1(1)])
  obtain d3 where d3: "finite d3" "d3 = {} \<longleftrightarrow> d2 = {} \<and> bitmap_ok data g"
    and p3: "bitmap_pass data g ?O d2 = Inr d3"
    by (rule bitmap_pass_eq [OF g d2(1)])
  obtain sc d4 where p4: "directory_pass data g ?T d3 = Inr (sc, d4)" and d4: "finite d4"
    "d4 = {} \<longleftrightarrow> d3 = {} \<and>
      (\<forall>i. is_dir data g i \<longrightarrow> readable data g (inode_at data g i) \<and> dir_ok data g i)"
    and sc: "d4 = {} \<Longrightarrow> sc = scan_of data g (dir_list data g)"
    using directory_pass_eq [OF g d3(1)] by metis
  define w where "w = bfs ?T (sc_edges sc) (walk_start ?T d4)"
  define d5 where "d5 = foldl (links_check sc w) (w_diags w) ?T"
  define v where "v = \<lparr>v_allocated_inodes = length ?T, v_owned_blocks = length ?O,
      v_reachable_inodes = card (w_reachable w), v_diagnostics = codes d5\<rparr>"
  have view: "inspect_view data g = Inr v"
    by (simp add: inspect_view_def p1 p2 p3 p4 w_def d5_def v_def Let_def)
  have wd: "d4 \<subseteq> w_diags w" "finite (w_diags w)"
    using bfs_diags [of "walk_start ?T d4" ?T "sc_edges sc"] d4(1) by (auto simp: w_def walk_start_def)
  then have fin: "finite d5" unfolding d5_def by (intro links_chk.loop_finite)
  have clean4: "d4 = {} \<longleftrightarrow> inodes_ok data g \<and> block_maps_ok data g \<and> bitmap_ok data g \<and>
      (\<forall>i. is_dir data g i \<longrightarrow> dir_ok data g i)"
    using d1(2) d2(2) d3(2) d4(2) readable_live [of data g] by (auto simp: is_dir_def)
  have root: "is_dir data g ROOTINO" if "d4 = {}"
    using that clean4 by (simp add: inodes_ok_def is_dir_def)
  have wi: "w = image_search data g" if "d4 = {}"
    using that sc by (simp add: w_def image_search_def)
  have "d5 = {} \<longleftrightarrow> fs_consistent data g"
  proof (cases "d4 = {}")
    case True
    then have "\<forall>i. is_dir data g i \<longrightarrow> dir_ok data g i" using clean4 by simp
    from final_pass [OF root [OF True] this] True clean4 sc wi show ?thesis
      by (simp add: d5_def fs_consistent_def)
  next
    case False
    then have "d5 \<noteq> {}" using wd by (auto simp: d5_def links_chk.loop_empty)
    then show ?thesis using False clean4 by (auto simp: fs_consistent_def)
  qed
  then have decides: "v_diagnostics v = [] \<longleftrightarrow> fs_consistent data g"
    using fin by (simp add: v_def codes_eq_Nil)
  have live: "length ?T = length (live_list data g)" by (simp add: inode_table_live_list)
  have "distinct (dkeys ?O)" using dict_ok_group_into [OF dict_ok_Nil] by (simp add: dict_ok_def)
  from distinct_card [OF this] have owned: "length ?O = card (set (owned_block_list data g))"
    by (simp add: dkeys_group owned_block_list_def) (simp add: dkeys_def)
  have reach: "card (w_reachable w) = length (live_list data g)" if "fs_consistent data g"
  proof -
    have d: "d4 = {}" using that clean4 by (simp add: fs_consistent_def)
    then have "\<forall>i. is_dir data g i \<longrightarrow> dir_ok data g i" using clean4 by simp
    from image_search_reachable [OF root [OF d] this] have "w_reachable w = set (live_list data g)"
      using that by (auto simp: wi [OF d] fs_consistent_def all_reachable_def)
    then show ?thesis by (metis distinct_card distinct_lists(1))
  qed
  show ?thesis by (rule that [OF view decides]) (simp_all add: v_def live owned reach)
qed

end
