(* ===== verification/FsckExample.thy ===== *)
theory FsckExample
  imports FsckView
begin

text \<open>
  Concrete images: the smallest xv6 image the checker accepts (36 blocks, one directory), and the
  same image crashed between commit and installation, with the root directory only in the log.
\<close>

section \<open>Images from blocks\<close>

definition pad_block :: "bytes \<Rightarrow> bytes" where
  "pad_block bs = bs @ replicate (BSIZE - length bs) 0"

definition image_of :: "bytes list \<Rightarrow> bytes" where
  "image_of bss = concat (map pad_block bss)"

lemma length_pad_block [simp]: "length bs \<le> BSIZE \<Longrightarrow> length (pad_block bs) = BSIZE"
  by (simp add: pad_block_def)

lemma length_image_of: "\<forall>bs \<in> set bss. length bs \<le> BSIZE \<Longrightarrow> length (image_of bss) = length bss * BSIZE"
  by (induction bss) (simp_all add: image_of_def)

lemma block_image_of:
  "\<forall>bs \<in> set bss. length bs \<le> BSIZE \<Longrightarrow> n < length bss \<Longrightarrow> block (image_of bss) n = pad_block (bss ! n)"
proof (induction bss arbitrary: n)
  case Nil
  then show ?case by simp
next
  case (Cons b bss)
  have l: "length (pad_block b) = BSIZE" using Cons.prems(1) by simp
  show ?case
  proof (cases n)
    case 0
    then show ?thesis using l by (simp add: image_of_def block_def py_slice_def)
  next
    case (Suc m)
    then have "block (image_of (b # bss)) n = block (image_of bss) m"
      using l by (simp add: image_of_def block_def py_slice_def)
    then show ?thesis using Cons Suc by simp
  qed
qed

lemma take_drop_block:
  assumes "off + n \<le> BSIZE"
  shows "take n (drop (b * BSIZE + off) d) = take n (drop off (block d b))"
proof -
  have "min n (BSIZE - off) = n" using assms by simp
  then show ?thesis by (simp add: block_def py_slice_def Let_def drop_take add.commute)
qed

lemma decode_all_take: "calcsize fmt \<le> n \<Longrightarrow> decode_all fmt (take n bs) = decode_all fmt bs"
proof (induction fmt arbitrary: n bs)
  case Nil
  then show ?case by simp
next
  case (Cons c fmt)
  then have "decode_all fmt (take (n - code_size c) (drop (code_size c) bs)) = decode_all fmt (drop (code_size c) bs)"
    by simp
  with Cons.prems show ?case by (simp add: drop_take min_def)
qed

lemma u32_at_words:
  "k < length vs \<Longrightarrow> \<forall>v \<in> set vs. v < 2 ^ 32 \<Longrightarrow> u32_at (concat (map (le_bytes 4) vs) @ rest) (4 * k) = vs ! k"
proof (induction vs arbitrary: k)
  case Nil
  then show ?case by simp
next
  case (Cons v vs)
  show ?case
  proof (cases k)
    case 0
    then show ?thesis using Cons.prems by (simp add: u32_at_def py_slice_def le_nat_le_bytes)
  next
    case (Suc m)
    have "u32_at (le_bytes 4 v @ concat (map (le_bytes 4) vs) @ rest) (4 * Suc m)
        = u32_at (concat (map (le_bytes 4) vs) @ rest) (4 * m)"
      by (simp add: u32_at_def py_slice_def)
    then show ?thesis using Cons Suc by simp
  qed
qed

section \<open>A minimal file system\<close>

definition mini_super :: "nat \<Rightarrow> bytes" where
  "mini_super n = concat (map (le_bytes 4) [FSMAGIC, n, n - 35, 2, 31, 2, 33, 34])"

definition mini_inodes :: bytes where
  "mini_inodes = replicate 64 0 @ le_bytes 2 1 @ le_bytes 2 0 @ le_bytes 2 0 @ le_bytes 2 1 @
     le_bytes 4 32 @ le_bytes 4 35"

definition mini_bitmap :: bytes where "mini_bitmap = [255, 255, 255, 255, 15]"

definition mini_root :: bytes where
  "mini_root = le_bytes 2 1 @ DOT @ replicate 13 0 @ le_bytes 2 1 @ DOTDOT @ replicate 12 0"

definition mini_blocks :: "bytes \<Rightarrow> bytes \<Rightarrow> bytes list" where
  "mini_blocks header home =
     [[], mini_super 36, header, mini_root] @ replicate 29 [] @ [mini_inodes, mini_bitmap, home]"

definition mini_layout :: "nat \<Rightarrow> geometry" where
  "mini_layout n = \<lparr>g_size = n, g_nblocks = n - 35, g_ninodes = 2, g_nlog = 31, g_logstart = 2,
     g_inodestart = 33, g_bmapstart = 34, g_data_start = 35\<rparr>"

abbreviation mini_geometry :: geometry where "mini_geometry \<equiv> mini_layout 36"

text \<open>The header still lists the target of the installed transaction, with count zero.\<close>

definition installed_image :: bytes where
  "installed_image = image_of (mini_blocks (le_bytes 4 0 @ le_bytes 4 35) mini_root)"

definition crashed_image :: bytes where
  "crashed_image = image_of (mini_blocks (le_bytes 4 1 @ le_bytes 4 35) [])"

lemma mini_blocks_ok:
  assumes "length header \<le> 8" and "length home \<le> 32"
  shows "\<forall>bs \<in> set (mini_blocks header home). length bs \<le> BSIZE" and "length (mini_blocks header home) = 36"
  using assms
  by (auto simp: mini_blocks_def mini_super_def mini_inodes_def mini_bitmap_def mini_root_def DOT_def
      DOTDOT_def BSIZE_def)

lemma length_mini_root [simp]: "length mini_root = 32"
  by (simp add: mini_root_def DOT_def DOTDOT_def)

lemma mini_length:
  "length installed_image = 36 * BSIZE" "length crashed_image = 36 * BSIZE"
proof -
  have "length (image_of (mini_blocks h r)) = 36 * BSIZE" if "length h \<le> 8" "length r \<le> 32" for h r
    using length_image_of [OF mini_blocks_ok(1) [OF that]] mini_blocks_ok(2) [OF that] by simp
  then show "length installed_image = 36 * BSIZE" "length crashed_image = 36 * BSIZE"
    by (simp_all add: installed_image_def crashed_image_def)
qed

lemma mini_block:
  "n < 36 \<Longrightarrow> block installed_image n = pad_block (mini_blocks (le_bytes 4 0 @ le_bytes 4 35) mini_root ! n)"
  "n < 36 \<Longrightarrow> block crashed_image n = pad_block (mini_blocks (le_bytes 4 1 @ le_bytes 4 35) [] ! n)"
proof -
  have "block (image_of (mini_blocks h r)) n = pad_block (mini_blocks h r ! n)"
    if "length h \<le> 8" "length r \<le> 32" "n < 36" for h r n
    using block_image_of [OF mini_blocks_ok(1) [OF that(1,2)]] mini_blocks_ok(2) [OF that(1,2)] that(3) by simp
  then show "n < 36 \<Longrightarrow> block installed_image n = pad_block (mini_blocks (le_bytes 4 0 @ le_bytes 4 35) mini_root ! n)"
    and "n < 36 \<Longrightarrow> block crashed_image n = pad_block (mini_blocks (le_bytes 4 1 @ le_bytes 4 35) [] ! n)"
    by (simp_all add: installed_image_def crashed_image_def)
qed

text \<open>The layout fits every image whose bitmap is one block.\<close>

lemma mini_geometry_ok: "length d = n * BSIZE \<Longrightarrow> 36 \<le> n \<Longrightarrow> n \<le> BPB \<Longrightarrow> geometry_ok d (mini_layout n)"
  by (simp add: geometry_ok_def mini_layout_def fsck_consts)

lemma mini_super_words:
  assumes "length d = n * BSIZE" and "n \<le> BPB" and "block d 1 = pad_block (mini_super n)" and "k < 8"
  shows "super_word d k = [FSMAGIC, n, n - 35, 2, 31, 2, 33, 34] ! k"
proof -
  have "u32_at (drop BSIZE d) (4 * k) = u32_at (take BSIZE (drop BSIZE d)) (4 * k)"
    using assms(4) by (subst u32_at_take) (simp_all add: BSIZE_def)
  also have "take BSIZE (drop BSIZE d) = pad_block (mini_super n)"
    using assms(3) by (simp add: block_def py_slice_def)
  also have "u32_at (pad_block (mini_super n)) (4 * k) = [FSMAGIC, n, n - 35, 2, 31, 2, 33, 34] ! k"
    unfolding pad_block_def mini_super_def
    by (rule u32_at_words) (use assms(2,4) in \<open>simp_all add: fsck_consts\<close>)
  finally show ?thesis by (simp add: super_word_def)
qed

lemma mini_parse_geometry:
  assumes "length d = n * BSIZE" and "36 \<le> n" and "n \<le> BPB" and "block d 1 = pad_block (mini_super n)"
  shows "parse_geometry d {} = Inr (Some (mini_layout n), {})"
proof -
  note w = mini_super_words [OF assms(1,3,4)]
  have vals: "super_word d 0 = FSMAGIC" "super_word d 1 = n" "super_word d 2 = n - 35" "super_word d 3 = 2"
    "super_word d 4 = 31" "super_word d 5 = 2" "super_word d 6 = 33" "super_word d 7 = 34"
    using w [of 0] w [of 1] w [of 2] w [of 3] w [of 4] w [of 5] w [of 6] w [of 7] by simp_all
  have g: "\<lparr>g_size = n, g_nblocks = n - 35, g_ninodes = 2, g_nlog = 31, g_logstart = 2, g_inodestart = 33,
      g_bmapstart = 34, g_data_start = 34 + (n + BPB - 1) div BPB\<rparr> = mini_layout n"
    using assms(2,3) by (simp add: mini_layout_def fsck_consts)
  have len: "2 * BSIZE \<le> length d" using assms(1,2) by simp
  show ?thesis
    unfolding parse_geometry_eq [OF len] Let_def vals g using mini_geometry_ok [OF assms(1-3)] by simp
qed

lemma mini_images_geometry:
  "parse_geometry installed_image {} = Inr (Some mini_geometry, {})"
  "parse_geometry crashed_image {} = Inr (Some mini_geometry, {})"
  by (intro mini_parse_geometry; simp add: mini_length mini_block mini_blocks_def fsck_consts)+

lemma mini_images_ok: "geometry_ok installed_image mini_geometry" "geometry_ok crashed_image mini_geometry"
  by (intro mini_geometry_ok; simp add: mini_length fsck_consts)+

lemma u32_header:
  assumes "v < 2 ^ 32" and "w < 2 ^ 32"
  shows "u32_at (pad_block (le_bytes 4 v @ le_bytes 4 w)) 0 = v" "u32_at (pad_block (le_bytes 4 v @ le_bytes 4 w)) 4 = w"
  using u32_at_words [of 0 "[v, w]"] u32_at_words [of 1 "[v, w]"] assms by (simp_all add: pad_block_def)

lemma mini_log:
  "log_count installed_image mini_geometry = 0" "log_targets installed_image mini_geometry = []"
  "log_count crashed_image mini_geometry = 1" "log_targets crashed_image mini_geometry = [35]"
  "log_ok installed_image mini_geometry" "log_ok crashed_image mini_geometry"
proof -
  have h: "block installed_image 2 = pad_block (le_bytes 4 0 @ le_bytes 4 35)"
    "block crashed_image 2 = pad_block (le_bytes 4 1 @ le_bytes 4 35)"
    by (simp_all add: mini_block mini_blocks_def)
  show c: "log_count installed_image mini_geometry = 0" "log_count crashed_image mini_geometry = 1"
    using u32_header [of 0 35] u32_header [of 1 35]
    by (simp_all add: log_count_def mini_layout_def h signed_def)
  show t: "log_targets installed_image mini_geometry = []" "log_targets crashed_image mini_geometry = [35]"
    using u32_header [of 1 35] by (simp_all add: log_targets_def c) (simp add: mini_layout_def h)
  show "log_ok installed_image mini_geometry" "log_ok crashed_image mini_geometry"
    by (simp_all add: log_ok_def c t) (simp_all add: mini_layout_def LOGBLOCKS_def)
qed

lemma mini_replay: "replay crashed_image mini_geometry = installed_image"
proof (rule image_eqI)
  note g = mini_images_ok(2)
  show "is_image installed_image" by (simp add: is_image_def mini_length)
  show "length (replay crashed_image mini_geometry) = length installed_image"
    using replay_correct(1) [OF g mini_log(6)] by (simp add: mini_length)
  fix n
  assume "n < image_blocks installed_image"
  then have n: "n < 36" by (simp add: image_blocks_def mini_length)
  then have "block (replay crashed_image mini_geometry) n = recovered_block crashed_image mini_geometry n"
    using replay_correct(2) [OF g mini_log(6)] by (simp add: mini_layout_def)
  also have "\<dots> = block installed_image n"
  proof (cases "n = 2 \<or> n = 35")
    case True
    then show ?thesis
    proof
      assume "n = 2"
      then show ?thesis
        by (simp add: recovered_block_def mini_layout_def mini_block mini_blocks_def pad_block_def le_bytes_0)
    next
      assume n: "n = 35"
      then have "log_slot crashed_image mini_geometry n = Some 0" by (simp add: log_slot_def mini_log)
      then show ?thesis
        using n by (simp add: recovered_block_def) (simp add: mini_layout_def mini_block mini_blocks_def nth_append)
    qed
  next
    case False
    then have "mini_blocks h r ! n = mini_blocks h' r' ! n" for h r h' r'
      using n by (auto simp: mini_blocks_def nth_append nth_Cons split: nat.splits)
    then have "block crashed_image n = block installed_image n"
      unfolding mini_block [OF n] by (rule arg_cong)
    then show ?thesis using False
      by (simp add: recovered_block_def log_slot_def mini_log) (simp add: mini_layout_def)
  qed
  finally show "block (replay crashed_image mini_geometry) n = block installed_image n" .
qed

section \<open>Images with only a root directory\<close>

definition mini_root_inode :: inode where
  "mini_root_inode = \<lparr>i_inum = 1, i_type = 1, i_major = 0, i_minor = 0, i_nlink = 1, i_size = 32,
     i_addrs = 35 # replicate 12 0\<rparr>"

text \<open>What such an image has in common, whatever its size and whatever its log and its free blocks hold.\<close>

definition mini_fs :: "bytes \<Rightarrow> nat \<Rightarrow> bool" where
  "mini_fs d n \<longleftrightarrow> length d = n * BSIZE \<and> 36 \<le> n \<and> n \<le> BPB \<and> block d 33 = pad_block mini_inodes \<and>
     block d 34 = pad_block mini_bitmap \<and> block d 35 = pad_block mini_root"

lemma mini_high_blocks:
  assumes "mini_fs d n"
  shows "block d 33 = pad_block mini_inodes" "block d 34 = pad_block mini_bitmap" "block d 35 = pad_block mini_root"
  using assms by (simp_all add: mini_fs_def)

lemma installed_mini_fs: "mini_fs installed_image 36"
  by (simp add: mini_fs_def mini_length mini_block mini_blocks_def nth_append fsck_consts)

lemma mini_inode_at:
  assumes "mini_fs d n"
  shows "inode_at d (mini_layout n) 1 = mini_root_inode"
proof -
  have "decode_all DINODE (drop (33 * BSIZE + 64) d)
      = decode_all DINODE (take 64 (drop (33 * BSIZE + 64) d))"
    by (simp add: decode_all_take)
  also have "take 64 (drop (33 * BSIZE + 64) d) = take 64 (drop 64 (pad_block mini_inodes))"
    by (subst take_drop_block) (simp_all add: mini_high_blocks [OF assms] BSIZE_def)
  also have "\<dots> = le_bytes 2 1 @ le_bytes 2 0 @ le_bytes 2 0 @ le_bytes 2 1 @ le_bytes 4 32 @ le_bytes 4 35 @ replicate 48 0"
    by (simp add: pad_block_def mini_inodes_def BSIZE_def)
  also have "decode_all DINODE \<dots> = [PInt 1, PInt 0, PInt 0, PInt 1, PNat 32, PNat 35] @ replicate 12 (PNat 0)"
  proof -
    have D: "DINODE = [Fmt_h, Fmt_h, Fmt_h, Fmt_h, Fmt_I, Fmt_I] @ replicate 12 Fmt_I"
      by (simp add: DINODE_def numeral_eq_Suc)
    have "u32_at (replicate 48 0) k = 0" for k
    proof -
      have "le_nat (replicate n 0) = 0" for n by (induction n) simp_all
      then show ?thesis by (simp add: u32_at_def py_slice_def)
    qed
    then have "decode_all (replicate 12 Fmt_I) (replicate 48 0) = replicate 12 (PNat 0)"
      by (simp add: decode_all_I map_replicate_const)
    then show ?thesis
      unfolding D by (simp add: le_nat_le_bytes signed_def)
  qed
  finally show ?thesis
    by (simp add: inode_at_def inode_of_fields_def mini_layout_def mini_root_inode_def)
qed

lemma mini_live:
  assumes "mini_fs d n"
  shows "live d (mini_layout n) i \<longleftrightarrow> i = 1"
proof -
  have "1 \<le> i \<and> i < g_ninodes (mini_layout n) \<longleftrightarrow> i = 1" by (auto simp: mini_layout_def)
  then show ?thesis
    using mini_inode_at [OF assms] by (auto simp: live_def mini_root_inode_def fsck_consts)
qed

lemma mini_is_dir:
  assumes "mini_fs d n"
  shows "is_dir d (mini_layout n) i \<longleftrightarrow> i = 1"
  using mini_inode_at [OF assms] by (auto simp: is_dir_def mini_live [OF assms] mini_root_inode_def T_DIR_def)

lemma mini_lists:
  assumes "mini_fs d n"
  shows "live_list d (mini_layout n) = [1]" "dir_list d (mini_layout n) = [1]"
proof -
  have "[1..<g_ninodes (mini_layout n)] = [1]" by (simp add: mini_layout_def upt_rec)
  then show "live_list d (mini_layout n) = [1]" "dir_list d (mini_layout n) = [1]"
    by (simp_all add: live_list_def dir_list_def mini_live [OF assms] mini_is_dir [OF assms] del: One_nat_def)
qed

lemma mini_logical: "logical_blocks d (mini_layout n) mini_root_inode = 35 # replicate 267 0"
  "inode_refs d (mini_layout n) mini_root_inode = [(Data, 0, 35)]"
proof -
  have n: "NDIRECT = Suc 11" "NINDIRECT = 256" by (simp_all add: fsck_consts)
  have a: "i_addrs mini_root_inode = 35 # replicate 12 0" by (simp add: mini_root_inode_def)
  have e: "indirect_entries d (mini_layout n) mini_root_inode = replicate 256 0"
    by (simp add: indirect_entries_def a n)
  show "logical_blocks d (mini_layout n) mini_root_inode = 35 # replicate 267 0"
    by (simp add: logical_blocks_def e a n replicate_add [symmetric])
  have "nonzero_refs 0 (35 # replicate 11 0) = [(Data, 0, 35)]"
    using nonzero_refs_append [of 0 "[35]" "replicate 11 0"]
    by (simp add: nonzero_refs_zeros nonzero_refs_eq [of 0 "[35]"])
  then show "inode_refs d (mini_layout n) mini_root_inode = [(Data, 0, 35)]"
    by (simp add: inode_refs_def a n)
qed

lemma mini_block_map:
  assumes "mini_fs d n"
  shows "block_map_ok d (mini_layout n) mini_root_inode"
proof -
  have "required_blocks mini_root_inode = 1" by (simp add: required_blocks_def mini_root_inode_def BSIZE_def)
  moreover have "35 < n" using assms by (simp add: mini_fs_def)
  ultimately show ?thesis
    unfolding block_map_ok_def mini_logical
    by (auto simp: in_region_def nth_Cons' fsck_consts) (simp_all add: mini_root_inode_def mini_layout_def)
qed

lemma mini_owned:
  assumes "mini_fs d n"
  shows "owned_block_list d (mini_layout n) = [35]"
proof -
  have "dvalues (inode_table d (mini_layout n)) = [mini_root_inode]"
    by (simp add: dvalues_def inode_table_live_list mini_lists [OF assms] mini_inode_at [OF assms] del: One_nat_def)
  moreover have "in_region (mini_layout n) 35" using assms by (simp add: in_region_def mini_layout_def mini_fs_def)
  ultimately show ?thesis
    by (simp add: owned_block_list_def owned_refs_def refs_of_def mini_logical)
qed

lemma mini_marked:
  assumes "mini_fs d n" and "k < n"
  shows "marked d (mini_layout n) k \<longleftrightarrow> k < 36"
proof -
  have n: "k < BPB" using assms by (simp add: mini_fs_def)
  then have "k mod BPB = k" "k div BPB = 0" by simp_all
  then have "marked d (mini_layout n) k = bit (pad_block mini_bitmap ! (k div 8)) (k mod 8)"
    by (simp add: marked_def mini_layout_def mini_high_blocks [OF assms(1)])
  also have "\<dots> \<longleftrightarrow> k < 36"
  proof (cases "k < 40")
    case True
    then have "k div 8 < length mini_bitmap" by (simp add: mini_bitmap_def)
    then have "pad_block mini_bitmap ! (k div 8) = mini_bitmap ! (k div 8)"
      by (simp add: pad_block_def nth_append)
    moreover have "\<forall>k \<in> {0..<40}. bit (mini_bitmap ! (k div 8)) (k mod 8) \<longleftrightarrow> k < 36"
      unfolding mini_bitmap_def by code_simp
    ultimately show ?thesis using True by simp
  next
    case False
    then have "pad_block mini_bitmap ! (k div 8) = 0"
      using n by (simp add: pad_block_def nth_append mini_bitmap_def fsck_consts)
    then show ?thesis using False by simp
  qed
  finally show ?thesis .
qed

lemma mini_entries:
  assumes "mini_fs d n"
  shows "dir_entries d (mini_layout n) 1 = [(DOT, 1), (DOTDOT, 1)]"
proof -
  have "required_blocks mini_root_inode = 1" by (simp add: required_blocks_def mini_root_inode_def BSIZE_def)
  then have "file_bytes d (mini_layout n) mini_root_inode = take 32 (block d 35)"
    unfolding file_bytes_def mini_logical by (simp add: mini_root_inode_def)
  also have "\<dots> = mini_root" by (simp add: mini_high_blocks [OF assms] pad_block_def)
  finally have f: "file_bytes d (mini_layout n) mini_root_inode = mini_root" .
  have s0: "slot_at mini_root 0 = (1, DOT @ replicate 13 0)"
    by (simp add: slot_at_def py_slice_def mini_root_def DOT_def le_nat_le_bytes)
  have s1: "slot_at mini_root 16 = (1, DOTDOT @ replicate 12 0)"
    by (simp add: slot_at_def py_slice_def mini_root_def DOT_def DOTDOT_def le_nat_le_bytes)
  have "slots mini_root = [slot_at mini_root 0, slot_at mini_root 16]"
    by (simp add: slots_def upt_rec)
  then show ?thesis
    unfolding dir_entries_def mini_inode_at [OF assms] f
    by (simp add: s0 s1 used_entries_def decode_name_def DOT_def DOTDOT_def takeWhile_append1)
qed

lemma mini_consistent:
  assumes "mini_fs d n"
  shows "fs_consistent d (mini_layout n)"
proof -
  have one: "ROOTINO = 1" by (simp add: ROOTINO_def)
  have "named [(DOT, 1), (DOTDOT, 1)] = []" by (simp add: named_def)
  then have links: "links d (mini_layout n) = []"
    by (simp add: links_def mini_lists [OF assms] mini_entries [OF assms] del: One_nat_def)
  have lay: "g_ninodes (mini_layout n) = 2" "g_size (mini_layout n) = n" "g_data_start (mini_layout n) = 35"
    by (simp_all add: mini_layout_def)
  have range: "{1..<2} = {1::nat}" by auto
  have "inodes_ok d (mini_layout n)"
    unfolding inodes_ok_def lay range one mini_live [OF assms]
    by (simp add: mini_inode_at [OF assms] del: One_nat_def) (simp add: mini_root_inode_def fsck_consts)
  moreover have "block_maps_ok d (mini_layout n)"
    by (simp add: block_maps_ok_def mini_live [OF assms] mini_inode_at [OF assms] mini_block_map [OF assms] del: One_nat_def)
  moreover have "bitmap_ok d (mini_layout n)"
    using assms by (auto simp: bitmap_ok_def mini_owned [OF assms] lay mini_marked [OF assms] mini_fs_def)
  moreover have "dir_ok d (mini_layout n) 1"
    unfolding dir_ok_def mini_entries [OF assms] mini_inode_at [OF assms]
    by (simp add: entries_ok_def mini_live [OF assms] mini_root_inode_def)
  moreover have "all_reachable d (mini_layout n)"
    by (simp add: all_reachable_def mini_live [OF assms] one)
  moreover have "tree_like (subdirs d (mini_layout n))"
    by (simp add: subdirs_def links tree_like_def)
  moreover have "dots_ok d (mini_layout n)"
    by (simp add: dots_ok_def mini_is_dir [OF assms] mini_entries [OF assms] one del: One_nat_def)
  moreover have "nlink_ok d (mini_layout n)"
    by (simp add: nlink_ok_def mini_live [OF assms] mini_is_dir [OF assms] mini_inode_at [OF assms] subdirs_def links del: One_nat_def)
      (simp add: mini_root_inode_def)
  ultimately show ?thesis by (simp add: fs_consistent_def mini_is_dir [OF assms] del: One_nat_def)
qed

lemma installed_consistent: "fs_consistent installed_image mini_geometry"
  by (rule mini_consistent [OF installed_mini_fs])

end
