(* ===== verification/FsckProps.thy ===== *)
theory FsckProps
  imports FsckExample
begin

text \<open>
  Properties of the image checker: it decides file-system consistency of the recovered image, its
  log replay is exact and idempotent, and its exit status is determined by the verdict.
\<close>

section \<open>The report as a whole\<close>

lemma check_bytes_report:
  obtains r where "check_bytes sha256 data = Inr r"
    and "r_clean r \<longleftrightarrow> (\<exists>g. parse_geometry data {} = Inr (Some g, {}) \<and> log_ok data g \<and> fs_consistent (replay data g) g)"
    and "r_raw_clean r \<longleftrightarrow> (\<exists>g. parse_geometry data {} = Inr (Some g, {}) \<and> log_ok data g \<and> fs_consistent data g)"
    and "r_clean r \<longleftrightarrow> r_diagnostics r = []"
proof -
  obtain p diag where pg: "parse_geometry data {} = Inr (p, diag)" using parse_geometry_total by blast
  show ?thesis
  proof (cases p)
    case None
    then have diag: "diag \<noteq> {}" "finite diag" using parse_geometry_None [of data "{}" diag] pg by auto
    show ?thesis
      by (rule that [of "failed_report None None (codes diag)"])
        (use pg None diag in \<open>simp_all add: check_bytes_def failed_report_def codes_eq_Nil\<close>)
  next
    case (Some g)
    then have g: "geometry_ok data g" and diag: "diag = {}" using parse_geometry_Some [of data "{}" g diag] pg by auto
    obtain ds' where ds': "ds' \<noteq> {}" "finite ds'" and pl: "parse_log data g {} =
        (if ({} :: diags) = {} \<and> log_ok data g
         then Inr ((log_count data g, log_targets data g, Some (replay data g)), {})
         else Inr ((log_count data g,
                    if 0 \<le> log_count data g \<and> log_count data g \<le> int LOGBLOCKS
                    then log_targets data g else [], None), ds'))"
      by (rule parse_log_eq [OF g finite.emptyI])
    show ?thesis
    proof (cases "log_ok data g")
      case False
      show ?thesis
        by (rule that [of "failed_report (Some g) (Some (log_count data g,
                    if 0 \<le> log_count data g \<and> log_count data g \<le> int LOGBLOCKS
                    then log_targets data g else [])) (codes ds')"])
          (use pg Some diag pl False ds' in \<open>simp_all add: check_bytes_def failed_report_def codes_eq_Nil\<close>)
    next
      case True
      let ?s = "replay data g"
      have g': "geometry_ok ?s g" using geometry_ok_length [OF g replay_correct(1) [OF g True]] .
      obtain raw where raw: "inspect_view data g = Inr raw" "v_diagnostics raw = [] \<longleftrightarrow> fs_consistent data g"
        using inspect_view_decides [OF g] by metis
      obtain rep where rep: "inspect_view ?s g = Inr rep" "v_diagnostics rep = [] \<longleftrightarrow> fs_consistent ?s g"
        using inspect_view_decides [OF g'] by metis
      define r where "r = \<lparr>r_clean = (v_diagnostics rep = []), r_raw_clean = (v_diagnostics raw = []),
          r_recovered_clean = (v_diagnostics rep = []), r_log_pending = Some (log_count data g \<noteq> 0),
          r_geometry = Some g, r_log = Some (log_count data g, log_targets data g),
          r_raw_sha256 = Some (sha256 data), r_shadow_sha256 = Some (sha256 ?s),
          r_raw = Some raw, r_replayed = Some rep, r_diagnostics = v_diagnostics rep, r_input_sha256 = None\<rparr>"
      have "check_bytes sha256 data = Inr r"
        using pg Some diag pl True raw(1) rep(1) by (simp add: check_bytes_def r_def Let_def)
      then show ?thesis
        by (rule that) (use pg Some diag True raw(2) rep(2) in \<open>simp_all add: r_def\<close>)
    qed
  qed
qed

text \<open>
  C1: The checker decides consistency.  On every byte string \<open>check_bytes\<close> returns a report; it
  calls the image clean exactly when the superblock describes a valid layout, the log is
  well formed, and the image obtained by replaying the log is a consistent file system (inodes,
  block maps, unique block ownership, exact bitmap, well-formed directories, everything reachable,
  directories forming a tree with correct dot entries, correct link counts); it calls the raw image
  clean exactly when the image as it stands is consistent.  The report is clean if and only if it
  lists no diagnostic.
\<close>

theorem check_bytes_decides_consistency:
  "\<exists>r. check_bytes sha256 data = Inr r \<and>
     (r_clean r \<longleftrightarrow> (\<exists>g. parse_geometry data {} = Inr (Some g, {}) \<and> log_ok data g \<and>
        fs_consistent (replay data g) g)) \<and>
     (r_raw_clean r \<longleftrightarrow> (\<exists>g. parse_geometry data {} = Inr (Some g, {}) \<and> log_ok data g \<and>
        fs_consistent data g)) \<and>
     (r_clean r \<longleftrightarrow> r_diagnostics r = [])"
  by (rule check_bytes_report [of sha256 data]) blast

section \<open>Log replay\<close>

lemma parse_log_accepts:
  assumes "geometry_ok data g"
  shows "log_ok data g \<Longrightarrow>
      parse_log data g {} = Inr ((log_count data g, log_targets data g, Some (replay data g)), {})"
    and "\<not> log_ok data g \<Longrightarrow> \<exists>ts diag. parse_log data g {} = Inr ((log_count data g, ts, None), diag) \<and> codes diag \<noteq> []"
proof -
  obtain ds' where ds': "ds' \<noteq> {}" "finite ds'" and pl: "parse_log data g {} =
      (if ({} :: diags) = {} \<and> log_ok data g
       then Inr ((log_count data g, log_targets data g, Some (replay data g)), {})
       else Inr ((log_count data g,
                  if 0 \<le> log_count data g \<and> log_count data g \<le> int LOGBLOCKS
                  then log_targets data g else [], None), ds'))"
    by (rule parse_log_eq [OF assms finite.emptyI])
  show "log_ok data g \<Longrightarrow>
      parse_log data g {} = Inr ((log_count data g, log_targets data g, Some (replay data g)), {})"
    using pl by simp
  show "\<not> log_ok data g \<Longrightarrow> \<exists>ts diag. parse_log data g {} = Inr ((log_count data g, ts, None), diag) \<and> codes diag \<noteq> []"
    using pl ds' by (simp add: codes_eq_Nil)
qed

text \<open>
  C3: Replay is exact.  When the superblock is valid and \<open>parse_log\<close> returns a shadow image, the
  listed home blocks are distinct and lie behind the log; in the shadow every home block holds the
  payload of its log slot, the header differs only in its count, which is zero, and every other
  block is the one of the input.
\<close>

theorem parse_log_replays_exactly:
  assumes "parse_geometry data {} = Inr (Some g, {})"
    and "parse_log data g {} = Inr ((cnt, targets, Some shadow), diag)"
  shows "length shadow = length data \<and> int (length targets) = cnt \<and> cnt \<le> 30 \<and>
    distinct targets \<and> (\<forall>t \<in> set targets. g_inodestart g \<le> t \<and> t < g_size g) \<and>
    (\<forall>i < length targets. block shadow (targets ! i) = block data (g_logstart g + 1 + i)) \<and>
    block shadow (g_logstart g) = replicate 4 0 @ drop 4 (block data (g_logstart g)) \<and>
    (\<forall>n < g_size g. n \<noteq> g_logstart g \<longrightarrow> n \<notin> set targets \<longrightarrow> block shadow n = block data n)"
proof -
  have g: "geometry_ok data g" using parse_geometry_Some(1) [OF assms(1)] .
  have ok: "log_ok data g" using parse_log_accepts(2) [OF g] assms(2) by auto
  then have eq: "cnt = log_count data g" "targets = log_targets data g" "shadow = replay data g"
    using parse_log_accepts(1) [OF g] assms(2) by auto
  note R = replay_correct [OF g ok]
  have t: "g_logstart g \<notin> set targets" "distinct targets"
    "\<forall>t \<in> set targets. g_inodestart g \<le> t \<and> t < g_size g"
    using ok g by (auto simp: log_ok_def geometry_ok_def eq)
  have slot: "log_slot data g (targets ! i) = Some i" if "i < length targets" for i
  proof -
    have "map_of (zip targets [0..<length targets]) (targets ! i) = Some ([0..<length targets] ! i)"
      using that t(2) by (intro map_of_zip_nth) simp_all
    then show ?thesis using that by (simp add: log_slot_def eq)
  qed
  have none: "log_slot data g n = None" if "n \<notin> set targets" for n
    using that by (simp add: log_slot_def eq map_of_zip_is_None)
  have "block shadow (targets ! i) = block data (g_logstart g + 1 + i)" if "i < length targets" for i
  proof -
    have "targets ! i \<in> set targets" using that by simp
    then have "targets ! i < g_size g" "targets ! i \<noteq> g_logstart g" using t by auto
    then show ?thesis using R(2) [of "targets ! i"] slot [OF that] by (simp add: eq recovered_block_def)
  qed
  moreover have "block shadow n = block data n" if "n < g_size g" "n \<noteq> g_logstart g" "n \<notin> set targets" for n
    using R(2) [of n] that none [OF that(3)] by (simp add: eq(3) recovered_block_def)
  moreover have "block shadow (g_logstart g) = replicate 4 0 @ drop 4 (block data (g_logstart g))"
    using R(2) [of "g_logstart g"] geometry_ok_logstart [OF g] by (simp add: eq(3) recovered_block_def)
  ultimately show ?thesis
    using t R(1) ok by (auto simp: eq log_ok_def log_targets_def LOGBLOCKS_def)
qed

theorem parse_log_replays_exactly_witness:
  "block installed_image 35 = block crashed_image 3 \<and> block installed_image 34 = block crashed_image 34"
proof -
  have "parse_log crashed_image mini_geometry {} = Inr ((1, [35], Some installed_image), {})"
    using parse_log_accepts(1) [OF mini_images_ok(2) mini_log(6)]
    by (simp add: mini_log mini_replay)
  from parse_log_replays_exactly [OF mini_images_geometry(2) this] show ?thesis
    by (simp add: mini_layout_def)
qed

text \<open>
  C5: Recovery is idempotent.  The recovered image parses to the same geometry, its log is empty,
  and replaying it once more returns the image itself.
\<close>

theorem replay_idempotent:
  assumes "parse_geometry data {} = Inr (Some g, {})"
    and "parse_log data g {} = Inr ((cnt, targets, Some shadow), diag)"
  shows "parse_geometry shadow {} = Inr (Some g, {}) \<and>
    parse_log shadow g {} = Inr ((0, [], Some shadow), {})"
proof -
  have g: "geometry_ok data g" using parse_geometry_Some(1) [OF assms(1)] .
  have ok: "log_ok data g" using parse_log_accepts(2) [OF g] assms(2) by auto
  then have eq: "shadow = replay data g" using parse_log_accepts(1) [OF g] assms(2) by auto
  have g': "geometry_ok (replay data g) g"
    using geometry_ok_length [OF g replay_correct(1) [OF g ok]] .
  show ?thesis
    using replay_geometry [OF assms(1) ok] parse_log_accepts(1) [OF g' replay_header(3) [OF g ok]]
      replay_header [OF g ok] replay_replay [OF g ok] by (simp add: eq)
qed

theorem replay_idempotent_witness:
  "parse_log installed_image mini_geometry {} = Inr ((0, [], Some installed_image), {})"
proof -
  have "parse_log crashed_image mini_geometry {} = Inr ((1, [35], Some installed_image), {})"
    using parse_log_accepts(1) [OF mini_images_ok(2) mini_log(6)]
    by (simp add: mini_log mini_replay)
  from replay_idempotent [OF mini_images_geometry(2) this] show ?thesis by simp
qed

text \<open>
  Acceptance of the log.  On a valid geometry the log parser never raises; it produces a shadow
  exactly when the count lies between 0 and 30 and the targets are distinct blocks behind the log,
  and otherwise reports at least one diagnostic and no shadow.
\<close>

theorem parse_log_verdict:
  assumes "parse_geometry data {} = Inr (Some g, {})"
  shows "\<exists>cnt targets shadow diag. parse_log data g {} = Inr ((cnt, targets, shadow), diag) \<and>
    cnt = log_count data g \<and> (shadow \<noteq> None \<longleftrightarrow> log_ok data g) \<and> (shadow = None \<longleftrightarrow> codes diag \<noteq> [])"
proof (cases "log_ok data g")
  case True
  then show ?thesis using parse_log_accepts(1) [OF parse_geometry_Some(1) [OF assms]] by auto
next
  case False
  then show ?thesis using parse_log_accepts(2) [OF parse_geometry_Some(1) [OF assms]] by auto
qed

theorem parse_log_verdict_witness:
  "\<exists>cnt targets shadow diag. parse_log crashed_image mini_geometry {} = Inr ((cnt, targets, shadow), diag) \<and>
     cnt = 1 \<and> shadow \<noteq> None"
  using parse_log_verdict [OF mini_images_geometry(2)] mini_log(3,6) by metis

section \<open>Directories, contents, exit status\<close>

text \<open>
  The search finds exactly what the directory entries reach.  On an image with a valid geometry
  whose root is a directory and whose directories are well formed, the breadth-first search of
  \<open>inspect_view\<close>, run on the edges the directory pass collects, ends with the set of live inodes
  reachable from the root through named entries.
\<close>

theorem bfs_reachable_exact:
  assumes "geometry_ok data g" and "is_dir data g ROOTINO"
    and "\<forall>i. is_dir data g i \<longrightarrow> readable data g (inode_at data g i) \<and> dir_ok data g i"
  shows "\<exists>sc. directory_pass data g (inode_table data g) {} = Inr (sc, {}) \<and>
    w_reachable (bfs (inode_table data g) (sc_edges sc) (walk_start (inode_table data g) {}))
      = {i. live data g i \<and> (ROOTINO, i) \<in> (set (links data g))\<^sup>*}"
proof -
  obtain sc ds where p: "directory_pass data g (inode_table data g) {} = Inr (sc, ds)" "ds = {}"
    "sc = scan_of data g (dir_list data g)"
    using directory_pass_eq [OF assms(1) finite.emptyI] assms(3) by metis
  then show ?thesis
    using image_search_reachable [OF assms(2)] assms(3) unfolding image_search_def by auto
qed

theorem bfs_reachable_exact_witness:
  "\<exists>sc. directory_pass installed_image mini_geometry (inode_table installed_image mini_geometry) {} = Inr (sc, {}) \<and>
     1 \<in> w_reachable (bfs (inode_table installed_image mini_geometry) (sc_edges sc)
            (walk_start (inode_table installed_image mini_geometry) {}))"
proof -
  have c: "fs_consistent installed_image mini_geometry" by (rule installed_consistent)
  have "is_dir installed_image mini_geometry ROOTINO" by (simp add: mini_is_dir [OF installed_mini_fs] ROOTINO_def)
  moreover have "\<forall>i. is_dir installed_image mini_geometry i \<longrightarrow>
      readable installed_image mini_geometry (inode_at installed_image mini_geometry i) \<and>
      dir_ok installed_image mini_geometry i"
    using c readable_live by (auto simp: fs_consistent_def is_dir_def)
  ultimately show ?thesis
    using bfs_reachable_exact [OF mini_images_ok(1)]
    by (fastforce simp: mini_live [OF installed_mini_fs] ROOTINO_def)
qed

text \<open>
  C6: Reading a file.  For an inode whose block map is well formed and whose size is within the
  limit, \<open>read_inode_bytes\<close> adds no diagnostic and returns the first \<open>size\<close> bytes of its logical
  blocks in order; for every other inode it still returns \<open>size\<close> bytes but leaves a diagnostic.
\<close>

theorem read_inode_bytes_exact:
  assumes "geometry_ok data g" and "length (i_addrs ino) = 13"
  shows "\<exists>payload ds. read_inode_bytes data g ino {} = Inr (payload, ds) \<and> length payload = i_size ino \<and>
    (ds = {} \<longleftrightarrow> block_map_ok data g ino \<and> i_size ino \<le> MAXFILE * BSIZE) \<and>
    (ds = {} \<longrightarrow> payload = take (i_size ino)
       (concat (map (\<lambda>i. block data (logical_blocks data g ino ! i)) [0..<required_blocks ino])))"
  using read_inode_bytes_eq [OF assms finite.emptyI] unfolding file_bytes_def by metis

theorem read_inode_bytes_exact_witness:
  "\<exists>payload. read_inode_bytes installed_image mini_geometry mini_root_inode {} = Inr (payload, {}) \<and>
     length payload = 32"
proof -
  have "length (i_addrs mini_root_inode) = 13" "i_size mini_root_inode = 32"
    by (simp_all add: mini_root_inode_def)
  moreover have "32 \<le> MAXFILE * BSIZE" by (simp add: fsck_consts)
  ultimately show ?thesis
    using read_inode_bytes_exact [OF mini_images_ok(1)] mini_block_map [OF installed_mini_fs] by metis
qed


end
