(* ===== verification/KernelPipe.thy ===== *)
theory KernelPipe
  imports PyStruct
begin

text \<open>
  The pipes of the kernel (\<open>kernel/pipe.c\<close>).  A call holds the lock of the pipe from its first step until it
  returns or goes to sleep, so a call is a sequence of bursts that do not overlap; a burst is a function
  on the pipe.  The counters of bytes read and written are 32-bit words and wrap around.  What \<open>copyin\<close> and
  \<open>copyout\<close> do to the memory of the process is an argument: for every byte of the request, the byte that was
  read or a fault, and whether the byte could be written.  Whether the process has been killed is an argument of
  every test of it, since another processor may kill the process during a burst.
\<close>

section \<open>Pipes\<close>

definition PIPESIZE :: nat where "PIPESIZE = 512"

record pipe =
  p_data :: bytes
  p_nread :: "32 word"
  p_nwrite :: "32 word"
  p_readopen :: bool
  p_writeopen :: bool

text \<open>The end of a burst: the call returns a value, or sleeps with the given number of bytes done.\<close>

datatype burst = Returned int | Asleep int

text \<open>The pipe that \<open>pipealloc\<close> sets up in a fresh page.\<close>

definition pipe_init :: "bytes \<Rightarrow> pipe" where
  "pipe_init page = \<lparr>p_data = take PIPESIZE page, p_nread = 0, p_nwrite = 0, p_readopen = True, p_writeopen = True\<rparr>"

definition pipeclose :: "bool \<Rightarrow> pipe \<Rightarrow> pipe option" where
  "pipeclose writable p =
     (let p = (if writable then p\<lparr>p_writeopen := False\<rparr> else p\<lparr>p_readopen := False\<rparr>) in
      if \<not> p_readopen p \<and> \<not> p_writeopen p then None else Some p)"

fun pipewrite :: "int \<Rightarrow> (bool \<times> byte option) list \<Rightarrow> pipe \<Rightarrow> burst \<times> pipe" where
  "pipewrite i [] p = (Returned i, p)"
| "pipewrite i ((killed, x) # xs) p =
     (if \<not> p_readopen p \<or> killed then (Returned (- 1), p)
      else if p_nwrite p = p_nread p + of_nat PIPESIZE then (Asleep i, p)
      else case x of
             None \<Rightarrow> (Returned i, p)
           | Some ch \<Rightarrow> pipewrite (i + 1) xs
               (p\<lparr>p_data := (p_data p)[unat (p_nwrite p) mod PIPESIZE := ch], p_nwrite := p_nwrite p + 1\<rparr>))"

fun piperead_copy :: "int \<Rightarrow> bool list \<Rightarrow> pipe \<Rightarrow> bytes \<Rightarrow> burst \<times> bytes \<times> pipe" where
  "piperead_copy i [] p out = (Returned i, out, p)"
| "piperead_copy i (ok # oks) p out =
     (if p_nread p = p_nwrite p then (Returned i, out, p)
      else let ch = p_data p ! (unat (p_nread p) mod PIPESIZE) in
        if \<not> ok then (Returned (if i = 0 then - 1 else i), out, p)
        else piperead_copy (i + 1) oks (p\<lparr>p_nread := p_nread p + 1\<rparr>) (out @ [ch]))"

definition piperead :: "bool \<Rightarrow> bool list \<Rightarrow> pipe \<Rightarrow> burst \<times> bytes \<times> pipe" where
  "piperead killed oks p =
     (if p_nread p = p_nwrite p \<and> p_writeopen p
      then (if killed then Returned (- 1) else Asleep 0, [], p)
      else piperead_copy 0 oks p [])"

section \<open>A pipe is a bounded queue\<close>

definition pipe_ok :: "pipe \<Rightarrow> bool" where
  "pipe_ok p \<longleftrightarrow> length (p_data p) = PIPESIZE \<and> unat (p_nwrite p - p_nread p) \<le> PIPESIZE"

definition slot :: "pipe \<Rightarrow> nat \<Rightarrow> nat" where
  "slot p j = (unat (p_nread p) + j) mod PIPESIZE"

definition contents :: "pipe \<Rightarrow> bytes" where
  "contents p = map (\<lambda>j. p_data p ! slot p j) [0..<unat (p_nwrite p - p_nread p)]"

lemma length_contents [simp]: "length (contents p) = unat (p_nwrite p - p_nread p)"
  by (simp add: contents_def)

text \<open>The size of the array divides the range of the counters, so slots survive a wrap around.\<close>

lemma unat_add_mod: "unat (x + of_nat j :: 32 word) mod PIPESIZE = (unat x + j) mod PIPESIZE"
proof -
  have "unat (x + of_nat j :: 32 word) = (unat x + j) mod 2 ^ 32"
    by (simp add: unat_word_ariths unat_of_nat mod_add_right_eq)
  moreover have "n mod 2 ^ 32 mod PIPESIZE = n mod PIPESIZE" for n :: nat
    by (rule mod_mod_cancel) (simp add: PIPESIZE_def)
  ultimately show ?thesis by simp
qed

lemma write_slot: "unat (p_nwrite p) mod PIPESIZE = slot p (unat (p_nwrite p - p_nread p))"
  using unat_add_mod [of "p_nread p" "unat (p_nwrite p - p_nread p)"] by (simp add: slot_def)

lemma full_iff: "p_nwrite p = p_nread p + of_nat PIPESIZE \<longleftrightarrow> length (contents p) = PIPESIZE"
proof -
  have "p_nwrite p = p_nread p + of_nat PIPESIZE \<longleftrightarrow> p_nwrite p - p_nread p = (of_nat PIPESIZE :: 32 word)" by (metis add.commute diff_add_cancel add_diff_cancel)
  also have "\<dots> \<longleftrightarrow> unat (p_nwrite p - p_nread p) = PIPESIZE" by (simp add: PIPESIZE_def word_unat_eq_iff)
  finally show ?thesis by simp
qed

lemma empty_iff: "p_nread p = p_nwrite p \<longleftrightarrow> contents p = []"
  by (metis length_contents length_0_conv unat_eq_zero right_minus_eq)

lemma slot_bound: "slot p j < PIPESIZE"
  by (simp add: slot_def PIPESIZE_def)

lemma slot_inj:
  assumes "i < PIPESIZE" and "j < PIPESIZE" and "slot p i = slot p j"
  shows "i = j"
proof -
  have "a = b" if "a \<le> b" "b < PIPESIZE" "slot p a = slot p b" for a b
  proof -
    have "PIPESIZE dvd b - a"
      using that(1,3) mod_eq_dvd_iff_nat [of "unat (p_nread p) + a" "unat (p_nread p) + b" PIPESIZE] by (simp add: slot_def)
    then show ?thesis using that(1,2) by (metis dvd_imp_le diff_le_self le_antisym less_le_trans not_less zero_less_diff le_less_trans)
  qed
  then show ?thesis using assms by (metis linear)
qed

lemma put_byte:
  assumes "pipe_ok p" and "length (contents p) < PIPESIZE"
    and q_def: "q = p\<lparr>p_data := (p_data p)[unat (p_nwrite p) mod PIPESIZE := ch], p_nwrite := p_nwrite p + 1\<rparr>"
  shows "pipe_ok q" and "contents q = contents p @ [ch]"
proof -
  let ?n = "unat (p_nwrite p - p_nread p)"
  have n: "?n < PIPESIZE" using assms(2) by simp
  have "unat (p_nwrite p + 1 - p_nread p) = Suc ?n"
  proof -
    have "p_nwrite p + 1 - p_nread p = (p_nwrite p - p_nread p) + 1" by simp
    moreover have "unat ((p_nwrite p - p_nread p) + 1) = ?n + 1" using n by (simp add: unat_word_ariths(1) PIPESIZE_def del: diff_add_eq)
    ultimately show ?thesis by (metis Suc_eq_plus1)
  qed
  then have u: "unat (p_nwrite q - p_nread q) = Suc ?n" by (simp add: q_def)
  have l: "length (p_data p) = PIPESIZE" using assms(1) by (simp add: pipe_ok_def)
  show "pipe_ok q" using u n l by (simp add: pipe_ok_def q_def)
  have s: "slot q j = slot p j" for j by (simp add: slot_def q_def)
  have d: "p_data q = (p_data p)[slot p ?n := ch]" by (simp add: q_def write_slot)
  have "slot p j \<noteq> slot p ?n" if "j < ?n" for j using slot_inj [of j ?n p] n that by auto
  then have "slot p ?n \<noteq> slot p j" if "j < ?n" for j using that by metis
  then have "map (\<lambda>j. p_data q ! slot q j) [0..<?n] = contents p" unfolding contents_def by (intro map_cong) (simp_all add: s d)
  moreover have "p_data q ! slot q ?n = ch" using l by (simp add: d s slot_bound)
  ultimately show "contents q = contents p @ [ch]" by (simp add: contents_def u)
qed

lemma get_byte:
  assumes "pipe_ok p" and "contents p \<noteq> []"
    and q_def: "q = p\<lparr>p_nread := p_nread p + 1\<rparr>"
  shows "pipe_ok q" and "contents p = p_data p ! (unat (p_nread p) mod PIPESIZE) # contents q"
proof -
  let ?n = "unat (p_nwrite p - p_nread p)"
  have n: "0 < ?n" using assms(2) by (metis length_contents length_greater_0_conv)
  have u: "unat (p_nwrite q - p_nread q) = ?n - 1"
  proof -
    have "p_nwrite q - p_nread q = (p_nwrite p - p_nread p) - 1" by (simp add: q_def)
    moreover have "unat (w - 1) = unat w - 1" if "0 < unat w" for w :: "32 word"
      using that unat_sub_if' [of w 1] by simp
    ultimately show ?thesis using n by simp
  qed
  have "unat (p_nwrite q - p_nread q) \<le> PIPESIZE" using assms(1) unfolding u pipe_ok_def by linarith
  then show "pipe_ok q" using assms(1) by (simp add: pipe_ok_def q_def)
  have s: "slot q j = slot p (Suc j)" for j
    using unat_add_mod [of "p_nread p" 1] by (simp add: slot_def q_def) (metis Suc_eq_plus1 add.assoc add.commute mod_add_left_eq plus_1_eq_Suc)
  have "[0..<?n] = 0 # map Suc [0..<?n - 1]" using n by (simp add: map_Suc_upt upt_conv_Cons)
  then show "contents p = p_data p ! (unat (p_nread p) mod PIPESIZE) # contents q"
    by (simp add: contents_def u s) (simp add: slot_def q_def)
qed

text \<open>
  A burst of a write appends the bytes it copied.  It sleeps only on a full pipe with bytes left to write, and it
  returns the number of bytes done, short of the request only when the memory of the process could not be read.
\<close>

definition write_result :: "int \<Rightarrow> (bool \<times> byte option) list \<Rightarrow> pipe \<Rightarrow> nat \<Rightarrow> burst \<Rightarrow> pipe \<Rightarrow> bool" where
  "write_result i xs p n r q \<longleftrightarrow>
     (if n = length xs then r = Returned (i + int n)
      else if \<not> p_readopen p \<or> fst (xs ! n) then r = Returned (- 1)
      else if length (contents q) = PIPESIZE then r = Asleep (i + int n)
      else snd (xs ! n) = None \<and> r = Returned (i + int n))"

lemma pipewrite_burst:
  assumes "pipe_ok p" and "pipewrite i xs p = (r, q)"
  obtains bs where "contents q = contents p @ bs" and "map Some bs = map snd (take (length bs) xs)"
    and "length bs \<le> length xs" and "pipe_ok q" and "p_nwrite q = p_nwrite p + of_nat (length bs)" and "p_readopen q = p_readopen p" and "p_writeopen q = p_writeopen p"
    and "write_result i xs p (length bs) r q"
  using assms
proof (induction xs arbitrary: i p thesis)
  case Nil
  then show ?case by (auto simp: write_result_def intro: Nil.prems(1) [of "[]"])
next
  case (Cons x xs)
  obtain k c where x: "x = (k, c)" by fastforce
  show ?case
  proof (cases "p_readopen p \<and> \<not> k \<and> length (contents p) \<noteq> PIPESIZE \<and> c \<noteq> None")
    case False
    then show ?thesis using Cons.prems(2,3) unfolding x
      by (intro Cons.prems(1) [of "[]"]) (auto simp: x write_result_def full_iff split: if_splits option.splits)
  next
    case True
    then obtain ch where ch: "c = Some ch" by auto
    define p' where p': "p' = p\<lparr>p_data := (p_data p)[unat (p_nwrite p) mod PIPESIZE := ch], p_nwrite := p_nwrite p + 1\<rparr>"
    have "length (contents p) < PIPESIZE" using True Cons.prems(2) by (simp add: pipe_ok_def)
    note put = put_byte [OF Cons.prems(2) this p']
    have "pipewrite (i + 1) xs p' = (r, q)" using Cons.prems(3) True by (simp add: x ch full_iff p' del: length_contents)
    from Cons.IH [OF _ put(1) this] obtain bs where bs: "contents q = contents p' @ bs"
      "map Some bs = map snd (take (length bs) xs)" "length bs \<le> length xs" "pipe_ok q" "p_nwrite q = p_nwrite p' + of_nat (length bs)"
      "p_readopen q = p_readopen p'" "p_writeopen q = p_writeopen p'" "write_result (i + 1) xs p' (length bs) r q" by metis
    have f: "p_readopen p' = p_readopen p" "p_writeopen p' = p_writeopen p" "p_nwrite p' = p_nwrite p + 1" by (simp_all add: p')
    have "write_result i (x # xs) p (length (ch # bs)) r q" using bs(8) by (simp add: write_result_def f algebra_simps)
    then show ?thesis using bs by (intro Cons.prems(1) [of "ch # bs"]) (simp_all add: put(2) x ch f)
  qed
qed

text \<open>
  A burst of a read takes bytes off the front.  It sleeps only on an empty pipe that is still open for writing, and
  the end of the file is a result of zero bytes.
\<close>

definition read_result :: "int \<Rightarrow> bool list \<Rightarrow> nat \<Rightarrow> burst \<Rightarrow> pipe \<Rightarrow> bool" where
  "read_result i oks n r q \<longleftrightarrow>
     (if n = length oks \<or> contents q = [] then r = Returned (i + int n)
      else \<not> oks ! n \<and> r = Returned (if i + int n = 0 then - 1 else i + int n))"

lemma piperead_copy_burst:
  assumes "pipe_ok p" and "piperead_copy i oks p out = (r, bs, q)"
  obtains cs where "bs = out @ cs" and "contents p = cs @ contents q" and "length cs \<le> length oks" and "pipe_ok q"
    and "p_readopen q = p_readopen p" and "p_writeopen q = p_writeopen p" and "read_result i oks (length cs) r q"
  using assms
proof (induction oks arbitrary: i p out thesis)
  case Nil
  then show ?case by (auto simp: read_result_def intro: Nil.prems(1) [of "[]"])
next
  case (Cons ok oks)
  show ?case
  proof (cases "ok \<and> contents p \<noteq> []")
    case False
    then show ?thesis using Cons.prems(2,3)
      by (intro Cons.prems(1) [of "[]"]) (auto simp: read_result_def empty_iff Let_def split: if_splits)
  next
    case True
    define p' where p': "p' = p\<lparr>p_nread := p_nread p + 1\<rparr>"
    let ?ch = "p_data p ! (unat (p_nread p) mod PIPESIZE)"
    note get = get_byte [OF Cons.prems(2) _ p']
    have "piperead_copy (i + 1) oks p' (out @ [?ch]) = (r, bs, q)"
      using Cons.prems(3) True by (simp add: empty_iff p' Let_def)
    from Cons.IH [OF _ get(1) this] True obtain cs where cs: "bs = (out @ [?ch]) @ cs" "contents p' = cs @ contents q"
      "length cs \<le> length oks" "pipe_ok q" "p_readopen q = p_readopen p'" "p_writeopen q = p_writeopen p'"
      "read_result (i + 1) oks (length cs) r q" by metis
    have f: "p_readopen p' = p_readopen p" "p_writeopen p' = p_writeopen p" by (simp_all add: p')
    have "read_result i (ok # oks) (length (?ch # cs)) r q" using cs(7) by (simp add: read_result_def algebra_simps)
    then show ?thesis using cs get(2) True by (intro Cons.prems(1) [of "?ch # cs"]) (simp_all add: f)
  qed
qed

section \<open>Sequences of bursts\<close>

text \<open>
  The bytes that go in and come out over a sequence of bursts, in any interleaving of writers and readers.  A write
  that ends with an error after some bytes has put them into the pipe all the same; what went in is
  therefore read off the counter.
\<close>

datatype pipe_call = Write int "(bool \<times> byte option) list" | Read bool "bool list" | Close bool

definition stored :: "(bool \<times> byte option) list \<Rightarrow> pipe \<Rightarrow> pipe \<Rightarrow> bytes" where
  "stored xs p q = map (the \<circ> snd) (take (unat (p_nwrite q - p_nwrite p)) xs)"

fun pipe_run :: "pipe_call list \<Rightarrow> bytes \<Rightarrow> bytes \<Rightarrow> pipe \<Rightarrow> bytes \<times> bytes \<times> pipe option" where
  "pipe_run [] ins outs p = (ins, outs, Some p)"
| "pipe_run (Write i xs # cs) ins outs p =
     (let (r, q) = pipewrite i xs p in pipe_run cs (ins @ stored xs p q) outs q)"
| "pipe_run (Read killed oks # cs) ins outs p =
     (let (r, bs, q) = piperead killed oks p in pipe_run cs ins (outs @ bs) q)"
| "pipe_run (Close w # cs) ins outs p =
     (case pipeclose w p of None \<Rightarrow> (ins, outs, None) | Some q \<Rightarrow> pipe_run cs ins outs q)"

lemma pipe_init_ok:
  assumes "PIPESIZE \<le> length page"
  shows "pipe_ok (pipe_init page)" and "contents (pipe_init page) = []"
  using assms by (simp_all add: pipe_ok_def pipe_init_def contents_def)

lemma stored_bytes:
  assumes "pipe_ok p" and "pipewrite i xs p = (r, q)"
  shows "contents q = contents p @ stored xs p q" and "pipe_ok q"
proof -
  obtain bs where bs: "contents q = contents p @ bs" "map Some bs = map snd (take (length bs) xs)"
    "pipe_ok q" "p_nwrite q = p_nwrite p + of_nat (length bs)" by (rule pipewrite_burst [OF assms])
  have "length bs \<le> PIPESIZE" using arg_cong [OF bs(1), of length] bs(3) by (simp add: pipe_ok_def)
  then have "unat (p_nwrite q - p_nwrite p) = length bs" by (simp add: bs(4) unat_of_nat PIPESIZE_def)
  then have "stored xs p q = map the (map snd (take (length bs) xs))" by (simp add: stored_def)
  also have "\<dots> = bs" by (simp flip: bs(2) add: comp_def)
  finally show "contents q = contents p @ stored xs p q" "pipe_ok q" using bs by simp_all
qed

lemma piperead_bytes:
  assumes "pipe_ok p" and "piperead killed oks p = (r, bs, q)"
  shows "contents p = bs @ contents q" and "pipe_ok q"
  using assms(2) piperead_copy_burst [OF assms(1), of 0 oks "[]" r bs q "contents p = bs @ contents q \<and> pipe_ok q"] assms(1)
  by (auto simp: piperead_def split: if_splits)

lemma pipeclose_bytes:
  assumes "pipeclose w p = Some q"
  shows "contents q = contents p" and "pipe_ok q = pipe_ok p"
  using assms by (auto simp: pipeclose_def contents_def slot_def pipe_ok_def Let_def split: if_splits)

lemma pipe_run_queue:
  assumes "pipe_ok p" and "pipe_run cs ins outs p = (ins', outs', z)" and "ins = outs @ contents p"
  shows "\<exists>rest. ins' = outs' @ rest \<and> length rest \<le> PIPESIZE \<and> (\<forall>q. z = Some q \<longrightarrow> rest = contents q \<and> pipe_ok q)"
  using assms
proof (induction cs ins outs p rule: pipe_run.induct)
  case (1 ins outs p)
  then show ?case by (auto simp: pipe_ok_def)
next
  case (2 i xs cs ins outs p)
  obtain r q where w: "pipewrite i xs p = (r, q)" by fastforce
  from stored_bytes [OF "2.prems"(1) w] "2.prems"(2,3) show ?case by (intro "2.IH" [OF w [symmetric] refl]) (simp_all add: w)
next
  case (3 killed oks cs ins outs p)
  obtain r bs q where w: "piperead killed oks p = (r, bs, q)" by (cases "piperead killed oks p") auto
  from piperead_bytes [OF "3.prems"(1) w] "3.prems"(2,3) show ?case
    by (intro "3.IH" [OF w [symmetric] refl refl]) (simp_all add: w)
next
  case (4 w cs ins outs p)
  show ?case
  proof (cases "pipeclose w p")
    case None
    then have "ins' = outs' @ contents p" "z = None" using "4.prems"(2,3) by auto
    then show ?thesis using "4.prems"(1) by (auto simp: pipe_ok_def)
  next
    case (Some q)
    from pipeclose_bytes [OF Some] "4.prems" show ?thesis by (intro "4.IH" [OF Some]) (simp_all add: Some)
  qed
qed

text \<open>The requests of an undisturbed call: the process lives and its memory can be read and written.\<close>

definition request :: "bytes \<Rightarrow> (bool \<times> byte option) list" where
  "request bs = map (\<lambda>b. (False, Some b)) bs"

lemma pipewrite_request:
  assumes "pipe_ok p" and "p_readopen p" and "pipewrite i (request bs) p = (r, q)"
  defines "n \<equiv> min (length bs) (PIPESIZE - length (contents p))"
  shows "contents q = contents p @ take n bs" and "r = (if n = length bs then Returned else Asleep) (i + int n)"
proof -
  obtain cs where cs: "contents q = contents p @ cs" "map Some cs = map snd (take (length cs) (request bs))"
    "length cs \<le> length (request bs)" "pipe_ok q" "write_result i (request bs) p (length cs) r q"
    by (rule pipewrite_burst [OF assms(1,3)])
  have "map Some cs = map Some (take (length cs) bs)" using cs(2) by (simp add: request_def take_map comp_def)
  then have c: "cs = take (length cs) bs" by (metis map_injective option.inject injI)
  have l: "length cs \<le> length bs" using cs(3) by (simp add: request_def)
  have q: "length (contents q) = length (contents p) + length cs" "length (contents q) \<le> PIPESIZE"
    using arg_cong [OF cs(1), of length] cs(4) by (simp_all add: pipe_ok_def)
  have x: "request bs ! length cs = (False, Some (bs ! length cs))" if "length cs < length bs"
    using that by (simp add: request_def)
  have "length cs = length bs \<or> length (contents q) = PIPESIZE"
    using cs(5) x l assms(2) by (auto simp: write_result_def request_def split: if_splits)
  then have n: "length cs = n" using q l unfolding n_def by linarith
  show "contents q = contents p @ take n bs" using cs(1) c n by simp
  show "r = (if n = length bs then Returned else Asleep) (i + int n)"
    using cs(5) x l assms(2) n by (auto simp: write_result_def request_def split: if_splits)
qed

lemma piperead_request:
  assumes "pipe_ok p" and "piperead killed (replicate m True) p = (r, bs, q)" and "contents p \<noteq> [] \<or> \<not> p_writeopen p"
  defines "n \<equiv> min m (length (contents p))"
  shows "bs = take n (contents p)" and "contents q = drop n (contents p)" and "r = Returned (int n)"
proof -
  have "piperead_copy 0 (replicate m True) p [] = (r, bs, q)"
    using assms(2,3) by (auto simp: piperead_def empty_iff)
  from piperead_copy_burst [OF assms(1) this] obtain cs where cs: "bs = [] @ cs" "contents p = cs @ contents q"
    "length cs \<le> m" "read_result 0 (replicate m True) (length cs) r q" by (metis length_replicate)
  have "length cs = m \<or> contents q = []" and r: "r = Returned (int (length cs))"
    using cs(3,4) by (auto simp: read_result_def split: if_splits)
  then have n: "length cs = n" using arg_cong [OF cs(2), of length] cs(3) unfolding n_def length_append by (auto simp del: length_contents)
  show "bs = take n (contents p)" "contents q = drop n (contents p)" "r = Returned (int n)"
    using cs n r by simp_all
qed

section \<open>Properties\<close>

text \<open>
  C1: a pipe is a first-in first-out queue of at most 512 bytes, wherever its 32-bit counters start and however the
  bursts of writers, readers and closing processes interleave: what came out is a prefix of what went in, the rest is
  never longer than the pipe, and while the pipe exists the rest is what it holds.
\<close>

theorem pipe_fifo:
  assumes "pipe_ok p" and "contents p = []" and "pipe_run cs [] [] p = (ins, outs, z)"
  shows "\<exists>rest. ins = outs @ rest \<and> length rest \<le> PIPESIZE \<and> (\<forall>q. z = Some q \<longrightarrow> rest = contents q \<and> pipe_ok q)"
  using pipe_run_queue [OF assms(1,3)] assms(2) by simp

text \<open>
  C1: an undisturbed write stores as many bytes as there is room for, returns when all of them are stored and
  sleeps otherwise; a read takes as many bytes as it asked for or as there are and returns their number, which is zero
  on an empty pipe without writers; on an empty pipe with a writer it sleeps.
\<close>

theorem pipe_transfer:
  assumes "pipe_ok p"
  shows "(p_readopen p \<longrightarrow>
      (let (r, q) = pipewrite i (request bs) p; n = min (length bs) (PIPESIZE - length (contents p)) in
       contents q = contents p @ take n bs \<and> r = (if n = length bs then Returned else Asleep) (i + int n))) \<and>
    (if contents p = [] \<and> p_writeopen p then piperead False oks p = (Asleep 0, [], p)
     else let (r, out, q) = piperead killed (replicate m True) p; n = min m (length (contents p)) in
       out = take n (contents p) \<and> contents q = drop n (contents p) \<and> r = Returned (int n))"
proof -
  obtain r q r' out q' where w: "pipewrite i (request bs) p = (r, q)" "piperead killed (replicate m True) p = (r', out, q')"
    by (metis prod.exhaust)
  have "piperead False oks p = (Asleep 0, [], p)" if "contents p = []" "p_writeopen p"
    using that by (simp add: piperead_def empty_iff)
  then show ?thesis unfolding w Let_def split_conv
    using pipewrite_request [OF assms _ w(1)] piperead_request [OF assms w(2)] by (intro conjI impI) (simp_all split: if_split del: length_contents)
qed

definition wrapping_pipe :: pipe where
  "wrapping_pipe = \<lparr>p_data = replicate 512 0, p_nread = - 1, p_nwrite = - 1, p_readopen = True, p_writeopen = True\<rparr>"

lemma minus_one_slot: "unat (- 1 :: 32 word) mod 512 = 511"
  by (simp add: unsigned_minus_1_eq_mask mask_eq_exp_minus_1)

theorem pipe_fifo_witness:
  "\<exists>z rest. pipe_run [Write 0 (request [1, 2, 3]), Read False [True, True]] [] [] wrapping_pipe = ([1, 2, 3], [1, 2], z) \<and>
     [1, 2, 3] = [1, 2] @ (rest :: bytes) \<and> length rest \<le> PIPESIZE \<and> (\<forall>q. z = Some q \<longrightarrow> rest = contents q \<and> pipe_ok q)"
proof -
  let ?cs = "[Write 0 (request [1, 2, 3]), Read False [True, True]]"
  have ok: "pipe_ok wrapping_pipe" "contents wrapping_pipe = []"
    by (simp_all add: pipe_ok_def wrapping_pipe_def contents_def PIPESIZE_def)
  have r: "fst (pipe_run ?cs [] [] wrapping_pipe) = [1, 2, 3]" "fst (snd (pipe_run ?cs [] [] wrapping_pipe)) = [1, 2]"
    by (simp_all add: wrapping_pipe_def request_def stored_def piperead_def PIPESIZE_def minus_one_slot)
  obtain z where z: "pipe_run ?cs [] [] wrapping_pipe = ([1, 2, 3], [1, 2], z)" using r by (metis prod.collapse)
  from pipe_fifo [OF ok z] z show ?thesis by blast
qed

theorem pipe_transfer_witness:
  "pipe_ok wrapping_pipe \<and>
   (let (r, q) = pipewrite 0 (request (replicate 600 7)) wrapping_pipe in
    contents q = replicate 512 7 \<and> r = Asleep 512)"
proof -
  have ok: "pipe_ok wrapping_pipe" "contents wrapping_pipe = []" "p_readopen wrapping_pipe"
    by (simp_all add: pipe_ok_def wrapping_pipe_def contents_def PIPESIZE_def)
  from pipe_transfer [OF ok(1), of 0 "replicate 600 7"] show ?thesis
    by (simp add: ok PIPESIZE_def Let_def split: prod.splits del: length_contents)
qed

end
