(* ===== verification/Markers.thy ===== *)
theory Markers
  imports PyText
begin

text \<open>
  The marker language shared by the runners: lines of blank-separated words whose tail is a list
  of \<open>key=value\<close> tokens.  The contract of a token step says that a rendered token is read back as
  one new dictionary entry; the round trip of token lists and of whole transcripts follows.
\<close>

type_synonym 'v fields = "(string, 'v) dict"

datatype fval = FInt int | FStr string

text \<open>Typed views of a field behind a schema check.\<close>

definition fint :: "fval fields \<Rightarrow> string \<Rightarrow> int" where
  "fint values key = (case map_of values key of Some (FInt i) \<Rightarrow> i | _ \<Rightarrow> 0)"

definition fstr :: "fval fields \<Rightarrow> string \<Rightarrow> string" where
  "fstr values key = (case map_of values key of Some (FStr s) \<Rightarrow> s | _ \<Rightarrow> [])"

definition plain_word :: "string \<Rightarrow> bool" where
  "plain_word w \<longleftrightarrow> w \<noteq> [] \<and> list_all (\<lambda>c. \<not> is_space c) w"

definition render_token :: "string \<Rightarrow> string \<Rightarrow> string" where
  "render_token key value = key @ ''='' @ value"

locale token_parser =
  fixes step :: "'v fields \<Rightarrow> string \<Rightarrow> 'v fields result"
    and render :: "'v \<Rightarrow> string"
    and ok :: "string \<Rightarrow> 'v \<Rightarrow> bool"
  assumes step_render: "ok k v \<Longrightarrow> k \<notin> set (dkeys d) \<Longrightarrow>
      step d (render_token k (render v)) = Inr (dput k v d)"
    and render_plain: "ok k v \<Longrightarrow> plain_word (render_token k (render v))"
begin

definition tokens :: "'v fields \<Rightarrow> string list" where
  "tokens fs = map (\<lambda>(k, v). render_token k (render v)) fs"

definition renderable :: "'v fields \<Rightarrow> bool" where
  "renderable fs \<longleftrightarrow> dict_ok fs \<and> (\<forall>(k, v) \<in> set fs. ok k v)"

lemma parse_tokens: "renderable fs \<Longrightarrow> fold_res step [] (tokens fs) = Inr fs"
proof -
  have "dict_ok (ds @ fs) \<Longrightarrow> \<forall>(k, v) \<in> set fs. ok k v \<Longrightarrow> fold_res step ds (tokens fs) = Inr (ds @ fs)" for ds
  proof (induction fs arbitrary: ds)
    case Nil
    then show ?case by (simp add: tokens_def)
  next
    case (Cons a fs)
    obtain k v where a: "a = (k, v)" by (cases a)
    have fresh: "k \<notin> set (dkeys ds)" using Cons.prems(1) by (auto simp: a dict_ok_def dkeys_def)
    then have "step ds (render_token k (render v)) = Inr (ds @ [(k, v)])"
      using Cons.prems(2) by (simp add: a step_render dput_new)
    then show ?case using Cons.IH [of "ds @ [(k, v)]"] Cons.prems by (simp add: a tokens_def)
  qed
  from this [of "[]"] show "renderable fs \<Longrightarrow> fold_res step [] (tokens fs) = Inr fs"
    by (simp add: renderable_def)
qed

lemma tokens_plain: "renderable fs \<Longrightarrow> list_all plain_word (tokens fs)"
  by (auto simp: tokens_def renderable_def list_all_iff render_plain)

end

section \<open>Lines\<close>

definition render_line :: "string list \<Rightarrow> string" where
  "render_line ws = py_join '' '' ws"

definition unlines :: "string list \<Rightarrow> string" where
  "unlines ls = concat (map (\<lambda>l. l @ ''\<newline>'') ls)"

lemma sep_is_space: "is_line_sep c \<Longrightarrow> is_space c"
  by (auto simp: is_line_sep_def is_space_def)

lemma set_py_join: "set (py_join sep ws) \<subseteq> set sep \<union> \<Union> (set ` set ws)"
  by (induction sep ws rule: py_join.induct) auto

lemma render_line_words: "list_all plain_word ws \<Longrightarrow> split_ws (render_line ws) = ws"
  unfolding render_line_def by (rule split_ws_join) (simp add: plain_word_def list_all_iff)

lemma space_not_sep: "\<not> is_line_sep CHR '' ''"
  by (simp add: is_line_sep_def)

lemma render_line_no_sep: "list_all plain_word ws \<Longrightarrow> list_all (\<lambda>c. \<not> is_line_sep c) (render_line ws)"
  using set_py_join [of "'' ''" ws] space_not_sep sep_is_space
  by (fastforce simp: render_line_def list_all_iff plain_word_def)

lemma unlines_lines:
  assumes "\<forall>l \<in> set ls. list_all (\<lambda>c. \<not> is_line_sep c) l"
  shows "splitlines (remove_cr (unlines ls)) = ls"
proof -
  have "remove_cr (unlines ls) = unlines ls"
    using assms
  proof (induction ls)
    case Nil
    then show ?case by (simp add: unlines_def remove_cr_def)
  next
    case (Cons l ls)
    have "remove_cr (l @ ''\<newline>'') = l @ ''\<newline>''"
      using Cons.prems remove_cr_id [of l] by (simp add: remove_cr_def)
    with Cons show ?case by (simp add: unlines_def remove_cr_def)
  qed
  moreover have "splitlines (unlines ls) = ls"
    using splitlines_unlines [of ls "[]"] assms by (simp add: unlines_def list_all_iff splitlines_def)
  ultimately show ?thesis by simp
qed

end
