(* ===== verification/PersistTrace.thy ===== *)
theory PersistTrace
  imports Markers
begin

text \<open>
  The persistence runner, \<open>resources/persistence/run-lab.py\<close>: the marker language of its traces, the
  shape of a marker stream and the checks common to all cases.  Marker fields are dictionaries as in
  the source; behind the schema check the fields of a kind are read into a record of the same names.
  Error messages keep the fixed words of the source and drop the interpolated values.
\<close>

section \<open>Constants\<close>

definition NBUF :: nat where "NBUF = 30"
definition MAXOPBLOCKS :: int where "MAXOPBLOCKS = 10"
definition P_LOGBLOCKS :: int where "P_LOGBLOCKS = 30"
definition FSSIZE :: int where "FSSIZE = 2000"
definition ROOTDEV :: int where "ROOTDEV = 1"
definition PA_ABI :: int where "PA_ABI = 1"
definition EVENT_BUDGET :: int where "EVENT_BUDGET = 512"
definition PANIC_TEXT :: string where "PANIC_TEXT = ''panic: bget: no buffers''"

definition CACHE_LOOKUP :: int where "CACHE_LOOKUP = 1"
definition CACHE_GUARD :: int where "CACHE_GUARD = 2"
definition CACHE_HIT :: int where "CACHE_HIT = 3"
definition CACHE_PUBLISH :: int where "CACHE_PUBLISH = 4"
definition CACHE_SLEEP :: int where "CACHE_SLEEP = 5"
definition CACHE_RELEASE :: int where "CACHE_RELEASE = 6"
definition CACHE_PIN :: int where "CACHE_PIN = 7"
definition CACHE_UNPIN :: int where "CACHE_UNPIN = 8"
definition LOG_WAIT_COMMIT :: int where "LOG_WAIT_COMMIT = 20"
definition LOG_WAIT_SPACE :: int where "LOG_WAIT_SPACE = 21"
definition LOG_ADMIT :: int where "LOG_ADMIT = 22"
definition LOG_END :: int where "LOG_END = 23"
definition LOG_APPEND :: int where "LOG_APPEND = 24"
definition LOG_ABSORB :: int where "LOG_ABSORB = 25"
definition LOG_PAYLOAD :: int where "LOG_PAYLOAD = 26"
definition LOG_HEADER :: int where "LOG_HEADER = 27"
definition LOG_HOME :: int where "LOG_HOME = 28"
definition LOG_CLEAR :: int where "LOG_CLEAR = 29"
definition LOG_COMMIT_DONE :: int where "LOG_COMMIT_DONE = 30"
definition IO_SUBMIT :: int where "IO_SUBMIT = 40"
definition IO_COMPLETE :: int where "IO_COMPLETE = 41"

lemmas point_defs = CACHE_LOOKUP_def CACHE_GUARD_def CACHE_HIT_def CACHE_PUBLISH_def CACHE_SLEEP_def
  CACHE_RELEASE_def CACHE_PIN_def CACHE_UNPIN_def LOG_WAIT_COMMIT_def LOG_WAIT_SPACE_def LOG_ADMIT_def
  LOG_END_def LOG_APPEND_def LOG_ABSORB_def LOG_PAYLOAD_def LOG_HEADER_def LOG_HOME_def LOG_CLEAR_def
  LOG_COMMIT_DONE_def IO_SUBMIT_def IO_COMPLETE_def

definition is_cache_point :: "int \<Rightarrow> bool" where "is_cache_point p \<longleftrightarrow> 1 \<le> p \<and> p < 9"
definition is_log_point :: "int \<Rightarrow> bool" where "is_log_point p \<longleftrightarrow> 20 \<le> p \<and> p < 31"
definition is_io_point :: "int \<Rightarrow> bool" where "is_io_point p \<longleftrightarrow> p = IO_SUBMIT \<or> p = IO_COMPLETE"
definition is_known_point :: "int \<Rightarrow> bool" where
  "is_known_point p \<longleftrightarrow> is_cache_point p \<or> is_log_point p \<or> is_io_point p"

definition CASE_RUNTIME :: "(string \<times> string \<times> int \<times> int) list" where
  "CASE_RUNTIME =
     [(''tx'', ''transaction-flow'', 1, 1),
      (''admission-empty'', ''log-capacity-empty'', 2, 2),
      (''admission-used'', ''log-capacity-used'', 3, 2),
      (''same'', ''cache-same-block'', 4, 2),
      (''collision'', ''cache-collision'', 5, 2),
      (''parallel'', ''cache-parallel'', 6, 2),
      (''cache-full'', ''cache-full'', 7, 1)]"

definition RESULT_CASES :: "string list" where
  "RESULT_CASES = [''same'', ''collision'', ''parallel'']"

definition MARKER_SCHEMAS :: "(string \<times> string list) list" where
  "MARKER_SCHEMAS =
     [(''META'', [''case'', ''abi'', ''generation'', ''count'', ''error'', ''arrived'', ''gate'', ''holders'']),
      (''EVENT'', [''generation'', ''seq'', ''point'', ''pid'', ''hart'', ''domain'', ''slot'', ''ref'', ''dev'',
         ''block'', ''buffer_generation'', ''log_n'', ''outstanding'', ''committing'', ''aux'']),
      (''BUFFER'', [''generation'', ''slot'', ''domain'', ''named'', ''ref'', ''valid'', ''disk'', ''locked'',
         ''dev'', ''block'', ''buffer_generation'']),
      (''LEDGER'', [''case'', ''generation'', ''refs'', ''locks'', ''disk'', ''log_n'', ''outstanding'',
         ''committing'', ''error'']),
      (''RESULT'', [''case'', ''block1'', ''block2'', ''pid1'', ''pid2'', ''domain1'', ''domain2'', ''expected1'',
         ''expected2'', ''value1'', ''value2'']),
      (''FULL'', [''generation'', ''holders'', ''next'']),
      (''PASS'', [''case''])]"

definition STRING_FIELDS :: "(string \<times> string) list" where
  "STRING_FIELDS = [(''META'', ''case''), (''LEDGER'', ''case''), (''RESULT'', ''case''), (''PASS'', ''case'')]"

section \<open>Markers\<close>

record marker =
  mk_kind :: string
  mk_fields :: "fval fields"
  mk_line :: string

text \<open>\<open>re.fullmatch(r"[a-z][a-z0-9-]*", raw)\<close>\<close>

definition is_lower :: "char \<Rightarrow> bool" where
  "is_lower c \<longleftrightarrow> c \<in> set ''abcdefghijklmnopqrstuvwxyz''"

definition is_label :: "string \<Rightarrow> bool" where
  "is_label raw \<longleftrightarrow> (case raw of [] \<Rightarrow> False
     | c # cs \<Rightarrow> is_lower c \<and> list_all (\<lambda>c. is_lower c \<or> is_digit c \<or> c = CHR ''-'') cs)"

definition marker_field_step :: "string \<Rightarrow> fval fields \<Rightarrow> string \<Rightarrow> fval fields result" where
  "marker_field_step kind values token =
     bind_res (require (count_list token CHR ''='' = 1) (''malformed '' @ kind @ '' field'')) (\<lambda>_.
     let (key, raw) = split_once CHR ''='' token in
     bind_res (requires
       [(key \<noteq> [] \<and> key \<notin> set (dkeys values), ''duplicate '' @ kind @ '' field''),
        (list_all (\<lambda>c. \<not> is_space c) raw, ''whitespace in '' @ kind @ '' field'')]) (\<lambda>_.
     if (kind, key) \<in> set STRING_FIELDS then
       bind_res (require (is_label raw) (''invalid string '' @ kind @ '' field'')) (\<lambda>_.
         Inr (dput key (FStr raw) values))
     else
       bind_res (require (is_int_literal raw) (''non-integer '' @ kind @ '' field'')) (\<lambda>_.
         Inr (dput key (FInt (read_int raw)) values))))"

definition parse_marker_fields :: "string \<Rightarrow> string list \<Rightarrow> fval fields result" where
  "parse_marker_fields kind tokens =
     bind_res (fold_res (marker_field_step kind) [] tokens) (\<lambda>values.
     bind_res (dget MARKER_SCHEMAS kind) (\<lambda>schema.
     bind_res (require (set (dkeys values) = set schema) (kind @ '' fields changed'')) (\<lambda>_.
       Inr values)))"

definition parse_marker_line :: "marker list \<Rightarrow> string \<Rightarrow> marker list result" where
  "parse_marker_line markers raw_line =
     (if \<not> starts_with raw_line ''PERSIST'' then Inr markers
      else
        let parts = split_ws raw_line; kind = parts ! 1 in
        bind_res (requires
          [(starts_with raw_line ''PERSIST '', ''malformed PERSIST marker prefix''),
           (3 \<le> length parts, ''malformed PERSIST marker''),
           (kind \<noteq> ''FAIL'', ''guest reported failure''),
           (kind \<in> set (dkeys MARKER_SCHEMAS), ''unknown PERSIST marker'')]) (\<lambda>_.
        bind_res (parse_marker_fields kind (drop 2 parts)) (\<lambda>values.
          Inr (markers @ [\<lparr>mk_kind = kind, mk_fields = values, mk_line = raw_line\<rparr>]))))"

definition parse_markers :: "string \<Rightarrow> marker list result" where
  "parse_markers text =
     bind_res (fold_res parse_marker_line [] (splitlines (remove_cr text))) (\<lambda>markers.
     bind_res (require (markers \<noteq> []) ''no PERSIST evidence markers found'') (\<lambda>_. Inr markers))"

definition show_fval :: "fval \<Rightarrow> string" where
  "show_fval v = (case v of FInt i \<Rightarrow> show_int i | FStr s \<Rightarrow> s)"

definition render_marker :: "string \<Rightarrow> fval fields \<Rightarrow> string" where
  "render_marker kind values =
     ''PERSIST '' @ kind @ '' '' @
     py_join '' '' (map (\<lambda>(key, value). key @ ''='' @ show_fval value) values)"

section \<open>Typed views of the fields\<close>

record event =
  ev_generation :: int
  ev_seq :: int
  ev_point :: int
  ev_pid :: int
  ev_hart :: int
  ev_domain :: int
  ev_slot :: int
  ev_ref :: int
  ev_dev :: int
  ev_block :: int
  ev_buffer_generation :: int
  ev_log_n :: int
  ev_outstanding :: int
  ev_committing :: int
  ev_aux :: int

record buffer_view =
  bv_generation :: int
  bv_slot :: int
  bv_domain :: int
  bv_named :: int
  bv_ref :: int
  bv_valid :: int
  bv_disk :: int
  bv_locked :: int
  bv_dev :: int
  bv_block :: int
  bv_buffer_generation :: int

record meta =
  me_case :: string
  me_abi :: int
  me_generation :: int
  me_count :: int
  me_error :: int
  me_arrived :: int
  me_gate :: int
  me_holders :: int

record ledger =
  le_case :: string
  le_generation :: int
  le_refs :: int
  le_locks :: int
  le_disk :: int
  le_log_n :: int
  le_outstanding :: int
  le_committing :: int
  le_error :: int

record trace_result =
  re_case :: string
  re_block1 :: int
  re_block2 :: int
  re_pid1 :: int
  re_pid2 :: int
  re_domain1 :: int
  re_domain2 :: int
  re_expected1 :: int
  re_expected2 :: int
  re_value1 :: int
  re_value2 :: int

record full_marker =
  fu_generation :: int
  fu_holders :: int
  fu_next :: int

definition event_of :: "fval fields \<Rightarrow> event" where
  "event_of f = \<lparr>ev_generation = fint f ''generation'', ev_seq = fint f ''seq'', ev_point = fint f ''point'',
     ev_pid = fint f ''pid'', ev_hart = fint f ''hart'', ev_domain = fint f ''domain'',
     ev_slot = fint f ''slot'', ev_ref = fint f ''ref'', ev_dev = fint f ''dev'', ev_block = fint f ''block'',
     ev_buffer_generation = fint f ''buffer_generation'', ev_log_n = fint f ''log_n'',
     ev_outstanding = fint f ''outstanding'', ev_committing = fint f ''committing'', ev_aux = fint f ''aux''\<rparr>"

definition buffer_of :: "fval fields \<Rightarrow> buffer_view" where
  "buffer_of f = \<lparr>bv_generation = fint f ''generation'', bv_slot = fint f ''slot'',
     bv_domain = fint f ''domain'', bv_named = fint f ''named'', bv_ref = fint f ''ref'',
     bv_valid = fint f ''valid'', bv_disk = fint f ''disk'', bv_locked = fint f ''locked'',
     bv_dev = fint f ''dev'', bv_block = fint f ''block'',
     bv_buffer_generation = fint f ''buffer_generation''\<rparr>"

definition meta_of :: "fval fields \<Rightarrow> meta" where
  "meta_of f = \<lparr>me_case = fstr f ''case'', me_abi = fint f ''abi'', me_generation = fint f ''generation'',
     me_count = fint f ''count'', me_error = fint f ''error'', me_arrived = fint f ''arrived'',
     me_gate = fint f ''gate'', me_holders = fint f ''holders''\<rparr>"

definition ledger_of :: "fval fields \<Rightarrow> ledger" where
  "ledger_of f = \<lparr>le_case = fstr f ''case'', le_generation = fint f ''generation'', le_refs = fint f ''refs'',
     le_locks = fint f ''locks'', le_disk = fint f ''disk'', le_log_n = fint f ''log_n'',
     le_outstanding = fint f ''outstanding'', le_committing = fint f ''committing'',
     le_error = fint f ''error''\<rparr>"

definition result_of :: "fval fields \<Rightarrow> trace_result" where
  "result_of f = \<lparr>re_case = fstr f ''case'', re_block1 = fint f ''block1'', re_block2 = fint f ''block2'',
     re_pid1 = fint f ''pid1'', re_pid2 = fint f ''pid2'', re_domain1 = fint f ''domain1'',
     re_domain2 = fint f ''domain2'', re_expected1 = fint f ''expected1'',
     re_expected2 = fint f ''expected2'', re_value1 = fint f ''value1'', re_value2 = fint f ''value2''\<rparr>"

definition full_of :: "fval fields \<Rightarrow> full_marker" where
  "full_of f = \<lparr>fu_generation = fint f ''generation'', fu_holders = fint f ''holders'', fu_next = fint f ''next''\<rparr>"

section \<open>The marker stream\<close>

text \<open>
  The source walks an index over the marker list; here the unread tail is passed along.
  \<open>next_marker\<close> is \<open>require(index < len(markers) and markers[index].kind == kind, message)\<close>
  followed by the increment of the index.
\<close>

definition next_marker :: "string \<Rightarrow> string \<Rightarrow> marker list \<Rightarrow> (fval fields \<times> marker list) result" where
  "next_marker kind message markers =
     (case markers of
        [] \<Rightarrow> Inl (LabError message)
      | m # rest \<Rightarrow> bind_res (require (mk_kind m = kind) message) (\<lambda>_. Inr (mk_fields m, rest)))"

definition validate_marker_stream ::
    "marker list \<Rightarrow> string \<Rightarrow> bool \<Rightarrow>
       (meta \<times> event list \<times> buffer_view list \<times> ledger \<times> trace_result option \<times> full_marker option) result" where
  "validate_marker_stream markers cas panic =
     (let result_expected = (cas \<in> set RESULT_CASES) in
      bind_res
        (if result_expected then
           (if markers = [] then Inl IndexError
            else bind_res (next_marker ''RESULT'' (cas @ '' must start with one RESULT marker'') markers)
                   (\<lambda>(f, rest). Inr (Some (result_of f), rest)))
         else Inr (None, markers)) (\<lambda>(result, rest).
      bind_res (next_marker ''META'' (cas @ '' is missing its META marker'') rest) (\<lambda>(meta_f, rest).
      let meta = meta_of meta_f;
          events = map (event_of \<circ> mk_fields) (takeWhile (\<lambda>m. mk_kind m = ''EVENT'') rest);
          rest = dropWhile (\<lambda>m. mk_kind m = ''EVENT'') rest;
          buffers = map (buffer_of \<circ> mk_fields) (takeWhile (\<lambda>m. mk_kind m = ''BUFFER'') rest);
          rest = dropWhile (\<lambda>m. mk_kind m = ''BUFFER'') rest in
      bind_res (next_marker ''LEDGER'' (cas @ '' is missing its LEDGER marker'') rest) (\<lambda>(ledger_f, rest).
      bind_res
        (if panic then
           bind_res (next_marker ''FULL'' ''cache-full is missing its panic precondition marker'' rest)
             (\<lambda>(f, rest). Inr (Some (full_of f), rest))
         else
           bind_res (next_marker ''PASS'' (cas @ '' is missing its PASS marker'') rest)
             (\<lambda>(f, rest). Inr (None, rest))) (\<lambda>(full, rest).
      bind_res (requires
        [(rest = [], cas @ '' marker stream has extra, repeated, or misordered markers''),
         ((result \<noteq> None) = result_expected, cas @ '' RESULT cardinality changed''),
         (int (length events) = me_count meta, cas @ '' META event count differs from raw EVENT count''),
         (length buffers = NBUF, cas @ '' unexpected number of BUFFER markers'')]) (\<lambda>_.
      Inr (meta, events, buffers, ledger_of ledger_f, result, full)))))))"

section \<open>Checks common to all cases\<close>

text \<open>The part of a validated scenario file that the trace checks read.\<close>

record scenarios =
  sn_event_schema_version :: int
  sn_event_budget :: int
  sn_cases :: "(string \<times> int) list"

definition scenario_for_runtime :: "scenarios \<Rightarrow> string \<Rightarrow> (string \<times> int \<times> int) result" where
  "scenario_for_runtime scenarios cas =
     bind_res (dget CASE_RUNTIME cas) (\<lambda>(scenario_id, generation, cpus).
     let by_id = foldl (\<lambda>d (i, c). dput i c d) [] (sn_cases scenarios) in
     bind_res (require (scenario_id \<in> set (dkeys by_id)) (''scenario missing for runtime case '' @ cas)) (\<lambda>_.
     bind_res (dget by_id scenario_id) (\<lambda>scenario_cpus.
     bind_res (require (scenario_cpus = cpus) (''runtime/scenario CPU mismatch for '' @ cas)) (\<lambda>_.
       Inr (scenario_id, generation, cpus)))))"

definition event_checks :: "string \<Rightarrow> int \<Rightarrow> int \<Rightarrow> event \<Rightarrow> (bool \<times> string) list" where
  "event_checks cas cpus generation e =
     [(ev_generation e = generation, cas @ '' contains an event from another run''),
      (is_known_point (ev_point e), cas @ '' contains unknown point''),
      ((if is_io_point (ev_point e) then ev_pid e \<ge> 0 else ev_pid e > 0) \<and> 0 \<le> ev_hart e \<and> ev_hart e < cpus,
       cas @ '' event actor/hart is outside the run''),
      (0 \<le> ev_log_n e \<and> ev_log_n e \<le> P_LOGBLOCKS \<and> 0 \<le> ev_outstanding e \<and> ev_outstanding e \<le> 3 \<and>
         ev_committing e \<in> {0, 1},
       cas @ '' event log state is outside its bounds'')] @
     (if is_cache_point (ev_point e) \<or> is_io_point (ev_point e) then
        [(ev_domain e \<ge> 0 \<and> ev_dev e = ROOTDEV \<and> 0 \<le> ev_block e \<and> ev_block e < FSSIZE \<and>
            (if is_io_point (ev_point e) then ev_aux e \<in> {0, 1} else ev_aux e = 0),
          cas @ '' cache subject changed''),
         (if ev_point e = CACHE_LOOKUP \<or> ev_point e = CACHE_GUARD
          then (ev_slot e = -1 \<and> ev_ref e = 0 \<and> ev_buffer_generation e = 0,
                cas @ '' unselected cache point exposes a ready slot'')
          else (0 \<le> ev_slot e \<and> ev_slot e < int NBUF \<and> ev_ref e \<ge> 0 \<and> ev_buffer_generation e > 0,
                cas @ '' cache event references an unready slot''))]
      else
        [(ev_domain e = -1 \<and> ev_slot e = -1 \<and> ev_ref e = -1 \<and> ev_dev e = ROOTDEV \<and>
            ev_buffer_generation e = 0 \<and> 0 \<le> ev_block e \<and> ev_block e < FSSIZE,
          cas @ '' log subject schema changed'')])"

definition buffer_step ::
    "string \<Rightarrow> int \<Rightarrow> (int, buffer_view) dict \<times> (int \<times> int, int \<times> int) dict \<Rightarrow> buffer_view
       \<Rightarrow> ((int, buffer_view) dict \<times> (int \<times> int, int \<times> int) dict) result" where
  "buffer_step cas generation = (\<lambda>(slots, named_keys) view.
     bind_res (requires
       [(bv_generation view = generation \<and> 0 \<le> bv_slot view \<and> bv_slot view < int NBUF \<and>
           bv_slot view \<notin> set (dkeys slots),
         cas @ '' BUFFER slot/generation changed''),
        (bv_domain view \<ge> 0 \<and> bv_named view \<in> {0, 1} \<and> bv_ref view \<ge> 0 \<and> bv_valid view \<in> {0, 1} \<and>
           bv_disk view \<in> {0, 1} \<and> bv_locked view \<in> {0, 1} \<and> bv_buffer_generation view \<ge> 0,
         cas @ '' BUFFER state is outside its closed domain'')]) (\<lambda>_.
     bind_res
       (if bv_named view \<noteq> 0 then
          let key = (bv_dev view, bv_block view) in
          bind_res (requires
            [(bv_dev view = ROOTDEV \<and> 0 \<le> bv_block view \<and> bv_block view < FSSIZE \<and>
                bv_buffer_generation view > 0,
              cas @ '' named BUFFER identity is not ready''),
             (key \<notin> set (dkeys named_keys), cas @ '' has duplicate live buffer identity'')]) (\<lambda>_.
          Inr (dput key (bv_slot view, bv_buffer_generation view) named_keys))
        else Inr named_keys) (\<lambda>named_keys.
     Inr (dput (bv_slot view) view slots, named_keys))))"

definition validate_common ::
    "string \<Rightarrow> int \<Rightarrow> int \<Rightarrow> meta \<Rightarrow> event list \<Rightarrow> buffer_view list \<Rightarrow> ledger \<Rightarrow> trace_result option
       \<Rightarrow> full_marker option \<Rightarrow> bool \<Rightarrow> scenarios
       \<Rightarrow> ((int, buffer_view) dict \<times> (int \<times> int, int \<times> int) dict) result" where
  "validate_common cas cpus generation meta events buffers ledger result full panic scenarios =
     bind_res (requires
       [(me_case meta = cas \<and> le_case ledger = cas, cas @ '' marker case labels changed''),
        (me_abi meta = sn_event_schema_version scenarios \<and> sn_event_schema_version scenarios = PA_ABI,
         cas @ '' ABI/schema mismatch''),
        (me_generation meta = le_generation ledger \<and> le_generation ledger = generation,
         cas @ '' generation changed''),
        (me_error meta = le_error ledger \<and> le_error ledger = 0, cas @ '' guest audit reported an error''),
        (0 \<le> me_count meta \<and> me_count meta \<le> sn_event_budget scenarios,
         cas @ '' event ring overflow or invalid count''),
        (if cas \<in> {''collision'', ''parallel''}
         then (me_arrived meta = 3 \<and> me_gate meta = 1,
               cas @ '' rendezvous did not observe and release both actors'')
         else (me_arrived meta = me_gate meta \<and> me_gate meta = 0,
               cas @ '' reported an unexpected gate state'')),
        (me_holders meta = (if panic then int NBUF else 0), cas @ '' holder ledger changed''),
        (map ev_seq events = map int [1..<length events + 1],
         cas @ '' EVENT seq is not unique and contiguous'')]) (\<lambda>_.
     bind_res (requires (concat (map (event_checks cas cpus generation) events))) (\<lambda>_.
     bind_res (fold_res (buffer_step cas generation) ([], []) buffers) (\<lambda>(slots, named_keys).
     bind_res (requires
       ([(set (dkeys slots) = {0..<int NBUF}, cas @ '' BUFFER snapshot does not cover all slots''),
         (le_refs ledger = sum_list (map bv_ref buffers) \<and> le_locks ledger = sum_list (map bv_locked buffers) \<and>
            le_disk ledger = sum_list (map bv_disk buffers),
          cas @ '' LEDGER does not match BUFFER snapshot''),
         ((le_log_n ledger, le_outstanding ledger, le_committing ledger) = (0, 0, 0),
          cas @ '' final transaction ledger is not quiescent'')] @
        (if panic then
           [((le_refs ledger, le_locks ledger, le_disk ledger) = (int NBUF, int NBUF, 0),
             ''cache-full pre-panic resource ledger changed''),
            (full = Some \<lparr>fu_generation = generation, fu_holders = int NBUF, fu_next = 1000 + int NBUF\<rparr>,
             ''cache-full panic precondition marker changed'')]
         else
           [((le_refs ledger, le_locks ledger, le_disk ledger) = (0, 0, 0),
             cas @ '' resources did not return to zero'')]) @
        (case result of None \<Rightarrow> [] | Some r \<Rightarrow> [(re_case r = cas, cas @ '' RESULT label changed'')]))) (\<lambda>_.
     Inr (slots, named_keys)))))"

definition event_identity :: "event \<Rightarrow> int \<times> int" where
  "event_identity e = (ev_slot e, ev_buffer_generation e)"

definition event_key :: "event \<Rightarrow> int \<times> int" where
  "event_key e = (ev_dev e, ev_block e)"

definition events_at :: "event list \<Rightarrow> int \<Rightarrow> event list" where
  "events_at events point = filter (\<lambda>e. ev_point e = point) events"

definition only_event :: "event list \<Rightarrow> int \<Rightarrow> string \<Rightarrow> event result" where
  "only_event events point cas =
     (let matches = events_at events point in
      bind_res (require (length matches = 1) (cas @ '' expected one point'')) (\<lambda>_. Inr (hd matches)))"

section \<open>Round trip of the marker language\<close>

lemma is_label_chars: "is_label s \<Longrightarrow> c \<in> set s \<Longrightarrow> is_lower c \<or> is_digit c \<or> c = CHR ''-''"
  by (auto simp: is_label_def list_all_iff split: list.splits)

lemma value_chars:
  assumes "is_lower c \<or> is_digit c \<or> c = CHR ''-''"
  shows "c \<noteq> CHR ''=''" and "\<not> is_space c"
  using assms by (auto simp: is_lower_def is_digit_def is_space_def)

definition field_ok :: "string \<Rightarrow> string \<Rightarrow> fval \<Rightarrow> bool" where
  "field_ok kind key v \<longleftrightarrow>
     plain_word key \<and> CHR ''='' \<notin> set key \<and>
     (case v of FStr s \<Rightarrow> (kind, key) \<in> set STRING_FIELDS \<and> is_label s
              | FInt i \<Rightarrow> (kind, key) \<notin> set STRING_FIELDS)"

lemma show_fval_chars:
  assumes "field_ok kind key v"
  shows "c \<in> set (show_fval v) \<Longrightarrow> c \<noteq> CHR ''=''" and "c \<in> set (show_fval v) \<Longrightarrow> \<not> is_space c"
proof -
  have "is_lower c \<or> is_digit c \<or> c = CHR ''-''" if "c \<in> set (show_fval v)"
    using assms that set_show_int is_label_chars
    by (auto simp: field_ok_def show_fval_def split: fval.splits)
  then show "c \<in> set (show_fval v) \<Longrightarrow> c \<noteq> CHR ''=''" "c \<in> set (show_fval v) \<Longrightarrow> \<not> is_space c"
    using value_chars by blast+
qed

interpretation persist: token_parser "marker_field_step kind" show_fval "field_ok kind" for kind
proof
  fix k v and d :: "fval fields"
  assume ok: "field_ok kind k v" and fresh: "k \<notin> set (dkeys d)"
  let ?t = "render_token k (show_fval v)"
  have k: "CHR ''='' \<notin> set k" "k \<noteq> []" using ok by (auto simp: field_ok_def plain_word_def)
  have "CHR ''='' \<notin> set (show_fval v)" using show_fval_chars(1) [OF ok] by blast
  then have one: "count_list ?t CHR ''='' = 1"
    using k(1) by (simp add: render_token_def count_list_0_iff [symmetric])
  have split: "split_once CHR ''='' ?t = (k, show_fval v)"
    using k(1) by (simp add: render_token_def split_once_join)
  have plain: "list_all (\<lambda>c. \<not> is_space c) (show_fval v)"
    using show_fval_chars(2) [OF ok] by (auto simp: list_all_iff)
  show "marker_field_step kind d ?t = Inr (dput k v d)"
  proof -
    have "marker_field_step kind d ?t =
        (if (kind, k) \<in> set STRING_FIELDS
         then bind_res (require (is_label (show_fval v)) (''invalid string '' @ kind @ '' field''))
                (\<lambda>_. Inr (dput k (FStr (show_fval v)) d))
         else bind_res (require (is_int_literal (show_fval v)) (''non-integer '' @ kind @ '' field''))
                (\<lambda>_. Inr (dput k (FInt (read_int (show_fval v))) d)))"
      using fresh k(2) plain one by (simp add: marker_field_step_def split)
    then show ?thesis using ok by (cases v) (simp_all add: field_ok_def show_fval_def)
  qed
next
  fix k v
  assume ok: "field_ok kind k v"
  then have "plain_word k" by (simp add: field_ok_def)
  moreover have "\<not> is_space CHR ''=''" by (simp add: is_space_def)
  moreover have "list_all (\<lambda>c. \<not> is_space c) (show_fval v)"
    using show_fval_chars(2) [OF ok] by (auto simp: list_all_iff)
  ultimately show "plain_word (render_token k (show_fval v))"
    by (simp add: plain_word_def render_token_def)
qed

text \<open>A marker that the runner can print: a known kind with exactly the fields of its schema.\<close>

definition marker_ok :: "string \<times> fval fields \<Rightarrow> bool" where
  "marker_ok = (\<lambda>(kind, values).
     kind \<in> set (dkeys MARKER_SCHEMAS) \<and> persist.renderable kind values \<and>
     map_of MARKER_SCHEMAS kind \<noteq> None \<and> set (dkeys values) = set (the (map_of MARKER_SCHEMAS kind)))"

definition marker_of :: "string \<times> fval fields \<Rightarrow> marker" where
  "marker_of = (\<lambda>(kind, values).
     \<lparr>mk_kind = kind, mk_fields = values, mk_line = render_marker kind values\<rparr>)"

lemma schema_facts:
  assumes "kind \<in> set (dkeys MARKER_SCHEMAS)"
  shows "plain_word kind" and "kind \<noteq> ''FAIL''" and "\<exists>s. map_of MARKER_SCHEMAS kind = Some s \<and> s \<noteq> []"
  using assms by (auto simp: MARKER_SCHEMAS_def dkeys_def plain_word_def is_space_def)

lemma render_marker_line:
  assumes "values \<noteq> []"
  shows "render_marker kind values = render_line (''PERSIST'' # kind # persist.tokens values)"
proof -
  have "map (\<lambda>(key, value). key @ ''='' @ show_fval value) values = persist.tokens values"
    by (simp add: persist.tokens_def render_token_def)
  moreover have "persist.tokens values \<noteq> []" using assms by (simp add: persist.tokens_def)
  ultimately show ?thesis
    by (cases "persist.tokens values") (simp_all add: render_marker_def render_line_def)
qed

lemma parse_rendered_marker:
  assumes "marker_ok m"
  shows "parse_marker_line ms (mk_line (marker_of m)) = Inr (ms @ [marker_of m])"
    and "list_all (\<lambda>c. \<not> is_line_sep c) (mk_line (marker_of m))"
proof -
  obtain kind vals where m: "m = (kind, vals)" by (cases m)
  have k: "kind \<in> set (dkeys MARKER_SCHEMAS)" and r: "persist.renderable kind vals"
    using assms by (auto simp: marker_ok_def m)
  obtain s where s: "map_of MARKER_SCHEMAS kind = Some s" "s \<noteq> []" using schema_facts(3) [OF k] by blast
  have keys: "set (dkeys vals) = set s" using assms s by (simp add: marker_ok_def m)
  then have ne: "vals \<noteq> []" using s(2) by (auto simp: dkeys_def)
  let ?ws = "''PERSIST'' # kind # persist.tokens vals"
  have plain: "list_all plain_word ?ws"
    using persist.tokens_plain [OF r] schema_facts(1) [OF k] by (simp add: plain_word_def is_space_def)
  have line: "mk_line (marker_of m) = render_line ?ws"
    using render_marker_line [OF ne] by (simp add: marker_of_def m)
  show "list_all (\<lambda>c. \<not> is_line_sep c) (mk_line (marker_of m))"
    unfolding line using plain by (rule render_line_no_sep)
  have words: "split_ws (render_line ?ws) = ?ws" using plain by (rule render_line_words)
  have pre: "starts_with (render_line ?ws) ''PERSIST ''" "starts_with (render_line ?ws) ''PERSIST''"
    by (simp_all add: render_line_def starts_with_def)
  have len: "3 \<le> length ?ws" using ne by (cases vals) (simp_all add: persist.tokens_def)
  have fields: "parse_marker_fields kind (persist.tokens vals) = Inr vals"
    using persist.parse_tokens [OF r] s keys by (simp add: parse_marker_fields_def dget_def)
  show "parse_marker_line ms (mk_line (marker_of m)) = Inr (ms @ [marker_of m])"
    unfolding line parse_marker_line_def words
    using pre len k schema_facts(2) [OF k] fields line by (simp add: Let_def marker_of_def m)
qed

lemma parse_rendered_markers:
  assumes "\<forall>m \<in> set ms. marker_ok m"
  shows "fold_res parse_marker_line acc (map (mk_line \<circ> marker_of) ms) = Inr (acc @ map marker_of ms)"
  using assms by (induction ms arbitrary: acc) (simp_all add: parse_rendered_marker)

end
