(* ===== verification/PersistCache.thy ===== *)
theory PersistCache
  imports PersistTrace
begin

text \<open>
  The buffer-cache reducer \<open>reduce_cache\<close> of \<open>resources/persistence/run-lab.py\<close>: it replays the cache
  events of a trace against a model of reference counts, log pins, sleep locks and identities.
\<close>

type_synonym identity = "int \<times> int"
type_synonym block_key = "int \<times> int"

record buf_state =
  bs_key :: block_key
  bs_domain :: int
  bs_raw :: int
  bs_ordinary :: int
  bs_pins :: int
  bs_owner :: "int option"
  bs_waiters :: "int set"
  bs_first :: int

record cache_state =
  cs_states :: "(identity, buf_state) dict"
  cs_current_slot :: "(int, identity) dict"
  cs_current_key :: "(block_key, identity) dict"
  cs_peak_total :: int
  cs_peak_by_key :: "(block_key, int) dict"
  cs_lock_acquire :: "(int \<times> block_key, int) dict"
  cs_lock_release :: "(int \<times> block_key, int) dict"
  cs_guard_events :: "event list"

definition cache_start :: cache_state where
  "cache_start = \<lparr>cs_states = [], cs_current_slot = [], cs_current_key = [], cs_peak_total = 0,
     cs_peak_by_key = [], cs_lock_acquire = [], cs_lock_release = [], cs_guard_events = []\<rparr>"

definition total_ordinary :: "cache_state \<Rightarrow> int" where
  "total_ordinary c = dsum bs_ordinary (cs_states c)"

definition remember_peak :: "buf_state \<Rightarrow> cache_state \<Rightarrow> cache_state" where
  "remember_peak state c = c\<lparr>
     cs_peak_total := max (cs_peak_total c) (total_ordinary c),
     cs_peak_by_key := dput (bs_key state)
       (max (dget_or (cs_peak_by_key c) (bs_key state) 0) (bs_ordinary state)) (cs_peak_by_key c)\<rparr>"

definition new_state :: "event \<Rightarrow> int \<Rightarrow> buf_state" where
  "new_state e refs = \<lparr>bs_key = event_key e, bs_domain = ev_domain e, bs_raw = refs, bs_ordinary = refs,
     bs_pins = 0, bs_owner = None, bs_waiters = {ev_pid e}, bs_first = ev_seq e\<rparr>"

text \<open>A new identity becomes the current one of its slot and of its key.\<close>

definition install_state :: "event \<Rightarrow> buf_state \<Rightarrow> cache_state \<Rightarrow> cache_state" where
  "install_state e state c = remember_peak state (c\<lparr>
     cs_states := dput (event_identity e) state (cs_states c),
     cs_current_slot := dput (ev_slot e) (event_identity e) (cs_current_slot c),
     cs_current_key := dput (event_key e) (event_identity e) (cs_current_key c)\<rparr>)"

definition retire_slot :: "string \<Rightarrow> cache_state \<Rightarrow> event \<Rightarrow> cache_state result" where
  "retire_slot cas c e =
     (case map_of (cs_current_slot c) (ev_slot e) of
        None \<Rightarrow> Inr c
      | Some old_identity \<Rightarrow>
          if old_identity = event_identity e then Inr c
          else
            let old = map_of (cs_states c) old_identity in
            bind_res (require
              (case old of None \<Rightarrow> True
                 | Some st \<Rightarrow> bs_raw st = 0 \<and> bs_pins st = 0 \<and> bs_owner st = None \<and> bs_waiters st = {})
              (cas @ '' retagged a referenced/pinned buffer'')) (\<lambda>_.
            let c = (case old of None \<Rightarrow> c
                       | Some st \<Rightarrow> c\<lparr>cs_current_key := dpop (bs_key st) (cs_current_key c)\<rparr>) in
            bind_res (require (snd (event_identity e) > snd old_identity)
              (cas @ '' retag did not advance generation'')) (\<lambda>_. Inr c)))"

definition cache_publish :: "string \<Rightarrow> cache_state \<Rightarrow> event \<Rightarrow> cache_state result" where
  "cache_publish cas c e =
     bind_res (require (ev_ref e = 1) (cas @ '' published buffer without exactly one reference'')) (\<lambda>_.
     bind_res (retire_slot cas c e) (\<lambda>c.
     bind_res (requires
       [(map_of (cs_current_key c) (event_key e) \<in> {None, Some (event_identity e)},
         cas @ '' published duplicate live identity''),
        (map_of (cs_states c) (event_identity e) = None,
         cas @ '' republished the same generation'')]) (\<lambda>_.
     Inr (install_state e (new_state e 1) c))))"

definition cache_hit :: "string \<Rightarrow> cache_state \<Rightarrow> event \<Rightarrow> cache_state result" where
  "cache_hit cas c e =
     bind_res (require (map_of (cs_current_key c) (event_key e) \<in> {None, Some (event_identity e)})
       (cas @ '' hit a second live identity'')) (\<lambda>_.
     (case map_of (cs_states c) (event_identity e) of
        None \<Rightarrow>
          bind_res (requires
            [(ev_ref e \<ge> 1, cas @ '' first observed hit has no reference''),
             (map_of (cs_current_slot c) (ev_slot e) \<in> {None, Some (event_identity e)},
              cas @ '' hit a slot with a conflicting generation'')]) (\<lambda>_.
          Inr (install_state e (new_state e (ev_ref e)) c))
      | Some st \<Rightarrow>
          bind_res (requires
            [(bs_key st = event_key e \<and> bs_domain st = ev_domain e,
              cas @ '' changed key/domain inside one generation''),
             (ev_ref e = bs_raw st + 1, cas @ '' cache hit ref transition changed''),
             (ev_pid e \<notin> bs_waiters st \<and> Some (ev_pid e) \<noteq> bs_owner st,
              cas @ '' duplicated an ordinary reference'')]) (\<lambda>_.
          let st = st\<lparr>bs_raw := bs_raw st + 1, bs_ordinary := bs_ordinary st + 1,
                      bs_waiters := insert (ev_pid e) (bs_waiters st)\<rparr>
          in Inr (remember_peak st (c\<lparr>cs_states := dput (event_identity e) st (cs_states c)\<rparr>)))))"

text \<open>Events on a buffer that is already known: sleep lock, release, log pin and unpin.\<close>

definition buffer_event :: "string \<Rightarrow> buf_state \<Rightarrow> event \<Rightarrow> buf_state result" where
  "buffer_event cas st e =
     (let point = ev_point e in
      if point = CACHE_SLEEP then
        bind_res (require (ev_ref e = bs_raw st \<and> ev_pid e \<in> bs_waiters st \<and> bs_owner st = None)
          (cas @ '' buffer sleeplock acquisition changed'')) (\<lambda>_.
        Inr (st\<lparr>bs_waiters := bs_waiters st - {ev_pid e}, bs_owner := Some (ev_pid e)\<rparr>))
      else if point = CACHE_RELEASE then
        bind_res (require (bs_owner st = Some (ev_pid e) \<and> bs_ordinary st > 0 \<and> ev_ref e = bs_raw st - 1)
          (cas @ '' buffer release/ref transition changed'')) (\<lambda>_.
        Inr (st\<lparr>bs_owner := None, bs_raw := bs_raw st - 1, bs_ordinary := bs_ordinary st - 1\<rparr>))
      else if point = CACHE_PIN then
        bind_res (require (bs_owner st = Some (ev_pid e) \<and> bs_pins st = 0 \<and> ev_ref e = bs_raw st + 1)
          (cas @ '' duplicate or ownerless log pin'')) (\<lambda>_.
        Inr (st\<lparr>bs_raw := bs_raw st + 1, bs_pins := 1\<rparr>))
      else if point = CACHE_UNPIN then
        bind_res (require (bs_owner st = Some (ev_pid e) \<and> bs_pins st = 1 \<and> ev_ref e = bs_raw st - 1)
          (cas @ '' unmatched log unpin'')) (\<lambda>_.
        Inr (st\<lparr>bs_raw := bs_raw st - 1, bs_pins := 0\<rparr>))
      else Inr st)"

definition note_lock :: "event \<Rightarrow> cache_state \<Rightarrow> cache_state" where
  "note_lock e c =
     (if ev_point e = CACHE_SLEEP
      then c\<lparr>cs_lock_acquire := dput (ev_pid e, event_key e) (ev_seq e) (cs_lock_acquire c)\<rparr>
      else if ev_point e = CACHE_RELEASE
      then c\<lparr>cs_lock_release := dput (ev_pid e, event_key e) (ev_seq e) (cs_lock_release c)\<rparr>
      else c)"

definition cache_use :: "string \<Rightarrow> cache_state \<Rightarrow> event \<Rightarrow> cache_state result" where
  "cache_use cas c e =
     (case map_of (cs_states c) (event_identity e) of
        None \<Rightarrow> Inl (LabError (cas @ '' event references an unready buffer identity''))
      | Some st \<Rightarrow>
          bind_res (require (bs_key st = event_key e \<and> bs_domain st = ev_domain e \<and>
              map_of (cs_current_slot c) (ev_slot e) = Some (event_identity e))
            (cas @ '' event references an unready buffer identity'')) (\<lambda>_.
          bind_res (buffer_event cas st e) (\<lambda>st.
          Inr (note_lock e (c\<lparr>cs_states := dput (event_identity e) st (cs_states c)\<rparr>)))))"

definition cache_step :: "string \<Rightarrow> cache_state \<Rightarrow> event \<Rightarrow> cache_state result" where
  "cache_step cas c e =
     (let point = ev_point e in
      if \<not> is_cache_point point then Inr c
      else if point = CACHE_LOOKUP then Inr c
      else if point = CACHE_GUARD then Inr (c\<lparr>cs_guard_events := cs_guard_events c @ [e]\<rparr>)
      else if point = CACHE_PUBLISH then cache_publish cas c e
      else if point = CACHE_HIT then cache_hit cas c e
      else cache_use cas c e)"

definition final_view_checks ::
    "string \<Rightarrow> cache_state \<Rightarrow> (int, buffer_view) dict \<Rightarrow> int \<times> identity \<Rightarrow> unit result" where
  "final_view_checks cas c final_views = (\<lambda>(slot, identity).
     bind_res (dget (cs_states c) identity) (\<lambda>st.
     bind_res (dget final_views slot) (\<lambda>view.
     require (bv_named view = 1 \<and> (bv_dev view, bv_block view) = bs_key st \<and> bv_domain view = bs_domain st \<and>
        bv_buffer_generation view = snd identity)
       (cas @ '' final BUFFER snapshot contradicts event identity''))))"

definition held_state :: "buf_state \<Rightarrow> bool" where
  "held_state st \<longleftrightarrow> bs_ordinary st = 1 \<and> bs_pins st = 0 \<and> bs_owner st \<noteq> None \<and> bs_waiters st = {}"

definition drained_state :: "buf_state \<Rightarrow> bool" where
  "drained_state st \<longleftrightarrow> bs_ordinary st = 0 \<and> bs_pins st = 0 \<and> bs_owner st = None \<and> bs_waiters st = {}"

definition reduce_cache :: "string \<Rightarrow> event list \<Rightarrow> buffer_view list \<Rightarrow> bool \<Rightarrow> cache_state result" where
  "reduce_cache cas events buffers panic =
     bind_res (fold_res (cache_step cas) cache_start events) (\<lambda>c.
     let final_views = foldl (\<lambda>d view. dput (bv_slot view) view d) [] buffers in
     bind_res (map_res (final_view_checks cas c final_views) (cs_current_slot c)) (\<lambda>_.
     bind_res
       (if panic then require (list_all held_state (dvalues (cs_states c)))
          ''cache-full event reducer did not retain 30 locked references''
        else require (list_all drained_state (dvalues (cs_states c)))
          (cas @ '' event-derived refs/pins/owners/waiters did not drain'')) (\<lambda>_.
     Inr c)))"

section \<open>The reducer invariant\<close>

text \<open>
  Reference counts split into ordinary references and at most one log pin; whoever waits for or
  holds the sleep lock has an ordinary reference, and the holder is not waiting.
\<close>

definition state_ok :: "buf_state \<Rightarrow> bool" where
  "state_ok st \<longleftrightarrow>
     bs_raw st = bs_ordinary st + bs_pins st \<and> bs_pins st \<in> {0, 1} \<and> finite (bs_waiters st) \<and>
     int (card (bs_waiters st)) + (if bs_owner st = None then 0 else 1) \<le> bs_ordinary st \<and>
     (\<forall>p. bs_owner st = Some p \<longrightarrow> p \<notin> bs_waiters st)"

text \<open>Current slots and current keys are two views of the same set of live identities.\<close>

definition live_ok :: "(identity, buf_state) dict \<Rightarrow> (int, identity) dict \<Rightarrow> (block_key, identity) dict \<Rightarrow> bool" where
  "live_ok states slots keys \<longleftrightarrow>
     (\<forall>s i. map_of slots s = Some i \<longrightarrow> fst i = s \<and>
        (\<exists>st. map_of states i = Some st \<and> map_of keys (bs_key st) = Some i)) \<and>
     (\<forall>k i. map_of keys k = Some i \<longrightarrow>
        (\<exists>st. map_of states i = Some st \<and> bs_key st = k) \<and> map_of slots (fst i) = Some i)"

lemma live_okI:
  assumes "\<And>s i. map_of slots s = Some i \<Longrightarrow> fst i = s \<and>
      (\<exists>st. map_of states i = Some st \<and> map_of keys (bs_key st) = Some i)"
    and "\<And>k i. map_of keys k = Some i \<Longrightarrow>
      (\<exists>st. map_of states i = Some st \<and> bs_key st = k) \<and> map_of slots (fst i) = Some i"
  shows "live_ok states slots keys"
  using assms by (simp add: live_ok_def)

lemma live_slotE:
  assumes "live_ok states slots keys" and "map_of slots s = Some i"
  obtains st where "fst i = s" and "map_of states i = Some st" and "map_of keys (bs_key st) = Some i"
  using assms unfolding live_ok_def by blast

lemma live_keyE:
  assumes "live_ok states slots keys" and "map_of keys k = Some i"
  obtains st where "map_of states i = Some st" and "bs_key st = k" and "map_of slots (fst i) = Some i"
  using assms unfolding live_ok_def by blast

lemma live_ok_cong:
  "map_of states = map_of states' \<Longrightarrow> map_of slots = map_of slots' \<Longrightarrow> map_of keys = map_of keys' \<Longrightarrow>
     live_ok states slots keys = live_ok states' slots' keys'"
  by (simp add: live_ok_def)

lemma live_fresh:
  assumes "live_ok states slots keys" and "map_of states i = None"
  shows "map_of keys k \<noteq> Some i" and "map_of slots s \<noteq> Some i"
  using assms live_keyE [OF assms(1), of k i] live_slotE [OF assms(1), of s i] by force+

definition cache_inv :: "cache_state \<Rightarrow> bool" where
  "cache_inv c \<longleftrightarrow>
     dict_ok (cs_states c) \<and> (\<forall>i st. map_of (cs_states c) i = Some st \<longrightarrow> state_ok st) \<and>
     live_ok (cs_states c) (cs_current_slot c) (cs_current_key c)"

lemma cache_inv_start: "cache_inv cache_start"
  by (simp add: cache_inv_def cache_start_def live_ok_def)

lemma remember_peak_fields [simp]:
  "cs_states (remember_peak st c) = cs_states c"
  "cs_current_slot (remember_peak st c) = cs_current_slot c"
  "cs_current_key (remember_peak st c) = cs_current_key c"
  by (simp_all add: remember_peak_def)

lemma note_lock_fields [simp]:
  "cs_states (note_lock e c) = cs_states c"
  "cs_current_slot (note_lock e c) = cs_current_slot c"
  "cs_current_key (note_lock e c) = cs_current_key c"
  by (simp_all add: note_lock_def)

lemma new_state_ok: "r \<ge> 1 \<Longrightarrow> state_ok (new_state e r)"
  by (simp add: state_ok_def new_state_def)

lemma new_state_key [simp]: "bs_key (new_state e r) = event_key e"
  by (simp add: new_state_def)

lemma buffer_event_ok:
  assumes "buffer_event cas st e = Inr st'" and "state_ok st"
  shows "state_ok st'" and "bs_key st' = bs_key st"
proof -
  have card: "int (card (bs_waiters st - {p})) = int (card (bs_waiters st)) - 1"
    if "p \<in> bs_waiters st" for p
  proof -
    have "0 < card (bs_waiters st)" using that assms(2) by (auto simp: state_ok_def card_gt_0_iff)
    then show ?thesis using that by (simp add: card_Diff_singleton of_nat_diff)
  qed
  show "state_ok st'" "bs_key st' = bs_key st"
    using assms card unfolding buffer_event_def state_ok_def Let_def
    by (auto simp: bind_require_eq_Inr split: if_splits)
qed

text \<open>Replacing the state of an identity by one with the same key keeps the live identities.\<close>

lemma live_ok_same_key:
  assumes "live_ok states slots keys" and "map_of states i = Some st" and "bs_key st' = bs_key st"
  shows "live_ok (dput i st' states) slots keys"
proof (rule live_okI)
  fix s j
  assume "map_of slots s = Some j"
  with assms show "fst j = s \<and> (\<exists>st. map_of (dput i st' states) j = Some st \<and> map_of keys (bs_key st) = Some j)"
    by (auto elim: live_slotE)
next
  fix k j
  assume "map_of keys k = Some j"
  with assms show "(\<exists>st. map_of (dput i st' states) j = Some st \<and> bs_key st = k) \<and> map_of slots (fst j) = Some j"
    by (auto elim: live_keyE)
qed

lemma live_ok_install:
  assumes "live_ok states slots keys" and "map_of states i = None" and "map_of keys k = None"
    and "map_of slots (fst i) = None" and "bs_key st = k"
  shows "live_ok (dput i st states) (dput (fst i) i slots) (dput k i keys)"
proof (rule live_okI)
  fix s j
  assume "map_of (dput (fst i) i slots) s = Some j"
  then consider "s = fst i" "j = i" | "s \<noteq> fst i" "map_of slots s = Some j" by (auto split: if_splits)
  then show "fst j = s \<and> (\<exists>st'. map_of (dput i st states) j = Some st' \<and> map_of (dput k i keys) (bs_key st') = Some j)"
  proof cases
    case 1
    then show ?thesis using assms(5) by auto
  next
    case 2
    from assms(1) 2(2) obtain st' where st': "fst j = s" "map_of states j = Some st'" "map_of keys (bs_key st') = Some j"
      by (rule live_slotE)
    then have "bs_key st' \<noteq> k" "j \<noteq> i" using assms(2,3) by auto
    then show ?thesis using st' by auto
  qed
next
  fix k' j
  assume "map_of (dput k i keys) k' = Some j"
  then consider "k' = k" "j = i" | "k' \<noteq> k" "map_of keys k' = Some j" by (auto split: if_splits)
  then show "(\<exists>st'. map_of (dput i st states) j = Some st' \<and> bs_key st' = k') \<and>
      map_of (dput (fst i) i slots) (fst j) = Some j"
  proof cases
    case 1
    then show ?thesis using assms(5) by auto
  next
    case 2
    from assms(1) 2(2) obtain st' where st': "map_of states j = Some st'" "bs_key st' = k'" "map_of slots (fst j) = Some j"
      by (rule live_keyE)
    then have "j \<noteq> i" "fst j \<noteq> fst i" using assms(2,4) by auto
    then show ?thesis using st' by auto
  qed
qed

lemma live_ok_retire:
  assumes "live_ok states slots keys" and "map_of slots s = Some i" and "map_of states i = Some st"
  shows "live_ok states (dpop s slots) (dpop (bs_key st) keys)"
proof -
  have key: "map_of keys (bs_key st) = Some i" and s: "fst i = s"
    using assms by (auto elim: live_slotE)
  show ?thesis
  proof (rule live_okI)
    fix t j
    assume "map_of (dpop s slots) t = Some j"
    then have t: "t \<noteq> s" "map_of slots t = Some j" by (auto split: if_splits)
    from assms(1) t(2) obtain st' where st': "fst j = t" "map_of states j = Some st'" "map_of keys (bs_key st') = Some j"
      by (rule live_slotE)
    have "bs_key st' \<noteq> bs_key st" using st' key t(1) s by auto
    then show "fst j = t \<and> (\<exists>st'. map_of states j = Some st' \<and> map_of (dpop (bs_key st) keys) (bs_key st') = Some j)"
      using st' by auto
  next
    fix k j
    assume "map_of (dpop (bs_key st) keys) k = Some j"
    then have k: "k \<noteq> bs_key st" "map_of keys k = Some j" by (auto split: if_splits)
    from assms(1) k(2) obtain st' where st': "map_of states j = Some st'" "bs_key st' = k" "map_of slots (fst j) = Some j"
      by (rule live_keyE)
    have "fst j \<noteq> s" using st' assms(2,3) k(1) by auto
    then show "(\<exists>st'. map_of states j = Some st' \<and> bs_key st' = k) \<and> map_of (dpop s slots) (fst j) = Some j"
      using st' by auto
  qed
qed

lemma cache_publish_inv:
  assumes "cache_publish cas c e = Inr c'" and inv: "cache_inv c"
  shows "cache_inv c'" and "map_of (cs_states c) (event_identity e) = None"
    and "cs_states c' = dput (event_identity e) (new_state e 1) (cs_states c)"
proof -
  let ?i = "event_identity e" and ?k = "event_key e"
  obtain c1 where ret: "retire_slot cas c e = Inr c1"
    and dup: "map_of (cs_current_key c1) ?k \<in> {None, Some ?i}" and new: "map_of (cs_states c1) ?i = None"
    and c': "c' = install_state e (new_state e 1) c1"
    using assms(1) by (auto simp: cache_publish_def result_simps)
  have st1: "cs_states c1 = cs_states c" and sl1: "cs_current_slot c1 = cs_current_slot c"
    using ret by (auto simp: retire_slot_def result_simps Let_def split: option.splits if_splits)
  have new0: "map_of (cs_states c) ?i = None" using new st1 by simp
  have L: "live_ok (cs_states c) (cs_current_slot c) (cs_current_key c)" using inv by (simp add: cache_inv_def)
  have fi: "fst ?i = ev_slot e" by (simp add: event_identity_def)
  have nokey: "map_of (cs_current_key c1) ?k = None"
    and live: "live_ok (cs_states c) (dpop (ev_slot e) (cs_current_slot c)) (cs_current_key c1)"
  proof -
    show live: "live_ok (cs_states c) (dpop (ev_slot e) (cs_current_slot c)) (cs_current_key c1)"
    proof (cases "map_of (cs_current_slot c) (ev_slot e)")
      case None
      then have "c1 = c" using ret by (simp add: retire_slot_def)
      moreover have "map_of (dpop (ev_slot e) (cs_current_slot c)) = map_of (cs_current_slot c)"
        using None by auto
      ultimately show ?thesis using L live_ok_cong by metis
    next
      case (Some old)
      from L this obtain st where st: "map_of (cs_states c) old = Some st" by (rule live_slotE)
      have "old \<noteq> ?i" using st new0 by auto
      then have "cs_current_key c1 = dpop (bs_key st) (cs_current_key c)"
        using ret Some st by (auto simp: retire_slot_def result_simps Let_def)
      then show ?thesis using live_ok_retire [OF L Some st] by simp
    qed
    show "map_of (cs_current_key c1) ?k = None"
      using dup live_fresh(1) [OF live new0] by auto
  qed
  let ?keys = "dput ?k ?i (cs_current_key c1)"
  have "live_ok (dput ?i (new_state e 1) (cs_states c)) (dput (fst ?i) ?i (dpop (ev_slot e) (cs_current_slot c))) ?keys"
    by (rule live_ok_install [OF live new0 nokey]) (simp_all add: fi)
  moreover have "map_of (dput (fst ?i) ?i (dpop (ev_slot e) (cs_current_slot c))) = map_of (dput (ev_slot e) ?i (cs_current_slot c))"
    by (simp add: fi)
  ultimately have "live_ok (dput ?i (new_state e 1) (cs_states c)) (dput (ev_slot e) ?i (cs_current_slot c)) ?keys"
    using live_ok_cong by blast
  then show "cache_inv c'"
    using inv new_state_ok [of 1 e] by (auto simp: cache_inv_def c' install_state_def st1 sl1 split: if_splits)
  show "map_of (cs_states c) (event_identity e) = None" by (rule new0)
  show "cs_states c' = dput (event_identity e) (new_state e 1) (cs_states c)"
    by (simp add: c' install_state_def st1)
qed

lemma cache_hit_inv:
  assumes "cache_hit cas c e = Inr c'" and inv: "cache_inv c"
  shows "cache_inv c'"
    and "\<exists>st. cs_states c' = dput (event_identity e) st (cs_states c) \<and>
      (case map_of (cs_states c) (event_identity e) of
         None \<Rightarrow> bs_owner st = None \<and> bs_pins st = 0
       | Some old \<Rightarrow> bs_owner st = bs_owner old \<and> bs_pins st = bs_pins old)"
proof -
  let ?i = "event_identity e" and ?k = "event_key e"
  have L: "live_ok (cs_states c) (cs_current_slot c) (cs_current_key c)"
    and S: "dict_ok (cs_states c)" "\<And>i st. map_of (cs_states c) i = Some st \<Longrightarrow> state_ok st"
    using inv by (auto simp: cache_inv_def)
  have fi: "fst ?i = ev_slot e" by (simp add: event_identity_def)
  have "cache_inv c' \<and> (\<exists>st. cs_states c' = dput ?i st (cs_states c) \<and>
      (case map_of (cs_states c) ?i of
         None \<Rightarrow> bs_owner st = None \<and> bs_pins st = 0
       | Some old \<Rightarrow> bs_owner st = bs_owner old \<and> bs_pins st = bs_pins old))"
  proof (cases "map_of (cs_states c) ?i")
    case None
    then have dup: "map_of (cs_current_key c) ?k \<in> {None, Some ?i}" and r: "ev_ref e \<ge> 1"
      and slot: "map_of (cs_current_slot c) (ev_slot e) \<in> {None, Some ?i}"
      and c': "c' = install_state e (new_state e (ev_ref e)) c"
      using assms(1) by (auto simp: cache_hit_def result_simps)
    have "map_of (cs_current_key c) ?k = None" "map_of (cs_current_slot c) (fst ?i) = None"
      using dup slot live_fresh [OF L None] by (auto simp: fi)
    then have "live_ok (dput ?i (new_state e (ev_ref e)) (cs_states c)) (dput (ev_slot e) ?i (cs_current_slot c))
        (dput ?k ?i (cs_current_key c))"
      using live_ok_install [OF L None, of ?k "new_state e (ev_ref e)"] by (simp add: fi)
    then show ?thesis
      using S new_state_ok [OF r, of e] None
      by (auto simp: cache_inv_def c' install_state_def new_state_def split: if_splits)
  next
    case (Some st)
    define st' where "st' = st\<lparr>bs_raw := bs_raw st + 1, bs_ordinary := bs_ordinary st + 1,
        bs_waiters := insert (ev_pid e) (bs_waiters st)\<rparr>"
    have w: "ev_pid e \<notin> bs_waiters st" "Some (ev_pid e) \<noteq> bs_owner st"
      and c': "c' = remember_peak st' (c\<lparr>cs_states := dput ?i st' (cs_states c)\<rparr>)"
      using assms(1) Some by (auto simp: cache_hit_def result_simps st'_def Let_def)
    have "state_ok st'" using S(2) [OF Some] w by (auto simp: state_ok_def st'_def)
    moreover have "live_ok (dput ?i st' (cs_states c)) (cs_current_slot c) (cs_current_key c)"
      by (rule live_ok_same_key [OF L Some]) (simp add: st'_def)
    moreover have "bs_owner st' = bs_owner st" "bs_pins st' = bs_pins st" by (simp_all add: st'_def)
    ultimately show ?thesis using S Some by (auto simp: cache_inv_def c' split: if_splits)
  qed
  then show "cache_inv c'"
    and "\<exists>st. cs_states c' = dput (event_identity e) st (cs_states c) \<and>
      (case map_of (cs_states c) (event_identity e) of
         None \<Rightarrow> bs_owner st = None \<and> bs_pins st = 0
       | Some old \<Rightarrow> bs_owner st = bs_owner old \<and> bs_pins st = bs_pins old)" by blast+
qed

lemma cache_use_inv:
  assumes "cache_use cas c e = Inr c'" and inv: "cache_inv c"
  shows "cache_inv c'"
    and "\<exists>st st'. map_of (cs_states c) (event_identity e) = Some st \<and> buffer_event cas st e = Inr st' \<and>
      cs_states c' = dput (event_identity e) st' (cs_states c)"
proof -
  let ?i = "event_identity e"
  obtain st st' where st: "map_of (cs_states c) ?i = Some st" and be: "buffer_event cas st e = Inr st'"
    and c': "c' = note_lock e (c\<lparr>cs_states := dput ?i st' (cs_states c)\<rparr>)"
    using assms(1) by (auto simp: cache_use_def result_simps split: option.splits)
  have L: "live_ok (cs_states c) (cs_current_slot c) (cs_current_key c)"
    and S: "dict_ok (cs_states c)" "\<And>i st. map_of (cs_states c) i = Some st \<Longrightarrow> state_ok st"
    using inv by (auto simp: cache_inv_def)
  note ok = buffer_event_ok [OF be S(2) [OF st]]
  show "cache_inv c'"
    using S ok(1) live_ok_same_key [OF L st ok(2)] by (auto simp: cache_inv_def c' split: if_splits)
  show "\<exists>st st'. map_of (cs_states c) ?i = Some st \<and> buffer_event cas st e = Inr st' \<and>
      cs_states c' = dput ?i st' (cs_states c)"
    using st be by (auto simp: c')
qed

lemma cache_step_cases:
  assumes "cache_step cas c e = Inr c'"
  obtains (skip) "cs_states c' = cs_states c" "cs_current_slot c' = cs_current_slot c"
      "cs_current_key c' = cs_current_key c" "\<not> is_cache_point (ev_point e) \<or> ev_point e \<in> {CACHE_LOOKUP, CACHE_GUARD}"
  | (publish) "ev_point e = CACHE_PUBLISH" "cache_publish cas c e = Inr c'"
  | (hit) "ev_point e = CACHE_HIT" "cache_hit cas c e = Inr c'"
  | (uses) "ev_point e \<notin> {CACHE_LOOKUP, CACHE_GUARD, CACHE_PUBLISH, CACHE_HIT}" "cache_use cas c e = Inr c'"
  using assms unfolding cache_step_def Let_def by (auto split: if_splits)

interpretation cache: reducer "cache_step cas" cache_inv for cas
proof
  fix s e t
  assume "cache_step cas s e = Inr t" and "cache_inv s"
  then show "cache_inv t"
    by (cases rule: cache_step_cases)
      (auto simp: cache_inv_def dest: cache_publish_inv(1) cache_hit_inv(1) cache_use_inv(1))
qed

section \<open>Balances\<close>

definition owners :: "cache_state \<Rightarrow> int" where
  "owners c = dsum (\<lambda>st. if bs_owner st = None then 0 else 1) (cs_states c)"

definition pins :: "cache_state \<Rightarrow> int" where
  "pins c = dsum bs_pins (cs_states c)"

definition lock_weight :: "event \<Rightarrow> int" where
  "lock_weight e = (if ev_point e = CACHE_SLEEP then 1 else if ev_point e = CACHE_RELEASE then -1 else 0)"

definition pin_weight :: "event \<Rightarrow> int" where
  "pin_weight e = (if ev_point e = CACHE_PIN then 1 else if ev_point e = CACHE_UNPIN then -1 else 0)"

lemma buffer_event_weights:
  assumes "buffer_event cas st e = Inr st'"
  shows "(if bs_owner st' = None then 0 else 1) - (if bs_owner st = None then 0 else 1) = lock_weight e"
    and "bs_pins st' - bs_pins st = pin_weight e"
  using assms unfolding buffer_event_def lock_weight_def pin_weight_def Let_def
  by (auto simp: bind_require_eq_Inr point_defs split: if_splits)

lemma cache_step_balance:
  assumes "cache_step cas c e = Inr c'" and inv: "cache_inv c"
  shows "owners c' = owners c + lock_weight e" and "pins c' = pins c + pin_weight e"
proof -
  have ok: "dict_ok (cs_states c)" using inv by (simp add: cache_inv_def)
  note sum = dsum_dput [OF ok]
  show "owners c' = owners c + lock_weight e" "pins c' = pins c + pin_weight e"
    using assms(1)
  proof (atomize (full), cases rule: cache_step_cases)
    case skip
    then show "owners c' = owners c + lock_weight e \<and> pins c' = pins c + pin_weight e"
      by (auto simp: owners_def pins_def lock_weight_def pin_weight_def is_cache_point_def point_defs)
  next
    case publish
    from cache_publish_inv(2,3) [OF publish(2) inv] publish(1)
    show "owners c' = owners c + lock_weight e \<and> pins c' = pins c + pin_weight e"
      by (simp add: owners_def pins_def sum new_state_def lock_weight_def pin_weight_def point_defs)
  next
    case hit
    from cache_hit_inv(2) [OF hit(2) inv] hit(1)
    show "owners c' = owners c + lock_weight e \<and> pins c' = pins c + pin_weight e"
      by (auto simp: owners_def pins_def sum lock_weight_def pin_weight_def point_defs split: option.splits)
  next
    case uses
    from cache_use_inv(2) [OF uses(2) inv] obtain st st' where
      "map_of (cs_states c) (event_identity e) = Some st" "buffer_event cas st e = Inr st'"
      "cs_states c' = dput (event_identity e) st' (cs_states c)" by blast
    with buffer_event_weights [OF this(2)]
    show "owners c' = owners c + lock_weight e \<and> pins c' = pins c + pin_weight e"
      by (simp add: owners_def pins_def sum)
  qed
qed

interpretation cache_locks: counting_reducer "cache_step cas" cache_inv owners lock_weight for cas
  by unfold_locales (rule cache_step_balance(1))

interpretation cache_pins: counting_reducer "cache_step cas" cache_inv pins pin_weight for cas
  by unfold_locales (rule cache_step_balance(2))

section \<open>Mutual exclusion\<close>

definition owner_of :: "cache_state \<Rightarrow> identity \<Rightarrow> int option" where
  "owner_of c i = (case map_of (cs_states c) i of None \<Rightarrow> None | Some st \<Rightarrow> bs_owner st)"

text \<open>What one event does to the holder of a buffer lock.\<close>

lemma cache_step_owner:
  assumes "cache_step cas c e = Inr c'" and inv: "cache_inv c" and "owner_of c i = Some p"
  shows "owner_of c' i = Some p \<or>
    ev_point e = CACHE_RELEASE \<and> event_identity e = i \<and> ev_pid e = p"
    and "ev_point e = CACHE_SLEEP \<Longrightarrow> event_identity e \<noteq> i"
proof -
  have "(owner_of c' i = Some p \<or> ev_point e = CACHE_RELEASE \<and> event_identity e = i \<and> ev_pid e = p) \<and>
      (ev_point e = CACHE_SLEEP \<longrightarrow> event_identity e \<noteq> i)"
    using assms(1)
  proof (cases rule: cache_step_cases)
    case skip
    then show ?thesis using assms(3) by (auto simp: owner_of_def is_cache_point_def point_defs)
  next
    case publish
    from cache_publish_inv(2,3) [OF publish(2) inv] publish(1) assms(3)
    show ?thesis by (auto simp: owner_of_def point_defs split: option.splits)
  next
    case hit
    from cache_hit_inv(2) [OF hit(2) inv] hit(1) assms(3)
    show ?thesis by (auto simp: owner_of_def point_defs split: option.splits if_splits)
  next
    case uses
    from cache_use_inv(2) [OF uses(2) inv] obtain st st' where
      "map_of (cs_states c) (event_identity e) = Some st" "buffer_event cas st e = Inr st'"
      "cs_states c' = dput (event_identity e) st' (cs_states c)" by blast
    with assms(3) show ?thesis
      by (auto simp: owner_of_def buffer_event_def result_simps Let_def point_defs split: option.splits if_splits)
  qed
  then show "owner_of c' i = Some p \<or> ev_point e = CACHE_RELEASE \<and> event_identity e = i \<and> ev_pid e = p"
    and "ev_point e = CACHE_SLEEP \<Longrightarrow> event_identity e \<noteq> i" by blast+
qed

lemma cache_step_acquires:
  assumes "cache_step cas c e = Inr c'" and "cache_inv c" and "ev_point e = CACHE_SLEEP"
  shows "owner_of c' (event_identity e) = Some (ev_pid e)"
  using assms(1)
proof (cases rule: cache_step_cases)
  case uses
  from cache_use_inv(2) [OF uses(2) assms(2)] assms(3) show ?thesis
    by (auto simp: owner_of_def buffer_event_def result_simps Let_def)
qed (use assms(3) in \<open>auto simp: is_cache_point_def point_defs\<close>)

lemma lock_held_until_release:
  "fold_res (cache_step cas) c ms = Inr c' \<Longrightarrow> cache_inv c \<Longrightarrow> owner_of c i = Some p \<Longrightarrow>
     owner_of c' i = Some p \<or> (\<exists>r \<in> set ms. ev_point r = CACHE_RELEASE \<and> event_identity r = i \<and> ev_pid r = p)"
proof (induction ms arbitrary: c)
  case Nil
  then show ?case by simp
next
  case (Cons m ms)
  from Cons.prems(1) obtain d where d: "cache_step cas c m = Inr d" "fold_res (cache_step cas) d ms = Inr c'"
    by (auto elim: bind_res_InrE)
  have "cache_inv d" using cache.step_inv [OF d(1) Cons.prems(2)] .
  with Cons.IH [OF d(2)] cache_step_owner(1) [OF d(1) Cons.prems(2,3)] show ?case by auto
qed

lemma lock_exclusive:
  assumes run: "fold_res (cache_step cas) cache_start (es @ a # ms @ b # fs) = Inr c"
    and "ev_point a = CACHE_SLEEP" and "ev_point b = CACHE_SLEEP" and "event_identity a = event_identity b"
  shows "\<exists>r \<in> set ms. ev_point r = CACHE_RELEASE \<and> event_identity r = event_identity a \<and> ev_pid r = ev_pid a"
proof -
  from run obtain c1 c2 c3 c4 where
    1: "fold_res (cache_step cas) cache_start es = Inr c1" and 2: "cache_step cas c1 a = Inr c2" and
    3: "fold_res (cache_step cas) c2 ms = Inr c3" and 4: "cache_step cas c3 b = Inr c4"
    by (auto simp: fold_res_append result_simps)
  have i1: "cache_inv c1" using cache.run_inv [OF 1 cache_inv_start] .
  have i2: "cache_inv c2" using cache.step_inv [OF 2 i1] .
  have i3: "cache_inv c3" using cache.run_inv [OF 3 i2] .
  have "owner_of c2 (event_identity a) = Some (ev_pid a)" using cache_step_acquires [OF 2 i1 assms(2)] .
  from lock_held_until_release [OF 3 i2 this] show ?thesis
    using cache_step_owner(2) [OF 4 i3 _ assms(3)] assms(4) by metis
qed

end
