(* ===== verification/PersistLog.thy ===== *)
theory PersistLog
  imports PersistCache
begin

text \<open>
  The log reducer \<open>reduce_log\<close> of \<open>resources/persistence/run-lab.py\<close>: it replays the log and disk
  events of a trace against a model of the log header, the admitted operations and the requests in
  flight.
\<close>

type_synonym io_identity = "int \<times> int \<times> int \<times> int \<times> int"

record log_state =
  ls_n :: int
  ls_outstanding :: int
  ls_committing :: int
  ls_entries :: "int set"
  ls_completion :: "event list"
  ls_write_completions :: "event list"
  ls_events :: "event list"
  ls_inflight :: "(io_identity, int) dict"
  ls_submitted :: "(int, int) dict"
  ls_completed :: "(int, int) dict"

definition log_start :: log_state where
  "log_start = \<lparr>ls_n = 0, ls_outstanding = 0, ls_committing = 0, ls_entries = {}, ls_completion = [],
     ls_write_completions = [], ls_events = [], ls_inflight = [], ls_submitted = [(0, 0), (1, 0)],
     ls_completed = [(0, 0), (1, 0)]\<rparr>"

definition event_log_state :: "event \<Rightarrow> int \<times> int \<times> int" where
  "event_log_state e = (ev_log_n e, ev_outstanding e, ev_committing e)"

definition log_triple :: "log_state \<Rightarrow> int \<times> int \<times> int" where
  "log_triple s = (ls_n s, ls_outstanding s, ls_committing s)"

definition io_identity_of :: "event \<Rightarrow> io_identity" where
  "io_identity_of e = (ev_slot e, ev_buffer_generation e, ev_dev e, ev_block e, ev_aux e)"

definition bump :: "int \<Rightarrow> (int, int) dict \<Rightarrow> (int, int) dict result" where
  "bump key d = bind_res (dget d key) (\<lambda>v. Inr (dput key (v + 1) d))"

definition io_step :: "string \<Rightarrow> log_state \<Rightarrow> event \<Rightarrow> log_state result" where
  "io_step cas s e =
     bind_res (require (event_log_state e = log_triple s) (cas @ '' IO event carries stale log state'')) (\<lambda>_.
     let i = io_identity_of e in
     if ev_point e = IO_SUBMIT then
       bind_res (bump (ev_aux e) (ls_submitted s)) (\<lambda>submitted.
       Inr (s\<lparr>ls_inflight := dput i (dget_or (ls_inflight s) i 0 + 1) (ls_inflight s),
              ls_submitted := submitted\<rparr>))
     else
       bind_res (require (dget_or (ls_inflight s) i 0 > 0) (cas @ '' IO completion lacks a matching submit'')) (\<lambda>_.
       bind_res (bump (ev_aux e) (ls_completed s)) (\<lambda>completed.
       Inr (s\<lparr>ls_inflight := dput i (dget_or (ls_inflight s) i 0 - 1) (ls_inflight s),
              ls_completed := completed,
              ls_write_completions :=
                (if ev_aux e = 1 then ls_write_completions s @ [e] else ls_write_completions s)\<rparr>))))"

definition log_point_step :: "string \<Rightarrow> log_state \<Rightarrow> event \<Rightarrow> log_state result" where
  "log_point_step cas s e =
     (let point = ev_point e; n = ev_log_n e; outstanding = ev_outstanding e; committing = ev_committing e in
      if point = LOG_WAIT_COMMIT then
        bind_res (require ((n, outstanding, committing) = (ls_n s, ls_outstanding s, 1))
          (cas @ '' invalid commit wait/recheck state'')) (\<lambda>_. Inr s)
      else if point = LOG_WAIT_SPACE then
        bind_res (require ((n, outstanding, committing) = (ls_n s, ls_outstanding s, 0) \<and>
            n + (outstanding + 1) * MAXOPBLOCKS > P_LOGBLOCKS)
          (cas @ '' space wait did not cross the admission bound'')) (\<lambda>_. Inr s)
      else if point = LOG_ADMIT then
        bind_res (require (n = ls_n s \<and> committing = 0 \<and> outstanding = ls_outstanding s + 1 \<and>
            n + outstanding * MAXOPBLOCKS \<le> P_LOGBLOCKS)
          (cas @ '' successful admission violated capacity'')) (\<lambda>_.
        Inr (s\<lparr>ls_outstanding := outstanding\<rparr>))
      else if point = LOG_END then
        bind_res (require (n = ls_n s \<and> outstanding = ls_outstanding s - 1 \<and> ev_aux e \<in> {0, 1})
          (cas @ '' end_op outstanding transition changed'')) (\<lambda>_.
        bind_res
          (if ev_aux e \<noteq> 0 then require (outstanding = 0 \<and> committing = 1)
             (cas @ '' group commit did not start at last end_op'')
           else require (committing = 0) (cas @ '' non-last end_op started a commit'')) (\<lambda>_.
        Inr (s\<lparr>ls_outstanding := outstanding, ls_committing := committing\<rparr>)))
      else if point = LOG_APPEND then
        bind_res (require (ev_block e \<notin> ls_entries s \<and> n = ls_n s + 1 \<and> outstanding = ls_outstanding s \<and>
            committing = ls_committing s \<and> ls_committing s = 0)
          (cas @ '' log append/absorption state changed'')) (\<lambda>_.
        Inr (s\<lparr>ls_entries := insert (ev_block e) (ls_entries s), ls_n := n\<rparr>))
      else if point = LOG_ABSORB then
        bind_res (require (ev_block e \<in> ls_entries s \<and> (n, outstanding, committing) = log_triple s)
          (cas @ '' absorption added or changed a log entry'')) (\<lambda>_. Inr s)
      else if point = LOG_PAYLOAD \<or> point = LOG_HEADER \<or> point = LOG_HOME then
        bind_res (require ((n, outstanding, committing) = log_triple s \<and> committing = 1 \<and> n > 0)
          (cas @ '' completion occurred outside group commit'')) (\<lambda>_.
        bind_res
          (if point = LOG_HEADER then require (ev_aux e = n) (cas @ '' nonzero header completion changed'')
           else Inr ()) (\<lambda>_.
        Inr (s\<lparr>ls_completion := ls_completion s @ [e]\<rparr>)))
      else if point = LOG_CLEAR then
        bind_res (require (ls_n s > 0 \<and> n = 0 \<and> outstanding = 0 \<and> committing = ls_committing s \<and>
            ls_committing s = 1 \<and> ev_aux e = 0)
          (cas @ '' zero-header clear transition changed'')) (\<lambda>_.
        Inr (s\<lparr>ls_n := 0, ls_entries := {}, ls_completion := ls_completion s @ [e]\<rparr>))
      else if point = LOG_COMMIT_DONE then
        bind_res (require (log_triple s = (0, 0, 1) \<and> (n, outstanding, committing) = (0, 0, 0))
          (cas @ '' committing cleared before zero header'')) (\<lambda>_.
        Inr (s\<lparr>ls_committing := 0\<rparr>))
      else Inl (LabError (cas @ '' unknown log point'')))"

definition log_step :: "string \<Rightarrow> log_state \<Rightarrow> event \<Rightarrow> log_state result" where
  "log_step cas s e =
     (if is_cache_point (ev_point e) then
        bind_res (require (event_log_state e = log_triple s) (cas @ '' cache event carries stale log state''))
          (\<lambda>_. Inr s)
      else if is_io_point (ev_point e) then io_step cas s e
      else log_point_step cas (s\<lparr>ls_events := ls_events s @ [e]\<rparr>) e)"

record log_summary =
  lg_events :: "event list"
  lg_completion :: "event list"
  lg_logical_io_submitted :: int
  lg_logical_io_completed :: int
  lg_read_io_submitted :: int
  lg_read_io_completed :: int
  lg_write_completions :: "event list"

definition reduce_log :: "string \<Rightarrow> event list \<Rightarrow> log_summary result" where
  "reduce_log cas events =
     bind_res (fold_res (log_step cas) log_start events) (\<lambda>s.
     bind_res (requires
       [(log_triple s = (0, 0, 0), cas @ '' event-derived log ledger did not drain''),
        (list_all (\<lambda>v. v = 0) (dvalues (ls_inflight s)) \<and> ls_submitted s = ls_completed s,
         cas @ '' IO submit/completion ledger did not drain'')]) (\<lambda>_.
     Inr \<lparr>lg_events = ls_events s, lg_completion = ls_completion s,
          lg_logical_io_submitted = dget_or (ls_submitted s) 1 0,
          lg_logical_io_completed = dget_or (ls_completed s) 1 0,
          lg_read_io_submitted = dget_or (ls_submitted s) 0 0,
          lg_read_io_completed = dget_or (ls_completed s) 0 0,
          lg_write_completions = ls_write_completions s\<rparr>))"

section \<open>Case distinction on a log event\<close>

lemma log_point_step_cases:
  assumes "log_point_step cas s e = Inr t"
  obtains (wait) "ev_point e = LOG_WAIT_COMMIT \<or> ev_point e = LOG_WAIT_SPACE \<or> ev_point e = LOG_ABSORB" "t = s"
  | (admit) "ev_point e = LOG_ADMIT" "ev_log_n e = ls_n s" "ev_committing e = 0"
      "ev_outstanding e = ls_outstanding s + 1"
      "ev_log_n e + ev_outstanding e * MAXOPBLOCKS \<le> P_LOGBLOCKS" "t = s\<lparr>ls_outstanding := ev_outstanding e\<rparr>"
  | (finish) "ev_point e = LOG_END" "ev_outstanding e = ls_outstanding s - 1" "ev_committing e \<in> {0, 1}"
      "ev_committing e = 1 \<longrightarrow> ev_outstanding e = 0"
      "t = s\<lparr>ls_outstanding := ev_outstanding e, ls_committing := ev_committing e\<rparr>"
  | (append) "ev_point e = LOG_APPEND" "ev_block e \<notin> ls_entries s" "ev_log_n e = ls_n s + 1" "ls_committing s = 0"
      "t = s\<lparr>ls_entries := insert (ev_block e) (ls_entries s), ls_n := ev_log_n e\<rparr>"
  | (complete) "ev_point e = LOG_PAYLOAD \<or> ev_point e = LOG_HEADER \<or> ev_point e = LOG_HOME"
      "ls_committing s = 1" "ls_n s > 0" "t = s\<lparr>ls_completion := ls_completion s @ [e]\<rparr>"
  | (clear) "ev_point e = LOG_CLEAR" "ls_committing s = 1" "ls_n s > 0"
      "t = s\<lparr>ls_n := 0, ls_entries := {}, ls_completion := ls_completion s @ [e]\<rparr>"
  | (finished) "ev_point e = LOG_COMMIT_DONE" "log_triple s = (0, 0, 1)" "t = s\<lparr>ls_committing := 0\<rparr>"
proof -
  have body: "log_point_step cas s e = Inr t" by fact
  consider "ev_point e = LOG_WAIT_COMMIT \<or> ev_point e = LOG_WAIT_SPACE \<or> ev_point e = LOG_ABSORB"
    | "ev_point e = LOG_ADMIT" | "ev_point e = LOG_END" | "ev_point e = LOG_APPEND"
    | "ev_point e = LOG_PAYLOAD \<or> ev_point e = LOG_HEADER \<or> ev_point e = LOG_HOME"
    | "ev_point e = LOG_CLEAR" | "ev_point e = LOG_COMMIT_DONE"
    | "ev_point e \<notin> {LOG_WAIT_COMMIT, LOG_WAIT_SPACE, LOG_ADMIT, LOG_END, LOG_APPEND, LOG_ABSORB, LOG_PAYLOAD,
        LOG_HEADER, LOG_HOME, LOG_CLEAR, LOG_COMMIT_DONE}" by blast
  then show thesis
  proof cases
    case 1
    with body have "t = s" unfolding log_point_step_def Let_def by (auto simp: result_simps point_defs split: if_splits)
    with 1 show ?thesis by (rule wait)
  next
    case 2
    with body show ?thesis unfolding log_point_step_def Let_def
      by (intro admit) (auto simp: result_simps point_defs)
  next
    case 3
    with body show ?thesis unfolding log_point_step_def Let_def
      by (intro finish) (auto simp: result_simps point_defs split: if_splits)
  next
    case 4
    with body show ?thesis unfolding log_point_step_def Let_def
      by (intro append) (auto simp: result_simps point_defs)
  next
    case 5
    with body show ?thesis unfolding log_point_step_def Let_def
      by (intro complete) (auto simp: result_simps point_defs log_triple_def split: if_splits)
  next
    case 6
    with body show ?thesis unfolding log_point_step_def Let_def
      by (intro clear) (auto simp: result_simps point_defs)
  next
    case 7
    with body show ?thesis unfolding log_point_step_def Let_def
      by (intro finished) (auto simp: result_simps point_defs)
  next
    case 8
    then have "log_point_step cas s e = Inl (LabError (cas @ '' unknown log point''))"
      by (simp add: log_point_step_def Let_def)
    with body show ?thesis by simp
  qed
qed

section \<open>The reducer invariant\<close>

text \<open>
  The header count is the number of logged blocks, no request count is negative and the two
  request counters keep their two keys.
\<close>

definition inflight_ok :: "(io_identity, int) dict \<Rightarrow> bool" where
  "inflight_ok d \<longleftrightarrow> dict_ok d \<and> (\<forall>i. dget_or d i 0 \<ge> 0)"

definition two_counters :: "(int, int) dict \<Rightarrow> bool" where
  "two_counters d \<longleftrightarrow> (\<exists>a b. d = [(0, a), (1, b)])"

definition log_inv :: "log_state \<Rightarrow> bool" where
  "log_inv s \<longleftrightarrow>
     finite (ls_entries s) \<and> ls_n s = int (card (ls_entries s)) \<and> ls_committing s \<in> {0, 1} \<and>
     inflight_ok (ls_inflight s) \<and> two_counters (ls_submitted s) \<and> two_counters (ls_completed s)"

lemma log_inv_start: "log_inv log_start"
  by (simp add: log_inv_def log_start_def inflight_ok_def two_counters_def dget_or_def)

lemma inflight_ok_dput: "inflight_ok d \<Longrightarrow> v \<ge> 0 \<Longrightarrow> inflight_ok (dput i v d)"
  by (simp add: inflight_ok_def dget_or_def)

lemma inflight_nonneg: "inflight_ok d \<Longrightarrow> dget_or d i 0 \<ge> 0"
  unfolding inflight_ok_def by blast

lemma bump_counters:
  assumes "bump k d = Inr d'" and "two_counters d"
  shows "two_counters d'" and "k = 0 \<or> k = 1"
    and "dget_or d' x 0 = dget_or d x 0 + (if x = k then 1 else 0)"
  using assms by (auto simp: bump_def dget_def dget_or_def dput_def two_counters_def result_simps
      split: if_splits option.splits)

lemma log_point_step_inv:
  assumes "log_point_step cas s e = Inr t" and "log_inv s"
  shows "log_inv t"
  using assms(1) by (cases rule: log_point_step_cases) (use assms(2) in \<open>auto simp: log_inv_def\<close>)

lemma io_step_cases:
  assumes "io_step cas s e = Inr t"
  obtains (submit) submitted where "ev_point e = IO_SUBMIT" "bump (ev_aux e) (ls_submitted s) = Inr submitted"
      "t = s\<lparr>ls_inflight := dput (io_identity_of e) (dget_or (ls_inflight s) (io_identity_of e) 0 + 1) (ls_inflight s),
             ls_submitted := submitted\<rparr>"
  | (complete) completed where "ev_point e \<noteq> IO_SUBMIT" "bump (ev_aux e) (ls_completed s) = Inr completed"
      "dget_or (ls_inflight s) (io_identity_of e) 0 > 0"
      "t = s\<lparr>ls_inflight := dput (io_identity_of e) (dget_or (ls_inflight s) (io_identity_of e) 0 - 1) (ls_inflight s),
             ls_completed := completed,
             ls_write_completions :=
               (if ev_aux e = 1 then ls_write_completions s @ [e] else ls_write_completions s)\<rparr>"
proof (cases "ev_point e = IO_SUBMIT")
  case True
  with assms submit show ?thesis unfolding io_step_def Let_def by (simp add: result_simps) blast
next
  case False
  with assms complete show ?thesis unfolding io_step_def Let_def by (simp add: result_simps) blast
qed

lemma io_step_inv:
  assumes "io_step cas s e = Inr t" and "log_inv s"
  shows "log_inv t"
  using assms(1)
proof (cases rule: io_step_cases)
  case (submit d)
  have "inflight_ok (ls_inflight s)" using assms(2) by (simp add: log_inv_def)
  with inflight_nonneg [OF this, of "io_identity_of e"] submit bump_counters(1) [OF submit(2)] assms(2) show ?thesis
    by (simp add: log_inv_def inflight_ok_dput)
next
  case (complete d)
  with bump_counters(1) [OF complete(2)] assms(2) show ?thesis
    by (simp add: log_inv_def inflight_ok_dput)
qed

interpretation log: reducer "log_step cas" log_inv for cas
proof
  fix s e t
  assume step: "log_step cas s e = Inr t" and inv: "log_inv s"
  have "log_inv (s\<lparr>ls_events := ls_events s @ [e]\<rparr>)" using inv by (simp add: log_inv_def)
  with step inv show "log_inv t"
    unfolding log_step_def
    by (cases "is_cache_point (ev_point e)"; cases "is_io_point (ev_point e)")
      (simp_all add: result_simps log_point_step_inv io_step_inv)
qed

section \<open>Balances\<close>

definition op_weight :: "event \<Rightarrow> int" where
  "op_weight e = (if ev_point e = LOG_ADMIT then 1 else if ev_point e = LOG_END then -1 else 0)"

definition io_weight :: "io_identity \<Rightarrow> event \<Rightarrow> int" where
  "io_weight i e =
     (if io_identity_of e \<noteq> i then 0
      else if ev_point e = IO_SUBMIT then 1 else if ev_point e = IO_COMPLETE then -1 else 0)"

lemma log_step_cases:
  assumes "log_step cas s e = Inr t"
  obtains (cache) "is_cache_point (ev_point e)" "t = s"
  | (io) "is_io_point (ev_point e)" "io_step cas s e = Inr t"
  | (log) "\<not> is_cache_point (ev_point e)" "\<not> is_io_point (ev_point e)"
      "log_point_step cas (s\<lparr>ls_events := ls_events s @ [e]\<rparr>) e = Inr t"
  using assms unfolding log_step_def
  by (cases "is_cache_point (ev_point e)"; cases "is_io_point (ev_point e)") (auto simp: result_simps)

lemma log_step_ops:
  assumes "log_step cas s e = Inr t"
  shows "ls_outstanding t = ls_outstanding s + op_weight e"
  using assms
proof (cases rule: log_step_cases)
  case cache
  then show ?thesis by (auto simp: op_weight_def is_cache_point_def point_defs)
next
  case io
  from io(2) show ?thesis
    by (cases rule: io_step_cases) (use io(1) in \<open>auto simp: op_weight_def is_io_point_def point_defs\<close>)
next
  case log
  from log(3) show ?thesis
    by (cases rule: log_point_step_cases) (auto simp: op_weight_def point_defs)
qed

lemma log_step_inflight:
  assumes "log_step cas s e = Inr t"
  shows "dget_or (ls_inflight t) i 0 = dget_or (ls_inflight s) i 0 + io_weight i e"
  using assms
proof (cases rule: log_step_cases)
  case cache
  then show ?thesis by (auto simp: io_weight_def is_cache_point_def point_defs)
next
  case io
  from io(2) show ?thesis
    by (cases rule: io_step_cases) (use io(1) in \<open>auto simp: io_weight_def is_io_point_def dget_or_def point_defs\<close>)
next
  case log
  then have w: "io_weight i e = 0" by (auto simp: io_weight_def is_io_point_def)
  from log(3) show ?thesis
    by (cases rule: log_point_step_cases) (simp_all add: w)
qed

interpretation log_ops: counting_reducer "log_step cas" log_inv ls_outstanding op_weight for cas
  by unfold_locales (rule log_step_ops)

interpretation log_io: counting_reducer "log_step cas" log_inv "\<lambda>s. dget_or (ls_inflight s) i 0" "io_weight i" for cas i
  by unfold_locales (rule log_step_inflight)

text \<open>The recorded write completions are the completions of the trace, in order.\<close>

definition is_write_completion :: "event \<Rightarrow> bool" where
  "is_write_completion e \<longleftrightarrow> ev_point e = IO_COMPLETE \<and> ev_aux e = 1"

lemma log_step_writes:
  assumes "log_step cas s e = Inr t"
  shows "ls_write_completions t = ls_write_completions s @ (if is_write_completion e then [e] else [])"
  using assms
proof (cases rule: log_step_cases)
  case cache
  then show ?thesis by (auto simp: is_write_completion_def is_cache_point_def point_defs)
next
  case io
  from io(2) show ?thesis
    by (cases rule: io_step_cases) (use io(1) in \<open>auto simp: is_write_completion_def is_io_point_def point_defs\<close>)
next
  case log
  then have w: "\<not> is_write_completion e" by (auto simp: is_write_completion_def is_io_point_def)
  from log(3) show ?thesis
    by (cases rule: log_point_step_cases) (simp_all add: w)
qed

lemma log_run_writes:
  "fold_res (log_step cas) s es = Inr t \<Longrightarrow>
     ls_write_completions t = ls_write_completions s @ filter is_write_completion es"
proof (induction es arbitrary: s)
  case Nil
  then show ?case by simp
next
  case (Cons e es)
  then obtain u where "log_step cas s e = Inr u" "fold_res (log_step cas) u es = Inr t"
    by (auto elim: bind_res_InrE)
  with Cons.IH log_step_writes show ?case by fastforce
qed

text \<open>An operation is admitted only while the blocks it may need still fit.\<close>

lemma admit_capacity:
  assumes s: "fold_res (log_step cas) log_start es = Inr s" and u: "log_step cas s e = Inr u"
    and "ev_point e = LOG_ADMIT"
  shows "ev_log_n e + 10 * (sum_list (map op_weight es) + 1) \<le> 30"
proof -
  have ops: "ls_outstanding s = sum_list (map op_weight es)"
    using log_ops.run_balance [OF s log_inv_start] by (simp add: log_start_def)
  have "\<not> is_cache_point (ev_point e)" "\<not> is_io_point (ev_point e)"
    using assms(3) by (auto simp: is_cache_point_def is_io_point_def point_defs)
  then have "log_point_step cas (s\<lparr>ls_events := ls_events s @ [e]\<rparr>) e = Inr u"
    using u by (simp add: log_step_def)
  then have "ev_log_n e + (ls_outstanding s + 1) * MAXOPBLOCKS \<le> P_LOGBLOCKS"
    by (cases rule: log_point_step_cases) (use assms(3) in \<open>auto simp: point_defs\<close>)
  then show ?thesis using ops by (simp add: MAXOPBLOCKS_def P_LOGBLOCKS_def)
qed

lemma reduce_log_run:
  assumes "reduce_log cas events = Inr r"
  obtains s where "fold_res (log_step cas) log_start events = Inr s" and "log_triple s = (0, 0, 0)"
    and "\<And>i. dget_or (ls_inflight s) i 0 = 0" and "lg_write_completions r = filter is_write_completion events"
proof -
  from assms obtain s where s: "fold_res (log_step cas) log_start events = Inr s" "log_triple s = (0, 0, 0)"
    "list_all (\<lambda>v. v = 0) (dvalues (ls_inflight s))" "lg_write_completions r = ls_write_completions s"
    by (auto simp: reduce_log_def result_simps)
  have "dget_or (ls_inflight s) i 0 = 0" for i
    using s(3) by (auto simp: dget_or_def dvalues_def list_all_iff split: option.splits dest!: map_of_SomeD)
  with s that log_run_writes [OF s(1)] show ?thesis by (simp add: log_start_def)
qed

end
