(* ===== verification/PersistCases.thy ===== *)
theory PersistCases
  imports PersistLog
begin

text \<open>
  The per-case oracles of \<open>resources/persistence/run-lab.py\<close> and the validation of a whole transcript,
  \<open>validate_case_trace\<close>.
\<close>

datatype case_summary =
    TxSummary int int int int int int identity
  | AdmissionSummary int int int int int string
  | SameSummary int identity int int
  | CollisionSummary "int \<times> int" int "identity \<times> identity" "int \<times> int" "int list" int
  | ParallelSummary "int \<times> int" "int \<times> int" "int \<times> int" "int \<times> int" "identity \<times> identity"
  | FullSummary int int int int

section \<open>Transaction flow\<close>

definition validate_transaction :: "event list \<Rightarrow> cache_state \<Rightarrow> log_summary \<Rightarrow> case_summary result" where
  "validate_transaction events cache log =
     bind_res (only_event events LOG_ADMIT ''tx'') (\<lambda>admit.
     bind_res (only_event events LOG_END ''tx'') (\<lambda>finish.
     bind_res (only_event events CACHE_PIN ''tx'') (\<lambda>pin.
     bind_res (only_event events LOG_APPEND ''tx'') (\<lambda>append_ev.
     bind_res (only_event events LOG_ABSORB ''tx'') (\<lambda>absorb.
     bind_res (only_event events LOG_PAYLOAD ''tx'') (\<lambda>payload.
     bind_res (only_event events LOG_HEADER ''tx'') (\<lambda>header.
     bind_res (only_event events LOG_HOME ''tx'') (\<lambda>home.
     bind_res (only_event events CACHE_UNPIN ''tx'') (\<lambda>unpin.
     bind_res (only_event events LOG_CLEAR ''tx'') (\<lambda>clear.
     bind_res (only_event events LOG_COMMIT_DONE ''tx'') (\<lambda>completed.
     let identity = event_identity pin; writes = lg_write_completions log in
     bind_res (requires
       [(events_at events LOG_WAIT_SPACE = [] \<and> events_at events LOG_WAIT_COMMIT = [],
         ''tx unexpectedly waited for log admission''),
        (ev_block append_ev = ev_block absorb \<and> ev_block absorb = ev_block payload \<and>
           ev_block payload = ev_block home \<and> ev_block home = 1990,
         ''tx home block or absorption identity changed''),
        (event_key pin = event_key unpin \<and> event_key unpin = (ROOTDEV, 1990) \<and>
           event_identity pin = event_identity unpin,
         ''tx pin/unpin identity changed''),
        (ev_block header = ev_block clear \<and> ev_block clear > 0 \<and>
           ev_log_n header = ev_aux header \<and> ev_aux header = 1 \<and> ev_log_n clear = ev_aux clear \<and> ev_aux clear = 0,
         ''tx nonzero/zero header contract changed''),
        (sorted_wrt (<) (map ev_seq [admit, pin, append_ev, absorb, finish, payload, header, home, unpin, clear, completed]),
         ''tx cached/logged/committed/installed/cleared order changed''),
        ((ev_outstanding finish, ev_committing finish, ev_aux finish) = (0, 1, 1) \<and>
           (ev_log_n completed, ev_outstanding completed, ev_committing completed) = (0, 0, 0),
         ''tx group commit boundary changed''),
        (case map_of (cs_states cache) identity of None \<Rightarrow> False | Some st \<Rightarrow> bs_pins st = 0,
         ''tx pin ledger was not independently balanced''),
        (lg_logical_io_submitted log = lg_logical_io_completed log \<and> lg_logical_io_completed log = 4,
         ''tx expected four synchronous write completions''),
        (length writes = 4 \<and>
           map ev_block writes = [ev_block header + 1, ev_block header, ev_block home, ev_block clear] \<and>
           map (\<lambda>e. ev_seq e + 1) writes = [ev_seq payload, ev_seq header, ev_seq home, ev_seq clear],
         ''tx write completions are not bound to payload/header/home/clear''),
        (event_identity (writes ! 1) = event_identity (writes ! 3) \<and> event_identity (writes ! 2) = identity,
         ''tx header/home write completion identity changed'')]) (\<lambda>_.
     Inr (TxSummary (ev_seq append_ev) (ev_seq absorb) (ev_seq payload) (ev_seq header) (ev_seq home)
            (ev_seq clear) identity)))))))))))))"

section \<open>Admission\<close>

definition first_admits :: "event list \<Rightarrow> (int, event) dict" where
  "first_admits admits =
     foldl (\<lambda>d e. if ev_pid e \<in> set (dkeys d) then d else dput (ev_pid e) e d) [] admits"

definition primary_end :: "string \<Rightarrow> event list \<Rightarrow> event \<Rightarrow> event result" where
  "primary_end cas ends admit =
     (let matches = filter (\<lambda>e. ev_pid e = ev_pid admit \<and> ev_seq e > ev_seq admit) ends in
      bind_res (require (matches \<noteq> []) (cas @ '' actor did not close its admitted operation'')) (\<lambda>_.
      Inr (hd matches)))"

definition validate_admission :: "string \<Rightarrow> event list \<Rightarrow> case_summary result" where
  "validate_admission cas events =
     (let admits = events_at events LOG_ADMIT;
          waits = events_at events LOG_WAIT_SPACE;
          ends = events_at events LOG_END in
      bind_res (require (length waits = 1) (cas @ '' expected one real capacity wait'')) (\<lambda>_.
      let wait = hd waits;
          primary = sort_key ev_seq (dvalues (first_admits admits)) in
      bind_res (map_res (primary_end cas ends) primary) (\<lambda>primary_ends.
      let before = filter (\<lambda>e. ev_seq e < ev_seq wait) primary;
          after = filter (\<lambda>e. ev_seq e > ev_seq wait) primary;
          appends = events_at events LOG_APPEND in
      bind_res
        (if cas = ''admission-empty'' then
           bind_res (requires
             [(length primary = 4, ''admission-empty actor ledger changed''),
              (length before = 3 \<and> length after = 1 \<and> card (set (map ev_pid before)) = 3 \<and>
                 ev_pid wait \<notin> set (map ev_pid before) \<and> ev_pid (hd after) = ev_pid wait,
               ''admission-empty did not admit three, wait fourth, then re-admit''),
              ((ev_log_n wait, ev_outstanding wait) = (0, 3) \<and>
                 list_ex (\<lambda>e. ev_seq wait < ev_seq e \<and> ev_seq e < ev_seq (hd after)) primary_ends,
               ''admission-empty wait/release order changed'')]) (\<lambda>_. Inr ''0 + (3 + 1) * 10 > 30'')
         else
           bind_res (requires
             [(cas = ''admission-used'' \<and> length primary = 3, ''admission-used actor ledger changed''),
              (length appends = 1 \<and> ev_block (hd appends) = 1988 \<and> ev_log_n (hd appends) = 1,
               ''admission-used did not hold one existing log entry''),
              (length before = 2 \<and> length after = 1 \<and> ev_pid wait \<notin> set (map ev_pid before) \<and>
                 ev_pid (hd after) = ev_pid wait \<and>
                 ev_seq (hd appends) < ev_seq (before ! 1) \<and> ev_seq (before ! 1) < ev_seq wait,
               ''admission-used wait actor/order changed''),
              ((ev_log_n wait, ev_outstanding wait) = (1, 2) \<and>
                 list_ex (\<lambda>e. ev_seq wait < ev_seq e \<and> ev_seq e < ev_seq (hd after)) primary_ends,
               ''admission-used wait/release state changed'')]) (\<lambda>_. Inr ''1 + (2 + 1) * 10 > 30'')) (\<lambda>relation.
      bind_res (require (events_at events LOG_COMMIT_DONE \<noteq> []) (cas @ '' did not close its group transaction'')) (\<lambda>_.
      Inr (AdmissionSummary (int (length primary)) (int (length admits) - int (length primary)) (ev_pid wait)
             (ev_seq wait) (ev_seq (hd after)) relation))))))"

section \<open>Cache cases\<close>

definition validate_result_values :: "string \<Rightarrow> trace_result \<Rightarrow> unit result" where
  "validate_result_values cas r = requires
     [(re_pid1 r > 0 \<and> re_pid2 r > 0 \<and> re_pid1 r \<noteq> re_pid2 r, cas @ '' actor identities changed''),
      (list_all (\<lambda>v. 0 \<le> v \<and> v \<le> 255) [re_expected1 r, re_expected2 r, re_value1 r, re_value2 r] \<and>
         re_value1 r = re_expected1 r \<and> re_value2 r = re_expected2 r,
       cas @ '' block contents mixed or changed'')]"

definition identity_for_key :: "cache_state \<Rightarrow> block_key \<Rightarrow> identity result" where
  "identity_for_key cache key =
     (let identities = map fst (filter (\<lambda>(i, st). bs_key st = key) (cs_states cache)) in
      bind_res (require (length identities = 1) ''key did not retain exactly one generation in the case'') (\<lambda>_.
      Inr (hd identities)))"

definition validate_same :: "trace_result \<Rightarrow> event list \<Rightarrow> cache_state \<Rightarrow> case_summary result" where
  "validate_same r events cache =
     bind_res (validate_result_values ''same'' r) (\<lambda>_.
     bind_res (require (re_block1 r = re_block2 r \<and> re_block2 r = 1989 \<and> re_domain1 r = re_domain2 r \<and>
         re_expected1 r = re_expected2 r) ''same-block discovery/result changed'') (\<lambda>_.
     let key = (ROOTDEV, 1989) in
     bind_res (identity_for_key cache key) (\<lambda>identity.
     let p1 = re_pid1 r; p2 = re_pid2 r;
         hits2 = filter (\<lambda>e. ev_pid e = p2 \<and> event_key e = key) (events_at events CACHE_HIT) in
     (case (map_of (cs_lock_acquire cache) (p1, key), map_of (cs_lock_acquire cache) (p2, key),
            map_of (cs_lock_release cache) (p1, key), map_of (cs_lock_release cache) (p2, key)) of
        (Some acquire1, Some acquire2, Some release1, Some release2) \<Rightarrow>
          bind_res (requires
            [(length hits2 = 1 \<and> ev_ref (hd hits2) = 2, ''same-block lock/ref evidence is incomplete''),
             (acquire1 < ev_seq (hd hits2) \<and> ev_seq (hd hits2) < release1 \<and> release1 < acquire2 \<and> acquire2 < release2,
              ''same-block waiter acquired before the first owner released''),
             (map_of (cs_peak_by_key cache) key = Some 2, ''same-block peak ordinary references changed'')]) (\<lambda>_.
          Inr (SameSummary 1989 identity release1 acquire2))
      | _ \<Rightarrow> Inl (LabError ''same-block lock/ref evidence is incomplete'')))))"

definition lock_times :: "cache_state \<Rightarrow> int \<times> block_key \<Rightarrow> (int \<times> int) result" where
  "lock_times cache pk =
     (case (map_of (cs_lock_acquire cache) pk, map_of (cs_lock_release cache) pk) of
        (Some acquire, Some release) \<Rightarrow> Inr (acquire, release)
      | _ \<Rightarrow> Inl (LabError ''collision actor did not acquire and release its buffer''))"

definition validate_collision :: "trace_result \<Rightarrow> cache_state \<Rightarrow> meta \<Rightarrow> case_summary result" where
  "validate_collision r cache meta =
     bind_res (validate_result_values ''collision'' r) (\<lambda>_.
     bind_res (require (re_block1 r \<noteq> re_block2 r \<and> re_domain1 r = re_domain2 r \<and> re_expected1 r \<noteq> re_expected2 r)
       ''collision discovery no longer selects distinct same-partition data'') (\<lambda>_.
     let key1 = (ROOTDEV, re_block1 r); key2 = (ROOTDEV, re_block2 r) in
     bind_res (identity_for_key cache key1) (\<lambda>identity1.
     bind_res (identity_for_key cache key2) (\<lambda>identity2.
     bind_res (require (identity1 \<noteq> identity2) ''collision mapped two blocks to one live identity'') (\<lambda>_.
     bind_res (map_res (lock_times cache) [(re_pid1 r, key1), (re_pid2 r, key2)]) (\<lambda>times.
     let acquisitions = map fst times; releases = map snd times in
     bind_res (require (me_arrived meta = 3 \<and> me_gate meta = 1 \<and>
         Max (set acquisitions) < Min (set releases))
       ''collision did not hold both distinct identities concurrently'') (\<lambda>_.
     Inr (CollisionSummary (re_block1 r, re_block2 r) (re_domain1 r) (identity1, identity2)
            (re_value1 r, re_value2 r) acquisitions (Min (set releases))))))))))"

definition validate_parallel :: "trace_result \<Rightarrow> event list \<Rightarrow> cache_state \<Rightarrow> meta \<Rightarrow> case_summary result" where
  "validate_parallel r events cache meta =
     bind_res (validate_result_values ''parallel'' r) (\<lambda>_.
     bind_res (require (re_block1 r \<noteq> re_block2 r \<and> re_domain1 r \<noteq> re_domain2 r \<and> re_expected1 r \<noteq> re_expected2 r)
       ''parallel discovery no longer selects distinct partitions/data'') (\<lambda>_.
     let relevant = foldl (\<lambda>d e. dput (ev_pid e) e d) []
           (filter (\<lambda>e. ev_pid e \<in> {re_pid1 r, re_pid2 r}) (cs_guard_events cache)) in
     bind_res (require (set (dkeys relevant) = {re_pid1 r, re_pid2 r}) ''parallel gate lacks one actor arrival'') (\<lambda>_.
     bind_res (dget relevant (re_pid1 r)) (\<lambda>left.
     bind_res (dget relevant (re_pid2 r)) (\<lambda>right.
     let post_guard = map ev_seq (filter (\<lambda>e. ev_pid e \<in> set (dkeys relevant) \<and>
           (ev_point e = CACHE_HIT \<or> ev_point e = CACHE_PUBLISH)) events);
         key1 = (ROOTDEV, re_block1 r); key2 = (ROOTDEV, re_block2 r) in
     bind_res (requires
       [(ev_domain left = re_domain1 r \<and> ev_domain right = re_domain2 r \<and> ev_hart left \<noteq> ev_hart right \<and>
           {ev_hart left, ev_hart right} = {0, 1} \<and> me_arrived meta = 3 \<and> me_gate meta = 1,
         ''parallel bounded two-hart gate did not prove lock-held overlap''),
        (2 \<le> length post_guard \<and> Min (set post_guard) > max (ev_seq left) (ev_seq right),
         ''parallel actors passed selection before both gate arrivals'')]) (\<lambda>_.
     bind_res (identity_for_key cache key1) (\<lambda>identity1.
     bind_res (identity_for_key cache key2) (\<lambda>identity2.
     Inr (ParallelSummary (re_block1 r, re_block2 r) (re_domain1 r, re_domain2 r) (ev_hart left, ev_hart right)
            (ev_seq left, ev_seq right) (identity1, identity2))))))))))"

definition validate_full ::
    "string \<Rightarrow> event list \<Rightarrow> buffer_view list \<Rightarrow> cache_state \<Rightarrow> meta \<Rightarrow> ledger \<Rightarrow> full_marker option
       \<Rightarrow> case_summary result" where
  "validate_full text events buffers cache meta ledger full =
     (let held = foldl (\<lambda>d view. dput (bv_dev view, bv_block view) view d) []
            (filter (\<lambda>view. bv_ref view \<noteq> 0 \<or> bv_locked view \<noteq> 0) buffers);
          expected = set (map (\<lambda>b. (ROOTDEV, 1000 + int b)) [0..<NBUF]);
          sleeps = events_at events CACHE_SLEEP in
      bind_res (requires
        [(count_sub PANIC_TEXT text = 1, ''cache-full did not produce exactly one expected panic''),
         (\<not> contains text ''PERSIST PASS'' \<and> \<not> contains text ''PERSIST FAIL'',
          ''cache-full emitted a terminal guest result after/before panic''),
         (set (dkeys held) = expected \<and>
            list_all (\<lambda>view. bv_ref view = bv_locked view \<and> bv_locked view = 1 \<and> bv_disk view = 0) (dvalues held),
          ''cache-full snapshot is not exactly 30 held read-only buffers''),
         (length sleeps = NBUF \<and> card (set (map ev_pid sleeps)) = NBUF \<and> set (map event_key sleeps) = expected,
          ''cache-full did not acquire 30 distinct holder buffers''),
         (length (cs_states cache) = NBUF \<and> me_holders meta = int NBUF \<and>
            (le_refs ledger, le_locks ledger, le_disk ledger) = (int NBUF, int NBUF, 0),
          ''cache-full reducer precondition changed'')]) (\<lambda>_.
      (case full of
         None \<Rightarrow> Inl TypeError
       | Some f \<Rightarrow> Inr (FullSummary (fu_next f) (le_refs ledger) (le_locks ledger) (le_disk ledger)))))"

section \<open>A whole transcript\<close>

record ledger_summary =
  lx_ordinary_refs_plus_pins :: int
  lx_buffer_locks :: int
  lx_disk_owned :: int
  lx_log_n :: int
  lx_outstanding :: int
  lx_committing :: int
  lx_gate_waiters :: int
  lx_event_overflow :: int
  lx_logical_io_submitted :: int
  lx_logical_io_completed :: int

record evidence_bundle =
  eb_case :: string
  eb_generation :: int
  eb_cpus :: int
  eb_raw :: string
  eb_markers :: "marker list"
  eb_meta :: meta
  eb_events :: "event list"
  eb_buffers :: "buffer_view list"
  eb_ledger :: ledger
  eb_result :: "trace_result option"
  eb_full :: "full_marker option"
  eb_summary :: case_summary
  eb_ledger_summary :: ledger_summary

definition some_result :: "trace_result option \<Rightarrow> trace_result result" where
  "some_result r = (case r of None \<Rightarrow> Inl TypeError | Some x \<Rightarrow> Inr x)"

definition case_oracle ::
    "string \<Rightarrow> string \<Rightarrow> meta \<Rightarrow> event list \<Rightarrow> buffer_view list \<Rightarrow> ledger \<Rightarrow> trace_result option
       \<Rightarrow> full_marker option \<Rightarrow> cache_state \<Rightarrow> log_summary \<Rightarrow> case_summary result" where
  "case_oracle text cas meta events buffers ledger result full cache log =
     (if cas = ''tx'' then validate_transaction events cache log
      else if cas = ''admission-empty'' \<or> cas = ''admission-used'' then validate_admission cas events
      else if cas = ''same'' then bind_res (some_result result) (\<lambda>r. validate_same r events cache)
      else if cas = ''collision'' then bind_res (some_result result) (\<lambda>r. validate_collision r cache meta)
      else if cas = ''parallel'' then bind_res (some_result result) (\<lambda>r. validate_parallel r events cache meta)
      else validate_full text events buffers cache meta ledger full)"

definition validate_case_trace :: "string \<Rightarrow> string \<Rightarrow> scenarios \<Rightarrow> bool \<Rightarrow> evidence_bundle result" where
  "validate_case_trace text cas scenarios panic =
     bind_res (requires
       [(cas \<in> set (dkeys CASE_RUNTIME), ''unknown runtime case''),
        (panic = (cas = ''cache-full''), ''panic parsing is reserved for cache-full'')]) (\<lambda>_.
     bind_res (scenario_for_runtime scenarios cas) (\<lambda>(scenario, generation, cpus).
     bind_res (parse_markers text) (\<lambda>markers.
     bind_res (validate_marker_stream markers cas panic) (\<lambda>(meta, events, buffers, ledger, result, full).
     bind_res (require (if panic then mk_kind (last markers) = ''FULL''
                        else mk_fields (last markers) = [(''case'', FStr cas)])
       (cas @ '' terminal marker changed'')) (\<lambda>_.
     bind_res (validate_common cas cpus generation meta events buffers ledger result full panic scenarios) (\<lambda>_.
     bind_res (reduce_cache cas events buffers panic) (\<lambda>cache.
     bind_res (reduce_log cas events) (\<lambda>log.
     bind_res (case_oracle text cas meta events buffers ledger result full cache log) (\<lambda>summary.
     Inr \<lparr>eb_case = cas, eb_generation = generation, eb_cpus = cpus, eb_raw = text, eb_markers = markers,
          eb_meta = meta, eb_events = events, eb_buffers = buffers, eb_ledger = ledger, eb_result = result,
          eb_full = full, eb_summary = summary,
          eb_ledger_summary = \<lparr>
            lx_ordinary_refs_plus_pins = le_refs ledger, lx_buffer_locks = le_locks ledger,
            lx_disk_owned = le_disk ledger, lx_log_n = le_log_n ledger,
            lx_outstanding = le_outstanding ledger, lx_committing = le_committing ledger,
            lx_gate_waiters = (if me_gate meta \<in> {0, 1} then 0 else me_gate meta),
            lx_event_overflow = me_error meta,
            lx_logical_io_submitted = lg_logical_io_submitted log,
            lx_logical_io_completed = lg_logical_io_completed log\<rparr>\<rparr>)))))))))"

end
