(* ===== verification/PersistSynthetic.thy ===== *)
theory PersistSynthetic
  imports PersistCases
begin

text \<open>
  The synthetic traces of \<open>resources/persistence/run-lab.py\<close> (\<open>SyntheticEvents\<close>, \<open>_synthetic_buffers\<close>,
  \<open>_synthetic_trace\<close>), with which its self-test exercises the oracles.
\<close>

section \<open>Rendering typed markers\<close>

definition event_fields :: "event \<Rightarrow> fval fields" where
  "event_fields e =
     [(''generation'', FInt (ev_generation e)), (''seq'', FInt (ev_seq e)), (''point'', FInt (ev_point e)),
      (''pid'', FInt (ev_pid e)), (''hart'', FInt (ev_hart e)), (''domain'', FInt (ev_domain e)),
      (''slot'', FInt (ev_slot e)), (''ref'', FInt (ev_ref e)), (''dev'', FInt (ev_dev e)),
      (''block'', FInt (ev_block e)), (''buffer_generation'', FInt (ev_buffer_generation e)),
      (''log_n'', FInt (ev_log_n e)), (''outstanding'', FInt (ev_outstanding e)),
      (''committing'', FInt (ev_committing e)), (''aux'', FInt (ev_aux e))]"

definition buffer_fields :: "buffer_view \<Rightarrow> fval fields" where
  "buffer_fields b =
     [(''generation'', FInt (bv_generation b)), (''slot'', FInt (bv_slot b)), (''domain'', FInt (bv_domain b)),
      (''named'', FInt (bv_named b)), (''ref'', FInt (bv_ref b)), (''valid'', FInt (bv_valid b)),
      (''disk'', FInt (bv_disk b)), (''locked'', FInt (bv_locked b)), (''dev'', FInt (bv_dev b)),
      (''block'', FInt (bv_block b)), (''buffer_generation'', FInt (bv_buffer_generation b))]"

definition meta_fields :: "meta \<Rightarrow> fval fields" where
  "meta_fields m =
     [(''case'', FStr (me_case m)), (''abi'', FInt (me_abi m)), (''generation'', FInt (me_generation m)),
      (''count'', FInt (me_count m)), (''error'', FInt (me_error m)), (''arrived'', FInt (me_arrived m)),
      (''gate'', FInt (me_gate m)), (''holders'', FInt (me_holders m))]"

definition ledger_fields :: "ledger \<Rightarrow> fval fields" where
  "ledger_fields l =
     [(''case'', FStr (le_case l)), (''generation'', FInt (le_generation l)), (''refs'', FInt (le_refs l)),
      (''locks'', FInt (le_locks l)), (''disk'', FInt (le_disk l)), (''log_n'', FInt (le_log_n l)),
      (''outstanding'', FInt (le_outstanding l)), (''committing'', FInt (le_committing l)),
      (''error'', FInt (le_error l))]"

definition result_fields :: "trace_result \<Rightarrow> fval fields" where
  "result_fields r =
     [(''case'', FStr (re_case r)), (''block1'', FInt (re_block1 r)), (''block2'', FInt (re_block2 r)),
      (''pid1'', FInt (re_pid1 r)), (''pid2'', FInt (re_pid2 r)), (''domain1'', FInt (re_domain1 r)),
      (''domain2'', FInt (re_domain2 r)), (''expected1'', FInt (re_expected1 r)),
      (''expected2'', FInt (re_expected2 r)), (''value1'', FInt (re_value1 r)), (''value2'', FInt (re_value2 r))]"

definition full_fields :: "full_marker \<Rightarrow> fval fields" where
  "full_fields f =
     [(''generation'', FInt (fu_generation f)), (''holders'', FInt (fu_holders f)), (''next'', FInt (fu_next f))]"

section \<open>Streams\<close>

text \<open>
  The three methods of \<open>SyntheticEvents\<close>; the argument triples are (slot, ref, buffer generation) and
  (log_n, outstanding, committing), both zero-like by default.
\<close>

definition no_slot :: "int \<times> int \<times> int" where "no_slot = (-1, 0, 0)"

definition stream_cache ::
    "int \<Rightarrow> int \<Rightarrow> int \<Rightarrow> int \<Rightarrow> int \<Rightarrow> int \<Rightarrow> int \<times> int \<times> int \<Rightarrow> int \<times> int \<times> int \<Rightarrow> event list \<Rightarrow> event list" where
  "stream_cache generation point pid hart domain blk = (\<lambda>(slot, ref, buffer_generation)
       (log_n, outstanding, committing) events.
     events @ [\<lparr>ev_generation = generation, ev_seq = int (length events) + 1, ev_point = point, ev_pid = pid,
       ev_hart = hart, ev_domain = domain, ev_slot = slot, ev_ref = ref, ev_dev = ROOTDEV, ev_block = blk,
       ev_buffer_generation = buffer_generation, ev_log_n = log_n, ev_outstanding = outstanding,
       ev_committing = committing, ev_aux = 0\<rparr>])"

definition stream_log ::
    "int \<Rightarrow> int \<Rightarrow> int \<Rightarrow> int \<Rightarrow> int \<times> int \<times> int \<Rightarrow> int \<Rightarrow> int \<Rightarrow> event list \<Rightarrow> event list" where
  "stream_log generation point pid blk = (\<lambda>(log_n, outstanding, committing) aux hart events.
     events @ [\<lparr>ev_generation = generation, ev_seq = int (length events) + 1, ev_point = point, ev_pid = pid,
       ev_hart = hart, ev_domain = -1, ev_slot = -1, ev_ref = -1, ev_dev = ROOTDEV, ev_block = blk,
       ev_buffer_generation = 0, ev_log_n = log_n, ev_outstanding = outstanding,
       ev_committing = committing, ev_aux = aux\<rparr>])"

definition stream_io ::
    "int \<Rightarrow> int \<Rightarrow> int \<Rightarrow> int \<Rightarrow> int \<Rightarrow> int \<Rightarrow> int \<Rightarrow> int \<Rightarrow> int \<Rightarrow> event list \<Rightarrow> event list" where
  "stream_io generation point pid blk slot buffer_generation write log_n committing events =
     events @ [\<lparr>ev_generation = generation, ev_seq = int (length events) + 1, ev_point = point, ev_pid = pid,
       ev_hart = 0, ev_domain = 0, ev_slot = slot, ev_ref = 1, ev_dev = ROOTDEV, ev_block = blk,
       ev_buffer_generation = buffer_generation, ev_log_n = log_n, ev_outstanding = 0,
       ev_committing = committing, ev_aux = write\<rparr>]"

definition run_stream :: "(event list \<Rightarrow> event list) list \<Rightarrow> event list" where
  "run_stream ops = foldl (\<lambda>events f. f events) [] ops"

definition synthetic_buffer :: "int \<Rightarrow> (nat, int \<times> int \<times> int) dict \<Rightarrow> bool \<Rightarrow> nat \<Rightarrow> buffer_view" where
  "synthetic_buffer generation named_slots held slot =
     (case map_of named_slots slot of
        None \<Rightarrow> \<lparr>bv_generation = generation, bv_slot = int slot, bv_domain = 0, bv_named = 0, bv_ref = 0,
                 bv_valid = 0, bv_disk = 0, bv_locked = 0, bv_dev = 0, bv_block = 0, bv_buffer_generation = 0\<rparr>
      | Some (domain, blk, buffer_generation) \<Rightarrow>
          \<lparr>bv_generation = generation, bv_slot = int slot, bv_domain = domain, bv_named = 1,
           bv_ref = (if held then 1 else 0), bv_valid = 1, bv_disk = 0, bv_locked = (if held then 1 else 0),
           bv_dev = ROOTDEV, bv_block = blk, bv_buffer_generation = buffer_generation\<rparr>)"

definition synthetic_buffers :: "int \<Rightarrow> (nat, int \<times> int \<times> int) dict \<Rightarrow> bool \<Rightarrow> buffer_view list" where
  "synthetic_buffers generation named_slots held = map (synthetic_buffer generation named_slots held) [0..<NBUF]"

definition tx_events :: "event list" where
  "tx_events = (let pid = 10; c = stream_cache 1; l = stream_log 1; io = stream_io 1 in run_stream
     [l LOG_ADMIT pid 0 (0, 1, 0) 0 0,
      c CACHE_LOOKUP pid 0 0 1990 no_slot (0, 1, 0),
      c CACHE_GUARD pid 0 0 1990 no_slot (0, 1, 0),
      c CACHE_PUBLISH pid 0 0 1990 (0, 1, 1) (0, 1, 0),
      c CACHE_SLEEP pid 0 0 1990 (0, 1, 1) (0, 1, 0),
      c CACHE_PIN pid 0 0 1990 (0, 2, 1) (0, 1, 0),
      l LOG_APPEND pid 1990 (1, 1, 0) 0 0,
      l LOG_ABSORB pid 1990 (1, 1, 0) 0 0,
      c CACHE_RELEASE pid 0 0 1990 (0, 1, 1) (1, 1, 0),
      l LOG_END pid 0 (1, 0, 1) 1 0,
      io IO_SUBMIT pid 3 1 1 1 1 1,
      io IO_COMPLETE pid 3 1 1 1 1 1,
      l LOG_PAYLOAD pid 1990 (1, 0, 1) 0 0,
      io IO_SUBMIT pid 2 2 1 1 1 1,
      io IO_COMPLETE pid 2 2 1 1 1 1,
      l LOG_HEADER pid 2 (1, 0, 1) 1 0,
      c CACHE_HIT pid 0 0 1990 (0, 2, 1) (1, 0, 1),
      c CACHE_SLEEP pid 0 0 1990 (0, 2, 1) (1, 0, 1),
      io IO_SUBMIT pid 1990 0 1 1 1 1,
      io IO_COMPLETE pid 1990 0 1 1 1 1,
      l LOG_HOME pid 1990 (1, 0, 1) 0 0,
      c CACHE_UNPIN pid 0 0 1990 (0, 1, 1) (1, 0, 1),
      c CACHE_RELEASE pid 0 0 1990 (0, 0, 1) (1, 0, 1),
      io IO_SUBMIT pid 2 2 1 1 1 1,
      io IO_COMPLETE pid 2 2 1 1 1 1,
      l LOG_CLEAR pid 2 (0, 0, 1) 0 0,
      l LOG_COMMIT_DONE pid 0 (0, 0, 0) 0 0])"

definition admission_empty_events :: "event list" where
  "admission_empty_events = (let l = stream_log 2 in run_stream
     [l LOG_ADMIT 11 0 (0, 1, 0) 0 1, l LOG_ADMIT 12 0 (0, 2, 0) 0 0, l LOG_ADMIT 13 0 (0, 3, 0) 0 1,
      l LOG_WAIT_SPACE 14 0 (0, 3, 0) 0 0,
      l LOG_END 11 0 (0, 2, 0) 0 0,
      l LOG_ADMIT 14 0 (0, 3, 0) 0 0,
      l LOG_END 12 0 (0, 2, 0) 0 0,
      l LOG_END 13 0 (0, 1, 0) 0 0,
      l LOG_END 14 0 (0, 0, 1) 1 0,
      l LOG_COMMIT_DONE 14 0 (0, 0, 0) 0 0])"

definition admission_used_events :: "event list" where
  "admission_used_events = (let l = stream_log 3 in run_stream
     [l LOG_ADMIT 21 0 (0, 1, 0) 0 0,
      l LOG_APPEND 21 1988 (1, 1, 0) 0 0,
      l LOG_ADMIT 22 0 (1, 2, 0) 0 0,
      l LOG_WAIT_SPACE 23 0 (1, 2, 0) 0 0,
      l LOG_END 22 0 (1, 1, 0) 0 0,
      l LOG_ADMIT 23 0 (1, 2, 0) 0 0,
      l LOG_END 21 0 (1, 1, 0) 0 0,
      l LOG_END 23 0 (1, 0, 1) 1 0,
      l LOG_PAYLOAD 23 1988 (1, 0, 1) 0 0,
      l LOG_HEADER 23 2 (1, 0, 1) 1 0,
      l LOG_HOME 23 1988 (1, 0, 1) 0 0,
      l LOG_CLEAR 23 2 (0, 0, 1) 0 0,
      l LOG_COMMIT_DONE 23 0 (0, 0, 0) 0 0])"

definition same_events :: "event list" where
  "same_events = (let c = stream_cache 4; key = 1989; z = (0, 0, 0) in run_stream
     [c CACHE_LOOKUP 31 0 0 key no_slot z, c CACHE_GUARD 31 0 0 key no_slot z,
      c CACHE_HIT 31 0 0 key (0, 1, 1) z, c CACHE_SLEEP 31 0 0 key (0, 1, 1) z,
      c CACHE_LOOKUP 32 1 0 key no_slot z, c CACHE_GUARD 32 1 0 key no_slot z,
      c CACHE_HIT 32 1 0 key (0, 2, 1) z, c CACHE_RELEASE 31 0 0 key (0, 1, 1) z,
      c CACHE_SLEEP 32 1 0 key (0, 1, 1) z, c CACHE_RELEASE 32 1 0 key (0, 0, 1) z])"

definition pair_events :: "int \<Rightarrow> int \<Rightarrow> int \<Rightarrow> int \<Rightarrow> int \<Rightarrow> int \<Rightarrow> int \<Rightarrow> event list" where
  "pair_events generation block1 block2 domain1 domain2 p1 p2 =
     (let c = stream_cache generation; z = (0, 0, 0) in run_stream
     [c CACHE_LOOKUP p1 0 domain1 block1 no_slot z, c CACHE_GUARD p1 0 domain1 block1 no_slot z,
      c CACHE_LOOKUP p2 1 domain2 block2 no_slot z, c CACHE_GUARD p2 1 domain2 block2 no_slot z,
      c CACHE_HIT p1 0 domain1 block1 (0, 1, 1) z, c CACHE_SLEEP p1 0 domain1 block1 (0, 1, 1) z,
      c CACHE_HIT p2 1 domain2 block2 (1, 1, 1) z, c CACHE_SLEEP p2 1 domain2 block2 (1, 1, 1) z,
      c CACHE_RELEASE p1 0 domain1 block1 (0, 0, 1) z, c CACHE_RELEASE p2 1 domain2 block2 (1, 0, 1) z])"

definition full_events :: "event list" where
  "full_events = run_stream (concat (map (\<lambda>offset.
     let pid = 100 + int offset; blk = 1000 + int offset; domain = int (offset mod 13);
         c = stream_cache 7; z = (0, 0, 0); s = (int offset, 1, 1)
     in [c CACHE_LOOKUP pid 0 domain blk no_slot z, c CACHE_GUARD pid 0 domain blk no_slot z,
         c CACHE_PUBLISH pid 0 domain blk s z, c CACHE_SLEEP pid 0 domain blk s z]) [0..<NBUF]))"

record synthetic =
  sy_events :: "event list"
  sy_named :: "(nat, int \<times> int \<times> int) dict"
  sy_result :: "trace_result option"
  sy_arrived :: int
  sy_gate :: int
  sy_holders :: int

definition synthetic_case :: "string \<Rightarrow> synthetic result" where
  "synthetic_case cas =
     (let plain = (\<lambda>events slots. \<lparr>sy_events = events, sy_named = slots, sy_result = None, sy_arrived = 0,
                     sy_gate = 0, sy_holders = 0\<rparr>);
          pair = (\<lambda>block1 block2 domain1 domain2 p1 p2 generation.
            \<lparr>sy_events = pair_events generation block1 block2 domain1 domain2 p1 p2,
             sy_named = [(0, domain1, block1, 1), (1, domain2, block2, 1)],
             sy_result = Some \<lparr>re_case = cas, re_block1 = block1, re_block2 = block2, re_pid1 = p1, re_pid2 = p2,
               re_domain1 = domain1, re_domain2 = domain2, re_expected1 = 81, re_expected2 = 82,
               re_value1 = 81, re_value2 = 82\<rparr>,
             sy_arrived = 3, sy_gate = 1, sy_holders = 0\<rparr>) in
      if cas = ''tx'' then Inr (plain tx_events [(0, 0, 1990, 1)])
      else if cas = ''admission-empty'' then Inr (plain admission_empty_events [])
      else if cas = ''admission-used'' then Inr (plain admission_used_events [])
      else if cas = ''same'' then
        Inr ((plain same_events [(0, 0, 1989, 1)])\<lparr>sy_result := Some
          \<lparr>re_case = cas, re_block1 = 1989, re_block2 = 1989, re_pid1 = 31, re_pid2 = 32, re_domain1 = 0,
           re_domain2 = 0, re_expected1 = 81, re_expected2 = 81, re_value1 = 81, re_value2 = 81\<rparr>\<rparr>)
      else if cas = ''collision'' then Inr (pair 2 15 1 1 41 42 5)
      else if cas = ''parallel'' then Inr (pair 2 3 1 2 51 52 6)
      else
        bind_res (require (cas = ''cache-full'') ''unknown synthetic case'') (\<lambda>_.
        Inr ((plain full_events (map (\<lambda>offset. (offset, int (offset mod 13), 1000 + int offset, 1)) [0..<NBUF]))
               \<lparr>sy_holders := int NBUF\<rparr>)))"

definition synthetic_meta :: "string \<Rightarrow> int \<Rightarrow> synthetic \<Rightarrow> meta" where
  "synthetic_meta cas generation s =
     \<lparr>me_case = cas, me_abi = PA_ABI, me_generation = generation, me_count = int (length (sy_events s)),
      me_error = 0, me_arrived = sy_arrived s, me_gate = sy_gate s, me_holders = sy_holders s\<rparr>"

definition synthetic_ledger :: "string \<Rightarrow> int \<Rightarrow> bool \<Rightarrow> ledger" where
  "synthetic_ledger cas generation panic =
     \<lparr>le_case = cas, le_generation = generation, le_refs = (if panic then int NBUF else 0),
      le_locks = (if panic then int NBUF else 0), le_disk = 0, le_log_n = 0, le_outstanding = 0,
      le_committing = 0, le_error = 0\<rparr>"

definition synthetic_markers :: "string \<Rightarrow> (string \<times> fval fields) list result" where
  "synthetic_markers cas =
     bind_res (dget CASE_RUNTIME cas) (\<lambda>(scenario, generation, cpus).
     bind_res (synthetic_case cas) (\<lambda>s.
     let panic = (cas = ''cache-full'') in
     Inr ((case sy_result s of None \<Rightarrow> [] | Some r \<Rightarrow> [(''RESULT'', result_fields r)]) @
          [(''META'', meta_fields (synthetic_meta cas generation s))] @
          map (\<lambda>e. (''EVENT'', event_fields e)) (sy_events s) @
          map (\<lambda>b. (''BUFFER'', buffer_fields b)) (synthetic_buffers generation (sy_named s) panic) @
          [(''LEDGER'', ledger_fields (synthetic_ledger cas generation panic))] @
          (if panic then [(''FULL'', full_fields \<lparr>fu_generation = generation, fu_holders = int NBUF,
                                                  fu_next = 1000 + int NBUF\<rparr>)]
           else [(''PASS'', [(''case'', FStr cas)])]))))"

definition synthetic_trace :: "string \<Rightarrow> string result" where
  "synthetic_trace cas =
     bind_res (synthetic_markers cas) (\<lambda>markers.
     let text = py_join ''\<newline>'' (map (\<lambda>(kind, f). render_marker kind f) markers) @ ''\<newline>'' in
     Inr (if cas = ''cache-full'' then text @ PANIC_TEXT @ ''\<newline>'' else text))"

end
