(* ===== verification/PersistReplay.thy ===== *)
theory PersistReplay
  imports PersistSynthetic
begin

text \<open>
  What an accepted transcript guarantees, as facts on its events, and the replay of the synthetic
  traces: their text parses back to the events they were rendered from, so the oracles can be
  evaluated on the events.
\<close>

section \<open>The parts of an accepted transcript\<close>

lemma common_seq:
  assumes "validate_common cas cpus generation meta events buffers ledger result full panic scenarios = Inr v"
  shows "map ev_seq events = map int [1..<length events + 1]"
  using assms unfolding validate_common_def bind_requires_eq_Inr by simp

lemma accepted_parts:
  assumes "validate_case_trace text cas scenarios panic = Inr b"
  obtains meta result full cache log generation cpus v where
    "validate_common cas cpus generation meta (eb_events b) (eb_buffers b) (eb_ledger b) result full panic scenarios = Inr v"
    "reduce_cache cas (eb_events b) (eb_buffers b) panic = Inr cache"
    "reduce_log cas (eb_events b) = Inr log"
    "case_oracle text cas meta (eb_events b) (eb_buffers b) (eb_ledger b) result full cache log = Inr (eb_summary b)"
  using assms unfolding validate_case_trace_def
  by (auto simp: result_simps)

lemma accepted_cache_run:
  assumes "validate_case_trace text cas scenarios panic = Inr b"
  obtains c where "fold_res (cache_step cas) cache_start (eb_events b) = Inr c"
    and "\<not> panic \<Longrightarrow> list_all drained_state (dvalues (cs_states c))"
  using assms
proof (rule accepted_parts)
  fix cache
  assume "reduce_cache cas (eb_events b) (eb_buffers b) panic = Inr cache"
  then have "fold_res (cache_step cas) cache_start (eb_events b) = Inr cache"
    "\<not> panic \<Longrightarrow> list_all drained_state (dvalues (cs_states cache))"
    by (auto simp: reduce_cache_def Let_def result_simps)
  then show thesis by (rule that)
qed

lemma accepted_log_run:
  assumes "validate_case_trace text cas scenarios panic = Inr b"
  obtains s where "fold_res (log_step cas) log_start (eb_events b) = Inr s" and "log_triple s = (0, 0, 0)"
    and "\<And>i. dget_or (ls_inflight s) i 0 = 0"
  using assms by (rule accepted_parts) (erule reduce_log_run, blast)

lemma seq_is_position:
  assumes "map ev_seq es = map int [1..<length es + 1]" and "e \<in> set es"
  shows "1 \<le> ev_seq e" and "es ! nat (ev_seq e - 1) = e" and "nat (ev_seq e - 1) < length es"
proof -
  obtain i where i: "i < length es" "es ! i = e" using assms(2) by (auto simp: in_set_conv_nth)
  have "map ev_seq es ! i = map int [1..<length es + 1] ! i" using assms(1) by simp
  then have "ev_seq e = int (i + 1)" using i by (simp del: upt_Suc)
  with i show "1 \<le> ev_seq e" "es ! nat (ev_seq e - 1) = e" "nat (ev_seq e - 1) < length es" by simp_all
qed

section \<open>Counting events\<close>

definition event_count :: "int \<Rightarrow> event list \<Rightarrow> int" where
  "event_count point es = int (length (events_at es point))"

definition io_count :: "int \<Rightarrow> io_identity \<Rightarrow> event list \<Rightarrow> int" where
  "io_count point i es = int (length (filter (\<lambda>e. ev_point e = point \<and> io_identity_of e = i) es))"

lemma event_count_simps [simp]:
  "event_count point [] = 0"
  "event_count point (e # es) = (if ev_point e = point then 1 else 0) + event_count point es"
  by (simp_all add: event_count_def events_at_def)

lemma io_count_simps [simp]:
  "io_count point i [] = 0"
  "io_count point i (e # es) = (if ev_point e = point \<and> io_identity_of e = i then 1 else 0) + io_count point i es"
  by (simp_all add: io_count_def)

lemma lock_weight_count: "sum_list (map lock_weight es) = event_count CACHE_SLEEP es - event_count CACHE_RELEASE es"
  by (induction es) (auto simp: lock_weight_def point_defs)

lemma pin_weight_count: "sum_list (map pin_weight es) = event_count CACHE_PIN es - event_count CACHE_UNPIN es"
  by (induction es) (auto simp: pin_weight_def point_defs)

lemma op_weight_count: "sum_list (map op_weight es) = event_count LOG_ADMIT es - event_count LOG_END es"
  by (induction es) (auto simp: op_weight_def point_defs)

lemma io_weight_count: "sum_list (map (io_weight i) es) = io_count IO_SUBMIT i es - io_count IO_COMPLETE i es"
  by (induction es) (auto simp: io_weight_def point_defs)

lemma drained_balances:
  assumes "list_all drained_state (dvalues (cs_states c))"
  shows "owners c = 0" and "pins c = 0"
proof -
  have "drained_state (snd x)" if "x \<in> set (cs_states c)" for x
    using assms that by (auto simp: dvalues_def list_all_iff)
  then show "owners c = 0" "pins c = 0"
    unfolding owners_def pins_def dsum_def
    by (auto intro!: sum_list_nonneg_eq_0_iff [THEN iffD2] simp: drained_state_def)
qed

section \<open>Parsing a rendered trace\<close>

lemma join_unlines: "ls \<noteq> [] \<Longrightarrow> py_join ''\<newline>'' ls @ ''\<newline>'' = unlines ls"
  by (induction ls rule: list_nonempty_induct) (auto simp: unlines_def neq_Nil_conv)

lemma parse_unlines:
  assumes "\<forall>m \<in> set ms. marker_ok m" and "ms \<noteq> []"
  shows "parse_markers (unlines (map (mk_line \<circ> marker_of) ms)) = Inr (map marker_of ms)"
proof -
  have "\<forall>l \<in> set (map (mk_line \<circ> marker_of) ms). list_all (\<lambda>c. \<not> is_line_sep c) l"
    using assms(1) parse_rendered_marker(2) by auto
  then have "splitlines (remove_cr (unlines (map (mk_line \<circ> marker_of) ms))) = map (mk_line \<circ> marker_of) ms"
    by (rule unlines_lines)
  then show ?thesis
    using parse_rendered_markers [OF assms(1), of "[]"] assms(2) by (simp add: parse_markers_def)
qed

lemma plain_keys:
  "list_all (\<lambda>k. plain_word k \<and> CHR ''='' \<notin> set k) (concat (map snd MARKER_SCHEMAS))"
  by (simp add: MARKER_SCHEMAS_def plain_word_def is_space_def)

lemma fields_marker_ok:
  "marker_ok (''EVENT'', event_fields e)"
  "marker_ok (''BUFFER'', buffer_fields v)"
  "is_label (me_case m) \<Longrightarrow> marker_ok (''META'', meta_fields m)"
  "is_label (le_case l) \<Longrightarrow> marker_ok (''LEDGER'', ledger_fields l)"
  "is_label (re_case r) \<Longrightarrow> marker_ok (''RESULT'', result_fields r)"
  "is_label cas \<Longrightarrow> marker_ok (''PASS'', [(''case'', FStr cas)])"
  using plain_keys
  by (simp_all add: marker_ok_def persist.renderable_def field_ok_def MARKER_SCHEMAS_def STRING_FIELDS_def dkeys_def
      dict_ok_def list_all_iff event_fields_def buffer_fields_def meta_fields_def ledger_fields_def result_fields_def)

lemma fields_read_back [simp]:
  "event_of (event_fields e) = e"
  "buffer_of (buffer_fields v) = v"
  "meta_of (meta_fields m) = m"
  "ledger_of (ledger_fields l) = l"
  "result_of (result_fields r) = r"
  by (simp_all add: event_of_def event_fields_def buffer_of_def buffer_fields_def meta_of_def meta_fields_def
      ledger_of_def ledger_fields_def result_of_def result_fields_def fint_def fstr_def)

section \<open>The marker stream of a rendered trace\<close>

lemma takeWhile_kind:
  assumes "\<forall>x \<in> set xs. P x" and "\<not> P y"
  shows "takeWhile P (xs @ y # ys) = xs" and "dropWhile P (xs @ y # ys) = y # ys"
  using assms by (induction xs) auto

definition trace_markers ::
    "string \<Rightarrow> trace_result option \<Rightarrow> meta \<Rightarrow> event list \<Rightarrow> buffer_view list \<Rightarrow> ledger \<Rightarrow> (string \<times> fval fields) list" where
  "trace_markers cas result meta events buffers ledger =
     (case result of None \<Rightarrow> [] | Some r \<Rightarrow> [(''RESULT'', result_fields r)]) @ [(''META'', meta_fields meta)] @
     map (\<lambda>e. (''EVENT'', event_fields e)) events @ map (\<lambda>b. (''BUFFER'', buffer_fields b)) buffers @
     [(''LEDGER'', ledger_fields ledger)] @ [(''PASS'', [(''case'', FStr cas)])]"

lemma marker_of_simps [simp]:
  "mk_kind (marker_of (k, f)) = k" "mk_fields (marker_of (k, f)) = f"
  by (simp_all add: marker_of_def)

lemma stream_of_markers:
  assumes "(result \<noteq> None) = (cas \<in> set RESULT_CASES)" and "int (length events) = me_count meta"
    and "length buffers = NBUF"
  shows "validate_marker_stream (map marker_of (trace_markers cas result meta events buffers ledger)) cas False =
    Inr (meta, events, buffers, ledger, result, None)"
proof -
  let ?E = "map (\<lambda>e. marker_of (''EVENT'', event_fields e)) events"
  let ?B = "map (\<lambda>b. marker_of (''BUFFER'', buffer_fields b)) buffers"
  let ?tail = "[marker_of (''LEDGER'', ledger_fields ledger), marker_of (''PASS'', [(''case'', FStr cas)])]"
  let ?isE = "\<lambda>m. mk_kind m = ''EVENT''" and ?isB = "\<lambda>m. mk_kind m = ''BUFFER''"
  obtain b bs where bs: "buffers = b # bs" using assms(3) by (cases buffers) (auto simp: NBUF_def)
  have E: "takeWhile ?isE (?E @ ?B @ ?tail) = ?E" "dropWhile ?isE (?E @ ?B @ ?tail) = ?B @ ?tail"
    using takeWhile_kind [of ?E ?isE] by (auto simp: bs)
  have B: "takeWhile ?isB (?B @ ?tail) = ?B" "dropWhile ?isB (?B @ ?tail) = ?tail"
    using takeWhile_kind [of ?B ?isB] by auto
  have shape: "map marker_of (trace_markers cas result meta events buffers ledger) =
      (case result of None \<Rightarrow> [] | Some r \<Rightarrow> [marker_of (''RESULT'', result_fields r)]) @
      marker_of (''META'', meta_fields meta) # ?E @ ?B @ ?tail"
    by (simp add: trace_markers_def split: option.split)
  have vals: "map (event_of \<circ> mk_fields) ?E = events" "map (buffer_of \<circ> mk_fields) ?B = buffers"
    by (simp_all add: comp_def)
  show ?thesis
    unfolding shape validate_marker_stream_def
    using assms by (cases result)
      (simp_all add: next_marker_def E B vals Let_def result_simps del: map_map)
qed

lemma trace_markers_ok:
  assumes "is_label cas" "me_case meta = cas" "le_case ledger = cas" "\<And>r. result = Some r \<Longrightarrow> re_case r = cas"
  shows "\<forall>m \<in> set (trace_markers cas result meta events buffers ledger). marker_ok m"
  using assms by (auto simp: trace_markers_def fields_marker_ok split: option.splits)

text \<open>The checks of \<open>validate_case_trace\<close> after parsing, on the parts of a synthetic trace.\<close>

definition replay_synthetic :: "string \<Rightarrow> scenarios \<Rightarrow> synthetic \<Rightarrow> case_summary result" where
  "replay_synthetic cas scenarios s =
     bind_res (scenario_for_runtime scenarios cas) (\<lambda>(scenario, generation, cpus).
     let meta = synthetic_meta cas generation s;
         buffers = synthetic_buffers generation (sy_named s) False;
         ledger = synthetic_ledger cas generation False in
     bind_res (validate_common cas cpus generation meta (sy_events s) buffers ledger (sy_result s) None False scenarios) (\<lambda>_.
     bind_res (reduce_cache cas (sy_events s) buffers False) (\<lambda>cache.
     bind_res (reduce_log cas (sy_events s)) (\<lambda>log.
     case_oracle [] cas meta (sy_events s) buffers ledger (sy_result s) None cache log))))"

lemma case_oracle_text:
  assumes "cas \<in> set (dkeys CASE_RUNTIME)" and "cas \<noteq> ''cache-full''"
  shows "case_oracle text cas = case_oracle [] cas"
  using assms by (intro ext) (auto simp: case_oracle_def CASE_RUNTIME_def dkeys_def)

lemma scenario_runtime:
  "scenario_for_runtime scenarios cas = Inr (scenario, generation, cpus) \<Longrightarrow>
     dget CASE_RUNTIME cas = Inr (scenario, generation, cpus)"
  by (auto simp: scenario_for_runtime_def Let_def result_simps)

lemma synthetic_accepted:
  assumes case_ok: "cas \<in> set (dkeys CASE_RUNTIME)" "cas \<noteq> ''cache-full''" "is_label cas"
    and trace: "synthetic_case cas = Inr s"
    and result: "(sy_result s \<noteq> None) = (cas \<in> set RESULT_CASES)" "\<And>r. sy_result s = Some r \<Longrightarrow> re_case r = cas"
    and replay: "replay_synthetic cas scenarios s = Inr summary"
  shows "\<exists>text b. synthetic_trace cas = Inr text \<and> validate_case_trace text cas scenarios False = Inr b \<and>
    eb_events b = sy_events s \<and> eb_summary b = summary"
proof -
  from replay obtain scenario generation cpus where scenario: "scenario_for_runtime scenarios cas = Inr (scenario, generation, cpus)"
    unfolding replay_synthetic_def by (auto elim!: bind_res_InrE)
  let ?meta = "synthetic_meta cas generation s" and ?ledger = "synthetic_ledger cas generation False"
  let ?buffers = "synthetic_buffers generation (sy_named s) False"
  let ?ms = "trace_markers cas (sy_result s) ?meta (sy_events s) ?buffers ?ledger"
  let ?text = "unlines (map (mk_line \<circ> marker_of) ?ms)"
  from replay obtain v cache log where parts:
    "validate_common cas cpus generation ?meta (sy_events s) ?buffers ?ledger (sy_result s) None False scenarios = Inr v"
    "reduce_cache cas (sy_events s) ?buffers False = Inr cache" "reduce_log cas (sy_events s) = Inr log"
    "case_oracle [] cas ?meta (sy_events s) ?buffers ?ledger (sy_result s) None cache log = Inr summary"
    unfolding replay_synthetic_def scenario by (auto simp: Let_def elim!: bind_res_InrE)
  have ms: "synthetic_markers cas = Inr ?ms"
    using case_ok(2) by (simp add: synthetic_markers_def scenario_runtime [OF scenario] trace trace_markers_def Let_def)
  have ne: "?ms \<noteq> []" by (simp add: trace_markers_def)
  have lines: "map (\<lambda>(kind, f). render_marker kind f) ms = map (mk_line \<circ> marker_of) ms" for ms
    by (simp add: marker_of_def case_prod_unfold)
  have rendered: "synthetic_trace cas = Inr ?text"
    unfolding synthetic_trace_def ms using case_ok(2) ne join_unlines [of "map (mk_line \<circ> marker_of) ?ms"]
    by (simp add: lines)
  have ok: "\<forall>m \<in> set ?ms. marker_ok m"
    using case_ok(3) result(2) by (intro trace_markers_ok) (simp_all add: synthetic_meta_def synthetic_ledger_def)
  note parse = parse_unlines [OF ok ne]
  have "length ?buffers = NBUF" by (simp add: synthetic_buffers_def)
  then have stream: "validate_marker_stream (map marker_of ?ms) cas False =
      Inr (?meta, sy_events s, ?buffers, ?ledger, sy_result s, None)"
    using result(1) by (intro stream_of_markers) (simp_all add: synthetic_meta_def)
  have last: "mk_fields (last (map marker_of ?ms)) = [(''case'', FStr cas)]"
    by (simp add: trace_markers_def)
  have "\<exists>b. validate_case_trace ?text cas scenarios False = Inr b \<and> eb_events b = sy_events s \<and> eb_summary b = summary"
    unfolding validate_case_trace_def parse case_oracle_text [OF case_ok(1,2), of ?text]
    using case_ok(1,2) last by (simp add: scenario stream parts)
  with rendered show ?thesis by blast
qed

section \<open>Evaluating the synthetic cases\<close>

text \<open>The part of \<open>resources/persistence/scenarios.json\<close> that the trace checks read.\<close>

definition lab_scenarios :: scenarios where
  "lab_scenarios = \<lparr>sn_event_schema_version = 1, sn_event_budget = 512,
     sn_cases = [(''transaction-flow'', 1), (''log-capacity-empty'', 2), (''log-capacity-used'', 2), (''cache-same-block'', 2), (''cache-collision'', 2), (''cache-parallel'', 2), (''cache-full'', 1)]\<rparr>"

definition replays :: "string \<Rightarrow> bool" where
  "replays cas =
     (case synthetic_case cas of
        Inl e \<Rightarrow> False
      | Inr s \<Rightarrow> (sy_result s \<noteq> None) = (cas \<in> set RESULT_CASES) \<and>
          (case sy_result s of None \<Rightarrow> True | Some r \<Rightarrow> re_case r = cas) \<and>
          \<not> isl (replay_synthetic cas lab_scenarios s))"

lemma replays_tx: "replays ''tx''"
  by code_simp

lemma replays_admission_empty: "replays ''admission-empty''"
  by code_simp

lemma replays_admission_used: "replays ''admission-used''"
  by code_simp

lemma replays_same: "replays ''same''"
  by code_simp

lemma replays_collision: "replays ''collision''"
  by code_simp

lemma replays_parallel: "replays ''parallel''"
  by code_simp

lemmas replays_all = replays_tx replays_admission_empty replays_admission_used replays_same replays_collision
  replays_parallel

lemma runtime_labels: "list_all is_label (dkeys CASE_RUNTIME)"
  by code_simp

lemma runtime_cases:
  assumes "cas \<in> set (dkeys CASE_RUNTIME)" and "cas \<noteq> ''cache-full''"
  shows "replays cas" and "is_label cas"
proof -
  have "cas = ''tx'' \<or> cas = ''admission-empty'' \<or> cas = ''admission-used'' \<or> cas = ''same'' \<or>
      cas = ''collision'' \<or> cas = ''parallel''"
    using assms by (simp add: CASE_RUNTIME_def dkeys_def)
  then show "replays cas" by (elim disjE) (simp_all only: replays_all)
  show "is_label cas" using runtime_labels assms(1) by (simp only: list_all_iff)
qed

lemma replays_accepted:
  assumes "cas \<in> set (dkeys CASE_RUNTIME)" and "cas \<noteq> ''cache-full''"
  shows "\<exists>s text b. synthetic_case cas = Inr s \<and> synthetic_trace cas = Inr text \<and>
    validate_case_trace text cas lab_scenarios False = Inr b \<and> eb_events b = sy_events s"
proof -
  obtain s where s: "synthetic_case cas = Inr s"
    using runtime_cases(1) [OF assms] by (auto simp: replays_def split: sum.splits)
  with runtime_cases(1) [OF assms] obtain y where "replay_synthetic cas lab_scenarios s = Inr y"
    by (cases "replay_synthetic cas lab_scenarios s") (auto simp: replays_def)
  moreover have "(sy_result s \<noteq> None) = (cas \<in> set RESULT_CASES)" "\<And>r. sy_result s = Some r \<Longrightarrow> re_case r = cas"
    using runtime_cases(1) [OF assms] by (auto simp: replays_def s split: option.splits)
  ultimately show ?thesis
    using synthetic_accepted [OF assms runtime_cases(2) [OF assms] s] s by blast
qed

end
