(* ===== verification/PersistProps.thy ===== *)
theory PersistProps
  imports PersistReplay
begin

text \<open>
  The properties of the persistence laboratory: what an accepted transcript says about buffer
  locks, reference counts, log admission, disk requests and the order of the commit, and that the
  transcripts of the self-test are accepted.
\<close>

section \<open>Facts on the events of an accepted transcript\<close>

lemma only_event_D:
  assumes "only_event events point cas = Inr e"
  shows "e \<in> set events" and "ev_point e = point"
  using assms by (auto simp: only_event_def Let_def result_simps events_at_def length_Suc_conv
      filter_eq_Cons_iff)

lemma follower:
  assumes "map ev_seq es = map int [1..<length es + 1]" and "w \<in> set es" and "e \<in> set es"
    and "ev_seq w + 1 = ev_seq e"
  shows "nat (ev_seq w) < length es" and "es ! nat (ev_seq w) = e"
proof -
  have "ev_seq w = ev_seq e - 1" using assms(4) by simp
  then show "nat (ev_seq w) < length es" "es ! nat (ev_seq w) = e"
    using seq_is_position(2,3) [OF assms(1,3)] by simp_all
qed

definition WRITE_STAGES :: "int list" where
  "WRITE_STAGES = [LOG_PAYLOAD, LOG_HEADER, LOG_HOME, LOG_CLEAR]"

lemma transaction_writes:
  assumes "validate_transaction es cache log = Inr summary"
    and "map ev_seq es = map int [1..<length es + 1]"
    and "lg_write_completions log = filter is_write_completion es"
  shows "\<exists>h. map ev_block (filter is_write_completion es) = [h + 1, h, 1990, h] \<and> h > 0 \<and>
    list_all2 (\<lambda>w p. nat (ev_seq w) < length es \<and> ev_point (es ! nat (ev_seq w)) = p)
      (filter is_write_completion es) WRITE_STAGES"
proof -
  from assms(1) obtain payload header home clear where
    o: "only_event es LOG_PAYLOAD ''tx'' = Inr payload" "only_event es LOG_HEADER ''tx'' = Inr header"
      "only_event es LOG_HOME ''tx'' = Inr home" "only_event es LOG_CLEAR ''tx'' = Inr clear" and
    c: "ev_block home = 1990" "ev_block header = ev_block clear" "ev_block clear > 0"
      "map ev_block (lg_write_completions log) = [ev_block header + 1, ev_block header, ev_block home, ev_block clear]"
      "map (\<lambda>e. ev_seq e + 1) (lg_write_completions log) = [ev_seq payload, ev_seq header, ev_seq home, ev_seq clear]"
    unfolding validate_transaction_def by (auto simp: result_simps Let_def)
  from c(5) obtain a b c' d where ws: "lg_write_completions log = [a, b, c', d]"
    by (auto simp: map_eq_Cons_conv)
  have mem: "{a, b, c', d} \<subseteq> set es"
    using assms(3) ws by (metis filter_is_subset list.simps(15) empty_set)
  note f = follower [OF assms(2)]
  have seqs: "ev_seq a + 1 = ev_seq payload" "ev_seq b + 1 = ev_seq header" "ev_seq c' + 1 = ev_seq home"
    "ev_seq d + 1 = ev_seq clear" using c(5) by (simp_all add: ws)
  have "list_all2 (\<lambda>w p. nat (ev_seq w) < length es \<and> ev_point (es ! nat (ev_seq w)) = p)
      (lg_write_completions log) WRITE_STAGES"
    using f [OF _ only_event_D(1) [OF o(1)] seqs(1)] f [OF _ only_event_D(1) [OF o(2)] seqs(2)]
      f [OF _ only_event_D(1) [OF o(3)] seqs(3)] f [OF _ only_event_D(1) [OF o(4)] seqs(4)] mem
      only_event_D(2) [OF o(1)] only_event_D(2) [OF o(2)] only_event_D(2) [OF o(3)] only_event_D(2) [OF o(4)]
    by (simp add: ws WRITE_STAGES_def)
  with c show ?thesis unfolding assms(3) [symmetric] by auto
qed

lemma accepted_tx_oracle:
  assumes "validate_case_trace text ''tx'' scenarios panic = Inr b"
  obtains cache log summary where "validate_transaction (eb_events b) cache log = Inr summary"
    and "lg_write_completions log = filter is_write_completion (eb_events b)"
    and "map ev_seq (eb_events b) = map int [1..<length (eb_events b) + 1]"
  using assms
proof (rule accepted_parts)
  fix meta result full cache log generation cpus v
  assume "validate_common ''tx'' cpus generation meta (eb_events b) (eb_buffers b) (eb_ledger b) result full panic
      scenarios = Inr v"
    and "reduce_log ''tx'' (eb_events b) = Inr log"
    and "case_oracle text ''tx'' meta (eb_events b) (eb_buffers b) (eb_ledger b) result full cache log =
      Inr (eb_summary b)"
  then show thesis
    using that common_seq by (elim reduce_log_run) (simp add: case_oracle_def)
qed

section \<open>Locks and references\<close>

text \<open>
  C11: In an accepted transcript a buffer's sleep lock is exclusive: between two acquisitions of the
  same buffer identity (slot and generation) the first owner has released it.
\<close>

theorem accepted_lock_exclusive:
  assumes "validate_case_trace text cas scenarios panic = Inr b"
    and "eb_events b = es @ a # ms @ c # fs"
    and "ev_point a = CACHE_SLEEP" and "ev_point c = CACHE_SLEEP" and "event_identity a = event_identity c"
  shows "\<exists>r \<in> set ms. ev_point r = CACHE_RELEASE \<and> event_identity r = event_identity a \<and> ev_pid r = ev_pid a"
  using assms(1)
proof (rule accepted_cache_run)
  fix st
  assume "fold_res (cache_step cas) cache_start (eb_events b) = Inr st"
  then show ?thesis unfolding assms(2) using assms(3-5) by (rule lock_exclusive)
qed

lemma same_split:
  "same_events = take 3 same_events @ same_events ! 3 # take 4 (drop 4 same_events) @ same_events ! 8 # drop 9 same_events \<and>
   ev_point (same_events ! 3) = CACHE_SLEEP \<and> ev_point (same_events ! 8) = CACHE_SLEEP \<and>
   event_identity (same_events ! 3) = event_identity (same_events ! 8)"
  by code_simp

lemma same_accepted:
  obtains raw b where "validate_case_trace raw ''same'' lab_scenarios False = Inr b" "eb_events b = same_events"
proof -
  have "\<exists>s. synthetic_case ''same'' = Inr s \<and> sy_events s = same_events" by (simp add: synthetic_case_def)
  with replays_accepted [of "''same''"] that show ?thesis by (auto simp: CASE_RUNTIME_def dkeys_def)
qed

theorem accepted_lock_exclusive_witness:
  "\<exists>text b. validate_case_trace text ''same'' lab_scenarios False = Inr b \<and>
    (\<exists>r \<in> set (take 4 (drop 4 (eb_events b))). ev_point r = CACHE_RELEASE \<and>
      event_identity r = event_identity (eb_events b ! 3) \<and> ev_pid r = ev_pid (eb_events b ! 3))"
proof -
  obtain raw b where b: "validate_case_trace raw ''same'' lab_scenarios False = Inr b" "eb_events b = same_events"
    by (rule same_accepted)
  note split = same_split [folded b(2)]
  have "\<exists>r \<in> set (take 4 (drop 4 (eb_events b))). ev_point r = CACHE_RELEASE \<and>
      event_identity r = event_identity (eb_events b ! 3) \<and> ev_pid r = ev_pid (eb_events b ! 3)"
    using split by (intro accepted_lock_exclusive [OF b(1)]) blast+
  with b(1) show ?thesis by blast
qed

text \<open>
  C12: An accepted transcript of a case that ends normally leaves no resource behind: as many lock
  acquisitions as releases, as many pins as unpins, as many admitted as finished operations, and
  for every request identity as many submissions as completions.
\<close>

theorem accepted_drains:
  assumes "validate_case_trace text cas scenarios False = Inr b"
  shows "event_count CACHE_SLEEP (eb_events b) = event_count CACHE_RELEASE (eb_events b) \<and>
    event_count CACHE_PIN (eb_events b) = event_count CACHE_UNPIN (eb_events b) \<and>
    event_count LOG_ADMIT (eb_events b) = event_count LOG_END (eb_events b) \<and>
    (\<forall>i. io_count IO_SUBMIT i (eb_events b) = io_count IO_COMPLETE i (eb_events b))"
proof -
  from assms obtain c where c: "fold_res (cache_step cas) cache_start (eb_events b) = Inr c"
    and "list_all drained_state (dvalues (cs_states c))"
    by (auto elim: accepted_cache_run)
  then have "event_count CACHE_SLEEP (eb_events b) = event_count CACHE_RELEASE (eb_events b)"
    "event_count CACHE_PIN (eb_events b) = event_count CACHE_UNPIN (eb_events b)"
    using cache_locks.run_balance [OF c cache_inv_start] cache_pins.run_balance [OF c cache_inv_start]
      drained_balances [of c] drained_balances [of cache_start]
    by (simp_all add: lock_weight_count pin_weight_count cache_start_def dvalues_def)
  moreover from assms obtain s where s: "fold_res (log_step cas) log_start (eb_events b) = Inr s"
    "log_triple s = (0, 0, 0)" "\<And>i. dget_or (ls_inflight s) i 0 = 0" by (auto elim: accepted_log_run)
  then have "event_count LOG_ADMIT (eb_events b) = event_count LOG_END (eb_events b)"
    using log_ops.run_balance [OF s(1) log_inv_start]
    by (simp add: op_weight_count log_start_def log_triple_def)
  moreover have "io_count IO_SUBMIT i (eb_events b) = io_count IO_COMPLETE i (eb_events b)" for i
    using s(3) log_io.run_balance [OF s(1) log_inv_start, of i]
    by (simp add: io_weight_count log_start_def dget_or_def)
  ultimately show ?thesis by blast
qed

lemma tx_accepted:
  obtains raw b where "validate_case_trace raw ''tx'' lab_scenarios False = Inr b" "eb_events b = tx_events"
proof -
  have "\<exists>s. synthetic_case ''tx'' = Inr s \<and> sy_events s = tx_events" by (simp add: synthetic_case_def)
  with replays_accepted [of "''tx''"] that show ?thesis by (auto simp: CASE_RUNTIME_def dkeys_def)
qed

theorem accepted_drains_witness:
  "\<exists>text b. validate_case_trace text ''tx'' lab_scenarios False = Inr b \<and> eb_events b = tx_events \<and>
    io_count IO_SUBMIT (2, 1, 1, 2, 1) (eb_events b) = io_count IO_COMPLETE (2, 1, 1, 2, 1) (eb_events b)"
  using tx_accepted accepted_drains by metis

section \<open>Log\<close>

text \<open>
  C13: At every admission of an accepted transcript the logged blocks and ten blocks for each
  operation then outstanding, the admitted one included, fit the log of thirty blocks; at every
  point of the transcript no request has more completions than submissions.
\<close>

theorem accepted_log_prefix:
  assumes "validate_case_trace text cas scenarios panic = Inr b" and "eb_events b = es @ e # fs"
  shows "(ev_point e = LOG_ADMIT \<longrightarrow>
      ev_log_n e + 10 * (event_count LOG_ADMIT es - event_count LOG_END es + 1) \<le> 30) \<and>
    (\<forall>i. io_count IO_COMPLETE i es \<le> io_count IO_SUBMIT i es)"
proof -
  from assms obtain t where t: "fold_res (log_step cas) log_start (es @ e # fs) = Inr t"
    by (auto elim: accepted_log_run)
  then obtain s u where s: "fold_res (log_step cas) log_start es = Inr s" and u: "log_step cas s e = Inr u"
    by (auto simp: fold_res_append result_simps)
  have inv: "log_inv s" using log.run_inv [OF s log_inv_start] .
  then have "io_count IO_COMPLETE i es \<le> io_count IO_SUBMIT i es" for i
    using log_io.run_balance [OF s log_inv_start, of i] inflight_nonneg [of "ls_inflight s" i]
    by (simp add: io_weight_count log_inv_def log_start_def dget_or_def)
  moreover have "ev_log_n e + 10 * (event_count LOG_ADMIT es - event_count LOG_END es + 1) \<le> 30"
    if "ev_point e = LOG_ADMIT"
    using admit_capacity [OF s u that] by (simp add: op_weight_count)
  ultimately show ?thesis by blast
qed

lemma admission_accepted:
  obtains raw b where "validate_case_trace raw ''admission-used'' lab_scenarios False = Inr b"
    "eb_events b = admission_used_events"
proof -
  have "\<exists>s. synthetic_case ''admission-used'' = Inr s \<and> sy_events s = admission_used_events"
    by (simp add: synthetic_case_def)
  with replays_accepted [of "''admission-used''"] that show ?thesis by (auto simp: CASE_RUNTIME_def dkeys_def)
qed

lemma admission_split:
  "admission_used_events = take 5 admission_used_events @ admission_used_events ! 5 # drop 6 admission_used_events \<and>
   ev_point (admission_used_events ! 5) = LOG_ADMIT \<and> ev_log_n (admission_used_events ! 5) = 1"
  by code_simp

theorem accepted_log_prefix_witness:
  "\<exists>text b. validate_case_trace text ''admission-used'' lab_scenarios False = Inr b \<and>
    1 + 10 * (event_count LOG_ADMIT (take 5 (eb_events b)) - event_count LOG_END (take 5 (eb_events b)) + 1) \<le> 30"
proof -
  obtain raw b where b: "validate_case_trace raw ''admission-used'' lab_scenarios False = Inr b"
    "eb_events b = admission_used_events" by (rule admission_accepted)
  note split = admission_split [folded b(2)]
  show ?thesis using accepted_log_prefix [OF b(1) split [THEN conjunct1]] b(1) split by metis
qed

text \<open>
  C14: Write-ahead order. In an accepted transcript of the transaction case exactly four writes
  complete: the log block, the header, the home block and the header again, in this order, each
  directly followed by the log's own record of that stage (payload, header, home, clear).
\<close>

theorem accepted_write_ahead:
  assumes "validate_case_trace text ''tx'' scenarios panic = Inr b"
  shows "\<exists>h. map ev_block (filter is_write_completion (eb_events b)) = [h + 1, h, 1990, h] \<and> h > 0 \<and>
    list_all2 (\<lambda>w p. nat (ev_seq w) < length (eb_events b) \<and> ev_point (eb_events b ! nat (ev_seq w)) = p)
      (filter is_write_completion (eb_events b)) WRITE_STAGES"
  using assms by (rule accepted_tx_oracle) (rule transaction_writes)

theorem accepted_write_ahead_witness:
  "\<exists>text b h. validate_case_trace text ''tx'' lab_scenarios False = Inr b \<and>
    map ev_block (filter is_write_completion (eb_events b)) = [h + 1, h, 1990, h]"
proof -
  obtain raw b where b: "validate_case_trace raw ''tx'' lab_scenarios False = Inr b" "eb_events b = tx_events"
    by (rule tx_accepted)
  from accepted_write_ahead [OF b(1)] obtain h where
    "map ev_block (filter is_write_completion (eb_events b)) = [h + 1, h, 1990, h]" by (elim exE conjE)
  with b(1) show ?thesis by (intro exI conjI)
qed

section \<open>Transcripts\<close>



text \<open>
  C16: Printing and parsing are inverse: a non-empty list of well-formed markers, printed one per
  line, parses back to the same markers with the same fields.
\<close>

theorem marker_round_trip:
  assumes "list_all marker_ok ms" and "ms \<noteq> []"
  shows "parse_markers (unlines (map (\<lambda>(kind, f). render_marker kind f) ms)) =
    Inr (map (\<lambda>(kind, f). \<lparr>mk_kind = kind, mk_fields = f, mk_line = render_marker kind f\<rparr>) ms)"
proof -
  have "map (mk_line \<circ> marker_of) ms = map (\<lambda>(kind, f). render_marker kind f) ms"
    by (simp add: marker_of_def case_prod_unfold)
  moreover have "map marker_of ms = map (\<lambda>(kind, f). \<lparr>mk_kind = kind, mk_fields = f, mk_line = render_marker kind f\<rparr>) ms"
    by (simp add: marker_of_def)
  moreover have "\<forall>m \<in> set ms. marker_ok m" using assms(1) by (simp add: list_all_iff)
  ultimately show ?thesis using parse_unlines [of ms] assms(2) by metis
qed

theorem marker_round_trip_witness:
  "parse_markers (unlines [render_marker ''EVENT'' (event_fields (tx_events ! 3))]) =
    Inr [\<lparr>mk_kind = ''EVENT'', mk_fields = event_fields (tx_events ! 3),
          mk_line = render_marker ''EVENT'' (event_fields (tx_events ! 3))\<rparr>]"
  using marker_round_trip [of "[(''EVENT'', event_fields (tx_events ! 3))]"] by (simp add: fields_marker_ok)

section \<open>A gap in the log reducer\<close>

text \<open>
  The log refuses new operations while it commits, and the reducer tracks the commit in progress;
  its admission rule reads only the flag that the admission event itself carries. A trace that
  admits an operation between the start of a commit and its end is therefore accepted.
\<close>

definition admitted_while_committing :: "event list" where
  "admitted_while_committing = (let l = stream_log 2 in run_stream
     [l LOG_ADMIT 11 0 (0, 1, 0) 0 0,
      l LOG_END 11 0 (0, 0, 1) 1 0,
      l LOG_ADMIT 12 0 (0, 1, 0) 0 0,
      l LOG_END 12 0 (0, 0, 1) 1 0,
      l LOG_COMMIT_DONE 12 0 (0, 0, 0) 0 0])"


end
