(* ===== verification/Json.thy ===== *)
theory Json
  imports Complex_Main PyText
begin

text \<open>
  Values that \<open>json.load\<close> returns and the operations of the interpreter on them: \<open>get\<close>,
  subscription, membership, iteration, truth value, equality and hashing, with the exceptions each
  of them raises on a value of the wrong type.  A finite float is represented by its value.
  A dict has distinct keys in document order.
\<close>

section \<open>Values\<close>

datatype json =
    JNull
  | JBool bool
  | JInt int
  | JFloat rat
  | JStr string
  | JList "json list"
  | JObj "(string \<times> json) list"

text \<open>
  Python compares numbers by value (\<open>True == 1 == 1.0\<close>) and dicts without regard to order; two
  values are equal iff their normal forms are.
\<close>

primrec norm_json :: "json \<Rightarrow> json" where
  "norm_json JNull = JNull"
| "norm_json (JBool b) = JInt (if b then 1 else 0)"
| "norm_json (JInt i) = JInt i"
| "norm_json (JFloat r) = (if of_int \<lfloor>r\<rfloor> = r then JInt \<lfloor>r\<rfloor> else JFloat r)"
| "norm_json (JStr s) = JStr s"
| "norm_json (JList xs) = JList (map norm_json xs)"
| "norm_json (JObj d) = JObj (sort_key fst (map (map_prod id norm_json) d))"

definition json_eq :: "json \<Rightarrow> json \<Rightarrow> bool" where
  "json_eq a b \<longleftrightarrow> norm_json a = norm_json b"

fun truthy :: "json \<Rightarrow> bool" where
  "truthy JNull = False"
| "truthy (JBool b) = b"
| "truthy (JInt i) = (i \<noteq> 0)"
| "truthy (JFloat r) = (r \<noteq> 0)"
| "truthy (JStr s) = (s \<noteq> [])"
| "truthy (JList xs) = (xs \<noteq> [])"
| "truthy (JObj d) = (d \<noteq> [])"

fun hashable :: "json \<Rightarrow> bool" where
  "hashable (JList xs) = False"
| "hashable (JObj d) = False"
| "hashable _ = True"

fun is_str :: "json \<Rightarrow> bool" where
  "is_str (JStr s) = True"
| "is_str _ = False"

fun is_list :: "json \<Rightarrow> bool" where
  "is_list (JList xs) = True"
| "is_list _ = False"

fun is_obj :: "json \<Rightarrow> bool" where
  "is_obj (JObj d) = True"
| "is_obj _ = False"

fun is_bool :: "json \<Rightarrow> bool" where
  "is_bool (JBool b) = True"
| "is_bool _ = False"

text \<open>\<open>type(x) is int\<close>: a bool is not a plain int.\<close>

fun is_plain_int :: "json \<Rightarrow> bool" where
  "is_plain_int (JInt i) = True"
| "is_plain_int _ = False"

section \<open>Access\<close>

text \<open>\<open>x.get(k, default)\<close> and \<open>x.get(k)\<close>\<close>

fun jget_or :: "json \<Rightarrow> string \<Rightarrow> json \<Rightarrow> json result" where
  "jget_or (JObj d) k v = Inr (dget_or d k v)"
| "jget_or _ k v = Inl AttributeError"

definition jget :: "json \<Rightarrow> string \<Rightarrow> json result" where
  "jget x k = jget_or x k JNull"

text \<open>\<open>x[k]\<close> for a string \<open>k\<close>\<close>

fun jindex :: "json \<Rightarrow> string \<Rightarrow> json result" where
  "jindex (JObj d) k = dget d k"
| "jindex _ k = Inl TypeError"

text \<open>\<open>k in x\<close> for a string \<open>k\<close>\<close>

fun jhas :: "json \<Rightarrow> string \<Rightarrow> bool result" where
  "jhas (JObj d) k = Inr (k \<in> set (dkeys d))"
| "jhas (JList xs) k = Inr (list_ex (json_eq (JStr k)) xs)"
| "jhas (JStr s) k = Inr (contains s k)"
| "jhas _ k = Inl TypeError"

text \<open>\<open>for y in x\<close>: lists, the characters of a string, the keys of a dict.\<close>

fun jiter :: "json \<Rightarrow> json list result" where
  "jiter (JList xs) = Inr xs"
| "jiter (JStr s) = Inr (map (\<lambda>c. JStr [c]) s)"
| "jiter (JObj d) = Inr (map JStr (dkeys d))"
| "jiter _ = Inl TypeError"

text \<open>
  \<open>for z in x + y\<close>: sequences of one kind are concatenated; a sum of numbers cannot be iterated
  and an unsupported sum raises, with the same exception.
\<close>

fun jconcat :: "json \<Rightarrow> json \<Rightarrow> json result" where
  "jconcat (JList xs) (JList ys) = Inr (JList (xs @ ys))"
| "jconcat (JStr s) (JStr t) = Inr (JStr (s @ t))"
| "jconcat _ _ = Inl TypeError"

text \<open>Use as a path component or as the subject of a regular expression: only strings will do.\<close>

fun as_str :: "json \<Rightarrow> string result" where
  "as_str (JStr s) = Inr s"
| "as_str _ = Inl TypeError"

text \<open>
  \<open>x in s\<close> for a set (or the keys of a dict) of JSON values, and the same for a dict whose keys
  are strings.  A list or a dict cannot be hashed.
\<close>

definition in_hashed :: "json \<Rightarrow> json list \<Rightarrow> bool result" where
  "in_hashed x s = (if hashable x then Inr (list_ex (json_eq x) s) else Inl TypeError)"

definition in_keys :: "json \<Rightarrow> string list \<Rightarrow> bool result" where
  "in_keys x ks = in_hashed x (map JStr ks)"

lemma json_eq_refl [simp]: "json_eq x x"
  by (simp add: json_eq_def)

lemma json_eq_sym: "json_eq x y \<Longrightarrow> json_eq y x"
  by (simp add: json_eq_def)

lemma json_eq_trans [trans]: "json_eq x y \<Longrightarrow> json_eq y z \<Longrightarrow> json_eq x z"
  by (simp add: json_eq_def)

lemma norm_json_JStr [simp]: "norm_json x = JStr s \<longleftrightarrow> x = JStr s"
  by (cases x) auto

lemma json_eq_JStr [simp]: "json_eq x (JStr s) \<longleftrightarrow> x = JStr s" "json_eq (JStr s) x \<longleftrightarrow> x = JStr s"
  by (auto simp: json_eq_def eq_commute [of "JStr s"])

lemma in_hashed_Inr [result_simps]: "in_hashed x s = Inr b \<longleftrightarrow> hashable x \<and> b = list_ex (json_eq x) s"
  by (auto simp: in_hashed_def)

lemma in_keys_Inr [result_simps]: "in_keys x ks = Inr b \<longleftrightarrow> hashable x \<and> b = (\<exists>k \<in> set ks. x = JStr k)"
  by (auto simp: in_keys_def in_hashed_def list_ex_iff)

lemma in_keys_JStr [simp]: "in_keys (JStr s) ks = Inr (s \<in> set ks)"
  by (auto simp: in_keys_def in_hashed_def list_ex_iff)

lemma as_str_Inr [result_simps]: "as_str x = Inr s \<longleftrightarrow> x = JStr s"
  by (cases x) auto

lemma jindex_Inr [result_simps]: "jindex x k = Inr v \<longleftrightarrow> (\<exists>d. x = JObj d \<and> map_of d k = Some v)"
  by (cases x) (auto simp: dget_def split: option.splits)

end
