(* ===== verification/PersistScenario.thy ===== *)
theory PersistScenario
  imports Json PersistTrace
begin

text \<open>
  The scenario file of the persistence laboratory (\<open>resources/persistence/run-lab.py\<close>): the tables it is
  compared with and \<open>validate_scenarios\<close> on a decoded JSON value, with the exceptions that the operators of
  the interpreter raise on values of unexpected types.
\<close>

section \<open>Tables\<close>

definition POINT_CAPABILITIES :: "(string, string) dict" where
  "POINT_CAPABILITIES =
     [(''CACHE_GET_ENTER'', ''sleep-ok''), (''CACHE_SELECTED'', ''observe-only''),
      (''CACHE_LOCKED'', ''sleep-ok-with-buffer-sleeplock''), (''CACHE_PARTITION_HELD'', ''spin-2cpu-ok''),
      (''CACHE_RELEASED'', ''observe-only''), (''LOG_APPENDED'', ''sleep-ok''), (''LOG_ABSORBED'', ''observe-only''),
      (''BEGIN_ADMITTED'', ''sleep-ok''), (''BEGIN_WAIT_SPACE'', ''observe-only''), (''IO_SUBMIT'', ''observe-only''),
      (''IO_COMPLETE'', ''observe-only''), (''HEADER_COMMIT_COMPLETE'', ''observe-only''),
      (''HOME_INSTALL_COMPLETE'', ''observe-only''), (''HEADER_CLEAR_COMPLETE'', ''observe-only'')]"

record contract =
  cc_cpus :: int
  cc_actors :: "(string, string list) dict"
  cc_oracle :: string
  cc_evidence :: "string list"
  cc_discovery :: "string option"
  cc_panic :: bool

definition CASE_CONTRACTS :: "(string, contract) dict" where
  "CASE_CONTRACTS =
     [(''transaction-flow'', \<lparr>cc_cpus = 1, cc_actors = [(''writer'',
         [''select-stable-home-block'', ''begin-op'', ''write-same-home-block-twice'', ''end-op'', ''orderly-stop''])],
         cc_oracle = ''transaction-state-machine'', cc_evidence = [''F'', ''R''], cc_discovery = None, cc_panic = False\<rparr>),
      (''log-capacity-empty'', \<lparr>cc_cpus = 2, cc_actors = [(''a'', [''begin-op'', ''hold'', ''end-op'']),
         (''b'', [''begin-op'', ''hold'', ''end-op'']), (''c'', [''begin-op'', ''hold'', ''end-op'']), (''d'', [''begin-op'', ''end-op''])],
         cc_oracle = ''empty-log-admission-bound'', cc_evidence = [''B'', ''C''], cc_discovery = None, cc_panic = False\<rparr>),
      (''log-capacity-used'', \<lparr>cc_cpus = 2, cc_actors = [(''a'', [''begin-op'', ''append-one-block'', ''hold'', ''end-op'']),
         (''b'', [''begin-op'', ''hold'', ''end-op'']), (''c'', [''begin-op'', ''end-op''])],
         cc_oracle = ''used-log-admission-bound'', cc_evidence = [''B'', ''C''], cc_discovery = None, cc_panic = False\<rparr>),
      (''cache-same-block'', \<lparr>cc_cpus = 2, cc_actors = [(''a'', [''read-uncached-target'', ''hold'', ''release'']),
         (''b'', [''read-uncached-target'', ''release''])],
         cc_oracle = ''one-buffer-per-block'', cc_evidence = [''C''], cc_discovery = None, cc_panic = False\<rparr>),
      (''cache-collision'', \<lparr>cc_cpus = 2, cc_actors = [(''a'', [''read-discovered-left'', ''hold'', ''release'']),
         (''b'', [''read-discovered-right'', ''hold'', ''release''])],
         cc_oracle = ''collision-keeps-distinct-identities'', cc_evidence = [''C''],
         cc_discovery = Some ''two-distinct-blocks-same-partition'', cc_panic = False\<rparr>),
      (''cache-parallel'', \<lparr>cc_cpus = 2, cc_actors = [(''a'', [''read-discovered-left'', ''release'']),
         (''b'', [''read-discovered-right'', ''release''])],
         cc_oracle = ''different-partitions-overlap'', cc_evidence = [''C''],
         cc_discovery = Some ''two-blocks-different-partitions'', cc_panic = False\<rparr>),
      (''cache-full'', \<lparr>cc_cpus = 1, cc_actors = [(''holder'', [''hold-nbuf-distinct-read-only-buffers'', ''request-one-more-buffer''])],
         cc_oracle = ''exact-no-buffer-panic'', cc_evidence = [''B''], cc_discovery = None, cc_panic = True\<rparr>)]"

definition expected_counts :: "(string, nat) dict" where
  "expected_counts =
     [(''transaction-flow'', 0), (''log-capacity-empty'', 1), (''log-capacity-used'', 2), (''cache-same-block'', 1),
      (''cache-collision'', 1), (''cache-parallel'', 1), (''cache-full'', 0)]"

section \<open>Operators of the interpreter\<close>

text \<open>\<open>set(x) == keys\<close> for a dict.\<close>

definition has_keys :: "json \<Rightarrow> string list \<Rightarrow> bool" where
  "has_keys x ks = (case x of JObj d \<Rightarrow> set (dkeys d) = set ks | _ \<Rightarrow> False)"

definition require_plain_int :: "json \<Rightarrow> string \<Rightarrow> int result" where
  "require_plain_int x message = (case x of JInt i \<Rightarrow> Inr i | _ \<Rightarrow> Inl (LabError message))"

text \<open>\<open>set(x)\<close> for a list: the elements up to equality; one that cannot be hashed raises.\<close>

definition json_set :: "json \<Rightarrow> json list result" where
  "json_set x = (case x of
      JList xs \<Rightarrow> if list_all hashable xs then Inr (remdups (map norm_json xs)) else Inl TypeError
    | _ \<Rightarrow> Inl TypeError)"

definition json_len :: "json \<Rightarrow> nat" where
  "json_len x = (case x of JList xs \<Rightarrow> length xs | _ \<Rightarrow> 0)"

text \<open>\<open>a and b\<close> where \<open>b\<close> may raise.\<close>

definition and_res :: "bool \<Rightarrow> bool result \<Rightarrow> bool result" where
  "and_res a b = (if a then b else Inr False)"

section \<open>Gates\<close>

definition gate_keys :: "json \<Rightarrow> string \<Rightarrow> string list result" where
  "gate_keys mode case_id =
     (let keys = [''id'', ''mode'', ''point'', ''actors''] in
      if mode = JStr ''hold-until-event'' then Inr (''release_after'' # keys)
      else if mode = JStr ''rendezvous-spin'' then Inr (''iteration_budget'' # keys)
      else bind_res (require (mode = JStr ''rendezvous-sleep'') (case_id @ '' has unknown gate mode'')) (\<lambda>_. Inr keys))"

definition gate_release :: "string \<Rightarrow> string list \<Rightarrow> string \<Rightarrow> json \<Rightarrow> json \<Rightarrow> json \<Rightarrow> unit result" where
  "gate_release case_id actor_ids capability point actors release =
     bind_res (and_res (is_obj release \<and> has_keys release [''point'', ''actor''])
       (bind_res (jindex release ''point'') (\<lambda>p.
        bind_res (in_keys p (dkeys POINT_CAPABILITIES)) (\<lambda>known.
        and_res known (bind_res (jindex release ''actor'') (\<lambda>a. in_keys a actor_ids)))))) (\<lambda>ok.
     bind_res (require ok (case_id @ '' gate release target changed'')) (\<lambda>_.
     if capability = ''sleep-ok-with-buffer-sleeplock'' then
       bind_res (jindex release ''point'') (\<lambda>p.
       bind_res (jindex release ''actor'') (\<lambda>a.
       bind_res (jiter actors) (\<lambda>members.
         require (\<not> (json_eq p point \<and> list_ex (json_eq a) members)) (case_id @ '' buffer-lock gate has a self-dependent release''))))
     else Inr ()))"

definition gate_actors :: "string list \<Rightarrow> json \<Rightarrow> bool result" where
  "gate_actors actor_ids actors =
     and_res (is_list actors \<and> truthy actors)
       (bind_res (json_set actors) (\<lambda>members.
         Inr (json_len actors = length members \<and> list_all (\<lambda>a. a \<in> JStr ` set actor_ids) members)))"

definition gate_step :: "string \<Rightarrow> json \<Rightarrow> string list \<Rightarrow> string list \<Rightarrow> json \<Rightarrow> string list result" where
  "gate_step case_id cas actor_ids gate_ids gate =
     bind_res (require (is_obj gate) (case_id @ '' gate must be an object'')) (\<lambda>_.
     bind_res (jget gate ''mode'') (\<lambda>mode.
     bind_res (gate_keys mode case_id) (\<lambda>keys.
     bind_res (require (has_keys gate keys) (case_id @ '' gate fields changed'')) (\<lambda>_.
     bind_res (jindex gate ''id'') (\<lambda>gate_id.
     bind_res (require (is_str gate_id \<and> truthy gate_id \<and> gate_id \<notin> JStr ` set gate_ids)
       (case_id @ '' gate ID is missing or duplicated'')) (\<lambda>_.
     bind_res (as_str gate_id) (\<lambda>name.
     bind_res (jindex gate ''point'') (\<lambda>point.
     bind_res (in_keys point (dkeys POINT_CAPABILITIES)) (\<lambda>known.
     bind_res (require known (case_id @ '' gate uses unknown point'')) (\<lambda>_.
     bind_res (jindex gate ''actors'') (\<lambda>actors.
     bind_res (gate_actors actor_ids actors) (\<lambda>ok.
     bind_res (require ok (case_id @ '' gate actors changed'')) (\<lambda>_.
     bind_res (as_str point) (\<lambda>point_name.
     bind_res (dget POINT_CAPABILITIES point_name) (\<lambda>capability.
     bind_res (require (capability \<noteq> ''observe-only'') (case_id @ '' attempts to block at observe-only point'')) (\<lambda>_.
     bind_res (if mode = JStr ''rendezvous-spin'' then
         bind_res (jindex cas ''cpus'') (\<lambda>cpus.
         bind_res (require (capability = ''spin-2cpu-ok'' \<and> json_eq cpus (JInt 2) \<and> json_len actors = 2)
           (case_id @ '' spin gate capability/CPU/actor contract changed'')) (\<lambda>_.
         bind_res (jindex gate ''iteration_budget'') (\<lambda>value.
         bind_res (require_plain_int value (case_id @ '' spin budget must be int'')) (\<lambda>budget.
           require (1 \<le> budget \<and> budget \<le> 100000000) (case_id @ '' spin budget is not finite'')))))
       else require (capability \<in> {''sleep-ok'', ''sleep-ok-with-buffer-sleeplock''}) (case_id @ '' sleep gate capability changed'')) (\<lambda>_.
     bind_res (if mode = JStr ''hold-until-event'' then
         bind_res (jindex gate ''release_after'') (gate_release case_id actor_ids capability point actors)
       else Inr ()) (\<lambda>_.
       Inr (name # gate_ids)))))))))))))))))))"

definition validate_gates :: "string \<Rightarrow> json \<Rightarrow> string list \<Rightarrow> unit result" where
  "validate_gates case_id cas actor_ids =
     bind_res (jindex cas ''gates'') (\<lambda>gates.
     bind_res (require (is_list gates) (case_id @ '' gates must be a list'')) (\<lambda>_.
     bind_res (jiter gates) (\<lambda>members.
     bind_res (fold_res (gate_step case_id cas actor_ids) [] members) (\<lambda>_.
     bind_res (dget expected_counts case_id) (\<lambda>expected.
       require (length members = expected) (case_id @ '' gate count changed''))))))"

section \<open>Cases\<close>

definition actor_step :: "string \<Rightarrow> (string, string list) dict \<Rightarrow> json \<Rightarrow> (string, string list) dict result" where
  "actor_step case_id actual actor =
     bind_res (require (is_obj actor \<and> has_keys actor [''id'', ''actions'']) (case_id @ '' actor fields changed'')) (\<lambda>_.
     bind_res (jindex actor ''id'') (\<lambda>actor_id.
     bind_res (require (is_str actor_id \<and> actor_id \<notin> JStr ` set (dkeys actual)) (case_id @ '' actor ID is missing or duplicated'')) (\<lambda>_.
     bind_res (jindex actor ''actions'') (\<lambda>actions.
     bind_res (require (case actions of JList xs \<Rightarrow> list_all is_str xs | _ \<Rightarrow> False) (case_id @ '' actor actions changed'')) (\<lambda>_.
     bind_res (as_str actor_id) (\<lambda>name.
     bind_res (jiter actions) (\<lambda>xs.
     bind_res (map_res as_str xs) (\<lambda>names.
       Inr (dput name names actual)))))))))"

definition case_keys :: "contract \<Rightarrow> string list" where
  "case_keys expected =
     [''id'', ''cpus'', ''actors'', ''gates'', ''oracle'', ''evidence''] @ (if cc_discovery expected \<noteq> None then [''discovery''] else []) @
     (if cc_panic expected then [''isolated_panic_run''] else [])"

definition scenario_step :: "json \<Rightarrow> unit result" where
  "scenario_step cas =
     bind_res (require (is_obj cas) ''scenario case must be an object'') (\<lambda>_.
     bind_res (jindex cas ''id'') (\<lambda>value.
     bind_res (as_str value) (\<lambda>case_id.
     bind_res (dget CASE_CONTRACTS case_id) (\<lambda>expected.
     bind_res (require (has_keys cas (case_keys expected)) (case_id @ '' fields changed'')) (\<lambda>_.
     bind_res (jindex cas ''cpus'') (\<lambda>value.
     bind_res (require_plain_int value (case_id @ '' cpus must be int'')) (\<lambda>cpus.
     bind_res (require (cpus = cc_cpus expected) (case_id @ '' CPU contract changed'')) (\<lambda>_.
     bind_res (jindex cas ''oracle'') (\<lambda>value.
     bind_res (require (value = JStr (cc_oracle expected)) (case_id @ '' oracle changed'')) (\<lambda>_.
     bind_res (jindex cas ''evidence'') (\<lambda>evidence.
     bind_res (and_res (is_list evidence) (bind_res (json_set evidence) (\<lambda>members.
         Inr (set members = JStr ` set (cc_evidence expected) \<and> json_len evidence = length (cc_evidence expected))))) (\<lambda>ok.
     bind_res (require ok (case_id @ '' evidence dimensions changed'')) (\<lambda>_.
     bind_res (case cc_discovery expected of
         None \<Rightarrow> Inr ()
       | Some text \<Rightarrow> bind_res (jindex cas ''discovery'') (\<lambda>value. require (value = JStr text) (case_id @ '' discovery changed''))) (\<lambda>_.
     bind_res (if cc_panic expected then
         bind_res (jindex cas ''isolated_panic_run'') (\<lambda>value. require (value = JBool True) ''cache-full must remain an isolated panic run'')
       else Inr ()) (\<lambda>_.
     bind_res (jindex cas ''actors'') (\<lambda>actors.
     bind_res (require (is_list actors \<and> json_len actors = length (cc_actors expected)) (case_id @ '' actors changed'')) (\<lambda>_.
     bind_res (jiter actors) (\<lambda>members.
     bind_res (fold_res (actor_step case_id) [] members) (\<lambda>actual.
     bind_res (require (set actual = set (cc_actors expected)) (case_id @ '' actor/action contract changed'')) (\<lambda>_.
       validate_gates case_id cas (dkeys actual)))))))))))))))))))))"

section \<open>The scenario file\<close>

definition validate_scenarios :: "json \<Rightarrow> json result" where
  "validate_scenarios data =
     bind_res (requires
       [(is_obj data, ''scenario root must be an object''),
        (has_keys data [''schema_version'', ''event_schema_version'', ''defaults'', ''point_capabilities'', ''cases''],
         ''scenario root fields changed'')]) (\<lambda>_.
     bind_res (jindex data ''schema_version'') (\<lambda>value.
     bind_res (require_plain_int value ''scenario schema_version must be int'') (\<lambda>schema.
     bind_res (jindex data ''event_schema_version'') (\<lambda>value.
     bind_res (require_plain_int value ''event_schema_version must be int'') (\<lambda>event_schema.
     bind_res (require (schema = event_schema \<and> event_schema = 1) ''scenario/event schema version changed'') (\<lambda>_.
     bind_res (jindex data ''defaults'') (\<lambda>defaults.
     bind_res (require (is_obj defaults \<and> has_keys defaults [''image'', ''event_budget'', ''watchdog_seconds'', ''cleanup''])
       ''scenario defaults fields changed'') (\<lambda>_.
     bind_res (jindex defaults ''image'') (\<lambda>image_mode.
     bind_res (jindex defaults ''cleanup'') (\<lambda>cleanup_mode.
     bind_res (require (image_mode = JStr ''private-copy'' \<and> cleanup_mode = JStr ''required'')
       ''scenario isolation/cleanup default changed'') (\<lambda>_.
     bind_res (jindex defaults ''event_budget'') (\<lambda>value.
     bind_res (require_plain_int value ''event_budget must be int'') (\<lambda>budget.
     bind_res (jindex defaults ''watchdog_seconds'') (\<lambda>value.
     bind_res (require_plain_int value ''watchdog_seconds must be int'') (\<lambda>watchdog.
     bind_res (require (budget = EVENT_BUDGET \<and> 1 \<le> watchdog \<and> watchdog \<le> 300) ''scenario budget/watchdog changed'') (\<lambda>_.
     bind_res (jindex data ''point_capabilities'') (\<lambda>capabilities.
     bind_res (require (json_eq capabilities (JObj (map (map_prod id JStr) POINT_CAPABILITIES))) ''point capability table changed'') (\<lambda>_.
     bind_res (jindex data ''cases'') (\<lambda>cases.
     bind_res (require (is_list cases \<and> json_len cases = length CASE_CONTRACTS) ''scenario suite must contain exactly seven cases'') (\<lambda>_.
     bind_res (jiter cases) (\<lambda>members.
     bind_res (map_res (\<lambda>item. jget item ''id'') members) (\<lambda>ids.
     bind_res (require (ids = map JStr (dkeys CASE_CONTRACTS)) ''scenario order or IDs changed'') (\<lambda>_.
     bind_res (fold_res (\<lambda>_. scenario_step) () members) (\<lambda>_.
       Inr data))))))))))))))))))))))))"

text \<open>The fields that the trace checks read from an accepted file.\<close>

definition plain_int :: "json \<Rightarrow> int" where
  "plain_int x = (case x of JInt i \<Rightarrow> i | _ \<Rightarrow> 0)"

definition plain_str :: "json \<Rightarrow> string" where
  "plain_str x = (case x of JStr s \<Rightarrow> s | _ \<Rightarrow> [])"

definition jfield :: "json \<Rightarrow> string \<Rightarrow> json" where
  "jfield x k = (case jindex x k of Inr v \<Rightarrow> v | Inl _ \<Rightarrow> JNull)"

definition jitems :: "json \<Rightarrow> json list" where
  "jitems x = (case x of JList xs \<Rightarrow> xs | _ \<Rightarrow> [])"

definition scenarios_of :: "json \<Rightarrow> scenarios" where
  "scenarios_of data =
     \<lparr>sn_event_schema_version = plain_int (jfield data ''event_schema_version''),
      sn_event_budget = plain_int (jfield (jfield data ''defaults'') ''event_budget''),
      sn_cases = map (\<lambda>c. (plain_str (jfield c ''id''), plain_int (jfield c ''cpus''))) (jitems (jfield data ''cases''))\<rparr>"

end
