(* ===== verification/PersistScenarioProps.thy ===== *)
theory PersistScenarioProps
  imports PersistScenario PersistReplay
begin

text \<open>
  What an accepted scenario file establishes: the runtime cases find their scenarios, and every gate
  blocks only where blocking is possible.  The published scenario file is an accepted one.
\<close>

section \<open>The published file\<close>

definition published_case0 :: json where
  "published_case0 =
     JObj [(''id'', JStr ''transaction-flow''), (''cpus'', JInt 1), (''actors'', JList [JObj [(''id'', JStr ''writer''),
     (''actions'', JList [JStr ''select-stable-home-block'', JStr ''begin-op'', JStr ''write-same-home-block-twice'', JStr
     ''end-op'', JStr ''orderly-stop''])]]), (''gates'', JList []), (''oracle'', JStr ''transaction-state-machine''),
     (''evidence'', JList [JStr ''F'', JStr ''R''])]"

definition published_case1 :: json where
  "published_case1 =
     JObj [(''id'', JStr ''log-capacity-empty''), (''cpus'', JInt 2), (''actors'', JList [JObj [(''id'', JStr ''a''),
     (''actions'', JList [JStr ''begin-op'', JStr ''hold'', JStr ''end-op''])], JObj [(''id'', JStr ''b''), (''actions'', JList
     [JStr ''begin-op'', JStr ''hold'', JStr ''end-op''])], JObj [(''id'', JStr ''c''), (''actions'', JList [JStr ''begin-op'',
     JStr ''hold'', JStr ''end-op''])], JObj [(''id'', JStr ''d''), (''actions'', JList [JStr ''begin-op'', JStr ''end-op''])]]),
     (''gates'', JList [JObj [(''id'', JStr ''hold-three-admitted''), (''mode'', JStr ''hold-until-event''), (''point'', JStr
     ''BEGIN_ADMITTED''), (''actors'', JList [JStr ''a'', JStr ''b'', JStr ''c'']), (''release_after'', JObj [(''point'', JStr
     ''BEGIN_WAIT_SPACE''), (''actor'', JStr ''d'')])]]), (''oracle'', JStr ''empty-log-admission-bound''), (''evidence'', JList
     [JStr ''B'', JStr ''C''])]"

definition published_case2 :: json where
  "published_case2 =
     JObj [(''id'', JStr ''log-capacity-used''), (''cpus'', JInt 2), (''actors'', JList [JObj [(''id'', JStr ''a''), (''actions'',
     JList [JStr ''begin-op'', JStr ''append-one-block'', JStr ''hold'', JStr ''end-op''])], JObj [(''id'', JStr ''b''),
     (''actions'', JList [JStr ''begin-op'', JStr ''hold'', JStr ''end-op''])], JObj [(''id'', JStr ''c''), (''actions'', JList
     [JStr ''begin-op'', JStr ''end-op''])]]), (''gates'', JList [JObj [(''id'', JStr ''hold-one-log-entry''), (''mode'', JStr
     ''hold-until-event''), (''point'', JStr ''LOG_APPENDED''), (''actors'', JList [JStr ''a'']), (''release_after'', JObj
     [(''point'', JStr ''BEGIN_WAIT_SPACE''), (''actor'', JStr ''c'')])], JObj [(''id'', JStr ''hold-second-operation''),
     (''mode'', JStr ''hold-until-event''), (''point'', JStr ''BEGIN_ADMITTED''), (''actors'', JList [JStr ''b'']),
     (''release_after'', JObj [(''point'', JStr ''BEGIN_WAIT_SPACE''), (''actor'', JStr ''c'')])]]), (''oracle'', JStr
     ''used-log-admission-bound''), (''evidence'', JList [JStr ''B'', JStr ''C''])]"

definition published_case3 :: json where
  "published_case3 =
     JObj [(''id'', JStr ''cache-same-block''), (''cpus'', JInt 2), (''actors'', JList [JObj [(''id'', JStr ''a''), (''actions'',
     JList [JStr ''read-uncached-target'', JStr ''hold'', JStr ''release''])], JObj [(''id'', JStr ''b''), (''actions'', JList
     [JStr ''read-uncached-target'', JStr ''release''])]]), (''gates'', JList [JObj [(''id'', JStr ''hold-first-buffer''),
     (''mode'', JStr ''hold-until-event''), (''point'', JStr ''CACHE_LOCKED''), (''actors'', JList [JStr ''a'']),
     (''release_after'', JObj [(''point'', JStr ''CACHE_SELECTED''), (''actor'', JStr ''b'')])]]), (''oracle'', JStr
     ''one-buffer-per-block''), (''evidence'', JList [JStr ''C''])]"

definition published_case4 :: json where
  "published_case4 =
     JObj [(''id'', JStr ''cache-collision''), (''cpus'', JInt 2), (''discovery'', JStr ''two-distinct-blocks-same-partition''),
     (''actors'', JList [JObj [(''id'', JStr ''a''), (''actions'', JList [JStr ''read-discovered-left'', JStr ''hold'', JStr
     ''release''])], JObj [(''id'', JStr ''b''), (''actions'', JList [JStr ''read-discovered-right'', JStr ''hold'', JStr
     ''release''])]]), (''gates'', JList [JObj [(''id'', JStr ''collision-coexist''), (''mode'', JStr ''rendezvous-sleep''),
     (''point'', JStr ''CACHE_LOCKED''), (''actors'', JList [JStr ''a'', JStr ''b''])]]), (''oracle'', JStr
     ''collision-keeps-distinct-identities''), (''evidence'', JList [JStr ''C''])]"

definition published_case5 :: json where
  "published_case5 =
     JObj [(''id'', JStr ''cache-parallel''), (''cpus'', JInt 2), (''discovery'', JStr ''two-blocks-different-partitions''),
     (''actors'', JList [JObj [(''id'', JStr ''a''), (''actions'', JList [JStr ''read-discovered-left'', JStr ''release''])], JObj
     [(''id'', JStr ''b''), (''actions'', JList [JStr ''read-discovered-right'', JStr ''release''])]]), (''gates'', JList [JObj
     [(''id'', JStr ''parallel-critical-sections''), (''mode'', JStr ''rendezvous-spin''), (''point'', JStr
     ''CACHE_PARTITION_HELD''), (''actors'', JList [JStr ''a'', JStr ''b'']), (''iteration_budget'', JInt 10000000)]]),
     (''oracle'', JStr ''different-partitions-overlap''), (''evidence'', JList [JStr ''C''])]"

definition published_case6 :: json where
  "published_case6 =
     JObj [(''id'', JStr ''cache-full''), (''cpus'', JInt 1), (''isolated_panic_run'', JBool True), (''actors'', JList [JObj
     [(''id'', JStr ''holder''), (''actions'', JList [JStr ''hold-nbuf-distinct-read-only-buffers'', JStr
     ''request-one-more-buffer''])]]), (''gates'', JList []), (''oracle'', JStr ''exact-no-buffer-panic''), (''evidence'', JList
     [JStr ''B''])]"

definition published_scenarios :: json where
  "published_scenarios =
     JObj [(''schema_version'', JInt 1), (''event_schema_version'', JInt 1), (''defaults'', JObj [(''image'', JStr
     ''private-copy''), (''event_budget'', JInt 512), (''watchdog_seconds'', JInt 45), (''cleanup'', JStr ''required'')]),
     (''point_capabilities'', JObj [(''CACHE_GET_ENTER'', JStr ''sleep-ok''), (''CACHE_SELECTED'', JStr ''observe-only''),
     (''CACHE_LOCKED'', JStr ''sleep-ok-with-buffer-sleeplock''), (''CACHE_PARTITION_HELD'', JStr ''spin-2cpu-ok''),
     (''CACHE_RELEASED'', JStr ''observe-only''), (''LOG_APPENDED'', JStr ''sleep-ok''), (''LOG_ABSORBED'', JStr
     ''observe-only''), (''BEGIN_ADMITTED'', JStr ''sleep-ok''), (''BEGIN_WAIT_SPACE'', JStr ''observe-only''), (''IO_SUBMIT'',
     JStr ''observe-only''), (''IO_COMPLETE'', JStr ''observe-only''), (''HEADER_COMMIT_COMPLETE'', JStr ''observe-only''),
     (''HOME_INSTALL_COMPLETE'', JStr ''observe-only''), (''HEADER_CLEAR_COMPLETE'', JStr ''observe-only'')]), (''cases'', JList
     [published_case0, published_case1, published_case2, published_case3, published_case4, published_case5, published_case6])]"

lemma published_ok: "validate_scenarios published_scenarios = Inr published_scenarios"
  by code_simp

section \<open>Accepted gates\<close>

lemma jfield_eq: "jindex x k = Inr v \<Longrightarrow> jfield x k = v"
  by (simp add: jfield_def)

lemma and_res_True [result_simps]: "and_res a b = Inr True \<longleftrightarrow> a \<and> b = Inr True"
  by (simp add: and_res_def)

lemma require_plain_int_Inr [result_simps]: "require_plain_int x m = Inr i \<longleftrightarrow> x = JInt i"
  by (cases x) (auto simp: require_plain_int_def)

lemma jiter_list: "is_list x \<Longrightarrow> jiter x = Inr (jitems x)"
  by (cases x) (simp_all add: jitems_def)

lemma norm_json_eq_JStr: "norm_json a \<in> JStr ` A \<longleftrightarrow> a \<in> JStr ` A"
  by (auto simp: image_iff eq_commute [of "norm_json a"])

lemma gate_actors_True:
  assumes "gate_actors ids actors = Inr True"
  shows "jitems actors \<noteq> []" and "distinct (jitems actors)" and "set (jitems actors) \<subseteq> JStr ` set ids"
proof -
  obtain xs where xs: "actors = JList xs" "xs \<noteq> []" "length xs = length (remdups (map norm_json xs))"
    and mem: "set xs \<subseteq> JStr ` set ids"
    using assms
    by (cases actors) (auto simp: gate_actors_def json_set_def json_len_def list_all_iff norm_json_eq_JStr result_simps split: if_splits)
  then show "jitems actors \<noteq> []" "set (jitems actors) \<subseteq> JStr ` set ids" by (simp_all add: jitems_def)
  have "distinct (map norm_json xs)" using xs(3) by (metis length_map length_remdups_eq remdups_id_iff_distinct)
  then show "distinct (jitems actors)" by (simp add: xs(1) jitems_def distinct_map)
qed

text \<open>
  A gate that can only block where the kernel can be blocked: at a point with a blocking capability, for
  distinct actors of the case; a spinning rendezvous is one of two actors on two processors with a finite
  budget; and a holder of a buffer lock is not released by an event of its own at the same point.
\<close>

definition gate_sound :: "json \<Rightarrow> string list \<Rightarrow> json \<Rightarrow> bool" where
  "gate_sound cas actor_ids gate \<longleftrightarrow>
     (\<exists>point capability. jfield gate ''point'' = JStr point \<and> map_of POINT_CAPABILITIES point = Some capability \<and>
        capability \<noteq> ''observe-only'' \<and>
        jitems (jfield gate ''actors'') \<noteq> [] \<and> distinct (jitems (jfield gate ''actors'')) \<and>
        set (jitems (jfield gate ''actors'')) \<subseteq> JStr ` set actor_ids \<and>
        (if jfield gate ''mode'' = JStr ''rendezvous-spin''
         then capability = ''spin-2cpu-ok'' \<and> json_eq (jfield cas ''cpus'') (JInt 2) \<and> length (jitems (jfield gate ''actors'')) = 2 \<and>
           (\<exists>budget. jfield gate ''iteration_budget'' = JInt budget \<and> 1 \<le> budget \<and> budget \<le> 100000000)
         else capability \<in> {''sleep-ok'', ''sleep-ok-with-buffer-sleeplock''}) \<and>
        (jfield gate ''mode'' = JStr ''hold-until-event'' \<longrightarrow>
           jfield (jfield gate ''release_after'') ''actor'' \<in> JStr ` set actor_ids \<and>
           (capability = ''sleep-ok-with-buffer-sleeplock'' \<longrightarrow>
              jfield (jfield gate ''release_after'') ''point'' \<noteq> JStr point \<or>
              jfield (jfield gate ''release_after'') ''actor'' \<notin> set (jitems (jfield gate ''actors'')))))"

lemma gate_release_sound:
  assumes "gate_release case_id ids capability point actors release = Inr ()" and "set (jitems actors) \<subseteq> JStr ` A"
    and "point = JStr p" and "is_list actors"
  shows "jfield release ''actor'' \<in> JStr ` set ids" and "capability = ''sleep-ok-with-buffer-sleeplock'' \<Longrightarrow>
    jfield release ''point'' \<noteq> point \<or> jfield release ''actor'' \<notin> set (jitems actors)"
proof -
  obtain a where a: "jindex release ''actor'' = Inr a" "in_keys a ids = Inr True"
    and rest: "(if capability = ''sleep-ok-with-buffer-sleeplock'' then
       bind_res (jindex release ''point'') (\<lambda>p.
       bind_res (jindex release ''actor'') (\<lambda>a.
       bind_res (jiter actors) (\<lambda>members.
         require (\<not> (json_eq p point \<and> list_ex (json_eq a) members)) (case_id @ '' buffer-lock gate has a self-dependent release''))))
     else Inr ()) = Inr ()"
    using assms(1) unfolding gate_release_def by (auto simp: and_res_True bind_res_eq_Inr require_eq_Inr)
  show act: "jfield release ''actor'' \<in> JStr ` set ids" using a by (auto simp: jfield_def in_keys_Inr)
  assume cap: "capability = ''sleep-ok-with-buffer-sleeplock''"
  obtain q where "jindex release ''point'' = Inr q" "\<not> (json_eq q point \<and> list_ex (json_eq a) (jitems actors))"
    using rest cap a(1) by (auto simp: bind_res_eq_Inr require_eq_Inr jiter_list [OF assms(4)])
  then show "jfield release ''point'' \<noteq> point \<or> jfield release ''actor'' \<notin> set (jitems actors)"
    using a(1) by (auto simp: jfield_def list_ex_iff)
qed

lemma gate_step_sound:
  assumes "gate_step case_id cas ids seen gate = Inr seen'"
  shows "gate_sound cas ids gate"
proof -
  obtain mode point p actors ok capability u v u1 u2 u3 where mode: "jget gate ''mode'' = Inr mode"
    and obj: "require (is_obj gate) (case_id @ '' gate must be an object'') = Inr u1" and point: "jindex gate ''point'' = Inr point" "as_str point = Inr p"
    and actors: "jindex gate ''actors'' = Inr actors" "gate_actors ids actors = Inr ok"
      "require ok (case_id @ '' gate actors changed'') = Inr u2"
    and cap: "dget POINT_CAPABILITIES p = Inr capability"
      "require (capability \<noteq> ''observe-only'') (case_id @ '' attempts to block at observe-only point'') = Inr u3"
    and spin: "(if mode = JStr ''rendezvous-spin'' then
         bind_res (jindex cas ''cpus'') (\<lambda>cpus.
         bind_res (require (capability = ''spin-2cpu-ok'' \<and> json_eq cpus (JInt 2) \<and> json_len actors = 2)
           (case_id @ '' spin gate capability/CPU/actor contract changed'')) (\<lambda>_.
         bind_res (jindex gate ''iteration_budget'') (\<lambda>value.
         bind_res (require_plain_int value (case_id @ '' spin budget must be int'')) (\<lambda>budget.
           require (1 \<le> budget \<and> budget \<le> 100000000) (case_id @ '' spin budget is not finite'')))))
       else require (capability \<in> {''sleep-ok'', ''sleep-ok-with-buffer-sleeplock''}) (case_id @ '' sleep gate capability changed'')) = Inr u"
    and hold: "(if mode = JStr ''hold-until-event'' then
         bind_res (jindex gate ''release_after'') (gate_release case_id ids capability point actors)
       else Inr ()) = Inr v"
    using assms unfolding gate_step_def
    by (elim bind_res_InrE) (rule that, assumption+)
  have m: "jfield gate ''mode'' = mode" "jfield gate ''point'' = JStr p" "jfield gate ''actors'' = actors"
    using mode obj point actors(1) unfolding require_eq_Inr
    by (cases gate; auto simp: jfield_def jget_def dget_def dget_or_def as_str_Inr split: option.splits)+
  have ga: "gate_actors ids actors = Inr True" using actors by (simp add: require_eq_Inr)
  note A = gate_actors_True [OF ga]
  have list: "is_list actors" "json_len actors = length (jitems actors)"
    using ga by (cases actors; simp add: gate_actors_def and_res_def json_len_def jitems_def)+
  have c: "map_of POINT_CAPABILITIES p = Some capability" using cap(1) by (simp add: dget_def split: option.splits)
  have S: "if mode = JStr ''rendezvous-spin''
     then capability = ''spin-2cpu-ok'' \<and> json_eq (jfield cas ''cpus'') (JInt 2) \<and> length (jitems actors) = 2 \<and>
       (\<exists>budget. jfield gate ''iteration_budget'' = JInt budget \<and> 1 \<le> budget \<and> budget \<le> 100000000)
     else capability \<in> {''sleep-ok'', ''sleep-ok-with-buffer-sleeplock''}"
    using spin list(2) by (auto simp: bind_res_eq_Inr require_eq_Inr require_plain_int_Inr jfield_eq split: if_splits)
  have H: "jfield (jfield gate ''release_after'') ''actor'' \<in> JStr ` set ids \<and>
     (capability = ''sleep-ok-with-buffer-sleeplock'' \<longrightarrow>
        jfield (jfield gate ''release_after'') ''point'' \<noteq> JStr p \<or> jfield (jfield gate ''release_after'') ''actor'' \<notin> set (jitems actors))"
    if held: "mode = JStr ''hold-until-event''"
  proof -
    obtain release where r: "jindex gate ''release_after'' = Inr release" "gate_release case_id ids capability point actors release = Inr ()"
      using hold held by (auto simp: bind_res_eq_Inr)
    note G = gate_release_sound [OF r(2) A(3) _ list(1)]
    show ?thesis using G [of p] point(2) r(1) by (simp add: jfield_eq as_str_Inr)
  qed
  show ?thesis unfolding gate_sound_def m using c cap(2) [unfolded require_eq_Inr] A S H by auto
qed

section \<open>Accepted cases\<close>

lemma gate_sound_cong: "set ids = set ids' \<Longrightarrow> gate_sound cas ids gate = gate_sound cas ids' gate"
  by (simp add: gate_sound_def)

lemma validate_gates_sound:
  assumes "validate_gates case_id cas ids = Inr u" and "gate \<in> set (jitems (jfield cas ''gates''))"
  shows "gate_sound cas ids gate"
proof -
  obtain gates members seen u1 where g: "jindex cas ''gates'' = Inr gates" "require (is_list gates) (case_id @ '' gates must be a list'') = Inr u1"
    "jiter gates = Inr members" "fold_res (gate_step case_id cas ids) [] members = Inr seen"
    using assms(1) unfolding validate_gates_def by (elim bind_res_InrE) (rule that, assumption+)
  have "members = jitems (jfield cas ''gates'')"
    using g(1-3) by (simp add: require_eq_Inr jiter_list jfield_eq)
  then show ?thesis using fold_res_member [OF g(4)] assms(2) gate_step_sound by metis
qed

lemma scenario_step_sound:
  assumes "scenario_step cas = Inr u"
  obtains case_id expected where "jfield cas ''id'' = JStr case_id" and "map_of CASE_CONTRACTS case_id = Some expected"
    and "jfield cas ''cpus'' = JInt (cc_cpus expected)"
    and "\<forall>gate \<in> set (jitems (jfield cas ''gates'')). gate_sound cas (dkeys (cc_actors expected)) gate"
proof -
  obtain v case_id expected w cpus actual u1 u2 where c: "jindex cas ''id'' = Inr v" "as_str v = Inr case_id"
    "dget CASE_CONTRACTS case_id = Inr expected" "jindex cas ''cpus'' = Inr w"
    "require_plain_int w (case_id @ '' cpus must be int'') = Inr cpus"
    "require (cpus = cc_cpus expected) (case_id @ '' CPU contract changed'') = Inr u1"
    "require (set actual = set (cc_actors expected)) (case_id @ '' actor/action contract changed'') = Inr u2"
    "validate_gates case_id cas (dkeys actual) = Inr u"
    using assms unfolding scenario_step_def by (elim bind_res_InrE) (rule that, assumption+)
  have keys: "set (dkeys actual) = set (dkeys (cc_actors expected))"
    using c(7) by (simp add: require_eq_Inr dkeys_def)
  show ?thesis
  proof (rule that [of case_id expected])
    show "jfield cas ''id'' = JStr case_id" using c(1,2) by (simp add: jfield_eq as_str_Inr)
    show "map_of CASE_CONTRACTS case_id = Some expected" using c(3) by (simp add: dget_def split: option.splits)
    show "jfield cas ''cpus'' = JInt (cc_cpus expected)" using c(4-6) by (simp add: jfield_eq require_eq_Inr require_plain_int_Inr)
    show "\<forall>gate \<in> set (jitems (jfield cas ''gates'')). gate_sound cas (dkeys (cc_actors expected)) gate"
      using validate_gates_sound [OF c(8)] gate_sound_cong [OF keys] by blast
  qed
qed

lemma validate_scenarios_cases:
  assumes "validate_scenarios data = Inr d"
  shows "d = data" and "\<forall>c \<in> set (jitems (jfield data ''cases'')). scenario_step c = Inr ()"
    and "map (\<lambda>c. jfield c ''id'') (jitems (jfield data ''cases'')) = map JStr (dkeys CASE_CONTRACTS)"
proof -
  obtain cases members ids u1 u2 u3 where c: "jindex data ''cases'' = Inr cases"
    "require (is_list cases \<and> json_len cases = length CASE_CONTRACTS) ''scenario suite must contain exactly seven cases'' = Inr u1"
    "jiter cases = Inr members" "map_res (\<lambda>item. jget item ''id'') members = Inr ids"
    "require (ids = map JStr (dkeys CASE_CONTRACTS)) ''scenario order or IDs changed'' = Inr u2"
    "fold_res (\<lambda>_. scenario_step) () members = Inr u3" "(Inr data :: json result) = Inr d"
    using assms unfolding validate_scenarios_def by (elim bind_res_InrE) (rule that, assumption+)
  show "d = data" using c(7) by simp
  have m: "members = jitems (jfield data ''cases'')" using c(1-3) by (simp add: require_eq_Inr jiter_list jfield_eq)
  show all: "\<forall>c \<in> set (jitems (jfield data ''cases'')). scenario_step c = Inr ()"
    using fold_res_member [OF c(6)] unfolding m by auto
  have "list_all2 (\<lambda>x y. jget x ''id'' = Inr y) members ids" using c(4) by (simp add: map_res_eq_Inr)
  moreover have "jfield x ''id'' = y" if "x \<in> set members" "jget x ''id'' = Inr y" for x y
  proof -
    have "scenario_step x = Inr ()" using all that(1) unfolding m by blast
    then obtain i where "jfield x ''id'' = JStr i" by (rule scenario_step_sound)
    then show ?thesis using that(2) by (cases x) (auto simp: jfield_def jget_def dget_def dget_or_def split: option.splits)
  qed
  ultimately have "map (\<lambda>x. jfield x ''id'') members = ids"
    by (auto simp: list_all2_conv_all_nth intro!: nth_equalityI)
  then show "map (\<lambda>c. jfield c ''id'') (jitems (jfield data ''cases'')) = map JStr (dkeys CASE_CONTRACTS)"
    using c(5) by (simp add: require_eq_Inr m)
qed

lemma accepted_case_table:
  assumes "validate_scenarios data = Inr d"
  shows "sn_cases (scenarios_of data) = map (\<lambda>(k, c). (k, cc_cpus c)) CASE_CONTRACTS"
proof -
  let ?cs = "jitems (jfield data ''cases'')"
  note V = validate_scenarios_cases [OF assms]
  have f: "plain_int (jfield c ''cpus'') = cc_cpus (the (map_of CASE_CONTRACTS (plain_str (jfield c ''id''))))"
    if c: "c \<in> set ?cs" for c
  proof -
    have "scenario_step c = Inr ()" using V(2) c by blast
    then show ?thesis by (rule scenario_step_sound) (simp add: plain_int_def plain_str_def)
  qed
  have "sn_cases (scenarios_of data) = map (\<lambda>x. (plain_str x, cc_cpus (the (map_of CASE_CONTRACTS (plain_str x))))) (map (\<lambda>c. jfield c ''id'') ?cs)"
    using f by (simp add: scenarios_of_def)
  also have "\<dots> = map (\<lambda>k. (k, cc_cpus (the (map_of CASE_CONTRACTS k)))) (dkeys CASE_CONTRACTS)"
    unfolding V(3) by (simp add: plain_str_def)
  also have "\<dots> = map (\<lambda>(k, c). (k, cc_cpus c)) CASE_CONTRACTS" by code_simp
  finally show ?thesis .
qed

lemma accepted_header:
  assumes "validate_scenarios data = Inr d"
  shows "sn_event_schema_version (scenarios_of data) = 1" and "sn_event_budget (scenarios_of data) = EVENT_BUDGET"
proof -
  obtain schema event_schema defaults v w budget u1 u2 and seconds :: int where c:
    "jindex data ''event_schema_version'' = Inr v" "require_plain_int v ''event_schema_version must be int'' = Inr event_schema"
    "require (schema = event_schema \<and> event_schema = 1) ''scenario/event schema version changed'' = Inr u1"
    "jindex data ''defaults'' = Inr defaults" "jindex defaults ''event_budget'' = Inr w"
    "require_plain_int w ''event_budget must be int'' = Inr budget"
    "require (budget = EVENT_BUDGET \<and> 1 \<le> seconds \<and> seconds \<le> 300) ''scenario budget/watchdog changed'' = Inr u2"
    using assms unfolding validate_scenarios_def by (elim bind_res_InrE) (rule that, assumption+)
  show "sn_event_schema_version (scenarios_of data) = 1"
    using c(1-3) by (simp add: scenarios_of_def jfield_eq plain_int_def require_eq_Inr require_plain_int_Inr)
  show "sn_event_budget (scenarios_of data) = EVENT_BUDGET"
    using c(4-7) by (simp add: scenarios_of_def jfield_eq plain_int_def require_eq_Inr require_plain_int_Inr)
qed

lemma contract_cpus: "map (\<lambda>(k, c). (k, cc_cpus c)) CASE_CONTRACTS = sn_cases lab_scenarios"
  by code_simp

lemma accepted_lab_scenarios: "validate_scenarios data = Inr d \<Longrightarrow> scenarios_of data = lab_scenarios"
  by (rule scenarios.equality)
    (simp_all add: accepted_header accepted_case_table contract_cpus, simp_all add: lab_scenarios_def EVENT_BUDGET_def)

lemma lab_runtime: "\<forall>cas \<in> set (dkeys CASE_RUNTIME). scenario_for_runtime lab_scenarios cas = dget CASE_RUNTIME cas"
  by code_simp

text \<open>
  C18: An accepted scenario file fixes what the rest of the laboratory reads.  Whatever else it holds, its
  schema version, event budget and table of cases are those of the published file; every runtime case
  finds its scenario with its own processor count.  Every gate of every case is at a point that can block, for
  distinct actors of that case; a gate that spins has two actors on two processors and a bounded budget;
  a gate held until an event waits for an actor of the case, and a holder of a buffer lock never
  waits for its own event at the same point.
\<close>

theorem accepted_scenarios:
  assumes "validate_scenarios data = Inr d"
  shows "d = data \<and> scenarios_of data = lab_scenarios \<and>
    (\<forall>cas \<in> set (dkeys CASE_RUNTIME). scenario_for_runtime (scenarios_of data) cas = dget CASE_RUNTIME cas) \<and>
    (\<forall>cas \<in> set (jitems (jfield data ''cases'')). \<exists>case_id expected.
       jfield cas ''id'' = JStr case_id \<and> map_of CASE_CONTRACTS case_id = Some expected \<and>
       jfield cas ''cpus'' = JInt (cc_cpus expected) \<and>
       (\<forall>gate \<in> set (jitems (jfield cas ''gates'')). gate_sound cas (dkeys (cc_actors expected)) gate))"
proof -
  have "\<exists>case_id expected. jfield cas ''id'' = JStr case_id \<and> map_of CASE_CONTRACTS case_id = Some expected \<and>
       jfield cas ''cpus'' = JInt (cc_cpus expected) \<and>
       (\<forall>gate \<in> set (jitems (jfield cas ''gates'')). gate_sound cas (dkeys (cc_actors expected)) gate)"
    if c: "cas \<in> set (jitems (jfield data ''cases''))" for cas
  proof -
    have "scenario_step cas = Inr ()" using validate_scenarios_cases(2) [OF assms] c by blast
    then show ?thesis by (rule scenario_step_sound) blast
  qed
  then show ?thesis
    using validate_scenarios_cases(1) [OF assms] accepted_lab_scenarios [OF assms] lab_runtime by auto
qed

theorem accepted_scenarios_witness:
  "validate_scenarios published_scenarios = Inr published_scenarios \<and>
   scenario_for_runtime (scenarios_of published_scenarios) ''collision'' = Inr (''cache-collision'', 5, 2)"
  using accepted_scenarios [OF published_ok] published_ok by (auto simp: CASE_RUNTIME_def dkeys_def dget_def)

end
