(* ===== verification/Curriculum.thy ===== *)
theory Curriculum
  imports Json
begin

text \<open>
  The manifest validator \<open>tools/validate.py\<close>: it reads \<open>curriculum.json\<close> and collects error
  messages on the release, the stages, the units with their prerequisites, the teaching source and
  the review records.  The files of the repository and the answers of \<open>git\<close> are parameters (the
  record \<open>world\<close>).  Text is UTF-8, one character per byte.  Interpolated values are left out of the
  messages except where a message is nothing but its values.
\<close>

section \<open>The validation log\<close>

record validation =
  v_errors :: "string list"
  v_warnings :: "string list"

definition verror :: "string \<Rightarrow> validation \<Rightarrow> validation" where
  "verror message v = v\<lparr>v_errors := v_errors v @ [message]\<rparr>"

definition vwarn :: "string \<Rightarrow> validation \<Rightarrow> validation" where
  "vwarn message v = v\<lparr>v_warnings := v_warnings v @ [message]\<rparr>"

definition verror_if :: "bool \<Rightarrow> string \<Rightarrow> validation \<Rightarrow> validation" where
  "verror_if c message v = (if c then verror message v else v)"

text \<open>
  What the validator asks its surroundings: paths below the tutorial root, paths below the
  repository root, and git.
\<close>

record world =
  w_exists :: "string \<Rightarrow> bool"
  w_is_file :: "string \<Rightarrow> bool"
  w_text :: "string \<Rightarrow> string result"
  w_source_is_file :: "string \<Rightarrow> bool"
  w_source_text :: "string \<Rightarrow> string result"
  w_source_bytes :: "string \<Rightarrow> string result"
  w_is_commit :: "string \<Rightarrow> bool"
  w_glob :: "string \<Rightarrow> string list"
  w_ls_tree :: "string \<Rightarrow> string option"
  w_show :: "string \<Rightarrow> string \<Rightarrow> string option"
  w_fnmatch :: "string \<Rightarrow> string \<Rightarrow> bool"
  w_legacy_readme :: "string option"
  w_legacy_files :: "string list"
  w_markdown :: "(string \<times> string) list"
  w_link_targets :: "string \<Rightarrow> string list"
  w_unquote :: "string \<Rightarrow> string"
  w_resolve :: "string \<Rightarrow> string \<Rightarrow> string option"
  w_resolved_exists :: "string \<Rightarrow> bool"
  w_stale_navigation :: "string option"

section \<open>Constants\<close>

definition VALID_STATUSES :: "string list" where
  "VALID_STATUSES = [''planned'', ''draft'', ''verified'']"

definition VALID_EVIDENCE :: "string list" where
  "VALID_EVIDENCE = [''S'', ''F'', ''B'', ''C'', ''R'']"

definition REQUIRED_UNIT_HEADINGS :: "string list" where
  "REQUIRED_UNIT_HEADINGS =
     [''## '' @ [CHR 0xE9, CHR 0x97, CHR 0xAE, CHR 0xE9, CHR 0xA2, CHR 0x98, CHR 0xE5, CHR 0x9C, CHR 0xBA, CHR 0xE6, CHR 0x99, CHR 0xAF, CHR 0xE4, CHR 0xB8, CHR 0x8E, CHR 0xE6, CHR 0x9C, CHR 0xAC, CHR 0xE5, CHR 0x8D, CHR 0x95, CHR 0xE5, CHR 0x85, CHR 0x83, CHR 0xE6, CHR 0x88, CHR 0x90, CHR 0xE6, CHR 0x9E, CHR 0x9C],
      ''## '' @ [CHR 0xE5, CHR 0x89, CHR 0x8D, CHR 0xE7, CHR 0xBD, CHR 0xAE, CHR 0xE5, CHR 0x8D, CHR 0x95, CHR 0xE5, CHR 0x85, CHR 0x83, CHR 0xE4, CHR 0xB8, CHR 0x8E, CHR 0xE6, CHR 0x9A, CHR 0x82, CHR 0xE5, CHR 0xAD, CHR 0x98, CHR 0xE9, CHR 0xBB, CHR 0x91, CHR 0xE7, CHR 0x9B, CHR 0x92],
      ''## '' @ [CHR 0xE6, CHR 0x9C, CHR 0x80, CHR 0xE5, CHR 0xB0, CHR 0x8F, CHR 0xE6, CHR 0xA8, CHR 0xA1, CHR 0xE5, CHR 0x9E, CHR 0x8B, CHR 0xE5, CHR 0x92, CHR 0x8C, CHR 0xE5, CHR 0x85, CHR 0xB3, CHR 0xE9, CHR 0x94, CHR 0xAE, CHR 0xE4, CHR 0xB8, CHR 0x8D, CHR 0xE5, CHR 0x8F, CHR 0x98, CHR 0xE9, CHR 0x87, CHR 0x8F],
      ''## '' @ [CHR 0xE6, CHR 0xBA, CHR 0x90, CHR 0xE7, CHR 0xA0, CHR 0x81, CHR 0xE8, CHR 0xBF, CHR 0xBD, CHR 0xE8, CHR 0xB8, CHR 0xAA, CHR 0xE8, CHR 0xAE, CHR 0xA1, CHR 0xE5, CHR 0x88, CHR 0x92],
      ''## '' @ [CHR 0xE8, CHR 0xA7, CHR 0x82, CHR 0xE5, CHR 0xAF, CHR 0x9F, CHR 0xE4, CHR 0xBB, CHR 0xBB, CHR 0xE5, CHR 0x8A, CHR 0xA1],
      ''## '' @ [CHR 0xE6, CHR 0x9C, CHR 0x89, CHR 0xE7, CHR 0x95, CHR 0x8C, CHR 0xE4, CHR 0xBF, CHR 0xAE, CHR 0xE6, CHR 0x94, CHR 0xB9, CHR 0xE4, CHR 0xBB, CHR 0xBB, CHR 0xE5, CHR 0x8A, CHR 0xA1],
      ''## Oracle'' @ [CHR 0xE3, CHR 0x80, CHR 0x81, CHR 0xE8, CHR 0xAF, CHR 0x81, CHR 0xE6, CHR 0x8D, CHR 0xAE, CHR 0xE3, CHR 0x80, CHR 0x81, CHR 0xE5, CHR 0xA4, CHR 0xB1, CHR 0xE8, CHR 0xB4, CHR 0xA5, CHR 0xE8, CHR 0xB7, CHR 0xAF, CHR 0xE5, CHR 0xBE, CHR 0x84, CHR 0xE5, CHR 0x92, CHR 0x8C, CHR 0xE5, CHR 0xB1, CHR 0x80, CHR 0xE9, CHR 0x99, CHR 0x90],
      ''## '' @ [CHR 0xE9, CHR 0x80, CHR 0x80, CHR 0xE5, CHR 0x87, CHR 0xBA, CHR 0xE4, CHR 0xBA, CHR 0xA7, CHR 0xE7, CHR 0x89, CHR 0xA9, CHR 0xE4, CHR 0xB8, CHR 0x8E, CHR 0xE5, CHR 0x90, CHR 0x8E, CHR 0xE7, CHR 0xBB, CHR 0xAD, CHR 0xE5, CHR 0x8D, CHR 0x95, CHR 0xE5, CHR 0x85, CHR 0x83]]"

definition REQUIRED_WALKTHROUGH_FIELDS :: "string list" where
  "REQUIRED_WALKTHROUGH_FIELDS =
     [[CHR 0xE6, CHR 0x95, CHR 0x99, CHR 0xE7, CHR 0xA8, CHR 0x8B, CHR 0xE7, CHR 0x89, CHR 0x88, CHR 0xE6, CHR 0x9C, CHR 0xAC],
      [CHR 0xE6, CHR 0xBA, CHR 0x90, CHR 0xE7, CHR 0xA0, CHR 0x81, CHR 0xE5, CHR 0x9F, CHR 0xBA, CHR 0xE7, CHR 0xBA, CHR 0xBF],
      [CHR 0xE8, CHR 0xB5, CHR 0xB0, CHR 0xE6, CHR 0x9F, CHR 0xA5, CHR 0xE6, CHR 0x97, CHR 0xB6, CHR 0xE6, CHR 0x95, CHR 0x99, CHR 0xE7, CHR 0xA8, CHR 0x8B, CHR 0xE6, CHR 0x8F, CHR 0x90, CHR 0xE4, CHR 0xBA, CHR 0xA4],
      [CHR 0xE8, CHR 0xB5, CHR 0xB0, CHR 0xE6, CHR 0x9F, CHR 0xA5, CHR 0xE5, CHR 0x8D, CHR 0x95, CHR 0xE5, CHR 0x85, CHR 0x83, CHR 0xE6, CHR 0x88, CHR 0x96, CHR 0xE8, CHR 0xBF, CHR 0x9E, CHR 0xE7, CHR 0xBB, CHR 0xAD, CHR 0xE8, CHR 0xB7, CHR 0xAF, CHR 0xE5, CHR 0xBE, CHR 0x84],
      [CHR 0xE5, CHR 0x8C, CHR 0xBF, CHR 0xE5, CHR 0x90, CHR 0x8D, CHR 0xE5, CHR 0x85, CHR 0xA5, CHR 0xE5, CHR 0x8F, CHR 0xA3, CHR 0xE8, CHR 0x83, CHR 0xBD, CHR 0xE5, CHR 0x8A, CHR 0x9B],
      [CHR 0xE4, CHR 0xBD, CHR 0xBF, CHR 0xE7, CHR 0x94, CHR 0xA8, CHR 0xE7, CHR 0x8E, CHR 0xAF, CHR 0xE5, CHR 0xA2, CHR 0x83]]"

definition REQUIRED_WALKTHROUGH_SECTIONS :: "string list" where
  "REQUIRED_WALKTHROUGH_SECTIONS =
     [[CHR 0xE8, CHR 0xA7, CHR 0x82, CHR 0xE5, CHR 0xAF, CHR 0x9F, CHR 0xE5, CHR 0x88, CHR 0xB0, CHR 0xE7, CHR 0x9A, CHR 0x84, CHR 0xE5, CHR 0x8D, CHR 0xA1, CHR 0xE7, CHR 0x82, CHR 0xB9],
      [CHR 0xE9, CHR 0xAA, CHR 0x8C, CHR 0xE6, CHR 0x94, CHR 0xB6, CHR 0xE4, CHR 0xBA, CHR 0xA7, CHR 0xE7, CHR 0x89, CHR 0xA9],
      [CHR 0xE4, CHR 0xBF, CHR 0xAE, CHR 0xE6, CHR 0xAD, CHR 0xA3, CHR 0xE4, CHR 0xB8, CHR 0x8E, CHR 0xE5, CHR 0xA4, CHR 0x8D, CHR 0xE6, CHR 0x9F, CHR 0xA5],
      [CHR 0xE7, CHR 0xBB, CHR 0x93, CHR 0xE6, CHR 0x9E, CHR 0x9C]]"

definition fullwidth_colon :: string where
  "fullwidth_colon = [CHR 0xEF, CHR 0xBC, CHR 0x9A]"

text \<open>\<open>[a-z][a-z0-9]*(?:[.-][a-z0-9]+)*\<close>: dots and dashes separate non-empty words.\<close>

definition is_lower_char :: "char \<Rightarrow> bool" where
  "is_lower_char c \<longleftrightarrow> of_char c \<in> {97..122::nat}"

fun unit_id_from :: "bool \<Rightarrow> string \<Rightarrow> bool" where
  "unit_id_from after_word [] = after_word"
| "unit_id_from after_word (c # cs) =
     (if is_lower_char c \<or> is_digit c then unit_id_from True cs
      else after_word \<and> (c = CHR ''.'' \<or> c = CHR ''-'') \<and> unit_id_from False cs)"

definition is_unit_id :: "string \<Rightarrow> bool" where
  "is_unit_id s = (case s of [] \<Rightarrow> False | c # cs \<Rightarrow> is_lower_char c \<and> unit_id_from True cs)"

text \<open>\<open>[0-9a-f]{40}\<close>\<close>

definition is_commit_id :: "string \<Rightarrow> bool" where
  "is_commit_id s \<longleftrightarrow> length s = 40 \<and> list_all (\<lambda>c. c \<in> set ''0123456789abcdef'') s"

section \<open>Release\<close>

definition validate_release :: "world \<Rightarrow> json \<Rightarrow> validation \<Rightarrow> (bool \<times> validation) result" where
  "validate_release w manifest v =
     bind_res (jget manifest ''schema_version'') (\<lambda>version.
     let v = verror_if (\<not> json_eq version (JInt 1)) ''schema_version must be 1'' v in
     bind_res (jget manifest ''release'') (\<lambda>release.
     if \<not> is_obj release then Inr (False, verror ''release must be an object'' v)
     else
       bind_res (fold_res (\<lambda>v field.
           bind_res (jhas release field) (\<lambda>present. Inr (verror_if (\<not> present) (''release is missing '' @ field) v)))
         v [''version'', ''status'', ''baseline_commit'', ''coverage_complete'', ''compatibility'']) (\<lambda>v.
       bind_res (jget release ''status'') (\<lambda>status.
       bind_res (in_keys status VALID_STATUSES) (\<lambda>valid.
       let v = verror_if (\<not> valid) ''invalid release status'' v in
       bind_res (jget_or release ''baseline_commit'' (JStr [])) (\<lambda>baseline.
       bind_res (as_str baseline) (\<lambda>commit.
       if \<not> is_commit_id commit then
         Inr (False, verror ''release.baseline_commit must be a full 40-character commit'' v)
       else if \<not> w_is_commit w commit then
         Inr (False, verror ''release baseline is not a local commit'' v)
       else Inr (True, v))))))))"

text \<open>\<open>(0|[1-9][0-9]*)\.(0|[1-9][0-9]*)\.(0|[1-9][0-9]*)\<close>; the result is the major version.\<close>

definition semver_number :: "string \<Rightarrow> bool" where
  "semver_number s \<longleftrightarrow> s \<noteq> [] \<and> list_all is_digit s \<and> (hd s = CHR ''0'' \<longrightarrow> length s = 1)"

definition semver_major :: "string \<Rightarrow> nat option" where
  "semver_major s =
     (case split_on CHR ''.'' s of
        [a, b, c] \<Rightarrow> if semver_number a \<and> semver_number b \<and> semver_number c then Some (read_nat a) else None
      | _ \<Rightarrow> None)"

definition unit_status :: "json \<Rightarrow> json result" where
  "unit_status unit = jindex unit ''status''"

definition validate_release_completion ::
    "json \<Rightarrow> (string, json) dict \<Rightarrow> validation \<Rightarrow> validation result" where
  "validate_release_completion manifest units v =
     bind_res (jget_or manifest ''release'' (JObj [])) (\<lambda>release.
     bind_res (jget_or release ''version'' (JStr [])) (\<lambda>version.
     bind_res (as_str version) (\<lambda>version.
     (case semver_major version of
        None \<Rightarrow> Inr (verror ''release.version must be numeric semver'' v)
      | Some major \<Rightarrow>
          bind_res (jget release ''coverage_complete'') (\<lambda>complete.
          bind_res (jget release ''status'') (\<lambda>status.
          if \<not> is_bool complete then Inr (verror ''release.coverage_complete must be a boolean'' v)
          else
            let verified = json_eq status (JStr ''verified''); complete = truthy complete;
                v = verror_if (major \<ge> 1 \<and> \<not> complete) ''1.x release must be coverage_complete'' v;
                v = verror_if (major \<ge> 1 \<and> \<not> verified) ''1.x release must be verified'' v;
                v = verror_if (complete \<and> major < 1) ''coverage_complete release must use version 1.x or later'' v;
                v = verror_if (complete \<and> \<not> verified) ''coverage_complete release must be verified'' v
            in if complete then
                 bind_res (map_res (unit_status \<circ> snd) units) (\<lambda>statuses.
                 Inr (verror_if (\<not> list_all (\<lambda>s. json_eq s (JStr ''verified'')) statuses)
                        ''coverage_complete release has non-verified units'' v))
               else Inr v))))))"

definition validate_question_migration :: "world \<Rightarrow> json \<Rightarrow> validation \<Rightarrow> validation result" where
  "validate_question_migration w manifest v =
     bind_res (jget_or manifest ''release'' (JObj [])) (\<lambda>release.
     bind_res (jget release ''coverage_complete'') (\<lambda>complete.
     if \<not> truthy complete then Inr v
     else (case w_legacy_readme w of
        None \<Rightarrow> Inr (verror ''coverage_complete release is missing docs/questions/README.md compatibility entry'' v)
      | Some text \<Rightarrow>
          let v = verror_if (w_legacy_files w \<noteq> []) ''coverage_complete release retains legacy question files'' v
          in Inr (verror_if (\<not> contains text ''xv6-tutorial/questions'')
               ''docs/questions/README.md must point to the authoritative xv6-tutorial/questions set'' v))))"

section \<open>Stages\<close>

record stage_state =
  ss_result :: "(string, json) dict"
  ss_orders :: "json list"
  ss_log :: validation

definition stage_step :: "stage_state \<Rightarrow> json \<Rightarrow> stage_state result" where
  "stage_step s stage =
     (if \<not> is_obj stage then Inr (s\<lparr>ss_log := verror ''each stage must be an object'' (ss_log s)\<rparr>)
      else
        bind_res (jget stage ''id'') (\<lambda>stage_id.
        (case stage_id of
           JStr sid \<Rightarrow>
             if \<not> is_unit_id sid then Inr (s\<lparr>ss_log := verror ''invalid stage id'' (ss_log s)\<rparr>)
             else
               let v = verror_if (sid \<in> set (dkeys (ss_result s))) ''duplicate stage id'' (ss_log s) in
               bind_res (jget stage ''order'') (\<lambda>order.
               bind_res (in_hashed order (ss_orders s)) (\<lambda>seen.
               let v = verror_if seen ''duplicate stage order'' v in
               bind_res (jget stage ''kind'') (\<lambda>kind.
               bind_res (in_keys kind [''foundation'', ''core'']) (\<lambda>known.
               let v = verror_if (\<not> known) ''invalid stage kind'' v in
               Inr \<lparr>ss_result = dput sid stage (ss_result s), ss_orders = order # ss_orders s, ss_log = v\<rparr>))))
         | _ \<Rightarrow> Inr (s\<lparr>ss_log := verror ''invalid stage id'' (ss_log s)\<rparr>))))"

definition validate_stages :: "json \<Rightarrow> validation \<Rightarrow> ((string, json) dict \<times> validation) result" where
  "validate_stages manifest v =
     bind_res (jget manifest ''stages'') (\<lambda>stages.
     (case stages of
        JList (stage # rest) \<Rightarrow>
          bind_res (fold_res stage_step \<lparr>ss_result = [], ss_orders = [], ss_log = v\<rparr> (stage # rest)) (\<lambda>s.
          Inr (ss_result s, ss_log s))
      | _ \<Rightarrow> Inr ([], verror ''stages must be a non-empty array'' v)))"

section \<open>Pages and walkthrough records\<close>

definition validate_unit_page :: "world \<Rightarrow> json \<Rightarrow> validation \<Rightarrow> validation result" where
  "validate_unit_page w unit v =
     bind_res (jindex unit ''path'') (\<lambda>path.
     bind_res (as_str path) (\<lambda>path.
     bind_res (unit_status unit) (\<lambda>status.
     if json_eq status (JStr ''planned'') \<and> \<not> w_exists w path then Inr v
     else if \<not> w_is_file w path then Inr (verror ''unit page does not exist'' v)
     else
       bind_res (w_text w path) (\<lambda>text.
       Inr (foldl (\<lambda>v heading. verror_if (\<not> contains text heading) (''unit page is missing heading: '' @ heading) v)
              v REQUIRED_UNIT_HEADINGS)))))"

text \<open>\<open>Path(s).parts\<close> below the root, and \<open>Path(s).suffix == ".md"\<close>.\<close>

definition path_parts :: "string \<Rightarrow> string list" where
  "path_parts s = filter (\<lambda>p. p \<noteq> [] \<and> p \<noteq> ''.'') (split_on CHR ''/'' s)"

definition has_md_suffix :: "string \<Rightarrow> bool" where
  "has_md_suffix s \<longleftrightarrow>
     path_parts s \<noteq> [] \<and> ends_with (last (path_parts s)) ''.md'' \<and> length (last (path_parts s)) > 3"

definition is_blank :: "char \<Rightarrow> bool" where
  "is_blank c \<longleftrightarrow> c = CHR '' '' \<or> c = CHR 0x09"

text \<open>\<open>^-[ \t]+FIELD:[ \t]*[^ \t\r\n].*$\<close>, with the full-width colon\<close>

definition field_line :: "string \<Rightarrow> string \<Rightarrow> bool" where
  "field_line field l \<longleftrightarrow>
     (let rest = dropWhile is_blank (drop 1 l); label = field @ fullwidth_colon;
          body = dropWhile is_blank (drop (length label) rest) in
      take 1 l = ''-'' \<and> is_blank (l ! 1) \<and> 1 < length l \<and> starts_with rest label \<and>
      body \<noteq> [] \<and> hd body \<noteq> CHR 0x0D)"

text \<open>\<open>^##[ \t]+SECTION[ \t]*$\<close> and \<open>^##[ \t]+\<close>\<close>

definition heading_line :: "string \<Rightarrow> bool" where
  "heading_line l \<longleftrightarrow> starts_with l ''##'' \<and> 2 < length l \<and> is_blank (l ! 2)"

definition section_line :: "string \<Rightarrow> string \<Rightarrow> bool" where
  "section_line section_name l \<longleftrightarrow>
     (let rest = dropWhile is_blank (drop 2 l) in
      heading_line l \<and> starts_with rest section_name \<and> list_all is_blank (drop (length section_name) rest))"

text \<open>The lines after the first heading of that name up to the next heading; \<open>None\<close> without heading.\<close>

definition section_body :: "string \<Rightarrow> string \<Rightarrow> string list option" where
  "section_body section_name text =
     (case dropWhile (\<lambda>l. \<not> section_line section_name l) (split_on CHR 0x0A text) of
        [] \<Rightarrow> None
      | heading # following \<Rightarrow> Some (takeWhile (\<lambda>l. \<not> heading_line l) following))"

definition review_checks :: "string \<Rightarrow> validation \<Rightarrow> validation" where
  "review_checks text v =
     foldl (\<lambda>v s. verror_if
         (case section_body s text of None \<Rightarrow> True | Some ls \<Rightarrow> list_all (list_all is_space) ls)
         ''walkthrough record has missing or empty section'' v)
       (foldl (\<lambda>v field. verror_if (\<not> list_ex (field_line field) (split_on CHR 0x0A text))
           ''walkthrough record has missing or empty field'' v)
         v REQUIRED_WALKTHROUGH_FIELDS)
       REQUIRED_WALKTHROUGH_SECTIONS"

definition review_step :: "world \<Rightarrow> validation \<Rightarrow> json \<Rightarrow> validation result" where
  "review_step w v review =
     bind_res (as_str review) (\<lambda>path.
     let parts = path_parts path in
     if take 1 path = ''/'' \<or> ''..'' \<in> set parts \<or> parts = [] \<or> hd parts \<noteq> ''reviews'' \<or> \<not> has_md_suffix path
     then Inr (verror ''walkthrough record must be a Markdown file under reviews/'' v)
     else if \<not> w_is_file w path then Inr v
     else bind_res (w_text w path) (\<lambda>text. Inr (review_checks text v)))"

definition validate_walkthrough_reviews :: "world \<Rightarrow> json \<Rightarrow> validation \<Rightarrow> validation result" where
  "validate_walkthrough_reviews w unit v =
     bind_res (jindex unit ''reviews'') (\<lambda>reviews.
     bind_res (jiter reviews) (\<lambda>reviews. fold_res (review_step w) v reviews))"

section \<open>Prerequisites\<close>

text \<open>
  The depth-first search of \<open>validate_acyclic_requires\<close>.  A unit is marked 1 while it is being
  visited and 2 afterwards; \<open>depth\<close> is the recursion depth the interpreter still allows.
\<close>

record visit_state =
  vs_state :: "(string, nat) dict"
  vs_log :: validation

fun visit :: "nat \<Rightarrow> (string, json) dict \<Rightarrow> string \<Rightarrow> string list \<Rightarrow> visit_state \<Rightarrow> visit_state result" where
  "visit 0 units unit_id path s = Inl RecursionError"
| "visit (Suc depth) units unit_id path s =
     (if map_of (vs_state s) unit_id = Some 1 then
        Inr (s\<lparr>vs_log := verror (''requires cycle: '' @ py_join '' -> '' (path @ [unit_id])) (vs_log s)\<rparr>)
      else if map_of (vs_state s) unit_id = Some 2 then Inr s
      else
        bind_res (dget units unit_id) (\<lambda>unit.
        bind_res (jindex unit ''requires'') (\<lambda>targets.
        bind_res (jiter targets) (\<lambda>targets.
        bind_res (fold_res (\<lambda>s target.
            bind_res (in_keys target (dkeys units)) (\<lambda>known.
            if known then
              (case target of JStr t \<Rightarrow> visit depth units t (path @ [unit_id]) s | _ \<Rightarrow> Inr s)
            else Inr s))
          (s\<lparr>vs_state := dput unit_id 1 (vs_state s)\<rparr>) targets) (\<lambda>s.
        Inr (s\<lparr>vs_state := dput unit_id 2 (vs_state s)\<rparr>))))))"

definition validate_acyclic_requires :: "nat \<Rightarrow> (string, json) dict \<Rightarrow> validation \<Rightarrow> validation result" where
  "validate_acyclic_requires depth units v =
     bind_res (fold_res (\<lambda>s unit_id. visit depth units unit_id [] s)
       \<lparr>vs_state = [], vs_log = v\<rparr> (dkeys units)) (\<lambda>s.
     Inr (vs_log s))"

section \<open>Units\<close>

definition UNIT_FIELDS :: "string list" where
  "UNIT_FIELDS = [''id'', ''path'', ''title'', ''stage'', ''order'', ''status'', ''requires'', ''related'',
     ''black_boxes'', ''resolves'', ''owns'', ''outcomes'', ''source_anchors'', ''evidence_dimensions'',
     ''resources'', ''reviews'']"

record unit_state =
  us_result :: "(string, json) dict"
  us_paths :: "json list"
  us_orders :: "(json \<times> json) list"
  us_owned :: "json list"
  us_boxes :: "json list"
  us_log :: validation

text \<open>\<open>for name in names: if name in owners: error; owners[name] = unit_id\<close>\<close>

definition claim_step :: "string \<Rightarrow> json list \<times> validation \<Rightarrow> json \<Rightarrow> (json list \<times> validation) result" where
  "claim_step message = (\<lambda>(owners, v) name.
     bind_res (in_hashed name owners) (\<lambda>taken. Inr (name # owners, verror_if taken message v)))"

definition claim_all :: "string \<Rightarrow> json \<Rightarrow> json list \<Rightarrow> validation \<Rightarrow> (json list \<times> validation) result" where
  "claim_all message names owners v =
     bind_res (jiter names) (\<lambda>names. fold_res (claim_step message) (owners, v) names)"

definition resource_step :: "world \<Rightarrow> json \<Rightarrow> validation \<Rightarrow> json \<Rightarrow> validation result" where
  "resource_step w status v resource =
     bind_res (as_str resource) (\<lambda>path.
     Inr (verror_if (\<not> json_eq status (JStr ''planned'') \<and> \<not> w_exists w path) ''missing resource'' v))"

definition stage_order :: "(string, json) dict \<Rightarrow> json \<Rightarrow> json result" where
  "stage_order stages stage =
     (case stage of
        JStr s \<Rightarrow> jget (dget_or stages s (JObj [])) ''order''
      | _ \<Rightarrow> Inr JNull)"

text \<open>The checks of one unit whose id is well-formed and which has every required field.\<close>

definition unit_checks ::
    "world \<Rightarrow> (string, json) dict \<Rightarrow> unit_state \<Rightarrow> json \<Rightarrow> string \<Rightarrow> unit_state result" where
  "unit_checks w stages s unit unit_id =
     (let v = verror_if (unit_id \<in> set (dkeys (us_result s))) ''duplicate unit id'' (us_log s) in
      bind_res (jindex unit ''path'') (\<lambda>path.
      bind_res (in_hashed path (us_paths s)) (\<lambda>seen_path.
      let v = verror_if seen_path ''duplicate unit path'' v in
      bind_res (jindex unit ''stage'') (\<lambda>stage.
      bind_res (in_keys stage (dkeys stages)) (\<lambda>known_stage.
      let v = verror_if (\<not> known_stage) ''unknown stage'' v in
      bind_res (stage_order stages stage) (\<lambda>position.
      bind_res (jindex unit ''order'') (\<lambda>order.
      bind_res (if hashable position \<and> hashable order
                then Inr (list_ex (\<lambda>(a, b). json_eq a position \<and> json_eq b order) (us_orders s))
                else Inl TypeError) (\<lambda>seen_order.
      let v = verror_if seen_order ''duplicate unit order within stage'' v in
      bind_res (unit_status unit) (\<lambda>status.
      bind_res (in_keys status VALID_STATUSES) (\<lambda>valid.
      let v = verror_if (\<not> valid) ''invalid status'' v in
      bind_res (jindex unit ''outcomes'') (\<lambda>outcomes.
      let v = verror_if (\<not> is_list outcomes \<or> \<not> truthy outcomes) ''unit must declare at least one outcome'' v in
      bind_res (jindex unit ''evidence_dimensions'') (\<lambda>evidence.
      bind_res (jiter evidence) (\<lambda>evidence.
      bind_res (map_res (\<lambda>e. in_keys e VALID_EVIDENCE) evidence) (\<lambda>known.
      let v = verror_if (evidence = [] \<or> \<not> list_all id known) ''invalid evidence dimensions'' v in
      bind_res (jindex unit ''owns'') (\<lambda>owns.
      bind_res (claim_all ''explanation is owned by two units'' owns (us_owned s) v) (\<lambda>(owned, v).
      bind_res (jindex unit ''black_boxes'') (\<lambda>black_boxes.
      bind_res (claim_all ''black box is introduced by two units'' black_boxes (us_boxes s) v) (\<lambda>(boxes, v).
      bind_res (jindex unit ''resources'') (\<lambda>resources.
      bind_res (jindex unit ''reviews'') (\<lambda>reviews.
      bind_res (jconcat resources reviews) (\<lambda>all_files.
      bind_res (jiter all_files) (\<lambda>all_files.
      bind_res (fold_res (resource_step w status) v all_files) (\<lambda>v.
      let verified = json_eq status (JStr ''verified'');
          v = verror_if (verified \<and> \<not> truthy reviews) ''verified unit has no non-author walkthrough record'' v in
      bind_res (if verified \<and> truthy reviews then validate_walkthrough_reviews w unit v else Inr v) (\<lambda>v.
      bind_res (validate_unit_page w unit v) (\<lambda>v.
      Inr \<lparr>us_result = dput unit_id unit (us_result s), us_paths = path # us_paths s,
           us_orders = (position, order) # us_orders s, us_owned = owned, us_boxes = boxes,
           us_log = v\<rparr>)))))))))))))))))))))))))"

definition unit_step :: "world \<Rightarrow> (string, json) dict \<Rightarrow> unit_state \<Rightarrow> json \<Rightarrow> unit_state result" where
  "unit_step w stages s unit =
     (case unit of
        JObj d \<Rightarrow>
          if \<not> list_all (\<lambda>field. field \<in> set (dkeys d)) UNIT_FIELDS then
            Inr (s\<lparr>us_log := verror ''unit is missing fields'' (us_log s)\<rparr>)
          else
            bind_res (jindex unit ''id'') (\<lambda>unit_id.
            (case unit_id of
               JStr uid \<Rightarrow>
                 if is_unit_id uid then unit_checks w stages s unit uid
                 else Inr (s\<lparr>us_log := verror ''invalid unit id'' (us_log s)\<rparr>)
             | _ \<Rightarrow> Inr (s\<lparr>us_log := verror ''invalid unit id'' (us_log s)\<rparr>)))
      | _ \<Rightarrow> Inr (s\<lparr>us_log := verror ''each unit must be an object'' (us_log s)\<rparr>))"

definition relation_step :: "string \<Rightarrow> string list \<Rightarrow> validation \<Rightarrow> json \<Rightarrow> validation result" where
  "relation_step message known v target =
     bind_res (in_keys target known) (\<lambda>present. Inr (verror_if (\<not> present) message v))"

definition resolve_step :: "json list \<Rightarrow> validation \<Rightarrow> json \<Rightarrow> validation result" where
  "resolve_step boxes v black_box =
     bind_res (in_hashed black_box boxes) (\<lambda>present.
     Inr (verror_if (\<not> present) ''unit resolves unknown black box'' v))"

definition prerequisite_step :: "(string, json) dict \<Rightarrow> validation \<Rightarrow> json \<Rightarrow> validation result" where
  "prerequisite_step units v target =
     bind_res (in_keys target (dkeys units)) (\<lambda>present.
     if present then
       bind_res (as_str target) (\<lambda>t.
       bind_res (dget units t) (\<lambda>prerequisite.
       bind_res (unit_status prerequisite) (\<lambda>status.
       Inr (verror_if (\<not> json_eq status (JStr ''verified'')) ''verified unit requires non-verified unit'' v))))
     else Inr v)"

definition relations_step :: "(string, json) dict \<Rightarrow> json list \<Rightarrow> validation \<Rightarrow> string \<times> json \<Rightarrow> validation result" where
  "relations_step units boxes v = (\<lambda>(unit_id, unit).
     bind_res (jindex unit ''requires'') (\<lambda>req.
     bind_res (jiter req) (\<lambda>required.
     bind_res (fold_res (relation_step ''unit requires unknown unit'' (dkeys units)) v required) (\<lambda>v.
     bind_res (jindex unit ''related'') (\<lambda>rel.
     bind_res (jiter rel) (\<lambda>related.
     bind_res (fold_res (relation_step ''unit related unknown unit'' (dkeys units)) v related) (\<lambda>v.
     bind_res (jindex unit ''resolves'') (\<lambda>res.
     bind_res (jiter res) (\<lambda>resolved.
     bind_res (fold_res (resolve_step boxes) v resolved) (\<lambda>v.
     bind_res (unit_status unit) (\<lambda>status.
     if json_eq status (JStr ''verified'') then fold_res (prerequisite_step units) v required
     else Inr v)))))))))))"

definition validate_units ::
    "nat \<Rightarrow> world \<Rightarrow> json \<Rightarrow> (string, json) dict \<Rightarrow> validation \<Rightarrow> ((string, json) dict \<times> validation) result" where
  "validate_units depth w manifest stages v =
     bind_res (jget manifest ''units'') (\<lambda>units.
     (case units of
        JList (unit # rest) \<Rightarrow>
          bind_res (fold_res (unit_step w stages)
            \<lparr>us_result = [], us_paths = [], us_orders = [], us_owned = [], us_boxes = [], us_log = v\<rparr>
            (unit # rest)) (\<lambda>s.
          bind_res (fold_res (relations_step (us_result s) (us_boxes s)) (us_log s) (us_result s)) (\<lambda>v.
          bind_res (validate_acyclic_requires depth (us_result s) v) (\<lambda>v.
          Inr (us_result s, v))))
      | _ \<Rightarrow> Inr ([], verror ''units must be a non-empty array'' v)))"

section \<open>Teaching source\<close>

text \<open>Glob patterns and excluded paths are strings; any other element makes the path library raise.\<close>

definition source_scope_config :: "json \<Rightarrow> (json list \<times> json list) result" where
  "source_scope_config manifest =
     bind_res (jget_or manifest ''source_scope'' (JObj [])) (\<lambda>scope.
     bind_res (jget_or scope ''include_globs'' (JList [])) (\<lambda>globs.
     bind_res (jiter globs) (\<lambda>patterns.
     bind_res (jget_or scope ''exclude_paths'' (JList [])) (\<lambda>excludes.
     bind_res (jiter excludes) (\<lambda>excluded.
     if list_all hashable excluded then Inr (patterns, excluded) else Inl TypeError)))))"

definition source_path_in_scope :: "world \<Rightarrow> string \<Rightarrow> string list \<Rightarrow> json list \<Rightarrow> bool" where
  "source_path_in_scope w path patterns excluded \<longleftrightarrow>
     \<not> list_ex (json_eq (JStr path)) excluded \<and> list_ex (w_fnmatch w path) patterns"

definition expand_source_scope :: "world \<Rightarrow> json \<Rightarrow> string list result" where
  "expand_source_scope w manifest =
     bind_res (source_scope_config manifest) (\<lambda>(patterns, excluded).
     bind_res (map_res as_str patterns) (\<lambda>patterns.
     Inr (filter (\<lambda>path. w_source_is_file w path \<and> source_path_in_scope w path patterns excluded)
            (remdups (concat (map (w_glob w) patterns))))))"

definition baseline_source_scope :: "world \<Rightarrow> json \<Rightarrow> string \<Rightarrow> validation \<Rightarrow> (string list \<times> validation) result" where
  "baseline_source_scope w manifest baseline v =
     (case w_ls_tree w baseline of
        None \<Rightarrow> Inr ([], verror ''cannot list files from release baseline'' v)
      | Some listing \<Rightarrow>
          bind_res (source_scope_config manifest) (\<lambda>(patterns, excluded).
          bind_res (map_res as_str patterns) (\<lambda>patterns.
          Inr (remdups (filter (\<lambda>path. source_path_in_scope w path patterns excluded) (splitlines listing)), v))))"

definition changed_step :: "world \<Rightarrow> string \<Rightarrow> string list \<Rightarrow> string list \<Rightarrow> string list \<Rightarrow> string \<Rightarrow> string list result" where
  "changed_step w baseline current_paths baseline_paths changed relative =
     (if relative \<notin> set current_paths \<or> relative \<notin> set baseline_paths then Inr (changed @ [relative])
      else (case w_show w baseline relative of
        None \<Rightarrow> Inr (changed @ [relative])
      | Some committed \<Rightarrow>
          bind_res (w_source_bytes w relative) (\<lambda>current.
          Inr (if committed \<noteq> current then changed @ [relative] else changed))))"

definition validate_baseline_sources :: "world \<Rightarrow> json \<Rightarrow> bool \<Rightarrow> validation \<Rightarrow> validation result" where
  "validate_baseline_sources w manifest development v =
     bind_res (jindex manifest ''release'') (\<lambda>release.
     bind_res (jindex release ''baseline_commit'') (\<lambda>baseline.
     bind_res (as_str baseline) (\<lambda>baseline.
     bind_res (expand_source_scope w manifest) (\<lambda>current_paths.
     bind_res (baseline_source_scope w manifest baseline v) (\<lambda>(baseline_paths, v).
     bind_res (fold_res (changed_step w baseline current_paths baseline_paths) []
         (sort (remdups (current_paths @ baseline_paths)))) (\<lambda>changed.
     Inr (if changed = [] then v
          else if development then vwarn ''teaching source differs from release baseline'' v
          else verror ''teaching source differs from release baseline; pass --development only while migrating'' v)))))))"

record source_state =
  so_owned :: "json list"
  so_log :: validation

text \<open>\<open>units[owner]["status"]\<close>\<close>

definition owner_unit :: "(string, json) dict \<Rightarrow> json \<Rightarrow> json result" where
  "owner_unit units owner_id = bind_res (as_str owner_id) (dget units)"

definition area_step :: "string list \<Rightarrow> string list \<Rightarrow> source_state \<Rightarrow> json \<Rightarrow> source_state result" where
  "area_step scoped units s area =
     (case area of
        JObj d \<Rightarrow>
          let v = foldl (\<lambda>v field. verror_if (field \<notin> set (dkeys d)) (''source area is missing '' @ field) v)
                    (so_log s) [''path'', ''kind'', ''owner'', ''secondary''];
              path = dget_or d ''path'' JNull in
          bind_res (in_hashed path (so_owned s)) (\<lambda>seen.
          let v = verror_if seen ''duplicate source coverage path'' v in
          bind_res (in_keys path scoped) (\<lambda>in_scope.
          let v = verror_if (\<not> in_scope) ''source area is outside source_scope or missing'' v;
              owner_id = dget_or d ''owner'' JNull in
          bind_res (in_keys owner_id units) (\<lambda>known.
          let v = verror_if (\<not> known) ''source area has unknown owner'' v in
          bind_res (jiter (dget_or d ''secondary'' (JList []))) (\<lambda>secondary.
          bind_res (fold_res (relation_step ''source area has unknown secondary unit'' units) v secondary) (\<lambda>v.
          Inr \<lparr>so_owned = path # so_owned s, so_log = v\<rparr>)))))
      | _ \<Rightarrow> Inr (s\<lparr>so_log := verror ''each source area must be an object'' (so_log s)\<rparr>))"

definition anchor_paths :: "json list \<Rightarrow> json list" where
  "anchor_paths anchors = concat (map (\<lambda>a. case a of JObj d \<Rightarrow> [dget_or d ''path'' JNull] | _ \<Rightarrow> []) anchors)"

definition coverage_step :: "(string, json) dict \<Rightarrow> validation \<Rightarrow> json \<Rightarrow> validation result" where
  "coverage_step units v area =
     bind_res (jget area ''owner'') (\<lambda>owner_id.
     bind_res (in_keys owner_id (dkeys units)) (\<lambda>known.
     if \<not> known then Inr v
     else
       bind_res (owner_unit units owner_id) (\<lambda>unit.
       bind_res (unit_status unit) (\<lambda>status.
       let v = verror_if (\<not> json_eq status (JStr ''verified'')) ''coverage_complete source owner is not verified'' v in
       bind_res (jget area ''path'') (\<lambda>path.
       bind_res (jindex unit ''source_anchors'') (\<lambda>anchors.
       bind_res (jiter anchors) (\<lambda>anchors.
       let anchored = anchor_paths anchors in
       if \<not> list_all hashable anchored then Inl TypeError
       else bind_res (in_hashed path anchored) (\<lambda>present.
         Inr (verror_if (\<not> present) ''coverage_complete source is not anchored by its owner'' v)))))))))"

definition anchor_step :: "world \<Rightarrow> validation \<Rightarrow> json \<Rightarrow> validation result" where
  "anchor_step w v anchor =
     (case anchor of
        JObj d \<Rightarrow>
          if set (dkeys d) \<noteq> {''path'', ''symbol''} then Inr (verror ''invalid source anchor'' v)
          else
            bind_res (as_str (dget_or d ''path'' JNull)) (\<lambda>path.
            if \<not> w_source_is_file w path then Inr (verror ''missing source anchor file'' v)
            else (case w_source_text w path of
               Inl e \<Rightarrow> if e = UnicodeError then Inr (verror ''source anchor is not UTF-8 text'' v) else Inl e
             | Inr text \<Rightarrow>
                 bind_res (as_str (dget_or d ''symbol'' JNull)) (\<lambda>symbol.
                 Inr (verror_if (\<not> contains text symbol) ''source anchor token not found'' v))))
      | _ \<Rightarrow> Inr (verror ''invalid source anchor'' v))"

definition anchors_step :: "world \<Rightarrow> validation \<Rightarrow> string \<times> json \<Rightarrow> validation result" where
  "anchors_step w v = (\<lambda>(unit_id, unit).
     bind_res (jindex unit ''source_anchors'') (\<lambda>anchors.
     bind_res (jiter anchors) (\<lambda>anchors. fold_res (anchor_step w) v anchors)))"

text \<open>\<open>sorted\<close> compares strings with strings and numbers with numbers only.\<close>

definition sortable :: "json list \<Rightarrow> bool" where
  "sortable xs \<longleftrightarrow> length xs \<le> 1 \<or> list_all is_str xs \<or>
     list_all (\<lambda>x. case x of JInt i \<Rightarrow> True | JFloat r \<Rightarrow> True | _ \<Rightarrow> False) xs"

definition validate_source :: "world \<Rightarrow> json \<Rightarrow> (string, json) dict \<Rightarrow> validation \<Rightarrow> validation result" where
  "validate_source w manifest units v =
     bind_res (expand_source_scope w manifest) (\<lambda>scoped.
     bind_res (jget manifest ''source_areas'') (\<lambda>areas.
     (case areas of
        JList areas \<Rightarrow>
          bind_res (fold_res (area_step scoped (dkeys units)) \<lparr>so_owned = [], so_log = v\<rparr> areas) (\<lambda>s.
          bind_res (jget_or manifest ''release'' (JObj [])) (\<lambda>release.
          bind_res (jget release ''coverage_complete'') (\<lambda>complete.
          bind_res
            (if truthy complete then
               let v = verror_if (\<exists>p \<in> set scoped. \<not> list_ex (json_eq (JStr p)) (so_owned s))
                         ''coverage_complete release has unowned source paths'' (so_log s);
                   extra = remdups (filter (\<lambda>p. \<not> list_ex (\<lambda>q. p = JStr q) scoped) (map norm_json (so_owned s)))
               in if \<not> sortable extra then Inl TypeError
                  else fold_res (coverage_step units)
                    (verror_if (extra \<noteq> []) ''coverage_complete release has out-of-scope paths'' v) areas
             else Inr (so_log s)) (\<lambda>v.
          fold_res (anchors_step w) v units))))
      | _ \<Rightarrow> Inr (verror ''source_areas must be an array'' v))))"

section \<open>Links and navigation\<close>

text \<open>
  \<open>w_markdown\<close> are the Markdown files with their text, \<open>w_link_targets\<close> is the extraction of link
  targets by regular expressions, \<open>w_resolve\<close> resolves a target against the directory of its file
  and is \<open>None\<close> outside the repository.
\<close>

definition link_step :: "world \<Rightarrow> string \<Rightarrow> validation \<Rightarrow> string \<Rightarrow> validation result" where
  "link_step w file v raw_target =
     (case split_ws (strip_chars is_space raw_target) of
        [] \<Rightarrow> Inl IndexError
      | first # rest \<Rightarrow>
          let target = w_unquote w (strip_chars (\<lambda>c. c = CHR ''<'' \<or> c = CHR ''>'') first) in
          if contains target ''docs/xv6-riscv'' \<or> contains target ''../xv6-riscv''
          then Inr (verror ''forbidden implementation-reference link'' v)
          else if list_ex (starts_with target) [''http://'', ''https://'', ''mailto:'', ''#''] then Inr v
          else
            let target_path = takeWhile (\<lambda>c. c \<noteq> CHR ''#'') target in
            if target_path = [] then Inr v
            else (case w_resolve w file target_path of
               None \<Rightarrow> Inr (verror ''link escapes repository'' v)
             | Some resolved \<Rightarrow> Inr (verror_if (\<not> w_resolved_exists w resolved) ''broken link'' v)))"

definition validate_markdown_links :: "world \<Rightarrow> validation \<Rightarrow> validation result" where
  "validate_markdown_links w v =
     fold_res (\<lambda>v (file, text). fold_res (link_step w file) v (remdups (w_link_targets w text))) v (w_markdown w)"

definition validate_generated_navigation :: "world \<Rightarrow> validation \<Rightarrow> validation" where
  "validate_generated_navigation w v =
     verror_if (w_stale_navigation w \<noteq> None) ''generated navigation is stale'' v"

section \<open>The program\<close>

text \<open>\<open>main\<close>, with the manifest or \<open>None\<close> when it cannot be loaded; the result is the exit status and the log.\<close>

definition validate_main :: "nat \<Rightarrow> world \<Rightarrow> bool \<Rightarrow> json option \<Rightarrow> (int \<times> validation) result" where
  "validate_main depth w development manifest =
     bind_res
       (case manifest of
          None \<Rightarrow> Inr \<lparr>v_errors = [''cannot load curriculum.json''], v_warnings = []\<rparr>
        | Some manifest \<Rightarrow>
            bind_res (validate_release w manifest \<lparr>v_errors = [], v_warnings = []\<rparr>) (\<lambda>(baseline_ready, v).
            bind_res (validate_stages manifest v) (\<lambda>(stages, v).
            bind_res (validate_units depth w manifest stages v) (\<lambda>(units, v).
            bind_res (validate_release_completion manifest units v) (\<lambda>v.
            bind_res (validate_source w manifest units v) (\<lambda>v.
            bind_res (validate_question_migration w manifest v) (\<lambda>v.
            bind_res (if baseline_ready then validate_baseline_sources w manifest development v else Inr v) (\<lambda>v.
            bind_res (validate_markdown_links w v) (\<lambda>v.
            Inr (validate_generated_navigation w v)))))))))) (\<lambda>v.
     Inr (if v_errors v \<noteq> [] then 1 else 0, v))"

end
