(* ===== verification/CurriculumGraph.thy ===== *)
theory CurriculumGraph
  imports Curriculum "HOL-Library.Sublist"
begin

text \<open>
  The prerequisite check of \<open>tools/validate.py\<close>: the depth-first search reports an error iff the
  graph of the \<open>requires\<close> fields has a cycle.
\<close>

section \<open>The graph\<close>

definition required_list :: "json \<Rightarrow> json list result" where
  "required_list unit = bind_res (jindex unit ''requires'') jiter"

text \<open>Every unit has a \<open>requires\<close> field that can be iterated and whose elements can be looked up.\<close>

definition units_typed :: "(string, json) dict \<Rightarrow> bool" where
  "units_typed units \<longleftrightarrow>
     list_all (\<lambda>(unit_id, unit). case required_list unit of Inl e \<Rightarrow> False | Inr ts \<Rightarrow> list_all hashable ts) units"

fun known_targets :: "string list \<Rightarrow> json list \<Rightarrow> string list" where
  "known_targets ks [] = []"
| "known_targets ks (JStr t # ts) = (if t \<in> set ks then t # known_targets ks ts else known_targets ks ts)"
| "known_targets ks (_ # ts) = known_targets ks ts"

definition targets_of :: "(string, json) dict \<Rightarrow> string \<Rightarrow> string list" where
  "targets_of units unit_id =
     (case map_of units unit_id of
        None \<Rightarrow> []
      | Some unit \<Rightarrow> (case required_list unit of Inl e \<Rightarrow> [] | Inr ts \<Rightarrow> known_targets (dkeys units) ts))"

definition requires_rel :: "(string, json) dict \<Rightarrow> (string \<times> string) set" where
  "requires_rel units = {(u, t). t \<in> set (targets_of units u)}"

lemma set_known_targets: "set (known_targets ks ts) = {t. JStr t \<in> set ts \<and> t \<in> set ks}"
  by (induction ks ts rule: known_targets.induct) auto

lemma targets_known: "set (targets_of units u) \<subseteq> set (dkeys units)"
  by (auto simp: targets_of_def set_known_targets split: option.splits sum.splits)

lemma requires_rel_keys: "(u, t) \<in> requires_rel units \<Longrightarrow> u \<in> set (dkeys units) \<and> t \<in> set (dkeys units)"
  using targets_known [of units u]
  by (cases "map_of units u") (auto simp: requires_rel_def targets_of_def [of units u] set_dkeys)

text \<open>The loop over the targets of a unit only acts on the known ones.\<close>

lemma requires_loop:
  assumes "list_all hashable ts"
  shows "fold_res (\<lambda>s target. bind_res (in_keys target ks) (\<lambda>known.
      if known then (case target of JStr t \<Rightarrow> f t s | _ \<Rightarrow> Inr s) else Inr s)) s ts =
    fold_res (\<lambda>s t. f t s) s (known_targets ks ts)"
  using assms
proof (induction ks ts arbitrary: s rule: known_targets.induct)
  case (2 ks t ts)
  then show ?case by (auto simp: in_keys_def in_hashed_def list_ex_iff split: if_splits intro!: bind_res_cong)
qed (auto simp: in_keys_def in_hashed_def list_ex_iff)

definition mark :: "string \<Rightarrow> nat \<Rightarrow> visit_state \<Rightarrow> visit_state" where
  "mark u c s = s\<lparr>vs_state := dput u c (vs_state s)\<rparr>"

lemma visit_Suc:
  assumes "units_typed units" and "u \<in> set (dkeys units)"
  shows "visit (Suc depth) units u path s =
    (if map_of (vs_state s) u = Some 1 then
       Inr (s\<lparr>vs_log := verror (''requires cycle: '' @ py_join '' -> '' (path @ [u])) (vs_log s)\<rparr>)
     else if map_of (vs_state s) u = Some 2 then Inr s
     else bind_res (fold_res (\<lambda>s t. visit depth units t (path @ [u]) s) (mark u 1 s) (targets_of units u))
       (\<lambda>s. Inr (mark u 2 s)))"
proof -
  obtain unit where unit: "map_of units u = Some unit" using assms(2) by (auto simp: set_dkeys)
  then have "(u, unit) \<in> set units" by (rule map_of_SomeD)
  with assms(1) have "case required_list unit of Inl e \<Rightarrow> False | Inr ts \<Rightarrow> list_all hashable ts"
    unfolding units_typed_def list_all_iff by (rule bspec [elim_format]) simp
  then obtain ts where ts: "required_list unit = Inr ts" "list_all hashable ts"
    by (cases "required_list unit") auto
  then obtain r where r: "jindex unit ''requires'' = Inr r" "jiter r = Inr ts"
    by (auto simp: required_list_def elim: bind_res_InrE)
  have "targets_of units u = known_targets (dkeys units) ts" by (simp add: targets_of_def unit ts(1))
  then show ?thesis
    by (simp add: dget_def unit r mark_def requires_loop [OF ts(2), of "dkeys units" "\<lambda>t. visit depth units t (path @ [u])"])
qed

section \<open>Colours\<close>

definition active :: "visit_state \<Rightarrow> string set" where
  "active s = {u. map_of (vs_state s) u = Some 1}"

definition finished :: "visit_state \<Rightarrow> string set" where
  "finished s = {u. map_of (vs_state s) u = Some 2}"

lemma mark_colours [simp]:
  "active (mark u 1 s) = insert u (active s)"
  "active (mark u 2 s) = active s - {u}"
  "finished (mark u 1 s) = finished s - {u}"
  "finished (mark u 2 s) = insert u (finished s)"
  "vs_log (mark u c s) = vs_log s"
  by (auto simp: mark_def active_def finished_def)

lemmas mark_colours_Suc [simp] = mark_colours [unfolded One_nat_def]

lemma active_finished: "active s \<inter> finished s = {}"
  by (auto simp: active_def finished_def)

lemma log_colours [simp]:
  "active (s\<lparr>vs_log := v\<rparr>) = active s" "finished (s\<lparr>vs_log := v\<rparr>) = finished s"
  by (simp_all add: active_def finished_def)

text \<open>The finished part is closed under prerequisites and has no cycle.\<close>

definition settled :: "(string \<times> string) set \<Rightarrow> string set \<Rightarrow> bool" where
  "settled E B \<longleftrightarrow> E `` B \<subseteq> B \<and> acyclic (Restr E B)"

lemma settled_insert:
  assumes "settled E B" and "u \<notin> B" and "E `` {u} \<subseteq> B"
  shows "settled E (insert u B)"
proof -
  have sub: "Restr E (insert u B) \<subseteq> Restr E B \<union> {u} \<times> B"
    using assms by (auto simp: settled_def)
  have step: "x \<in> B \<and> y \<in> B \<and> (x, y) \<in> (Restr E B)\<^sup>+ \<or> x = u \<and> y \<in> B"
    if "(x, y) \<in> (Restr E B \<union> {u} \<times> B)\<^sup>+" for x y
    using that
  proof induction
    case (base y)
    then show ?case by auto
  next
    case (step y z)
    then show ?case using assms(2) by (auto intro: trancl_into_trancl)
  qed
  have "acyclic (Restr E B \<union> {u} \<times> B)"
    unfolding acyclic_def using step assms(1,2) by (fastforce simp: settled_def acyclic_def)
  then have "acyclic (Restr E (insert u B))" using sub by (rule acyclic_subset)
  with assms show ?thesis by (auto simp: settled_def)
qed

section \<open>The search\<close>

definition log_errors :: "visit_state \<Rightarrow> string list" where
  "log_errors s = v_errors (vs_log s)"

text \<open>What a completed visit guarantees, as a relation between the states before and after it.\<close>

definition visited :: "(string, json) dict \<Rightarrow> visit_state \<Rightarrow> visit_state \<Rightarrow> bool" where
  "visited units s t \<longleftrightarrow>
     active t = active s \<and> finished s \<subseteq> finished t \<and> finished t \<subseteq> finished s \<union> set (dkeys units) \<and>
     prefix (log_errors s) (log_errors t) \<and>
     (log_errors t \<noteq> log_errors s \<longrightarrow> \<not> acyclic (requires_rel units)) \<and>
     (log_errors t = log_errors s \<longrightarrow> settled (requires_rel units) (finished s) \<longrightarrow>
        settled (requires_rel units) (finished t))"

lemma visited_refl: "visited units s s"
  by (simp add: visited_def)

lemma visited_trans:
  assumes st: "visited units s t" and tu: "visited units t u"
  shows "visited units s u"
proof -
  have pre: "prefix (log_errors s) (log_errors t)" "prefix (log_errors t) (log_errors u)"
    using assms by (simp_all add: visited_def)
  have "log_errors t = log_errors s \<and> log_errors u = log_errors t" if "log_errors u = log_errors s"
    using pre that by (simp add: prefix_order.antisym)
  with st tu show ?thesis unfolding visited_def using prefix_order.trans [OF pre]
    by (intro conjI impI) (blast | metis | simp)+
qed

text \<open>Units the search has not met yet; their number bounds the recursion depth that is needed.\<close>

definition unmet :: "(string, json) dict \<Rightarrow> visit_state \<Rightarrow> nat" where
  "unmet units s = card (set (dkeys units) - active s - finished s)"

lemma unmet_mono:
  assumes "visited units s t"
  shows "unmet units t \<le> unmet units s"
  using assms unfolding unmet_def visited_def by (intro card_mono) auto

lemma unmet_mark:
  assumes "u \<in> set (dkeys units)" and "u \<notin> active s" and "u \<notin> finished s"
  shows "unmet units (mark u 1 s) < unmet units s"
  unfolding unmet_def using assms by (intro psubset_card_mono) auto

definition visit_ok :: "(string, json) dict \<Rightarrow> nat \<Rightarrow> string \<Rightarrow> bool" where
  "visit_ok units depth u \<longleftrightarrow>
     (\<forall>path s. unmet units s < depth \<longrightarrow> (\<forall>p \<in> active s. (p, u) \<in> (requires_rel units)\<^sup>+) \<longrightarrow>
        (\<exists>t. visit depth units u path s = Inr t \<and> visited units s t \<and>
           (log_errors t = log_errors s \<longrightarrow> u \<in> finished t)))"

lemma visit_okD:
  assumes "visit_ok units depth u" and "unmet units s < depth" and "\<forall>p \<in> active s. (p, u) \<in> (requires_rel units)\<^sup>+"
  obtains t where "visit depth units u path s = Inr t" and "visited units s t"
    and "log_errors t = log_errors s \<Longrightarrow> u \<in> finished t"
  using assms unfolding visit_ok_def by blast

lemma visit_all:
  assumes "\<forall>t \<in> set ts. visit_ok units depth t" and "unmet units s < depth"
    and "\<forall>t \<in> set ts. \<forall>p \<in> active s. (p, t) \<in> (requires_rel units)\<^sup>+"
  shows "\<exists>s'. fold_res (\<lambda>s t. visit depth units t path s) s ts = Inr s' \<and> visited units s s' \<and>
    (log_errors s' = log_errors s \<longrightarrow> set ts \<subseteq> finished s')"
  using assms
proof (induction ts arbitrary: s)
  case Nil
  then show ?case by (simp add: visited_refl)
next
  case (Cons t ts)
  from Cons.prems obtain s1 where s1: "visit depth units t path s = Inr s1" "visited units s s1"
    "log_errors s1 = log_errors s \<Longrightarrow> t \<in> finished s1"
    by (auto elim: visit_okD [of units depth t s path])
  have "unmet units s1 < depth" using unmet_mono [OF s1(2)] Cons.prems(2) by simp
  moreover have "active s1 = active s" using s1(2) by (simp add: visited_def)
  ultimately obtain s2 where s2: "fold_res (\<lambda>s t. visit depth units t path s) s1 ts = Inr s2" "visited units s1 s2"
    "log_errors s2 = log_errors s1 \<Longrightarrow> set ts \<subseteq> finished s2"
    using Cons.IH [of s1] Cons.prems(1,3) by auto
  have run: "fold_res (\<lambda>s t. visit depth units t path s) s (t # ts) = Inr s2" using s1(1) s2(1) by simp
  have all: "set (t # ts) \<subseteq> finished s2" if eq: "log_errors s2 = log_errors s"
  proof -
    have "prefix (log_errors s) (log_errors s1)" "prefix (log_errors s1) (log_errors s2)"
      using s1(2) s2(2) by (simp_all add: visited_def)
    then have "log_errors s1 = log_errors s" "log_errors s2 = log_errors s1"
      using eq by (simp_all add: prefix_order.antisym)
    with s1(3) s2(2,3) show ?thesis by (auto simp: visited_def)
  qed
  from run visited_trans [OF s1(2) s2(2)] all show ?case by blast
qed

lemma visit_active:
  assumes "u \<in> active s" and "\<forall>p \<in> active s. (p, u) \<in> (requires_rel units)\<^sup>+"
  shows "visited units s (s\<lparr>vs_log := verror m (vs_log s)\<rparr>)"
  using assms by (auto simp: visited_def log_errors_def verror_def acyclic_def)

lemma visit_new:
  assumes u: "u \<notin> active s" "u \<notin> finished s" "u \<in> set (dkeys units)"
    and run: "visited units (mark u 1 s) t"
    and all: "log_errors t = log_errors (mark u 1 s) \<Longrightarrow> set (targets_of units u) \<subseteq> finished t"
  shows "visited units s (mark u 2 t)" and "u \<in> finished (mark u 2 t)"
proof -
  have errs: "log_errors (mark u c x) = log_errors x" for c x by (simp add: log_errors_def)
  have a: "active t = insert u (active s)" and f: "finished s \<subseteq> finished t"
    and k: "finished t \<subseteq> finished s \<union> set (dkeys units)"
    using run u(2) by (auto simp: visited_def)
  have ut: "u \<notin> finished t" using a active_finished [of t] by blast
  have "settled (requires_rel units) (insert u (finished t))"
    if "log_errors t = log_errors s" "settled (requires_rel units) (finished s)"
  proof -
    have "settled (requires_rel units) (finished t)"
      using run that u(2) by (simp add: visited_def errs)
    moreover have "requires_rel units `` {u} \<subseteq> finished t" using all that(1) by (auto simp: requires_rel_def errs)
    ultimately show ?thesis using ut by (intro settled_insert)
  qed
  then show "visited units s (mark u 2 t)"
    using run a f k u by (auto simp: visited_def errs)
  show "u \<in> finished (mark u 2 t)" by simp
qed

lemma visit_correct:
  assumes "units_typed units"
  shows "u \<in> set (dkeys units) \<Longrightarrow> visit_ok units depth u"
proof (induction depth arbitrary: u)
  case 0
  then show ?case by (simp add: visit_ok_def)
next
  case (Suc depth)
  show ?case
    unfolding visit_ok_def
  proof (intro allI impI)
    fix path s
    assume room: "unmet units s < Suc depth" and up: "\<forall>p \<in> active s. (p, u) \<in> (requires_rel units)\<^sup>+"
    note unfold = visit_Suc [OF assms Suc.prems, of depth path s]
    consider "u \<in> active s" | "u \<in> finished s" "u \<notin> active s" | "u \<notin> active s" "u \<notin> finished s" by blast
    then show "\<exists>t. visit (Suc depth) units u path s = Inr t \<and> visited units s t \<and>
        (log_errors t = log_errors s \<longrightarrow> u \<in> finished t)"
    proof cases
      case 1
      then show ?thesis unfolding unfold using visit_active [OF _ up]
        by (auto simp: active_def log_errors_def verror_def)
    next
      case 2
      then show ?thesis unfolding unfold by (auto simp: active_def finished_def visited_refl)
    next
      case 3
      have "\<forall>t \<in> set (targets_of units u). visit_ok units depth t" using Suc.IH targets_known [of units u] by blast
      moreover have "unmet units (mark u 1 s) < depth" using unmet_mark [OF Suc.prems 3] room by simp
      moreover have "\<forall>t \<in> set (targets_of units u). \<forall>p \<in> active (mark u 1 s). (p, t) \<in> (requires_rel units)\<^sup>+"
        using up by (auto simp: requires_rel_def intro: trancl_into_trancl)
      ultimately obtain t where t: "fold_res (\<lambda>s t. visit depth units t (path @ [u]) s) (mark u 1 s) (targets_of units u) = Inr t"
        "visited units (mark u 1 s) t"
        "log_errors t = log_errors (mark u 1 s) \<Longrightarrow> set (targets_of units u) \<subseteq> finished t"
        using visit_all by blast
      have "visit (Suc depth) units u path s = Inr (mark u 2 t)"
        unfolding unfold t(1) using 3 by (simp add: active_def finished_def)
      then show ?thesis using visit_new [OF 3 Suc.prems t(2,3)] by blast
    qed
  qed
qed

lemma acyclic_requires_correct:
  assumes "units_typed units" and "length units < depth"
  shows "\<exists>v'. validate_acyclic_requires depth units v = Inr v' \<and> prefix (v_errors v) (v_errors v') \<and>
    (v_errors v' = v_errors v \<longleftrightarrow> acyclic (requires_rel units))"
proof -
  let ?s = "\<lparr>vs_state = [], vs_log = v\<rparr>"
  have empty: "active ?s = {}" "finished ?s = {}" by (simp_all add: active_def finished_def)
  have "unmet units ?s \<le> length units"
    using card_length [of "dkeys units"] by (simp add: unmet_def empty dkeys_def)
  then obtain s' where run: "fold_res (\<lambda>s u. visit depth units u [] s) ?s (dkeys units) = Inr s'"
    and vis: "visited units ?s s'" and all: "log_errors s' = log_errors ?s \<Longrightarrow> set (dkeys units) \<subseteq> finished s'"
    using visit_all [of "dkeys units" units depth ?s "[]"] visit_correct [OF assms(1)] assms(2) empty by auto
  have "acyclic (requires_rel units)" if "log_errors s' = log_errors ?s"
  proof -
    have "requires_rel units \<subseteq> finished s' \<times> finished s'"
      using all [OF that] by (auto dest: requires_rel_keys)
    then have "Restr (requires_rel units) (finished s') = requires_rel units" by blast
    moreover have "settled (requires_rel units) (finished s')"
      using vis that by (simp add: visited_def empty settled_def acyclic_def)
    ultimately show ?thesis by (simp add: settled_def)
  qed
  with run vis show ?thesis
    by (auto simp: validate_acyclic_requires_def visited_def log_errors_def)
qed

end
