(* ===== verification/CurriculumProps.thy ===== *)
theory CurriculumProps
  imports CurriculumGraph
begin

text \<open>
  What a validation without errors says about the manifest.
\<close>

section \<open>Logs only grow\<close>

text \<open>
  The contract of a checking step: it may add messages to its log and never removes one.  A run
  that ends with the log it started with therefore passed through steps that added nothing.
\<close>

locale logged =
  fixes step :: "'s \<Rightarrow> 'e \<Rightarrow> 's result"
    and errs :: "'s \<Rightarrow> string list"
  assumes step_log: "step s e = Inr t \<Longrightarrow> prefix (errs s) (errs t)"
begin

lemma run_log: "fold_res step s es = Inr t \<Longrightarrow> prefix (errs s) (errs t)"
proof (induction es arbitrary: s)
  case Nil
  then show ?case by simp
next
  case (Cons e es)
  then obtain u where "step s e = Inr u" "fold_res step u es = Inr t" by (auto elim: bind_res_InrE)
  with Cons.IH step_log show ?case using prefix_order.trans by blast
qed

lemma run_silent:
  assumes "fold_res step s (es @ e # fs) = Inr t" and "errs t = errs s"
  shows "\<exists>u u'. fold_res step s es = Inr u \<and> step u e = Inr u' \<and> errs u = errs s \<and> errs u' = errs s"
proof -
  from assms(1) obtain u u' where u: "fold_res step s es = Inr u" "step u e = Inr u'" "fold_res step u' fs = Inr t"
    by (auto simp: fold_res_append elim!: bind_res_InrE)
  have p: "prefix (errs s) (errs u)" "prefix (errs u) (errs u')" "prefix (errs u') (errs s)"
    using run_log [OF u(1)] step_log [OF u(2)] run_log [OF u(3)] assms(2) by simp_all
  have "errs u' = errs s" using p by (meson prefix_order.antisym prefix_order.trans)
  moreover have "errs u = errs s" using p by (meson prefix_order.antisym prefix_order.trans)
  ultimately show ?thesis using u by blast
qed

lemma run_member:
  assumes "fold_res step s es = Inr t" and "errs t = errs s" and "e \<in> set es"
  shows "\<exists>u u'. step u e = Inr u' \<and> errs u' = errs u"
proof -
  from assms(3) obtain as bs where "es = as @ e # bs" by (meson split_list)
  with run_silent [of s as e bs t] assms(1,2) show ?thesis by metis
qed

end

lemma prefix_verror [simp]: "prefix (v_errors v) (v_errors (verror m v))"
  by (simp add: verror_def)

lemma prefix_verror_if [simp]: "prefix (v_errors v) (v_errors (verror_if c m v))"
  by (simp add: verror_if_def)

lemma verror_if_silent [simp]: "v_errors (verror_if c m v) = v_errors v \<longleftrightarrow> \<not> c"
  by (simp add: verror_if_def verror_def)

lemma prefix_via_verror_if: "prefix xs (v_errors v) \<Longrightarrow> prefix xs (v_errors (verror_if c m v))"
  by (meson prefix_order.trans prefix_verror_if)

lemma prefix_foldl_verror_if:
  "prefix xs (v_errors v) \<Longrightarrow> prefix xs (v_errors (foldl (\<lambda>v x. verror_if (c x) (m x) v) v ys))"
  by (induction ys arbitrary: v) (simp_all add: prefix_via_verror_if)

interpretation relation: logged "relation_step message known" v_errors for message known
  by unfold_locales (auto simp: relation_step_def result_simps)

interpretation resolve: logged "resolve_step boxes" v_errors for boxes
  by unfold_locales (auto simp: resolve_step_def result_simps)

interpretation prerequisite: logged "prerequisite_step units" v_errors for units
  by unfold_locales (auto simp: prerequisite_step_def result_simps split: if_splits)

lemma relations_stepE:
  assumes "relations_step units boxes v (uid, unit) = Inr v'"
  obtains required related resolved status v1 v2 v3 where "required_list unit = Inr required"
    "fold_res (relation_step ''unit requires unknown unit'' (dkeys units)) v required = Inr v1"
    "fold_res (relation_step ''unit related unknown unit'' (dkeys units)) v1 related = Inr v2"
    "fold_res (resolve_step boxes) v2 resolved = Inr v3" "unit_status unit = Inr status"
    "(if json_eq status (JStr ''verified'') then fold_res (prerequisite_step units) v3 required else Inr v3) = Inr v'"
  using assms unfolding relations_step_def prod.case
proof (elim bind_res_InrE)
  fix r required v1 rel related v2 res resolved v3 status
  assume "jindex unit ''requires'' = Inr r" "jiter r = Inr required"
    "fold_res (relation_step ''unit requires unknown unit'' (dkeys units)) v required = Inr v1"
    "fold_res (relation_step ''unit related unknown unit'' (dkeys units)) v1 related = Inr v2"
    "fold_res (resolve_step boxes) v2 resolved = Inr v3" "unit_status unit = Inr status"
    "(if json_eq status (JStr ''verified'') then fold_res (prerequisite_step units) v3 required else Inr v3) = Inr v'"
  then show thesis by (intro that) (simp_all add: required_list_def)
qed

interpretation relations: logged "relations_step units boxes" v_errors for units boxes
proof
  fix v and x :: "string \<times> json" and v'
  assume step: "relations_step units boxes v x = Inr v'"
  obtain uid unit where x: "x = (uid, unit)" by (cases x)
  show "prefix (v_errors v) (v_errors v')"
    using step unfolding x
  proof (rule relations_stepE)
    fix required related resolved status v1 v2 v3
    assume "fold_res (relation_step ''unit requires unknown unit'' (dkeys units)) v required = Inr v1"
      "fold_res (relation_step ''unit related unknown unit'' (dkeys units)) v1 related = Inr v2"
      "fold_res (resolve_step boxes) v2 resolved = Inr v3"
      and last: "(if json_eq status (JStr ''verified'') then fold_res (prerequisite_step units) v3 required else Inr v3) = Inr v'"
    then have "prefix (v_errors v) (v_errors v1)" "prefix (v_errors v1) (v_errors v2)" "prefix (v_errors v2) (v_errors v3)"
      by (simp_all add: relation.run_log resolve.run_log)
    moreover have "prefix (v_errors v3) (v_errors v')"
      using last prerequisite.run_log by (auto split: if_splits)
    ultimately show ?thesis by (meson prefix_order.trans)
  qed
qed

lemma relation_silent:
  assumes "relation_step m known v t = Inr v'" and "v_errors v' = v_errors v"
  shows "\<exists>k \<in> set known. t = JStr k"
  using assms unfolding relation_step_def by (elim bind_res_InrE) (auto simp: result_simps)

lemma prerequisite_silent:
  assumes "prerequisite_step units v (JStr k) = Inr v'" and "v_errors v' = v_errors v"
    and "map_of units k = Some p"
  shows "unit_status p = Inr (JStr ''verified'')"
proof -
  have "k \<in> set (dkeys units)" using assms(3) by (auto simp: set_dkeys)
  with assms obtain status where "unit_status p = Inr status" "\<not> \<not> json_eq status (JStr ''verified'')"
    by (cases "unit_status p") (auto simp: prerequisite_step_def dget_def)
  then show ?thesis by simp
qed

text \<open>What a silent pass over the relations establishes for one unit.\<close>

lemma relations_silent:
  assumes step: "relations_step units boxes v (uid, unit) = Inr v'" and silent: "v_errors v' = v_errors v"
  obtains required status where "required_list unit = Inr required" and "unit_status unit = Inr status"
    and "list_all hashable required" and "\<forall>t \<in> set required. \<exists>k \<in> set (dkeys units). t = JStr k"
    and "json_eq status (JStr ''verified'') \<Longrightarrow> \<forall>k p. JStr k \<in> set required \<longrightarrow> map_of units k = Some p \<longrightarrow>
      unit_status p = Inr (JStr ''verified'')"
  using step
proof (rule relations_stepE)
  fix required related resolved status v1 v2 v3
  assume req: "required_list unit = Inr required" and st: "unit_status unit = Inr status"
    and f1: "fold_res (relation_step ''unit requires unknown unit'' (dkeys units)) v required = Inr v1"
    and f2: "fold_res (relation_step ''unit related unknown unit'' (dkeys units)) v1 related = Inr v2"
    and f3: "fold_res (resolve_step boxes) v2 resolved = Inr v3"
    and last: "(if json_eq status (JStr ''verified'') then fold_res (prerequisite_step units) v3 required else Inr v3) = Inr v'"
  have p: "prefix (v_errors v) (v_errors v1)" "prefix (v_errors v1) (v_errors v2)" "prefix (v_errors v2) (v_errors v3)"
    using relation.run_log [OF f1] relation.run_log [OF f2] resolve.run_log [OF f3] by simp_all
  have p3: "prefix (v_errors v3) (v_errors v')" using last prerequisite.run_log by (auto split: if_splits)
  have v1: "v_errors v1 = v_errors v" and v3: "v_errors v' = v_errors v3"
    using p p3 silent by (metis prefix_order.antisym prefix_order.trans)+
  have known: "\<exists>k \<in> set (dkeys units). t = JStr k" if "t \<in> set required" for t
    using relation.run_member [OF f1 v1 that] relation_silent by blast
  have "unit_status p = Inr (JStr ''verified'')"
    if "json_eq status (JStr ''verified'')" "JStr k \<in> set required" "map_of units k = Some p" for k p
  proof -
    have run: "fold_res (prerequisite_step units) v3 required = Inr v'" using last that(1) by simp
    from prerequisite.run_member [OF run v3 that(2)] show ?thesis
      using that(3) prerequisite_silent by blast
  qed
  moreover have "hashable t" if "t \<in> set required" for t using known [OF that] by auto
  ultimately show thesis using req st known by (intro that [of required status]) (auto simp: list_all_iff)
qed

section \<open>Units\<close>

interpretation claim: logged "claim_step message" "v_errors \<circ> snd" for message
  by unfold_locales (auto simp: claim_step_def case_prod_unfold result_simps)

interpretation resource: logged "resource_step w status" v_errors for w status
  by unfold_locales (auto simp: resource_step_def result_simps)

interpretation review: logged "review_step w" v_errors for w
  by unfold_locales
    (auto simp: review_step_def review_checks_def Let_def result_simps prefix_foldl_verror_if split: if_splits)

lemma claim_all_log:
  assumes "claim_all message names owners v = Inr (owners', v')"
  shows "prefix (v_errors v) (v_errors v')"
  using assms claim.run_log [of message "(owners, v)" _ "(owners', v')"]
  by (auto simp: claim_all_def elim!: bind_res_InrE)

lemma reviews_log:
  assumes "validate_walkthrough_reviews w unit v = Inr v'"
  shows "prefix (v_errors v) (v_errors v')"
  using assms unfolding validate_walkthrough_reviews_def by (elim bind_res_InrE) (rule review.run_log)

lemma page_log:
  assumes "validate_unit_page w unit v = Inr v'"
  shows "prefix (v_errors v) (v_errors v')"
  using assms unfolding validate_unit_page_def
  by (elim bind_res_InrE) (auto simp: prefix_foldl_verror_if split: if_splits elim!: bind_res_InrE)

lemma unit_log_chain:
  assumes "claim_all m xm ow (verror_if c1 m1 (verror_if c2 m2 (verror_if c3 m3 (verror_if c4 m4
      (verror_if c5 m5 (verror_if c6 m6 v0)))))) = Inr p" and "p = (owned, v1)"
    and "claim_all m' xo bo v1 = Inr p'" and "p' = (boxes, v2)"
    and "fold_res (resource_step w status) v2 xt = Inr v3"
    and "(if b then validate_walkthrough_reviews w unit (verror_if c m7 v3) else Inr (verror_if c m7 v3)) = Inr v4"
    and "validate_unit_page w unit v4 = Inr v5"
  shows "prefix (v_errors v0) (v_errors v5)"
proof -
  have "prefix (v_errors v0) (v_errors v1)"
    using claim_all_log [OF assms(1) [unfolded assms(2)]]
    by (meson prefix_order.trans prefix_verror_if)
  moreover have "prefix (v_errors v1) (v_errors v2)" using claim_all_log [OF assms(3) [unfolded assms(4)]] .
  moreover have "prefix (v_errors v2) (v_errors v3)" using resource.run_log [OF assms(5)] .
  moreover have "prefix (v_errors v3) (v_errors v4)"
    using assms(6) reviews_log [of w unit "verror_if c m7 v3" v4]
    by (cases b) (auto intro: prefix_order.trans [OF prefix_verror_if])
  moreover have "prefix (v_errors v4) (v_errors v5)" using page_log [OF assms(7)] .
  ultimately show ?thesis by (meson prefix_order.trans)
qed

lemma unit_checks_log:
  "ensures (unit_checks w stages s unit uid) (\<lambda>t.
     prefix (v_errors (verror_if (uid \<in> set (dkeys (us_result s))) ''duplicate unit id'' (us_log s)))
       (v_errors (us_log t)) \<and> us_result t = dput uid unit (us_result s))"
  unfolding unit_checks_def Let_def
  by (intro ensures_bind ensures_pair ensures_Inr) (simp add: unit_log_chain)

definition unit_id_of :: "json \<Rightarrow> json result" where
  "unit_id_of unit = jindex unit ''id''"

lemma unit_step_log:
  assumes step: "unit_step w stages s unit = Inr t"
  shows "prefix (v_errors (us_log s)) (v_errors (us_log t))"
    and "v_errors (us_log t) = v_errors (us_log s) \<Longrightarrow>
      \<exists>uid. unit_id_of unit = Inr (JStr uid) \<and> uid \<notin> set (dkeys (us_result s)) \<and>
        us_result t = us_result s @ [(uid, unit)]"
proof -
  consider (skip) m where "t = s\<lparr>us_log := verror m (us_log s)\<rparr>"
    | (check) uid where "unit_id_of unit = Inr (JStr uid)" "unit_checks w stages s unit uid = Inr t"
    using step unfolding unit_step_def unit_id_of_def
    by (auto split: json.splits if_splits elim!: bind_res_InrE)
  then have "prefix (v_errors (us_log s)) (v_errors (us_log t)) \<and>
    (v_errors (us_log t) = v_errors (us_log s) \<longrightarrow>
      (\<exists>uid. unit_id_of unit = Inr (JStr uid) \<and> uid \<notin> set (dkeys (us_result s)) \<and>
        us_result t = us_result s @ [(uid, unit)]))"
  proof cases
    case skip
    then show ?thesis by (simp add: verror_def)
  next
    case check
    note log = ensuresD [OF unit_checks_log check(2)]
    have pre: "prefix (v_errors (us_log s)) (v_errors (us_log t))"
      using log by (meson prefix_order.trans prefix_verror_if)
    moreover have "uid \<notin> set (dkeys (us_result s))" if "v_errors (us_log t) = v_errors (us_log s)"
    proof
      assume "uid \<in> set (dkeys (us_result s))"
      with log that show False by (simp add: verror_if_def verror_def)
    qed
    ultimately show ?thesis using check(1) log by (auto simp: dput_new)
  qed
  then show "prefix (v_errors (us_log s)) (v_errors (us_log t))"
    and "v_errors (us_log t) = v_errors (us_log s) \<Longrightarrow>
      \<exists>uid. unit_id_of unit = Inr (JStr uid) \<and> uid \<notin> set (dkeys (us_result s)) \<and>
        us_result t = us_result s @ [(uid, unit)]" by blast+
qed

interpretation units: logged "unit_step w stages" "v_errors \<circ> us_log" for w stages
  by unfold_locales (simp add: unit_step_log(1))

text \<open>A silent pass keeps every unit, under its own id, in the order of the manifest.\<close>

lemma units_run:
  assumes "fold_res (unit_step w stages) s us = Inr t" and "v_errors (us_log t) = v_errors (us_log s)"
    and "dict_ok (us_result s)"
  shows "dict_ok (us_result t) \<and>
    (\<exists>ids. us_result t = us_result s @ zip ids us \<and> map unit_id_of us = map (Inr \<circ> JStr) ids)"
  using assms
proof (induction us arbitrary: s)
  case Nil
  then show ?case by simp
next
  case (Cons u us)
  then obtain s1 where s1: "unit_step w stages s u = Inr s1" "fold_res (unit_step w stages) s1 us = Inr t"
    by (auto elim: bind_res_InrE)
  have "prefix (v_errors (us_log s)) (v_errors (us_log s1))" "prefix (v_errors (us_log s1)) (v_errors (us_log t))"
    using unit_step_log(1) [OF s1(1)] units.run_log [OF s1(2)] by simp_all
  then have eq: "v_errors (us_log s1) = v_errors (us_log s)" "v_errors (us_log t) = v_errors (us_log s1)"
    using Cons.prems(2) by (simp_all add: prefix_order.antisym)
  from unit_step_log(2) [OF s1(1) eq(1)] obtain uid where uid: "unit_id_of u = Inr (JStr uid)"
    "uid \<notin> set (dkeys (us_result s))" "us_result s1 = us_result s @ [(uid, u)]" by blast
  have "dict_ok (us_result s1)" using Cons.prems(3) uid(2,3) dict_ok_dput [of "us_result s" uid u] by (simp add: dput_new)
  from Cons.IH [OF s1(2) eq(2) this] obtain ids where
    "dict_ok (us_result t)" "us_result t = us_result s1 @ zip ids us" "map unit_id_of us = map (Inr \<circ> JStr) ids" by blast
  with uid show ?case by (intro conjI exI [of _ "uid # ids"]) simp_all
qed

section \<open>The curriculum graph\<close>

definition verified_unit :: "(string, json) dict \<Rightarrow> string \<Rightarrow> bool" where
  "verified_unit units u \<longleftrightarrow> (case map_of units u of
     None \<Rightarrow> False | Some unit \<Rightarrow> unit_status unit = Inr (JStr ''verified''))"

lemma relations_typed:
  assumes "fold_res (relations_step units boxes) v units = Inr v'"
  shows "units_typed units"
  unfolding units_typed_def list_all_iff
proof (intro ballI)
  fix x
  assume x: "x \<in> set units"
  obtain uid unit where u: "x = (uid, unit)" by (cases x)
  from fold_res_member [OF assms x] obtain a b where "relations_step units boxes a (uid, unit) = Inr b"
    unfolding u by blast
  then show "case x of (unit_id, unit) \<Rightarrow>
      (case required_list unit of Inl e \<Rightarrow> False | Inr ts \<Rightarrow> \<forall>t \<in> set ts. hashable t)"
  proof (rule relations_stepE)
    fix required v1
    assume req: "required_list unit = Inr required"
      and run: "fold_res (relation_step ''unit requires unknown unit'' (dkeys units)) a required = Inr v1"
    have "hashable t" if "t \<in> set required" for t
      using fold_res_member [OF run that] by (auto simp: relation_step_def result_simps)
    with req show ?thesis by (simp add: u)
  qed
qed

lemma visit_log: "visit depth units u path s = Inr t \<Longrightarrow> prefix (log_errors s) (log_errors t)"
proof (induction depth arbitrary: u path s t)
  case 0
  then show ?case by simp
next
  case (Suc depth)
  have target: "prefix (log_errors s) (log_errors t)"
    if "bind_res (in_keys target (dkeys units)) (\<lambda>known. if known then
        (case target of JStr t \<Rightarrow> visit depth units t (path @ [u]) s | _ \<Rightarrow> Inr s) else Inr s) = Inr t" for target s t
    using that Suc.IH by (auto elim!: bind_res_InrE split: json.splits if_splits)
  have targets: "prefix (log_errors s) (log_errors t)"
    if "fold_res (\<lambda>s target. bind_res (in_keys target (dkeys units)) (\<lambda>known. if known then
        (case target of JStr t \<Rightarrow> visit depth units t (path @ [u]) s | _ \<Rightarrow> Inr s) else Inr s)) s ts = Inr t" for ts s t
    using that
  proof (induction ts arbitrary: s)
    case (Cons a ts)
    then show ?case using target prefix_order.trans by (force elim: bind_res_InrE)
  qed simp
  from Suc.prems show ?case
    by (auto simp: log_errors_def verror_def elim!: bind_res_InrE dest!: targets split: if_splits)
qed

interpretation search: logged "\<lambda>s u. visit depth units u [] s" log_errors for depth units
  by unfold_locales (rule visit_log)

lemma acyclic_log:
  assumes "validate_acyclic_requires depth units v = Inr v'"
  shows "prefix (v_errors v) (v_errors v')"
  using assms unfolding validate_acyclic_requires_def
  by (auto elim!: bind_res_InrE dest!: search.run_log simp: log_errors_def)

lemma validate_units_runs:
  assumes "validate_units depth w manifest stages v = Inr (units, v')"
  shows "v' = verror ''units must be a non-empty array'' v \<or>
    (\<exists>us s v2. jget manifest ''units'' = Inr (JList us) \<and> us_result s = units \<and>
      fold_res (unit_step w stages)
        \<lparr>us_result = [], us_paths = [], us_orders = [], us_owned = [], us_boxes = [], us_log = v\<rparr> us = Inr s \<and>
      fold_res (relations_step units (us_boxes s)) (us_log s) units = Inr v2 \<and>
      validate_acyclic_requires depth units v2 = Inr v')"
  using assms unfolding validate_units_def
  by (auto elim!: bind_res_InrE simp del: fold_res.simps split: json.splits list.splits)

lemma units_log:
  assumes "validate_units depth w manifest stages v = Inr (units, v')"
  shows "prefix (v_errors v) (v_errors v')"
  using validate_units_runs [OF assms]
proof (elim disjE exE conjE)
  fix us s v2
  assume "fold_res (unit_step w stages)
      \<lparr>us_result = [], us_paths = [], us_orders = [], us_owned = [], us_boxes = [], us_log = v\<rparr> us = Inr s"
    "fold_res (relations_step units (us_boxes s)) (us_log s) units = Inr v2"
    "validate_acyclic_requires depth units v2 = Inr v'"
  then have "prefix (v_errors v) (v_errors (us_log s))" "prefix (v_errors (us_log s)) (v_errors v2)"
    "prefix (v_errors v2) (v_errors v')"
    by (auto dest: units.run_log relations.run_log acyclic_log)
  then show ?thesis by (meson prefix_order.trans)
qed simp

lemma validate_units_parts:
  assumes "validate_units depth w manifest stages v = Inr (units, v')" and silent: "v_errors v' = v_errors v"
  obtains listed ids boxes v1 v2 where "jget manifest ''units'' = Inr (JList listed)"
    and "dict_ok units" and "units = zip ids listed" and "map unit_id_of listed = map (Inr \<circ> JStr) ids"
    and "fold_res (relations_step units boxes) v1 units = Inr v2" and "v_errors v2 = v_errors v1"
    and "length listed < depth \<Longrightarrow> acyclic (requires_rel units)"
  using validate_units_runs [OF assms(1)]
proof (elim disjE exE conjE)
  assume "v' = verror ''units must be a non-empty array'' v"
  with silent show thesis by (simp add: verror_def)
next
  fix us s v2
  assume us: "jget manifest ''units'' = Inr (JList us)"
    and run: "fold_res (unit_step w stages)
      \<lparr>us_result = [], us_paths = [], us_orders = [], us_owned = [], us_boxes = [], us_log = v\<rparr> us = Inr s"
    and rel: "fold_res (relations_step units (us_boxes s)) (us_log s) units = Inr v2"
    and dfs: "validate_acyclic_requires depth units v2 = Inr v'" and units: "us_result s = units"
  have p1: "prefix (v_errors v) (v_errors (us_log s))" using units.run_log [OF run] by simp
  have p2: "prefix (v_errors (us_log s)) (v_errors v2)" using relations.run_log [OF rel] .
  note p3 = acyclic_log [OF dfs]
  have e1: "v_errors (us_log s) = v_errors v" and e2: "v_errors v2 = v_errors (us_log s)" and e3: "v_errors v' = v_errors v2"
    using p1 p2 p3 silent by (metis prefix_order.antisym prefix_order.trans)+
  from units_run [OF run] e1 obtain ids where ids: "dict_ok units" "units = zip ids us"
    "map unit_id_of us = map (Inr \<circ> JStr) ids" by (auto simp: units)
  have "acyclic (requires_rel units)" if "length us < depth"
  proof -
    have "length units < depth" using that by (simp add: ids(2))
    from acyclic_requires_correct [OF relations_typed [OF rel] this, of v2] dfs e3 show ?thesis by auto
  qed
  with us ids rel e2 show thesis
    by (intro that [of us ids "us_boxes s" "us_log s" v2]) auto
qed

lemma requires_targets:
  assumes "map_of units u = Some unit" and "required_list unit = Inr required"
    and "\<forall>t \<in> set required. \<exists>k \<in> set (dkeys units). t = JStr k"
  shows "\<exists>ts. required = map JStr ts \<and> set ts \<subseteq> set (dkeys units)"
  using assms(3)
proof (induction required)
  case (Cons r rs)
  then obtain k ts where "r = JStr k" "k \<in> set (dkeys units)" "rs = map JStr ts" "set ts \<subseteq> set (dkeys units)" by auto
  then show ?case by (intro exI [of _ "k # ts"]) simp
qed simp

text \<open>
  The prerequisite structure of a curriculum: its units under distinct ids, every required unit
  present, no cycle, and verified units resting on verified units only.
\<close>

definition prerequisite_structure :: "json \<Rightarrow> (string, json) dict \<Rightarrow> bool" where
  "prerequisite_structure manifest units \<longleftrightarrow>
     (\<exists>listed ids. jget manifest ''units'' = Inr (JList listed) \<and> distinct ids \<and> units = zip ids listed \<and>
        map unit_id_of listed = map (Inr \<circ> JStr) ids) \<and>
     (\<forall>u unit. map_of units u = Some unit \<longrightarrow>
        (\<exists>ts. required_list unit = Inr (map JStr ts) \<and> set ts \<subseteq> set (dkeys units))) \<and>
     acyclic (requires_rel units) \<and>
     (\<forall>u t. (u, t) \<in> (requires_rel units)\<^sup>+ \<longrightarrow> verified_unit units u \<longrightarrow> verified_unit units t)"

lemma units_structure:
  assumes "validate_units depth w manifest stages v = Inr (units, v')" and "v_errors v' = v_errors v"
    and "jget manifest ''units'' = Inr (JList us)" and "length us < depth"
  shows "prerequisite_structure manifest units"
  using assms(1,2)
proof (rule validate_units_parts)
  fix listed ids boxes v1 v2
  assume listed: "jget manifest ''units'' = Inr (JList listed)" "map unit_id_of listed = map (Inr \<circ> JStr) ids"
    and ok: "dict_ok units" and zip: "units = zip ids listed"
    and acyc: "length listed < depth \<Longrightarrow> acyclic (requires_rel units)"
    and rel: "fold_res (relations_step units boxes) v1 units = Inr v2" and silent: "v_errors v2 = v_errors v1"
  from acyc listed(1) assms(3,4) have ac: "acyclic (requires_rel units)" by simp
  have len: "length ids = length listed" using listed(2) by (metis length_map)
  then have "dkeys units = ids" by (simp add: zip dkeys_def)
  with ok have dist: "distinct ids" by (simp add: dict_ok_def dkeys_def)
  have silent_at: "\<exists>a b. relations_step units boxes a (u, unit) = Inr b \<and> v_errors b = v_errors a"
    if "map_of units u = Some unit" for u unit
    using relations.run_member [OF rel silent map_of_SomeD [OF that]] .
  have closed: "\<exists>ts. required_list unit = Inr (map JStr ts) \<and> set ts \<subseteq> set (dkeys units)"
    if m: "map_of units u = Some unit" for u unit
    using silent_at [OF m] requires_targets [OF m] by (auto elim!: relations_silent)
  have one: "verified_unit units t" if edge: "(u, t) \<in> requires_rel units" and ver: "verified_unit units u" for u t
  proof -
    from ver obtain unit where m: "map_of units u = Some unit" and st: "unit_status unit = Inr (JStr ''verified'')"
      by (auto simp: verified_unit_def split: option.splits)
    from requires_rel_keys [OF edge] obtain p where p: "map_of units t = Some p" by (auto simp: set_dkeys)
    from silent_at [OF m] obtain a b where "relations_step units boxes a (u, unit) = Inr b" "v_errors b = v_errors a" by blast
    then show ?thesis
    proof (rule relations_silent)
      fix required status
      assume req: "required_list unit = Inr required" and s: "unit_status unit = Inr status"
        and v: "json_eq status (JStr ''verified'') \<Longrightarrow> \<forall>k p. JStr k \<in> set required \<longrightarrow> map_of units k = Some p \<longrightarrow>
          unit_status p = Inr (JStr ''verified'')"
      have "JStr t \<in> set required"
        using edge by (simp add: requires_rel_def targets_of_def m req set_known_targets)
      then show ?thesis using v s st p by (simp add: verified_unit_def)
    qed
  qed
  have "verified_unit units t" if "(u, t) \<in> (requires_rel units)\<^sup>+" "verified_unit units u" for u t
    using that by (induction rule: trancl_induct) (auto intro: one)
  with listed dist zip ac closed show ?thesis unfolding prerequisite_structure_def by blast
qed

text \<open>A small curriculum: one stage, two planned units, the second requiring the first.\<close>

definition demo_unit :: "string \<Rightarrow> string \<Rightarrow> int \<Rightarrow> string list \<Rightarrow> json" where
  "demo_unit uid path order required = JObj
     [(''id'', JStr uid), (''path'', JStr path), (''title'', JStr uid), (''stage'', JStr ''core''), (''order'', JInt order),
      (''status'', JStr ''planned''), (''requires'', JList (map JStr required)), (''related'', JList []),
      (''black_boxes'', JList []), (''resolves'', JList []), (''owns'', JList [JStr path]),
      (''outcomes'', JList [JStr ''trace'']), (''source_anchors'', JList []),
      (''evidence_dimensions'', JList [JStr ''S'']), (''resources'', JList []), (''reviews'', JList [])]"

definition demo_units :: "json list" where
  "demo_units = [demo_unit ''boot'' ''a.md'' 1 [], demo_unit ''traps'' ''b.md'' 2 [''boot'']]"

definition demo_manifest :: json where
  "demo_manifest = JObj [(''units'', JList demo_units)]"

definition demo_stages :: "(string, json) dict" where
  "demo_stages = [(''core'', JObj [(''id'', JStr ''core''), (''order'', JInt 1)])]"

definition demo_world :: world where
  "demo_world = \<lparr>w_exists = (\<lambda>_. False), w_is_file = (\<lambda>_. False), w_text = (\<lambda>_. Inl OSError),
     w_source_is_file = (\<lambda>_. False), w_source_text = (\<lambda>_. Inl OSError), w_source_bytes = (\<lambda>_. Inl OSError),
     w_is_commit = (\<lambda>_. True), w_glob = (\<lambda>_. []), w_ls_tree = (\<lambda>_. Some []), w_show = (\<lambda>_ _. None),
     w_fnmatch = (\<lambda>_ _. False), w_legacy_readme = None, w_legacy_files = [], w_markdown = [],
     w_link_targets = (\<lambda>_. []), w_unquote = (\<lambda>t. t), w_resolve = (\<lambda>_ _. None), w_resolved_exists = (\<lambda>_. False),
     w_stale_navigation = None\<rparr>"

definition no_errors :: validation where
  "no_errors = \<lparr>v_errors = [], v_warnings = []\<rparr>"

lemma demo_validates:
  "validate_units 3 demo_world demo_manifest demo_stages no_errors = Inr (zip [''boot'', ''traps''] demo_units, no_errors)"
  by code_simp

text \<open>
  C19: A validation of the units without errors establishes the prerequisite structure of the
  curriculum: the result lists exactly the units of the manifest under distinct ids, every
  required unit exists, no unit requires itself directly or indirectly, and whatever a verified unit
  requires, directly or indirectly, is verified.
\<close>

theorem curriculum_prerequisites:
  assumes "validate_units depth w manifest stages v = Inr (units, v')" and "v_errors v' = v_errors v"
    and "jget manifest ''units'' = Inr (JList us)" and "length us < depth"
  shows "(\<exists>listed ids. jget manifest ''units'' = Inr (JList listed) \<and> distinct ids \<and> units = zip ids listed \<and>
      map unit_id_of listed = map (Inr \<circ> JStr) ids) \<and>
    (\<forall>u unit. map_of units u = Some unit \<longrightarrow>
      (\<exists>ts. required_list unit = Inr (map JStr ts) \<and> set ts \<subseteq> set (dkeys units))) \<and>
    acyclic (requires_rel units) \<and>
    (\<forall>u t. (u, t) \<in> (requires_rel units)\<^sup>+ \<longrightarrow> verified_unit units u \<longrightarrow> verified_unit units t)"
  using units_structure [OF assms] unfolding prerequisite_structure_def .

theorem curriculum_prerequisites_witness:
  "validate_units 3 demo_world demo_manifest demo_stages no_errors = Inr (zip [''boot'', ''traps''] demo_units, no_errors) \<and>
   acyclic (requires_rel (zip [''boot'', ''traps''] demo_units))"
  using curriculum_prerequisites [OF demo_validates, of demo_units] demo_validates
  by (simp add: demo_units_def demo_manifest_def jget_def dget_or_def)

text \<open>
  C20: The prerequisite check decides acyclicity: with a recursion depth above the number of units
  it always returns, it only adds to the log, and it adds nothing exactly when no unit requires
  itself directly or indirectly.
\<close>

theorem acyclic_requires_decides:
  assumes "units_typed units" and "length units < depth"
  shows "\<exists>v'. validate_acyclic_requires depth units v = Inr v' \<and> prefix (v_errors v) (v_errors v') \<and>
    (v_errors v' = v_errors v \<longleftrightarrow> acyclic (requires_rel units))"
  using assms by (rule acyclic_requires_correct)

text \<open>Two units that require each other.\<close>

definition looped_units :: "(string, json) dict" where
  "looped_units = [(''boot'', JObj [(''requires'', JList [JStr ''traps''])]),
     (''traps'', JObj [(''requires'', JList [JStr ''boot''])])]"

lemma looped_typed: "units_typed looped_units"
  by code_simp

lemma looped_errors:
  "validate_acyclic_requires 3 looped_units no_errors =
    Inr \<lparr>v_errors = [''requires cycle: boot -> traps -> boot''], v_warnings = []\<rparr>"
  by code_simp

theorem acyclic_requires_decides_witness:
  "\<not> acyclic (requires_rel looped_units) \<and>
   validate_acyclic_requires 3 looped_units no_errors =
     Inr \<lparr>v_errors = [''requires cycle: boot -> traps -> boot''], v_warnings = []\<rparr>"
  using acyclic_requires_decides [OF looped_typed, of 3 no_errors] looped_errors
  by (simp add: looped_units_def no_errors_def)

end
