(* ===== verification/CurriculumRelease.thy ===== *)
theory CurriculumRelease
  imports CurriculumProps
begin

text \<open>
  Releases: what a complete release must satisfy, that its source areas cover the teaching source
  exactly, and what an exit status of zero says about the whole manifest.
\<close>

section \<open>Release completion\<close>

lemma v_errors_verror_if: "v_errors (verror_if c m v) = v_errors v @ (if c then [m] else [])"
  by (simp add: verror_if_def verror_def)

text \<open>
  For a release with a numeric version, a boolean completeness flag and units that have a
  status, the completion check returns and reports nothing exactly when the flag is set iff the
  major version is at least one, and a complete release and all its units are verified.
\<close>

theorem release_completion_decides:
  assumes "jget_or manifest ''release'' (JObj []) = Inr (JObj d)"
    and "dget_or d ''version'' (JStr []) = JStr version" and "semver_major version = Some major"
    and "map_of d ''coverage_complete'' = Some (JBool full)"
    and "map_res (unit_status \<circ> snd) units = Inr statuses"
  shows "\<exists>v'. validate_release_completion manifest units v = Inr v' \<and>
    (v_errors v' = v_errors v \<longleftrightarrow>
      (full \<longleftrightarrow> major \<ge> 1) \<and>
      (full \<longrightarrow> map_of d ''status'' = Some (JStr ''verified'') \<and> (\<forall>s \<in> set statuses. s = JStr ''verified'')))"
proof -
  have status: "json_eq (dget_or d ''status'' JNull) (JStr ''verified'') \<longleftrightarrow> map_of d ''status'' = Some (JStr ''verified'')"
    by (auto simp: dget_or_def split: option.splits)
  have cov: "dget_or d ''coverage_complete'' JNull = JBool full" by (simp add: dget_or_def assms(4))
  show ?thesis
    unfolding validate_release_completion_def
    using assms status
    by (cases full)
      (auto simp: jget_def cov Let_def v_errors_verror_if list_all_iff)
qed

definition demo_release :: json where
  "demo_release = JObj [(''release'', JObj [(''version'', JStr ''1.0.0''), (''status'', JStr ''verified''),
     (''coverage_complete'', JBool True)])]"

theorem release_completion_decides_witness:
  "\<exists>v'. validate_release_completion demo_release [(''boot'', JObj [(''status'', JStr ''verified'')])] no_errors = Inr v' \<and>
    v_errors v' = v_errors no_errors"
proof -
  have "semver_major ''1.0.0'' = Some 1" by code_simp
  then show ?thesis
    using release_completion_decides [of demo_release
        "[(''version'', JStr ''1.0.0''), (''status'', JStr ''verified''), (''coverage_complete'', JBool True)]"
        "''1.0.0''" 1 True "[(''boot'', JObj [(''status'', JStr ''verified'')])]" "[JStr ''verified'']" no_errors]
    by (auto simp: demo_release_def dget_or_def unit_status_def dget_def)
qed

section \<open>Source coverage\<close>

lemma area_step_log:
  assumes step: "area_step scoped us s area = Inr t"
  shows "prefix (v_errors (so_log s)) (v_errors (so_log t))"
    and "v_errors (so_log t) = v_errors (so_log s) \<Longrightarrow>
      \<exists>p owner_id. jget area ''path'' = Inr (JStr p) \<and> p \<in> set scoped \<and> JStr p \<notin> set (so_owned s) \<and>
        so_owned t = JStr p # so_owned s \<and> jget area ''owner'' = Inr (JStr owner_id) \<and> owner_id \<in> set us"
proof -
  have "prefix (v_errors (so_log s)) (v_errors (so_log t)) \<and>
    (v_errors (so_log t) = v_errors (so_log s) \<longrightarrow>
      (\<exists>p owner_id. jget area ''path'' = Inr (JStr p) \<and> p \<in> set scoped \<and> JStr p \<notin> set (so_owned s) \<and>
        so_owned t = JStr p # so_owned s \<and> jget area ''owner'' = Inr (JStr owner_id) \<and> owner_id \<in> set us))"
  proof (cases "is_obj area")
    case False
    with step have "t = s\<lparr>so_log := verror ''each source area must be an object'' (so_log s)\<rparr>"
      by (cases area) (simp_all add: area_step_def)
    then show ?thesis by (simp add: verror_def)
  next
    case True
    then obtain d where area: "area = JObj d" by (cases area) auto
    let ?path = "dget_or d ''path'' JNull" and ?owner = "dget_or d ''owner'' JNull"
    obtain v0 where v0: "v0 = foldl (\<lambda>v field. verror_if (field \<notin> set (dkeys d)) (''source area is missing '' @ field) v)
        (so_log s) [''path'', ''kind'', ''owner'', ''secondary'']" by blast
    from step obtain seen in_scope known secondary v1 where
      parts: "in_hashed ?path (so_owned s) = Inr seen" "in_keys ?path scoped = Inr in_scope"
        "in_keys ?owner us = Inr known" and
      run: "fold_res (relation_step ''source area has unknown secondary unit'' us)
        (verror_if (\<not> known) ''source area has unknown owner'' (verror_if (\<not> in_scope)
          ''source area is outside source_scope or missing'' (verror_if seen ''duplicate source coverage path'' v0)))
        secondary = Inr v1" and
      t: "t = \<lparr>so_owned = ?path # so_owned s, so_log = v1\<rparr>"
      unfolding area area_step_def Let_def json.case v0 [symmetric] by (elim bind_res_InrE) simp
    have p0: "prefix (v_errors (so_log s)) (v_errors v0)"
      unfolding v0 by (rule prefix_foldl_verror_if) simp
    have p1: "prefix (v_errors v0 @ (if seen then [''duplicate source coverage path''] else []) @
        (if \<not> in_scope then [''source area is outside source_scope or missing''] else []) @
        (if \<not> known then [''source area has unknown owner''] else [])) (v_errors v1)"
      using relation.run_log [OF run] by (simp add: v_errors_verror_if)
    have p2: "prefix (v_errors (so_log s)) (v_errors (so_log t))"
      using prefix_order.trans [OF p0] append_prefixD [OF p1] by (simp add: t)
    moreover have "\<not> seen \<and> in_scope \<and> known" if "v_errors (so_log t) = v_errors (so_log s)"
    proof -
      have "length (v_errors v1) \<le> length (v_errors v0)"
        using that prefix_length_le [OF p0] by (simp add: t)
      with prefix_length_le [OF p1] show ?thesis by (auto split: if_splits)
    qed
    ultimately show ?thesis using parts
      by (auto simp: area jget_def t in_hashed_Inr in_keys_Inr list_ex_iff)
  qed
  then show "prefix (v_errors (so_log s)) (v_errors (so_log t))"
    and "v_errors (so_log t) = v_errors (so_log s) \<Longrightarrow>
      \<exists>p owner_id. jget area ''path'' = Inr (JStr p) \<and> p \<in> set scoped \<and> JStr p \<notin> set (so_owned s) \<and>
        so_owned t = JStr p # so_owned s \<and> jget area ''owner'' = Inr (JStr owner_id) \<and> owner_id \<in> set us"
    by blast+
qed

interpretation areas: logged "area_step scoped us" "v_errors \<circ> so_log" for scoped us
  by unfold_locales (simp add: area_step_log(1))

lemma areas_run:
  assumes "fold_res (area_step scoped us) s areas = Inr t" and "v_errors (so_log t) = v_errors (so_log s)"
  shows "\<exists>paths. map (\<lambda>a. jget a ''path'') areas = map (Inr \<circ> JStr) paths \<and> set paths \<subseteq> set scoped \<and>
    so_owned t = rev (map JStr paths) @ so_owned s \<and> distinct paths \<and> set (map JStr paths) \<inter> set (so_owned s) = {} \<and>
    (\<forall>a \<in> set areas. \<exists>owner_id. jget a ''owner'' = Inr (JStr owner_id) \<and> owner_id \<in> set us)"
  using assms
proof (induction areas arbitrary: s)
  case Nil
  then show ?case by simp
next
  case (Cons a areas)
  then obtain s1 where s1: "area_step scoped us s a = Inr s1" "fold_res (area_step scoped us) s1 areas = Inr t"
    by (auto elim: bind_res_InrE)
  have "prefix (v_errors (so_log s)) (v_errors (so_log s1))" "prefix (v_errors (so_log s1)) (v_errors (so_log t))"
    using area_step_log(1) [OF s1(1)] areas.run_log [OF s1(2)] by simp_all
  then have eq: "v_errors (so_log s1) = v_errors (so_log s)" "v_errors (so_log t) = v_errors (so_log s1)"
    using Cons.prems(2) by (simp_all add: prefix_order.antisym)
  from area_step_log(2) [OF s1(1) eq(1)] obtain p where p: "jget a ''path'' = Inr (JStr p)" "p \<in> set scoped"
    "JStr p \<notin> set (so_owned s)" "so_owned s1 = JStr p # so_owned s"
    "\<exists>owner_id. jget a ''owner'' = Inr (JStr owner_id) \<and> owner_id \<in> set us" by blast
  from Cons.IH [OF s1(2) eq(2)] obtain paths where
    ih: "map (\<lambda>a. jget a ''path'') areas = map (Inr \<circ> JStr) paths" "set paths \<subseteq> set scoped"
    "so_owned t = rev (map JStr paths) @ so_owned s1" "distinct paths"
    "set (map JStr paths) \<inter> set (so_owned s1) = {}"
    "\<forall>a \<in> set areas. \<exists>owner_id. jget a ''owner'' = Inr (JStr owner_id) \<and> owner_id \<in> set us" by blast
  show ?case using ih p by (intro exI [of _ "p # paths"]) auto
qed

lemma coverage_step_log:
  assumes step: "coverage_step units v area = Inr v'"
  shows "prefix (v_errors v) (v_errors v')"
    and "v_errors v' = v_errors v \<Longrightarrow> jget area ''owner'' = Inr (JStr owner_id) \<Longrightarrow> owner_id \<in> set (dkeys units) \<Longrightarrow>
      verified_unit units owner_id"
proof -
  have "ensures (coverage_step units v area) (\<lambda>v'. prefix (v_errors v) (v_errors v'))"
    unfolding coverage_step_def Let_def
    by (intro ensures_bind) (auto simp: ensures_def v_errors_verror_if elim!: bind_res_InrE split: if_splits)
  then show "prefix (v_errors v) (v_errors v')" using step by (rule ensuresD)
  show "verified_unit units owner_id"
    if silent: "v_errors v' = v_errors v" and o: "jget area ''owner'' = Inr (JStr owner_id)" "owner_id \<in> set (dkeys units)"
  proof -
    from o(2) obtain unit where m: "map_of units owner_id = Some unit" by (auto simp: set_dkeys)
    from step silent o m show ?thesis
      unfolding coverage_step_def Let_def
      by (cases "unit_status unit")
        (auto simp: owner_unit_def dget_def verified_unit_def v_errors_verror_if elim!: bind_res_InrE split: if_splits)
  qed
qed

interpretation coverage: logged "coverage_step units" v_errors for units
  by unfold_locales (rule coverage_step_log(1))

interpretation anchor: logged "anchor_step w" v_errors for w
proof
  fix v anchor v'
  have "ensures (anchor_step w v anchor) (\<lambda>v'. prefix (v_errors v) (v_errors v'))"
  proof (cases anchor)
    case (JObj d)
    show ?thesis unfolding anchor_step_def JObj json.case
      by (intro ensures_rules) simp_all
  qed (simp_all add: anchor_step_def ensures_def)
  then show "anchor_step w v anchor = Inr v' \<Longrightarrow> prefix (v_errors v) (v_errors v')" by (rule ensuresD)
qed

interpretation anchors: logged "anchors_step w" v_errors for w
proof
  fix v and x :: "string \<times> json" and v'
  assume "anchors_step w v x = Inr v'"
  then show "prefix (v_errors v) (v_errors v')"
    unfolding anchors_step_def case_prod_unfold by (elim bind_res_InrE) (rule anchor.run_log)
qed

text \<open>The areas of a complete release: each path of the teaching source once, with a verified owner.\<close>

definition source_partition :: "world \<Rightarrow> json \<Rightarrow> (string, json) dict \<Rightarrow> bool" where
  "source_partition w manifest units \<longleftrightarrow>
     (\<exists>areas scoped paths. jget manifest ''source_areas'' = Inr (JList areas) \<and>
        expand_source_scope w manifest = Inr scoped \<and>
        map (\<lambda>a. jget a ''path'') areas = map (Inr \<circ> JStr) paths \<and> distinct paths \<and> set paths = set scoped \<and>
        (\<forall>a \<in> set areas. \<exists>owner_id. jget a ''owner'' = Inr (JStr owner_id) \<and> verified_unit units owner_id))"

lemma validate_source_parts:
  assumes "validate_source w manifest units v = Inr v'"
  shows "v' = verror ''source_areas must be an array'' v \<or>
    (\<exists>scoped areas s release full v1.
      expand_source_scope w manifest = Inr scoped \<and> jget manifest ''source_areas'' = Inr (JList areas) \<and>
      fold_res (area_step scoped (dkeys units)) \<lparr>so_owned = [], so_log = v\<rparr> areas = Inr s \<and>
      jget_or manifest ''release'' (JObj []) = Inr release \<and> jget release ''coverage_complete'' = Inr full \<and>
      (if truthy full then
         \<exists>c1 m1 c2 m2. c1 = (\<exists>p \<in> set scoped. \<not> list_ex (json_eq (JStr p)) (so_owned s)) \<and>
           fold_res (coverage_step units) (verror_if c2 m2 (verror_if c1 m1 (so_log s))) areas = Inr v1
       else v1 = so_log s) \<and>
      fold_res (anchors_step w) v1 units = Inr v')"
  using assms unfolding validate_source_def Let_def
proof (elim bind_res_InrE)
  fix scoped areas
  assume sc: "expand_source_scope w manifest = Inr scoped" and ar: "jget manifest ''source_areas'' = Inr areas"
    and rest: "(case areas of JList areas \<Rightarrow>
          bind_res (fold_res (area_step scoped (dkeys units)) \<lparr>so_owned = [], so_log = v\<rparr> areas) (\<lambda>s.
          bind_res (jget_or manifest ''release'' (JObj [])) (\<lambda>release.
          bind_res (jget release ''coverage_complete'') (\<lambda>full.
          bind_res
            (if truthy full then
               if \<not> sortable (remdups (filter (\<lambda>p. \<not> list_ex (\<lambda>q. p = JStr q) scoped) (map norm_json (so_owned s))))
               then Inl TypeError
               else fold_res (coverage_step units)
                    (verror_if (remdups (filter (\<lambda>p. \<not> list_ex (\<lambda>q. p = JStr q) scoped) (map norm_json (so_owned s))) \<noteq> [])
                      ''coverage_complete release has out-of-scope paths''
                      (verror_if (\<exists>p \<in> set scoped. \<not> list_ex (json_eq (JStr p)) (so_owned s))
                         ''coverage_complete release has unowned source paths'' (so_log s))) areas
             else Inr (so_log s)) (\<lambda>v.
          fold_res (anchors_step w) v units))))
      | _ \<Rightarrow> Inr (verror ''source_areas must be an array'' v)) = Inr v'"
  show ?thesis
  proof (cases "is_list areas")
    case False
    with rest show ?thesis by (cases areas) auto
  next
    case True
    then obtain as where as: "areas = JList as" by (cases areas) auto
    from rest show ?thesis
      unfolding as json.case
      apply (elim bind_res_InrE)
      subgoal for s release full v1
        using sc ar as by (intro disjI2 exI [of _ scoped] exI [of _ as] exI [of _ s] exI [of _ release]
            exI [of _ full] exI [of _ v1]) (auto split: if_splits)
      done
  qed
qed

lemma source_log:
  assumes "validate_source w manifest units v = Inr v'"
  shows "prefix (v_errors v) (v_errors v')"
  using validate_source_parts [OF assms]
proof (elim disjE exE conjE)
  fix scoped areas s release full v1
  assume run: "fold_res (area_step scoped (dkeys units)) \<lparr>so_owned = [], so_log = v\<rparr> areas = Inr s"
    and cov: "if truthy full then \<exists>c1 m1 c2 m2. c1 = (\<exists>p \<in> set scoped. \<not> list_ex (json_eq (JStr p)) (so_owned s)) \<and>
        fold_res (coverage_step units) (verror_if c2 m2 (verror_if c1 m1 (so_log s))) areas = Inr v1
      else v1 = so_log s"
    and anc: "fold_res (anchors_step w) v1 units = Inr v'"
  have "prefix (v_errors v) (v_errors (so_log s))" using areas.run_log [OF run] by simp
  moreover have "prefix (v_errors (so_log s)) (v_errors v1)"
  proof (cases "truthy full")
    case True
    with cov obtain c1 m1 c2 m2 where
      "fold_res (coverage_step units) (verror_if c2 m2 (verror_if c1 m1 (so_log s))) areas = Inr v1" by auto
    from coverage.run_log [OF this] show ?thesis by (meson prefix_order.trans prefix_verror_if)
  next
    case False
    with cov show ?thesis by simp
  qed
  moreover have "prefix (v_errors v1) (v_errors v')" using anchors.run_log [OF anc] .
  ultimately show ?thesis by (meson prefix_order.trans)
qed simp

lemma source_silent:
  assumes val: "validate_source w manifest units v = Inr v'" and silent: "v_errors v' = v_errors v"
    and full: "jget_or manifest ''release'' (JObj []) = Inr release" "jget release ''coverage_complete'' = Inr c" "truthy c"
  shows "source_partition w manifest units"
  using validate_source_parts [OF val]
proof (elim disjE exE conjE)
  assume "v' = verror ''source_areas must be an array'' v"
  with silent show ?thesis by (simp add: verror_def)
next
  fix scoped areas s release' full v1
  assume sc: "expand_source_scope w manifest = Inr scoped" and ar: "jget manifest ''source_areas'' = Inr (JList areas)"
    and run: "fold_res (area_step scoped (dkeys units)) \<lparr>so_owned = [], so_log = v\<rparr> areas = Inr s"
    and rel: "jget_or manifest ''release'' (JObj []) = Inr release'" "jget release' ''coverage_complete'' = Inr full"
    and cov: "if truthy full then \<exists>c1 m1 c2 m2. c1 = (\<exists>p \<in> set scoped. \<not> list_ex (json_eq (JStr p)) (so_owned s)) \<and>
        fold_res (coverage_step units) (verror_if c2 m2 (verror_if c1 m1 (so_log s))) areas = Inr v1
      else v1 = so_log s"
    and anc: "fold_res (anchors_step w) v1 units = Inr v'"
  from rel full have "truthy full" by simp
  with cov obtain c1 m1 c2 m2 where c1: "c1 = (\<exists>p \<in> set scoped. \<not> list_ex (json_eq (JStr p)) (so_owned s))"
    and cr: "fold_res (coverage_step units) (verror_if c2 m2 (verror_if c1 m1 (so_log s))) areas = Inr v1" by auto
  have p: "prefix (v_errors v) (v_errors (so_log s))"
    "prefix (v_errors (so_log s) @ (if c1 then [m1] else []) @ (if c2 then [m2] else [])) (v_errors v1)"
    "prefix (v_errors v1) (v_errors v)"
    using areas.run_log [OF run] coverage.run_log [OF cr] anchors.run_log [OF anc] silent
    by (simp_all add: v_errors_verror_if)
  have lens: "length (v_errors v) \<le> length (v_errors (so_log s))" "length (v_errors v1) \<le> length (v_errors v)"
    "length (v_errors (so_log s)) + (if c1 then 1 else 0) + (if c2 then 1 else 0) \<le> length (v_errors v1)"
    using p [THEN prefix_length_le] by (auto split: if_splits)
  then have nc: "\<not> c1" "\<not> c2" by (auto split: if_splits)
  with p have eq: "v_errors (so_log s) = v_errors v" "v_errors v1 = v_errors (so_log s)"
    by (auto intro: prefix_order.antisym prefix_order.trans)
  from areas_run [OF run] eq(1) obtain paths where paths: "map (\<lambda>a. jget a ''path'') areas = map (Inr \<circ> JStr) paths"
    "set paths \<subseteq> set scoped" "so_owned s = rev (map JStr paths)" "distinct paths"
    "\<forall>a \<in> set areas. \<exists>owner_id. jget a ''owner'' = Inr (JStr owner_id) \<and> owner_id \<in> set (dkeys units)" by auto
  have "set scoped \<subseteq> set paths" using nc(1) by (auto simp: c1 paths(3) list_ex_iff)
  moreover have "\<exists>owner_id. jget a ''owner'' = Inr (JStr owner_id) \<and> verified_unit units owner_id" if "a \<in> set areas" for a
  proof -
    from paths(5) that obtain owner_id where o: "jget a ''owner'' = Inr (JStr owner_id)" "owner_id \<in> set (dkeys units)" by blast
    have "v_errors v1 = v_errors (verror_if c2 m2 (verror_if c1 m1 (so_log s)))"
      using eq(2) nc by (simp add: v_errors_verror_if)
    from coverage.run_member [OF cr this that] coverage_step_log(2) o show ?thesis by blast
  qed
  ultimately show ?thesis unfolding source_partition_def using sc ar paths(1,2,4)
    by (intro exI [of _ areas] exI [of _ scoped] exI [of _ paths]) auto
qed

text \<open>
  C21: In a release marked coverage-complete, a validation of the source without errors means that the
  source areas list every file of the teaching source exactly once and nothing else, each with an
  owner that is a verified unit.
\<close>

theorem complete_source_partition:
  assumes "validate_source w manifest units v = Inr v'" and "v_errors v' = v_errors v"
    and "jget_or manifest ''release'' (JObj []) = Inr release" and "jget release ''coverage_complete'' = Inr c"
    and "truthy c"
  shows "\<exists>areas scoped paths. jget manifest ''source_areas'' = Inr (JList areas) \<and>
    expand_source_scope w manifest = Inr scoped \<and>
    map (\<lambda>a. jget a ''path'') areas = map (Inr \<circ> JStr) paths \<and> distinct paths \<and> set paths = set scoped \<and>
    (\<forall>a \<in> set areas. \<exists>owner_id. jget a ''owner'' = Inr (JStr owner_id) \<and> verified_unit units owner_id)"
  using source_silent [OF assms] unfolding source_partition_def .

definition demo_source_world :: world where
  "demo_source_world = demo_world\<lparr>w_glob := (\<lambda>_. [''kernel/proc.c'']), w_source_is_file := (\<lambda>_. True),
     w_fnmatch := (\<lambda>_ _. True), w_source_text := (\<lambda>_. Inr ''int main(void)'')\<rparr>"

definition demo_source :: json where
  "demo_source = JObj
     [(''release'', JObj [(''coverage_complete'', JBool True)]),
      (''source_scope'', JObj [(''include_globs'', JList [JStr ''kernel/*.c''])]),
      (''source_areas'', JList [JObj [(''path'', JStr ''kernel/proc.c''), (''kind'', JStr ''core''),
         (''owner'', JStr ''boot''), (''secondary'', JList [])]])]"

definition demo_owner :: "(string, json) dict" where
  "demo_owner = [(''boot'', JObj [(''status'', JStr ''verified''), (''source_anchors'',
     JList [JObj [(''path'', JStr ''kernel/proc.c''), (''symbol'', JStr ''main'')]])])]"

lemma demo_source_valid: "validate_source demo_source_world demo_source demo_owner no_errors = Inr no_errors"
  by code_simp

theorem complete_source_partition_witness:
  "\<exists>areas scoped paths. jget demo_source ''source_areas'' = Inr (JList areas) \<and>
    expand_source_scope demo_source_world demo_source = Inr scoped \<and>
    map (\<lambda>a. jget a ''path'') areas = map (Inr \<circ> JStr) paths \<and> distinct paths \<and> set paths = set scoped \<and>
    (\<forall>a \<in> set areas. \<exists>owner_id. jget a ''owner'' = Inr (JStr owner_id) \<and> verified_unit demo_owner owner_id)"
  by (rule complete_source_partition [OF demo_source_valid, of "JObj [(''coverage_complete'', JBool True)]" "JBool True"])
    (simp_all add: demo_source_def jget_def dget_or_def)

section \<open>The whole program\<close>

definition only_adds :: "validation \<Rightarrow> validation \<Rightarrow> bool" where
  "only_adds v v' \<longleftrightarrow> prefix (v_errors v) (v_errors v')"

lemma only_adds_trans: "only_adds u v \<Longrightarrow> only_adds v w \<Longrightarrow> only_adds u w"
  unfolding only_adds_def by (rule prefix_order.trans)

lemma only_adds_verror [simp]:
  "only_adds v v" "only_adds u v \<Longrightarrow> only_adds u (verror m v)" "only_adds u v \<Longrightarrow> only_adds u (verror_if c m v)"
  "only_adds u v \<Longrightarrow> only_adds u (vwarn m v)"
  by (auto simp: only_adds_def verror_def verror_if_def vwarn_def)

interpretation fields: logged "\<lambda>v field. bind_res (jhas release field) (\<lambda>present.
    Inr (verror_if (\<not> present) (''release is missing '' @ field) v))" v_errors for release
  by unfold_locales (auto elim!: bind_res_InrE)

lemma fields_add:
  assumes "fold_res (\<lambda>v field. bind_res (jhas release field) (\<lambda>present.
      Inr (verror_if (\<not> present) (''release is missing '' @ field) v))) (verror_if c m v) fs = Inr v'"
  shows "only_adds v v'"
  using fields.run_log [OF assms] unfolding only_adds_def by (meson prefix_order.trans prefix_verror_if)

lemma release_log: "ensures (validate_release w manifest v) (\<lambda>(ready, v'). only_adds v v')"
  unfolding validate_release_def Let_def
  by (intro ensures_rules) (simp_all del: fold_res.simps add: fields_add)

interpretation stages: logged stage_step "v_errors \<circ> ss_log"
proof
  fix s stage t
  have "ensures (stage_step s stage) (\<lambda>t. only_adds (ss_log s) (ss_log t))"
    unfolding stage_step_def Let_def
    by (intro ensures_rules) (auto split: json.split simp: ensures_def elim!: bind_res_InrE)
  then show "stage_step s stage = Inr t \<Longrightarrow> prefix ((v_errors \<circ> ss_log) s) ((v_errors \<circ> ss_log) t)"
    by (auto simp: only_adds_def ensures_def)
qed

lemma stages_log: "ensures (validate_stages manifest v) (\<lambda>(stages, v'). only_adds v v')"
proof -
  have "ensures (bind_res (fold_res stage_step \<lparr>ss_result = [], ss_orders = [], ss_log = v\<rparr> xs) (\<lambda>s.
      Inr (ss_result s, ss_log s))) (\<lambda>(stages, v'). only_adds v v')" for xs
    by (intro ensures_rules) (auto dest!: stages.run_log simp: only_adds_def)
  then show ?thesis unfolding validate_stages_def
    by (intro ensures_bind) (auto simp del: fold_res.simps split: json.split list.split intro!: ensures_Inr)
qed

lemma completion_log: "ensures (validate_release_completion manifest units v) (only_adds v)"
  unfolding validate_release_completion_def Let_def by (intro ensures_rules) simp_all

lemma migration_log: "ensures (validate_question_migration w manifest v) (only_adds v)"
  unfolding validate_question_migration_def Let_def by (intro ensures_rules) simp_all

lemma baseline_scope_log: "ensures (baseline_source_scope w manifest baseline v) (\<lambda>(paths, v'). only_adds v v')"
  unfolding baseline_source_scope_def by (intro ensures_rules) simp_all

lemma baseline_log: "ensures (validate_baseline_sources w manifest development v) (only_adds v)"
  unfolding validate_baseline_sources_def
  by (intro ensures_rules) (auto dest!: ensuresD [OF baseline_scope_log])

interpretation links: logged "link_step w page" v_errors for w page
proof
  fix v raw v'
  have "ensures (link_step w page v raw) (only_adds v)"
  proof (cases "split_ws (strip_chars is_space raw)")
    case Nil
    then show ?thesis by (simp add: link_step_def ensures_Inl)
  next
    case (Cons target rest)
    show ?thesis unfolding link_step_def Let_def Cons list.case by (intro ensures_rules) simp_all
  qed
  then show "link_step w page v raw = Inr v' \<Longrightarrow> prefix (v_errors v) (v_errors v')"
    by (auto simp: only_adds_def ensures_def)
qed

interpretation pages: logged "\<lambda>v (page, text). fold_res (link_step w page) v (remdups (w_link_targets w text))" v_errors for w
  by unfold_locales (auto dest: links.run_log)

lemma statuses_verified:
  assumes "map_res (unit_status \<circ> snd) units = Inr statuses" and "list_all (\<lambda>s. s = JStr ''verified'') statuses"
    and "(u, unit) \<in> set units"
  shows "unit_status unit = Inr (JStr ''verified'')"
proof -
  have rel: "list_all2 (\<lambda>x y. (unit_status \<circ> snd) x = Inr y) units statuses"
    using assms(1) by (simp only: map_res_eq_Inr)
  from assms(3) obtain i where i: "i < length units" "units ! i = (u, unit)" by (auto simp: in_set_conv_nth)
  with list_all2_nthD [OF rel i(1)] list_all2_lengthD [OF rel] assms(2) show ?thesis
    by (simp add: list_all_length)
qed

lemma completion_silent:
  assumes val: "validate_release_completion manifest units v = Inr v'" and silent: "v_errors v' = v_errors v"
    and full: "jget_or manifest ''release'' (JObj []) = Inr release" "jget release ''coverage_complete'' = Inr c" "truthy c"
    and ok: "dict_ok units"
  shows "\<forall>u \<in> set (dkeys units). verified_unit units u"
proof
  fix u
  assume "u \<in> set (dkeys units)"
  then obtain unit where unit: "map_of units u = Some unit" by (auto simp: set_dkeys)
  note mem = map_of_SomeD [OF unit]
  have "ensures (validate_release_completion manifest units v) (\<lambda>v'. v_errors v' = v_errors v \<longrightarrow>
      unit_status unit = Inr (JStr ''verified''))"
    unfolding validate_release_completion_def Let_def
    by (intro ensures_rules) (use full in \<open>auto simp: verror_def v_errors_verror_if intro: statuses_verified [OF _ _ mem]\<close>)
  with val silent unit show "verified_unit units u"
    by (auto simp: ensures_def verified_unit_def)
qed

lemma main_phases:
  assumes "validate_main depth w development (Some manifest) = Inr (0, v)"
  obtains stages v1 units v2 v3 v4 where
    "validate_units depth w manifest stages v1 = Inr (units, v2)" "v_errors v2 = v_errors v1"
    "validate_release_completion manifest units v2 = Inr v3" "v_errors v3 = v_errors v2"
    "validate_source w manifest units v3 = Inr v4" "v_errors v4 = v_errors v3"
proof -
  from assms obtain ready va stages vb units vc vd ve vf vg vh where
    r: "validate_release w manifest \<lparr>v_errors = [], v_warnings = []\<rparr> = Inr (ready, va)"
      "validate_stages manifest va = Inr (stages, vb)"
      "validate_units depth w manifest stages vb = Inr (units, vc)"
      "validate_release_completion manifest units vc = Inr vd"
      "validate_source w manifest units vd = Inr ve"
      "validate_question_migration w manifest ve = Inr vf"
      "(if ready then validate_baseline_sources w manifest development vf else Inr vf) = Inr vg"
      "validate_markdown_links w vg = Inr vh"
    and v: "v = validate_generated_navigation w vh" "v_errors v = []"
    unfolding validate_main_def option.case
    by (elim bind_res_InrE) (auto elim!: bind_res_InrE split: if_splits)
  have "only_adds vc vd" "only_adds ve vf" using ensuresD [OF completion_log r(4)] ensuresD [OF migration_log r(6)] .
  moreover have "only_adds vb vc" "only_adds vd ve" using units_log [OF r(3)] source_log [OF r(5)]
    by (simp_all add: only_adds_def)
  moreover have "only_adds vf vg" using r(7) ensuresD [OF baseline_log] by (auto split: if_splits)
  moreover have "only_adds vg vh" using pages.run_log r(8) by (auto simp: only_adds_def validate_markdown_links_def)
  moreover have "only_adds vh v" by (simp add: v(1) validate_generated_navigation_def)
  ultimately have "v_errors vb = []" "v_errors vc = []" "v_errors vd = []" "v_errors ve = []"
    using v(2) by (auto simp: only_adds_def)
  with r(3-5) show thesis by (intro that [of stages vb units vc vd ve]) simp_all
qed

text \<open>
  C22: If the validator exits with status zero on a manifest whose number of units is below the
  recursion limit, then the units of the manifest have the prerequisite structure of C15; and if the
  release is marked coverage-complete, every unit is verified and the source areas partition the
  teaching source among verified owners.
\<close>

theorem validated_manifest:
  assumes "validate_main depth w development (Some manifest) = Inr (0, v)"
    and "jget manifest ''units'' = Inr (JList us)" and "length us < depth"
  shows "\<exists>units. prerequisite_structure manifest units \<and>
    (\<forall>release c. jget_or manifest ''release'' (JObj []) = Inr release \<longrightarrow>
      jget release ''coverage_complete'' = Inr c \<longrightarrow> truthy c \<longrightarrow>
        source_partition w manifest units \<and> (\<forall>u \<in> set (dkeys units). verified_unit units u))"
  using assms(1)
proof (rule main_phases)
  fix stages v1 units v2 v3 v4
  assume u: "validate_units depth w manifest stages v1 = Inr (units, v2)" "v_errors v2 = v_errors v1"
    and c: "validate_release_completion manifest units v2 = Inr v3" "v_errors v3 = v_errors v2"
    and s: "validate_source w manifest units v3 = Inr v4" "v_errors v4 = v_errors v3"
  have "prerequisite_structure manifest units" using units_structure [OF u assms(2,3)] .
  moreover have "dict_ok units" using u by (rule validate_units_parts)
  ultimately show ?thesis using completion_silent [OF c] source_silent [OF s] by blast
qed

text \<open>A complete manifest that validates: the two units of the small curriculum in an unfinished release.\<close>

definition demo_curriculum :: json where
  "demo_curriculum = JObj
     [(''schema_version'', JInt 1),
      (''release'', JObj [(''version'', JStr ''0.1.0''), (''status'', JStr ''draft''),
         (''baseline_commit'', JStr (replicate 40 CHR ''a'')), (''coverage_complete'', JBool False),
         (''compatibility'', JStr ''none'')]),
      (''stages'', JList [JObj [(''id'', JStr ''core''), (''order'', JInt 1), (''kind'', JStr ''core'')]]),
      (''units'', JList demo_units),
      (''source_areas'', JList [])]"

lemma demo_main: "validate_main 3 demo_world False (Some demo_curriculum) = Inr (0, no_errors)"
  by code_simp

theorem validated_manifest_witness:
  "validate_main 3 demo_world False (Some demo_curriculum) = Inr (0, no_errors) \<and>
   (\<exists>units. prerequisite_structure demo_curriculum units)"
  using validated_manifest [OF demo_main, of demo_units] demo_main
  by (auto simp: demo_curriculum_def demo_units_def jget_def dget_or_def)

section \<open>A crash of the link check\<close>

lemma words_from_Nil: "words_from cur s = [] \<longleftrightarrow> cur = [] \<and> list_all is_space s"
  by (induction cur s rule: words_from.induct) auto

lemma list_all_strip: "list_all p (strip_chars p s) \<longleftrightarrow> list_all p s"
proof -
  have "list_all p (dropWhile p xs) \<longleftrightarrow> list_all p xs" for xs by (induction xs) auto
  then show ?thesis unfolding strip_chars_def by (simp add: list_all_rev)
qed



end
