(* ===== verification/Navigation.thy ===== *)
theory Navigation
  imports PyText "HOL-Library.Product_Lexorder"
begin

text \<open>
  The generator of the navigation pages, \<open>tools/generate_navigation.py\<close>.  The manifest is read into
  records (the validator guarantees the types of the fields); text is UTF-8, one character per byte.
  A path below the tutorial root is the list of its components, and the files and directories below
  that root are the state the generator reads and writes.
\<close>

section \<open>Data\<close>

record nav_release =
  nr_version :: string
  nr_status :: string
  nr_baseline :: string
  nr_complete :: bool

record nav_stage =
  ns_id :: string
  ns_title :: string
  ns_order :: int
  ns_kind :: string

record nav_unit =
  nu_id :: string
  nu_path :: string
  nu_title :: string
  nu_stage :: string
  nu_order :: int
  nu_status :: string
  nu_resources :: "string list"

record nav_manifest =
  nm_release :: nav_release
  nm_stages :: "nav_stage list"
  nm_units :: "nav_unit list"

type_synonym path = "string list"

record tree =
  tr_files :: "path \<Rightarrow> string option"
  tr_dirs :: "path set"

definition path_exists :: "tree \<Rightarrow> path \<Rightarrow> bool" where
  "path_exists fs p \<longleftrightarrow> tr_files fs p \<noteq> None \<or> p \<in> tr_dirs fs"

section \<open>Paths\<close>

fun split_slash :: "string \<Rightarrow> string list" where
  "split_slash [] = [[]]"
| "split_slash (c # cs) =
     (if c = CHR ''/'' then [] # split_slash cs
      else (case split_slash cs of [] \<Rightarrow> [[c]] | p # ps \<Rightarrow> (c # p) # ps))"

text \<open>\<open>TUTORIAL_ROOT / s\<close> with \<open>..\<close> resolved, for a relative \<open>s\<close> that stays below the root.\<close>

fun resolve_parts :: "path \<Rightarrow> string list \<Rightarrow> path" where
  "resolve_parts acc [] = rev acc"
| "resolve_parts acc (p # ps) =
     (if p = [] \<or> p = ''.'' then resolve_parts acc ps
      else if p = ''..'' then resolve_parts (tl acc) ps
      else resolve_parts (p # acc) ps)"

definition target_path :: "string \<Rightarrow> path" where
  "target_path s = resolve_parts [] (split_slash s)"

text \<open>\<open>os.path.relpath(target, start)\<close> for two directories below the same root.\<close>

fun drop_common :: "path \<Rightarrow> path \<Rightarrow> path \<times> path" where
  "drop_common (a # as) (b # bs) = (if a = b then drop_common as bs else (a # as, b # bs))"
| "drop_common as bs = (as, bs)"

definition relpath :: "path \<Rightarrow> path \<Rightarrow> string" where
  "relpath target start =
     (let (t, s) = drop_common target start; parts = replicate (length s) ''..'' @ t in
      if parts = [] then ''.'' else py_join ''/'' parts)"

definition rstrip :: "string \<Rightarrow> string" where
  "rstrip s = rev (dropWhile is_space (rev s))"

section \<open>Pages\<close>

definition header_line :: string where
  "header_line =
    ''<!-- GENERATED by tools/generate_navigation.py. DO NOT EDIT. -->''"

definition unit_link :: "tree \<Rightarrow> nav_unit \<Rightarrow> path \<Rightarrow> string" where
  "unit_link fs unit output_path =
     (let target = target_path (nu_path unit) in
      if nu_status unit = ''planned'' \<and> \<not> path_exists fs target
      then nu_title unit @ '' ('' @ [CHR 0x60] @ nu_id unit @ [CHR 0x60] @ '')''
      else ''['' @ nu_title unit @ '']('' @ relpath target (butlast output_path) @ '')'')"

definition release_note :: "nav_release \<Rightarrow> string" where
  "release_note release =
     (if nr_status release = ''verified''
      then [CHR 0x60] @ ''verified'' @ [CHR 0x60] @ '' '' @ [CHR 0xE8, CHR 0xA1, CHR 0xA8, CHR 0xE7, CHR 0xA4, CHR 0xBA,
        CHR 0xE5, CHR 0x85, CHR 0xA8, CHR 0xE9, CHR 0x83, CHR 0xA8, CHR 0xE7, CHR 0x99, CHR 0xBB, CHR 0xE8, CHR 0xAE,
        CHR 0xB0, CHR 0xE5, CHR 0x8D, CHR 0x95, CHR 0xE5, CHR 0x85, CHR 0x83, CHR 0xE5, CHR 0xB7, CHR 0xB2, CHR 0xE5,
        CHR 0xAE, CHR 0x8C, CHR 0xE6, CHR 0x88, CHR 0x90, CHR 0xE9, CHR 0x9D, CHR 0x9E, CHR 0xE4, CHR 0xBD, CHR 0x9C,
        CHR 0xE8, CHR 0x80, CHR 0x85, CHR 0xE8, CHR 0xB5, CHR 0xB0, CHR 0xE6, CHR 0x9F, CHR 0xA5, CHR 0xEF, CHR 0xBC,
        CHR 0x9B, CHR 0x60] @ ''coverage_complete=true'' @ [CHR 0x60] @ '' '' @ [CHR 0xE8, CHR 0xA1, CHR 0xA8, CHR
        0xE7, CHR 0xA4, CHR 0xBA] @ '' scoped handwritten inputs '' @ [CHR 0xE9, CHR 0x83, CHR 0xBD, CHR 0xE6, CHR
        0x9C, CHR 0x89] @ '' verified primary owner'' @ [CHR 0xE3, CHR 0x80, CHR 0x82]
      else [CHR 0x60] @ ''draft'' @ [CHR 0x60] @ '' '' @ [CHR 0xE8, CHR 0xA1, CHR 0xA8, CHR 0xE7, CHR 0xA4, CHR 0xBA, CHR
        0xE5, CHR 0x86, CHR 0x85, CHR 0xE5, CHR 0xAE, CHR 0xB9, CHR 0xE5, CHR 0xB7, CHR 0xB2, CHR 0xE8, CHR 0x90, CHR
        0xBD, CHR 0xE7, CHR 0x9B, CHR 0x98, CHR 0xE5, CHR 0xB9, CHR 0xB6, CHR 0xE9, CHR 0x80, CHR 0x9A, CHR 0xE8, CHR
        0xBF, CHR 0x87, CHR 0xE6, CHR 0x9C, CHR 0xBA, CHR 0xE6, CHR 0xA2, CHR 0xB0, CHR 0xE6, CHR 0xA3, CHR 0x80, CHR
        0xE6, CHR 0x9F, CHR 0xA5, CHR 0xEF, CHR 0xBC, CHR 0x8C, CHR 0xE4, CHR 0xBD, CHR 0x86, CHR 0xE5, CHR 0xB0, CHR
        0x9A, CHR 0xE6, CHR 0x9C, CHR 0xAA, CHR 0xE5, CHR 0xAE, CHR 0x8C, CHR 0xE6, CHR 0x88, CHR 0x90, CHR 0xE9, CHR
        0x9D, CHR 0x9E, CHR 0xE4, CHR 0xBD, CHR 0x9C, CHR 0xE8, CHR 0x80, CHR 0x85, CHR 0xE8, CHR 0xB5, CHR 0xB0, CHR
        0xE6, CHR 0x9F, CHR 0xA5, CHR 0xEF, CHR 0xBC, CHR 0x8C, CHR 0xE4, CHR 0xB8, CHR 0x8D, CHR 0xE8, CHR 0x83, CHR
        0xBD, CHR 0xE5, CHR 0xBD, CHR 0x93, CHR 0xE4, CHR 0xBD, CHR 0x9C] @ '' verified '' @ [CHR 0xE6, CHR 0x95, CHR
        0x99, CHR 0xE5, CHR 0xAD, CHR 0xA6, CHR 0xE8, CHR 0xB7, CHR 0xAF, CHR 0xE5, CHR 0xBE, CHR 0x84, CHR 0xE3, CHR
        0x80, CHR 0x82])"

definition stage_row :: "nav_stage \<Rightarrow> string" where
  "stage_row stage =
      ''| '' @ show_int (ns_order stage) @ '' | '' @ ns_title stage @ '' ('' @ [CHR 0x60] @ ns_id stage @ [CHR 0x60]
      @ '') | '' @ ns_kind stage @ '' |''"

definition render_root :: "nav_manifest \<Rightarrow> string" where
  "render_root manifest =
     (let release = nm_release manifest; stages = sort_key ns_order (nm_stages manifest) in
      py_join [CHR 0x0A] (
     [header_line,
      [],
      ''# xv6 '' @ [CHR 0xE6, CHR 0x95, CHR 0x99, CHR 0xE7, CHR 0xA8, CHR 0x8B],
      [],
      [CHR 0xE8, CHR 0xBF, CHR 0x99, CHR 0xE6, CHR 0x98, CHR 0xAF, CHR 0xE4, CHR 0xB8, CHR 0x80, CHR 0xE5, CHR 0xA5,
      CHR 0x97, CHR 0xE7, CHR 0x8B, CHR 0xAC, CHR 0xE7, CHR 0xAB, CHR 0x8B, CHR 0xE3, CHR 0x80, CHR 0x81, CHR 0xE5,
      CHR 0xBE, CHR 0xAA, CHR 0xE5, CHR 0xBA, CHR 0x8F, CHR 0xE6, CHR 0xB8, CHR 0x90, CHR 0xE8, CHR 0xBF, CHR 0x9B,
      CHR 0xE7, CHR 0x9A, CHR 0x84] @ '' xv6 '' @ [CHR 0xE6, CHR 0x95, CHR 0x99, CHR 0xE7, CHR 0xA8, CHR 0x8B, CHR
      0xE3, CHR 0x80, CHR 0x82, CHR 0xE6, CHR 0x95, CHR 0x99, CHR 0xE7, CHR 0xA8, CHR 0x8B, CHR 0xE7, CHR 0x9B, CHR
      0xB4, CHR 0xE6, CHR 0x8E, CHR 0xA5, CHR 0xE8, CHR 0xBF, CHR 0xBD, CHR 0xE8, CHR 0xB8, CHR 0xAA, CHR 0xE5, CHR
      0xBD, CHR 0x93, CHR 0xE5, CHR 0x89, CHR 0x8D, CHR 0xE4, CHR 0xBB, CHR 0x93, CHR 0xE5, CHR 0xBA, CHR 0x93, CHR
      0xE6, CHR 0xBA, CHR 0x90, CHR 0xE7, CHR 0xA0, CHR 0x81, CHR 0xE5, CHR 0x92, CHR 0x8C, CHR 0xE6, CHR 0xB5, CHR
      0x8B, CHR 0xE8, CHR 0xAF, CHR 0x95, CHR 0xEF, CHR 0xBC, CHR 0x8C, CHR 0xE4, CHR 0xBD, CHR 0x86, CHR 0xE4, CHR
      0xB8, CHR 0x8D, CHR 0xE4, CHR 0xBE, CHR 0x9D, CHR 0xE8, CHR 0xB5, CHR 0x96] @ '' '' @ [CHR 0x60] @
      ''docs/xv6-riscv/'' @ [CHR 0x60, CHR 0xE3, CHR 0x80, CHR 0x82],
      [],
      ''## '' @ [CHR 0xE5, CHR 0xBD, CHR 0x93, CHR 0xE5, CHR 0x89, CHR 0x8D, CHR 0xE5, CHR 0x8F, CHR 0x91, CHR 0xE5,
      CHR 0xB8, CHR 0x83, CHR 0xE7, CHR 0x89, CHR 0x88],
      [],
      ''- '' @ [CHR 0xE7, CHR 0x89, CHR 0x88, CHR 0xE6, CHR 0x9C, CHR 0xAC, CHR 0xEF, CHR 0xBC, CHR 0x9A, CHR 0x60]
      @ nr_version release @ [CHR 0x60],
      ''- '' @ [CHR 0xE7, CHR 0x8A, CHR 0xB6, CHR 0xE6, CHR 0x80, CHR 0x81, CHR 0xEF, CHR 0xBC, CHR 0x9A, CHR 0x60]
      @ nr_status release @ [CHR 0x60],
      ''- '' @ [CHR 0xE6, CHR 0xBA, CHR 0x90, CHR 0xE7, CHR 0xA0, CHR 0x81, CHR 0xE5, CHR 0x9F, CHR 0xBA, CHR 0xE7,
      CHR 0xBA, CHR 0xBF, CHR 0xEF, CHR 0xBC, CHR 0x9A, CHR 0x60] @ nr_baseline release @ [CHR 0x60],
      ''- '' @ [CHR 0xE5, CHR 0xAE, CHR 0x8C, CHR 0xE6, CHR 0x95, CHR 0xB4, CHR 0xE8, CHR 0xA6, CHR 0x86, CHR 0xE7,
      CHR 0x9B, CHR 0x96, CHR 0xEF, CHR 0xBC, CHR 0x9A, CHR 0x60] @ (if nr_complete release then ''true'' else
      ''false'') @ [CHR 0x60],
      [],
      release_note release,
      [],
      ''## '' @ [CHR 0xE4, CHR 0xBB, CHR 0x8E, CHR 0xE8, CHR 0xBF, CHR 0x99, CHR 0xE9, CHR 0x87, CHR 0x8C, CHR 0xE5,
      CHR 0xBC, CHR 0x80, CHR 0xE5, CHR 0xA7, CHR 0x8B],
      [],
      ''- '' @ [CHR 0xE9, CHR 0x9B, CHR 0xB6, CHR 0xE5, CHR 0x85, CHR 0x88, CHR 0xE4, CHR 0xBF, CHR 0xAE, CHR 0xE5,
      CHR 0xAD, CHR 0xA6, CHR 0xE4, CHR 0xB9, CHR 0xA0, CHR 0xE8, CHR 0x80, CHR 0x85, CHR 0xEF, CHR 0xBC, CHR 0x9A,
      CHR 0xE4, CHR 0xBB, CHR 0x8E] @ ''['' @ [CHR 0xE5, CHR 0x9F, CHR 0xBA, CHR 0xE7, CHR 0xA1, CHR 0x80, CHR 0xE8,
      CHR 0xB7, CHR 0xAF, CHR 0xE5, CHR 0xBE, CHR 0x84] @ ''](foundation/README.md)'' @ [CHR 0xE5, CHR 0xBC, CHR
      0x80, CHR 0xE5, CHR 0xA7, CHR 0x8B, CHR 0xEF, CHR 0xBC, CHR 0x8C, CHR 0xE5, CHR 0xAE, CHR 0x8C, CHR 0xE6, CHR
      0x88, CHR 0x90] @ '' Foundation gate '' @ [CHR 0xE5, CHR 0x90, CHR 0x8E, CHR 0xE8, CHR 0xBF, CHR 0x9B, CHR
      0xE5, CHR 0x85, CHR 0xA5, CHR 0xE6, CHR 0xA0, CHR 0xB8, CHR 0xE5, CHR 0xBF, CHR 0x83, CHR 0xE8, CHR 0xB7, CHR
      0xAF, CHR 0xE5, CHR 0xBE, CHR 0x84, CHR 0xE3, CHR 0x80, CHR 0x82],
      ''- '' @ [CHR 0xE5, CHR 0xB7, CHR 0xB2, CHR 0xE5, CHR 0x85, CHR 0xB7, CHR 0xE5, CHR 0xA4, CHR 0x87, CHR 0xE5,
      CHR 0x9F, CHR 0xBA, CHR 0xE7, CHR 0xA1, CHR 0x80, CHR 0xE8, CHR 0x80, CHR 0x85, CHR 0xEF, CHR 0xBC, CHR 0x9A,
      CHR 0xE5, CHR 0x85, CHR 0x88, CHR 0xE5, CHR 0xAE, CHR 0x8C, CHR 0xE6, CHR 0x88, CHR 0x90] @ '' Foundation
      gate'' @ [CHR 0xEF, CHR 0xBC, CHR 0x9B, CHR 0xE9, CHR 0x80, CHR 0x9A, CHR 0xE8, CHR 0xBF, CHR 0x87, CHR 0xE5,
      CHR 0x90, CHR 0x8E, CHR 0xE8, CHR 0xBF, CHR 0x9B, CHR 0xE5, CHR 0x85, CHR 0xA5, CHR 0xE5, CHR 0x90, CHR 0x8C,
      CHR 0xE4, CHR 0xB8, CHR 0x80, CHR 0xE6, CHR 0x9D, CHR 0xA1] @ ''['' @ [CHR 0xE6, CHR 0xA0, CHR 0xB8, CHR 0xE5,
      CHR 0xBF, CHR 0x83, CHR 0xE8, CHR 0xB7, CHR 0xAF, CHR 0xE5, CHR 0xBE, CHR 0x84] @ ''](core/README.md)'' @ [CHR
      0xE3, CHR 0x80, CHR 0x82],
      ''- '' @ [CHR 0xE9, CHR 0x97, CHR 0xAE, CHR 0xE9, CHR 0xA2, CHR 0x98, CHR 0xE9, CHR 0xA9, CHR 0xB1, CHR 0xE5,
      CHR 0x8A, CHR 0xA8, CHR 0xE5, CHR 0xA4, CHR 0x8D, CHR 0xE6, CHR 0xA0, CHR 0xB8, CHR 0xEF, CHR 0xBC, CHR 0x9A,
      CHR 0xE4, CHR 0xBD, CHR 0xBF, CHR 0xE7, CHR 0x94, CHR 0xA8, CHR 0xE6, CHR 0x95, CHR 0x99, CHR 0xE7, CHR 0xA8,
      CHR 0x8B, CHR 0xE5, CHR 0x86, CHR 0x85, CHR 0xE7, CHR 0x9A, CHR 0x84] @ ''['' @ [CHR 0xE6, CHR 0x9D, CHR 0x83,
      CHR 0xE5, CHR 0xA8, CHR 0x81, CHR 0xE9, CHR 0x97, CHR 0xAE, CHR 0xE9, CHR 0xA2, CHR 0x98, CHR 0xE9, CHR 0x9B,
      CHR 0x86] @ ''](questions/README.md)'' @ [CHR 0xEF, CHR 0xBC, CHR 0x9B, CHR 0x60] @ ''docs/questions/'' @ [CHR
      0x60] @ '' '' @ [CHR 0xE5, CHR 0x8F, CHR 0xAA, CHR 0xE4, CHR 0xBF, CHR 0x9D, CHR 0xE7, CHR 0x95, CHR 0x99, CHR
      0xE5, CHR 0x85, CHR 0xBC, CHR 0xE5, CHR 0xAE, CHR 0xB9, CHR 0xE5, CHR 0x85, CHR 0xA5, CHR 0xE5, CHR 0x8F, CHR
      0xA3, CHR 0xE3, CHR 0x80, CHR 0x82],
      ''- '' @ [CHR 0xE6, CHR 0x9F, CHR 0xA5, CHR 0xE7, CHR 0x9C, CHR 0x8B, CHR 0xE6, CHR 0x95, CHR 0xB4, CHR 0xE4,
      CHR 0xBD, CHR 0x93, CHR 0xE5, CHR 0xBB, CHR 0xBA, CHR 0xE8, CHR 0xAE, CHR 0xBE, CHR 0xE7, CHR 0x8A, CHR 0xB6,
      CHR 0xE6, CHR 0x80, CHR 0x81, CHR 0xEF, CHR 0xBC, CHR 0x9A] @ ''['' @ [CHR 0xE9, CHR 0x98, CHR 0xB6, CHR 0xE6,
      CHR 0xAE, CHR 0xB5, CHR 0xE7, CHR 0xB4, CHR 0xA2, CHR 0xE5, CHR 0xBC, CHR 0x95] @ ''](stages/README.md)'' @
      [CHR 0xE3, CHR 0x80, CHR 0x82],
      [],
      ''## '' @ [CHR 0xE5, CHR 0xBB, CHR 0xBA, CHR 0xE8, CHR 0xAE, CHR 0xBE, CHR 0xE7, CHR 0xBA, CHR 0xA6, CHR 0xE6,
      CHR 0x9D, CHR 0x9F],
      [],
      [CHR 0xE5, CHR 0xAE, CHR 0x8C, CHR 0xE6, CHR 0x95, CHR 0xB4, CHR 0xE5, CHR 0xBB, CHR 0xBA, CHR 0xE8, CHR 0xAE,
      CHR 0xBE, CHR 0xE8, CHR 0x8C, CHR 0x83, CHR 0xE5, CHR 0x9B, CHR 0xB4, CHR 0xE8, CHR 0xA7, CHR 0x81] @ '' ['' @
      [CHR 0x60] @ ''spec.md'' @ [CHR 0x60] @ ''](spec.md)'' @ [CHR 0xEF, CHR 0xBC, CHR 0x8C, CHR 0xE7, CHR 0xBB,
      CHR 0x9F, CHR 0xE4, CHR 0xB8, CHR 0x80, CHR 0xE6, CHR 0x9C, CHR 0xAF, CHR 0xE8, CHR 0xAF, CHR 0xAD, CHR 0xE8,
      CHR 0xA7, CHR 0x81] @ '' ['' @ [CHR 0x60] @ ''CONTEXT.md'' @ [CHR 0x60] @ ''](CONTEXT.md)'' @ [CHR 0xEF, CHR
      0xBC, CHR 0x8C, CHR 0xE8, CHR 0xAE, CHR 0xBF, CHR 0xE8, CHR 0xB0, CHR 0x88, CHR 0xE5, CHR 0xBD, CHR 0xA2, CHR
      0xE6, CHR 0x88, CHR 0x90, CHR 0xE7, CHR 0x9A, CHR 0x84, CHR 0xE6, CHR 0x9E, CHR 0xB6, CHR 0xE6, CHR 0x9E, CHR
      0x84, CHR 0xE5, CHR 0x86, CHR 0xB3, CHR 0xE7, CHR 0xAD, CHR 0x96, CHR 0xE4, CHR 0xBF, CHR 0x9D, CHR 0xE5, CHR
      0xAD, CHR 0x98, CHR 0xE5, CHR 0x9C, CHR 0xA8] @ '' ['' @ [CHR 0x60] @ ''adr/'' @ [CHR 0x60] @ ''](adr/)'' @
      [CHR 0xEF, CHR 0xBC, CHR 0x8C] @ ''Agent '' @ [CHR 0xE5, CHR 0x8F, CHR 0x91, CHR 0xE7, CHR 0x8E, CHR 0xB0, CHR
      0xE8, CHR 0xA7, CHR 0x84, CHR 0xE5, CHR 0x88, CHR 0x99, CHR 0xE8, CHR 0xA7, CHR 0x81] @ '' ['' @ [CHR 0x60] @
      ''AGENTS.md'' @ [CHR 0x60] @ ''](AGENTS.md)'' @ [CHR 0xE3, CHR 0x80, CHR 0x82, CHR 0xE8, CHR 0xBF, CHR 0x99,
      CHR 0xE4, CHR 0xBA, CHR 0x9B, CHR 0xE6, CHR 0x9D, CHR 0x90, CHR 0xE6, CHR 0x96, CHR 0x99, CHR 0xE9, CHR 0x83,
      CHR 0xBD, CHR 0xE5, CHR 0xB1, CHR 0x9E, CHR 0xE4, CHR 0xBA, CHR 0x8E, CHR 0xE8, CHR 0xBF, CHR 0x99, CHR 0xE4,
      CHR 0xB8, CHR 0xAA, CHR 0xE7, CHR 0x8B, CHR 0xAC, CHR 0xE7, CHR 0xAB, CHR 0x8B, CHR 0xE6, CHR 0x95, CHR 0x99,
      CHR 0xE7, CHR 0xA8, CHR 0x8B, CHR 0xE7, CHR 0x9B, CHR 0xAE, CHR 0xE5, CHR 0xBD, CHR 0x95, CHR 0xE3, CHR 0x80,
      CHR 0x82],
      [],
      ''## '' @ [CHR 0xE9, CHR 0x98, CHR 0xB6, CHR 0xE6, CHR 0xAE, CHR 0xB5],
      [],
      ''| '' @ [CHR 0xE9, CHR 0xA1, CHR 0xBA, CHR 0xE5, CHR 0xBA, CHR 0x8F] @ '' | '' @ [CHR 0xE9, CHR 0x98, CHR
      0xB6, CHR 0xE6, CHR 0xAE, CHR 0xB5] @ '' | '' @ [CHR 0xE7, CHR 0xB1, CHR 0xBB, CHR 0xE5, CHR 0x9E, CHR 0x8B] @
      '' |'',
      ''|---:|---|---|''] @
     map stage_row stages @
     [[],
      ''## '' @ [CHR 0xE6, CHR 0x95, CHR 0x99, CHR 0xE7, CHR 0xA8, CHR 0x8B, CHR 0xE5, CHR 0xB7, CHR 0xA5, CHR 0xE5,
      CHR 0x85, CHR 0xB7],
      [],
      [CHR 0x60, CHR 0x60, CHR 0x60] @ ''sh'',
      ''python3 docs/xv6-tutorial/tools/validate.py'',
      ''python3 docs/xv6-tutorial/tools/generate_navigation.py --check'',
      [CHR 0x60, CHR 0x60, CHR 0x60],
      [],
      [CHR 0xE5, CHR 0x8D, CHR 0x95, CHR 0xE5, CHR 0x85, CHR 0x83, CHR 0xE4, CHR 0xBD, CHR 0x9C, CHR 0xE8, CHR 0x80,
      CHR 0x85, CHR 0xE4, CHR 0xBB, CHR 0x8E] @ '' ['' @ [CHR 0x60] @ ''templates/unit.md'' @ [CHR 0x60] @
      ''](templates/unit.md) '' @ [CHR 0xE5, CHR 0xBC, CHR 0x80, CHR 0xE5, CHR 0xA7, CHR 0x8B, CHR 0xEF, CHR 0xBC,
      CHR 0x9B, CHR 0xE5, CHR 0xAD, CHR 0xA6, CHR 0xE4, CHR 0xB9, CHR 0xA0, CHR 0xE8, CHR 0x80, CHR 0x85, CHR 0xE5,
      CHR 0x8F, CHR 0xAF, CHR 0xE5, CHR 0xA4, CHR 0x8D, CHR 0xE5, CHR 0x88, CHR 0xB6] @ '' ['' @ [CHR 0x60] @
      ''templates/trace-worksheet.md'' @ [CHR 0x60] @ ''](templates/trace-worksheet.md) '' @ [CHR 0xE8, CHR 0xAE,
      CHR 0xB0, CHR 0xE5, CHR 0xBD, CHR 0x95, CHR 0xE8, CHR 0xBF, CHR 0xBD, CHR 0xE8, CHR 0xB8, CHR 0xAA, CHR 0xE8,
      CHR 0xAF, CHR 0x81, CHR 0xE6, CHR 0x8D, CHR 0xAE, CHR 0xE3, CHR 0x80, CHR 0x82],
      []]))"

definition foundation_row :: "tree \<Rightarrow> path \<Rightarrow> nav_unit \<Rightarrow> string" where
  "foundation_row fs output_path unit =
      []"

definition render_foundation :: "tree \<Rightarrow> nav_manifest \<Rightarrow> path \<Rightarrow> string" where
  "render_foundation fs manifest output_path =
     (let units = sort_key nu_order (filter (\<lambda>unit. nu_stage unit = ''foundation'') (nm_units manifest)) in
      py_join [CHR 0x0A] (
     [header_line,
      [],
      ''# '' @ [CHR 0xE5, CHR 0x9F, CHR 0xBA, CHR 0xE7, CHR 0xA1, CHR 0x80, CHR 0xE8, CHR 0xB7, CHR 0xAF, CHR 0xE5,
      CHR 0xBE, CHR 0x84],
      [],
      [CHR 0xE5, CHR 0x9F, CHR 0xBA, CHR 0xE7, CHR 0xA1, CHR 0x80, CHR 0xE8, CHR 0xB7, CHR 0xAF, CHR 0xE5, CHR 0xBE,
      CHR 0x84, CHR 0xE4, CHR 0xB8, CHR 0x8D, CHR 0xE5, CHR 0x81, CHR 0x87, CHR 0xE5, CHR 0xAE, CHR 0x9A, CHR 0xE8,
      CHR 0xAF, CHR 0xBB, CHR 0xE8, CHR 0x80, CHR 0x85, CHR 0xE5, CHR 0xB7, CHR 0xB2, CHR 0xE7, CHR 0xBB, CHR 0x8F,
      CHR 0xE4, CHR 0xBC, CHR 0x9A] @ '' C'' @ [CHR 0xE3, CHR 0x80, CHR 0x81, CHR 0xE5, CHR 0x91, CHR 0xBD, CHR
      0xE4, CHR 0xBB, CHR 0xA4, CHR 0xE8, CHR 0xA1, CHR 0x8C, CHR 0xE3, CHR 0x80, CHR 0x81] @ ''RISC-V '' @ [CHR
      0xE6, CHR 0x88, CHR 0x96] @ '' GDB'' @ [CHR 0xE3, CHR 0x80, CHR 0x82, CHR 0xE6, CHR 0xAF, CHR 0x8F, CHR 0xE4,
      CHR 0xB8, CHR 0xAA, CHR 0xE5, CHR 0x8D, CHR 0x95, CHR 0xE5, CHR 0x85, CHR 0x83, CHR 0xE9, CHR 0x83, CHR 0xBD,
      CHR 0xE4, CHR 0xBA, CHR 0xA7, CHR 0xE7, CHR 0x94, CHR 0x9F, CHR 0xE5, CHR 0x8F, CHR 0xAF, CHR 0xE6, CHR 0xA3,
      CHR 0x80, CHR 0xE6, CHR 0x9F, CHR 0xA5, CHR 0xE7, CHR 0x9A, CHR 0x84, CHR 0xE5, CHR 0x87, CHR 0xBA, CHR 0xE5,
      CHR 0x8F, CHR 0xA3, CHR 0xE4, CHR 0xBA, CHR 0xA7, CHR 0xE7, CHR 0x89, CHR 0xA9, CHR 0xEF, CHR 0xBC, CHR 0x8C,
      CHR 0xE6, CHR 0x9C, CHR 0x80, CHR 0xE7, CHR 0xBB, CHR 0x88, CHR 0xE7, CHR 0x94, CHR 0xB1] @ '' Foundation gate
      '' @ [CHR 0xE5, CHR 0x88, CHR 0xA4, CHR 0xE6, CHR 0x96, CHR 0xAD, CHR 0xE6, CHR 0x98, CHR 0xAF, CHR 0xE5, CHR
      0x90, CHR 0xA6, CHR 0xE5, CHR 0x8F, CHR 0xAF, CHR 0xE4, CHR 0xBB, CHR 0xA5, CHR 0xE8, CHR 0xBF, CHR 0x9B, CHR
      0xE5, CHR 0x85, CHR 0xA5, CHR 0xE6, CHR 0xA0, CHR 0xB8, CHR 0xE5, CHR 0xBF, CHR 0x83, CHR 0xE8, CHR 0xB7, CHR
      0xAF, CHR 0xE5, CHR 0xBE, CHR 0x84, CHR 0xE3, CHR 0x80, CHR 0x82],
      [],
      ''| '' @ [CHR 0xE9, CHR 0xA1, CHR 0xBA, CHR 0xE5, CHR 0xBA, CHR 0x8F] @ '' | '' @ [CHR 0xE5, CHR 0x8D, CHR
      0x95, CHR 0xE5, CHR 0x85, CHR 0x83] @ '' | '' @ [CHR 0xE7, CHR 0x8A, CHR 0xB6, CHR 0xE6, CHR 0x80, CHR 0x81] @
      '' |'',
      ''|---:|---|---|''] @
     map (foundation_row fs output_path) units @ [[]]))"

definition core_row :: "tree \<Rightarrow> path \<Rightarrow> nav_unit \<Rightarrow> string" where
  "core_row fs output_path unit =
      ''- '' @ unit_link fs unit output_path @ '' - '' @ [CHR 0x60] @ nu_status unit @ [CHR 0x60]"

definition core_section :: "tree \<Rightarrow> nav_manifest \<Rightarrow> path \<Rightarrow> nav_stage \<Rightarrow> string list" where
  "core_section fs manifest output_path stage =
     (let units = sort_key nu_order (filter (\<lambda>unit. nu_stage unit = ns_id stage) (nm_units manifest)) in
     [''## '' @ ns_title stage,
      []] @
     (if units = [] then
     [[CHR 0xE5, CHR 0xB0, CHR 0x9A, CHR 0xE6, CHR 0x97, CHR 0xA0, CHR 0xE5, CHR 0xB7, CHR 0xB2, CHR 0xE7, CHR 0x99,
      CHR 0xBB, CHR 0xE8, CHR 0xAE, CHR 0xB0, CHR 0xE5, CHR 0x8D, CHR 0x95, CHR 0xE5, CHR 0x85, CHR 0x83, CHR 0xE3,
      CHR 0x80, CHR 0x82],
      []]
      else map (core_row fs output_path) units @ [[]]))"

definition render_core :: "tree \<Rightarrow> nav_manifest \<Rightarrow> path \<Rightarrow> string" where
  "render_core fs manifest output_path =
     (let stages = sort_key ns_order (filter (\<lambda>stage. ns_kind stage = ''core'') (nm_stages manifest)) in
      py_join [CHR 0x0A] (
     [header_line,
      [],
      ''# '' @ [CHR 0xE6, CHR 0xA0, CHR 0xB8, CHR 0xE5, CHR 0xBF, CHR 0x83, CHR 0xE8, CHR 0xB7, CHR 0xAF, CHR 0xE5,
      CHR 0xBE, CHR 0x84],
      [],
      [CHR 0xE6, CHR 0xA0, CHR 0xB8, CHR 0xE5, CHR 0xBF, CHR 0x83, CHR 0xE8, CHR 0xB7, CHR 0xAF, CHR 0xE5, CHR 0xBE,
      CHR 0x84, CHR 0xE5, CHR 0x9C, CHR 0xA8, CHR 0xE4, CHR 0xB8, CHR 0x83, CHR 0xE4, CHR 0xB8, CHR 0xAA, CHR 0xE8,
      CHR 0x9E, CHR 0xBA, CHR 0xE6, CHR 0x97, CHR 0x8B, CHR 0xE9, CHR 0x98, CHR 0xB6, CHR 0xE6, CHR 0xAE, CHR 0xB5,
      CHR 0xE4, CHR 0xB8, CHR 0xAD, CHR 0xE5, CHR 0x8F, CHR 0x8D, CHR 0xE5, CHR 0xA4, CHR 0x8D, CHR 0xE5, CHR 0x9B,
      CHR 0x9E, CHR 0xE5, CHR 0x88, CHR 0xB0, CHR 0xE7, CHR 0x9C, CHR 0x9F, CHR 0xE5, CHR 0xAE, CHR 0x9E, CHR 0xE8,
      CHR 0xA1, CHR 0x8C, CHR 0xE4, CHR 0xB8, CHR 0xBA, CHR 0xE3, CHR 0x80, CHR 0x82, CHR 0xE6, CHR 0x97, CHR 0xA9,
      CHR 0xE6, CHR 0x9C, CHR 0x9F, CHR 0xE5, CHR 0x8D, CHR 0x95, CHR 0xE5, CHR 0x85, CHR 0x83, CHR 0xE4, CHR 0xBC,
      CHR 0x9A, CHR 0xE6, CHR 0x98, CHR 0x8E, CHR 0xE7, CHR 0xA1, CHR 0xAE, CHR 0xE7, CHR 0x95, CHR 0x99, CHR 0xE4,
      CHR 0xB8, CHR 0x8B, CHR 0xE9, CHR 0xBB, CHR 0x91, CHR 0xE7, CHR 0x9B, CHR 0x92, CHR 0xEF, CHR 0xBC, CHR 0x8C,
      CHR 0xE5, CHR 0x90, CHR 0x8E, CHR 0xE7, CHR 0xBB, CHR 0xAD, CHR 0xE5, CHR 0x8D, CHR 0x95, CHR 0xE5, CHR 0x85,
      CHR 0x83, CHR 0xE8, CHR 0xB4, CHR 0x9F, CHR 0xE8, CHR 0xB4, CHR 0xA3, CHR 0xE8, CHR 0xA7, CHR 0xA3, CHR 0xE9,
      CHR 0x99, CHR 0xA4, CHR 0xEF, CHR 0xBC, CHR 0x9B, CHR 0xE6, CHR 0x98, CHR 0xBE, CHR 0xE7, CHR 0xA4, CHR 0xBA,
      CHR 0xE9, CHR 0xA1, CHR 0xBA, CHR 0xE5, CHR 0xBA, CHR 0x8F, CHR 0xE6, CHR 0x9D, CHR 0xA5, CHR 0xE8, CHR 0x87,
      CHR 0xAA] @ '' '' @ [CHR 0x60] @ ''curriculum.json'' @ [CHR 0x60, CHR 0xEF, CHR 0xBC, CHR 0x8C, CHR 0xE4, CHR
      0xB8, CHR 0x8D, CHR 0xE6, CHR 0x98, CHR 0xAF, CHR 0xE6, CHR 0x96, CHR 0x87, CHR 0xE4, CHR 0xBB, CHR 0xB6, CHR
      0xE5, CHR 0x90, CHR 0x8D, CHR 0xE3, CHR 0x80, CHR 0x82],
      []] @
     concat (map (core_section fs manifest output_path) stages)))"

text \<open>\<open>counts[unit["status"]] += 1\<close> over the units of one stage\<close>

definition count_step :: "string \<Rightarrow> nat \<times> nat \<times> nat \<Rightarrow> nav_unit \<Rightarrow> (nat \<times> nat \<times> nat) result" where
  "count_step stage_id = (\<lambda>(planned, draft, verified) unit.
     if nu_stage unit \<noteq> stage_id then Inr (planned, draft, verified)
     else if nu_status unit = ''planned'' then Inr (Suc planned, draft, verified)
     else if nu_status unit = ''draft'' then Inr (planned, Suc draft, verified)
     else if nu_status unit = ''verified'' then Inr (planned, draft, Suc verified)
     else Inl KeyError)"

definition stage_counts :: "nav_unit list \<Rightarrow> string \<Rightarrow> (nat \<times> nat \<times> nat) result" where
  "stage_counts units stage_id = fold_res (count_step stage_id) (0, 0, 0) units"

definition counts_row :: "nav_unit list \<Rightarrow> nav_stage \<Rightarrow> string result" where
  "counts_row units stage =
     bind_res (stage_counts units (ns_id stage)) (\<lambda>(planned, draft, verified). Inr (
      ''| '' @ ns_title stage @ '' ('' @ [CHR 0x60] @ ns_id stage @ [CHR 0x60] @ '') | '' @ show_nat planned @ '' |
      '' @ show_nat draft @ '' | '' @ show_nat verified @ '' |''))"

definition render_stages :: "nav_manifest \<Rightarrow> string result" where
  "render_stages manifest =
     (let stages = sort_key ns_order (nm_stages manifest) in
      bind_res (map_res (counts_row (nm_units manifest)) stages) (\<lambda>rows.
      Inr (py_join [CHR 0x0A] (
     [header_line,
      [],
      ''# '' @ [CHR 0xE8, CHR 0xAF, CHR 0xBE, CHR 0xE7, CHR 0xA8, CHR 0x8B, CHR 0xE9, CHR 0x98, CHR 0xB6, CHR 0xE6,
      CHR 0xAE, CHR 0xB5, CHR 0xE7, CHR 0xB4, CHR 0xA2, CHR 0xE5, CHR 0xBC, CHR 0x95],
      [],
      ''| '' @ [CHR 0xE9, CHR 0x98, CHR 0xB6, CHR 0xE6, CHR 0xAE, CHR 0xB5] @ '' | planned | draft | verified |'',
      ''|---|---:|---:|---:|''] @
     rows @
     [[],
      [CHR 0xE5, CHR 0x8F, CHR 0xAA, CHR 0xE6, CHR 0x9C, CHR 0x89, CHR 0xE6, CHR 0xBB, CHR 0xA1, CHR 0xE8, CHR 0xB6,
      CHR 0xB3, CHR 0xE6, CHR 0x8A, CHR 0x80, CHR 0xE6, CHR 0x9C, CHR 0xAF, CHR 0xE5, CHR 0x8F, CHR 0x91, CHR 0xE5,
      CHR 0xB8, CHR 0x83, CHR 0xE9, CHR 0x97, CHR 0xA8, CHR 0xE6, CHR 0xA7, CHR 0x9B, CHR 0xE5, CHR 0xB9, CHR 0xB6,
      CHR 0xE5, CHR 0xAE, CHR 0x8C, CHR 0xE6, CHR 0x88, CHR 0x90, CHR 0xE9, CHR 0x9D, CHR 0x9E, CHR 0xE4, CHR 0xBD,
      CHR 0x9C, CHR 0xE8, CHR 0x80, CHR 0x85, CHR 0xE8, CHR 0xB5, CHR 0xB0, CHR 0xE6, CHR 0x9F, CHR 0xA5, CHR 0xE7,
      CHR 0x9A, CHR 0x84, CHR 0xE5, CHR 0x8D, CHR 0x95, CHR 0xE5, CHR 0x85, CHR 0x83, CHR 0xE6, CHR 0x89, CHR 0x8D,
      CHR 0xE8, CHR 0x83, CHR 0xBD, CHR 0xE6, CHR 0xA0, CHR 0x87, CHR 0xE4, CHR 0xB8, CHR 0xBA] @ '' '' @ [CHR 0x60]
      @ ''verified'' @ [CHR 0x60, CHR 0xE3, CHR 0x80, CHR 0x82],
      []]))))"

type_synonym question_entry = "int \<times> int \<times> nav_unit \<times> string"

definition is_question :: "string \<Rightarrow> bool" where
  "is_question resource \<longleftrightarrow> starts_with resource ''questions/'' \<and> \<not> starts_with resource ''questions/answers/''"

definition unit_entries :: "(string, int) dict \<Rightarrow> nav_unit \<Rightarrow> question_entry list result" where
  "unit_entries stage_order unit =
     map_res (\<lambda>resource. bind_res (dget stage_order (nu_stage unit)) (\<lambda>stage.
         Inr (stage, nu_order unit, unit, resource)))
       (filter is_question (nu_resources unit))"

text \<open>
  \<open>sorted(entries)\<close>: entries that agree in stage and order are compared by their units, and two
  different dicts cannot be ordered.
\<close>

definition sort_entries :: "question_entry list \<Rightarrow> question_entry list result" where
  "sort_entries entries =
     (if list_all (\<lambda>(s, n, u, r). list_all (\<lambda>(s', n', u', r'). (s, n) = (s', n') \<longrightarrow> u = u') entries) entries
      then Inr (sort_key (\<lambda>(s, n, u, r). (s, n, r)) entries)
      else Inl TypeError)"

definition question_row :: "tree \<Rightarrow> path \<Rightarrow> question_entry \<Rightarrow> string" where
  "question_row fs output_path = (\<lambda>(stage, order, unit, resource).
     (let target = target_path resource;
          question = (if nu_status unit = ''planned'' \<and> \<not> path_exists fs target
            then nu_title unit @ '' ('' @ [CHR 0x60] @ resource @ [CHR 0x60] @ '')''
            else ''['' @ nu_title unit @ '']('' @ relpath target (butlast output_path) @ '')'') in
      ''| '' @ show_int stage @ ''.'' @ show_int order @ '' | '' @ [CHR 0x60] @ nu_id unit @ [CHR 0x60] @ '' | '' @
      question @ '' | '' @ [CHR 0x60] @ nu_status unit @ [CHR 0x60] @ '' |''))"

definition render_questions :: "tree \<Rightarrow> nav_manifest \<Rightarrow> path \<Rightarrow> string result" where
  "render_questions fs manifest output_path =
     (let stage_order = foldl (\<lambda>d stage. dput (ns_id stage) (ns_order stage) d) [] (nm_stages manifest) in
      bind_res (map_res (unit_entries stage_order) (nm_units manifest)) (\<lambda>entries.
      bind_res (sort_entries (concat entries)) (\<lambda>entries.
      Inr (py_join [CHR 0x0A] (
     [header_line,
      [],
      ''# xv6 '' @ [CHR 0xE6, CHR 0x95, CHR 0x99, CHR 0xE7, CHR 0xA8, CHR 0x8B, CHR 0xE6, CHR 0x9D, CHR 0x83, CHR
      0xE5, CHR 0xA8, CHR 0x81, CHR 0xE9, CHR 0x97, CHR 0xAE, CHR 0xE9, CHR 0xA2, CHR 0x98, CHR 0xE9, CHR 0x9B, CHR
      0x86],
      [],
      [CHR 0xE9, CHR 0x97, CHR 0xAE, CHR 0xE9, CHR 0xA2, CHR 0x98, CHR 0xE4, CHR 0xBB, CHR 0x8E, CHR 0xE7, CHR 0x9C,
      CHR 0x9F, CHR 0xE5, CHR 0xAE, CHR 0x9E, CHR 0xE6, CHR 0x8E, CHR 0xA7, CHR 0xE5, CHR 0x88, CHR 0xB6, CHR 0xE6,
      CHR 0xB5, CHR 0x81, CHR 0xE3, CHR 0x80, CHR 0x81, CHR 0xE7, CHR 0x8A, CHR 0xB6, CHR 0xE6, CHR 0x80, CHR 0x81,
      CHR 0xE3, CHR 0x80, CHR 0x81] @ ''ownership'' @ [CHR 0xE3, CHR 0x80, CHR 0x81, CHR 0xE5, CHR 0xA4, CHR 0xB1,
      CHR 0xE8, CHR 0xB4, CHR 0xA5, CHR 0xE8, CHR 0xB7, CHR 0xAF, CHR 0xE5, CHR 0xBE, CHR 0x84, CHR 0xE5, CHR 0x92,
      CHR 0x8C, CHR 0xE8, CHR 0xAF, CHR 0x81, CHR 0xE6, CHR 0x8D, CHR 0xAE, CHR 0xE8, CHR 0xBE, CHR 0xB9, CHR 0xE7,
      CHR 0x95, CHR 0x8C, CHR 0xE7, CHR 0x94, CHR 0x9F, CHR 0xE6, CHR 0x88, CHR 0x90, CHR 0xEF, CHR 0xBC, CHR 0x9B,
      CHR 0xE5, CHR 0x8D, CHR 0x95, CHR 0xE5, CHR 0x85, CHR 0x83, CHR 0xE4, CHR 0xBE, CHR 0x9D, CHR 0xE8, CHR 0xB5,
      CHR 0x96, CHR 0xE4, CHR 0xB8, CHR 0x8E, CHR 0xE7, CHR 0x8A, CHR 0xB6, CHR 0xE6, CHR 0x80, CHR 0x81, CHR 0xE4,
      CHR 0xBB, CHR 0xA5] @ '' '' @ [CHR 0x60] @ ''curriculum.json'' @ [CHR 0x60] @ '' '' @ [CHR 0xE4, CHR 0xB8, CHR
      0xBA, CHR 0xE5, CHR 0x87, CHR 0x86, CHR 0xE3, CHR 0x80, CHR 0x82],
      [],
      ''| '' @ [CHR 0xE9, CHR 0x98, CHR 0xB6, CHR 0xE6, CHR 0xAE, CHR 0xB5, CHR 0xE9, CHR 0xA1, CHR 0xBA, CHR 0xE5,
      CHR 0xBA, CHR 0x8F] @ '' | '' @ [CHR 0xE5, CHR 0x8D, CHR 0x95, CHR 0xE5, CHR 0x85, CHR 0x83] @ '' | '' @ [CHR
      0xE9, CHR 0x97, CHR 0xAE, CHR 0xE9, CHR 0xA2, CHR 0x98, CHR 0xE8, CHR 0xB7, CHR 0xAF, CHR 0xE5, CHR 0xBE, CHR
      0x84] @ '' | '' @ [CHR 0xE7, CHR 0x8A, CHR 0xB6, CHR 0xE6, CHR 0x80, CHR 0x81] @ '' |'',
      ''|---:|---|---|---|''] @
     map (question_row fs output_path) entries @
     [[],
      [CHR 0xE6, CHR 0x97, CHR 0xA7] @ '' '' @ [CHR 0x60] @ ''docs/questions/'' @ [CHR 0x60] @ '' '' @ [CHR 0xE5,
      CHR 0x8F, CHR 0xAA, CHR 0xE4, CHR 0xBF, CHR 0x9D, CHR 0xE7, CHR 0x95, CHR 0x99, CHR 0xE6, CHR 0x8C, CHR 0x87,
      CHR 0xE5, CHR 0x90, CHR 0x91, CHR 0xE6, CHR 0x9C, CHR 0xAC, CHR 0xE9, CHR 0xA1, CHR 0xB5, CHR 0xE7, CHR 0x9A,
      CHR 0x84, CHR 0xE5, CHR 0x85, CHR 0xBC, CHR 0xE5, CHR 0xAE, CHR 0xB9, CHR 0xE5, CHR 0x85, CHR 0xA5, CHR 0xE5,
      CHR 0x8F, CHR 0xA3, CHR 0xEF, CHR 0xBC, CHR 0x8C, CHR 0xE4, CHR 0xB8, CHR 0x8D, CHR 0xE7, CHR 0xBB, CHR 0xB4,
      CHR 0xE6, CHR 0x8A, CHR 0xA4, CHR 0xE5, CHR 0x90, CHR 0x8C, CHR 0xE6, CHR 0xAD, CHR 0xA5, CHR 0xE5, CHR 0x89,
      CHR 0xAF, CHR 0xE6, CHR 0x9C, CHR 0xAC, CHR 0xE3, CHR 0x80, CHR 0x82],
      []])))))"

section \<open>The program\<close>

definition root_output :: path where "root_output = [''README.md'']"
definition foundation_output :: path where "foundation_output = [''foundation'', ''README.md'']"
definition core_output :: path where "core_output = [''core'', ''README.md'']"
definition stages_output :: path where "stages_output = [''stages'', ''README.md'']"
definition questions_output :: path where "questions_output = [''questions'', ''README.md'']"

definition expected_outputs :: "tree \<Rightarrow> nav_manifest \<Rightarrow> (path, string) dict result" where
  "expected_outputs fs manifest =
     bind_res (render_stages manifest) (\<lambda>stages_page.
     bind_res (render_questions fs manifest questions_output) (\<lambda>questions_page.
     Inr [(root_output, render_root manifest),
          (foundation_output, render_foundation fs manifest foundation_output),
          (core_output, render_core fs manifest core_output),
          (stages_output, stages_page),
          (questions_output, questions_page)]))"

definition page_text :: "string \<Rightarrow> string" where
  "page_text content = rstrip content @ [CHR 0x0A]"

text \<open>\<open>path.parent.mkdir(parents=True, exist_ok=True)\<close> followed by \<open>write_text\<close>\<close>

definition write_page :: "tree \<Rightarrow> path \<times> string \<Rightarrow> tree" where
  "write_page fs = (\<lambda>(p, content).
     \<lparr>tr_files = (tr_files fs)(p \<mapsto> page_text content),
      tr_dirs = tr_dirs fs \<union> set (map (\<lambda>n. take n p) [0..<length p])\<rparr>)"

definition stale_outputs :: "tree \<Rightarrow> (path, string) dict \<Rightarrow> path list" where
  "stale_outputs fs outputs = map fst (filter (\<lambda>(p, content). tr_files fs p \<noteq> Some (page_text content)) outputs)"

text \<open>The exit status and the tree afterwards.\<close>

definition navigation_main :: "bool \<Rightarrow> tree \<Rightarrow> nav_manifest \<Rightarrow> (int \<times> tree) result" where
  "navigation_main check fs manifest =
     bind_res (expected_outputs fs manifest) (\<lambda>outputs.
     if check then Inr (if stale_outputs fs outputs \<noteq> [] then 1 else 0, fs)
     else Inr (0, foldl write_page fs outputs))"

end
