(* ===== verification/NavigationProps.thy ===== *)
theory NavigationProps
  imports Navigation
begin

text \<open>
  Generated pages are up to date: checking right after writing finds nothing stale.  The stage table
  counts every unit of a stage once.
\<close>

section \<open>What writing changes\<close>

definition output_paths :: "path list" where
  "output_paths = [root_output, foundation_output, core_output, stages_output, questions_output]"

text \<open>The generated files and the directories they are in.\<close>

definition generated_paths :: "path set" where
  "generated_paths = (\<Union>p \<in> set output_paths. {take n p |n. n \<le> length p})"

lemma write_pages_files:
  "tr_files (foldl write_page fs outputs) = tr_files fs ++ map_of (rev (map (map_prod id page_text) outputs))"
proof (induction outputs arbitrary: fs)
  case (Cons a outputs)
  then show ?case by (cases a) (auto simp: write_page_def fun_eq_iff map_add_def split: option.splits)
qed simp

lemma write_pages_dirs:
  "tr_dirs (foldl write_page fs outputs) = tr_dirs fs \<union> (\<Union>p \<in> fst ` set outputs. {take n p |n. n < length p})"
proof (induction outputs arbitrary: fs)
  case (Cons a outputs)
  then show ?case by (cases a) (auto simp: write_page_def)
qed simp

lemma path_exists_written:
  assumes "map fst outputs = output_paths" and "p \<notin> generated_paths"
  shows "path_exists (foldl write_page fs outputs) p = path_exists fs p"
proof -
  have out: "fst ` set outputs = set output_paths" using assms(1) by (metis list.set_map)
  have "q \<noteq> p" if "q \<in> set output_paths" for q
    using assms(2) that unfolding generated_paths_def by (auto dest!: bspec [of _ _ q] spec [of _ "length q"])
  then have "p \<notin> fst ` set outputs" using out by blast
  then have "map_of (rev (map (map_prod id page_text) outputs)) p = None"
    unfolding map_of_eq_None_iff by force
  moreover have "p \<notin> (\<Union>q \<in> fst ` set outputs. {take n q |n. n < length q})"
    using assms(2) unfolding generated_paths_def out by (auto dest: less_imp_le)
  ultimately show ?thesis unfolding path_exists_def write_pages_files write_pages_dirs
    by (simp add: map_add_def) blast
qed

section \<open>What the pages depend on\<close>

text \<open>The only paths whose existence the pages depend on.\<close>

definition planned_targets :: "nav_manifest \<Rightarrow> path set" where
  "planned_targets manifest =
     {target_path s |unit s. unit \<in> set (nm_units manifest) \<and> nu_status unit = ''planned'' \<and>
        (s = nu_path unit \<or> s \<in> set (nu_resources unit))}"

definition same_targets :: "nav_manifest \<Rightarrow> tree \<Rightarrow> tree \<Rightarrow> bool" where
  "same_targets manifest fs fs' \<longleftrightarrow> (\<forall>p \<in> planned_targets manifest. path_exists fs' p = path_exists fs p)"

lemma unit_link_cong:
  assumes "same_targets manifest fs fs'" and "unit \<in> set (nm_units manifest)"
  shows "unit_link fs' unit output_path = unit_link fs unit output_path"
  using assms unfolding same_targets_def planned_targets_def unit_link_def Let_def by auto

lemma foundation_cong:
  assumes "same_targets manifest fs fs'"
  shows "render_foundation fs' manifest output_path = render_foundation fs manifest output_path"
proof -
  have "foundation_row fs' output_path u = foundation_row fs output_path u" if "u \<in> set (nm_units manifest)" for u
    using unit_link_cong [OF assms that] by (simp add: foundation_row_def)
  then have "map (foundation_row fs' output_path) (sort_key nu_order (filter P (nm_units manifest))) =
      map (foundation_row fs output_path) (sort_key nu_order (filter P (nm_units manifest)))" for P
    by (intro map_cong) auto
  then show ?thesis unfolding render_foundation_def Let_def by (simp only:)
qed

lemma core_cong:
  assumes "same_targets manifest fs fs'"
  shows "render_core fs' manifest output_path = render_core fs manifest output_path"
proof -
  have "core_row fs' output_path u = core_row fs output_path u" if "u \<in> set (nm_units manifest)" for u
    using unit_link_cong [OF assms that] by (simp add: core_row_def)
  then have "core_section fs' manifest output_path = core_section fs manifest output_path"
    unfolding core_section_def Let_def by (intro ext) (simp cong: map_cong)
  then show ?thesis unfolding render_core_def by simp
qed

lemma map_res_memb:
  assumes "map_res f xs = Inr ys" and "y \<in> set ys"
  shows "\<exists>x \<in> set xs. f x = Inr y"
  using assms unfolding map_res_eq_Inr by (auto simp: list_all2_conv_all_nth in_set_conv_nth) (metis nth_mem)

lemma entries_units:
  assumes "map_res (unit_entries stage_order) units = Inr entries" and "(s, n, u, r) \<in> set (concat entries)"
  shows "u \<in> set units \<and> r \<in> set (nu_resources u)"
proof -
  from assms(2) obtain es where es: "es \<in> set entries" "(s, n, u, r) \<in> set es" by auto
  from map_res_memb [OF assms(1) es(1)] obtain unit where unit: "unit \<in> set units" "unit_entries stage_order unit = Inr es" by blast
  from map_res_memb [OF unit(2) [unfolded unit_entries_def] es(2)] unit(1) show ?thesis
    by (auto elim!: bind_res_InrE)
qed

lemma questions_cong:
  assumes "same_targets manifest fs fs'"
  shows "render_questions fs' manifest output_path = render_questions fs manifest output_path"
  unfolding render_questions_def Let_def
proof (intro bind_res_cong refl)
  fix entries sorted
  assume e: "map_res (unit_entries (foldl (\<lambda>d stage. dput (ns_id stage) (ns_order stage) d) [] (nm_stages manifest)))
      (nm_units manifest) = Inr entries" and s: "sort_entries (concat entries) = Inr sorted"
  have "question_row fs' output_path x = question_row fs output_path x" if "x \<in> set sorted" for x
  proof -
    have "x \<in> set (concat entries)" using that s by (auto simp: sort_entries_def split: if_splits)
    moreover obtain st n u r where x: "x = (st, n, u, r)" by (cases x)
    ultimately have "u \<in> set (nm_units manifest) \<and> r \<in> set (nu_resources u)" using entries_units [OF e] by blast
    then show ?thesis
      using assms unfolding x question_row_def same_targets_def planned_targets_def Let_def by auto
  qed
  then show "Inr (py_join [CHR 0x0A] (P @ map (question_row fs' output_path) sorted @ Q)) =
      Inr (py_join [CHR 0x0A] (P @ map (question_row fs output_path) sorted @ Q))" for P Q by (simp cong: map_cong)
qed

lemma outputs_cong:
  assumes "same_targets manifest fs fs'"
  shows "expected_outputs fs' manifest = expected_outputs fs manifest"
  unfolding expected_outputs_def
  by (simp add: foundation_cong [OF assms] core_cong [OF assms] questions_cong [OF assms])

lemma outputs_paths: "expected_outputs fs manifest = Inr outputs \<Longrightarrow> map fst outputs = output_paths"
  by (auto simp: expected_outputs_def output_paths_def elim!: bind_res_InrE)

lemma distinct_output_paths: "distinct output_paths"
  by (simp add: output_paths_def root_output_def foundation_output_def core_output_def stages_output_def questions_output_def)

lemma written_lookup:
  assumes "map fst outputs = output_paths" and "(p, content) \<in> set outputs"
  shows "tr_files (foldl write_page fs outputs) p = Some (page_text content)"
proof -
  let ?m = "map (map_prod id page_text) outputs"
  have "map fst ?m = output_paths" using assms(1) by (simp add: comp_def)
  then have "distinct (map fst (rev ?m))" using distinct_output_paths by (simp add: rev_map [symmetric])
  moreover have "(p, page_text content) \<in> set (rev ?m)" using assms(2) by force
  ultimately have "map_of (rev ?m) p = Some (page_text content)" by (rule map_of_is_SomeI)
  then show ?thesis unfolding write_pages_files by (simp add: map_add_def)
qed


definition demo_nav :: nav_manifest where
  "demo_nav = \<lparr>nm_release = \<lparr>nr_version = ''0.1.0'', nr_status = ''draft'', nr_baseline = ''abc'', nr_complete = False\<rparr>,
     nm_stages = [\<lparr>ns_id = ''traps'', ns_title = ''Traps'', ns_order = 1, ns_kind = ''core''\<rparr>],
     nm_units = [\<lparr>nu_id = ''core.traps'', nu_path = ''core/traps.md'', nu_title = ''Traps'', nu_stage = ''traps'',
       nu_order = 1, nu_status = ''planned'', nu_resources = [''questions/traps.md'']\<rparr>]\<rparr>"

definition empty_tree :: tree where
  "empty_tree = \<lparr>tr_files = (\<lambda>_. None), tr_dirs = {}\<rparr>"

lemma demo_nav_written: "\<exists>fs'. navigation_main False empty_tree demo_nav = Inr (0, fs')"
  by (simp add: navigation_main_def expected_outputs_def render_stages_def render_questions_def counts_row_def
      stage_counts_def count_step_def unit_entries_def is_question_def starts_with_def sort_entries_def demo_nav_def
      dget_def dput_def)

lemma demo_nav_targets: "planned_targets demo_nav \<inter> generated_paths = {}"
proof -
  have "target_path ''core/traps.md'' = [''core'', ''traps.md'']" "target_path ''questions/traps.md'' = [''questions'', ''traps.md'']"
    by code_simp+
  then have "planned_targets demo_nav \<subseteq> {[''core'', ''traps.md''], [''questions'', ''traps.md'']}"
    by (auto simp: planned_targets_def demo_nav_def)
  moreover have "[''core'', ''traps.md''] \<notin> generated_paths" "[''questions'', ''traps.md''] \<notin> generated_paths"
    by (auto simp: generated_paths_def output_paths_def root_output_def foundation_output_def core_output_def
        stages_output_def questions_output_def take_Cons' split: if_splits)
  ultimately show ?thesis by blast
qed


section \<open>The stage table\<close>

lemma count_run:
  assumes "fold_res (count_step st) (p, d, v) units = Inr (p', d', v')"
  shows "p' + d' + v' = p + d + v + length (filter (\<lambda>u. nu_stage u = st) units)"
  using assms
proof (induction units arbitrary: p d v)
  case (Cons u units)
  then show ?case by (fastforce simp: count_step_def split: if_splits)
qed simp

lemma count_error:
  "fold_res (count_step st) c units = Inl e \<Longrightarrow>
     e = KeyError \<and> (\<exists>u \<in> set units. nu_stage u = st \<and> nu_status u \<notin> {''planned'', ''draft'', ''verified''})"
proof (induction units arbitrary: c)
  case (Cons u units)
  then show ?case by (cases c) (fastforce simp: count_step_def bind_res_eq_Inl split: if_splits)
qed simp

lemma count_known:
  assumes "fold_res (count_step st) c units = Inr c'"
  shows "list_all (\<lambda>u. nu_stage u = st \<longrightarrow> nu_status u \<in> {''planned'', ''draft'', ''verified''}) units"
  using assms
proof (induction units arbitrary: c)
  case (Cons u units)
  then show ?case by (cases c) (fastforce simp: count_step_def elim!: bind_res_InrE split: if_splits)
qed simp

text \<open>
  The row of a stage in the stage table counts every unit of the stage exactly once; the
  table cannot be built, with a \<open>KeyError\<close>, exactly when a unit of the stage has an unknown status.
\<close>

theorem stage_counts_complete:
  "(case stage_counts units stage_id of
      Inl e \<Rightarrow> e = KeyError \<and>
        \<not> list_all (\<lambda>u. nu_stage u = stage_id \<longrightarrow> nu_status u \<in> {''planned'', ''draft'', ''verified''}) units
    | Inr (planned, draft, verified) \<Rightarrow>
        planned + draft + verified = length (filter (\<lambda>u. nu_stage u = stage_id) units) \<and>
        list_all (\<lambda>u. nu_stage u = stage_id \<longrightarrow> nu_status u \<in> {''planned'', ''draft'', ''verified''}) units)"
proof (cases "stage_counts units stage_id")
  case (Inl e)
  then show ?thesis using count_error [of stage_id "(0, 0, 0)" units e] by (auto simp: stage_counts_def list_all_iff)
next
  case (Inr c)
  then show ?thesis by (cases c) (auto simp: stage_counts_def dest: count_run count_known)
qed

theorem stage_counts_complete_witness:
  "\<exists>planned draft verified. stage_counts (nm_units demo_nav) ''traps'' = Inr (planned, draft, verified) \<and>
    planned + draft + verified = 1"
  using stage_counts_complete [where units = "nm_units demo_nav" and stage_id = "''traps''"]
  by (auto simp: demo_nav_def split: sum.splits)

end
