(* ===== verification/LabFields.thy ===== *)
theory LabFields
  imports Markers
begin

text \<open>
  What the laboratory runners share: values of marker fields, which are integers or strings
  depending on the text, the Python operators on such values with the exceptions they raise, the
  reading of \<open>key=value\<close> pairs from a line, and the search for tokens in order.
\<close>

named_theorems lab_simps \<open>conditions over marker fields that hold without an exception\<close>

text \<open>The conditions of a run of checks, one at a time.\<close>

lemma requires_hd: "requires ((b, m) # cs) = Inr u \<Longrightarrow> b"
  by (simp add: bind_res_eq_Inr require_eq_Inr)

lemma requires_tl: "requires ((b, m) # cs) = Inr u \<Longrightarrow> requires cs = Inr u"
  by (simp add: bind_res_eq_Inr)

text \<open>Distinctness as the runners test it, by the size of a set.\<close>

lemma remdups_length_distinct: "length (remdups xs) = length xs \<longleftrightarrow> distinct xs"
  by (metis distinct_remdups length_remdups_eq remdups_id_iff_distinct)

lemma map_res_map: "(\<And>x. x \<in> set xs \<Longrightarrow> f (h x) = Inr (g x)) \<Longrightarrow> map_res f (map h xs) = Inr (map g xs)"
  by (induction xs) simp_all

text \<open>Functions whose only exception is the error of the laboratory.\<close>

definition lab_only :: "'a result \<Rightarrow> bool" where
  "lab_only r = (case r of Inl (LabError _) \<Rightarrow> True | Inl _ \<Rightarrow> False | Inr _ \<Rightarrow> True)"

lemma lab_only_basic [simp, intro!]: "lab_only (Inr x)" "lab_only (require b m)" "lab_only (Inl (LabError m))"
  by (simp_all add: lab_only_def require_def)

lemma lab_only_bind [intro]: "lab_only r \<Longrightarrow> (\<And>x. r = Inr x \<Longrightarrow> lab_only (f x)) \<Longrightarrow> lab_only (bind_res r f)"
  by (cases r) (auto simp: lab_only_def bind_res_def)

lemma lab_only_requires [simp, intro!]: "lab_only (requires cs)"
  by (induction cs) auto

lemma lab_only_fold [intro]: "(\<And>s x. lab_only (f s x)) \<Longrightarrow> lab_only (fold_res f s xs)"
  by (induction xs arbitrary: s) auto

lemma lab_only_map [intro]: "(\<And>x. x \<in> set xs \<Longrightarrow> lab_only (f x)) \<Longrightarrow> lab_only (map_res f xs)"
  by (induction xs) auto

lemma lab_only_error: "lab_only r \<Longrightarrow> r = Inl e \<Longrightarrow> \<exists>m. e = LabError m"
  by (auto simp: lab_only_def split: py_error.splits sum.splits)

text \<open>Functions whose exceptions satisfy a condition.\<close>

definition raises :: "(py_error \<Rightarrow> bool) \<Rightarrow> 'a result \<Rightarrow> bool" where
  "raises P r = (case r of Inl e \<Rightarrow> P e | Inr _ \<Rightarrow> True)"

lemma raises_bind: "raises P r \<Longrightarrow> (\<And>x. r = Inr x \<Longrightarrow> raises P (f x)) \<Longrightarrow> raises P (bind_res r f)"
  by (cases r) (auto simp: raises_def bind_res_def)

lemma raises_lab: "lab_only r \<Longrightarrow> (\<And>m. P (LabError m)) \<Longrightarrow> raises P r"
  using lab_only_error [of r] by (auto simp: raises_def split: sum.split)

text \<open>The low bits of a masked number.\<close>

lemma masked_bits:
  fixes f m :: int
  assumes "and f 31 = m"
  shows "bit f 0 = bit m 0" "bit f 1 = bit m 1" "bit f 2 = bit m 2" "bit f 3 = bit m 3" "bit f 4 = bit m 4"
proof -
  have "bit m n \<longleftrightarrow> bit f n \<and> bit (31 :: int) n" for n using assms by (auto simp: bit_and_iff)
  moreover have "bit (31 :: int) 0" "bit (31 :: int) 1" "bit (31 :: int) 2" "bit (31 :: int) 3" "bit (31 :: int) 4"
    by code_simp+
  ultimately show "bit f 0 = bit m 0" "bit f 1 = bit m 1" "bit f 2 = bit m 2" "bit f 3 = bit m 3" "bit f 4 = bit m 4"
    by blast+
qed

section \<open>Conditions with exceptions\<close>

text \<open>\<open>a and b and ...\<close>: evaluation stops at the first false or raising operand.\<close>

fun all_res :: "bool result list \<Rightarrow> bool result" where
  "all_res [] = Inr True"
| "all_res (c # cs) = bind_res c (\<lambda>b. if b then all_res cs else Inr False)"

definition check :: "bool result list \<Rightarrow> string \<Rightarrow> unit result" where
  "check cs message = bind_res (all_res cs) (\<lambda>b. require b message)"

lemma all_res_True: "all_res cs = Inr True \<longleftrightarrow> list_all (\<lambda>c. c = Inr True) cs"
proof (induction cs)
  case (Cons c cs)
  then show ?case by (cases c) auto
qed simp

lemma check_eq_Inr [lab_simps]: "check cs message = Inr u \<longleftrightarrow> list_all (\<lambda>c. c = Inr True) cs"
  unfolding check_def all_res_True [symmetric] by (cases "all_res cs") (auto simp: require_def)

lemma bind_check_eq_Inr [lab_simps]:
  "bind_res (check cs message) f = Inr y \<longleftrightarrow> list_all (\<lambda>c. c = Inr True) cs \<and> f () = Inr y"
  by (auto simp: bind_res_eq_Inr check_eq_Inr)

fun checks :: "(bool result list \<times> string) list \<Rightarrow> unit result" where
  "checks [] = Inr ()"
| "checks ((cs, message) # rest) = bind_res (check cs message) (\<lambda>_. checks rest)"

lemma checks_eq_Inr [lab_simps]:
  "checks css = Inr u \<longleftrightarrow> list_all (list_all (\<lambda>c. c = Inr True) \<circ> fst) css"
  by (induction css) (auto simp: bind_check_eq_Inr)

lemma bind_checks_eq_Inr [lab_simps]:
  "bind_res (checks css) f = Inr y \<longleftrightarrow> list_all (list_all (\<lambda>c. c = Inr True) \<circ> fst) css \<and> f () = Inr y"
  by (auto simp: bind_res_eq_Inr checks_eq_Inr)

lemma Inr_True [lab_simps]: "(Inr b :: bool result) = Inr True \<longleftrightarrow> b"
  by simp

text \<open>Several fields of a record at once.\<close>

definition has :: "fval fields \<Rightarrow> (string \<times> fval) list \<Rightarrow> bool" where
  "has d kvs \<longleftrightarrow> list_all (\<lambda>(k, v). map_of d k = Some v) kvs"

lemma has_simps [simp]: "has d []" "has d ((k, v) # kvs) \<longleftrightarrow> map_of d k = Some v \<and> has d kvs"
  by (simp_all add: has_def)

section \<open>Operators on field values\<close>

fun str_less :: "string \<Rightarrow> string \<Rightarrow> bool" where
  "str_less _ [] = False"
| "str_less [] (_ # _) = True"
| "str_less (c # cs) (d # ds) =
     ((of_char c :: int) < of_char d \<or> c = d \<and> str_less cs ds)"

text \<open>\<open>v < w\<close>: defined on two integers and on two strings.\<close>

fun val_less :: "fval \<Rightarrow> fval \<Rightarrow> bool result" where
  "val_less (FInt i) (FInt j) = Inr (i < j)"
| "val_less (FStr s) (FStr t) = Inr (str_less s t)"
| "val_less _ _ = Inl TypeError"

fun val_le :: "fval \<Rightarrow> fval \<Rightarrow> bool result" where
  "val_le (FInt i) (FInt j) = Inr (i \<le> j)"
| "val_le (FStr s) (FStr t) = Inr (s = t \<or> str_less s t)"
| "val_le _ _ = Inl TypeError"

fun val_add :: "fval \<Rightarrow> fval \<Rightarrow> fval result" where
  "val_add (FInt i) (FInt j) = Inr (FInt (i + j))"
| "val_add (FStr s) (FStr t) = Inr (FStr (s @ t))"
| "val_add _ _ = Inl TypeError"

text \<open>An operand that must be an integer: \<open>-\<close>, \<open>&\<close> and mixed operations raise otherwise.\<close>

fun as_int :: "fval \<Rightarrow> int result" where
  "as_int (FInt i) = Inr i"
| "as_int (FStr _) = Inl TypeError"

definition item_int :: "fval fields \<Rightarrow> string \<Rightarrow> int result" where
  "item_int d k = bind_res (dget d k) as_int"

text \<open>Comparisons of \<open>d[k]\<close>, which raise on a missing key.\<close>

definition item_is :: "fval fields \<Rightarrow> string \<Rightarrow> fval \<Rightarrow> bool result" where
  "item_is d k v = bind_res (dget d k) (\<lambda>w. Inr (w = v))"

definition item_not :: "fval fields \<Rightarrow> string \<Rightarrow> fval \<Rightarrow> bool result" where
  "item_not d k v = bind_res (dget d k) (\<lambda>w. Inr (w \<noteq> v))"

definition items_eq :: "fval fields \<Rightarrow> string \<Rightarrow> fval fields \<Rightarrow> string \<Rightarrow> bool result" where
  "items_eq d k e l = bind_res (dget d k) (\<lambda>v. bind_res (dget e l) (\<lambda>w. Inr (v = w)))"

definition items_ne :: "fval fields \<Rightarrow> string \<Rightarrow> fval fields \<Rightarrow> string \<Rightarrow> bool result" where
  "items_ne d k e l = bind_res (dget d k) (\<lambda>v. bind_res (dget e l) (\<lambda>w. Inr (v \<noteq> w)))"

definition items_less :: "fval fields \<Rightarrow> string \<Rightarrow> fval fields \<Rightarrow> string \<Rightarrow> bool result" where
  "items_less d k e l = bind_res (dget d k) (\<lambda>v. bind_res (dget e l) (\<lambda>w. val_less v w))"

text \<open>\<open>d[k] > e[l]\<close>\<close>

definition items_gt :: "fval fields \<Rightarrow> string \<Rightarrow> fval fields \<Rightarrow> string \<Rightarrow> bool result" where
  "items_gt d k e l = bind_res (dget d k) (\<lambda>v. bind_res (dget e l) (\<lambda>w. val_less w v))"

definition item_cond :: "fval fields \<Rightarrow> string \<Rightarrow> (int \<Rightarrow> bool) \<Rightarrow> bool result" where
  "item_cond d k P = bind_res (item_int d k) (\<lambda>i. Inr (P i))"

text \<open>Comparisons of \<open>d.get(k)\<close>.\<close>

definition get_is :: "fval fields \<Rightarrow> string \<Rightarrow> fval \<Rightarrow> bool result" where
  "get_is d k v = Inr (map_of d k = Some v)"

definition get_cond :: "fval fields \<Rightarrow> string \<Rightarrow> (int \<Rightarrow> bool) \<Rightarrow> bool result" where
  "get_cond d k P = (case map_of d k of Some (FInt i) \<Rightarrow> Inr (P i) | _ \<Rightarrow> Inl TypeError)"

definition gets_eq :: "fval fields \<Rightarrow> string \<Rightarrow> fval fields \<Rightarrow> string \<Rightarrow> bool result" where
  "gets_eq d k e l = Inr (map_of d k = map_of e l)"

lemma dget_Inr [lab_simps]: "dget d k = Inr v \<longleftrightarrow> map_of d k = Some v"
  by (simp add: dget_def split: option.split)

lemma as_int_Inr [lab_simps]: "as_int v = Inr i \<longleftrightarrow> v = FInt i"
  by (cases v) auto

lemma item_int_Inr [lab_simps]: "item_int d k = Inr i \<longleftrightarrow> map_of d k = Some (FInt i)"
  by (auto simp: item_int_def bind_res_eq_Inr lab_simps)

lemma item_is_True [lab_simps]: "item_is d k v = Inr True \<longleftrightarrow> map_of d k = Some v"
  by (auto simp: item_is_def bind_res_eq_Inr lab_simps)

lemma item_not_True [lab_simps]: "item_not d k v = Inr True \<longleftrightarrow> (\<exists>w. map_of d k = Some w \<and> w \<noteq> v)"
  by (auto simp: item_not_def bind_res_eq_Inr lab_simps)

lemma items_eq_True [lab_simps]:
  "items_eq d k e l = Inr True \<longleftrightarrow> (\<exists>v. map_of d k = Some v \<and> map_of e l = Some v)"
  by (auto simp: items_eq_def bind_res_eq_Inr lab_simps)

lemma items_ne_True [lab_simps]:
  "items_ne d k e l = Inr True \<longleftrightarrow> (\<exists>v w. map_of d k = Some v \<and> map_of e l = Some w \<and> v \<noteq> w)"
  by (auto simp: items_ne_def bind_res_eq_Inr lab_simps)

lemma items_less_True [lab_simps]:
  "items_less d k e l = Inr True \<longleftrightarrow>
     (\<exists>v w. map_of d k = Some v \<and> map_of e l = Some w \<and> val_less v w = Inr True)"
  by (auto simp: items_less_def bind_res_eq_Inr lab_simps)

lemma item_cond_True [lab_simps]:
  "item_cond d k P = Inr True \<longleftrightarrow> (\<exists>i. map_of d k = Some (FInt i) \<and> P i)"
  by (auto simp: item_cond_def bind_res_eq_Inr lab_simps)

lemma get_is_True [lab_simps]: "get_is d k v = Inr True \<longleftrightarrow> map_of d k = Some v"
  by (simp add: get_is_def)

lemma gets_eq_True [lab_simps]: "gets_eq d k e l = Inr True \<longleftrightarrow> map_of d k = map_of e l"
  by (simp add: gets_eq_def)

lemma items_gt_True [lab_simps]:
  "items_gt d k e l = Inr True \<longleftrightarrow>
     (\<exists>v w. map_of d k = Some v \<and> map_of e l = Some w \<and> val_less w v = Inr True)"
  by (auto simp: items_gt_def bind_res_eq_Inr lab_simps)

lemma get_cond_True [lab_simps]:
  "get_cond d k P = Inr True \<longleftrightarrow> (\<exists>i. map_of d k = Some (FInt i) \<and> P i)"
  by (auto simp: get_cond_def split: option.splits fval.splits)

lemma val_less_int [lab_simps]: "val_less v (FInt j) = Inr True \<longleftrightarrow> (\<exists>i. v = FInt i \<and> i < j)"
  by (cases v) auto

lemma int_val_less [lab_simps]: "val_less (FInt i) w = Inr True \<longleftrightarrow> (\<exists>j. w = FInt j \<and> i < j)"
  by (cases w) auto

lemma map_of_rev_zip: "distinct vs \<Longrightarrow> length vs = length xs \<Longrightarrow> map_of (rev (zip vs xs)) = map_of (zip vs xs)"
  by (rule map_of_inject_set [THEN iffD2]) (auto simp: rev_map [symmetric])

text \<open>\<open>{event[key]: event for event in events}\<close>\<close>

definition index_by :: "string \<Rightarrow> fval fields list \<Rightarrow> (fval, fval fields) dict result" where
  "index_by key events =
     fold_res (\<lambda>d event. bind_res (dget event key) (\<lambda>v. Inr (dput v event d))) [] events"

lemma index_by_lookup:
  assumes "index_by key events = Inr d" and "map (\<lambda>e. map_of e key) events = map Some vs" and "distinct vs"
  shows "map_of d = map_of (zip vs events)"
proof -
  have "fold_res (\<lambda>d event. bind_res (dget event key) (\<lambda>v. Inr (dput v event d))) d0 events = Inr d \<Longrightarrow>
      map (\<lambda>e. map_of e key) events = map Some vs \<Longrightarrow> map_of d = map_of d0 ++ map_of (rev (zip vs events))" for d0
  proof (induction events arbitrary: d0 vs)
    case (Cons e es)
    then obtain v vs' where vs: "vs = v # vs'" "map_of e key = Some v" by (cases vs) auto
    with Cons.prems have "fold_res (\<lambda>d event. bind_res (dget event key) (\<lambda>v. Inr (dput v event d))) (dput v e d0) es = Inr d"
      by (simp add: dget_def)
    from Cons.IH [OF this, of vs'] Cons.prems(2) show ?case by (auto simp: vs map_add_def fun_eq_iff split: option.splits)
  qed simp
  with assms have "map_of d = map_of (rev (zip vs events))" by (simp add: index_by_def)
  moreover have len: "length vs = length events" using assms(2) by (metis length_map)
  ultimately show ?thesis using assms(3) by (simp add: map_of_rev_zip)
qed

section \<open>Integer literals of any base\<close>

definition digit_in :: "int \<Rightarrow> char \<Rightarrow> int option" where
  "digit_in base c =
     (let n = of_char c;
          v = (if 48 \<le> n \<and> n \<le> 57 then n - 48
               else if 97 \<le> n \<and> n \<le> 122 then n - 87
               else if 65 \<le> n \<and> n \<le> 90 then n - 55
               else base)
      in if v < base then Some v else None)"

text \<open>Digits with single underscores between them.\<close>

fun digits_from :: "int \<Rightarrow> int \<Rightarrow> string \<Rightarrow> int option" where
  "digits_from base acc [] = Some acc"
| "digits_from base acc (c # cs) =
     (if c = CHR ''_'' then
        (case cs of
           [] \<Rightarrow> None
         | d # ds \<Rightarrow> (case digit_in base d of None \<Rightarrow> None | Some v \<Rightarrow> digits_from base (acc * base + v) ds))
      else (case digit_in base c of None \<Rightarrow> None | Some v \<Rightarrow> digits_from base (acc * base + v) cs))"

definition digits_value :: "int \<Rightarrow> string \<Rightarrow> int option" where
  "digits_value base s =
     (case s of [] \<Rightarrow> None
      | c # cs \<Rightarrow> (case digit_in base c of None \<Rightarrow> None | Some v \<Rightarrow> digits_from base v cs))"

definition prefixed_value :: "int \<Rightarrow> string \<Rightarrow> int option" where
  "prefixed_value base s = digits_value base (if take 1 s = ''_'' then drop 1 s else s)"

text \<open>\<open>int(s, 0)\<close> on text without white space; \<open>None\<close> is \<open>ValueError\<close>.\<close>

definition magnitude0 :: "string \<Rightarrow> int option" where
  "magnitude0 s =
     (if take 2 s \<in> {''0x'', ''0X''} then prefixed_value 16 (drop 2 s)
      else if take 2 s \<in> {''0o'', ''0O''} then prefixed_value 8 (drop 2 s)
      else if take 2 s \<in> {''0b'', ''0B''} then prefixed_value 2 (drop 2 s)
      else (case digits_value 10 s of
              None \<Rightarrow> None
            | Some n \<Rightarrow> if take 1 s = ''0'' \<and> n \<noteq> 0 then None else Some n))"

definition py_int0 :: "string \<Rightarrow> int option" where
  "py_int0 s =
     (if take 1 s = ''-'' then map_option uminus (magnitude0 (drop 1 s))
      else if take 1 s = ''+'' then magnitude0 (drop 1 s)
      else magnitude0 s)"

definition read_value :: "string \<Rightarrow> fval" where
  "read_value s = (case py_int0 s of Some i \<Rightarrow> FInt i | None \<Rightarrow> FStr s)"

section \<open>Pairs in a line\<close>

definition is_key_char :: "char \<Rightarrow> bool" where
  "is_key_char c \<longleftrightarrow> 97 \<le> (of_char c :: int) \<and> (of_char c :: int) \<le> 122 \<or> c = CHR ''_''"

text \<open>\<open>re.findall(r"([a-z_]+)=([^\s]+)", line)\<close>\<close>

function find_pairs :: "string \<Rightarrow> (string \<times> string) list" where
  "find_pairs [] = []"
| "find_pairs (c # cs) =
     (if is_key_char c then
        (let key = takeWhile is_key_char (c # cs); rest = dropWhile is_key_char (c # cs) in
         case rest of
           [] \<Rightarrow> []
         | e # raw \<Rightarrow>
             (let value = takeWhile (\<lambda>x. \<not> is_space x) raw in
              if e = CHR ''='' \<and> value \<noteq> []
              then (key, value) # find_pairs (dropWhile (\<lambda>x. \<not> is_space x) raw)
              else find_pairs raw))
      else find_pairs cs)"
  by pat_completeness auto
termination
proof (relation "measure length", goal_cases)
  case (2 c cs x xa e raw xb)
  then have "dropWhile is_key_char cs = e # raw" by simp
  then have "length (dropWhile is_key_char cs) = Suc (length raw)" by simp
  then show ?case using length_dropWhile_le [of is_key_char cs] length_dropWhile_le [of "\<lambda>x. \<not> is_space x" raw]
    by simp
next
  case (3 c cs x xa e raw xb)
  then have "dropWhile is_key_char cs = e # raw" by simp
  then have "length (dropWhile is_key_char cs) = Suc (length raw)" by simp
  then show ?case using length_dropWhile_le [of is_key_char cs] by simp
qed auto

text \<open>\<open>[line.strip() for line in output.splitlines() if line.startswith(prefix)]\<close>\<close>

definition lines_with :: "string \<Rightarrow> string \<Rightarrow> string list" where
  "lines_with output prefix = map (strip_chars is_space) (filter (\<lambda>line. starts_with line prefix) (splitlines output))"

definition parse_pairs :: "(string \<Rightarrow> string \<Rightarrow> fval) \<Rightarrow> string \<Rightarrow> fval fields" where
  "parse_pairs read line = foldl (\<lambda>d (k, v). dput k (read k v) d) [] (find_pairs line)"

lemma dict_ok_parse_pairs: "dict_ok (parse_pairs read line)"
proof -
  have "dict_ok d \<Longrightarrow> dict_ok (foldl (\<lambda>d (k, v). dput k (read k v) d) d kvs)" for d kvs
    by (induction kvs arbitrary: d) auto
  then show ?thesis by (simp add: parse_pairs_def)
qed

text \<open>\<open>s.replace(old, new, 1)\<close> and \<open>s.replace(old, new)\<close> for a nonempty \<open>old\<close>.\<close>

definition replace_first :: "string \<Rightarrow> string \<Rightarrow> string \<Rightarrow> string" where
  "replace_first old new s =
     (case find_sub old s of None \<Rightarrow> s | Some k \<Rightarrow> take k s @ new @ drop (k + length old) s)"

function replace_all :: "string \<Rightarrow> string \<Rightarrow> string \<Rightarrow> string" where
  "replace_all old new s =
     (if old = [] \<or> s = [] then s
      else if starts_with s old then new @ replace_all old new (drop (length old) s)
      else hd s # replace_all old new (tl s))"
  by pat_completeness auto
termination
  by (relation "measure (\<lambda>(old, new, s). length s)") auto

declare replace_all.simps [simp del]

section \<open>Tokens in order\<close>

definition order_step :: "string \<Rightarrow> string \<Rightarrow> nat \<Rightarrow> string \<Rightarrow> nat result" where
  "order_step source message offset token =
     (case find_from token source offset of
        None \<Rightarrow> Inl (LabError message)
      | Some position \<Rightarrow> Inr (position + length token))"

definition require_in_order :: "string \<Rightarrow> string list \<Rightarrow> string \<Rightarrow> unit result" where
  "require_in_order source tokens context =
     bind_res (fold_res (order_step source (context @ '' token missing or reordered'')) 0 tokens) (\<lambda>_. Inr ())"

text \<open>The tokens occur one after the other, without overlap.\<close>

fun occur_in_order :: "string \<Rightarrow> string list \<Rightarrow> bool" where
  "occur_in_order s [] = True"
| "occur_in_order s (t # ts) = (\<exists>a b. s = a @ t @ b \<and> occur_in_order b ts)"

lemma occur_in_order_mono: "occur_in_order b ts \<Longrightarrow> occur_in_order (a @ b) ts"
  by (cases ts) (auto simp: append_eq_append_conv2)

lemma find_sub_least: "find_sub p s = Some k \<Longrightarrow> s = a @ p @ b \<Longrightarrow> k \<le> length a"
proof (induction s arbitrary: k a)
  case (Cons c cs)
  note IH = Cons.IH and prems = Cons.prems
  show ?case
  proof (cases a)
    case Nil
    then have "starts_with (c # cs) p" using prems(2) by simp
    with prems(1) show ?thesis by simp
  next
    case (Cons c' a')
    then have "cs = a' @ p @ b" using prems(2) by simp
    with IH prems(1) Cons show ?thesis by (fastforce split: if_splits)
  qed
qed simp

lemma find_sub_split: "find_sub p s = Some k \<Longrightarrow> s = take k s @ p @ drop (k + length p) s"
  using find_sub_Some [of p s k] by (metis append_take_drop_id drop_drop add.commute)

lemma order_fold:
  "offset \<le> length source \<Longrightarrow>
   (\<exists>final. fold_res (order_step source message) offset tokens = Inr final) \<longleftrightarrow>
     occur_in_order (drop offset source) tokens"
proof (induction tokens arbitrary: offset)
  case (Cons t ts)
  show ?case
  proof (cases "find_sub t (drop offset source)")
    case None
    then have "order_step source message offset t = Inl (LabError message)"
      by (simp add: order_step_def find_from_def)
    moreover have "\<not> occur_in_order (drop offset source) (t # ts)"
      using None unfolding find_sub_None by simp
    ultimately show ?thesis by simp
  next
    case (Some n)
    let ?s = "drop offset source"
    have fits: "offset + n + length t \<le> length source"
      using find_sub_Some [OF Some] Cons.prems by (auto simp: le_diff_conv)
    have greedy: "occur_in_order ?s (t # ts) \<longleftrightarrow> occur_in_order (drop (n + length t) ?s) ts"
    proof
      assume "occur_in_order ?s (t # ts)"
      then obtain a b where ab: "?s = a @ t @ b" and ts: "occur_in_order b ts" by auto
      have "n \<le> length a" using find_sub_least [OF Some ab] .
      then have "drop (n + length t) ?s = drop (n + length t) (a @ t) @ b" by (simp add: ab)
      with ts show "occur_in_order (drop (n + length t) ?s) ts" by (simp only: occur_in_order_mono)
    next
      assume "occur_in_order (drop (n + length t) ?s) ts"
      then show "occur_in_order ?s (t # ts)" using find_sub_split [OF Some] by auto
    qed
    have "order_step source message offset t = Inr (offset + n + length t)"
      using Some Cons.prems by (simp add: order_step_def find_from_def)
    then show ?thesis unfolding greedy using Cons.IH [OF fits] by (simp add: add.commute add.left_commute)
  qed
qed simp

lemma require_in_order_iff: "require_in_order source tokens context = Inr () \<longleftrightarrow> occur_in_order source tokens"
  using order_fold [of 0 source _ tokens] by (auto simp: require_in_order_def bind_res_eq_Inr)

end
