(* ===== verification/Sync.thy ===== *)
theory Sync
  imports LabFields
begin

text \<open>
  The runner of the scheduling laboratory, \<open>resources/scheduling-and-synchronization/run-lab.py\<close>: the
  oracles for the transcripts of \<open>schedtrace fixed\<close> and \<open>schedtrace broken\<close>, and the sequence of runs.
  Events are dictionaries of field values, as in the source.
\<close>

definition FIXED_ORDER :: "string list" where
  "FIXED_ORDER =
     [''PRODUCER_ARMED'', ''WAIT_CHECK'', ''WAIT_PLOCK'', ''PRODUCER_ATTEMPT'', ''WAIT_RELEASE_BOUNDARY'',
      ''PRODUCER_ACQUIRE'', ''WAIT_PUBLISH'', ''PRODUCER_READY'', ''WAKE_MATCH'', ''WAKE_DONE'', ''ORIGIN_SKIP'',
      ''MIGRATE_RELEASE'', ''MIGRATE_SELECT'', ''WAIT_RESUME'', ''WAIT_RECHECK'']"

definition BROKEN_ORDER :: "string list" where
  "BROKEN_ORDER =
     [''PRODUCER_ARMED'', ''WAIT_CHECK'', ''WAIT_RELEASED'', ''PRODUCER_ATTEMPT'', ''PRODUCER_ACQUIRE'',
      ''PRODUCER_READY'', ''WAKE_MISS'', ''WAKE_DONE'', ''WAIT_PUBLISH'', ''BAD_ORACLE'', ''RESCUE_BEGIN'',
      ''RESCUE_MATCH'', ''RESCUE_DONE'', ''ORIGIN_SKIP'', ''MIGRATE_RELEASE'', ''MIGRATE_SELECT'', ''WAIT_RESUME'',
      ''WAIT_RECHECK'']"

definition sync_parse_fields :: "string \<Rightarrow> fval fields" where
  "sync_parse_fields line = parse_pairs (\<lambda>_. read_value) line"

definition sync_marker_lines :: "string \<Rightarrow> string \<Rightarrow> string list" where
  "sync_marker_lines output prefix = lines_with output prefix"

definition event_map :: "fval fields list \<Rightarrow> (fval, fval fields) dict result" where
  "event_map events = index_by ''kind'' events"

record sync_run =
  sr_lines :: "string list"
  sr_events :: "fval fields list"
  sr_final :: "fval fields"
  sr_final_line :: string
  sr_clean_line :: string
  sr_pass_line :: string

text \<open>\<open>d.get(key, 0) >= bound\<close>\<close>

definition get_ge :: "fval fields \<Rightarrow> string \<Rightarrow> int \<Rightarrow> bool result" where
  "get_ge d key bound =
     (case map_of d key of None \<Rightarrow> Inr (bound \<le> 0) | Some v \<Rightarrow> bind_res (as_int v) (\<lambda>i. Inr (bound \<le> i)))"

definition sync_validate_common :: "string \<Rightarrow> string \<Rightarrow> string list \<Rightarrow> sync_run result" where
  "sync_validate_common mode output expected_order =
     bind_res (require (\<not> contains output ''SYNC FAIL'') (''guest rejected '' @ mode @ '' scenario'')) (\<lambda>_.
     let event_lines = sync_marker_lines output ''SYNC EVENT '';
         events = map sync_parse_fields event_lines;
         generations = map (\<lambda>event. map_of event ''gen'') events
     in
     bind_res (requires
       [(map (\<lambda>event. map_of event ''kind'') events = map (Some \<circ> FStr) expected_order, mode @ '' event order changed''),
        (map (\<lambda>event. map_of event ''seq'') events = map (Some \<circ> FInt \<circ> int) [0..<length events],
           mode @ '' event sequence is not contiguous''),
        (length (remdups generations) = 1, mode @ '' mixed generations''),
        (list_all (\<lambda>event. map_of event ''mode'' = Some (FStr mode)) events, mode @ '' event label mismatch'')]) (\<lambda>_.
     let final_lines = sync_marker_lines output ''SYNC FINAL '';
         clean_lines = sync_marker_lines output ''SYNC CLEAN '';
         pass_lines = sync_marker_lines output ''SYNC PASS ''
     in
     bind_res (require (length final_lines = length clean_lines \<and> length clean_lines = length pass_lines \<and>
         length pass_lines = 1) (mode @ '' final/clean/pass marker count changed'')) (\<lambda>_.
     let final = sync_parse_fields (final_lines ! 0);
         clean = sync_parse_fields (clean_lines ! 0)
     in
     bind_res (checks
       [([get_is final ''mode'' (FStr mode), get_is clean ''mode'' (FStr mode)], mode @ '' summary label changed''),
        ([Inr (map_of final ''gen'' \<in> set generations), Inr (map_of clean ''gen'' \<in> set generations)],
           mode @ '' summary generation changed''),
        ([gets_eq final ''used_before'' final ''used_after'', get_ge final ''used_before'' 3],
           mode @ '' process ledger did not recover''),
        ([get_is final ''target'' (FInt 0), get_is final ''ready'' (FInt 1), get_is final ''cond'' (FInt 0),
          get_is final ''migrated'' (FInt 1)], mode @ '' final state/lock/migration relation failed''),
        ([Inr (map_of final ''origin'' \<in> {Some (FInt 0), Some (FInt 1)}),
          Inr (map_of final ''resume'' \<in> {Some (FInt 0), Some (FInt 1)}),
          Inr (map_of final ''origin'' \<noteq> map_of final ''resume'')], mode @ '' did not resume on the other hart''),
        ([get_is final ''events'' (FInt (int (length events)))], mode @ '' trace count changed'')]) (\<lambda>_.
     bind_res (checks (map (\<lambda>key. ([get_is clean key (FInt 0)], mode @ '' cleanup retained ''))
       [''active'', ''target'', ''ready'', ''cond'', ''trace'', ''gates''])) (\<lambda>_.
     bind_res (check [gets_eq clean ''used'' clean ''baseline'', gets_eq clean ''baseline'' final ''used_before'']
       (mode @ '' cleanup process ledger changed'')) (\<lambda>_.
     Inr \<lparr>sr_lines = event_lines, sr_events = events, sr_final = final, sr_final_line = final_lines ! 0,
       sr_clean_line = clean_lines ! 0, sr_pass_line = pass_lines ! 0\<rparr>))))))"

definition event_at :: "(fval, fval fields) dict \<Rightarrow> string \<Rightarrow> fval fields result" where
  "event_at by_kind kind = dget by_kind (FStr kind)"

definition validate_fixed :: "string \<Rightarrow> sync_run result" where
  "validate_fixed output =
     bind_res (sync_validate_common ''fixed'' output FIXED_ORDER) (\<lambda>run.
     let final = sr_final run in
     bind_res (event_map (sr_events run)) (\<lambda>by_kind.
     bind_res (event_at by_kind ''WAIT_CHECK'') (\<lambda>chk.
     bind_res (event_at by_kind ''WAIT_PLOCK'') (\<lambda>plock.
     bind_res (event_at by_kind ''PRODUCER_ATTEMPT'') (\<lambda>attempt.
     bind_res (event_at by_kind ''WAIT_RELEASE_BOUNDARY'') (\<lambda>released.
     bind_res (event_at by_kind ''PRODUCER_ACQUIRE'') (\<lambda>acquired.
     bind_res (event_at by_kind ''WAIT_PUBLISH'') (\<lambda>published.
     bind_res (event_at by_kind ''PRODUCER_READY'') (\<lambda>ready.
     bind_res (event_at by_kind ''WAKE_MATCH'') (\<lambda>match.
     bind_res (event_at by_kind ''ORIGIN_SKIP'') (\<lambda>skipped.
     bind_res (event_at by_kind ''MIGRATE_SELECT'') (\<lambda>selected.
     bind_res (event_at by_kind ''WAIT_RESUME'') (\<lambda>resumed.
     bind_res (event_at by_kind ''WAIT_RECHECK'') (\<lambda>recheck.
     bind_res (checks
       [([item_is chk ''state'' (FInt 4), item_is chk ''ready'' (FInt 0), item_is chk ''cond'' (FInt 1),
          items_eq chk ''cond_owner'' chk ''hart'', item_is chk ''noff'' (FInt 1)],
         ''fixed waiter did not check under the condition lock''),
        ([items_eq plock ''cond_owner'' plock ''hart'', items_eq plock ''hart'' plock ''proc_owner'',
          item_is plock ''plock'' (FInt 1), item_is plock ''noff'' (FInt 2)],
         ''fixed waiter did not hold lk and p->lock together''),
        ([items_ne attempt ''hart'' plock ''hart'', items_eq attempt ''cond_owner'' plock ''hart''],
         ''fixed producer was not blocked behind waiter condition ownership''),
        ([items_eq released ''proc_owner'' plock ''hart'', items_eq released ''cond_owner'' plock ''hart'',
          item_is released ''cond'' (FInt 1)],
         ''fixed release boundary lost waiter ownership before release''),
        ([items_eq acquired ''hart'' acquired ''cond_owner'', items_eq acquired ''cond_owner'' attempt ''hart'',
          item_is acquired ''noff'' (FInt 2)],
         ''fixed producer condition-lock acquisition is inconsistent''),
        ([item_is published ''state'' (FInt 2), item_is published ''chan'' (FInt 1),
          item_is published ''ready'' (FInt 0), items_eq published ''proc_owner'' plock ''hart''],
         ''fixed waiter did not publish SLEEPING before predicate update''),
        ([item_is ready ''ready'' (FInt 1), items_eq ready ''cond_owner'' attempt ''hart''],
         ''fixed producer did not update predicate under lk''),
        ([item_is match ''state'' (FInt 2), item_is match ''chan'' (FInt 1),
          items_eq match ''proc_owner'' match ''hart'', items_eq match ''hart'' attempt ''hart''],
         ''fixed wakeup did not match under target p->lock''),
        ([item_is skipped ''state'' (FInt 3), items_eq skipped ''hart'' final ''origin''],
         ''fixed origin scheduler did not skip RUNNABLE target''),
        ([item_is selected ''state'' (FInt 3), items_eq selected ''hart'' final ''resume''],
         ''fixed other hart did not select RUNNABLE target''),
        ([item_is resumed ''state'' (FInt 4), item_is resumed ''chan'' (FInt 1),
          items_eq resumed ''hart'' resumed ''proc_owner'', items_eq resumed ''proc_owner'' final ''resume''],
         ''fixed waiter resume ownership changed''),
        ([item_is recheck ''ready'' (FInt 1), item_is recheck ''chan'' (FInt 0),
          items_eq recheck ''cond_owner'' recheck ''hart''],
         ''fixed waiter did not clear channel and recheck under lk''),
        ([item_is final ''miss'' (FInt 0), item_is final ''match'' (FInt 1), item_is final ''rescue'' (FInt 0)],
         ''fixed wake accounting changed''),
        ([Inr (sync_marker_lines output ''SYNC BADSTATE '' = [])],
         ''fixed scenario unexpectedly reported a bad state'')]) (\<lambda>_.
     Inr run)))))))))))))))"

definition validate_broken :: "string \<Rightarrow> (sync_run \<times> string) result" where
  "validate_broken output =
     bind_res (sync_validate_common ''broken'' output BROKEN_ORDER) (\<lambda>run.
     let final = sr_final run in
     bind_res (event_map (sr_events run)) (\<lambda>by_kind.
     bind_res (event_at by_kind ''WAIT_RELEASED'') (\<lambda>released.
     bind_res (event_at by_kind ''WAKE_MISS'') (\<lambda>miss.
     bind_res (event_at by_kind ''WAKE_DONE'') (\<lambda>wake_done.
     bind_res (event_at by_kind ''WAIT_PUBLISH'') (\<lambda>published.
     bind_res (event_at by_kind ''BAD_ORACLE'') (\<lambda>bad_oracle.
     bind_res (event_at by_kind ''RESCUE_MATCH'') (\<lambda>rescue.
     bind_res (event_at by_kind ''MIGRATE_SELECT'') (\<lambda>selected.
     bind_res (event_at by_kind ''WAIT_RESUME'') (\<lambda>resumed.
     bind_res (checks
       [([item_is released ''cond'' (FInt 0), item_is released ''plock'' (FInt 0), item_is released ''intr'' (FInt 0),
          item_is released ''noff'' (FInt 1)],
         ''broken window did not release lk while pinning its hart''),
        ([item_is miss ''state'' (FInt 4), item_is miss ''ready'' (FInt 1), item_is miss ''chan'' (FInt 0),
          items_eq miss ''proc_owner'' miss ''hart''],
         ''broken wake did not scan the still-RUNNING target''),
        ([items_less wake_done ''seq'' published ''seq'', item_is published ''state'' (FInt 2),
          item_is published ''ready'' (FInt 1), item_is published ''chan'' (FInt 1)],
         ''broken waiter did not publish only after the wake completed''),
        ([item_is bad_oracle ''state'' (FInt 2), item_is bad_oracle ''ready'' (FInt 1),
          item_is bad_oracle ''chan'' (FInt 1)],
         ''broken active bad-state oracle changed'')]) (\<lambda>_.
     let bad_lines = sync_marker_lines output ''SYNC BADSTATE '' in
     bind_res (require (length bad_lines = 1) ''broken bad-state marker count changed'') (\<lambda>_.
     let bad = sync_parse_fields (bad_lines ! 0) in
     bind_res (checks
       [([get_is bad ''ready'' (FInt 1), get_is bad ''state'' (FInt 2), get_is bad ''chan'' (FInt 1),
          get_is bad ''miss'' (FInt 1), get_is bad ''killed'' (FInt 0)],
         ''broken snapshot is not ready=1/SLEEPING/expected-chan/wake-miss''),
        ([item_is rescue ''state'' (FInt 2), item_is rescue ''chan'' (FInt 1)],
         ''rescue did not target the recorded sleeper''),
        ([items_eq selected ''hart'' final ''resume'', items_ne final ''resume'' final ''origin'',
          items_eq resumed ''hart'' final ''resume''],
         ''broken cleanup did not restore on the other hart''),
        ([item_is final ''miss'' (FInt 1), item_is final ''match'' (FInt 0), item_is final ''rescue'' (FInt 1)],
         ''broken wake/rescue accounting changed'')]) (\<lambda>_.
     Inr (run, bad_lines ! 0))))))))))))))"

definition sync_validate_regression :: "string \<Rightarrow> unit result" where
  "sync_validate_regression transcript =
     requires
       [(count_sub ''ALL TESTS PASSED'' transcript = 1, ''regression marker count changed''),
        (\<not> contains transcript ''SOME TESTS FAILED'', ''regression reported failure''),
        (\<not> contains transcript ''SYNC '', ''syncproject marker leaked into regression'')]"

text \<open>
  The four runs of the trace program.  The emulator is an argument: from the transcripts so far and
  the command it produces the next transcript, or the watchdog raises.
\<close>

definition case_step ::
  "(string list \<Rightarrow> string \<Rightarrow> string result) \<Rightarrow> string list \<times> fval list \<times> sync_run list \<Rightarrow> string \<Rightarrow>
     (string list \<times> fval list \<times> sync_run list) result" where
  "case_step qemu st mode =
     (case st of (history, generations, runs) \<Rightarrow>
     bind_res (qemu history (''schedtrace '' @ mode)) (\<lambda>transcript.
     bind_res (if mode = ''fixed'' then validate_fixed transcript
               else bind_res (validate_broken transcript) (\<lambda>(run, bad). Inr run)) (\<lambda>run.
     bind_res (dget (sr_final run) ''gen'') (\<lambda>generation.
       Inr (history @ [transcript], generations @ [generation], runs @ [run])))))"

definition run_cases :: "(string list \<Rightarrow> string \<Rightarrow> string result) \<Rightarrow> string list \<Rightarrow> sync_run list result" where
  "run_cases qemu history =
     bind_res (fold_res (case_step qemu) (history, [], []) [''fixed'', ''broken'', ''fixed'', ''broken''])
       (\<lambda>(history, generations, runs).
     bind_res (as_int (generations ! 0)) (\<lambda>first.
     bind_res (require (generations = map FInt [first..first + 3]) ''generation/reset sequence changed'') (\<lambda>_.
       Inr runs)))"

end
