(* ===== verification/Transcript.thy ===== *)
theory Transcript
  imports LabFields
begin

text \<open>
  Transcripts given as the words of their lines.  The searching and splitting operations of the
  runners on such a text reduce to operations on its words.
\<close>

definition text_of :: "string list list \<Rightarrow> string" where
  "text_of wss = unlines (map render_line wss)"

definition plain_lines :: "string list list \<Rightarrow> bool" where
  "plain_lines wss \<longleftrightarrow> list_all (\<lambda>ws. ws \<noteq> [] \<and> list_all plain_word ws) wss"

definition accepted :: "'a result \<Rightarrow> bool" where
  "accepted r = (case r of Inl _ \<Rightarrow> False | Inr _ \<Rightarrow> True)"

lemma accepted_iff: "accepted r \<longleftrightarrow> (\<exists>x. r = Inr x)"
  by (auto simp: accepted_def split: sum.splits)

section \<open>Lines and words\<close>

lemma splitlines_text:
  assumes "plain_lines wss"
  shows "splitlines (remove_cr (text_of wss)) = map render_line wss"
    and "splitlines (text_of wss) = map render_line wss"
proof -
  have "\<forall>l \<in> set (map render_line wss). list_all (\<lambda>c. \<not> is_line_sep c) l"
    using assms by (auto simp: plain_lines_def list_all_iff render_line_no_sep [unfolded list_all_iff])
  moreover from this have "splitlines (text_of wss) = map render_line wss"
    using splitlines_unlines [of "map render_line wss" "[]"]
    by (simp add: text_of_def unlines_def splitlines_def list_all_iff)
  ultimately show "splitlines (remove_cr (text_of wss)) = map render_line wss"
    and "splitlines (text_of wss) = map render_line wss"
    unfolding text_of_def by (simp_all only: unlines_lines)
qed

lemma render_line_append:
  "ps \<noteq> [] \<Longrightarrow> qs \<noteq> [] \<Longrightarrow> render_line (ps @ qs) = render_line ps @ '' '' @ render_line qs"
  unfolding render_line_def
proof (induction "'' '' :: string" ps rule: py_join.induct)
  case (2 w)
  then show ?case by (cases qs) simp_all
qed simp_all

lemma render_line_simps [simp]:
  "render_line [w] = w" "render_line (w # v # ws) = w @ '' '' @ render_line (v # ws)"
  by (simp_all add: render_line_def)

lemma render_line_ends:
  assumes "ws \<noteq> []" and "list_all plain_word ws"
  shows "render_line ws \<noteq> [] \<and> \<not> is_space (hd (render_line ws)) \<and> \<not> is_space (last (render_line ws))"
  using assms
proof (induction ws rule: induct_list012)
  case (2 w)
  then show ?case by (auto simp: plain_word_def list_all_iff)
next
  case (3 w v ws)
  then show ?case by (auto simp: plain_word_def list_all_iff)
qed simp

lemma strip_ends: "s \<noteq> [] \<Longrightarrow> \<not> p (hd s) \<Longrightarrow> \<not> p (last s) \<Longrightarrow> strip_chars p s = s"
proof -
  assume "s \<noteq> []" "\<not> p (hd s)" "\<not> p (last s)"
  then have "dropWhile p s = s" and "dropWhile p (rev s) = rev s" by (simp_all only: dropWhile_eq_self_iff hd_rev)  simp_all
  then show ?thesis by (simp add: strip_chars_def)
qed

lemma strip_render_line: "ws \<noteq> [] \<Longrightarrow> list_all plain_word ws \<Longrightarrow> strip_chars is_space (render_line ws) = render_line ws"
  using render_line_ends [of ws] by (intro strip_ends) auto

lemma words_from_blank: "words_from w ('' '' @ s) = (if w = [] then [] else [w]) @ words_from [] s"
  by (simp add: is_space_def)

lemma split_ws_append: "split_ws (a @ '' '' @ s) = split_ws a @ split_ws s"
proof -
  have "words_from cur (a @ '' '' @ s) = words_from cur a @ words_from [] s" for cur
    by (induction cur a rule: words_from.induct) (simp_all add: is_space_def)
  then show ?thesis by (simp add: split_ws_def)
qed

lemma starts_render_line:
  assumes "list_all plain_word ws" and "ws \<noteq> []" and "list_all plain_word ps" and "ps \<noteq> []"
  shows "starts_with (render_line ws) (render_line ps @ '' '') \<longleftrightarrow> length ps < length ws \<and> take (length ps) ws = ps"
proof
  assume "starts_with (render_line ws) (render_line ps @ '' '')"
  then obtain r where r: "render_line ws = render_line ps @ '' '' @ r" by (auto simp: starts_with_iff)
  have "split_ws (render_line ws) = split_ws (render_line ps) @ split_ws r"
    unfolding r by (rule split_ws_append)
  then have split: "ws = ps @ split_ws r" using assms by (simp add: render_line_words)
  have "split_ws r \<noteq> []"
  proof
    assume "split_ws r = []"
    then have "render_line ws = render_line ps" using split by simp
    with r show False by simp
  qed
  then show "length ps < length ws \<and> take (length ps) ws = ps" by (subst (1 2) split) simp
next
  assume "length ps < length ws \<and> take (length ps) ws = ps"
  then have "ws = ps @ drop (length ps) ws" by (metis append_take_drop_id)
  moreover have "drop (length ps) ws \<noteq> []" using \<open>length ps < length ws \<and> take (length ps) ws = ps\<close> by simp
  ultimately have "render_line ws = render_line ps @ '' '' @ render_line (drop (length ps) ws)"
    using assms(4) by (metis render_line_append)
  then show "starts_with (render_line ws) (render_line ps @ '' '')" by (auto simp: starts_with_iff)
qed

definition led_by :: "string list \<Rightarrow> string list \<Rightarrow> bool" where
  "led_by ps ws \<longleftrightarrow> length ps < length ws \<and> take (length ps) ws = ps"

lemma lines_with_text:
  assumes "plain_lines wss" and "list_all plain_word ps" and "ps \<noteq> []"
  shows "lines_with (text_of wss) (render_line ps @ '' '') = map render_line (filter (led_by ps) wss)"
proof -
  have "starts_with (render_line ws) (render_line ps @ '' '') \<longleftrightarrow> led_by ps ws" if "ws \<in> set wss" for ws
    using assms that starts_render_line [of ws ps] by (auto simp: plain_lines_def list_all_iff led_by_def)
  moreover have "strip_chars is_space (render_line ws) = render_line ws" if "ws \<in> set wss" for ws
    using assms that strip_render_line [of ws] by (auto simp: plain_lines_def list_all_iff)
  ultimately show ?thesis unfolding lines_with_def splitlines_text(2) [OF assms(1)]
    by (simp add: filter_map o_def cong: filter_cong)
qed

section \<open>Pairs\<close>

lemma key_not_space: "is_key_char c \<Longrightarrow> \<not> is_space c"
  by (auto simp: is_key_char_def is_space_def)

lemma find_pairs_blank: "find_pairs ('' '' @ s) = find_pairs s"
  by (simp add: is_key_char_def)

lemma find_pairs_append: "find_pairs (a @ '' '' @ b) = find_pairs a @ find_pairs b"
proof (induction a rule: find_pairs.induct)
  case 1
  then show ?case by (simp add: is_key_char_def)
next
  case (2 c cs)
  have blank: "is_space CHR '' ''" "\<not> is_key_char CHR '' ''" by (simp_all add: is_space_def is_key_char_def)
  show ?case
  proof (cases "is_key_char c")
    case False
    then show ?thesis using "2.IH"(3) by simp
  next
    case True
    show ?thesis
    proof (cases "dropWhile is_key_char cs")
      case Nil
      then have "\<forall>x \<in> set cs. is_key_char x" by (simp add: dropWhile_eq_Nil_conv)
      then have "dropWhile is_key_char (cs @ '' '' @ b) = '' '' @ b" using blank by simp
      then show ?thesis using True Nil by (simp add: Let_def blank del: dropWhile_eq_Nil_conv)
    next
      case (Cons e raw)
      have ex: "\<exists>x \<in> set cs. \<not> is_key_char x" using Cons by (metis dropWhile_eq_Nil_conv list.distinct(1))
      have t: "takeWhile is_key_char (cs @ '' '' @ b) = takeWhile is_key_char cs" using ex by (auto intro: takeWhile_append1)
      have d: "dropWhile is_key_char (cs @ '' '' @ b) = e # raw @ '' '' @ b" using ex Cons by (auto simp: dropWhile_append1)
      have tv: "takeWhile (\<lambda>x. \<not> is_space x) (raw @ '' '' @ b) = takeWhile (\<lambda>x. \<not> is_space x) raw"
        using blank by (induction raw) simp_all
      have dv: "dropWhile (\<lambda>x. \<not> is_space x) (raw @ '' '' @ b) = dropWhile (\<lambda>x. \<not> is_space x) raw @ '' '' @ b"
        using blank by (induction raw) simp_all
      show ?thesis
      proof (cases "e = CHR ''='' \<and> takeWhile (\<lambda>x. \<not> is_space x) raw \<noteq> []")
        case take: True
        have "find_pairs (dropWhile (\<lambda>x. \<not> is_space x) raw @ '' '' @ b) =
            find_pairs (dropWhile (\<lambda>x. \<not> is_space x) raw) @ find_pairs b"
          using "2.IH"(1) [OF True refl refl _ refl] True Cons take by simp
        then show ?thesis using True Cons take t d tv dv by simp
      next
        case False
        have "find_pairs (raw @ '' '' @ b) = find_pairs raw @ find_pairs b"
          using "2.IH"(2) [OF True refl refl _ refl] True Cons False by simp
        then show ?thesis using True Cons False t d tv dv by (auto simp: Let_def)
      qed
    qed
  qed
qed

lemma find_pairs_render_line: "find_pairs (render_line ws) = concat (map find_pairs ws)"
  by (induction ws rule: induct_list012) (simp_all add: render_line_def find_pairs_append [simplified])

text \<open>A token without an equality sign holds no pair; a rendered token holds exactly one.\<close>

lemma find_pairs_none: "CHR ''='' \<notin> set w \<Longrightarrow> find_pairs w = []"
proof (induction w rule: find_pairs.induct)
  case (2 c cs)
  show ?case
  proof (cases "is_key_char c")
    case True
    show ?thesis
    proof (cases "dropWhile is_key_char cs")
      case Nil
      then show ?thesis using True by (simp del: dropWhile_eq_Nil_conv)
    next
      case (Cons e raw)
      then have "set (e # raw) \<subseteq> set cs" by (metis set_dropWhileD subsetI)
      then have "e \<noteq> CHR ''=''" and "CHR ''='' \<notin> set raw" using "2.prems" by auto
      then have "find_pairs raw = []" using "2.IH"(2) [OF True refl refl _ refl, of e raw] True Cons by simp
      then show ?thesis using True Cons \<open>e \<noteq> CHR ''=''\<close> by simp
    qed
  next
    case False
    then show ?thesis using 2 by simp
  qed
qed simp

lemma find_pairs_token:
  assumes "k \<noteq> []" and "list_all is_key_char k" and "plain_word v"
  shows "find_pairs (render_token k v) = [(k, v)]"
proof -
  obtain c cs where k: "k = c # cs" using assms(1) by (cases k) auto
  have key: "\<forall>x \<in> set cs. is_key_char x" "is_key_char c" using assms(2) by (simp_all add: k list_all_iff)
  have eq: "\<not> is_key_char CHR ''=''" by (simp add: is_key_char_def)
  have val: "takeWhile (\<lambda>x. \<not> is_space x) v = v" "dropWhile (\<lambda>x. \<not> is_space x) v = []" "v \<noteq> []"
    using assms(3) by (simp_all add: plain_word_def list_all_iff takeWhile_eq_all_conv)
  have "takeWhile is_key_char (cs @ CHR ''='' # v) = cs" "dropWhile is_key_char (cs @ CHR ''='' # v) = CHR ''='' # v"
    using key eq by simp_all
  then show ?thesis using key val by (simp add: render_token_def k Let_def del: dropWhile_eq_Nil_conv takeWhile_eq_all_conv)
qed

section \<open>Lines given by their fields\<close>

lemma digit_in_digit_char: "d < 10 \<Longrightarrow> digit_in 10 (digit_char d) = Some (int d) \<and> digit_char d \<noteq> CHR ''_''"
proof -
  assume "d < 10"
  then have "d \<in> {0, 1, 2, 3, 4, 5, 6, 7, 8, 9}" by auto
  then show ?thesis by (auto simp: digit_in_def digit_char_def)
qed

lemma digits_from_append:
  "list_all is_digit s \<Longrightarrow> digits_from 10 a (s @ t) = (case digits_from 10 a s of None \<Rightarrow> None | Some b \<Rightarrow> digits_from 10 b t)"
proof (induction s arbitrary: a)
  case (Cons c s)
  then have "c \<noteq> CHR ''_''" by (auto simp: is_digit_def)
  with Cons show ?case by (auto split: option.splits)
qed simp

lemma digits_show_nat: "digits_value 10 (show_nat n) = Some (int n)"
proof (induction n rule: less_induct)
  case (less n)
  show ?case
  proof (cases "n < 10")
    case True
    then show ?thesis using digit_in_digit_char [of n] by (simp add: show_nat_def show_base.simps digits_value_def)
  next
    case False
    then have split: "show_nat n = show_nat (n div 10) @ [digit_char (n mod 10)]"
      by (simp add: show_nat_def show_base.simps [of 10 n])
    have "digits_value 10 (show_nat (n div 10)) = Some (int (n div 10))" using less False by simp
    then obtain c cs v where c: "show_nat (n div 10) = c # cs" "digit_in 10 c = Some v" "digits_from 10 v cs = Some (int (n div 10))"
      by (auto simp: digits_value_def split: list.splits option.splits)
    have "list_all is_digit cs" using show_nat_digits [of "n div 10"] c(1) by simp
    then have "digits_from 10 v (cs @ [digit_char (n mod 10)]) = Some (int (n div 10) * 10 + int (n mod 10))"
      using c(3) digit_in_digit_char [of "n mod 10"] by (simp add: digits_from_append)
    then show ?thesis unfolding split c(1) using c(2)
      by (simp add: digits_value_def) (metis div_mult_mod_eq of_nat_add of_nat_mult of_nat_numeral)
  qed
qed

lemma show_nat_leading: "take 1 (show_nat n) = ''0'' \<Longrightarrow> n = 0"
proof (induction n rule: less_induct)
  case (less n)
  show ?case
  proof (cases "n < 10")
    case True
    then have "n \<in> {0, 1, 2, 3, 4, 5, 6, 7, 8, 9}" by auto
    then show ?thesis using less.prems by (auto simp: show_nat_def show_base.simps digit_char_def)
  next
    case False
    then have "take 1 (show_nat n) = take 1 (show_nat (n div 10))"
      using show_nat_nonempty [of "n div 10"] by (simp add: show_nat_def show_base.simps [of 10 n] Suc_le_eq)
    then have "n div 10 = 0" using less.IH [of "n div 10"] less.prems False by simp
    with False show ?thesis by simp
  qed
qed

lemma magnitude_show_nat: "magnitude0 (show_nat n) = Some (int n)"
proof -
  have digits: "list_all is_digit (take 2 (show_nat n))"
    using show_nat_digits [of n] set_take_subset [of 2 "show_nat n"] by (auto simp: list_all_iff)
  then have "take 2 (show_nat n) \<notin> {''0x'', ''0X'', ''0o'', ''0O'', ''0b'', ''0B''}"
    by (auto simp: is_digit_def)
  then show ?thesis using digits_show_nat [of n] show_nat_leading [of n] by (simp add: magnitude0_def)
qed

lemma read_show_value: "read_value (show_int i) = FInt i"
proof -
  have no: "take 1 (show_nat n) \<noteq> ''-''" "take 1 (show_nat n) \<noteq> ''+''" for n
    using show_nat_digits [of n] show_nat_nonempty [of n]
    by (cases "show_nat n"; auto simp: is_digit_def)+
  show ?thesis
    by (cases "i < 0") (simp_all add: read_value_def py_int0_def show_int_def magnitude_show_nat no [simplified])
qed

fun show_value :: "fval \<Rightarrow> string" where
  "show_value (FInt i) = show_int i"
| "show_value (FStr s) = s"

definition pair_ok :: "string \<times> fval \<Rightarrow> bool" where
  "pair_ok kv \<longleftrightarrow> fst kv \<noteq> [] \<and> list_all is_key_char (fst kv) \<and>
     (case snd kv of FInt i \<Rightarrow> True | FStr s \<Rightarrow> plain_word s \<and> py_int0 s = None)"

definition line_words :: "string list \<times> fval fields \<Rightarrow> string list" where
  "line_words line = fst line @ map (\<lambda>(k, v). render_token k (show_value v)) (snd line)"

definition line_ok :: "string list \<times> fval fields \<Rightarrow> bool" where
  "line_ok line \<longleftrightarrow> fst line \<noteq> [] \<and> list_all plain_word (fst line) \<and> list_all (\<lambda>w. CHR ''='' \<notin> set w) (fst line) \<and>
     list_all pair_ok (snd line) \<and> dict_ok (snd line)"

lemma show_int_plain: "plain_word (show_int i)"
  using set_show_int [of _ i] by (fastforce simp: plain_word_def list_all_iff is_space_def is_digit_def)

lemma pair_ok_value:
  assumes "pair_ok (k, v)"
  shows "plain_word (show_value v)" and "read_value (show_value v) = v"
    and "find_pairs (render_token k (show_value v)) = [(k, show_value v)]" and "plain_word (render_token k (show_value v))"
proof -
  show v: "plain_word (show_value v)" using assms show_int_plain by (cases v) (auto simp: pair_ok_def)
  show "read_value (show_value v) = v" using assms by (cases v) (simp_all add: read_show_value, simp add: pair_ok_def read_value_def)
  show "find_pairs (render_token k (show_value v)) = [(k, show_value v)]"
    using assms v by (intro find_pairs_token) (auto simp: pair_ok_def)
  show "plain_word (render_token k (show_value v))"
  proof -
    have "\<forall>x \<in> set k. \<not> is_space x" using assms key_not_space by (auto simp: pair_ok_def list_all_iff)
    moreover have "\<not> is_space CHR ''=''" by (simp add: is_space_def)
    ultimately show ?thesis using v by (auto simp: plain_word_def render_token_def list_all_iff)
  qed
qed

lemma line_words_plain: "line_ok line \<Longrightarrow> line_words line \<noteq> [] \<and> list_all plain_word (line_words line)"
  by (auto simp: line_ok_def line_words_def list_all_iff intro: pair_ok_value)

text \<open>Lines for the parsers that split each token at its only equality sign.\<close>

definition token_ok :: "string \<times> fval \<Rightarrow> bool" where
  "token_ok kv \<longleftrightarrow> plain_word (fst kv) \<and> CHR ''='' \<notin> set (fst kv) \<and>
     (case snd kv of FInt _ \<Rightarrow> True | FStr s \<Rightarrow> plain_word s \<and> CHR ''='' \<notin> set s)"

definition tokens_ok :: "string list \<times> fval fields \<Rightarrow> bool" where
  "tokens_ok line \<longleftrightarrow> length (fst line) = 2 \<and> list_all plain_word (fst line) \<and> list_all token_ok (snd line) \<and>
     dict_ok (snd line)"

lemma token_ok_value:
  assumes "token_ok (k, v)"
  shows "plain_word (show_value v)" and "CHR ''='' \<notin> set (show_value v)" and "plain_word (render_token k (show_value v))"
    and "count_list (render_token k (show_value v)) CHR ''='' = 1"
    and "split_once CHR ''='' (render_token k (show_value v)) = (k, show_value v)"
proof -
  show v: "plain_word (show_value v)" using assms show_int_plain by (cases v) (auto simp: token_ok_def)
  show e: "CHR ''='' \<notin> set (show_value v)"
    using assms set_show_int by (cases v) (fastforce simp: token_ok_def is_digit_def)+
  have "\<not> is_space CHR ''=''" by (simp add: is_space_def)
  then show "plain_word (render_token k (show_value v))"
    using assms v by (auto simp: token_ok_def plain_word_def render_token_def list_all_iff)
  show "count_list (render_token k (show_value v)) CHR ''='' = 1"
    using assms e by (simp add: token_ok_def render_token_def)
  show "split_once CHR ''='' (render_token k (show_value v)) = (k, show_value v)"
    using assms split_once_join [of "CHR ''=''" k "show_value v"] by (simp add: token_ok_def render_token_def)
qed

lemma tokens_ok_plain: "tokens_ok line \<Longrightarrow> line_words line \<noteq> [] \<and> list_all plain_word (line_words line)"
  by (auto simp: tokens_ok_def line_words_def list_all_iff intro: token_ok_value)

lemma tokens_ok_words: "tokens_ok line \<Longrightarrow> split_ws (render_line (line_words line)) = line_words line"
  using tokens_ok_plain [of line] by (simp add: render_line_words)

text \<open>A line that starts with a given marker, and the tokens after it.\<close>

lemma marker_words:
  assumes "tokens_ok line" and "fst line = [a, p]"
  shows "plain_word a" and "plain_word p" and "list_all plain_word (map (\<lambda>(k, v). render_token k (show_value v)) (snd line))"
  using assms tokens_ok_plain [of line] by (simp_all add: tokens_ok_def line_words_def)

lemma starts_marker:
  assumes "tokens_ok line" and "fst line = [a, p]" and "plain_word phase"
  shows "starts_with (render_line (line_words line)) (a @ '' '' @ phase @ '' '') \<longleftrightarrow> p = phase \<and> snd line \<noteq> []"
  using starts_render_line [of "line_words line" "[a, phase]"] tokens_ok_plain [OF assms(1)] marker_words [OF assms(1,2)] assms
  by (auto simp: line_words_def)

lemma drop_marker:
  assumes "tokens_ok line" and "fst line = [a, p]" and "snd line \<noteq> []"
  shows "split_ws (drop (length (a @ '' '' @ p @ '' '')) (render_line (line_words line))) =
    map (\<lambda>(k, v). render_token k (show_value v)) (snd line)"
proof -
  let ?ts = "map (\<lambda>(k, v). render_token k (show_value v)) (snd line)"
  have "render_line (line_words line) = (a @ '' '' @ p @ '' '') @ render_line ?ts"
    using render_line_append [of "[a, p]" ?ts] assms(2,3) by (simp add: line_words_def)
  then show ?thesis using marker_words(3) [OF assms(1,2)] by (simp add: render_line_words)
qed

lemma fold_new_entries: "dict_ok (d @ fs) \<Longrightarrow> foldl (\<lambda>d (k, v). dput k v d) d fs = d @ fs"
proof (induction fs arbitrary: d)
  case (Cons a fs)
  obtain k v where a: "a = (k, v)" by (cases a)
  have "k \<notin> set (dkeys d)" using Cons.prems by (auto simp: a dict_ok_def dkeys_def)
  then show ?case using Cons.IH [of "d @ [(k, v)]"] Cons.prems by (simp add: a dput_new)
qed simp

lemma parse_line_words:
  assumes "line_ok line" and "\<And>k v. (k, v) \<in> set (snd line) \<Longrightarrow> read k (show_value v) = v"
  shows "parse_pairs read (render_line (line_words line)) = snd line"
proof -
  have lead: "concat (map find_pairs (fst line)) = []"
    using assms(1) by (auto simp: line_ok_def list_all_iff find_pairs_none)
  have "list_all pair_ok fs \<Longrightarrow> concat (map (find_pairs \<circ> (\<lambda>(k, v). render_token k (show_value v))) fs) =
      map (\<lambda>(k, v). (k, show_value v)) fs" for fs
    by (induction fs) (auto simp: pair_ok_value)
  with assms(1) have pairs: "find_pairs (render_line (line_words line)) = map (\<lambda>(k, v). (k, show_value v)) (snd line)"
    by (simp add: find_pairs_render_line line_words_def lead line_ok_def)
  have "foldl (\<lambda>d (k, v). dput k (read k v) d) [] (map (\<lambda>(k, v). (k, show_value v)) (snd line)) =
      foldl (\<lambda>d (k, v). dput k v d) [] (snd line)"
    unfolding foldl_map using assms(2) by (intro foldl_cong) auto
  then show ?thesis using assms(1) fold_new_entries [of "[]" "snd line"]
    by (simp add: parse_pairs_def pairs line_ok_def)
qed

definition script :: "(string list \<times> fval fields) list \<Rightarrow> string" where
  "script lines = text_of (map line_words lines)"

definition led :: "string list \<Rightarrow> string list \<times> fval fields \<Rightarrow> bool" where
  "led ps line \<longleftrightarrow> fst line = ps \<and> snd line \<noteq> []"

lemma led_by_line_words:
  "length (fst line) = length ps \<Longrightarrow> led_by ps (line_words line) \<longleftrightarrow> led ps line"
  by (auto simp: led_by_def led_def line_words_def)

lemma script_plain: "list_all line_ok lines \<Longrightarrow> plain_lines (map line_words lines)"
  using line_words_plain by (auto simp: plain_lines_def list_all_iff)

lemma splitlines_script:
  assumes "list_all tokens_ok ls"
  shows "splitlines (remove_cr (script ls)) = map (\<lambda>l. render_line (line_words l)) ls"
    and "splitlines (script ls) = map (\<lambda>l. render_line (line_words l)) ls"
proof -
  have "plain_lines (map line_words ls)" using assms tokens_ok_plain by (auto simp: plain_lines_def list_all_iff)
  then show "splitlines (remove_cr (script ls)) = map (\<lambda>l. render_line (line_words l)) ls"
    and "splitlines (script ls) = map (\<lambda>l. render_line (line_words l)) ls"
    by (simp_all add: script_def splitlines_text)
qed

text \<open>A script between the echo of its command and the next prompt.\<close>

definition framed :: "string \<Rightarrow> (string list \<times> fval fields) list \<Rightarrow> string" where
  "framed command ls = command @ ''\<newline>'' @ script ls @ ''$ ''"

lemma splitlines_framed:
  assumes "list_all tokens_ok ls" and "list_all (\<lambda>c. \<not> is_line_sep c) command"
  shows "splitlines (framed command ls) = command # map (\<lambda>l. render_line (line_words l)) ls @ [''$ '']"
proof -
  have "plain_lines (map line_words ls)" using assms tokens_ok_plain by (auto simp: plain_lines_def list_all_iff)
  then have "\<forall>l \<in> set (map (\<lambda>l. render_line (line_words l)) ls). list_all (\<lambda>c. \<not> is_line_sep c) l"
    by (auto simp: plain_lines_def list_all_iff render_line_no_sep [unfolded list_all_iff])
  with assms(2) have "splitlines (concat (map (\<lambda>l. l @ [CHR 0x0A]) (command # map (\<lambda>l. render_line (line_words l)) ls)) @ ''$ '') =
      (command # map (\<lambda>l. render_line (line_words l)) ls) @ splitlines ''$ ''"
    by (intro splitlines_unlines) (auto simp: list_all_iff)
  moreover have "splitlines ''$ '' = [''$ '']" by code_simp
  ultimately show ?thesis by (simp add: framed_def script_def text_of_def unlines_def comp_def)
qed

lemma framed_ends: "starts_with (framed command ls) (command @ ''\<newline>'')" "ends_with (framed command ls) ''$ ''"
  by (simp_all add: framed_def starts_with_def ends_with_def)

lemma lines_with_script:
  assumes "list_all line_ok lines" and "list_all (\<lambda>l. length (fst l) = length ps) lines"
    and "list_all plain_word ps" and "ps \<noteq> []"
  shows "lines_with (script lines) (render_line ps @ '' '') = map (\<lambda>l. render_line (line_words l)) (filter (led ps) lines)"
proof -
  have "filter (led_by ps) (map line_words lines) = map line_words (filter (led ps) lines)"
    using assms(2) by (induction lines) (auto simp: led_by_line_words)
  then show ?thesis
    unfolding script_def using lines_with_text [OF script_plain [OF assms(1)] assms(3,4)] by simp
qed

lemma script_stripped: "list_all line_ok ls \<Longrightarrow> map (strip_chars is_space) (splitlines (script ls)) = splitlines (script ls)"
  using script_plain [of ls]
  by (auto simp: script_def splitlines_text plain_lines_def list_all_iff strip_render_line intro!: map_idI)

text \<open>The common case: every line starts with the name of the laboratory and the kind of the marker.\<close>

definition two_words :: "(string list \<times> fval fields) list \<Rightarrow> bool" where
  "two_words ls \<longleftrightarrow> list_all (\<lambda>l. line_ok l \<and> length (fst l) = 2) ls"

definition marked :: "string \<Rightarrow> string \<Rightarrow> (string list \<times> fval fields) list \<Rightarrow> string list" where
  "marked a b ls = map (\<lambda>l. render_line (line_words l)) (filter (led [a, b]) ls)"

lemma two_words_ok: "two_words ls \<Longrightarrow> list_all line_ok ls"
  by (simp add: two_words_def list_all_iff)

lemma script_two:
  assumes "two_words ls" and "plain_word a" and "plain_word b"
  shows "lines_with (script ls) (a @ '' '' @ b @ '' '') = marked a b ls"
  using assms lines_with_script [of ls "[a, b]"] by (simp add: two_words_def marked_def list_all_iff numeral_2_eq_2)

lemma parse_script_lines:
  assumes "list_all line_ok lines"
  shows "map (parse_pairs (\<lambda>_. read_value)) (map (\<lambda>l. render_line (line_words l)) (filter P lines)) = map snd (filter P lines)"
proof -
  have "parse_pairs (\<lambda>_. read_value) (render_line (line_words l)) = snd l" if "l \<in> set lines" for l
  proof (rule parse_line_words)
    show "line_ok l" using assms that by (simp add: list_all_iff)
    then show "read_value (show_value v) = v" if "(k, v) \<in> set (snd l)" for k v
      using that by (auto simp: line_ok_def list_all_iff intro: pair_ok_value(2))
  qed
  then show ?thesis by simp
qed

lemma parse_marked:
  "two_words ls \<Longrightarrow> map (parse_pairs (\<lambda>_. read_value)) (marked a b ls) = map snd (filter (led [a, b]) ls)"
  using parse_script_lines [OF two_words_ok] by (simp add: marked_def)

lemma length_marked: "length (marked a b ls) = length (filter (led [a, b]) ls)"
  by (simp add: marked_def)

lemma parse_marked_nth:
  assumes "two_words ls" and "i < length (filter (led [a, b]) ls)"
  shows "parse_pairs (\<lambda>_. read_value) (marked a b ls ! i) = snd (filter (led [a, b]) ls ! i)"
proof -
  have "map (parse_pairs (\<lambda>_. read_value)) (marked a b ls) ! i = map snd (filter (led [a, b]) ls) ! i"
    using parse_marked [OF assms(1)] by simp
  then show ?thesis using assms(2) by (simp add: length_marked)
qed

section \<open>Substrings\<close>

lemma starts_with_Cons: "starts_with (c # s) (d # p) \<longleftrightarrow> c = d \<and> starts_with s p" "starts_with s []" "\<not> starts_with [] (d # p)"
  by (auto simp: starts_with_def)

lemma starts_with_append_char: "c \<notin> set p \<Longrightarrow> starts_with (a @ c # b) p \<longleftrightarrow> starts_with a p"
proof (induction p arbitrary: a)
  case (Cons d p)
  then show ?case by (cases a) (auto simp: starts_with_Cons)
qed (simp add: starts_with_Cons)

lemma contains_Cons: "p \<noteq> [] \<Longrightarrow> contains (c # s) p \<longleftrightarrow> starts_with (c # s) p \<or> contains s p" "p \<noteq> [] \<Longrightarrow> \<not> contains [] p"
  by (simp_all add: contains_def)

lemma contains_append_char:
  assumes "c \<notin> set p" and "p \<noteq> []"
  shows "contains (a @ c # b) p \<longleftrightarrow> contains a p \<or> contains b p"
proof (induction a)
  case Nil
  then show ?case using assms starts_with_append_char [of c p "[]" b] by (cases p) (auto simp: contains_Cons starts_with_Cons)
next
  case (Cons d a)
  then show ?case using assms starts_with_append_char [of c p "d # a" b] by (simp add: contains_Cons)
qed

lemma contains_render_line:
  "CHR '' '' \<notin> set p \<Longrightarrow> p \<noteq> [] \<Longrightarrow> contains (render_line ws) p \<longleftrightarrow> (\<exists>w \<in> set ws. contains w p)"
  by (induction ws rule: induct_list012) (auto simp: render_line_def contains_append_char contains_Cons)

lemma contains_text:
  "CHR ''\<newline>'' \<notin> set p \<Longrightarrow> p \<noteq> [] \<Longrightarrow> contains (text_of wss) p \<longleftrightarrow> (\<exists>ws \<in> set wss. contains (render_line ws) p)"
  unfolding text_of_def by (induction wss) (auto simp: unlines_def contains_append_char contains_Cons)

lemma contains_sub: "contains s (a @ p @ b) \<Longrightarrow> contains s p"
  by (auto simp: contains_iff) (metis append_assoc)

text \<open>A text whose words do not contain a word of the pattern does not contain the pattern.\<close>

lemma not_contains_text:
  assumes "CHR '' '' \<notin> set q" and "CHR ''\<newline>'' \<notin> set q" and "q \<noteq> []"
    and "list_all (list_all (\<lambda>w. \<not> contains w q)) wss"
  shows "\<not> contains (text_of wss) (a @ q @ b)"
proof
  assume "contains (text_of wss) (a @ q @ b)"
  then have "contains (text_of wss) q" by (rule contains_sub)
  then show False using assms by (auto simp: contains_text contains_render_line list_all_iff)
qed

lemma count_sub_append_char:
  assumes "c \<notin> set p" and "p \<noteq> []"
  shows "count_sub p (a @ c # b) = count_sub p a + count_sub p b"
proof (induction "length a" arbitrary: a rule: less_induct)
  case less
  note step = count_sub.simps [of p]
  show ?case
  proof (cases "a = []")
    case True
    have "\<not> starts_with (c # b) p" using assms starts_with_append_char [of c p "[]" b] by (cases p) (auto simp: starts_with_Cons)
    then show ?thesis using True assms by (simp add: step [of "c # b"] step [of "[]"])
  next
    case False
    have same: "starts_with (a @ c # b) p \<longleftrightarrow> starts_with a p" using assms by (simp add: starts_with_append_char)
    show ?thesis
    proof (cases "starts_with a p")
      case True
      then have len: "length p \<le> length a" by (metis starts_with_iff length_append le_add1)
      then have "count_sub p (drop (length p) a @ c # b) = count_sub p (drop (length p) a) + count_sub p b"
        using less [of "drop (length p) a"] assms False by (simp add: Suc_leI)
      then show ?thesis using True same False assms len by (simp add: step [of "a @ c # b"] step [of a])
    next
      case miss: False
      have "count_sub p (tl a @ c # b) = count_sub p (tl a) + count_sub p b"
        using less [of "tl a"] False by simp
      then show ?thesis using miss same False assms by (simp add: step [of "a @ c # b"] step [of a])
    qed
  qed
qed

lemma count_sub_Nil: "p \<noteq> [] \<Longrightarrow> count_sub p [] = 0"
  by (simp add: count_sub.simps)

lemma count_text:
  "CHR ''\<newline>'' \<notin> set p \<Longrightarrow> p \<noteq> [] \<Longrightarrow> count_sub p (text_of wss) = sum_list (map (\<lambda>ws. count_sub p (render_line ws)) wss)"
  unfolding text_of_def by (induction wss) (auto simp: unlines_def count_sub_append_char count_sub_Nil)

lemma count_sub_0: "p \<noteq> [] \<Longrightarrow> \<not> contains s p \<Longrightarrow> count_sub p s = 0"
proof (induction s)
  case (Cons c s)
  then show ?case by (simp add: count_sub.simps [of p "c # s"] contains_Cons)
qed (simp add: count_sub_Nil)

lemma contains_show_int: "c \<in> set q \<Longrightarrow> c \<noteq> CHR ''-'' \<Longrightarrow> \<not> is_digit c \<Longrightarrow> \<not> contains (show_int i) q"
  using set_show_int [of c i] by (fastforce simp: contains_iff)

definition quiet :: "string \<Rightarrow> string list \<times> fval fields \<Rightarrow> bool" where
  "quiet q line \<longleftrightarrow> list_all (\<lambda>w. \<not> contains w q) (fst line) \<and>
     list_all (\<lambda>(k, v). \<not> contains k q \<and> (case v of FInt i \<Rightarrow> True | FStr s \<Rightarrow> \<not> contains s q)) (snd line)"

lemma quiet_words:
  assumes "quiet q line" and "CHR ''='' \<notin> set q" and "c \<in> set q" and "c \<noteq> CHR ''-''" and "\<not> is_digit c"
  shows "list_all (\<lambda>w. \<not> contains w q) (line_words line)"
proof -
  have "q \<noteq> []" using assms(3) by auto
  have "\<not> contains (render_token k (show_value v)) q" if "(k, v) \<in> set (snd line)" for k v
    using that assms \<open>q \<noteq> []\<close> contains_show_int [OF assms(3-5)]
    by (cases v) (auto simp: quiet_def list_all_iff render_token_def contains_append_char)
  then show ?thesis using assms(1) by (auto simp: quiet_def line_words_def list_all_iff)
qed

lemma not_contains_script:
  assumes "list_all (quiet q) lines" and "list_all (\<lambda>c. c \<notin> set q) ('' ='' @ [CHR ''\<newline>''])"
    and "c \<in> set q" and "c \<noteq> CHR ''-''" and "\<not> is_digit c"
  shows "\<not> contains (script lines) (a @ q @ b)"
proof -
  have "list_all (list_all (\<lambda>w. \<not> contains w q)) (map line_words lines)"
    using assms quiet_words [of q _ c] by (auto simp: list_all_iff)
  then show ?thesis unfolding script_def using assms(2,3) by (intro not_contains_text) auto
qed

lemma count_line_quiet:
  assumes "quiet q line" and "list_all (\<lambda>c. c \<notin> set q) ('' ='' @ [CHR ''\<newline>''])"
    and "c \<in> set q" and "c \<noteq> CHR ''-''" and "\<not> is_digit c"
  shows "count_sub (a @ q @ b) (render_line (line_words line)) = 0"
proof (rule count_sub_0)
  show "a @ q @ b \<noteq> []" using assms(3) by auto
  have "q \<noteq> []" using assms(3) by auto
  then have "\<not> contains (render_line (line_words line)) q"
    using quiet_words [OF assms(1) _ assms(3-5)] assms(2) by (auto simp: contains_render_line list_all_iff)
  then show "\<not> contains (render_line (line_words line)) (a @ q @ b)" using contains_sub by blast
qed

text \<open>A marker that occurs on one line of a transcript is counted there only.\<close>

lemma count_script_once:
  assumes "list_all (quiet q) ls" and "list_all (\<lambda>c. c \<notin> set q) ('' ='' @ [CHR ''\<newline>''])"
    and "c \<in> set q" and "c \<noteq> CHR ''-''" and "\<not> is_digit c" and "CHR ''\<newline>'' \<notin> set (a @ q @ b)"
  shows "count_sub (a @ q @ b) (script (ls @ [l])) = count_sub (a @ q @ b) (render_line (line_words l))"
proof -
  have "a @ q @ b \<noteq> []" using assms(3) by auto
  then have "count_sub (a @ q @ b) (script (ls @ [l])) =
      sum_list (map (\<lambda>l. count_sub (a @ q @ b) (render_line (line_words l))) (ls @ [l]))"
    unfolding script_def using assms(6) by (subst count_text) (auto simp: o_def)
  moreover have "sum_list (map (\<lambda>l. count_sub (a @ q @ b) (render_line (line_words l))) ls) = 0"
    using assms(1) by (induction ls) (simp_all add: count_line_quiet [OF _ assms(2-5)])
  ultimately show ?thesis by simp
qed

lemma script_append: "script (ls @ ks) = script ls @ script ks"
  by (simp add: script_def text_of_def unlines_def)

end
