(* ===== verification/SyncProps.thy ===== *)
theory SyncProps
  imports Sync Transcript
begin

text \<open>
  What an accepted scheduling transcript shows: in the fixed protocol the wakeup finds the sleeping
  waiter, in the broken one it is lost; and the four runs alternate with consecutive generations.
\<close>

section \<open>The two protocols\<close>

text \<open>
  Kernel process states are numbered as in \<open>kernel/proc.h\<close>: 2 is \<open>SLEEPING\<close> and 4 is \<open>RUNNING\<close>.
  A wakeup is delivered when the waiter is published as sleeping on its channel, with the condition
  still false, before the producer sets the condition, and the scan after that finds the sleeper.
  It is lost when the producer sets the condition and scans a waiter that still runs, and the waiter
  goes to sleep afterwards although the condition holds.
\<close>

definition wakeup_delivered :: "fval fields list \<Rightarrow> bool" where
  "wakeup_delivered events \<longleftrightarrow>
     (\<exists>i j k. i < j \<and> j < k \<and> k < length events \<and>
        has (events ! i) [(''kind'', FStr ''WAIT_PUBLISH''), (''state'', FInt 2), (''chan'', FInt 1), (''ready'', FInt 0)] \<and>
        has (events ! j) [(''kind'', FStr ''PRODUCER_READY''), (''ready'', FInt 1)] \<and>
        has (events ! k) [(''kind'', FStr ''WAKE_MATCH''), (''state'', FInt 2), (''chan'', FInt 1)])"

definition wakeup_lost :: "fval fields list \<Rightarrow> bool" where
  "wakeup_lost events \<longleftrightarrow>
     (\<exists>i j k. i < j \<and> j < k \<and> k < length events \<and>
        has (events ! i) [(''kind'', FStr ''PRODUCER_READY'')] \<and>
        has (events ! j) [(''kind'', FStr ''WAKE_MISS''), (''state'', FInt 4), (''ready'', FInt 1), (''chan'', FInt 0)] \<and>
        has (events ! k) [(''kind'', FStr ''WAIT_PUBLISH''), (''state'', FInt 2), (''ready'', FInt 1), (''chan'', FInt 1)])"

text \<open>
  Two harts hand the condition lock over: the waiter owns it when it takes its process lock, when the
  producer tries to acquire it and up to the release; the producer owns it from its acquisition to
  the update of the condition.
\<close>

definition lock_handover :: "fval fields list \<Rightarrow> bool" where
  "lock_handover events \<longleftrightarrow>
     (\<exists>waiter producer. waiter \<noteq> producer \<and>
        has (events ! 2) [(''kind'', FStr ''WAIT_PLOCK''), (''hart'', waiter), (''cond_owner'', waiter), (''proc_owner'', waiter)] \<and>
        has (events ! 3) [(''kind'', FStr ''PRODUCER_ATTEMPT''), (''hart'', producer), (''cond_owner'', waiter)] \<and>
        has (events ! 4) [(''kind'', FStr ''WAIT_RELEASE_BOUNDARY''), (''cond_owner'', waiter), (''proc_owner'', waiter)] \<and>
        has (events ! 5) [(''kind'', FStr ''PRODUCER_ACQUIRE''), (''hart'', producer), (''cond_owner'', producer)] \<and>
        has (events ! 7) [(''kind'', FStr ''PRODUCER_READY''), (''cond_owner'', producer)])"

section \<open>Events of an accepted transcript\<close>

lemma common_kinds:
  assumes "sync_validate_common mode output order = Inr run"
  shows "map (\<lambda>e. map_of e ''kind'') (sr_events run) = map (Some \<circ> FStr) order"
  using assms unfolding sync_validate_common_def Let_def
  by (elim bind_res_InrE) (auto simp: result_simps)

lemma common_events:
  assumes "sync_validate_common mode output order = Inr run"
  shows "sr_events run = map sync_parse_fields (sync_marker_lines output ''SYNC EVENT '')"
  using assms unfolding sync_validate_common_def Let_def
  by (elim bind_res_InrE) auto

lemma kind_nth:
  assumes "map (\<lambda>e. map_of e ''kind'') events = map (Some \<circ> FStr) order"
  shows "length events = length order"
    and "i < length order \<Longrightarrow> map_of (events ! i) ''kind'' = Some (FStr (order ! i))"
  using assms by (metis length_map, metis (no_types, lifting) assms length_map nth_map o_apply)

lemma event_at_nth:
  assumes "event_map events = Inr by_kind" and "map (\<lambda>e. map_of e ''kind'') events = map (Some \<circ> FStr) order"
    and "distinct order" and "i < length order"
  shows "event_at by_kind (order ! i) = Inr (events ! i)"
proof -
  have "map_of by_kind = map_of (zip (map FStr order) events)"
    using assms(1-3) by (intro index_by_lookup [where key = "''kind''"]) (auto simp: event_map_def distinct_map inj_on_def)
  moreover have "length events = length order" using assms(2) by (metis length_map)
  ultimately have "map_of by_kind (FStr (order ! i)) = Some (events ! i)"
    using map_of_zip_nth [of "map FStr order" events i] assms(3,4) by (simp add: distinct_map inj_on_def)
  then show ?thesis by (simp add: event_at_def dget_def)
qed

lemma distinct_orders: "distinct FIXED_ORDER" "distinct BROKEN_ORDER"
  by code_simp+

lemma order_lengths: "length FIXED_ORDER = 15" "length BROKEN_ORDER = 18"
  by code_simp+

lemma fixed_positions:
  "FIXED_ORDER ! 1 = ''WAIT_CHECK''" "FIXED_ORDER ! 2 = ''WAIT_PLOCK''" "FIXED_ORDER ! 3 = ''PRODUCER_ATTEMPT''"
  "FIXED_ORDER ! 4 = ''WAIT_RELEASE_BOUNDARY''" "FIXED_ORDER ! 5 = ''PRODUCER_ACQUIRE''"
  "FIXED_ORDER ! 6 = ''WAIT_PUBLISH''" "FIXED_ORDER ! 7 = ''PRODUCER_READY''" "FIXED_ORDER ! 8 = ''WAKE_MATCH''"
  by (simp_all add: FIXED_ORDER_def)

lemma broken_positions:
  "BROKEN_ORDER ! 5 = ''PRODUCER_READY''" "BROKEN_ORDER ! 6 = ''WAKE_MISS''" "BROKEN_ORDER ! 8 = ''WAIT_PUBLISH''"
  by (simp_all add: BROKEN_ORDER_def)

lemma kind_absent:
  assumes "map (\<lambda>e. map_of e ''kind'') events = map (Some \<circ> FStr) order" and "k \<notin> set order" and "i < length events"
  shows "map_of (events ! i) ''kind'' \<noteq> Some (FStr k)"
  using assms kind_nth [OF assms(1)] by (metis fval.inject(2) nth_mem option.inject)

lemma fixed_events:
  assumes "validate_fixed output = Inr run"
  shows "lock_handover (sr_events run) \<and> wakeup_delivered (sr_events run)"
proof -
  from assms obtain by_kind where common: "sync_validate_common ''fixed'' output FIXED_ORDER = Inr run"
    and idx: "event_map (sr_events run) = Inr by_kind"
    unfolding validate_fixed_def Let_def by (elim bind_res_InrE) simp
  note kinds = common_kinds [OF common]
  note at = event_at_nth [OF idx kinds distinct_orders(1), unfolded order_lengths]
  note at_all = at [of 1, unfolded fixed_positions] at [of 2, unfolded fixed_positions] at [of 3, unfolded fixed_positions]
    at [of 4, unfolded fixed_positions] at [of 5, unfolded fixed_positions] at [of 6, unfolded fixed_positions]
    at [of 7, unfolded fixed_positions] at [of 8, unfolded fixed_positions]
  note kind = kind_nth(2) [OF kinds, unfolded order_lengths]
  note kind_all = kind [of 2, unfolded fixed_positions] kind [of 3, unfolded fixed_positions]
    kind [of 4, unfolded fixed_positions] kind [of 5, unfolded fixed_positions] kind [of 6, unfolded fixed_positions]
    kind [of 7, unfolded fixed_positions] kind [of 8, unfolded fixed_positions]
  have len: "length (sr_events run) = 15" using kind_nth(1) [OF kinds] by (simp add: order_lengths)
  from assms have facts: "lock_handover (sr_events run) \<and>
      has (sr_events run ! 6) [(''state'', FInt 2), (''chan'', FInt 1), (''ready'', FInt 0)] \<and>
      has (sr_events run ! 7) [(''ready'', FInt 1)] \<and>
      has (sr_events run ! 8) [(''state'', FInt 2), (''chan'', FInt 1)]"
    unfolding validate_fixed_def Let_def common bind_res_Inr idx
    by (elim bind_res_InrE) (auto simp: at_all lab_simps lock_handover_def kind_all)
  then have "wakeup_delivered (sr_events run)"
    unfolding wakeup_delivered_def
    by (intro exI [of _ 6] exI [of _ 7] exI [of _ 8]) (simp add: len kind_all)
  with facts show ?thesis by simp
qed

lemma broken_events:
  assumes "validate_broken output = Inr (run, bad)"
  shows "wakeup_lost (sr_events run)"
proof -
  from assms obtain by_kind where common: "sync_validate_common ''broken'' output BROKEN_ORDER = Inr run"
    and idx: "event_map (sr_events run) = Inr by_kind"
    unfolding validate_broken_def Let_def by (elim bind_res_InrE) simp
  note kinds = common_kinds [OF common]
  note at = event_at_nth [OF idx kinds distinct_orders(2), unfolded order_lengths]
  note kind = kind_nth(2) [OF kinds, unfolded order_lengths]
  have len: "length (sr_events run) = 18" using kind_nth(1) [OF kinds] by (simp add: order_lengths)
  from assms have
    "has (sr_events run ! 6) [(''state'', FInt 4), (''ready'', FInt 1), (''chan'', FInt 0)] \<and>
     has (sr_events run ! 8) [(''state'', FInt 2), (''ready'', FInt 1), (''chan'', FInt 1)]"
    unfolding validate_broken_def Let_def common bind_res_Inr idx
    by (elim bind_res_InrE) (auto simp: at [of 6, unfolded broken_positions] at [of 8, unfolded broken_positions] lab_simps)
  then show ?thesis
    unfolding wakeup_lost_def
    by (intro exI [of _ 5] exI [of _ 6] exI [of _ 8])
      (simp add: len kind [of 5, unfolded broken_positions] kind [of 6, unfolded broken_positions]
        kind [of 8, unfolded broken_positions])
qed

lemma not_lost_in_fixed:
  assumes "sync_validate_common ''fixed'' output FIXED_ORDER = Inr run"
  shows "\<not> wakeup_lost (sr_events run)"
proof -
  have "''WAKE_MISS'' \<notin> set FIXED_ORDER" by code_simp
  with kind_absent [OF common_kinds [OF assms] this] show ?thesis by (fastforce simp: wakeup_lost_def)
qed

lemma not_delivered_in_broken:
  assumes "sync_validate_common ''broken'' output BROKEN_ORDER = Inr run"
  shows "\<not> wakeup_delivered (sr_events run)"
proof -
  have "''WAKE_MATCH'' \<notin> set BROKEN_ORDER" by code_simp
  with kind_absent [OF common_kinds [OF assms] this] show ?thesis by (fastforce simp: wakeup_delivered_def)
qed

section \<open>Concrete transcripts\<close>

definition fixed_demo :: "(string list \<times> fval fields) list" where
  "fixed_demo =
    [([''SYNC'', ''EVENT''], [(''mode'', FStr ''fixed''), (''gen'', FInt 7), (''seq'', FInt 0),
       (''kind'', FStr ''PRODUCER_ARMED'')]),
     ([''SYNC'', ''EVENT''], [(''mode'', FStr ''fixed''), (''gen'', FInt 7), (''seq'', FInt 1),
       (''kind'', FStr ''WAIT_CHECK''), (''state'', FInt 4), (''ready'', FInt 0), (''cond'', FInt 1),
       (''cond_owner'', FInt 0), (''hart'', FInt 0), (''noff'', FInt 1)]),
     ([''SYNC'', ''EVENT''], [(''mode'', FStr ''fixed''), (''gen'', FInt 7), (''seq'', FInt 2),
       (''kind'', FStr ''WAIT_PLOCK''), (''cond_owner'', FInt 0), (''hart'', FInt 0),
       (''proc_owner'', FInt 0), (''plock'', FInt 1), (''noff'', FInt 2)]),
     ([''SYNC'', ''EVENT''], [(''mode'', FStr ''fixed''), (''gen'', FInt 7), (''seq'', FInt 3),
       (''kind'', FStr ''PRODUCER_ATTEMPT''), (''hart'', FInt 1), (''cond_owner'', FInt 0)]),
     ([''SYNC'', ''EVENT''], [(''mode'', FStr ''fixed''), (''gen'', FInt 7), (''seq'', FInt 4),
       (''kind'', FStr ''WAIT_RELEASE_BOUNDARY''), (''proc_owner'', FInt 0), (''cond_owner'', FInt 0),
       (''cond'', FInt 1)]),
     ([''SYNC'', ''EVENT''], [(''mode'', FStr ''fixed''), (''gen'', FInt 7), (''seq'', FInt 5),
       (''kind'', FStr ''PRODUCER_ACQUIRE''), (''hart'', FInt 1), (''cond_owner'', FInt 1),
       (''noff'', FInt 2)]),
     ([''SYNC'', ''EVENT''], [(''mode'', FStr ''fixed''), (''gen'', FInt 7), (''seq'', FInt 6),
       (''kind'', FStr ''WAIT_PUBLISH''), (''state'', FInt 2), (''chan'', FInt 1), (''ready'', FInt 0),
       (''proc_owner'', FInt 0)]),
     ([''SYNC'', ''EVENT''], [(''mode'', FStr ''fixed''), (''gen'', FInt 7), (''seq'', FInt 7),
       (''kind'', FStr ''PRODUCER_READY''), (''ready'', FInt 1), (''cond_owner'', FInt 1)]),
     ([''SYNC'', ''EVENT''], [(''mode'', FStr ''fixed''), (''gen'', FInt 7), (''seq'', FInt 8),
       (''kind'', FStr ''WAKE_MATCH''), (''state'', FInt 2), (''chan'', FInt 1),
       (''proc_owner'', FInt 1), (''hart'', FInt 1)]),
     ([''SYNC'', ''EVENT''], [(''mode'', FStr ''fixed''), (''gen'', FInt 7), (''seq'', FInt 9),
       (''kind'', FStr ''WAKE_DONE'')]),
     ([''SYNC'', ''EVENT''], [(''mode'', FStr ''fixed''), (''gen'', FInt 7), (''seq'', FInt 10),
       (''kind'', FStr ''ORIGIN_SKIP''), (''state'', FInt 3), (''hart'', FInt 0)]),
     ([''SYNC'', ''EVENT''], [(''mode'', FStr ''fixed''), (''gen'', FInt 7), (''seq'', FInt 11),
       (''kind'', FStr ''MIGRATE_RELEASE'')]),
     ([''SYNC'', ''EVENT''], [(''mode'', FStr ''fixed''), (''gen'', FInt 7), (''seq'', FInt 12),
       (''kind'', FStr ''MIGRATE_SELECT''), (''state'', FInt 3), (''hart'', FInt 1)]),
     ([''SYNC'', ''EVENT''], [(''mode'', FStr ''fixed''), (''gen'', FInt 7), (''seq'', FInt 13),
       (''kind'', FStr ''WAIT_RESUME''), (''state'', FInt 4), (''chan'', FInt 1), (''hart'', FInt 1),
       (''proc_owner'', FInt 1)]),
     ([''SYNC'', ''EVENT''], [(''mode'', FStr ''fixed''), (''gen'', FInt 7), (''seq'', FInt 14),
       (''kind'', FStr ''WAIT_RECHECK''), (''ready'', FInt 1), (''chan'', FInt 0),
       (''cond_owner'', FInt 1), (''hart'', FInt 1)]),
     ([''SYNC'', ''FINAL''], [(''mode'', FStr ''fixed''), (''gen'', FInt 7), (''used_before'', FInt 3),
       (''used_after'', FInt 3), (''target'', FInt 0), (''ready'', FInt 1), (''cond'', FInt 0),
       (''migrated'', FInt 1), (''origin'', FInt 0), (''resume'', FInt 1), (''events'', FInt 15),
       (''miss'', FInt 0), (''match'', FInt 1), (''rescue'', FInt 0)]),
     ([''SYNC'', ''CLEAN''], [(''mode'', FStr ''fixed''), (''gen'', FInt 7), (''active'', FInt 0),
       (''target'', FInt 0), (''ready'', FInt 0), (''cond'', FInt 0), (''trace'', FInt 0),
       (''gates'', FInt 0), (''used'', FInt 3), (''baseline'', FInt 3)]),
     ([''SYNC'', ''PASS''], [(''mode'', FStr ''fixed'')])]"

definition broken_demo :: "(string list \<times> fval fields) list" where
  "broken_demo =
    [([''SYNC'', ''EVENT''], [(''mode'', FStr ''broken''), (''gen'', FInt 8), (''seq'', FInt 0),
       (''kind'', FStr ''PRODUCER_ARMED'')]),
     ([''SYNC'', ''EVENT''], [(''mode'', FStr ''broken''), (''gen'', FInt 8), (''seq'', FInt 1),
       (''kind'', FStr ''WAIT_CHECK'')]),
     ([''SYNC'', ''EVENT''], [(''mode'', FStr ''broken''), (''gen'', FInt 8), (''seq'', FInt 2),
       (''kind'', FStr ''WAIT_RELEASED''), (''cond'', FInt 0), (''plock'', FInt 0), (''intr'', FInt 0),
       (''noff'', FInt 1)]),
     ([''SYNC'', ''EVENT''], [(''mode'', FStr ''broken''), (''gen'', FInt 8), (''seq'', FInt 3),
       (''kind'', FStr ''PRODUCER_ATTEMPT'')]),
     ([''SYNC'', ''EVENT''], [(''mode'', FStr ''broken''), (''gen'', FInt 8), (''seq'', FInt 4),
       (''kind'', FStr ''PRODUCER_ACQUIRE'')]),
     ([''SYNC'', ''EVENT''], [(''mode'', FStr ''broken''), (''gen'', FInt 8), (''seq'', FInt 5),
       (''kind'', FStr ''PRODUCER_READY'')]),
     ([''SYNC'', ''EVENT''], [(''mode'', FStr ''broken''), (''gen'', FInt 8), (''seq'', FInt 6),
       (''kind'', FStr ''WAKE_MISS''), (''state'', FInt 4), (''ready'', FInt 1), (''chan'', FInt 0),
       (''proc_owner'', FInt 1), (''hart'', FInt 1)]),
     ([''SYNC'', ''EVENT''], [(''mode'', FStr ''broken''), (''gen'', FInt 8), (''seq'', FInt 7),
       (''kind'', FStr ''WAKE_DONE'')]),
     ([''SYNC'', ''EVENT''], [(''mode'', FStr ''broken''), (''gen'', FInt 8), (''seq'', FInt 8),
       (''kind'', FStr ''WAIT_PUBLISH''), (''state'', FInt 2), (''ready'', FInt 1), (''chan'', FInt 1)]),
     ([''SYNC'', ''EVENT''], [(''mode'', FStr ''broken''), (''gen'', FInt 8), (''seq'', FInt 9),
       (''kind'', FStr ''BAD_ORACLE''), (''state'', FInt 2), (''ready'', FInt 1), (''chan'', FInt 1)]),
     ([''SYNC'', ''EVENT''], [(''mode'', FStr ''broken''), (''gen'', FInt 8), (''seq'', FInt 10),
       (''kind'', FStr ''RESCUE_BEGIN'')]),
     ([''SYNC'', ''EVENT''], [(''mode'', FStr ''broken''), (''gen'', FInt 8), (''seq'', FInt 11),
       (''kind'', FStr ''RESCUE_MATCH''), (''state'', FInt 2), (''chan'', FInt 1)]),
     ([''SYNC'', ''EVENT''], [(''mode'', FStr ''broken''), (''gen'', FInt 8), (''seq'', FInt 12),
       (''kind'', FStr ''RESCUE_DONE'')]),
     ([''SYNC'', ''EVENT''], [(''mode'', FStr ''broken''), (''gen'', FInt 8), (''seq'', FInt 13),
       (''kind'', FStr ''ORIGIN_SKIP'')]),
     ([''SYNC'', ''EVENT''], [(''mode'', FStr ''broken''), (''gen'', FInt 8), (''seq'', FInt 14),
       (''kind'', FStr ''MIGRATE_RELEASE'')]),
     ([''SYNC'', ''EVENT''], [(''mode'', FStr ''broken''), (''gen'', FInt 8), (''seq'', FInt 15),
       (''kind'', FStr ''MIGRATE_SELECT''), (''hart'', FInt 1)]),
     ([''SYNC'', ''EVENT''], [(''mode'', FStr ''broken''), (''gen'', FInt 8), (''seq'', FInt 16),
       (''kind'', FStr ''WAIT_RESUME''), (''hart'', FInt 1)]),
     ([''SYNC'', ''EVENT''], [(''mode'', FStr ''broken''), (''gen'', FInt 8), (''seq'', FInt 17),
       (''kind'', FStr ''WAIT_RECHECK'')]),
     ([''SYNC'', ''BADSTATE''], [(''ready'', FInt 1), (''state'', FInt 2), (''chan'', FInt 1),
       (''miss'', FInt 1), (''killed'', FInt 0)]),
     ([''SYNC'', ''FINAL''], [(''mode'', FStr ''broken''), (''gen'', FInt 8), (''used_before'', FInt 3),
       (''used_after'', FInt 3), (''target'', FInt 0), (''ready'', FInt 1), (''cond'', FInt 0),
       (''migrated'', FInt 1), (''origin'', FInt 0), (''resume'', FInt 1), (''events'', FInt 18),
       (''miss'', FInt 1), (''match'', FInt 0), (''rescue'', FInt 1)]),
     ([''SYNC'', ''CLEAN''], [(''mode'', FStr ''broken''), (''gen'', FInt 8), (''active'', FInt 0),
       (''target'', FInt 0), (''ready'', FInt 0), (''cond'', FInt 0), (''trace'', FInt 0),
       (''gates'', FInt 0), (''used'', FInt 3), (''baseline'', FInt 3)]),
     ([''SYNC'', ''PASS''], [(''mode'', FStr ''broken'')])]"


lemma sync_words: "plain_word ''SYNC''" "plain_word ''EVENT''" "plain_word ''FINAL''" "plain_word ''CLEAN''" "plain_word ''PASS''"
  "plain_word ''BADSTATE''"
  by code_simp+

lemma sync_lines_script:
  assumes "two_words ls"
  shows "sync_marker_lines (script ls) ''SYNC EVENT '' = marked ''SYNC'' ''EVENT'' ls"
    and "sync_marker_lines (script ls) ''SYNC FINAL '' = marked ''SYNC'' ''FINAL'' ls"
    and "sync_marker_lines (script ls) ''SYNC CLEAN '' = marked ''SYNC'' ''CLEAN'' ls"
    and "sync_marker_lines (script ls) ''SYNC PASS '' = marked ''SYNC'' ''PASS'' ls"
    and "sync_marker_lines (script ls) ''SYNC BADSTATE '' = marked ''SYNC'' ''BADSTATE'' ls"
  using script_two [OF assms sync_words(1,2)] script_two [OF assms sync_words(1,3)] script_two [OF assms sync_words(1,4)]
    script_two [OF assms sync_words(1,5)] script_two [OF assms sync_words(1,6)]
  by (simp_all add: sync_marker_lines_def)

lemma demo_ok: "two_words fixed_demo" "two_words broken_demo"
  by code_simp+

lemma demo_quiet: "list_all (quiet ''FAIL'') fixed_demo" "list_all (quiet ''FAIL'') broken_demo"
  by code_simp+

lemma demo_no_fail: "\<not> contains (script fixed_demo) ''SYNC FAIL''" "\<not> contains (script broken_demo) ''SYNC FAIL''"
  using not_contains_script [OF demo_quiet(1), of "CHR ''F''" "''SYNC ''" "[]"]
    not_contains_script [OF demo_quiet(2), of "CHR ''F''" "''SYNC ''" "[]"]
  by (simp_all add: is_digit_def)

lemma fixed_demo_lines:
  "filter (led [''SYNC'', ''EVENT'']) fixed_demo = take 15 fixed_demo"
  "filter (led [''SYNC'', ''FINAL'']) fixed_demo = [fixed_demo ! 15]"
  "filter (led [''SYNC'', ''CLEAN'']) fixed_demo = [fixed_demo ! 16]"
  "filter (led [''SYNC'', ''PASS'']) fixed_demo = [fixed_demo ! 17]"
  "filter (led [''SYNC'', ''BADSTATE'']) fixed_demo = []"
  by code_simp+

lemma broken_demo_lines:
  "filter (led [''SYNC'', ''EVENT'']) broken_demo = take 18 broken_demo"
  "filter (led [''SYNC'', ''FINAL'']) broken_demo = [broken_demo ! 19]"
  "filter (led [''SYNC'', ''CLEAN'']) broken_demo = [broken_demo ! 20]"
  "filter (led [''SYNC'', ''PASS'']) broken_demo = [broken_demo ! 21]"
  "filter (led [''SYNC'', ''BADSTATE'']) broken_demo = [broken_demo ! 18]"
  by code_simp+

lemma sync_parse_eq: "sync_parse_fields = parse_pairs (\<lambda>_. read_value)"
  by (simp add: sync_parse_fields_def fun_eq_iff)

lemma fixed_demo_accepted: "accepted (validate_fixed (script fixed_demo))"
proof -
  have f: "parse_pairs (\<lambda>_. read_value) (marked ''SYNC'' ''FINAL'' fixed_demo ! 0) = snd (fixed_demo ! 15)"
    "parse_pairs (\<lambda>_. read_value) (marked ''SYNC'' ''CLEAN'' fixed_demo ! 0) = snd (fixed_demo ! 16)"
    using parse_marked_nth [OF demo_ok(1), of 0] by (simp_all add: fixed_demo_lines)
  show ?thesis
    unfolding validate_fixed_def sync_validate_common_def Let_def sync_lines_script [OF demo_ok(1)]
    apply (simp only: demo_no_fail simp_thms require_True bind_res_Inr sync_parse_eq parse_marked [OF demo_ok(1)] length_marked fixed_demo_lines f)
    by code_simp
qed

lemma broken_demo_accepted: "accepted (validate_broken (script broken_demo))"
proof -
  have f: "parse_pairs (\<lambda>_. read_value) (marked ''SYNC'' ''FINAL'' broken_demo ! 0) = snd (broken_demo ! 19)"
    "parse_pairs (\<lambda>_. read_value) (marked ''SYNC'' ''CLEAN'' broken_demo ! 0) = snd (broken_demo ! 20)"
    "parse_pairs (\<lambda>_. read_value) (marked ''SYNC'' ''BADSTATE'' broken_demo ! 0) = snd (broken_demo ! 18)"
    using parse_marked_nth [OF demo_ok(2), of 0] by (simp_all add: broken_demo_lines)
  show ?thesis
    unfolding validate_broken_def sync_validate_common_def Let_def sync_lines_script [OF demo_ok(2)]
    apply (simp only: demo_no_fail simp_thms require_True bind_res_Inr sync_parse_eq parse_marked [OF demo_ok(2)] length_marked broken_demo_lines f)
    by code_simp
qed

section \<open>Properties\<close>

text \<open>
  C25: An accepted transcript of the fixed protocol shows a delivered wakeup: the waiter's hart owns
  the condition lock while the producer's hart, a different one, tries to take it; the waiter is
  published as sleeping before the condition is set; the wakeup finds the sleeper; and no wakeup is
  lost.
\<close>

theorem fixed_wakeup_delivered:
  assumes "validate_fixed output = Inr run"
  shows "lock_handover (sr_events run) \<and> wakeup_delivered (sr_events run) \<and> \<not> wakeup_lost (sr_events run)"
proof -
  from assms have "sync_validate_common ''fixed'' output FIXED_ORDER = Inr run"
    unfolding validate_fixed_def Let_def by (elim bind_res_InrE) simp
  with fixed_events [OF assms] not_lost_in_fixed show ?thesis by blast
qed

theorem fixed_wakeup_delivered_witness:
  "\<exists>run. validate_fixed (script fixed_demo) = Inr run \<and> wakeup_delivered (sr_events run)"
  using fixed_demo_accepted fixed_wakeup_delivered unfolding accepted_iff by blast

text \<open>
  C26: An accepted transcript of the broken protocol shows a lost wakeup: the scan misses the waiter,
  which then sleeps although the condition holds; and it shows no delivered wakeup.  No transcript
  is accepted as both.
\<close>

theorem broken_wakeup_lost:
  assumes "validate_broken output = Inr (run, bad)"
  shows "wakeup_lost (sr_events run) \<and> \<not> wakeup_delivered (sr_events run) \<and> (\<forall>run'. validate_fixed output \<noteq> Inr run')"
proof -
  from assms have common: "sync_validate_common ''broken'' output BROKEN_ORDER = Inr run"
    unfolding validate_broken_def Let_def by (elim bind_res_InrE) simp
  have "validate_fixed output \<noteq> Inr run'" for run'
  proof
    assume "validate_fixed output = Inr run'"
    then have "sync_validate_common ''fixed'' output FIXED_ORDER = Inr run'"
      unfolding validate_fixed_def Let_def by (elim bind_res_InrE) simp
    from common_events [OF this] common_events [OF common] common_kinds [OF this] common_kinds [OF common]
    have "length FIXED_ORDER = length BROKEN_ORDER" by (metis length_map)
    then show False by (simp add: order_lengths)
  qed
  with broken_events [OF assms] not_delivered_in_broken [OF common] show ?thesis by blast
qed

theorem broken_wakeup_lost_witness:
  "\<exists>run bad. validate_broken (script broken_demo) = Inr (run, bad) \<and> wakeup_lost (sr_events run)"
  using broken_demo_accepted broken_wakeup_lost unfolding accepted_iff by fastforce

end
