(* ===== verification/VmTrace.thy ===== *)
theory VmTrace
  imports LabFields
begin

text \<open>
  The runner of the virtual-memory laboratory, \<open>resources/virtual-memory/run-lab.py\<close>: the oracle for the
  transcript of \<open>vmtrace\<close>.  Page-table flags are Python integers, read bit by bit.
\<close>

unbundle bit_operations_syntax

definition PTE_V :: int where "PTE_V = push_bit 0 1"
definition PTE_R :: int where "PTE_R = push_bit 1 1"
definition PTE_W :: int where "PTE_W = push_bit 2 1"
definition PTE_X :: int where "PTE_X = push_bit 3 1"
definition PTE_U :: int where "PTE_U = push_bit 4 1"
definition LEAF_MASK :: int where "LEAF_MASK = PTE_V OR PTE_R OR PTE_W OR PTE_X OR PTE_U"
definition DATA_FLAGS :: int where "DATA_FLAGS = PTE_V OR PTE_R OR PTE_W OR PTE_U"

definition vm_parse_fields :: "string \<Rightarrow> fval fields" where
  "vm_parse_fields line = parse_pairs (\<lambda>_. read_value) line"

definition vm_marker_lines :: "string \<Rightarrow> string \<Rightarrow> string list" where
  "vm_marker_lines output prefix = lines_with output prefix"

section \<open>The special mappings\<close>

definition vm_special :: "fval fields \<Rightarrow> unit result" where
  "vm_special special =
     checks
       [([items_ne special ''user_root'' special ''kernel_root''], ''kernel and user roots unexpectedly match''),
        ([item_is special ''tramp_va'' (FInt 0x3FFFFFF000), item_is special ''trap_va'' (FInt 0x3FFFFFE000)],
         ''special virtual addresses changed''),
        ([items_eq special ''user_tramp_pa'' special ''kernel_tramp_pa'', item_not special ''kernel_tramp_pa'' (FInt 0)],
         ''trampoline is not same VA/PA in both roots''),
        ([items_eq special ''trap_pa'' special ''owner_pa'', item_not special ''owner_pa'' (FInt 0)],
         ''user TRAPFRAME does not map the process-owned page''),
        ([item_cond special ''user_tramp_flags'' (\<lambda>f. f AND LEAF_MASK = PTE_V OR PTE_R OR PTE_X)],
         ''user trampoline flags changed''),
        ([item_cond special ''kernel_tramp_flags'' (\<lambda>f. f AND LEAF_MASK = PTE_V OR PTE_R OR PTE_X)],
         ''kernel trampoline flags changed''),
        ([item_cond special ''trap_flags'' (\<lambda>f. f AND LEAF_MASK = PTE_V OR PTE_R OR PTE_W)],
         ''user trapframe flags changed''),
        ([item_is special ''kernel_trap_flags'' (FInt 0)],
         ''kernel table unexpectedly maps numeric TRAPFRAME VA'')]"

section \<open>The fault cases\<close>

definition vm_by_generation :: "fval fields list \<Rightarrow> (fval, fval fields) dict result" where
  "vm_by_generation cases = index_by ''gen'' cases"

definition vm_ledger :: "fval fields list \<Rightarrow> unit result" where
  "vm_ledger cases =
     checks (map (\<lambda>entry. ([items_eq entry ''base'' entry ''after''], ''post-wait page ledger changed'')) cases)"

definition vm_normal :: "(fval, fval fields) dict \<Rightarrow> int \<times> string \<times> int \<times> int \<Rightarrow> unit result" where
  "vm_normal by_generation expected =
     (case expected of (generation, name, access, scause) \<Rightarrow>
      bind_res (dget by_generation (FInt generation)) (\<lambda>entry.
      check [item_is entry ''name'' (FStr name), item_is entry ''access'' (FInt access),
             item_is entry ''status'' (FInt 0), item_is entry ''result'' (FInt 1),
             item_is entry ''scause'' (FInt scause), item_is entry ''before'' (FInt 0),
             item_cond entry ''after_flags'' (\<lambda>f. f AND LEAF_MASK = DATA_FLAGS),
             item_cond entry ''allocations'' (\<lambda>n. n \<ge> 1)] (''normal oracle failed: '' @ name)))"

definition vm_refused :: "(fval, fval fields) dict \<Rightarrow> unit result" where
  "vm_refused by_generation =
     bind_res (dget by_generation (FInt 5)) (\<lambda>invalid.
     bind_res (check
       [item_is invalid ''name'' (FStr ''invalid''), item_is invalid ''status'' (FInt (- 1)),
        item_is invalid ''scause'' (FInt 15), item_is invalid ''result'' (FInt 0),
        items_eq invalid ''before'' invalid ''after_flags'', item_is invalid ''after_flags'' (FInt 0),
        item_is invalid ''allocations'' (FInt 0)] ''invalid-address oracle failed'') (\<lambda>_.
     bind_res (dget by_generation (FInt 6)) (\<lambda>permission.
     bind_res (check
       [item_is permission ''name'' (FStr ''permission''), item_is permission ''status'' (FInt (- 1)),
        item_is permission ''scause'' (FInt 15), item_is permission ''result'' (FInt 0),
        item_cond permission ''before''
          (\<lambda>f. f AND (PTE_V OR PTE_R OR PTE_X OR PTE_U) = PTE_V OR PTE_R OR PTE_X OR PTE_U),
        item_cond permission ''before'' (\<lambda>f. f AND PTE_W = 0),
        items_eq permission ''after_flags'' permission ''before'',
        item_is permission ''allocations'' (FInt 0)] ''permission-fault oracle failed'') (\<lambda>_.
     bind_res (dget by_generation (FInt 7)) (\<lambda>nx.
     check
       [item_is nx ''name'' (FStr ''nx''), item_is nx ''status'' (FInt (- 1)), item_is nx ''access'' (FInt 5),
        item_is nx ''scause'' (FInt 12), items_eq nx ''stval'' nx ''epc'', item_not nx ''epc'' (FInt 0),
        item_cond nx ''after_flags'' (\<lambda>f. f AND LEAF_MASK = DATA_FLAGS),
        item_is nx ''allocations'' (FInt 0)] ''NX instruction-fault oracle failed'')))))"

definition vm_oom :: "(fval, fval fields) dict \<Rightarrow> int \<times> int \<Rightarrow> unit result" where
  "vm_oom by_generation expected =
     (case expected of (generation, fail_at) \<Rightarrow>
      bind_res (dget by_generation (FInt generation)) (\<lambda>entry.
      bind_res (check
        [item_is entry ''name'' (FStr ''oom''), item_is entry ''status'' (FInt (- 1)),
         item_is entry ''scause'' (FInt 15), item_is entry ''result'' (FInt 0),
         item_is entry ''fail_at'' (FInt fail_at), item_is entry ''allocations'' (FInt fail_at),
         items_eq entry ''before'' entry ''after_flags'', item_is entry ''after_flags'' (FInt 0)]
        ''OOM oracle failed'') (\<lambda>_.
      let debt = (if fail_at = 3 then 1 else 0) in
      check [bind_res (dget entry ''free_after'') (\<lambda>v. bind_res (item_int entry ''free_before'') (\<lambda>i.
               Inr (v = FInt (i - debt))))] ''OOM immediate rollback debt changed'')))"

section \<open>The whole transcript\<close>

record vm_record =
  vr_special :: string
  vr_cases :: "string list"
  vr_mutation :: string
  vr_exec :: string
  vr_pass :: string

definition NORMAL_CASES :: "(int \<times> string \<times> int \<times> int) list" where
  "NORMAL_CASES = [(1, ''load'', 1, 13), (2, ''store'', 2, 15), (3, ''copyout'', 4, 0), (4, ''copyin'', 3, 0)]"

definition each :: "('a \<Rightarrow> unit result) \<Rightarrow> 'a list \<Rightarrow> unit result" where
  "each f xs = fold_res (\<lambda>_ x. f x) () xs"

definition validate_vmtrace :: "string \<Rightarrow> vm_record result" where
  "validate_vmtrace output =
     bind_res (requires
       [(\<not> contains output ''VM FAIL'', ''guest rejected a VM scenario''),
        (count_sub ''VM PASS cases=12'' output = 1, ''VM PASS marker count changed'')]) (\<lambda>_.
     let special_lines = vm_marker_lines output ''VM SPECIAL '' in
     bind_res (require (length special_lines = 1) ''special mapping marker count changed'') (\<lambda>_.
     bind_res (vm_special (vm_parse_fields (special_lines ! 0))) (\<lambda>_.
     let case_lines = vm_marker_lines output ''VM CASE '' in
     bind_res (require (length case_lines = 10) ''VM CASE count changed'') (\<lambda>_.
     let cases = map vm_parse_fields case_lines in
     bind_res (vm_by_generation cases) (\<lambda>by_generation.
     bind_res (require (set (dkeys by_generation) = FInt ` {1, 2, 3, 4, 5, 6, 7, 9, 10, 11}) ''case generations changed'') (\<lambda>_.
     bind_res (vm_ledger cases) (\<lambda>_.
     bind_res (each (vm_normal by_generation) NORMAL_CASES) (\<lambda>_.
     bind_res (vm_refused by_generation) (\<lambda>_.
     bind_res (each (vm_oom by_generation) [(9, 1), (10, 2), (11, 3)]) (\<lambda>_.
     let mutation_lines = vm_marker_lines output ''VM MUTATION '' in
     bind_res (require (length mutation_lines = 1) ''mutation marker count changed'') (\<lambda>_.
     let mutation = vm_parse_fields (mutation_lines ! 0) in
     bind_res (check [item_is mutation ''status'' (FInt 0), item_cond mutation ''flags'' (\<lambda>f. f AND PTE_X \<noteq> 0)]
       ''PTE_X mutation did not execute the same ret instruction'') (\<lambda>_.
     let exec_lines = vm_marker_lines output ''VM EXEC '' in
     bind_res (require (length exec_lines = 1) ''exec marker count changed'') (\<lambda>_.
     let exec_record = vm_parse_fields (exec_lines ! 0) in
     bind_res (check [item_is exec_record ''status'' (FInt 42), items_eq exec_record ''base'' exec_record ''after'']
       ''late exec rollback did not preserve the old image and ledger'') (\<lambda>_.
     Inr \<lparr>vr_special = special_lines ! 0, vr_cases = case_lines, vr_mutation = mutation_lines ! 0,
       vr_exec = exec_lines ! 0, vr_pass = ''VM PASS cases=12''\<rparr>))))))))))))))"

definition validate_guest_regression :: "string \<Rightarrow> string \<Rightarrow> unit result" where
  "validate_guest_regression name transcript =
     requires
       [(count_sub ''ALL TESTS PASSED'' transcript = 1, ''guest regression marker count changed''),
        (contains transcript (''test '' @ name @ '':''), ''guest regression did not report the selected test''),
        (\<not> contains transcript ''SOME TESTS FAILED'', ''guest regression failed''),
        (\<not> contains transcript ''VM '', ''vmprobe marker leaked into guest regression'')]"

end
