(* ===== verification/VmTraceProps.thy ===== *)
theory VmTraceProps
  imports VmTrace Transcript
begin

text \<open>
  What an accepted virtual-memory transcript shows about the page tables: the permissions of the
  observed leaves bit by bit, and the balance of the page allocator.
\<close>

section \<open>Permission bits\<close>

definition data_page :: "int \<Rightarrow> bool" where
  "data_page f \<longleftrightarrow> bit f 0 \<and> bit f 1 \<and> bit f 2 \<and> \<not> bit f 3 \<and> bit f 4"

definition code_page :: "int \<Rightarrow> bool" where
  "code_page f \<longleftrightarrow> bit f 0 \<and> bit f 1 \<and> \<not> bit f 2 \<and> bit f 3 \<and> \<not> bit f 4"

definition frame_page :: "int \<Rightarrow> bool" where
  "frame_page f \<longleftrightarrow> bit f 0 \<and> bit f 1 \<and> bit f 2 \<and> \<not> bit f 3 \<and> \<not> bit f 4"

lemma pte_values: "PTE_V = 1" "PTE_R = 2" "PTE_W = 4" "PTE_X = 8" "PTE_U = 16" "LEAF_MASK = 31" "DATA_FLAGS = 23"
  by code_simp+

lemma page_bits:
  "f AND LEAF_MASK = DATA_FLAGS \<Longrightarrow> data_page f"
  "f AND LEAF_MASK = PTE_V OR PTE_R OR PTE_X \<Longrightarrow> code_page f"
  "f AND LEAF_MASK = PTE_V OR PTE_R OR PTE_W \<Longrightarrow> frame_page f"
proof -
  have "bit (23 :: int) 0 \<and> bit (23 :: int) 1 \<and> bit (23 :: int) 2 \<and> \<not> bit (23 :: int) 3 \<and> bit (23 :: int) 4" by code_simp
  then show "f AND LEAF_MASK = DATA_FLAGS \<Longrightarrow> data_page f" using masked_bits [of f 23] by (simp add: pte_values data_page_def)
  have "PTE_V OR PTE_R OR PTE_X = 11" "bit (11 :: int) 0 \<and> bit (11 :: int) 1 \<and> \<not> bit (11 :: int) 2 \<and> bit (11 :: int) 3 \<and> \<not> bit (11 :: int) 4"
    by code_simp+
  then show "f AND LEAF_MASK = PTE_V OR PTE_R OR PTE_X \<Longrightarrow> code_page f" using masked_bits [of f 11]
    by (simp add: pte_values(6) code_page_def)
  have "PTE_V OR PTE_R OR PTE_W = 7" "bit (7 :: int) 0 \<and> bit (7 :: int) 1 \<and> bit (7 :: int) 2 \<and> \<not> bit (7 :: int) 3 \<and> \<not> bit (7 :: int) 4"
    by code_simp+
  then show "f AND LEAF_MASK = PTE_V OR PTE_R OR PTE_W \<Longrightarrow> frame_page f" using masked_bits [of f 7]
    by (simp add: pte_values(6) frame_page_def)
qed

section \<open>Accepted transcripts\<close>

definition vm_cases :: "string \<Rightarrow> fval fields list" where
  "vm_cases output = map vm_parse_fields (vm_marker_lines output ''VM CASE '')"

definition vm_special_fields :: "string \<Rightarrow> fval fields" where
  "vm_special_fields output = vm_parse_fields (vm_marker_lines output ''VM SPECIAL '' ! 0)"

lemma each_member: "each f xs = Inr u \<Longrightarrow> x \<in> set xs \<Longrightarrow> f x = Inr ()"
  unfolding each_def by (induction xs) (auto elim!: bind_res_InrE)

lemma index_by_member:
  assumes "index_by key events = Inr d" and "map_of d v = Some e"
  shows "e \<in> set events \<and> map_of e key = Some v"
proof -
  define Q where "Q A d0 \<longleftrightarrow> (\<forall>v e. map_of d0 v = Some e \<longrightarrow> e \<in> A \<and> map_of e key = Some v)" for A and d0 :: "(fval, fval fields) dict"
  have "fold_res (\<lambda>d event. bind_res (dget event key) (\<lambda>v. Inr (dput v event d))) d0 es = Inr d \<Longrightarrow>
      Q A d0 \<Longrightarrow> set es \<subseteq> A \<Longrightarrow> Q A d" for d0 es A
  proof (induction es arbitrary: d0)
    case (Cons x es)
    from Cons.prems(1) obtain w where w: "map_of x key = Some w"
      and run: "fold_res (\<lambda>d event. bind_res (dget event key) (\<lambda>v. Inr (dput v event d))) (dput w x d0) es = Inr d"
      by (auto simp: lab_simps elim!: bind_res_InrE)
    have "Q A (dput w x d0)" using Cons.prems(2,3) w by (simp add: Q_def)
    with Cons.IH [OF run] Cons.prems(3) show ?case by simp
  qed simp
  from this [of "[]" events "set events"] assms show ?thesis by (simp add: index_by_def Q_def)
qed

lemma vm_parts:
  assumes "validate_vmtrace output = Inr r"
  obtains d where "vm_special (vm_special_fields output) = Inr ()" and "vm_by_generation (vm_cases output) = Inr d"
    and "vm_ledger (vm_cases output) = Inr ()" and "each (vm_normal d) NORMAL_CASES = Inr ()"
    and "vm_refused d = Inr ()" and "each (vm_oom d) [(9, 1), (10, 2), (11, 3)] = Inr ()"
  using assms unfolding validate_vmtrace_def Let_def vm_cases_def vm_special_fields_def
  by (elim bind_res_InrE) simp

lemma case_of_generation:
  "vm_by_generation cases = Inr d \<Longrightarrow> dget d (FInt g) = Inr c \<Longrightarrow> c \<in> set cases \<and> map_of c ''gen'' = Some (FInt g)"
  by (simp add: vm_by_generation_def lab_simps index_by_member)

lemma normal_page:
  assumes "vm_by_generation cases = Inr d" and "vm_normal d (g, name, access, scause) = Inr ()"
  shows "\<exists>c f. c \<in> set cases \<and> has c [(''gen'', FInt g), (''name'', FStr name), (''after_flags'', FInt f)] \<and> data_page f"
proof -
  from assms(2) obtain c where c: "dget d (FInt g) = Inr c"
    and chk: "\<exists>f. map_of c ''name'' = Some (FStr name) \<and> map_of c ''after_flags'' = Some (FInt f) \<and> f AND LEAF_MASK = DATA_FLAGS"
    unfolding vm_normal_def by (auto simp: lab_simps elim!: bind_res_InrE)
  with case_of_generation [OF assms(1) c] page_bits(1) show ?thesis by (auto simp: has_def)
qed

lemma refused_pages:
  assumes "vm_by_generation cases = Inr d" and "vm_refused d = Inr ()"
  shows "\<exists>p n f g. p \<in> set cases \<and> n \<in> set cases \<and>
     has p [(''gen'', FInt 6), (''before'', FInt f), (''after_flags'', FInt f), (''allocations'', FInt 0)] \<and> \<not> bit f 2 \<and>
     has n [(''gen'', FInt 7), (''scause'', FInt 12), (''after_flags'', FInt g), (''allocations'', FInt 0)] \<and> data_page g"
proof -
  from assms(2) obtain p n where p: "dget d (FInt 6) = Inr p" and n: "dget d (FInt 7) = Inr n"
    and pf: "\<exists>f. map_of p ''before'' = Some (FInt f) \<and> map_of p ''after_flags'' = Some (FInt f) \<and> f AND PTE_W = 0 \<and>
      map_of p ''allocations'' = Some (FInt 0)"
    and nf: "\<exists>f. map_of n ''scause'' = Some (FInt 12) \<and> map_of n ''after_flags'' = Some (FInt f) \<and> f AND LEAF_MASK = DATA_FLAGS \<and>
      map_of n ''allocations'' = Some (FInt 0)"
    unfolding vm_refused_def by (elim bind_res_InrE) (auto simp: lab_simps)
  have w: "f AND PTE_W = 0 \<Longrightarrow> \<not> bit f 2" for f
  proof -
    assume "f AND PTE_W = 0"
    then have "\<not> bit (f AND PTE_W) 2" by simp
    moreover have "bit PTE_W 2" by code_simp
    ultimately show ?thesis by (simp add: bit_and_iff)
  qed
  from case_of_generation [OF assms(1) p] case_of_generation [OF assms(1) n] pf nf w page_bits(1)
  show ?thesis by (auto simp: has_def) blast
qed

lemma oom_debt:
  assumes "vm_by_generation cases = Inr d" and "vm_oom d (g, k) = Inr ()"
  shows "\<exists>c n. c \<in> set cases \<and> has c [(''gen'', FInt g), (''fail_at'', FInt k), (''after_flags'', FInt 0),
     (''free_before'', FInt n), (''free_after'', FInt (n - (if k = 3 then 1 else 0)))]"
proof -
  from assms(2) obtain c where c: "dget d (FInt g) = Inr c"
    and "\<exists>n. map_of c ''fail_at'' = Some (FInt k) \<and> map_of c ''after_flags'' = Some (FInt 0) \<and>
      map_of c ''free_before'' = Some (FInt n) \<and> map_of c ''free_after'' = Some (FInt (n - (if k = 3 then 1 else 0)))"
    unfolding vm_oom_def Let_def prod.case by (elim bind_res_InrE) (auto simp: lab_simps bind_res_eq_Inr elim!: bind_res_InrE)
  with case_of_generation [OF assms(1) c] show ?thesis by (auto simp: has_def)
qed

section \<open>A concrete transcript\<close>

definition vm_demo :: "(string list \<times> fval fields) list" where
  "vm_demo =
    [([''VM'', ''SPECIAL''], [(''user_root'', FInt 1), (''kernel_root'', FInt 2),
       (''tramp_va'', FInt 274877902848), (''trap_va'', FInt 274877898752), (''user_tramp_pa'', FInt 5),
       (''kernel_tramp_pa'', FInt 5), (''trap_pa'', FInt 6), (''owner_pa'', FInt 6),
       (''user_tramp_flags'', FInt 11), (''kernel_tramp_flags'', FInt 75), (''trap_flags'', FInt 199),
       (''kernel_trap_flags'', FInt 0)]),
     ([''VM'', ''CASE''], [(''gen'', FInt 1), (''name'', FStr ''load''), (''access'', FInt 1),
       (''scause'', FInt 13), (''status'', FInt 0), (''result'', FInt 1), (''before'', FInt 0),
       (''after_flags'', FInt 215), (''allocations'', FInt 1), (''base'', FInt 9), (''after'', FInt 9)]),
     ([''VM'', ''CASE''], [(''gen'', FInt 2), (''name'', FStr ''store''), (''access'', FInt 2),
       (''scause'', FInt 15), (''status'', FInt 0), (''result'', FInt 1), (''before'', FInt 0),
       (''after_flags'', FInt 215), (''allocations'', FInt 1), (''base'', FInt 9), (''after'', FInt 9)]),
     ([''VM'', ''CASE''], [(''gen'', FInt 3), (''name'', FStr ''copyout''), (''access'', FInt 4),
       (''scause'', FInt 0), (''status'', FInt 0), (''result'', FInt 1), (''before'', FInt 0),
       (''after_flags'', FInt 215), (''allocations'', FInt 1), (''base'', FInt 9), (''after'', FInt 9)]),
     ([''VM'', ''CASE''], [(''gen'', FInt 4), (''name'', FStr ''copyin''), (''access'', FInt 3),
       (''scause'', FInt 0), (''status'', FInt 0), (''result'', FInt 1), (''before'', FInt 0),
       (''after_flags'', FInt 215), (''allocations'', FInt 1), (''base'', FInt 9), (''after'', FInt 9)]),
     ([''VM'', ''CASE''], [(''gen'', FInt 5), (''name'', FStr ''invalid''), (''status'', FInt (- 1)),
       (''scause'', FInt 15), (''result'', FInt 0), (''before'', FInt 0), (''after_flags'', FInt 0),
       (''allocations'', FInt 0), (''base'', FInt 9), (''after'', FInt 9)]),
     ([''VM'', ''CASE''], [(''gen'', FInt 6), (''name'', FStr ''permission''), (''status'', FInt (- 1)),
       (''scause'', FInt 15), (''result'', FInt 0), (''before'', FInt 27), (''after_flags'', FInt 27),
       (''allocations'', FInt 0), (''base'', FInt 9), (''after'', FInt 9)]),
     ([''VM'', ''CASE''], [(''gen'', FInt 7), (''name'', FStr ''nx''), (''status'', FInt (- 1)),
       (''access'', FInt 5), (''scause'', FInt 12), (''stval'', FInt 8), (''epc'', FInt 8),
       (''after_flags'', FInt 215), (''allocations'', FInt 0), (''base'', FInt 9), (''after'', FInt 9)]),
     ([''VM'', ''CASE''], [(''gen'', FInt 9), (''name'', FStr ''oom''), (''status'', FInt (- 1)),
       (''scause'', FInt 15), (''result'', FInt 0), (''fail_at'', FInt 1), (''allocations'', FInt 1),
       (''before'', FInt 0), (''after_flags'', FInt 0), (''free_before'', FInt 7),
       (''free_after'', FInt 7), (''base'', FInt 9), (''after'', FInt 9)]),
     ([''VM'', ''CASE''], [(''gen'', FInt 10), (''name'', FStr ''oom''), (''status'', FInt (- 1)),
       (''scause'', FInt 15), (''result'', FInt 0), (''fail_at'', FInt 2), (''allocations'', FInt 2),
       (''before'', FInt 0), (''after_flags'', FInt 0), (''free_before'', FInt 7),
       (''free_after'', FInt 7), (''base'', FInt 9), (''after'', FInt 9)]),
     ([''VM'', ''CASE''], [(''gen'', FInt 11), (''name'', FStr ''oom''), (''status'', FInt (- 1)),
       (''scause'', FInt 15), (''result'', FInt 0), (''fail_at'', FInt 3), (''allocations'', FInt 3),
       (''before'', FInt 0), (''after_flags'', FInt 0), (''free_before'', FInt 7),
       (''free_after'', FInt 6), (''base'', FInt 9), (''after'', FInt 9)]),
     ([''VM'', ''MUTATION''], [(''status'', FInt 0), (''flags'', FInt 31)]),
     ([''VM'', ''EXEC''], [(''status'', FInt 42), (''base'', FInt 9), (''after'', FInt 9)]),
     ([''VM'', ''PASS''], [(''cases'', FInt 12)])]"


lemma vm_words: "plain_word ''VM''" "plain_word ''SPECIAL''" "plain_word ''CASE''" "plain_word ''MUTATION''" "plain_word ''EXEC''"
  by code_simp+

lemma vm_demo_ok: "two_words vm_demo"
  by code_simp

lemma vm_lines_script:
  "vm_marker_lines (script vm_demo) ''VM SPECIAL '' = marked ''VM'' ''SPECIAL'' vm_demo"
  "vm_marker_lines (script vm_demo) ''VM CASE '' = marked ''VM'' ''CASE'' vm_demo"
  "vm_marker_lines (script vm_demo) ''VM MUTATION '' = marked ''VM'' ''MUTATION'' vm_demo"
  "vm_marker_lines (script vm_demo) ''VM EXEC '' = marked ''VM'' ''EXEC'' vm_demo"
  using script_two [OF vm_demo_ok vm_words(1,2)] script_two [OF vm_demo_ok vm_words(1,3)]
    script_two [OF vm_demo_ok vm_words(1,4)] script_two [OF vm_demo_ok vm_words(1,5)]
  by (simp_all add: vm_marker_lines_def)

definition demo_rows :: "(string list \<times> fval fields) list" where
  "demo_rows = take 10 (drop 1 vm_demo)"

lemma vm_demo_lines:
  "filter (led [''VM'', ''SPECIAL'']) vm_demo = [vm_demo ! 0]"
  "filter (led [''VM'', ''CASE'']) vm_demo = demo_rows"
  "filter (led [''VM'', ''MUTATION'']) vm_demo = [vm_demo ! 11]"
  "filter (led [''VM'', ''EXEC'']) vm_demo = [vm_demo ! 12]"
  by code_simp+

lemma vm_demo_no_fail: "\<not> contains (script vm_demo) ''VM FAIL''"
proof -
  have "list_all (quiet ''FAIL'') vm_demo" by code_simp
  from not_contains_script [OF this, of "CHR ''F''" "''VM ''" "[]"] show ?thesis by (simp add: is_digit_def)
qed

lemma vm_demo_pass: "count_sub ''VM PASS cases=12'' (script vm_demo) = 1"
proof -
  have split: "vm_demo = take 13 vm_demo @ [([''VM'', ''PASS''], [(''cases'', FInt 12)])]" by code_simp
  have "list_all (quiet ''PASS'') (take 13 vm_demo)" by code_simp
  from count_script_once [OF this, of "CHR ''P''" "''VM ''" "'' cases=12''" "([''VM'', ''PASS''], [(''cases'', FInt 12)])"]
  have "count_sub ''VM PASS cases=12'' (script (take 13 vm_demo @ [([''VM'', ''PASS''], [(''cases'', FInt 12)])])) =
      count_sub ''VM PASS cases=12'' (render_line (line_words ([''VM'', ''PASS''], [(''cases'', FInt 12)])))"
    by (simp add: is_digit_def)
  moreover have "count_sub ''VM PASS cases=12'' (render_line (line_words ([''VM'', ''PASS''], [(''cases'', FInt 12)]))) = 1" by code_simp
  ultimately show ?thesis using split by simp
qed

lemma vm_parse_eq: "vm_parse_fields = parse_pairs (\<lambda>_. read_value)"
  by (simp add: vm_parse_fields_def fun_eq_iff)

definition demo_cases :: "fval fields list" where
  "demo_cases = map snd demo_rows"

definition demo_index :: "(fval, fval fields) dict" where
  "demo_index = zip (map FInt [1, 2, 3, 4, 5, 6, 7, 9, 10, 11]) demo_cases"

lemma vm_demo_checks:
  "vm_special (snd (vm_demo ! 0)) = Inr ()" "vm_by_generation demo_cases = Inr demo_index" "vm_ledger demo_cases = Inr ()"
  "each (vm_normal demo_index) NORMAL_CASES = Inr ()" "vm_refused demo_index = Inr ()"
  "each (vm_oom demo_index) [(9, 1), (10, 2), (11, 3)] = Inr ()"
  "check [item_is (snd (vm_demo ! 11)) ''status'' (FInt 0), item_cond (snd (vm_demo ! 11)) ''flags'' (\<lambda>f. f AND PTE_X \<noteq> 0)] m = Inr ()"
  "check [item_is (snd (vm_demo ! 12)) ''status'' (FInt 42), items_eq (snd (vm_demo ! 12)) ''base'' (snd (vm_demo ! 12)) ''after''] m = Inr ()"
  "set (dkeys demo_index) = FInt ` {1, 2, 3, 4, 5, 6, 7, 9, 10, 11}" "length demo_rows = 10"
  by code_simp+

lemma vm_demo_accepted: "accepted (validate_vmtrace (script vm_demo))"
proof -
  have f: "parse_pairs (\<lambda>_. read_value) (marked ''VM'' ''SPECIAL'' vm_demo ! 0) = snd (vm_demo ! 0)"
    "parse_pairs (\<lambda>_. read_value) (marked ''VM'' ''MUTATION'' vm_demo ! 0) = snd (vm_demo ! 11)"
    "parse_pairs (\<lambda>_. read_value) (marked ''VM'' ''EXEC'' vm_demo ! 0) = snd (vm_demo ! 12)"
    using parse_marked_nth [OF vm_demo_ok, of 0] by (simp_all add: vm_demo_lines)
  show ?thesis
    unfolding validate_vmtrace_def Let_def vm_lines_script
    by (simp only: vm_demo_no_fail vm_demo_pass simp_thms vm_parse_eq parse_marked [OF vm_demo_ok] length_marked vm_demo_lines f
        requires.simps require_True bind_res_Inr demo_cases_def [symmetric] vm_demo_checks list.size One_nat_def add_0 add_0_right)
      (simp add: accepted_def)
qed

section \<open>Property\<close>

text \<open>
  Writable leaves are never executable and refused accesses leave the page alone; every case returns
  all its pages, and a failing allocation inside the page-table walk is in debt at once for one page
  at most.
\<close>

definition mapped_page :: "fval fields list \<Rightarrow> int \<times> string \<times> int \<times> int \<Rightarrow> bool" where
  "mapped_page cases expected \<longleftrightarrow> (case expected of (g, name, _) \<Rightarrow>
     \<exists>c f. c \<in> set cases \<and> has c [(''gen'', FInt g), (''name'', FStr name), (''after_flags'', FInt f)] \<and> data_page f)"

definition oom_returned :: "fval fields list \<Rightarrow> int \<times> int \<Rightarrow> bool" where
  "oom_returned cases expected \<longleftrightarrow> (case expected of (g, k) \<Rightarrow>
     \<exists>c n. c \<in> set cases \<and> has c [(''gen'', FInt g), (''fail_at'', FInt k), (''after_flags'', FInt 0), (''free_before'', FInt n),
       (''free_after'', FInt (n - (if k = 3 then 1 else 0)))])"

definition permissions_hold :: "fval fields \<Rightarrow> fval fields list \<Rightarrow> bool" where
  "permissions_hold special cases \<longleftrightarrow>
     (\<exists>u k t. has special [(''user_tramp_flags'', FInt u), (''kernel_tramp_flags'', FInt k), (''trap_flags'', FInt t)] \<and>
        code_page u \<and> code_page k \<and> frame_page t) \<and>
     list_all (mapped_page cases) NORMAL_CASES \<and>
     (\<exists>p n f g. p \<in> set cases \<and> n \<in> set cases \<and>
        has p [(''gen'', FInt 6), (''before'', FInt f), (''after_flags'', FInt f), (''allocations'', FInt 0)] \<and> \<not> bit f 2 \<and>
        has n [(''gen'', FInt 7), (''scause'', FInt 12), (''after_flags'', FInt g), (''allocations'', FInt 0)] \<and> data_page g)"

definition pages_balanced :: "fval fields list \<Rightarrow> bool" where
  "pages_balanced cases \<longleftrightarrow>
     list_all (\<lambda>c. \<exists>v. has c [(''base'', v), (''after'', v)]) cases \<and> list_all (oom_returned cases) [(9, 1), (10, 2), (11, 3)]"

text \<open>
  C27: In an accepted virtual-memory transcript the trampoline is readable and executable but neither
  writable nor user-accessible, the trap frame is not executable, every page mapped by a fault is
  writable and not executable, a refused store leaves a read-only page unchanged, and the page
  ledger of every case balances, with a debt of one page exactly when the third allocation fails.
\<close>

theorem accepted_page_permissions:
  assumes "validate_vmtrace output = Inr r"
  shows "permissions_hold (vm_special_fields output) (vm_cases output) \<and> pages_balanced (vm_cases output)"
  using assms
proof (rule vm_parts)
  fix d
  assume s: "vm_special (vm_special_fields output) = Inr ()" and d: "vm_by_generation (vm_cases output) = Inr d"
    and l: "vm_ledger (vm_cases output) = Inr ()" and n: "each (vm_normal d) NORMAL_CASES = Inr ()"
    and r: "vm_refused d = Inr ()" and o: "each (vm_oom d) [(9, 1), (10, 2), (11, 3)] = Inr ()"
  from s have "\<exists>u k t. has (vm_special_fields output) [(''user_tramp_flags'', FInt u), (''kernel_tramp_flags'', FInt k), (''trap_flags'', FInt t)] \<and>
        code_page u \<and> code_page k \<and> frame_page t"
    unfolding vm_special_def by (auto simp: lab_simps dest: page_bits)
  moreover have "list_all (mapped_page (vm_cases output)) NORMAL_CASES"
    unfolding list_all_iff using normal_page [OF d each_member [OF n]] by (auto simp: mapped_page_def)
  moreover have "list_all (\<lambda>c. \<exists>v. has c [(''base'', v), (''after'', v)]) (vm_cases output)"
    using l unfolding vm_ledger_def by (auto simp: lab_simps list_all_iff)
  moreover have "list_all (oom_returned (vm_cases output)) [(9, 1), (10, 2), (11, 3)]"
  proof -
    have "oom_returned (vm_cases output) x" if "x \<in> set [(9, 1), (10, 2), (11, 3)]" for x
      using oom_debt [OF d, of "fst x" "snd x"] each_member [OF o that] by (simp add: oom_returned_def case_prod_beta)
    then show ?thesis unfolding list_all_iff by blast
  qed
  ultimately show ?thesis using refused_pages [OF d r] unfolding permissions_hold_def pages_balanced_def by blast
qed

theorem accepted_page_permissions_witness:
  "permissions_hold (vm_special_fields (script vm_demo)) (vm_cases (script vm_demo)) \<and> pages_balanced (vm_cases (script vm_demo))"
  using vm_demo_accepted accepted_page_permissions unfolding accepted_iff by blast

end
