(* ===== verification/Lifecycle.thy ===== *)
theory Lifecycle
  imports LabFields
begin

text \<open>
  The runner of the process laboratory, \<open>resources/process-lifecycle/run-lab.py\<close>: its search for tokens in
  order and the oracle for the transcript of \<open>lifecycle\<close>.
\<close>

text \<open>
  The state of the token search is the list of positions found so far and the offset after the last
  token; the sortedness of the positions is checked at the end.
\<close>

definition position_step :: "string \<Rightarrow> string \<Rightarrow> nat list \<times> nat \<Rightarrow> string \<Rightarrow> (nat list \<times> nat) result" where
  "position_step source message st token =
     (case find_from token source (snd st) of
        None \<Rightarrow> Inl (LabError message)
      | Some position \<Rightarrow> Inr (fst st @ [position], position + length token))"

definition life_require_in_order :: "string \<Rightarrow> string list \<Rightarrow> string \<Rightarrow> unit result" where
  "life_require_in_order source tokens context =
     bind_res (fold_res (position_step source (context @ '' token missing'')) ([], 0) tokens) (\<lambda>(positions, offset).
       require (positions = sort positions) (context @ '' order changed''))"

definition parse_snapshot :: "string \<Rightarrow> fval fields" where
  "parse_snapshot line = parse_pairs (\<lambda>key value. if key = ''name'' then FStr value else read_value value) line"

definition is_phase_char :: "char \<Rightarrow> bool" where
  "is_phase_char c \<longleftrightarrow> 65 \<le> (of_char c :: int) \<and> (of_char c :: int) \<le> 90 \<or> c = CHR ''_''"

text \<open>\<open>re.match(r"LIFE ([A-Z_]+)", line)\<close>\<close>

definition match_phase :: "string \<Rightarrow> string option" where
  "match_phase line =
     (let phase = takeWhile is_phase_char (drop 5 line) in
      if starts_with line ''LIFE '' \<and> phase \<noteq> [] then Some phase else None)"

type_synonym phases = "(string, fval fields list) dict"

definition phase_step :: "phases \<times> string list \<Rightarrow> string \<Rightarrow> (phases \<times> string list) result" where
  "phase_step st line =
     (case st of (phases, order) \<Rightarrow>
      case match_phase line of
        None \<Rightarrow> Inl (LabError ''malformed lifecycle marker'')
      | Some phase \<Rightarrow> Inr (dput phase (dget_or phases phase [] @ [parse_snapshot line]) phases, order @ [phase]))"

definition lifecycle_lines :: "string \<Rightarrow> (string list \<times> phases \<times> string list) result" where
  "lifecycle_lines output =
     (let lines = lines_with output ''LIFE '' in
      bind_res (require (lines \<noteq> []) ''lifecycle produced no markers'') (\<lambda>_.
      bind_res (fold_res phase_step ([], []) lines) (\<lambda>(phases, order).
        Inr (lines, phases, order))))"

definition LIFE_ORDER :: "string list" where
  "LIFE_ORDER =
     [''BASE'', ''EXEC_READY'', ''EXEC_AFTER'', ''WAIT_BAD'', ''EXEC_REAP'', ''EXECFAIL'', ''KILL_SLEEP'', ''KILL_REAP'',
      ''ORPHAN_REPARENT'', ''ORPHAN_REAP'', ''CAPACITY'', ''CAPACITY_REAP'', ''FINAL'', ''PASS'']"

definition LEDGER_KEYS :: "string list" where
  "LEDGER_KEYS = [''used'', ''free'', ''active_files'', ''refs'', ''parents'']"

text \<open>\<open>phases[name][0]\<close>\<close>

definition phase_first :: "phases \<Rightarrow> string \<Rightarrow> fval fields result" where
  "phase_first phases name =
     bind_res (dget phases name) (\<lambda>entries. case entries of [] \<Rightarrow> Inl IndexError | e # _ \<Rightarrow> Inr e)"

definition require_baseline_ledger :: "fval fields \<Rightarrow> fval fields \<Rightarrow> unit result" where
  "require_baseline_ledger base vals =
     checks (map (\<lambda>key. ([bind_res (dget base key) (\<lambda>v. Inr (map_of vals key = Some v))], ''ledger did not recover'')) LEDGER_KEYS)"

section \<open>Groups of checks\<close>

definition life_base :: "fval fields \<Rightarrow> unit result" where
  "life_base base =
     bind_res (requires (map (\<lambda>key. (key \<in> set (dkeys base), ''BASE missing '' @ key)) LEDGER_KEYS)) (\<lambda>_.
     check [item_cond base ''used'' (\<lambda>n. n \<ge> 3), item_cond base ''free'' (\<lambda>n. n > 0)]
       ''invalid baseline resource ledger'')"

definition life_exec :: "fval fields \<Rightarrow> phases \<Rightarrow> unit result" where
  "life_exec base phases =
     bind_res (phase_first phases ''EXEC_READY'') (\<lambda>ready.
     bind_res (phase_first phases ''EXEC_AFTER'') (\<lambda>after.
     bind_res (phase_first phases ''EXEC_REAP'') (\<lambda>reap.
     bind_res (checks
       [([gets_eq ready ''pid'' after ''pid''], ''exec changed pid''),
        ([gets_eq after ''pid'' reap ''pid''], ''wait reported another pid''),
        ([get_is ready ''pid_same'' (FInt 1), get_is ready ''fd_ok'' (FInt 1)],
         ''exec helper did not prove pid/fd inheritance''),
        ([get_is ready ''sleeping'' (FInt 1), get_is ready ''name'' (FStr ''lifecycle'')],
         ''pre-exec checkpoint is not a blocked lifecycle child''),
        ([get_is after ''sleeping'' (FInt 1), get_is after ''name'' (FStr ''lifeexec'')],
         ''post-exec checkpoint is not a blocked lifeexec child''),
        ([get_is after ''sz_changed'' (FInt 1)], ''exec did not replace the address-space size''),
        ([get_is after ''pagetable_changed'' (FInt 1), get_is after ''trapframe_same'' (FInt 1)],
         ''exec changed the wrong process-owned objects''),
        ([get_is after ''cwd_same'' (FInt 1)], ''exec did not preserve cwd ownership''),
        ([items_gt ready ''used'' base ''used'', items_gt ready ''parents'' base ''parents''],
         ''fork did not publish a child slot/parent link''),
        ([items_less ready ''free'' base ''free'', items_gt ready ''refs'' base ''refs''],
         ''fork did not account copied pages/file references'')]) (\<lambda>_.
     bind_res (phase_first phases ''WAIT_BAD'') (\<lambda>bad.
     bind_res (checks
       [([get_is bad ''ret'' (FInt (- 1)), get_is bad ''target_present'' (FInt 1), get_is bad ''zombie'' (FInt 1),
          get_is bad ''ofile'' (FInt 0)],
         ''invalid wait status pointer did not retain a cleaned zombie''),
        ([get_is reap ''status'' (FInt 37)], ''fork-exec child exit status was not preserved'')]) (\<lambda>_.
     require_baseline_ledger base reap))))))"

definition life_execfail :: "fval fields \<Rightarrow> phases \<Rightarrow> unit result" where
  "life_execfail base phases =
     bind_res (phase_first phases ''EXECFAIL'') (\<lambda>failed.
     checks
       [([get_is failed ''ret'' (FInt (- 1)), get_is failed ''pid_same'' (FInt 1)],
         ''failed exec did not return while retaining the process''),
        ([get_is failed ''sz_same'' (FInt 1), get_is failed ''fd_ok'' (FInt 1)],
         ''failed exec did not preserve image/resources''),
        ([item_cond base ''free'' (\<lambda>n. n > 64)],
         ''baseline lacks enough free pages to rule out argv pre-copy exhaustion'')])"

definition life_kill :: "fval fields \<Rightarrow> phases \<Rightarrow> unit result" where
  "life_kill base phases =
     bind_res (phase_first phases ''KILL_SLEEP'') (\<lambda>kill_sleep.
     bind_res (phase_first phases ''KILL_REAP'') (\<lambda>kill_reap.
     bind_res (checks
       [([get_is kill_sleep ''sleeping'' (FInt 1), get_is kill_sleep ''target_present'' (FInt 1)],
         ''kill fixture was not observed blocked''),
        ([get_is kill_reap ''status'' (FInt (- 1)), get_is kill_reap ''target_present'' (FInt 0)],
         ''blocked kill did not produce -1 status and reclaim the target'')]) (\<lambda>_.
     require_baseline_ledger base kill_reap)))"

definition life_orphan :: "fval fields \<Rightarrow> phases \<Rightarrow> unit result" where
  "life_orphan base phases =
     bind_res (phase_first phases ''ORPHAN_REPARENT'') (\<lambda>orphan.
     bind_res (phase_first phases ''ORPHAN_REAP'') (\<lambda>orphan_reap.
     bind_res (checks
       [([get_is orphan ''target_present'' (FInt 1), get_is orphan ''sleeping'' (FInt 1)],
         ''orphan was not retained as a live blocked child''),
        ([get_is orphan ''target_parent_init'' (FInt 1)], ''orphan parent was not init after intermediate exit''),
        ([get_is orphan_reap ''target_present'' (FInt 0), get_is orphan_reap ''absent'' (FInt 1)],
         ''init did not reclaim the orphan'')]) (\<lambda>_.
     require_baseline_ledger base orphan_reap)))"

definition life_capacity :: "fval fields \<Rightarrow> phases \<Rightarrow> unit result" where
  "life_capacity base phases =
     bind_res (phase_first phases ''CAPACITY'') (\<lambda>capacity.
     bind_res (phase_first phases ''CAPACITY_REAP'') (\<lambda>cap_reap.
     bind_res (checks
       [([get_is capacity ''fork_fail'' (FInt (- 1))], ''capacity fixture did not hit fork failure''),
        ([get_is capacity ''used'' (FInt 64)], ''capacity fixture did not fill NPROC slots''),
        ([get_cond capacity ''free'' (\<lambda>n. n > 0)], ''capacity fixture exhausted pages before NPROC''),
        ([bind_res (item_int capacity ''used'') (\<lambda>used. bind_res (item_int base ''used'') (\<lambda>n.
            get_is capacity ''children'' (FInt (used - n))))],
         ''capacity child count does not match used slots''),
        ([bind_res (dget base ''parents'') (\<lambda>v. bind_res (dget capacity ''children'') (\<lambda>w.
            bind_res (val_add v w) (\<lambda>total. get_is capacity ''parents'' total)))],
         ''capacity parent-link ledger mismatch''),
        ([bind_res (item_int base ''active_files'') (\<lambda>n. get_is capacity ''active_files'' (FInt (n + 2)))],
         ''capacity created an unexpected number of file objects'')]) (\<lambda>_.
     bind_res (item_int base ''refs'') (\<lambda>refs.
     bind_res (item_int capacity ''children'') (\<lambda>children.
     let expected_refs = refs + 2 + children * 4 in
     bind_res (check [get_is capacity ''refs'' (FInt expected_refs),
         get_is capacity ''inherited_refs'' (FInt (expected_refs - refs))]
       ''capacity file reference ledger mismatch'') (\<lambda>_.
     require_baseline_ledger base cap_reap))))))"

definition validate_lifecycle :: "string \<Rightarrow> string list result" where
  "validate_lifecycle output =
     bind_res (lifecycle_lines output) (\<lambda>(lines, phases, order).
     bind_res (require (order = LIFE_ORDER) ''lifecycle phase sequence changed'') (\<lambda>_.
     bind_res (requires (map (\<lambda>phase. (length (dget_or phases phase []) = 1, ''phase count mismatch: '' @ phase)) LIFE_ORDER)) (\<lambda>_.
     bind_res (phase_first phases ''BASE'') (\<lambda>base.
     bind_res (life_base base) (\<lambda>_.
     bind_res (life_exec base phases) (\<lambda>_.
     bind_res (life_execfail base phases) (\<lambda>_.
     bind_res (life_kill base phases) (\<lambda>_.
     bind_res (life_orphan base phases) (\<lambda>_.
     bind_res (life_capacity base phases) (\<lambda>_.
     bind_res (phase_first phases ''FINAL'') (\<lambda>final.
     bind_res (require_baseline_ledger base final) (\<lambda>_.
     Inr lines))))))))))))"

end
