(* ===== verification/LifecycleProps.thy ===== *)
theory LifecycleProps
  imports Lifecycle Transcript
begin

text \<open>
  The token searches of the runners decide whether tokens occur in order, and an accepted lifecycle
  transcript balances the resource ledger and accounts for every slot and reference at capacity.
\<close>

section \<open>Tokens in order\<close>

lemma positions_fold:
  assumes "fold_res (position_step source message) (ps, offset) tokens = r" and "sorted ps" and "list_all (\<lambda>p. p \<le> offset) ps"
  shows "case r of Inl e \<Rightarrow> fold_res (order_step source message) offset tokens = Inl e
    | Inr (qs, n) \<Rightarrow> fold_res (order_step source message) offset tokens = Inr n \<and> sorted qs"
  using assms
proof (induction tokens arbitrary: ps offset)
  case Nil
  then show ?case by auto
next
  case (Cons t ts)
  show ?case
  proof (cases "find_from t source offset")
    case None
    then show ?thesis using Cons.prems(1) by (auto simp: position_step_def order_step_def)
  next
    case (Some p)
    then have le: "offset \<le> p" by (auto simp: find_from_def split: if_splits)
    have "sorted (ps @ [p])" using Cons.prems(2,3) le by (fastforce simp: sorted_append list_all_iff)
    moreover have "list_all (\<lambda>q. q \<le> p + length t) (ps @ [p])" using Cons.prems(3) le by (fastforce simp: list_all_iff)
    moreover have step: "position_step source message (ps, offset) t = Inr (ps @ [p], p + length t)"
      and "order_step source message offset t = Inr (p + length t)"
      using Some by (simp_all add: position_step_def order_step_def)
    moreover have "fold_res (position_step source message) (ps @ [p], p + length t) ts = r" using Cons.prems(1) step by simp
    moreover from calculation have "fold_res (order_step source message) offset (t # ts) =
        fold_res (order_step source message) (p + length t) ts" by simp
    ultimately show ?thesis using Cons.IH [of "ps @ [p]" "p + length t"] by presburger
  qed
qed

lemma life_in_order_iff: "life_require_in_order source tokens context = Inr () \<longleftrightarrow> occur_in_order source tokens"
proof -
  let ?r = "fold_res (position_step source (context @ '' token missing'')) ([], 0) tokens"
  have "(\<exists>n. fold_res (order_step source (context @ '' token missing'')) 0 tokens = Inr n) \<longleftrightarrow> occur_in_order source tokens"
    using order_fold [of 0 source "context @ '' token missing''" tokens] by simp
  then show ?thesis using positions_fold [of source "context @ '' token missing''" "[]" 0 tokens ?r]
    by (cases ?r) (auto simp: life_require_in_order_def sorted_sort_id)
qed

text \<open>
  Both token searches of the runners, which always take the earliest match, succeed exactly when
  the tokens occur in the source one after the other without overlap; the final comparison of the
  recorded positions with their sorted list never fails.
\<close>

theorem token_order_decided:
  "(require_in_order source tokens context = Inr () \<longleftrightarrow> occur_in_order source tokens) \<and>
   (life_require_in_order source tokens context = Inr () \<longleftrightarrow> occur_in_order source tokens)"
  by (simp add: require_in_order_iff life_in_order_iff)

section \<open>Accepted transcripts\<close>

definition returns_to :: "fval fields \<Rightarrow> fval fields \<Rightarrow> bool" where
  "returns_to base snapshot \<longleftrightarrow> list_all (\<lambda>k. map_of base k \<noteq> None \<and> map_of snapshot k = map_of base k) LEDGER_KEYS"

lemma ledger_returns: "require_baseline_ledger base snapshot = Inr () \<Longrightarrow> returns_to base snapshot"
  unfolding require_baseline_ledger_def returns_to_def
  by (auto simp: lab_simps list_all_iff bind_res_eq_Inr)

lemma exec_returns:
  "life_exec base phases = Inr () \<Longrightarrow> \<exists>s. phase_first phases ''EXEC_REAP'' = Inr s \<and> returns_to base s"
  unfolding life_exec_def by (elim bind_res_InrE) (auto dest: ledger_returns)

lemma kill_returns:
  "life_kill base phases = Inr () \<Longrightarrow> \<exists>s. phase_first phases ''KILL_REAP'' = Inr s \<and> returns_to base s"
  unfolding life_kill_def by (elim bind_res_InrE) (auto dest: ledger_returns)

lemma orphan_returns:
  "life_orphan base phases = Inr () \<Longrightarrow> \<exists>s. phase_first phases ''ORPHAN_REAP'' = Inr s \<and> returns_to base s"
  unfolding life_orphan_def by (elim bind_res_InrE) (auto dest: ledger_returns)

lemma capacity_returns:
  "life_capacity base phases = Inr () \<Longrightarrow> \<exists>s. phase_first phases ''CAPACITY_REAP'' = Inr s \<and> returns_to base s"
  unfolding life_capacity_def Let_def by (elim bind_res_InrE) (auto dest: ledger_returns)

definition capacity_accounted :: "fval fields \<Rightarrow> fval fields \<Rightarrow> bool" where
  "capacity_accounted base capacity \<longleftrightarrow>
     (\<exists>used refs parents files children. has base [(''used'', FInt used), (''refs'', FInt refs), (''parents'', FInt parents),
        (''active_files'', FInt files)] \<and>
      has capacity [(''used'', FInt 64), (''children'', FInt children), (''parents'', FInt (parents + children)),
        (''active_files'', FInt (files + 2)), (''refs'', FInt (refs + 2 + 4 * children)),
        (''inherited_refs'', FInt (2 + 4 * children))] \<and>
      used + children = 64 \<and> children \<le> 61)"

lemma val_add_int: "val_add v (FInt j) = Inr w \<longleftrightarrow> (\<exists>i. v = FInt i \<and> w = FInt (i + j))"
  by (cases v) auto

lemma capacity_counts:
  assumes "life_base base = Inr ()" and "life_capacity base phases = Inr ()"
  shows "\<exists>s. phase_first phases ''CAPACITY'' = Inr s \<and> capacity_accounted base s"
proof -
  from assms(1) obtain used where used: "map_of base ''used'' = Some (FInt used)" "used \<ge> 3"
    unfolding life_base_def by (elim bind_res_InrE) (auto simp: lab_simps)
  from assms(2) obtain s refs children where s: "phase_first phases ''CAPACITY'' = Inr s"
    and "map_of base ''refs'' = Some (FInt refs)" and "map_of s ''children'' = Some (FInt children)"
    and "map_of s ''used'' = Some (FInt 64)" and "children = 64 - used"
    and "\<exists>p. map_of base ''parents'' = Some (FInt p) \<and> map_of s ''parents'' = Some (FInt (p + children))"
    and "\<exists>n. map_of base ''active_files'' = Some (FInt n) \<and> map_of s ''active_files'' = Some (FInt (n + 2))"
    and "map_of s ''refs'' = Some (FInt (refs + 2 + children * 4))"
    and "map_of s ''inherited_refs'' = Some (FInt (2 + children * 4))"
    unfolding life_capacity_def Let_def
    by (elim bind_res_InrE) (auto simp: lab_simps used(1) val_add_int bind_res_eq_Inr elim!: bind_res_InrE)
  then show ?thesis using used by (auto simp: capacity_accounted_def mult.commute)
qed

section \<open>A concrete transcript\<close>

definition life_demo :: "(string list \<times> fval fields) list" where
  "life_demo =
    [([''LIFE'', ''BASE''], [(''used'', FInt 3), (''free'', FInt 100), (''active_files'', FInt 1),
       (''refs'', FInt 9), (''parents'', FInt 2)]),
     ([''LIFE'', ''EXEC_READY''], [(''pid'', FInt 5), (''pid_same'', FInt 1), (''fd_ok'', FInt 1),
       (''sleeping'', FInt 1), (''name'', FStr ''lifecycle''), (''used'', FInt 4),
       (''parents'', FInt 3), (''free'', FInt 90), (''refs'', FInt 12)]),
     ([''LIFE'', ''EXEC_AFTER''], [(''pid'', FInt 5), (''sleeping'', FInt 1), (''name'', FStr ''lifeexec''),
       (''sz_changed'', FInt 1), (''pagetable_changed'', FInt 1), (''trapframe_same'', FInt 1),
       (''cwd_same'', FInt 1)]),
     ([''LIFE'', ''WAIT_BAD''], [(''ret'', FInt (- 1)), (''target_present'', FInt 1), (''zombie'', FInt 1),
       (''ofile'', FInt 0)]),
     ([''LIFE'', ''EXEC_REAP''], [(''pid'', FInt 5), (''status'', FInt 37), (''used'', FInt 3),
       (''free'', FInt 100), (''active_files'', FInt 1), (''refs'', FInt 9), (''parents'', FInt 2)]),
     ([''LIFE'', ''EXECFAIL''], [(''ret'', FInt (- 1)), (''pid_same'', FInt 1), (''sz_same'', FInt 1),
       (''fd_ok'', FInt 1)]),
     ([''LIFE'', ''KILL_SLEEP''], [(''sleeping'', FInt 1), (''target_present'', FInt 1)]),
     ([''LIFE'', ''KILL_REAP''], [(''status'', FInt (- 1)), (''target_present'', FInt 0), (''used'', FInt 3),
       (''free'', FInt 100), (''active_files'', FInt 1), (''refs'', FInt 9), (''parents'', FInt 2)]),
     ([''LIFE'', ''ORPHAN_REPARENT''], [(''target_present'', FInt 1), (''sleeping'', FInt 1),
       (''target_parent_init'', FInt 1)]),
     ([''LIFE'', ''ORPHAN_REAP''], [(''target_present'', FInt 0), (''absent'', FInt 1), (''used'', FInt 3),
       (''free'', FInt 100), (''active_files'', FInt 1), (''refs'', FInt 9), (''parents'', FInt 2)]),
     ([''LIFE'', ''CAPACITY''], [(''fork_fail'', FInt (- 1)), (''used'', FInt 64), (''free'', FInt 5),
       (''children'', FInt 61), (''parents'', FInt 63), (''active_files'', FInt 3),
       (''refs'', FInt 255), (''inherited_refs'', FInt 246)]),
     ([''LIFE'', ''CAPACITY_REAP''], [(''used'', FInt 3), (''free'', FInt 100), (''active_files'', FInt 1),
       (''refs'', FInt 9), (''parents'', FInt 2)]),
     ([''LIFE'', ''FINAL''], [(''used'', FInt 3), (''free'', FInt 100), (''active_files'', FInt 1),
       (''refs'', FInt 9), (''parents'', FInt 2)]),
     ([''LIFE'', ''PASS''], [(''cases'', FInt 6)])]"


text \<open>The phases of a transcript whose lines have distinct phases.\<close>

lemma match_phase_words:
  assumes "phase \<noteq> []" and "list_all is_phase_char phase" and "fs \<noteq> []"
  shows "match_phase (render_line (line_words ([''LIFE'', phase], fs))) = Some phase"
proof -
  obtain a fs' where fs: "fs = a # fs'" using assms(3) by (cases fs) auto
  let ?rest = "render_line (map (\<lambda>(k, v). render_token k (show_value v)) fs)"
  have line: "render_line (line_words ([''LIFE'', phase], fs)) = ''LIFE '' @ phase @ '' '' @ ?rest"
    by (simp add: line_words_def fs)
  have "takeWhile is_phase_char (phase @ '' '' @ ?rest) = phase"
    using assms(2) by (subst takeWhile_append2) (auto simp: list_all_iff is_phase_char_def)
  then show ?thesis unfolding line match_phase_def Let_def using assms(1) by (simp add: starts_with_def)
qed

lemma life_words: "plain_word ''LIFE''"
  by code_simp

lemma life_demo_ok: "two_words life_demo"
  by code_simp

lemma life_demo_lines: "lines_with (script life_demo) ''LIFE '' = map (\<lambda>l. render_line (line_words l)) life_demo"
proof -
  have "lines_with (text_of (map line_words life_demo)) (render_line [''LIFE''] @ '' '') =
      map render_line (filter (led_by [''LIFE'']) (map line_words life_demo))"
    using script_plain [OF two_words_ok [OF life_demo_ok]] life_words by (intro lines_with_text) auto
  moreover have "led_by [''LIFE''] (line_words l)" if "l \<in> set life_demo" for l
  proof -
    have "list_all (\<lambda>l. length (fst l) = 2 \<and> hd (fst l) = ''LIFE'') life_demo" by code_simp
    with that obtain a b where "fst l = [''LIFE'', b]"
      by (auto simp: list_all_iff length_Suc_conv numeral_2_eq_2)
    then show ?thesis by (simp add: led_by_def line_words_def)
  qed
  ultimately show ?thesis by (simp add: script_def filter_id_conv [THEN iffD2] o_def)
qed

lemma snapshot_words:
  assumes "line_ok l" and "list_all (\<lambda>(k, v). k = ''name'' \<longrightarrow> (case v of FStr s \<Rightarrow> True | FInt _ \<Rightarrow> False)) (snd l)"
  shows "parse_snapshot (render_line (line_words l)) = snd l"
  unfolding parse_snapshot_def
proof (rule parse_line_words [OF assms(1)])
  fix k v assume kv: "(k, v) \<in> set (snd l)"
  then have "read_value (show_value v) = v" using assms(1) by (auto simp: line_ok_def list_all_iff intro: pair_ok_value(2))
  then show "(if k = ''name'' then FStr (show_value v) else read_value (show_value v)) = v"
    using assms(2) kv by (cases v) (auto simp: list_all_iff)
qed

definition phase_line :: "string list \<times> fval fields \<Rightarrow> bool" where
  "phase_line l \<longleftrightarrow> line_ok l \<and> length (fst l) = 2 \<and> fst l ! 0 = ''LIFE'' \<and> fst l ! 1 \<noteq> [] \<and> list_all is_phase_char (fst l ! 1) \<and>
     snd l \<noteq> [] \<and> list_all (\<lambda>(k, v). k = ''name'' \<longrightarrow> (case v of FStr s \<Rightarrow> True | FInt _ \<Rightarrow> False)) (snd l)"

lemma phase_fold:
  assumes "list_all phase_line ls" and "distinct (order @ map (\<lambda>l. fst l ! 1) ls)" and "dkeys phases = order"
  shows "fold_res phase_step (phases, order) (map (\<lambda>l. render_line (line_words l)) ls) =
    Inr (phases @ map (\<lambda>l. (fst l ! 1, [snd l])) ls, order @ map (\<lambda>l. fst l ! 1) ls)"
  using assms
proof (induction ls arbitrary: phases order)
  case (Cons l ls)
  have ok: "phase_line l" using Cons.prems by simp
  then obtain p where p: "fst l = [''LIFE'', p]" by (auto simp: phase_line_def length_Suc_conv numeral_2_eq_2)
  then have l: "l = ([''LIFE'', p], snd l)" by (metis prod.collapse)
  have "match_phase (render_line (line_words l)) = Some p"
    using ok p match_phase_words [of p "snd l"] l by (simp add: phase_line_def)
  moreover have "parse_snapshot (render_line (line_words l)) = snd l"
    using ok by (intro snapshot_words) (simp_all add: phase_line_def)
  moreover have new: "p \<notin> set (dkeys phases)" using Cons.prems(2,3) p by auto
  moreover have "dget_or phases p [] = []"
    using new by (simp add: dget_or_def dkeys_def map_of_eq_None_iff [THEN iffD2])
  ultimately have "phase_step (phases, order) (render_line (line_words l)) = Inr (phases @ [(p, [snd l])], order @ [p])"
    by (simp add: phase_step_def dput_new)
  then show ?case using Cons.IH [of "order @ [p]" "phases @ [(p, [snd l])]"] Cons.prems p by (simp add: dkeys_def)
qed simp

definition demo_phases :: phases where
  "demo_phases = map (\<lambda>l. (fst l ! 1, [snd l])) life_demo"

lemma life_demo_phases:
  "lifecycle_lines (script life_demo) = Inr (map (\<lambda>l. render_line (line_words l)) life_demo, demo_phases, LIFE_ORDER)"
proof -
  have "list_all phase_line life_demo" "distinct (map (\<lambda>l. fst l ! 1) life_demo)" "map (\<lambda>l. fst l ! 1) life_demo = LIFE_ORDER"
    "life_demo \<noteq> []"
    by code_simp+
  then show ?thesis using phase_fold [of life_demo "[]" "[]"]
    by (simp add: lifecycle_lines_def life_demo_lines demo_phases_def dkeys_def)
qed

lemma life_demo_checks:
  "requires (map (\<lambda>phase. (length (dget_or demo_phases phase []) = 1, ''phase count mismatch: '' @ phase)) LIFE_ORDER) = Inr ()"
  "phase_first demo_phases ''BASE'' = Inr (snd (life_demo ! 0))" "life_base (snd (life_demo ! 0)) = Inr ()"
  "life_exec (snd (life_demo ! 0)) demo_phases = Inr ()" "life_execfail (snd (life_demo ! 0)) demo_phases = Inr ()"
  "life_kill (snd (life_demo ! 0)) demo_phases = Inr ()" "life_orphan (snd (life_demo ! 0)) demo_phases = Inr ()"
  "life_capacity (snd (life_demo ! 0)) demo_phases = Inr ()" "phase_first demo_phases ''FINAL'' = Inr (snd (life_demo ! 12))"
  "require_baseline_ledger (snd (life_demo ! 0)) (snd (life_demo ! 12)) = Inr ()"
  by code_simp+

lemma life_demo_accepted: "accepted (validate_lifecycle (script life_demo))"
  by (simp only: validate_lifecycle_def life_demo_phases bind_res_Inr prod.case simp_thms require_True life_demo_checks accepted_def sum.case)

section \<open>Property\<close>

text \<open>
  C28: In an accepted lifecycle transcript every reaping phase returns the whole ledger (process slots,
  free pages, open files, references and parent links) to the baseline; and at capacity the slots,
  parent links and file references are fully accounted for by the children, of which there are at
  most 61.
\<close>

theorem accepted_lifecycle_ledger:
  assumes "validate_lifecycle output = Inr lines"
  shows "\<exists>phases base. lifecycle_lines output = Inr (lines, phases, LIFE_ORDER) \<and> phase_first phases ''BASE'' = Inr base \<and>
    list_all (\<lambda>p. \<exists>s. phase_first phases p = Inr s \<and> returns_to base s)
      [''EXEC_REAP'', ''KILL_REAP'', ''ORPHAN_REAP'', ''CAPACITY_REAP'', ''FINAL''] \<and>
    (\<exists>s. phase_first phases ''CAPACITY'' = Inr s \<and> capacity_accounted base s)"
proof -
  from assms obtain phases base final where parts: "lifecycle_lines output = Inr (lines, phases, LIFE_ORDER)"
    "phase_first phases ''BASE'' = Inr base" "life_base base = Inr ()" "life_exec base phases = Inr ()"
    "life_kill base phases = Inr ()" "life_orphan base phases = Inr ()" "life_capacity base phases = Inr ()"
    "phase_first phases ''FINAL'' = Inr final" "require_baseline_ledger base final = Inr ()"
    unfolding validate_lifecycle_def by (elim bind_res_InrE) (auto simp: result_simps elim!: bind_res_InrE)
  then show ?thesis
    using exec_returns kill_returns orphan_returns capacity_returns capacity_counts ledger_returns by fastforce
qed

theorem accepted_lifecycle_ledger_witness:
  "\<exists>lines phases base. validate_lifecycle (script life_demo) = Inr lines \<and> lifecycle_lines (script life_demo) = Inr (lines, phases, LIFE_ORDER) \<and>
     (\<exists>s. phase_first phases ''CAPACITY'' = Inr s \<and> capacity_accounted base s)"
  using life_demo_accepted accepted_lifecycle_ledger unfolding accepted_iff by blast

end
