(* ===== verification/FsTrace.thy ===== *)
theory FsTrace
  imports LabFields
begin

text \<open>
  The runner of the file-system laboratory, \<open>resources/filesystem/run-lab.py\<close>: the marker schemas, the
  parser and the oracle for the transcript of \<open>fstrace\<close>, and the runner's self-test.
\<close>

section \<open>Schemas\<close>

definition FS_LEDGER :: "string list" where
  "FS_LEDGER = [''blocks'', ''inodes'', ''itable_active'', ''itable_refs'', ''file_objects'', ''file_refs'', ''buf_refs'']"

definition FS_SCHEMAS :: "(string \<times> string list) list" where
  "FS_SCHEMAS =
     [(''BASE'', FS_LEDGER),
      (''RW'', [''generation'', ''path_steps'', ''inum'', ''type'', ''nlink'', ''size'', ''write'', ''read'', ''checksum'',
         ''direct0'', ''direct11'', ''indirect'', ''indirect0'', ''data_blocks'', ''open_seq'', ''file_write_seq'',
         ''inode_write_seq'', ''direct_seq'', ''buffer_seq'', ''indirect_seq'', ''file_read_seq'', ''inode_read_seq'',
         ''buffer_block'', ''buffer_valid'', ''buffer_ref'', ''buffer_locked'', ''status'', ''cleanup'']),
      (''LINK'', [''generation'', ''inum'', ''nlink0'', ''nlink1'', ''nlink2'', ''nlink3'', ''path_old'', ''path_alias'',
         ''read'', ''first'', ''last'', ''open_fd'', ''blocks_held'', ''inodes_held'', ''status'', ''cleanup'']),
      (''TRUNC'', [''generation'', ''inum_fd0'', ''inum_fd1'', ''before_size'', ''before_blocks'', ''after_size'',
         ''after_blocks'', ''peer_size'', ''rewrite'', ''final_size'', ''status'', ''cleanup'']),
      (''FDFAIL'', [''generation'', ''filled'', ''create'', ''check_fd'', ''nlink'', ''size'', ''blocks_held'',
         ''inodes_held'', ''status'', ''cleanup'']),
      (''LINKFAIL'', [''generation'', ''fail_at'', ''eligible'', ''fired'', ''link'', ''target'', ''nlink_before'',
         ''nlink_after'', ''blocks_before'', ''blocks_after'', ''inodes_before'', ''inodes_after'', ''status'', ''cleanup'']),
      (''ALLOCFAIL'', [''generation'', ''fail_at'', ''eligible'', ''fired'', ''write'', ''size_before'', ''size_after'',
         ''indirect_before'', ''indirect_after'', ''indirect_data'', ''blocks_before'', ''blocks_after'',
         ''inodes_before'', ''inodes_after'', ''status'', ''cleanup'']),
      (''AFTER'', FS_LEDGER @ [''phase'']),
      (''PASS'', [''cases'', ''cleanup''])]"

definition FS_ORDER :: "string list" where
  "FS_ORDER = [''BASE'', ''RW'', ''AFTER'', ''LINK'', ''AFTER'', ''TRUNC'', ''AFTER'', ''FDFAIL'', ''AFTER'', ''LINKFAIL'',
     ''AFTER'', ''ALLOCFAIL'', ''AFTER'', ''PASS'']"

section \<open>Parsing\<close>

definition fs_field_step :: "string \<Rightarrow> string fields \<Rightarrow> string \<Rightarrow> string fields result" where
  "fs_field_step phase values token =
     bind_res (require (count_list token CHR ''='' = 1) (''malformed '' @ phase @ '' field'')) (\<lambda>_.
     let (key, value) = split_once CHR ''='' token in
     bind_res (require (key \<notin> set (dkeys values)) (''duplicate '' @ phase @ '' field'')) (\<lambda>_.
       Inr (dput key value values)))"

text \<open>
  \<open>value.lstrip("-").isdigit()\<close> admits any number of leading minus signs, \<open>int(value)\<close> at most one.
\<close>

definition fs_value_step :: "string \<Rightarrow> fval fields \<Rightarrow> string \<times> string \<Rightarrow> fval fields result" where
  "fs_value_step phase parsed item =
     (case item of (key, value) \<Rightarrow>
      if phase = ''AFTER'' \<and> key = ''phase'' then Inr (dput key (FStr value) parsed)
      else
        let body = dropWhile (\<lambda>c. c = CHR ''-'') value in
        bind_res (require (body \<noteq> [] \<and> list_all is_digit body) (''non-integer '' @ phase @ '' field'')) (\<lambda>_.
        if is_int_literal value then Inr (dput key (FInt (read_int value)) parsed) else Inl ValueError))"

definition fs_parse_fields :: "string \<Rightarrow> string list \<Rightarrow> fval fields result" where
  "fs_parse_fields phase tokens =
     bind_res (fold_res (fs_field_step phase) [] tokens) (\<lambda>values.
     bind_res (dget FS_SCHEMAS phase) (\<lambda>schema.
     bind_res (require (set (dkeys values) = set schema) (phase @ '' fields changed'')) (\<lambda>_.
       fold_res (fs_value_step phase) [] values)))"

type_synonym fs_marker = "string \<times> fval fields"

definition fs_line_step :: "fs_marker list \<Rightarrow> string \<Rightarrow> fs_marker list result" where
  "fs_line_step markers line =
     (if \<not> starts_with line ''FS '' then Inr markers
      else
        let parts = split_ws line in
        bind_res (require (length parts \<ge> 3) ''malformed FS marker'') (\<lambda>_.
        let phase = parts ! 1 in
        bind_res (require (phase \<in> set (dkeys FS_SCHEMAS)) ''unexpected FS marker'') (\<lambda>_.
        bind_res (fs_parse_fields phase (drop 2 parts)) (\<lambda>fs.
          Inr (markers @ [(phase, fs)])))))"

definition fs_parse_trace :: "string \<Rightarrow> fs_marker list result" where
  "fs_parse_trace text =
     bind_res (fold_res fs_line_step [] (splitlines (remove_cr text))) (\<lambda>markers.
     bind_res (require (map fst markers = FS_ORDER) ''filesystem marker order/count changed'') (\<lambda>_.
       Inr markers))"

section \<open>The oracle\<close>

definition fs_base :: "fval fields \<Rightarrow> unit result" where
  "fs_base base =
     require (fint base ''blocks'' > 0 \<and> fint base ''inodes'' > 0 \<and> fint base ''itable_active'' > 0 \<and>
       fint base ''itable_refs'' \<ge> fint base ''itable_active'' \<and> fint base ''file_objects'' > 0 \<and>
       fint base ''file_refs'' \<ge> fint base ''file_objects'' \<and> fint base ''buf_refs'' = 0)
       ''invalid filesystem BASE ledger''"

definition fs_after :: "fval fields \<Rightarrow> fval fields \<times> string \<Rightarrow> unit result" where
  "fs_after base item =
     (case item of (after, phase) \<Rightarrow>
      requires
        [(fstr after ''phase'' = phase, ''wrong AFTER phase for '' @ phase),
         (list_all (\<lambda>key. fint after key = fint base key) FS_LEDGER,
           phase @ '' resource ledger did not return to BASE'')])"

definition RW_SEQ :: "string list" where
  "RW_SEQ = [''open_seq'', ''file_write_seq'', ''inode_write_seq'', ''direct_seq'', ''buffer_seq'', ''indirect_seq'',
     ''file_read_seq'', ''inode_read_seq'']"

definition fs_rw :: "fval fields \<Rightarrow> unit result" where
  "fs_rw rw =
     (let addresses = map (fint rw) [''direct0'', ''direct11'', ''indirect'', ''indirect0''];
          sequence = map (fint rw) RW_SEQ
      in requires
        [(fint rw ''generation'' = 1 \<and> fint rw ''path_steps'' = 2 \<and> fint rw ''type'' = 2 \<and> fint rw ''nlink'' = 1 \<and>
            fint rw ''inum'' > 0, ''RW path/inode identity changed''),
         (fint rw ''size'' = 12305 \<and> fint rw ''write'' = fint rw ''read'' \<and> fint rw ''read'' = 12305 \<and>
            fint rw ''checksum'' = 867834 \<and> fint rw ''data_blocks'' = 13,
            ''RW byte or direct/indirect count changed''),
         (list_all (\<lambda>address. address > 0) addresses \<and> length (remdups addresses) = length addresses,
            ''RW block ownership changed''),
         (list_all (\<lambda>seq. seq > 0) sequence \<and> length (remdups sequence) = length sequence \<and> sequence = sort sequence,
            ''RW layer/event order changed''),
         (fint rw ''buffer_block'' = fint rw ''direct0'' \<and> fint rw ''buffer_valid'' = 1 \<and> fint rw ''buffer_ref'' \<ge> 1 \<and>
            fint rw ''buffer_locked'' = 1 \<and> fint rw ''status'' = 0 \<and> fint rw ''cleanup'' = 1,
            ''RW buffer state or result changed'')])"

definition fs_link :: "fval fields \<Rightarrow> fval fields \<Rightarrow> unit result" where
  "fs_link base link =
     requires
       [(fint link ''generation'' = 2 \<and> fint link ''inum'' > 0 \<and> fint link ''nlink0'' = 1 \<and> fint link ''nlink1'' = 2 \<and>
           fint link ''nlink2'' = 1 \<and> fint link ''nlink3'' = 0, ''link/unlink nlink state changed''),
        (fint link ''path_old'' = fint link ''path_alias'' \<and> fint link ''path_alias'' = - 1 \<and> fint link ''read'' = 5 \<and>
           fint link ''first'' = 104 \<and> fint link ''last'' = 111 \<and> fint link ''open_fd'' \<ge> 0 \<and>
           fint link ''blocks_held'' = fint base ''blocks'' + 1 \<and> fint link ''inodes_held'' = fint base ''inodes'' + 1 \<and>
           fint link ''status'' = 0 \<and> fint link ''cleanup'' = 1, ''open-unlinked inode ownership changed'')]"

definition fs_trunc :: "fval fields \<Rightarrow> unit result" where
  "fs_trunc trunc =
     require (fint trunc ''generation'' = 3 \<and> fint trunc ''inum_fd0'' > 0 \<and>
       fint trunc ''inum_fd0'' = fint trunc ''inum_fd1'' \<and> fint trunc ''before_size'' = 2048 \<and>
       fint trunc ''before_blocks'' = 2 \<and> fint trunc ''after_size'' = fint trunc ''after_blocks'' \<and>
       fint trunc ''after_blocks'' = fint trunc ''peer_size'' \<and> fint trunc ''peer_size'' = 0 \<and>
       fint trunc ''rewrite'' = fint trunc ''final_size'' \<and> fint trunc ''final_size'' = 3 \<and>
       fint trunc ''status'' = 0 \<and> fint trunc ''cleanup'' = 1) ''O_TRUNC ownership/result changed''"

definition fs_fdfail :: "fval fields \<Rightarrow> fval fields \<Rightarrow> unit result" where
  "fs_fdfail base fdfail =
     require (fint fdfail ''generation'' = 4 \<and> fint fdfail ''filled'' = 12 \<and> fint fdfail ''create'' = - 1 \<and>
       fint fdfail ''check_fd'' \<ge> 0 \<and> fint fdfail ''nlink'' = 1 \<and> fint fdfail ''size'' = 0 \<and>
       fint fdfail ''blocks_held'' = fint base ''blocks'' \<and> fint fdfail ''inodes_held'' = fint base ''inodes'' + 1 \<and>
       fint fdfail ''status'' = 0 \<and> fint fdfail ''cleanup'' = 1) ''fd-exhaustion create side effect changed''"

definition fs_linkfail :: "fval fields \<Rightarrow> unit result" where
  "fs_linkfail linkfail =
     require (fint linkfail ''generation'' = 5 \<and> fint linkfail ''fail_at'' = 1 \<and>
       fint linkfail ''eligible'' = fint linkfail ''fired'' \<and> fint linkfail ''fired'' = 1 \<and>
       fint linkfail ''link'' = fint linkfail ''target'' \<and> fint linkfail ''target'' = - 1 \<and>
       fint linkfail ''nlink_before'' = fint linkfail ''nlink_after'' \<and> fint linkfail ''nlink_after'' = 1 \<and>
       fint linkfail ''blocks_before'' = fint linkfail ''blocks_after'' \<and>
       fint linkfail ''inodes_before'' = fint linkfail ''inodes_after'' \<and>
       fint linkfail ''status'' = 0 \<and> fint linkfail ''cleanup'' = 1) ''link rollback changed''"

definition fs_allocfail :: "fval fields \<Rightarrow> unit result" where
  "fs_allocfail alloc =
     require (fint alloc ''generation'' = 6 \<and> fint alloc ''fail_at'' = 2 \<and> fint alloc ''eligible'' = 2 \<and>
       fint alloc ''fired'' = 1 \<and> fint alloc ''write'' = - 1 \<and> fint alloc ''size_before'' = fint alloc ''size_after'' \<and>
       fint alloc ''size_after'' = 12288 \<and> fint alloc ''indirect_before'' = 0 \<and> fint alloc ''indirect_after'' > 0 \<and>
       fint alloc ''indirect_data'' = 0 \<and> fint alloc ''blocks_after'' = fint alloc ''blocks_before'' + 1 \<and>
       fint alloc ''inodes_after'' = fint alloc ''inodes_before'' \<and> fint alloc ''status'' = 0 \<and>
       fint alloc ''cleanup'' = 1) ''late block-allocation failure contract changed''"

definition validate_fstrace :: "string \<Rightarrow> (string, fval fields) dict result" where
  "validate_fstrace text =
     bind_res (fs_parse_trace text) (\<lambda>markers.
     let values = map snd markers; base = values ! 0 in
     bind_res (fs_base base) (\<lambda>_.
     bind_res (fold_res (\<lambda>_. fs_after base) () (zip (map (\<lambda>i. values ! i) [2, 4, 6, 8, 10, 12])
       [''RW'', ''LINK'', ''TRUNC'', ''FDFAIL'', ''LINKFAIL'', ''ALLOCFAIL''])) (\<lambda>_.
     bind_res (fs_rw (values ! 1)) (\<lambda>_.
     bind_res (fs_link base (values ! 3)) (\<lambda>_.
     bind_res (fs_trunc (values ! 5)) (\<lambda>_.
     bind_res (fs_fdfail base (values ! 7)) (\<lambda>_.
     bind_res (fs_linkfail (values ! 9)) (\<lambda>_.
     bind_res (fs_allocfail (values ! 11)) (\<lambda>_.
     bind_res (require (fint (values ! 13) ''cases'' = 6 \<and> fint (values ! 13) ''cleanup'' = 1)
       ''filesystem PASS marker changed'') (\<lambda>_.
     Inr (foldl (\<lambda>d (phase, fs). dput phase fs d) [] (filter (\<lambda>(phase, fs). phase \<noteq> ''AFTER'') markers))))))))))))"

end
