(* ===== verification/FsTraceProps.thy ===== *)
theory FsTraceProps
  imports FsTrace Transcript
begin

text \<open>
  Properties of the file-system oracle: the types of parsed markers, the reading of rendered markers,
  and what an accepted transcript shows about resources and the order of events.
\<close>

section \<open>Types of parsed markers\<close>

definition typed_value :: "string \<Rightarrow> string \<Rightarrow> fval \<Rightarrow> bool" where
  "typed_value phase key v \<longleftrightarrow>
     (if phase = ''AFTER'' \<and> key = ''phase'' then (\<exists>s. v = FStr s) else (\<exists>i. v = FInt i))"

definition typed_fields :: "string \<Rightarrow> fval fields \<Rightarrow> bool" where
  "typed_fields phase fs \<longleftrightarrow> (\<forall>k v. map_of fs k = Some v \<longrightarrow> typed_value phase k v)"

lemma fs_value_step_typed:
  assumes "fs_value_step phase fs item = Inr fs'"
  shows "dkeys fs' = (if fst item \<in> set (dkeys fs) then dkeys fs else dkeys fs @ [fst item])"
    and "typed_fields phase fs \<Longrightarrow> typed_fields phase fs'"
proof -
  obtain k s where item: "item = (k, s)" by (cases item)
  with assms obtain v where v: "fs' = dput k v fs" "typed_value phase k v"
    by (auto simp: fs_value_step_def typed_value_def Let_def split: if_splits elim!: bind_res_InrE)
  show "dkeys fs' = (if fst item \<in> set (dkeys fs) then dkeys fs else dkeys fs @ [fst item])"
    unfolding v item dput_def dkeys_def by (simp add: update_keys)
  show "typed_fields phase fs \<Longrightarrow> typed_fields phase fs'"
    using v by (auto simp: typed_fields_def)
qed

interpretation fs_values: reducer "fs_value_step phase" "typed_fields phase" for phase
  by unfold_locales (rule fs_value_step_typed(2))

lemma fs_values_keys:
  assumes "fold_res (fs_value_step phase) fs items = Inr fs'"
  shows "set (dkeys fs') = set (dkeys fs) \<union> fst ` set items"
  using assms
proof (induction items arbitrary: fs)
  case (Cons item items)
  then obtain gs where "fs_value_step phase fs item = Inr gs" "fold_res (fs_value_step phase) gs items = Inr fs'"
    by (auto elim: bind_res_InrE)
  with Cons.IH [of gs] fs_value_step_typed(1) [of phase fs item gs] show ?case by (auto split: if_splits)
qed simp

lemma fs_field_step_error: "fs_field_step phase d token = Inl e \<Longrightarrow> \<exists>m. e = LabError m"
  by (auto simp: fs_field_step_def Let_def require_def case_prod_beta split: if_splits)

lemma fs_fields_error: "fold_res (fs_field_step phase) d tokens = Inl e \<Longrightarrow> \<exists>m. e = LabError m"
  by (induction tokens arbitrary: d) (auto simp: bind_res_eq_Inl dest: fs_field_step_error)

lemma fs_value_step_error:
  "fs_value_step phase fs (k, s) = Inl e \<Longrightarrow> (\<exists>m. e = LabError m) \<or> (e = ValueError \<and> take 2 s = ''--'')"
proof -
  assume a: "fs_value_step phase fs (k, s) = Inl e"
  let ?body = "dropWhile (\<lambda>c. c = CHR ''-'') s"
  show ?thesis
  proof (cases "?body \<noteq> [] \<and> list_all is_digit ?body \<and> \<not> is_int_literal s")
    case True
    then have "take 2 s = ''--''"
      by (cases s; cases "tl s") (auto simp: is_int_literal_def Let_def split: if_splits)
    with a True show ?thesis by (auto simp: fs_value_step_def Let_def split: if_splits)
  next
    case False
    with a show ?thesis by (auto simp: fs_value_step_def Let_def require_def split: if_splits)
  qed
qed

lemma fs_values_error:
  "fold_res (fs_value_step phase) fs items = Inl e \<Longrightarrow>
     (\<exists>m. e = LabError m) \<or> (e = ValueError \<and> (\<exists>(k, s) \<in> set items. take 2 s = ''--''))"
proof (induction items arbitrary: fs)
  case (Cons item items)
  obtain k s where item: "item = (k, s)" by (cases item)
  with Cons.prems consider "fs_value_step phase fs (k, s) = Inl e" | gs where "fold_res (fs_value_step phase) gs items = Inl e"
    by (auto simp: bind_res_eq_Inl)
  then show ?case
  proof cases
    case 1
    then show ?thesis using fs_value_step_error [OF 1] by (auto simp: item)
  next
    case 2
    then show ?thesis using Cons.IH [OF 2] by (auto simp: item)
  qed
qed simp

lemma fs_fields_raw:
  "fold_res (fs_field_step phase) d tokens = Inr d' \<Longrightarrow>
     \<forall>(k, s) \<in> set d'. (k, s) \<in> set d \<or> (\<exists>t \<in> set tokens. t = render_token k s)"
proof (induction tokens arbitrary: d)
  case (Cons t ts)
  from Cons.prems obtain d1 where d1: "fs_field_step phase d t = Inr d1" and run: "fold_res (fs_field_step phase) d1 ts = Inr d'"
    by (auto elim: bind_res_InrE)
  from d1 obtain k s where ks: "split_once CHR ''='' t = (k, s)" "count_list t CHR ''='' = 1" "k \<notin> set (dkeys d)" "d1 = dput k s d"
    by (auto simp: fs_field_step_def result_simps split: prod.splits)
  have "CHR ''='' \<in> set t" using ks(2) by (metis count_list_0_iff zero_neq_one)
  then have "t = render_token k s"
    using ks(1) by (auto dest!: split_list_first simp: split_once_join render_token_def)
  then show ?case using Cons.IH [OF run] ks(3,4) by (fastforce simp: dput_new)
qed auto

text \<open>
  Parsing a known marker either raises the laboratory's own error, or raises \<open>ValueError\<close> because
  some value starts with two minus signs, or yields exactly the fields of the schema, each an
  integer except the phase name of an \<open>AFTER\<close> marker.  Every field access of the oracle is thus
  well-typed.
\<close>

theorem fs_parse_fields_typed:
  assumes "map_of FS_SCHEMAS phase = Some schema"
  shows "case fs_parse_fields phase tokens of
      Inl e \<Rightarrow> (\<exists>m. e = LabError m) \<or> e = ValueError \<and> (\<exists>k s. render_token k s \<in> set tokens \<and> take 2 s = ''--'')
    | Inr fs \<Rightarrow> set (dkeys fs) = set schema \<and> typed_fields phase fs"
proof (cases "fs_parse_fields phase tokens")
  case (Inl e)
  then consider "fold_res (fs_field_step phase) [] tokens = Inl e" | d where "fold_res (fs_field_step phase) [] tokens = Inr d"
      "(\<exists>m. e = LabError m) \<or> fold_res (fs_value_step phase) [] d = Inl e"
    using assms by (auto simp: fs_parse_fields_def bind_res_eq_Inl dget_def require_eq_Inl)
  then show ?thesis
  proof cases
    case 1
    then show ?thesis using Inl fs_fields_error by fastforce
  next
    case (2 d)
    then show ?thesis using Inl fs_values_error [of phase "[]" d e] fs_fields_raw [OF 2(1)] by fastforce
  qed
next
  case (Inr fs)
  then obtain d where d: "set (dkeys d) = set schema" "fold_res (fs_value_step phase) [] d = Inr fs"
    using assms by (auto simp: fs_parse_fields_def lab_simps result_simps)
  have "typed_fields phase fs" using fs_values.run_inv [OF d(2)] by (simp add: typed_fields_def)
  moreover have "set (dkeys fs) = set schema" using fs_values_keys [OF d(2)] d(1) by (simp add: dkeys_def)
  ultimately show ?thesis using Inr by simp
qed

theorem fs_parse_fields_typed_witness:
  "map_of FS_SCHEMAS ''PASS'' = Some [''cases'', ''cleanup''] \<and>
   (case fs_parse_fields ''PASS'' [''cases=6'', ''cleanup=1''] of Inl _ \<Rightarrow> False | Inr fs \<Rightarrow> typed_fields ''PASS'' fs) \<and>
   fs_parse_fields ''PASS'' [''cases=--6'', ''cleanup=1''] = Inl ValueError"
proof -
  have s: "map_of FS_SCHEMAS ''PASS'' = Some [''cases'', ''cleanup'']" by code_simp
  have "fs_parse_fields ''PASS'' [''cases=6'', ''cleanup=1''] = Inr [(''cases'', FInt 6), (''cleanup'', FInt 1)]" by code_simp
  moreover have "fs_parse_fields ''PASS'' [''cases=--6'', ''cleanup=1''] = Inl ValueError" by code_simp
  ultimately show ?thesis using s fs_parse_fields_typed [OF s, of "[''cases=6'', ''cleanup=1'']"] by simp
qed

section \<open>Rendered markers\<close>

definition right_kind :: "string \<Rightarrow> string \<times> fval \<Rightarrow> bool" where
  "right_kind phase kv \<longleftrightarrow> (case snd kv of FInt _ \<Rightarrow> \<not> (phase = ''AFTER'' \<and> fst kv = ''phase'')
     | FStr _ \<Rightarrow> phase = ''AFTER'' \<and> fst kv = ''phase'')"

definition fs_ok :: "string list \<times> fval fields \<Rightarrow> bool" where
  "fs_ok l \<longleftrightarrow> tokens_ok l \<and> fst l ! 0 = ''FS'' \<and> snd l \<noteq> [] \<and>
     (case map_of FS_SCHEMAS (fst l ! 1) of None \<Rightarrow> False | Some schema \<Rightarrow> set (dkeys (snd l)) = set schema) \<and>
     list_all (right_kind (fst l ! 1)) (snd l)"

definition raw_fields :: "fval fields \<Rightarrow> string fields" where
  "raw_fields fs = map (\<lambda>(k, v). (k, show_value v)) fs"

lemma fs_fields_rendered:
  assumes "list_all token_ok fs" and "dict_ok (raw_fields (d @ fs))"
  shows "fold_res (fs_field_step phase) (raw_fields d) (map (\<lambda>(k, v). render_token k (show_value v)) fs) = Inr (raw_fields (d @ fs))"
  using assms
proof (induction fs arbitrary: d)
  case (Cons a fs)
  obtain k v where a: "a = (k, v)" by (cases a)
  note v = token_ok_value [of k v]
  have new: "k \<notin> set (dkeys (raw_fields d))" using Cons.prems(2) by (auto simp: a dict_ok_def dkeys_def raw_fields_def)
  then have "fs_field_step phase (raw_fields d) (render_token k (show_value v)) = Inr (raw_fields (d @ [(k, v)]))"
    using Cons.prems(1) v by (simp add: a fs_field_step_def dput_new raw_fields_def)
  then show ?case using Cons.IH [of "d @ [(k, v)]"] Cons.prems by (simp add: a)
qed simp

lemma fs_value_rendered:
  assumes "right_kind phase (k, v)"
  shows "fs_value_step phase d (k, show_value v) = Inr (dput k v d)"
proof (cases v)
  case (FInt i)
  have minus: "dropWhile (\<lambda>c. c = CHR ''-'') (show_nat n) = show_nat n" for n
    using show_nat_digits [of n] minus_not_digit by (cases "show_nat n") auto
  then have body: "dropWhile (\<lambda>c. c = CHR ''-'') (show_int i) \<noteq> [] \<and> list_all is_digit (dropWhile (\<lambda>c. c = CHR ''-'') (show_int i))"
    by (simp add: show_int_def show_nat_digits del: dropWhile_eq_Nil_conv)
  then show ?thesis using assms by (auto simp: FInt right_kind_def fs_value_step_def Let_def simp del: dropWhile_eq_Nil_conv)
next
  case (FStr s)
  then show ?thesis using assms by (simp add: right_kind_def fs_value_step_def)
qed

lemma fs_values_rendered:
  assumes "list_all (right_kind phase) fs"
    and "dict_ok (d @ fs)"
  shows "fold_res (fs_value_step phase) d (raw_fields fs) = Inr (d @ fs)"
  using assms
proof (induction fs arbitrary: d)
  case (Cons a fs)
  obtain k v where a: "a = (k, v)" by (cases a)
  have "k \<notin> set (dkeys d)" using Cons.prems(2) by (auto simp: a dict_ok_def dkeys_def)
  then have "fs_value_step phase d (k, show_value v) = Inr (d @ [(k, v)])"
    using Cons.prems(1) fs_value_rendered [where v = v and phase = phase and k = k and d = d] by (simp add: a dput_new)
  then show ?case using Cons.IH [of "d @ [(k, v)]"] Cons.prems by (simp add: a raw_fields_def)
qed (simp add: raw_fields_def)

lemma fs_parse_rendered:
  assumes "fs_ok l"
  shows "fs_parse_fields (fst l ! 1) (map (\<lambda>(k, v). render_token k (show_value v)) (snd l)) = Inr (snd l)"
proof -
  let ?phase = "fst l ! 1"
  from assms obtain schema where schema: "map_of FS_SCHEMAS ?phase = Some schema" "set (dkeys (snd l)) = set schema"
    by (auto simp: fs_ok_def split: option.splits)
  have ok: "dict_ok (snd l)" "list_all token_ok (snd l)" using assms by (simp_all add: fs_ok_def tokens_ok_def)
  have keys: "dkeys (raw_fields (snd l)) = dkeys (snd l)" by (auto simp: raw_fields_def dkeys_def)
  then have "fold_res (fs_field_step ?phase) [] (map (\<lambda>(k, v). render_token k (show_value v)) (snd l)) = Inr (raw_fields (snd l))"
    using ok fs_fields_rendered [of "snd l" "[]" ?phase] by (simp add: raw_fields_def dict_ok_def)
  moreover have "fold_res (fs_value_step ?phase) [] (raw_fields (snd l)) = Inr (snd l)"
    using assms ok(1) fs_values_rendered [of ?phase "snd l" "[]"] by (simp add: fs_ok_def)
  ultimately show ?thesis using schema keys by (simp add: fs_parse_fields_def dget_def)
qed

lemma fs_line_rendered:
  assumes "fs_ok l"
  shows "fs_line_step ms (render_line (line_words l)) = Inr (ms @ [(fst l ! 1, snd l)])"
proof -
  from assms obtain p where p: "fst l = [''FS'', p]" by (auto simp: fs_ok_def tokens_ok_def length_Suc_conv numeral_2_eq_2)
  have words: "split_ws (render_line (line_words l)) = line_words l" using assms by (intro tokens_ok_words) (simp add: fs_ok_def)
  obtain q qs where fs: "snd l = q # qs" using assms by (cases "snd l") (auto simp: fs_ok_def)
  have start: "starts_with (render_line (line_words l)) ''FS ''"
    by (simp add: line_words_def p starts_with_def)
  have known: "p \<in> set (dkeys FS_SCHEMAS)"
    using assms by (auto simp: fs_ok_def p set_dkeys split: option.splits)
  show ?thesis
    using start words known fs_parse_rendered [OF assms] fs
    by (simp add: fs_line_step_def Let_def line_words_def p)
qed

lemma fs_lines_rendered:
  "list_all fs_ok ls \<Longrightarrow> fold_res fs_line_step ms (map (\<lambda>l. render_line (line_words l)) ls) = Inr (ms @ map (\<lambda>l. (fst l ! 1, snd l)) ls)"
  by (induction ls arbitrary: ms) (simp_all add: fs_line_rendered)

lemma fs_parse_script:
  assumes "list_all fs_ok ls" and "map (\<lambda>l. fst l ! 1) ls = FS_ORDER"
  shows "fs_parse_trace (script ls) = Inr (map (\<lambda>l. (fst l ! 1, snd l)) ls)"
proof -
  have "list_all tokens_ok ls" using assms(1) by (simp add: fs_ok_def list_all_iff)
  then have "splitlines (remove_cr (script ls)) = map (\<lambda>l. render_line (line_words l)) ls"
    by (rule splitlines_script)
  then show ?thesis using fs_lines_rendered [OF assms(1), of "[]"] assms(2)
    by (simp add: fs_parse_trace_def o_def)
qed

section \<open>Accepted transcripts\<close>

text \<open>
  After every scenario the ledger of blocks, inodes, in-memory inodes, open files and buffers is the
  one of the start.
\<close>

definition resources_conserved :: "fs_marker list \<Rightarrow> bool" where
  "resources_conserved markers \<longleftrightarrow>
     list_all (\<lambda>(phase, fs). phase = ''AFTER'' \<longrightarrow> list_all (\<lambda>k. fint fs k = fint (snd (markers ! 0)) k) FS_LEDGER) markers"

text \<open>
  The read/write scenario passes the layers in order (open, file, inode, direct block, buffer, indirect
  block, file, inode) and its four recorded blocks are different.
\<close>

definition layered :: "fval fields \<Rightarrow> bool" where
  "layered rw \<longleftrightarrow> sorted_wrt (<) (0 # map (fint rw) RW_SEQ) \<and>
     distinct [0, fint rw ''direct0'', fint rw ''direct11'', fint rw ''indirect'', fint rw ''indirect0'']"

lemma remdups_distinct: "length (remdups xs) = length xs \<longleftrightarrow> distinct xs"
  by (metis distinct_remdups_id length_remdups_card_conv card_distinct)

lemma rw_layered:
  assumes "fs_rw rw = Inr ()"
  shows "layered rw"
proof -
  let ?a = "map (fint rw) [''direct0'', ''direct11'', ''indirect'', ''indirect0'']" and ?s = "map (fint rw) RW_SEQ"
  have a: "list_all (\<lambda>x. x > 0) ?a" "distinct ?a" and s: "list_all (\<lambda>x. x > 0) ?s" "distinct ?s" "?s = sort ?s"
    using assms unfolding fs_rw_def Let_def requires_eq_Inr remdups_distinct by simp_all
  have "sorted ?s" using s(3) by (metis sorted_sort)
  then have "sorted_wrt (<) ?s" using s(2) by (simp add: strict_sorted_iff)
  moreover have "\<forall>x \<in> set ?s. 0 < x" using s(1) by (simp add: list_all_iff)
  ultimately show ?thesis using a by (auto simp: layered_def)
qed

lemma after_ledger:
  assumes "fold_res (\<lambda>_. fs_after base) () (zip afters phases) = Inr u" and "length afters = length phases" and "after \<in> set afters"
  shows "list_all (\<lambda>k. fint after k = fint base k) FS_LEDGER"
proof -
  obtain phase where "(after, phase) \<in> set (zip afters phases)"
    using in_set_impl_in_set_zip1 [OF assms(2,3)] by blast
  from fold_res_member [OF assms(1) this] obtain u' where "fs_after base (after, phase) = Inr u'" by blast
  then show ?thesis by (simp add: fs_after_def result_simps)
qed

lemma fs_order_length: "length FS_ORDER = 14"
  by (simp add: FS_ORDER_def)

lemma fs_order_after: "i < 14 \<Longrightarrow> FS_ORDER ! i = ''AFTER'' \<Longrightarrow> i \<in> {2, 4, 6, 8, 10, 12}"
  by (simp add: FS_ORDER_def numeral_eq_Suc less_Suc_eq) auto

lemma fs_accepted_parts:
  assumes "validate_fstrace output = Inr d"
  obtains markers where "fs_parse_trace output = Inr markers" and "map fst markers = FS_ORDER"
    and "fs_rw (snd (markers ! 1)) = Inr ()"
    and "\<And>i. i \<in> {2, 4, 6, 8, 10, 12} \<Longrightarrow> list_all (\<lambda>k. fint (snd (markers ! i)) k = fint (snd (markers ! 0)) k) FS_LEDGER"
proof -
  from assms obtain markers u where m: "fs_parse_trace output = Inr markers"
    and after: "fold_res (\<lambda>_. fs_after (map snd markers ! 0)) () (zip (map (\<lambda>i. map snd markers ! i) [2, 4, 6, 8, 10, 12])
       [''RW'', ''LINK'', ''TRUNC'', ''FDFAIL'', ''LINKFAIL'', ''ALLOCFAIL'']) = Inr u"
    and rw: "fs_rw (map snd markers ! 1) = Inr ()"
    unfolding validate_fstrace_def Let_def by (elim bind_res_InrE) (auto simp del: fold_res.simps)
  have order: "map fst markers = FS_ORDER" using m by (auto simp: fs_parse_trace_def result_simps)
  then have len: "length markers = 14" by (metis length_map fs_order_length)
  have "list_all (\<lambda>k. fint (snd (markers ! i)) k = fint (snd (markers ! 0)) k) FS_LEDGER"
    if i: "i \<in> {2, 4, 6, 8, 10, 12}" for i
  proof -
    have "map snd markers ! i \<in> set (map (\<lambda>i. map snd markers ! i) [2, 4, 6, 8, 10, 12])" using i by auto
    moreover have "i < 14" using i by auto
    ultimately show ?thesis using after_ledger [OF after] len by simp
  qed
  moreover have "fs_rw (snd (markers ! 1)) = Inr ()" using rw len by simp
  ultimately show ?thesis using that [of markers] m order by blast
qed

section \<open>A concrete transcript\<close>

definition fs_demo :: "(string list \<times> fval fields) list" where
  "fs_demo =
    [([''FS'', ''BASE''], [(''blocks'', FInt 100), (''inodes'', FInt 10), (''itable_active'', FInt 3),
       (''itable_refs'', FInt 3), (''file_objects'', FInt 4), (''file_refs'', FInt 7),
       (''buf_refs'', FInt 0)]),
     ([''FS'', ''RW''], [(''generation'', FInt 1), (''path_steps'', FInt 2), (''inum'', FInt 20),
       (''type'', FInt 2), (''nlink'', FInt 1), (''size'', FInt 12305), (''write'', FInt 12305),
       (''read'', FInt 12305), (''checksum'', FInt 867834), (''direct0'', FInt 1000),
       (''direct11'', FInt 1011), (''indirect'', FInt 1012), (''indirect0'', FInt 1013),
       (''data_blocks'', FInt 13), (''open_seq'', FInt 1), (''file_write_seq'', FInt 2),
       (''inode_write_seq'', FInt 3), (''direct_seq'', FInt 4), (''buffer_seq'', FInt 5),
       (''indirect_seq'', FInt 6), (''file_read_seq'', FInt 7), (''inode_read_seq'', FInt 8),
       (''buffer_block'', FInt 1000), (''buffer_valid'', FInt 1), (''buffer_ref'', FInt 1),
       (''buffer_locked'', FInt 1), (''status'', FInt 0), (''cleanup'', FInt 1)]),
     ([''FS'', ''AFTER''], [(''phase'', FStr ''RW''), (''blocks'', FInt 100), (''inodes'', FInt 10),
       (''itable_active'', FInt 3), (''itable_refs'', FInt 3), (''file_objects'', FInt 4),
       (''file_refs'', FInt 7), (''buf_refs'', FInt 0)]),
     ([''FS'', ''LINK''], [(''generation'', FInt 2), (''inum'', FInt 21), (''nlink0'', FInt 1),
       (''nlink1'', FInt 2), (''nlink2'', FInt 1), (''nlink3'', FInt 0), (''path_old'', FInt (- 1)),
       (''path_alias'', FInt (- 1)), (''read'', FInt 5), (''first'', FInt 104), (''last'', FInt 111),
       (''open_fd'', FInt 3), (''blocks_held'', FInt 101), (''inodes_held'', FInt 11),
       (''status'', FInt 0), (''cleanup'', FInt 1)]),
     ([''FS'', ''AFTER''], [(''phase'', FStr ''LINK''), (''blocks'', FInt 100), (''inodes'', FInt 10),
       (''itable_active'', FInt 3), (''itable_refs'', FInt 3), (''file_objects'', FInt 4),
       (''file_refs'', FInt 7), (''buf_refs'', FInt 0)]),
     ([''FS'', ''TRUNC''], [(''generation'', FInt 3), (''inum_fd0'', FInt 22), (''inum_fd1'', FInt 22),
       (''before_size'', FInt 2048), (''before_blocks'', FInt 2), (''after_size'', FInt 0),
       (''after_blocks'', FInt 0), (''peer_size'', FInt 0), (''rewrite'', FInt 3),
       (''final_size'', FInt 3), (''status'', FInt 0), (''cleanup'', FInt 1)]),
     ([''FS'', ''AFTER''], [(''phase'', FStr ''TRUNC''), (''blocks'', FInt 100), (''inodes'', FInt 10),
       (''itable_active'', FInt 3), (''itable_refs'', FInt 3), (''file_objects'', FInt 4),
       (''file_refs'', FInt 7), (''buf_refs'', FInt 0)]),
     ([''FS'', ''FDFAIL''], [(''generation'', FInt 4), (''filled'', FInt 12), (''create'', FInt (- 1)),
       (''check_fd'', FInt 3), (''nlink'', FInt 1), (''size'', FInt 0), (''blocks_held'', FInt 100),
       (''inodes_held'', FInt 11), (''status'', FInt 0), (''cleanup'', FInt 1)]),
     ([''FS'', ''AFTER''], [(''phase'', FStr ''FDFAIL''), (''blocks'', FInt 100), (''inodes'', FInt 10),
       (''itable_active'', FInt 3), (''itable_refs'', FInt 3), (''file_objects'', FInt 4),
       (''file_refs'', FInt 7), (''buf_refs'', FInt 0)]),
     ([''FS'', ''LINKFAIL''], [(''generation'', FInt 5), (''fail_at'', FInt 1), (''eligible'', FInt 1),
       (''fired'', FInt 1), (''link'', FInt (- 1)), (''target'', FInt (- 1)),
       (''nlink_before'', FInt 1), (''nlink_after'', FInt 1), (''blocks_before'', FInt 100),
       (''blocks_after'', FInt 100), (''inodes_before'', FInt 10), (''inodes_after'', FInt 10),
       (''status'', FInt 0), (''cleanup'', FInt 1)]),
     ([''FS'', ''AFTER''], [(''phase'', FStr ''LINKFAIL''), (''blocks'', FInt 100), (''inodes'', FInt 10),
       (''itable_active'', FInt 3), (''itable_refs'', FInt 3), (''file_objects'', FInt 4),
       (''file_refs'', FInt 7), (''buf_refs'', FInt 0)]),
     ([''FS'', ''ALLOCFAIL''], [(''generation'', FInt 6), (''fail_at'', FInt 2), (''eligible'', FInt 2),
       (''fired'', FInt 1), (''write'', FInt (- 1)), (''size_before'', FInt 12288),
       (''size_after'', FInt 12288), (''indirect_before'', FInt 0), (''indirect_after'', FInt 1100),
       (''indirect_data'', FInt 0), (''blocks_before'', FInt 112), (''blocks_after'', FInt 113),
       (''inodes_before'', FInt 11), (''inodes_after'', FInt 11), (''status'', FInt 0),
       (''cleanup'', FInt 1)]),
     ([''FS'', ''AFTER''], [(''phase'', FStr ''ALLOCFAIL''), (''blocks'', FInt 100), (''inodes'', FInt 10),
       (''itable_active'', FInt 3), (''itable_refs'', FInt 3), (''file_objects'', FInt 4),
       (''file_refs'', FInt 7), (''buf_refs'', FInt 0)]),
     ([''FS'', ''PASS''], [(''cases'', FInt 6), (''cleanup'', FInt 1)])]"


lemma fs_demo_parsed: "fs_parse_trace (script fs_demo) = Inr (map (\<lambda>l. (fst l ! 1, snd l)) fs_demo)"
  by (rule fs_parse_script) code_simp+

lemma fs_demo_accepted: "accepted (validate_fstrace (script fs_demo))"
  unfolding validate_fstrace_def fs_demo_parsed bind_res_Inr by code_simp

section \<open>Property\<close>

text \<open>
  C30: In an accepted file-system transcript the markers come in the fixed order, every scenario gives
  back all blocks, inodes, in-memory inodes, open files and buffers, and the read/write scenario
  passes the layers in strictly increasing order over four different blocks.
\<close>

theorem accepted_fs_conserves:
  assumes "validate_fstrace output = Inr d"
  shows "\<exists>markers. fs_parse_trace output = Inr markers \<and> map fst markers = FS_ORDER \<and> resources_conserved markers \<and>
    layered (snd (markers ! 1))"
  using assms
proof (rule fs_accepted_parts)
  fix markers
  assume m: "fs_parse_trace output = Inr markers" "map fst markers = FS_ORDER" "fs_rw (snd (markers ! 1)) = Inr ()"
    and after: "\<And>i. i \<in> {2, 4, 6, 8, 10, 12} \<Longrightarrow> list_all (\<lambda>k. fint (snd (markers ! i)) k = fint (snd (markers ! 0)) k) FS_LEDGER"
  have len: "length markers = 14" using m(2) by (metis length_map fs_order_length)
  have "list_all (\<lambda>k. fint (snd (markers ! i)) k = fint (snd (markers ! 0)) k) FS_LEDGER"
    if "i < length markers" "fst (markers ! i) = ''AFTER''" for i
    using after [of i] fs_order_after [of i] that len m(2) by (metis length_map nth_map)
  then have "resources_conserved markers"
    unfolding resources_conserved_def list_all_length by (simp add: case_prod_unfold)
  with m rw_layered show ?thesis by blast
qed

theorem accepted_fs_conserves_witness:
  "\<exists>markers. fs_parse_trace (script fs_demo) = Inr markers \<and> resources_conserved markers \<and> layered (snd (markers ! 1))"
  using fs_demo_accepted accepted_fs_conserves unfolding accepted_iff by blast

end
