(* ===== verification/DevTrace.thy ===== *)
theory DevTrace
  imports LabFields
begin

text \<open>
  The runner of the device laboratory, \<open>resources/device-io/run-lab.py\<close>: the marker schemas, the parser and
  the oracle for the transcripts of the console, disk and queue scenarios.
\<close>

section \<open>Schemas\<close>

definition LOCK_FIELDS :: "string list" where
  "LOCK_FIELDS = [''program_lock'', ''publish_lock'', ''notify_lock'', ''complete_lock'', ''reclaim_lock'', ''condition_before'',
     ''proc_after'', ''wake_proc_lock'']"

definition DEV_SCHEMAS :: "(string \<times> string list) list" where
  "DEV_SCHEMAS =
     [(''CONSOLE_WAIT'', [''generation'', ''pid'', ''state'', ''chan'', ''seq'']),
      (''CONSOLE'', [''generation'', ''pid'', ''irq'', ''wait_seq'', ''rx_seq'', ''wake_seq'', ''done_seq'', ''claims'',
         ''completes'', ''claim_harts'', ''complete_harts'', ''wait_chan'', ''wake_chan'', ''rx'', ''first'', ''last'',
         ''read'', ''ring_before'', ''ring_after'', ''publish_lock'', ''condition_before'', ''proc_after'',
         ''condition_after'', ''wake_proc_lock'', ''lock_errors'', ''status'', ''cleanup'']),
      (''DISK'', [''generation'', ''pid'', ''block'', ''sector'', ''submit_hart'', ''head'', ''d0'', ''d1'', ''d2'', ''d0_addr'',
         ''d0_len'', ''d0_flags'', ''d0_next'', ''d1_addr'', ''d1_len'', ''d1_flags'', ''d1_next'', ''d2_addr'', ''d2_len'',
         ''d2_flags'', ''queue_desc'', ''queue_avail'', ''queue_used'', ''queue_ready'', ''free_before'', ''free_programmed'',
         ''free_after'', ''avail_before'', ''avail_after'', ''used_before'', ''used_after'', ''notify'', ''b_owner'',
         ''device_status'', ''wait_chan'', ''wake_chan'', ''program_seq'', ''publish_seq'', ''notify_seq'', ''sleep_seq'',
         ''irq_seq'', ''complete_seq'', ''wake_seq'', ''reclaim_seq'', ''irq'', ''claims'', ''completes'', ''claim_harts'',
         ''complete_harts'', ''info_after'', ''read'', ''status'', ''cleanup'', ''program_lock'', ''publish_lock'',
         ''notify_lock'', ''complete_lock'', ''reclaim_lock'', ''condition_before'', ''proc_after'', ''condition_after'',
         ''wake_proc_lock'', ''lock_errors'']),
      (''QUEUE'', [''generation'', ''p0'', ''p1'', ''p2'', ''block0'', ''block1'', ''block2'', ''free_before'', ''free_held'',
         ''free_after'', ''deferred_held'', ''deferred_after'', ''third_pid'', ''third_state'', ''third_chan'', ''desc_chan'',
         ''avail_before'', ''avail_after'', ''used_before'', ''used_after'', ''submit0_seq'', ''submit1_seq'', ''defer0_seq'',
         ''defer1_seq'', ''wait_seq'', ''release_seq'', ''reclaim_seq'', ''irq'', ''claims'', ''completes'', ''claim_harts'',
         ''complete_harts'', ''controller_hart'', ''status0'', ''status1'', ''status2'', ''info_after'', ''cleanup'',
         ''program_lock'', ''publish_lock'', ''notify_lock'', ''complete_lock'', ''reclaim_lock'', ''condition_before'',
         ''proc_after'', ''condition_after'', ''wake_proc_lock'', ''lock_errors'']),
      (''AFTER'', [''phase'', ''active'', ''waiters'', ''deferred'', ''free_desc'', ''info'', ''buf_refs'']),
      (''PASS'', [''cases'', ''cleanup''])]"

section \<open>Parsing\<close>

definition dev_field_step :: "string \<Rightarrow> fval fields \<Rightarrow> string \<Rightarrow> fval fields result" where
  "dev_field_step phase values token =
     bind_res (require (count_list token CHR ''='' = 1) (''malformed '' @ phase @ '' field'')) (\<lambda>_.
     let (key, raw) = split_once CHR ''='' token in
     bind_res (require (key \<notin> set (dkeys values)) (''duplicate '' @ phase @ '' field'')) (\<lambda>_.
     if key = ''phase'' then Inr (dput key (FStr raw) values)
     else bind_res (require (is_int_literal raw) (''non-integer '' @ phase @ '' field'')) (\<lambda>_.
       Inr (dput key (FInt (read_int raw)) values))))"

definition dev_parse_fields :: "string list \<Rightarrow> string \<Rightarrow> fval fields result" where
  "dev_parse_fields tokens phase =
     bind_res (fold_res (dev_field_step phase) [] tokens) (\<lambda>values.
     bind_res (dget DEV_SCHEMAS phase) (\<lambda>schema.
     bind_res (require (set (dkeys values) = set schema) (phase @ '' fields changed'')) (\<lambda>_.
       Inr values)))"

text \<open>The parsed lines that start with \<open>DEV\<close> and the phase, in order.\<close>

definition dev_matches :: "string \<Rightarrow> string \<Rightarrow> fval fields list result" where
  "dev_matches text phase =
     (let prefix = ''DEV '' @ phase @ '' '' in
      map_res (\<lambda>line. dev_parse_fields (split_ws (drop (length prefix) line)) phase)
        (filter (\<lambda>line. starts_with line prefix) (splitlines text)))"

definition one_marker :: "string \<Rightarrow> string \<Rightarrow> fval fields result" where
  "one_marker text phase =
     bind_res (dev_matches text phase) (\<lambda>matches.
     bind_res (require (length matches = 1) (''expected one '' @ phase @ '' marker'')) (\<lambda>_.
       Inr (matches ! 0)))"

definition marker_order :: "string \<Rightarrow> string list result" where
  "marker_order text =
     map_res (\<lambda>line. let words = split_ws line in
         bind_res (require (length words \<ge> 2) ''malformed DEV marker'') (\<lambda>_. Inr (words ! 1)))
       (filter (\<lambda>line. starts_with line ''DEV '') (splitlines text))"

definition clean_after :: "string \<Rightarrow> string \<Rightarrow> unit result" where
  "clean_after text phase =
     bind_res (dev_matches text ''AFTER'') (\<lambda>afters.
     bind_res (require (length afters = 1 \<and> fstr (afters ! 0) ''phase'' = phase) (''missing '' @ phase @ '' cleanup marker'')) (\<lambda>_.
     require (fint (afters ! 0) ''active'' = 0 \<and> fint (afters ! 0) ''waiters'' = 0 \<and> fint (afters ! 0) ''deferred'' = 0 \<and>
       fint (afters ! 0) ''free_desc'' = 8 \<and> fint (afters ! 0) ''info'' = 0 \<and> fint (afters ! 0) ''buf_refs'' = 0)
       (phase @ '' resources not clean'')))"

section \<open>The oracle\<close>

definition dev_console :: "fval fields \<Rightarrow> fval fields \<Rightarrow> unit result" where
  "dev_console wait console =
     (let w = fint wait; c = fint console in requires
       [(w ''generation'' = c ''generation'' \<and> c ''generation'' = 1, ''console generation changed''),
        (w ''pid'' = c ''pid'' \<and> c ''pid'' > 0 \<and> w ''state'' = 2,
          ''console reader was not the observed sleeping process''),
        (w ''chan'' = c ''wait_chan'' \<and> c ''wait_chan'' = c ''wake_chan'' \<and> c ''wake_chan'' \<noteq> 0,
          ''console wait/wakeup channel identity changed''),
        (w ''seq'' = c ''wait_seq'' \<and> 0 < c ''wait_seq'' \<and> c ''wait_seq'' < c ''rx_seq'' \<and> c ''rx_seq'' < c ''wake_seq'' \<and>
          c ''wake_seq'' < c ''done_seq'', ''console event order changed''),
        (c ''irq'' = 10 \<and> c ''claims'' \<ge> 1 \<and> c ''claims'' = c ''completes'' \<and> c ''claim_harts'' = c ''complete_harts'',
          ''UART PLIC claim/complete ledger changed''),
        (0 < c ''claim_harts'' \<and> c ''claim_harts'' < 4 \<and> 0 < c ''complete_harts'' \<and> c ''complete_harts'' < 4,
          ''console hart mask is outside CPUS=2''),
        (c ''rx'' = c ''read'' \<and> c ''read'' = 10 \<and> c ''first'' = 68 \<and> c ''last'' = 10 \<and>
          c ''ring_after'' - c ''ring_before'' = 10, ''console input bytes/ring ledger changed''),
        (c ''publish_lock'' = 1 \<and> c ''condition_before'' = 1 \<and> c ''proc_after'' = 1 \<and> c ''wake_proc_lock'' = 1 \<and>
          c ''condition_after'' = 0 \<and> c ''lock_errors'' = 0, ''console lock handoff context changed''),
        (c ''status'' = 0 \<and> c ''cleanup'' = 1, ''console caller did not complete cleanly'')])"

definition DISK_SEQ :: "string list" where
  "DISK_SEQ = [''program_seq'', ''publish_seq'', ''notify_seq'', ''sleep_seq'', ''irq_seq'', ''complete_seq'', ''wake_seq'',
     ''reclaim_seq'']"

definition dev_disk :: "fval fields \<Rightarrow> unit result" where
  "dev_disk disk =
     (let d = fint disk; descriptors = map d [''d0'', ''d1'', ''d2''] in requires
       [(d ''generation'' = 2 \<and> d ''pid'' > 0 \<and> d ''block'' = 1999 \<and> d ''sector'' = 3998, ''disk trigger identity changed''),
        (d ''submit_hart'' \<in> {0, 1}, ''disk submit hart outside CPUS=2''),
        (d ''head'' = d ''d0'' \<and> length (remdups descriptors) = 3 \<and> list_all (\<lambda>index. 0 \<le> index \<and> index < 8) descriptors,
          ''disk descriptor chain identities changed''),
        (d ''d0_next'' = d ''d1'' \<and> d ''d1_next'' = d ''d2'' \<and> d ''d0_len'' = 16 \<and> d ''d1_len'' = 1024 \<and> d ''d2_len'' = 1 \<and>
          d ''d0_flags'' = 1 \<and> d ''d1_flags'' = 3 \<and> d ''d2_flags'' = 2, ''disk descriptor shape changed''),
        (list_all (\<lambda>key. d key > 0) [''d0_addr'', ''d1_addr'', ''d2_addr'', ''queue_desc'', ''queue_avail'', ''queue_used''] \<and>
          list_all (\<lambda>key. d key mod 4096 = 0) [''queue_desc'', ''queue_avail'', ''queue_used''],
          ''DMA-visible queue/address ledger changed''),
        (d ''queue_ready'' = 1 \<and> d ''free_before'' = 8 \<and> d ''free_programmed'' = 5 \<and> d ''free_after'' = 8,
          ''single-request descriptor ledger changed''),
        (d ''avail_after'' = d ''avail_before'' + 1 \<and> d ''used_after'' = d ''used_before'' + 1 \<and> d ''notify'' = 1 \<and>
          d ''b_owner'' = 1, ''disk publication/completion index changed''),
        (d ''device_status'' = 0 \<and> d ''wait_chan'' = d ''wake_chan'' \<and> d ''wake_chan'' \<noteq> 0,
          ''disk completion/channel changed''),
        (list_all (\<lambda>key. d key = 1) LOCK_FIELDS \<and> d ''condition_after'' = 0 \<and> d ''lock_errors'' = 0,
          ''disk lock handoff context changed''),
        (d ''program_seq'' < d ''publish_seq'' \<and> d ''publish_seq'' < d ''notify_seq'' \<and> d ''notify_seq'' < d ''sleep_seq'' \<and>
          d ''sleep_seq'' < d ''wake_seq'' \<and> d ''wake_seq'' < d ''reclaim_seq'' \<and> d ''notify_seq'' < d ''irq_seq'' \<and>
          d ''irq_seq'' < d ''complete_seq'' \<and> d ''complete_seq'' < d ''wake_seq'', ''disk ownership partial order changed''),
        (length (remdups (map d DISK_SEQ)) = length DISK_SEQ, ''disk event sequence is not unique''),
        (d ''irq'' = 1 \<and> d ''claims'' \<ge> 1 \<and> d ''claims'' = d ''completes'' \<and> d ''claim_harts'' = d ''complete_harts'' \<and>
          0 < d ''claim_harts'' \<and> d ''claim_harts'' < 4 \<and> 0 < d ''complete_harts'' \<and> d ''complete_harts'' < 4,
          ''VirtIO PLIC ledger changed''),
        (d ''info_after'' = 0 \<and> 0 \<le> d ''read'' \<and> d ''read'' \<le> 255 \<and> d ''status'' = 0 \<and> d ''cleanup'' = 1,
          ''disk caller/reclaim result changed'')])"

definition dev_queue :: "fval fields \<Rightarrow> unit result" where
  "dev_queue queue =
     (let q = fint queue; pids = map q [''p0'', ''p1'', ''p2''];
          submit_seq = sort [q ''submit0_seq'', q ''submit1_seq'']; deferred_seq = sort [q ''defer0_seq'', q ''defer1_seq''];
          wait_seq = q ''wait_seq''; before_release = submit_seq @ deferred_seq @ [wait_seq];
          all_queue_seq = before_release @ [q ''release_seq'', q ''reclaim_seq'']
      in requires
       [(q ''generation'' = 3 \<and> list_all (\<lambda>pid. pid > 0) pids \<and> length (remdups pids) = 3, ''queue worker identities changed''),
        (q ''block0'' = 1996 \<and> q ''block1'' = 1997 \<and> q ''block2'' = 1998, ''queue block trigger changed''),
        (q ''free_before'' = 8 \<and> q ''free_held'' = 2 \<and> q ''free_after'' = 8 \<and> q ''deferred_held'' = 2 \<and>
          q ''deferred_after'' = 0, ''queue capacity ledger changed''),
        (q ''third_pid'' \<in> set pids \<and> q ''third_state'' = 2 \<and> q ''third_chan'' = q ''desc_chan'' \<and> q ''desc_chan'' \<noteq> 0,
          ''third request did not sleep on descriptor capacity''),
        (q ''avail_after'' = q ''avail_before'' + 3 \<and> q ''used_after'' = q ''used_before'' + 3, ''queue ring delta changed''),
        (list_all (\<lambda>(submit, deferred). submit < deferred) (zip submit_seq deferred_seq) \<and>
          Max (set deferred_seq) < wait_seq \<and> wait_seq < q ''release_seq'' \<and> q ''release_seq'' < q ''reclaim_seq'' \<and>
          list_all (\<lambda>seq. seq > 0) before_release, ''queue submit/defer/wait/release order changed''),
        (length (remdups all_queue_seq) = length all_queue_seq, ''queue event sequence is not unique''),
        (list_all (\<lambda>key. q key = 1) LOCK_FIELDS \<and> q ''condition_after'' = 0 \<and> q ''lock_errors'' = 0,
          ''queue lock handoff context changed''),
        (q ''irq'' = 1 \<and> q ''claims'' \<ge> 1 \<and> q ''claims'' = q ''completes'' \<and> q ''claim_harts'' = q ''complete_harts'' \<and>
          0 < q ''claim_harts'' \<and> q ''claim_harts'' < 4 \<and> 0 < q ''complete_harts'' \<and> q ''complete_harts'' < 4 \<and>
          q ''controller_hart'' \<in> {0, 1}, ''queue hart/PLIC ledger changed''),
        (q ''status0'' = 0 \<and> q ''status1'' = 0 \<and> q ''status2'' = 0 \<and> q ''info_after'' = 0 \<and> q ''cleanup'' = 1,
          ''queue workers or info slots did not clean up'')])"

record dev_result =
  dr_console :: "fval fields"
  dr_disk :: "fval fields"
  dr_queue :: "fval fields"

definition validate_devtrace :: "string \<Rightarrow> string \<Rightarrow> string \<Rightarrow> dev_result result" where
  "validate_devtrace console_text disk_text queue_text =
     bind_res (marker_order console_text) (\<lambda>console_order.
     bind_res (marker_order disk_text) (\<lambda>disk_order.
     bind_res (marker_order queue_text) (\<lambda>queue_order.
     bind_res (requires
       [(console_order = [''CONSOLE_WAIT'', ''CONSOLE'', ''AFTER''], ''console DEV marker stream is not closed or ordered''),
        (disk_order = [''DISK'', ''AFTER''], ''disk DEV marker stream is not closed or ordered''),
        (queue_order = [''QUEUE'', ''AFTER'', ''PASS''], ''queue DEV marker stream is not closed or ordered'')]) (\<lambda>_.
     bind_res (one_marker console_text ''CONSOLE_WAIT'') (\<lambda>wait.
     bind_res (one_marker console_text ''CONSOLE'') (\<lambda>console.
     bind_res (dev_console wait console) (\<lambda>_.
     bind_res (clean_after console_text ''CONSOLE'') (\<lambda>_.
     bind_res (one_marker disk_text ''DISK'') (\<lambda>disk.
     bind_res (dev_disk disk) (\<lambda>_.
     bind_res (clean_after disk_text ''DISK'') (\<lambda>_.
     bind_res (one_marker queue_text ''QUEUE'') (\<lambda>queue.
     bind_res (dev_queue queue) (\<lambda>_.
     bind_res (clean_after queue_text ''QUEUE'') (\<lambda>_.
     bind_res (one_marker queue_text ''PASS'') (\<lambda>passed.
     bind_res (require (fint passed ''cases'' = 3 \<and> fint passed ''cleanup'' = 1) ''device PASS marker changed'') (\<lambda>_.
       Inr \<lparr>dr_console = console, dr_disk = disk, dr_queue = queue\<rparr>))))))))))))))))"

end
