(* ===== verification/DevTraceProps.thy ===== *)
theory DevTraceProps
  imports DevTrace Transcript
begin

text \<open>
  Properties of the device oracle: the reading of rendered markers, and the orders of events and the
  descriptor accounting that an accepted set of transcripts shows.
\<close>

section \<open>Rendered markers\<close>

definition dev_value_ok :: "string \<Rightarrow> fval \<Rightarrow> bool" where
  "dev_value_ok k v \<longleftrightarrow> token_ok (k, v) \<and> (case v of FInt _ \<Rightarrow> k \<noteq> ''phase'' | FStr _ \<Rightarrow> k = ''phase'')"

interpretation dev_tokens: token_parser "dev_field_step phase" show_value dev_value_ok for phase
proof (unfold_locales, goal_cases)
  case (1 k v d)
  then show ?case using token_ok_value(4,5) [of k v] by (cases v) (auto simp: dev_value_ok_def dev_field_step_def)
next
  case (2 k v)
  then show ?case using token_ok_value(3) [of k v] by (simp add: dev_value_ok_def)
qed

definition dev_ok :: "string list \<times> fval fields \<Rightarrow> bool" where
  "dev_ok l \<longleftrightarrow> tokens_ok l \<and> fst l ! 0 = ''DEV'' \<and> snd l \<noteq> [] \<and> list_all (\<lambda>(k, v). dev_value_ok k v) (snd l) \<and>
     (case map_of DEV_SCHEMAS (fst l ! 1) of None \<Rightarrow> False | Some schema \<Rightarrow> set (dkeys (snd l)) = set schema)"

lemma dev_okD:
  assumes "dev_ok l"
  obtains p where "fst l = [''DEV'', p]" and "tokens_ok l" and "snd l \<noteq> []"
  using assms by (auto simp: dev_ok_def tokens_ok_def length_Suc_conv numeral_2_eq_2)

lemma dev_parse_rendered:
  assumes "dev_ok l"
  shows "dev_parse_fields (map (\<lambda>(k, v). render_token k (show_value v)) (snd l)) (fst l ! 1) = Inr (snd l)"
proof -
  have "dev_tokens.renderable (snd l)" using assms by (auto simp: dev_ok_def tokens_ok_def dev_tokens.renderable_def list_all_iff)
  from dev_tokens.parse_tokens [OF this, of "fst l ! 1"] show ?thesis
    using assms by (auto simp: dev_parse_fields_def dev_tokens.tokens_def dev_ok_def dget_def split: option.splits)
qed

lemma dev_matches_script:
  assumes "list_all dev_ok ls" and "plain_word phase"
  shows "dev_matches (script ls) phase = Inr (map snd (filter (\<lambda>l. fst l ! 1 = phase) ls))"
proof -
  have "list_all tokens_ok ls" using assms(1) by (simp add: dev_ok_def list_all_iff)
  note lines = splitlines_script(2) [OF this]
  let ?render = "\<lambda>l. render_line (line_words l)"
  have start: "starts_with (?render l) (''DEV '' @ phase @ '' '') \<longleftrightarrow> fst l ! 1 = phase" if "l \<in> set ls" for l
  proof -
    have "dev_ok l" using assms(1) that by (simp add: list_all_iff)
    then show ?thesis using starts_marker [of l "''DEV''" _ phase] assms(2) by (auto elim!: dev_okD)
  qed
  have "filter (\<lambda>line. starts_with line (''DEV '' @ phase @ '' '')) (map ?render ls) = map ?render (filter (\<lambda>l. fst l ! 1 = phase) ls)"
    using start by (simp add: filter_map o_def cong: filter_cong)
  moreover have "dev_parse_fields (split_ws (drop (length (''DEV '' @ phase @ '' '')) (?render l))) phase = Inr (snd l)"
    if "l \<in> set ls" "fst l ! 1 = phase" for l
  proof -
    have ok: "dev_ok l" using assms(1) that by (simp add: list_all_iff)
    then have "fst l = [''DEV'', phase]" using that(2) by (auto elim!: dev_okD)
    with ok show ?thesis using drop_marker [of l "''DEV''" phase] dev_parse_rendered [OF ok] that(2) by (auto simp: dev_ok_def)
  qed
  ultimately show ?thesis unfolding dev_matches_def Let_def lines
    by (auto intro!: map_res_map)
qed

lemma marker_order_script:
  assumes "list_all dev_ok ls"
  shows "marker_order (script ls) = Inr (map (\<lambda>l. fst l ! 1) ls)"
proof -
  have "list_all tokens_ok ls" using assms(1) by (simp add: dev_ok_def list_all_iff)
  note lines = splitlines_script(2) [OF this]
  let ?render = "\<lambda>l. render_line (line_words l)"
  have "starts_with (?render l) ''DEV ''" if "l \<in> set ls" for l
  proof -
    have "dev_ok l" using assms that by (simp add: list_all_iff)
    then obtain p where "fst l = [''DEV'', p]" by (rule dev_okD)
    then show ?thesis by (simp add: line_words_def starts_with_def)
  qed
  then have "filter (\<lambda>line. starts_with line ''DEV '') (map ?render ls) = map ?render ls" by (simp add: filter_id_conv)
  moreover have "(let words = split_ws (?render l) in
      bind_res (require (length words \<ge> 2) ''malformed DEV marker'') (\<lambda>_. Inr (words ! 1))) = Inr (fst l ! 1)" if "l \<in> set ls" for l
  proof -
    have ok: "dev_ok l" using assms that by (simp add: list_all_iff)
    then obtain p where p: "fst l = [''DEV'', p]" "tokens_ok l" by (rule dev_okD)
    then show ?thesis using tokens_ok_words [OF p(2)] by (simp add: line_words_def)
  qed
  ultimately show ?thesis unfolding marker_order_def lines by (simp only: map_res_map)
qed

section \<open>What an accepted set of transcripts shows\<close>

text \<open>
  The oracle states only a partial order of the disk events: the sleep of the requester and the interrupt
  and completion of the device are concurrent. The total orders it admits are the interleavings of the two.
\<close>

definition disk_orders :: "string list list" where
  "disk_orders = map (\<lambda>mid. [''program_seq'', ''publish_seq'', ''notify_seq''] @ mid @ [''wake_seq'', ''reclaim_seq''])
     [[''sleep_seq'', ''irq_seq'', ''complete_seq''], [''irq_seq'', ''sleep_seq'', ''complete_seq''],
      [''irq_seq'', ''complete_seq'', ''sleep_seq'']]"

lemma disk_orders_shuffles:
  "set disk_orders = (\<lambda>mid. [''program_seq'', ''publish_seq'', ''notify_seq''] @ mid @ [''wake_seq'', ''reclaim_seq'']) `
     shuffles [''sleep_seq''] [''irq_seq'', ''complete_seq'']"
  by (auto simp: disk_orders_def shuffles.simps)

lemma disk_order_cases:
  fixes p :: int
  assumes "distinct [p, q, n, s, i, c, w, r]" and "p < q \<and> q < n \<and> n < s \<and> s < w \<and> w < r \<and> n < i \<and> i < c \<and> c < w"
  shows "sorted_wrt (<) [p, q, n, s, i, c, w, r] \<or> sorted_wrt (<) [p, q, n, i, s, c, w, r] \<or> sorted_wrt (<) [p, q, n, i, c, s, w, r]"
  using assms by auto

lemma queue_order_cases:
  fixes w :: int
  assumes "list_all (\<lambda>(submit, deferred). submit < deferred) (zip (sort [s, s']) (sort [d, d']))" and "Max (set (sort [d, d'])) < w"
  shows "s < w" and "s' < w" and "d < w" and "d' < w"
  using assms by (auto split: if_splits)

lemma dev_disk_facts:
  assumes "dev_disk disk = Inr ()"
  shows "\<exists>order \<in> set disk_orders. sorted_wrt (<) (map (fint disk) order)"
    and "distinct (map (fint disk) [''d0'', ''d1'', ''d2''])"
    and "set (map (fint disk) [''d0'', ''d1'', ''d2'']) \<subseteq> {0..<8}"
    and "fint disk ''free_before'' - fint disk ''free_programmed'' = 3" and "fint disk ''free_after'' = fint disk ''free_before''"
proof -
  note chain = assms [unfolded dev_disk_def Let_def, THEN requires_tl, THEN requires_tl]
  note free = chain [THEN requires_tl, THEN requires_tl, THEN requires_tl]
  note order = free [THEN requires_tl, THEN requires_tl, THEN requires_tl, THEN requires_tl]
  have "length (remdups (map (fint disk) [''d0'', ''d1'', ''d2''])) = length (map (fint disk) [''d0'', ''d1'', ''d2''])"
    using chain [THEN requires_hd] by simp
  then show "distinct (map (fint disk) [''d0'', ''d1'', ''d2''])" unfolding remdups_length_distinct .
  show "set (map (fint disk) [''d0'', ''d1'', ''d2'']) \<subseteq> {0..<8}" using chain [THEN requires_hd] by simp
  show "fint disk ''free_before'' - fint disk ''free_programmed'' = 3" "fint disk ''free_after'' = fint disk ''free_before''"
    using free [THEN requires_hd] by simp_all
  have "distinct (map (fint disk) DISK_SEQ)"
    using order [THEN requires_tl, THEN requires_hd] remdups_length_distinct [of "map (fint disk) DISK_SEQ"] by (metis length_map)
  from disk_order_cases [OF this [unfolded DISK_SEQ_def list.map] order [THEN requires_hd]]
  show "\<exists>order \<in> set disk_orders. sorted_wrt (<) (map (fint disk) order)"
    by (simp only: disk_orders_def list.map list.set append.simps bex_simps simp_thms)
qed

lemma dev_queue_facts:
  assumes "dev_queue queue = Inr ()"
  shows "fint queue ''free_held'' = fint queue ''free_before'' - 3 * fint queue ''deferred_held''"
    and "fint queue ''free_held'' < 3"
    and "list_all (\<lambda>e. fint queue e < fint queue ''wait_seq'') [''submit0_seq'', ''submit1_seq'', ''defer0_seq'', ''defer1_seq'']"
    and "sorted_wrt (<) (map (fint queue) [''wait_seq'', ''release_seq'', ''reclaim_seq''])"
proof -
  note free = assms [unfolded dev_queue_def Let_def, THEN requires_tl, THEN requires_tl]
  note order = free [THEN requires_tl, THEN requires_tl, THEN requires_tl, THEN requires_hd]
  show "fint queue ''free_held'' = fint queue ''free_before'' - 3 * fint queue ''deferred_held''" "fint queue ''free_held'' < 3"
    using free [THEN requires_hd] by simp_all
  note before = queue_order_cases [OF order [THEN conjunct1] order [THEN conjunct2, THEN conjunct1]]
  then show "list_all (\<lambda>e. fint queue e < fint queue ''wait_seq'') [''submit0_seq'', ''submit1_seq'', ''defer0_seq'', ''defer1_seq'']"
    by simp
  from order [THEN conjunct2, THEN conjunct2]
  show "sorted_wrt (<) (map (fint queue) [''wait_seq'', ''release_seq'', ''reclaim_seq''])" by simp
qed

lemma validate_devtraceD:
  assumes "validate_devtrace console_text disk_text queue_text = Inr r"
  shows "one_marker disk_text ''DISK'' = Inr (dr_disk r)" and "dev_disk (dr_disk r) = Inr ()"
    and "one_marker queue_text ''QUEUE'' = Inr (dr_queue r)" and "dev_queue (dr_queue r) = Inr ()"
    and "one_marker console_text ''CONSOLE'' = Inr (dr_console r)"
    and "\<exists>wait. one_marker console_text ''CONSOLE_WAIT'' = Inr wait \<and> dev_console wait (dr_console r) = Inr ()"
  using assms unfolding validate_devtrace_def by (auto elim!: bind_res_InrE)

text \<open>
  C31: when the device oracle accepts the three transcripts, the eight events of the disk request happened
  in one of the three total orders that interleave the sleep of the requester with the interrupt and
  completion of the device; the request held a chain of three distinct descriptors of the eight and gave
  them back; at the queue's full point two deferred requests held six descriptors, fewer than the three
  that a third request needs were free, and the third request slept after both others had been submitted
  and deferred, and before the release and the reclaim; the console reader slept before the input
  arrived and was woken after it.
\<close>

theorem accepted_device_orders:
  assumes "validate_devtrace console_text disk_text queue_text = Inr r"
  shows "(\<exists>order \<in> set disk_orders. sorted_wrt (<) (map (fint (dr_disk r)) order)) \<and>
    distinct (map (fint (dr_disk r)) [''d0'', ''d1'', ''d2'']) \<and>
    set (map (fint (dr_disk r)) [''d0'', ''d1'', ''d2'']) \<subseteq> {0..<8} \<and>
    fint (dr_disk r) ''free_before'' - fint (dr_disk r) ''free_programmed'' = 3 \<and>
    fint (dr_disk r) ''free_after'' = fint (dr_disk r) ''free_before'' \<and>
    fint (dr_queue r) ''free_held'' = fint (dr_queue r) ''free_before'' - 3 * fint (dr_queue r) ''deferred_held'' \<and>
    fint (dr_queue r) ''free_held'' < 3 \<and>
    list_all (\<lambda>e. fint (dr_queue r) e < fint (dr_queue r) ''wait_seq'')
      [''submit0_seq'', ''submit1_seq'', ''defer0_seq'', ''defer1_seq''] \<and>
    sorted_wrt (<) (map (fint (dr_queue r)) [''wait_seq'', ''release_seq'', ''reclaim_seq'']) \<and>
    sorted_wrt (<) (map (fint (dr_console r)) [''wait_seq'', ''rx_seq'', ''wake_seq'', ''done_seq''])"
proof -
  note facts = validate_devtraceD [OF assms]
  from facts(6) obtain wait where "dev_console wait (dr_console r) = Inr ()" by blast
  from this [unfolded dev_console_def Let_def, THEN requires_tl, THEN requires_tl, THEN requires_tl, THEN requires_hd]
  have "sorted_wrt (<) (map (fint (dr_console r)) [''wait_seq'', ''rx_seq'', ''wake_seq'', ''done_seq''])" by simp
  moreover note dev_disk_facts [OF facts(2)] dev_queue_facts [OF facts(4)]
  ultimately show ?thesis by blast
qed

section \<open>An accepted set of transcripts\<close>

definition console_demo :: "(string list \<times> fval fields) list" where
  "console_demo =
    [([''DEV'', ''CONSOLE_WAIT''], [(''generation'', FInt 1), (''pid'', FInt 4), (''state'', FInt 2),
       (''chan'', FInt 4096), (''seq'', FInt 1)]),
     ([''DEV'', ''CONSOLE''], [(''generation'', FInt 1), (''pid'', FInt 4), (''irq'', FInt 10),
       (''wait_seq'', FInt 1), (''rx_seq'', FInt 2), (''wake_seq'', FInt 3), (''done_seq'', FInt 4),
       (''claims'', FInt 1), (''completes'', FInt 1), (''claim_harts'', FInt 1),
       (''complete_harts'', FInt 1), (''wait_chan'', FInt 4096), (''wake_chan'', FInt 4096),
       (''rx'', FInt 10), (''first'', FInt 68), (''last'', FInt 10), (''read'', FInt 10),
       (''ring_before'', FInt 0), (''ring_after'', FInt 10), (''publish_lock'', FInt 1),
       (''condition_before'', FInt 1), (''proc_after'', FInt 1), (''condition_after'', FInt 0),
       (''wake_proc_lock'', FInt 1), (''lock_errors'', FInt 0), (''status'', FInt 0),
       (''cleanup'', FInt 1)]),
     ([''DEV'', ''AFTER''], [(''phase'', FStr ''CONSOLE''), (''active'', FInt 0), (''waiters'', FInt 0),
       (''deferred'', FInt 0), (''free_desc'', FInt 8), (''info'', FInt 0), (''buf_refs'', FInt 0)])]"

definition disk_demo :: "(string list \<times> fval fields) list" where
  "disk_demo =
    [([''DEV'', ''DISK''], [(''generation'', FInt 2), (''pid'', FInt 5), (''block'', FInt 1999),
       (''sector'', FInt 3998), (''submit_hart'', FInt 0), (''head'', FInt 0), (''d0'', FInt 0),
       (''d1'', FInt 1), (''d2'', FInt 2), (''d0_addr'', FInt 8192), (''d0_len'', FInt 16),
       (''d0_flags'', FInt 1), (''d0_next'', FInt 1), (''d1_addr'', FInt 12288),
       (''d1_len'', FInt 1024), (''d1_flags'', FInt 3), (''d1_next'', FInt 2),
       (''d2_addr'', FInt 16384), (''d2_len'', FInt 1), (''d2_flags'', FInt 2),
       (''queue_desc'', FInt 20480), (''queue_avail'', FInt 24576), (''queue_used'', FInt 28672),
       (''queue_ready'', FInt 1), (''free_before'', FInt 8), (''free_programmed'', FInt 5),
       (''free_after'', FInt 8), (''avail_before'', FInt 7), (''avail_after'', FInt 8),
       (''used_before'', FInt 7), (''used_after'', FInt 8), (''notify'', FInt 1), (''b_owner'', FInt 1),
       (''device_status'', FInt 0), (''wait_chan'', FInt 32768), (''wake_chan'', FInt 32768),
       (''program_seq'', FInt 10), (''publish_seq'', FInt 11), (''notify_seq'', FInt 12),
       (''sleep_seq'', FInt 13), (''irq_seq'', FInt 14), (''complete_seq'', FInt 15),
       (''wake_seq'', FInt 16), (''reclaim_seq'', FInt 17), (''irq'', FInt 1), (''claims'', FInt 1),
       (''completes'', FInt 1), (''claim_harts'', FInt 2), (''complete_harts'', FInt 2),
       (''info_after'', FInt 0), (''read'', FInt 0), (''status'', FInt 0), (''cleanup'', FInt 1),
       (''program_lock'', FInt 1), (''publish_lock'', FInt 1), (''notify_lock'', FInt 1),
       (''complete_lock'', FInt 1), (''reclaim_lock'', FInt 1), (''condition_before'', FInt 1),
       (''proc_after'', FInt 1), (''condition_after'', FInt 0), (''wake_proc_lock'', FInt 1),
       (''lock_errors'', FInt 0)]),
     ([''DEV'', ''AFTER''], [(''phase'', FStr ''DISK''), (''active'', FInt 0), (''waiters'', FInt 0),
       (''deferred'', FInt 0), (''free_desc'', FInt 8), (''info'', FInt 0), (''buf_refs'', FInt 0)])]"

definition queue_demo :: "(string list \<times> fval fields) list" where
  "queue_demo =
    [([''DEV'', ''QUEUE''], [(''generation'', FInt 3), (''p0'', FInt 6), (''p1'', FInt 7), (''p2'', FInt 8),
       (''block0'', FInt 1996), (''block1'', FInt 1997), (''block2'', FInt 1998),
       (''free_before'', FInt 8), (''free_held'', FInt 2), (''free_after'', FInt 8),
       (''deferred_held'', FInt 2), (''deferred_after'', FInt 0), (''third_pid'', FInt 8),
       (''third_state'', FInt 2), (''third_chan'', FInt 40960), (''desc_chan'', FInt 40960),
       (''avail_before'', FInt 8), (''avail_after'', FInt 11), (''used_before'', FInt 8),
       (''used_after'', FInt 11), (''submit0_seq'', FInt 20), (''submit1_seq'', FInt 21),
       (''defer0_seq'', FInt 22), (''defer1_seq'', FInt 23), (''wait_seq'', FInt 24),
       (''release_seq'', FInt 25), (''reclaim_seq'', FInt 30), (''irq'', FInt 1), (''claims'', FInt 2),
       (''completes'', FInt 2), (''claim_harts'', FInt 3), (''complete_harts'', FInt 3),
       (''controller_hart'', FInt 0), (''status0'', FInt 0), (''status1'', FInt 0),
       (''status2'', FInt 0), (''info_after'', FInt 0), (''cleanup'', FInt 1),
       (''program_lock'', FInt 1), (''publish_lock'', FInt 1), (''notify_lock'', FInt 1),
       (''complete_lock'', FInt 1), (''reclaim_lock'', FInt 1), (''condition_before'', FInt 1),
       (''proc_after'', FInt 1), (''condition_after'', FInt 0), (''wake_proc_lock'', FInt 1),
       (''lock_errors'', FInt 0)]),
     ([''DEV'', ''AFTER''], [(''phase'', FStr ''QUEUE''), (''active'', FInt 0), (''waiters'', FInt 0),
       (''deferred'', FInt 0), (''free_desc'', FInt 8), (''info'', FInt 0), (''buf_refs'', FInt 0)]),
     ([''DEV'', ''PASS''], [(''cases'', FInt 3), (''cleanup'', FInt 1)])]"



text \<open>Markers that list the fields of their schema in its order are well-formed.\<close>

definition in_schema_order :: "string list \<times> fval fields \<Rightarrow> bool" where
  "in_schema_order l \<longleftrightarrow> length (fst l) = 2 \<and> fst l ! 0 = ''DEV'' \<and> plain_word (fst l ! 1) \<and> snd l \<noteq> [] \<and>
     list_all (\<lambda>(k, v). dev_value_ok k v) (snd l) \<and> map_of DEV_SCHEMAS (fst l ! 1) = Some (dkeys (snd l))"

lemma schemas_distinct: "list_all (\<lambda>(phase, schema). distinct schema) DEV_SCHEMAS"
  by code_simp

lemma in_schema_order_ok: "in_schema_order l \<Longrightarrow> dev_ok l"
proof -
  assume a: "in_schema_order l"
  then have "(fst l ! 1, dkeys (snd l)) \<in> set DEV_SCHEMAS" by (auto simp: in_schema_order_def dest: map_of_SomeD)
  then have "dict_ok (snd l)" using schemas_distinct by (auto simp: list_all_iff dict_ok_def dkeys_def)
  moreover have "plain_word ''DEV''" by code_simp
  ultimately show "dev_ok l" using a
    by (auto simp: dev_ok_def in_schema_order_def tokens_ok_def list_all_iff dev_value_ok_def numeral_2_eq_2 length_Suc_conv)
qed

lemma demo_in_order: "list_all in_schema_order console_demo" "list_all in_schema_order disk_demo" "list_all in_schema_order queue_demo"
  by code_simp+

lemma dev_demo_ok: "list_all dev_ok console_demo" "list_all dev_ok disk_demo" "list_all dev_ok queue_demo"
  using demo_in_order in_schema_order_ok by (simp_all add: list_all_iff)

lemma plain_phases: "list_all plain_word [''CONSOLE_WAIT'', ''CONSOLE'', ''DISK'', ''QUEUE'', ''AFTER'', ''PASS'']"
  by code_simp

definition phase_of :: "(string list \<times> fval fields) list \<Rightarrow> string \<Rightarrow> fval fields list" where
  "phase_of ls phase = map snd (filter (\<lambda>l. fst l ! 1 = phase) ls)"

lemma one_marker_script:
  assumes "list_all dev_ok ls" and "plain_word phase" and "phase_of ls phase = [m]"
  shows "one_marker (script ls) phase = Inr m"
  using assms dev_matches_script [OF assms(1,2)] by (simp add: one_marker_def phase_of_def)

lemma demo_phases:
  "phase_of console_demo ''CONSOLE_WAIT'' = [snd (console_demo ! 0)]" "phase_of console_demo ''CONSOLE'' = [snd (console_demo ! 1)]"
  "phase_of console_demo ''AFTER'' = [snd (console_demo ! 2)]" "phase_of disk_demo ''DISK'' = [snd (disk_demo ! 0)]"
  "phase_of disk_demo ''AFTER'' = [snd (disk_demo ! 1)]" "phase_of queue_demo ''QUEUE'' = [snd (queue_demo ! 0)]"
  "phase_of queue_demo ''AFTER'' = [snd (queue_demo ! 1)]" "phase_of queue_demo ''PASS'' = [snd (queue_demo ! 2)]"
  by code_simp+

lemma demo_orders:
  "map (\<lambda>l. fst l ! 1) console_demo = [''CONSOLE_WAIT'', ''CONSOLE'', ''AFTER'']"
  "map (\<lambda>l. fst l ! 1) disk_demo = [''DISK'', ''AFTER'']" "map (\<lambda>l. fst l ! 1) queue_demo = [''QUEUE'', ''AFTER'', ''PASS'']"
  by code_simp+

lemma demo_checks:
  "dev_console (snd (console_demo ! 0)) (snd (console_demo ! 1)) = Inr ()"
  "dev_disk (snd (disk_demo ! 0)) = Inr ()"
  "dev_queue (snd (queue_demo ! 0)) = Inr ()"
    apply code_simp
   apply code_simp
  apply code_simp
  done

lemma clean_after_script:
  assumes "list_all dev_ok ls" and "phase_of ls ''AFTER'' = [m]" and "fstr m ''phase'' = phase"
    and "list_all (\<lambda>k. fint m k = 0) [''active'', ''waiters'', ''deferred'', ''info'', ''buf_refs'']" and "fint m ''free_desc'' = 8"
  shows "clean_after (script ls) phase = Inr ()"
  using assms dev_matches_script [OF assms(1), of "''AFTER''"] plain_phases by (simp add: clean_after_def phase_of_def)

lemma dev_demo_accepted:
  "validate_devtrace (script console_demo) (script disk_demo) (script queue_demo) =
     Inr \<lparr>dr_console = snd (console_demo ! 1), dr_disk = snd (disk_demo ! 0), dr_queue = snd (queue_demo ! 0)\<rparr>"
proof -
  have clean: "clean_after (script console_demo) ''CONSOLE'' = Inr ()" "clean_after (script disk_demo) ''DISK'' = Inr ()"
    "clean_after (script queue_demo) ''QUEUE'' = Inr ()"
    by (rule clean_after_script, rule dev_demo_ok, rule demo_phases, code_simp, code_simp, code_simp)+
  have passed: "fint (snd (queue_demo ! 2)) ''cases'' = 3 \<and> fint (snd (queue_demo ! 2)) ''cleanup'' = 1" by code_simp
  have words: "plain_word ''CONSOLE_WAIT''" "plain_word ''CONSOLE''" "plain_word ''DISK''" "plain_word ''QUEUE''" "plain_word ''PASS''"
    using plain_phases by simp_all
  note ones = one_marker_script [OF dev_demo_ok(1) words(1) demo_phases(1)] one_marker_script [OF dev_demo_ok(1) words(2) demo_phases(2)]
    one_marker_script [OF dev_demo_ok(2) words(3) demo_phases(4)] one_marker_script [OF dev_demo_ok(3) words(4) demo_phases(6)]
    one_marker_script [OF dev_demo_ok(3) words(5) demo_phases(8)]
  show ?thesis unfolding validate_devtrace_def
    by (simp only: dev_demo_ok [THEN marker_order_script] demo_orders ones demo_checks clean passed result_simps require_True
        requires.simps simp_thms bind_res_Inr)
qed

theorem accepted_device_orders_witness:
  "fint (snd (disk_demo ! 0)) ''free_before'' - fint (snd (disk_demo ! 0)) ''free_programmed'' = 3 \<and>
   (\<exists>order \<in> set disk_orders. sorted_wrt (<) (map (fint (snd (disk_demo ! 0))) order)) \<and>
   fint (snd (queue_demo ! 0)) ''free_held'' < 3"
  using accepted_device_orders [OF dev_demo_accepted] by simp

text \<open>
  A transcript of rendered markers is read back exactly: for every list of well-formed device
  markers with the fields of their schemas, the parser returns, for each phase, the fields of the markers
  of that phase, in the order of the transcript.
\<close>

theorem device_markers_roundtrip:
  assumes "list_all dev_ok ls" and "plain_word phase"
  shows "dev_matches (script ls) phase = Inr (map snd (filter (\<lambda>l. fst l ! 1 = phase) ls)) \<and>
    marker_order (script ls) = Inr (map (\<lambda>l. fst l ! 1) ls)"
  using dev_matches_script [OF assms] marker_order_script [OF assms(1)] by simp

theorem device_markers_roundtrip_witness:
  "dev_matches (script queue_demo) ''PASS'' = Inr [[(''cases'', FInt 3), (''cleanup'', FInt 1)]]"
proof -
  have "map snd (filter (\<lambda>l. fst l ! 1 = ''PASS'') queue_demo) = [[(''cases'', FInt 3), (''cleanup'', FInt 1)]]" by code_simp
  then show ?thesis using device_markers_roundtrip [OF dev_demo_ok(3), of "''PASS''"] plain_phases by simp
qed

end
