(* ===== verification/IoTrace.thy ===== *)
theory IoTrace
  imports LabFields
begin

text \<open>
  The runner of the communication laboratory, \<open>resources/communication-and-io/run-lab.py\<close>: the schemas of its
  markers, the two parsers and the oracle for the transcript of \<open>ioflow\<close>.
\<close>

section \<open>Schemas\<close>

definition IO_SCHEMAS :: "(string \<times> string list) list" where
  "IO_SCHEMAS =
     [(''BASE'', [''fd'', ''files'', ''refs'', ''pipes'', ''procs'', ''free'']),
      (''PIPELINE'', [''left'', ''right'', ''left_fd'', ''right_fd'', ''bytes'', ''eof'', ''cleanup'']),
      (''EMPTY'', [''child'', ''state'', ''chan'', ''occupancy'', ''wake'', ''cleanup'']),
      (''FULL'', [''child'', ''state'', ''chan'', ''occupancy'', ''wake'', ''cleanup'']),
      (''EOF'', [''occupancy'', ''read'', ''cleanup'']),
      (''BROKEN'', [''occupancy'', ''write'', ''cleanup'']),
      (''KILL_READ'', [''child'', ''state'', ''chan'', ''result'', ''cleanup'']),
      (''KILL_WRITE'', [''child'', ''state'', ''chan'', ''committed'', ''result'', ''cleanup'']),
      (''FD_ROLLBACK'', [''filled'', ''pipe'', ''cleanup'']),
      (''DEVICE'', [''read'', ''cleanup'']),
      (''PASS'', [''cleanup''])]"

definition LEDGER_FIELDS :: "string list" where
  "LEDGER_FIELDS = [''fd'', ''files'', ''refs'', ''pipes'', ''procs'', ''free'']"

definition expected_order :: "string list" where
  "expected_order = [''BASE'', ''PIPELINE'', ''EMPTY'', ''FULL'', ''EOF'', ''BROKEN'', ''KILL_READ'', ''KILL_WRITE'',
     ''FD_ROLLBACK'', ''DEVICE'']"

section \<open>Parsing\<close>

definition io_field_step :: "string \<Rightarrow> fval fields \<Rightarrow> string \<Rightarrow> fval fields result" where
  "io_field_step phase values token =
     bind_res (require (count_list token CHR ''='' = 1) (''malformed '' @ phase @ '' field'')) (\<lambda>_.
     let (key, raw) = split_once CHR ''='' token in
     bind_res (require (key \<notin> set (dkeys values)) (''duplicate '' @ phase @ '' field'')) (\<lambda>_.
     bind_res (require (is_int_literal raw) (''non-integer '' @ phase @ '' field'')) (\<lambda>_.
       Inr (dput key (FInt (read_int raw)) values))))"

definition io_parse_fields :: "string list \<Rightarrow> string \<Rightarrow> fval fields result" where
  "io_parse_fields tokens phase =
     bind_res (fold_res (io_field_step phase) [] tokens) (\<lambda>values.
     bind_res (dget IO_SCHEMAS phase) (\<lambda>schema.
     bind_res (require (set (dkeys values) = set schema) (phase @ '' fields changed'')) (\<lambda>_.
       Inr values)))"

definition after_field_step :: "fval fields \<Rightarrow> string \<Rightarrow> fval fields result" where
  "after_field_step values token =
     bind_res (require (count_list token CHR ''='' = 1) ''malformed after field'') (\<lambda>_.
     let (key, raw) = split_once CHR ''='' token in
     bind_res (require (key \<notin> set (dkeys values)) ''duplicate after field'') (\<lambda>_.
     if key = ''phase'' then
       bind_res (require (raw \<in> set (expected_order @ [''PASS''])) ''unknown after phase'') (\<lambda>_.
         Inr (dput key (FStr raw) values))
     else
       bind_res (require (is_int_literal raw) ''non-integer after field'') (\<lambda>_.
         Inr (dput key (FInt (read_int raw)) values))))"

definition parse_after :: "string \<Rightarrow> fval fields result" where
  "parse_after line =
     (let parts = split_ws line in
      bind_res (require (length parts \<ge> 4 \<and> take 2 parts = [''IO'', ''AFTER'']) ''malformed after marker'') (\<lambda>_.
      bind_res (fold_res after_field_step [] (drop 2 parts)) (\<lambda>values.
      bind_res (require (set (dkeys values) = set (''phase'' # LEDGER_FIELDS)) ''after fields changed'') (\<lambda>_.
        Inr values))))"

section \<open>The oracle\<close>

text \<open>The three groups of lines: markers, \<open>AFTER\<close> ledgers and \<open>PASS\<close>.\<close>

definition second_word :: "string \<Rightarrow> string \<Rightarrow> bool" where
  "second_word word line \<longleftrightarrow> (let parts = split_ws line in length parts > 1 \<and> parts ! 1 = word)"

definition io_lines :: "string \<Rightarrow> string list" where
  "io_lines transcript = filter (\<lambda>line. starts_with line ''IO '') (splitlines transcript)"

definition after_lines :: "string \<Rightarrow> string list" where
  "after_lines transcript = filter (second_word ''AFTER'') (io_lines transcript)"

definition pass_lines :: "string \<Rightarrow> string list" where
  "pass_lines transcript = filter (second_word ''PASS'') (io_lines transcript)"

definition io_marker_lines :: "string \<Rightarrow> string list" where
  "io_marker_lines transcript =
     filter (\<lambda>line. \<not> second_word ''AFTER'' line \<and> \<not> second_word ''PASS'' line) (io_lines transcript)"

type_synonym io_phases = "(string, fval fields) dict"

definition io_phase_step :: "io_phases \<Rightarrow> string \<times> string \<Rightarrow> io_phases result" where
  "io_phase_step phases item =
     (case item of (line, expected) \<Rightarrow>
      let parts = split_ws line in
      bind_res (require (length parts \<ge> 3 \<and> parts ! 0 = ''IO'' \<and> parts ! 1 = expected) ''ioflow phase order changed'') (\<lambda>_.
      bind_res (io_parse_fields (drop 2 parts) expected) (\<lambda>values.
        Inr (dput expected values phases))))"

definition phase_at :: "io_phases \<Rightarrow> string \<Rightarrow> fval fields" where
  "phase_at phases name = dget_or phases name []"

definition io_pass :: "string list \<Rightarrow> unit result" where
  "io_pass lines =
     (if length lines = 1 then
        bind_res (io_parse_fields (drop 2 (split_ws (lines ! 0))) ''PASS'') (\<lambda>passed.
          require (fint passed ''cleanup'' = 1) ''PASS marker changed'')
      else require False ''PASS marker changed'')"

definition io_scenarios :: "io_phases \<Rightarrow> unit result" where
  "io_scenarios phases =
     (let base = fint (phase_at phases ''BASE''); pipeline = fint (phase_at phases ''PIPELINE'');
          empty = fint (phase_at phases ''EMPTY''); full = fint (phase_at phases ''FULL'');
          eof = fint (phase_at phases ''EOF''); broken = fint (phase_at phases ''BROKEN'');
          killed_read = fint (phase_at phases ''KILL_READ''); killed_write = fint (phase_at phases ''KILL_WRITE'');
          rollback = fint (phase_at phases ''FD_ROLLBACK''); device = fint (phase_at phases ''DEVICE'');
          child_pids = [pipeline ''left'', pipeline ''right'', empty ''child'', full ''child'', killed_read ''child'',
            killed_write ''child'']
      in requires
        [(base ''fd'' = 3 \<and> base ''files'' = 1 \<and> base ''refs'' = 9 \<and> base ''pipes'' = 0 \<and> base ''procs'' = 3 \<and>
            base ''free'' > 32000, ''unexpected baseline ledger''),
         (pipeline ''left'' > 0 \<and> pipeline ''right'' > 0 \<and> pipeline ''left'' \<noteq> pipeline ''right'' \<and>
            pipeline ''left_fd'' = 1 \<and> pipeline ''right_fd'' = 0 \<and> pipeline ''bytes'' = 641 \<and> pipeline ''eof'' = 0,
            ''pipeline oracle failed''),
         (empty ''child'' > 0 \<and> empty ''state'' = 2 \<and> empty ''chan'' = 1 \<and> empty ''occupancy'' = 0 \<and> empty ''wake'' = 1,
            ''empty-pipe oracle failed''),
         (full ''child'' > 0 \<and> full ''state'' = 2 \<and> full ''chan'' = 2 \<and> full ''occupancy'' = 512 \<and> full ''wake'' = 1,
            ''full-pipe oracle failed''),
         (eof ''occupancy'' = 0 \<and> eof ''read'' = 0 \<and> eof ''cleanup'' = 1, ''EOF oracle failed''),
         (broken ''occupancy'' = 0 \<and> broken ''write'' = - 1 \<and> broken ''cleanup'' = 1, ''broken-end oracle failed''),
         (killed_read ''child'' > 0 \<and> killed_read ''state'' = 2 \<and> killed_read ''chan'' = 1 \<and> killed_read ''result'' = - 1,
            ''killed-reader oracle failed''),
         (killed_write ''child'' > 0 \<and> killed_write ''state'' = 2 \<and> killed_write ''chan'' = 2 \<and>
            killed_write ''committed'' = 512 \<and> killed_write ''result'' = - 1, ''killed-writer oracle failed''),
         (rollback ''filled'' = 13 \<and> rollback ''pipe'' = - 1 \<and> rollback ''cleanup'' = 1, ''fd rollback oracle failed''),
         (device ''read'' = 16 \<and> device ''cleanup'' = 1, ''device oracle failed''),
         (list_all (\<lambda>(phase, values). phase = ''BASE'' \<or> map_of values ''cleanup'' = Some (FInt 1)) phases,
            ''one scenario did not report cleanup''),
         (length (remdups child_pids) = length child_pids, ''scenario child identities overlap'')])"

definition after_step :: "io_phases \<Rightarrow> string \<Rightarrow> io_phases result" where
  "after_step after line =
     bind_res (parse_after line) (\<lambda>value.
     bind_res (require (fstr value ''phase'' \<notin> set (dkeys after)) ''duplicate after phase'') (\<lambda>_.
       Inr (dput (fstr value ''phase'') value after)))"

definition io_ledger :: "fval fields \<Rightarrow> int list" where
  "io_ledger values = map (fint values) LEDGER_FIELDS"

definition io_after :: "fval fields \<Rightarrow> string list \<Rightarrow> unit result" where
  "io_after base lines =
     bind_res (require (length lines = length expected_order + 1) ''after-ledger marker count changed'') (\<lambda>_.
     bind_res (fold_res after_step [] lines) (\<lambda>after.
     bind_res (require (set (dkeys after) = set (expected_order @ [''PASS''])) ''after-ledger phases changed'') (\<lambda>_.
       requires (map (\<lambda>(phase, value). (io_ledger value = io_ledger base, phase @ '' after-ledger did not return to BASE''))
         after))))"

definition validate_ioflow :: "string \<Rightarrow> io_phases result" where
  "validate_ioflow transcript =
     bind_res (require (starts_with transcript ''ioflow\<newline>'' \<and> ends_with transcript ''$ '') ''ioflow transcript framing changed'') (\<lambda>_.
     bind_res (require (length (io_marker_lines transcript) = length expected_order) ''ioflow marker count changed'') (\<lambda>_.
     bind_res (fold_res io_phase_step [] (zip (io_marker_lines transcript) expected_order)) (\<lambda>phases.
     bind_res (io_pass (pass_lines transcript)) (\<lambda>_.
     bind_res (io_scenarios phases) (\<lambda>_.
     bind_res (io_after (phase_at phases ''BASE'') (after_lines transcript)) (\<lambda>_.
       Inr phases))))))"

end
