(* ===== verification/IoTraceProps.thy ===== *)
theory IoTraceProps
  imports IoTrace Transcript
begin

text \<open>
  Properties of the communication oracle: what an accepted transcript shows about pipe capacity,
  sleeping processes and the resources after each scenario.
\<close>

section \<open>What an accepted transcript shows\<close>

lemma after_fold:
  assumes "fold_res after_step d lines = Inr d'"
  shows "\<exists>vs. map parse_after lines = map Inr vs \<and> d' = d @ map (\<lambda>v. (fstr v ''phase'', v)) vs"
  using assms
proof (induction lines arbitrary: d)
  case (Cons line lines)
  then obtain v where v: "parse_after line = Inr v" "fstr v ''phase'' \<notin> set (dkeys d)"
    "fold_res after_step (dput (fstr v ''phase'') v d) lines = Inr d'"
    by (auto simp: after_step_def [of d line] bind_res_eq_Inr require_eq_Inr)
  from Cons.IH [OF v(3)] obtain vs where "map parse_after lines = map Inr vs"
    "d' = d @ (fstr v ''phase'', v) # map (\<lambda>v. (fstr v ''phase'', v)) vs"
    by (auto simp: dput_new [OF v(2)])
  with v(1) show ?case by (intro exI [of _ "v # vs"]) simp
qed auto

lemma io_after_facts:
  assumes "io_after base lines = Inr u"
  shows "\<exists>vs. map parse_after lines = map Inr vs \<and> distinct (map (\<lambda>v. fstr v ''phase'') vs) \<and>
    set (map (\<lambda>v. fstr v ''phase'') vs) = set (expected_order @ [''PASS'']) \<and> list_all (\<lambda>v. io_ledger v = io_ledger base) vs"
proof -
  from assms obtain after where len: "length lines = length expected_order + 1" and after: "fold_res after_step [] lines = Inr after"
    and keys: "set (dkeys after) = set (expected_order @ [''PASS''])" and ledger: "list_all (\<lambda>item. io_ledger (snd item) = io_ledger base) after"
    unfolding io_after_def by (auto simp: bind_res_eq_Inr require_eq_Inr requires_eq_Inr list.pred_map comp_def case_prod_beta)
  from after_fold [OF after] obtain vs where vs: "map parse_after lines = map Inr vs" "after = map (\<lambda>v. (fstr v ''phase'', v)) vs" by auto
  let ?phases = "map (\<lambda>v. fstr v ''phase'') vs"
  have phases: "set ?phases = set (expected_order @ [''PASS''])" using keys by (simp add: vs(2) dkeys_def comp_def)
  have "length ?phases = length lines" using vs(1) by (metis length_map)
  also have "... = card (set (expected_order @ [''PASS'']))" using len by (simp add: expected_order_def)
  finally have "distinct ?phases" unfolding phases [symmetric] by (metis card_distinct)
  with phases vs(1) ledger show ?thesis unfolding vs(2) by (intro exI [of _ vs]) (simp add: list.pred_map comp_def)
qed

lemma io_phases_keys:
  assumes "fold_res io_phase_step d (zip lines es) = Inr d'" and "length lines = length es" and "distinct (dkeys d @ es)"
  shows "dkeys d' = dkeys d @ es"
  using assms
proof (induction lines es arbitrary: d rule: list_induct2')
  case (4 line lines e es)
  then obtain v where v: "fold_res io_phase_step (dput e v d) (zip lines es) = Inr d'"
    by (auto simp: io_phase_step_def [of d "(line, e)"] Let_def bind_res_eq_Inr require_eq_Inr)
  have "dput e v d = d @ [(e, v)]" using "4.prems"(3) by (intro dput_new) auto
  with v show ?case using "4.IH" [of "d @ [(e, v)]"] "4.prems" by (simp add: dkeys_def)
qed simp_all

lemma io_scenarios_facts:
  assumes "io_scenarios phases = Inr u"
  shows "fint (phase_at phases ''FULL'') ''occupancy'' = 512" and "fint (phase_at phases ''KILL_WRITE'') ''committed'' = 512"
    and "fint (phase_at phases ''EMPTY'') ''occupancy'' = 0"
    and "fint (phase_at phases ''PIPELINE'') ''bytes'' = 641"
    and "list_all (\<lambda>(phase, chan). fint (phase_at phases phase) ''state'' = 2 \<and> fint (phase_at phases phase) ''chan'' = chan)
      [(''EMPTY'', 1), (''FULL'', 2), (''KILL_READ'', 1), (''KILL_WRITE'', 2)]"
    and "distinct (map (\<lambda>(phase, child). fint (phase_at phases phase) child) [(''PIPELINE'', ''left''), (''PIPELINE'', ''right''),
      (''EMPTY'', ''child''), (''FULL'', ''child''), (''KILL_READ'', ''child''), (''KILL_WRITE'', ''child'')])"
proof -
  note pipeline = assms [unfolded io_scenarios_def Let_def, THEN requires_tl]
  note empty = pipeline [THEN requires_tl]
  note full = empty [THEN requires_tl]
  note killed = full [THEN requires_tl, THEN requires_tl, THEN requires_tl]
  note children = killed [THEN requires_tl, THEN requires_tl, THEN requires_tl, THEN requires_tl, THEN requires_tl, THEN requires_hd]
  note conds = pipeline [THEN requires_hd] empty [THEN requires_hd] full [THEN requires_hd] killed [THEN requires_hd]
    killed [THEN requires_tl, THEN requires_hd]
  show "fint (phase_at phases ''FULL'') ''occupancy'' = 512" "fint (phase_at phases ''KILL_WRITE'') ''committed'' = 512"
    "fint (phase_at phases ''EMPTY'') ''occupancy'' = 0" "fint (phase_at phases ''PIPELINE'') ''bytes'' = 641"
    "list_all (\<lambda>(phase, chan). fint (phase_at phases phase) ''state'' = 2 \<and> fint (phase_at phases phase) ''chan'' = chan)
      [(''EMPTY'', 1), (''FULL'', 2), (''KILL_READ'', 1), (''KILL_WRITE'', 2)]"
    using conds by simp_all
  from children show "distinct (map (\<lambda>(phase, child). fint (phase_at phases phase) child) [(''PIPELINE'', ''left''), (''PIPELINE'', ''right''),
      (''EMPTY'', ''child''), (''FULL'', ''child''), (''KILL_READ'', ''child''), (''KILL_WRITE'', ''child'')])"
    unfolding remdups_length_distinct list.map prod.case .
qed

lemma validate_ioflowD:
  assumes "validate_ioflow transcript = Inr phases"
  shows "dkeys phases = expected_order" and "io_scenarios phases = Inr ()"
    and "io_after (phase_at phases ''BASE'') (after_lines transcript) = Inr ()"
proof -
  from assms have facts: "length (io_marker_lines transcript) = length expected_order"
    "fold_res io_phase_step [] (zip (io_marker_lines transcript) expected_order) = Inr phases"
    "io_scenarios phases = Inr ()" "io_after (phase_at phases ''BASE'') (after_lines transcript) = Inr ()"
    unfolding validate_ioflow_def by (auto elim!: bind_res_InrE simp: require_eq_Inr)
  have "distinct (dkeys ([] :: io_phases) @ expected_order)" by code_simp
  from io_phases_keys [OF facts(2,1) this] show "dkeys phases = expected_order" by (simp add: dkeys_def)
  show "io_scenarios phases = Inr ()" "io_after (phase_at phases ''BASE'') (after_lines transcript) = Inr ()" by fact+
qed

text \<open>
  C32: when the communication oracle accepts a transcript, the returned dictionary holds the ten scenarios in
  order; the lines marked \<open>AFTER\<close> all parse, name each scenario and \<open>PASS\<close> exactly once, and every one shows
  the same descriptors, files, references, pipes, processes and free pages as the baseline; the reader
  of an empty pipe and the writer of a full pipe of 512 bytes sleep on different channels, the killed
  writer committed exactly the capacity, and the six children are different processes.
\<close>

theorem accepted_ioflow_ledger:
  assumes "validate_ioflow transcript = Inr phases"
  shows "dkeys phases = expected_order \<and>
    (\<exists>vs. map parse_after (after_lines transcript) = map Inr vs \<and> distinct (map (\<lambda>v. fstr v ''phase'') vs) \<and>
      set (map (\<lambda>v. fstr v ''phase'') vs) = set (expected_order @ [''PASS'']) \<and>
      list_all (\<lambda>v. io_ledger v = io_ledger (phase_at phases ''BASE'')) vs) \<and>
    fint (phase_at phases ''FULL'') ''occupancy'' = 512 \<and> fint (phase_at phases ''KILL_WRITE'') ''committed'' = 512 \<and>
    fint (phase_at phases ''EMPTY'') ''occupancy'' = 0 \<and>
    list_all (\<lambda>(phase, chan). fint (phase_at phases phase) ''state'' = 2 \<and> fint (phase_at phases phase) ''chan'' = chan)
      [(''EMPTY'', 1), (''FULL'', 2), (''KILL_READ'', 1), (''KILL_WRITE'', 2)] \<and>
    distinct (map (\<lambda>(phase, child). fint (phase_at phases phase) child) [(''PIPELINE'', ''left''), (''PIPELINE'', ''right''),
      (''EMPTY'', ''child''), (''FULL'', ''child''), (''KILL_READ'', ''child''), (''KILL_WRITE'', ''child'')])"
proof -
  note facts = validate_ioflowD [OF assms]
  with io_after_facts [OF facts(3)] io_scenarios_facts [OF facts(2)] show ?thesis by blast
qed

section \<open>An accepted transcript\<close>

definition io_value_ok :: "string \<Rightarrow> fval \<Rightarrow> bool" where
  "io_value_ok k v \<longleftrightarrow> token_ok (k, v) \<and> (case v of FInt _ \<Rightarrow> True | FStr _ \<Rightarrow> False)"

definition after_value_ok :: "string \<Rightarrow> fval \<Rightarrow> bool" where
  "after_value_ok k v \<longleftrightarrow> token_ok (k, v) \<and>
     (case v of FInt _ \<Rightarrow> k \<noteq> ''phase'' | FStr s \<Rightarrow> k = ''phase'' \<and> s \<in> set (expected_order @ [''PASS'']))"

interpretation io_tokens: token_parser "io_field_step phase" show_value io_value_ok for phase
proof (unfold_locales, goal_cases)
  case (1 k v d)
  then show ?case using token_ok_value(4,5) [of k v] by (cases v) (auto simp: io_value_ok_def io_field_step_def)
next
  case (2 k v)
  then show ?case using token_ok_value(3) [of k v] by (simp add: io_value_ok_def)
qed

interpretation after_tokens: token_parser after_field_step show_value after_value_ok
proof (unfold_locales, goal_cases)
  case (1 k v d)
  then show ?case using token_ok_value(4,5) [of k v] by (cases v) (auto simp: after_value_ok_def after_field_step_def)
next
  case (2 k v)
  then show ?case using token_ok_value(3) [of k v] by (simp add: after_value_ok_def)
qed

definition io_ok :: "string list \<times> fval fields \<Rightarrow> bool" where
  "io_ok l \<longleftrightarrow> tokens_ok l \<and> fst l ! 0 = ''IO'' \<and> snd l \<noteq> [] \<and>
     (if fst l ! 1 = ''AFTER'' then list_all (\<lambda>(k, v). after_value_ok k v) (snd l) \<and> dkeys (snd l) = ''phase'' # LEDGER_FIELDS
      else list_all (\<lambda>(k, v). io_value_ok k v) (snd l) \<and> map_of IO_SCHEMAS (fst l ! 1) = Some (dkeys (snd l)))"

lemma io_ok_words:
  assumes "io_ok l"
  shows "split_ws (render_line (line_words l)) = ''IO'' # fst l ! 1 # map (\<lambda>(k, v). render_token k (show_value v)) (snd l)"
    and "starts_with (render_line (line_words l)) ''IO ''"
proof -
  from assms have t: "tokens_ok l" and l: "fst l = [''IO'', fst l ! 1]"
    by (auto simp: io_ok_def tokens_ok_def length_Suc_conv numeral_2_eq_2)
  then have w: "line_words l = ''IO'' # fst l ! 1 # map (\<lambda>(k, v). render_token k (show_value v)) (snd l)"
    by (metis append_Cons append_Nil line_words_def)
  then show "split_ws (render_line (line_words l)) = ''IO'' # fst l ! 1 # map (\<lambda>(k, v). render_token k (show_value v)) (snd l)"
    using tokens_ok_words [OF t] by simp
  show "starts_with (render_line (line_words l)) ''IO ''" unfolding w by (simp add: starts_with_def)
qed

lemma io_parse_rendered:
  assumes "io_ok l" and "fst l ! 1 \<noteq> ''AFTER''"
  shows "io_parse_fields (map (\<lambda>(k, v). render_token k (show_value v)) (snd l)) (fst l ! 1) = Inr (snd l)"
proof -
  have "io_tokens.renderable (snd l)" using assms by (auto simp: io_ok_def tokens_ok_def io_tokens.renderable_def list_all_iff)
  from io_tokens.parse_tokens [OF this, of "fst l ! 1"] show ?thesis
    using assms by (simp add: io_parse_fields_def io_tokens.tokens_def io_ok_def dget_def)
qed

lemma parse_after_rendered:
  assumes "io_ok l" and "fst l ! 1 = ''AFTER''"
  shows "parse_after (render_line (line_words l)) = Inr (snd l)"
proof -
  have "after_tokens.renderable (snd l)" using assms by (auto simp: io_ok_def tokens_ok_def after_tokens.renderable_def list_all_iff)
  moreover have "length (snd l) = 7" "dkeys (snd l) = ''phase'' # LEDGER_FIELDS"
    using assms by (auto simp: io_ok_def dkeys_def LEDGER_FIELDS_def dest: arg_cong [where f = length])
  ultimately show ?thesis using after_tokens.parse_tokens assms(2)
    by (simp add: parse_after_def io_ok_words(1) [OF assms(1)] after_tokens.tokens_def)
qed

lemma io_lines_framed:
  assumes "list_all io_ok ls"
  shows "io_lines (framed ''ioflow'' ls) = map (\<lambda>l. render_line (line_words l)) ls"
proof -
  have "list_all tokens_ok ls" using assms by (simp add: io_ok_def list_all_iff)
  moreover have "list_all (\<lambda>c. \<not> is_line_sep c) ''ioflow''" "\<not> starts_with ''ioflow'' ''IO ''" "\<not> starts_with ''$ '' ''IO ''"
    by code_simp+
  moreover have "filter (\<lambda>line. starts_with line ''IO '') (map (\<lambda>l. render_line (line_words l)) ls) = map (\<lambda>l. render_line (line_words l)) ls"
    using assms io_ok_words(2) by (simp add: filter_id_conv list_all_iff)
  ultimately show ?thesis by (simp add: io_lines_def splitlines_framed)
qed

lemma filter_rendered:
  assumes "list_all io_ok ls" and "\<And>l. io_ok l \<Longrightarrow> P (render_line (line_words l)) = Q (fst l ! 1)"
  shows "filter P (map (\<lambda>l. render_line (line_words l)) ls) = map (\<lambda>l. render_line (line_words l)) (filter (\<lambda>l. Q (fst l ! 1)) ls)"
  using assms by (induction ls) auto

lemma second_word_rendered: "io_ok l \<Longrightarrow> second_word w (render_line (line_words l)) \<longleftrightarrow> fst l ! 1 = w"
  by (auto simp: second_word_def io_ok_words(1))

definition phase_lines :: "(string list \<times> fval fields) list \<Rightarrow> (string list \<times> fval fields) list" where
  "phase_lines ls = filter (\<lambda>l. fst l ! 1 \<notin> {''AFTER'', ''PASS''}) ls"

lemma grouped_lines:
  assumes "list_all io_ok ls"
  shows "after_lines (framed ''ioflow'' ls) = map (\<lambda>l. render_line (line_words l)) (filter (\<lambda>l. fst l ! 1 = ''AFTER'') ls)"
    and "pass_lines (framed ''ioflow'' ls) = map (\<lambda>l. render_line (line_words l)) (filter (\<lambda>l. fst l ! 1 = ''PASS'') ls)"
    and "io_marker_lines (framed ''ioflow'' ls) = map (\<lambda>l. render_line (line_words l)) (phase_lines ls)"
  unfolding after_lines_def pass_lines_def io_marker_lines_def phase_lines_def io_lines_framed [OF assms]
  by (rule filter_rendered [OF assms], simp add: second_word_rendered)+

lemma io_phase_fold:
  assumes "list_all io_ok ls" and "map (\<lambda>l. fst l ! 1) ls = es" and "''AFTER'' \<notin> set es"
  shows "fold_res io_phase_step d (zip (map (\<lambda>l. render_line (line_words l)) ls) es) = Inr (foldl (\<lambda>d l. dput (fst l ! 1) (snd l) d) d ls)"
  using assms
proof (induction ls arbitrary: d es)
  case (Cons l ls)
  then have "io_ok l" "fst l ! 1 \<noteq> ''AFTER''" and es: "es = fst l ! 1 # map (\<lambda>l. fst l ! 1) ls" by auto
  then have "io_phase_step d (render_line (line_words l), fst l ! 1) = Inr (dput (fst l ! 1) (snd l) d)"
    using io_parse_rendered [of l] by (simp add: io_phase_step_def io_ok_words(1) Suc_le_eq) (simp add: io_ok_def)
  then show ?case using Cons.IH [OF _ refl] Cons.prems unfolding es by simp
qed simp

lemma after_lines_fold:
  assumes "list_all io_ok ls" and "list_all (\<lambda>l. fst l ! 1 = ''AFTER'') ls" and "distinct (dkeys d @ map (\<lambda>l. fstr (snd l) ''phase'') ls)"
  shows "fold_res after_step d (map (\<lambda>l. render_line (line_words l)) ls) = Inr (d @ map (\<lambda>l. (fstr (snd l) ''phase'', snd l)) ls)"
  using assms
proof (induction ls arbitrary: d)
  case (Cons l ls)
  then have "fstr (snd l) ''phase'' \<notin> set (dkeys d)" by auto
  then have "after_step d (render_line (line_words l)) = Inr (d @ [(fstr (snd l) ''phase'', snd l)])"
    using Cons.prems parse_after_rendered [of l] by (simp add: after_step_def dput_new)
  then show ?case using Cons.IH [of "d @ [(fstr (snd l) ''phase'', snd l)]"] Cons.prems by (simp add: dkeys_def)
qed simp

definition io_demo :: "(string list \<times> fval fields) list" where
  "io_demo =
    [([''IO'', ''BASE''], [(''fd'', FInt 3), (''files'', FInt 1), (''refs'', FInt 9), (''pipes'', FInt 0),
       (''procs'', FInt 3), (''free'', FInt 32500)]),
     ([''IO'', ''AFTER''], [(''phase'', FStr ''BASE''), (''fd'', FInt 3), (''files'', FInt 1),
       (''refs'', FInt 9), (''pipes'', FInt 0), (''procs'', FInt 3), (''free'', FInt 32500)]),
     ([''IO'', ''PIPELINE''], [(''left'', FInt 4), (''right'', FInt 5), (''left_fd'', FInt 1),
       (''right_fd'', FInt 0), (''bytes'', FInt 641), (''eof'', FInt 0), (''cleanup'', FInt 1)]),
     ([''IO'', ''AFTER''], [(''phase'', FStr ''PIPELINE''), (''fd'', FInt 3), (''files'', FInt 1),
       (''refs'', FInt 9), (''pipes'', FInt 0), (''procs'', FInt 3), (''free'', FInt 32500)]),
     ([''IO'', ''EMPTY''], [(''child'', FInt 6), (''state'', FInt 2), (''chan'', FInt 1),
       (''occupancy'', FInt 0), (''wake'', FInt 1), (''cleanup'', FInt 1)]),
     ([''IO'', ''AFTER''], [(''phase'', FStr ''EMPTY''), (''fd'', FInt 3), (''files'', FInt 1),
       (''refs'', FInt 9), (''pipes'', FInt 0), (''procs'', FInt 3), (''free'', FInt 32500)]),
     ([''IO'', ''FULL''], [(''child'', FInt 7), (''state'', FInt 2), (''chan'', FInt 2),
       (''occupancy'', FInt 512), (''wake'', FInt 1), (''cleanup'', FInt 1)]),
     ([''IO'', ''AFTER''], [(''phase'', FStr ''FULL''), (''fd'', FInt 3), (''files'', FInt 1),
       (''refs'', FInt 9), (''pipes'', FInt 0), (''procs'', FInt 3), (''free'', FInt 32500)]),
     ([''IO'', ''EOF''], [(''occupancy'', FInt 0), (''read'', FInt 0), (''cleanup'', FInt 1)]),
     ([''IO'', ''AFTER''], [(''phase'', FStr ''EOF''), (''fd'', FInt 3), (''files'', FInt 1),
       (''refs'', FInt 9), (''pipes'', FInt 0), (''procs'', FInt 3), (''free'', FInt 32500)]),
     ([''IO'', ''BROKEN''], [(''occupancy'', FInt 0), (''write'', FInt (- 1)), (''cleanup'', FInt 1)]),
     ([''IO'', ''AFTER''], [(''phase'', FStr ''BROKEN''), (''fd'', FInt 3), (''files'', FInt 1),
       (''refs'', FInt 9), (''pipes'', FInt 0), (''procs'', FInt 3), (''free'', FInt 32500)]),
     ([''IO'', ''KILL_READ''], [(''child'', FInt 8), (''state'', FInt 2), (''chan'', FInt 1),
       (''result'', FInt (- 1)), (''cleanup'', FInt 1)]),
     ([''IO'', ''AFTER''], [(''phase'', FStr ''KILL_READ''), (''fd'', FInt 3), (''files'', FInt 1),
       (''refs'', FInt 9), (''pipes'', FInt 0), (''procs'', FInt 3), (''free'', FInt 32500)]),
     ([''IO'', ''KILL_WRITE''], [(''child'', FInt 9), (''state'', FInt 2), (''chan'', FInt 2),
       (''committed'', FInt 512), (''result'', FInt (- 1)), (''cleanup'', FInt 1)]),
     ([''IO'', ''AFTER''], [(''phase'', FStr ''KILL_WRITE''), (''fd'', FInt 3), (''files'', FInt 1),
       (''refs'', FInt 9), (''pipes'', FInt 0), (''procs'', FInt 3), (''free'', FInt 32500)]),
     ([''IO'', ''FD_ROLLBACK''], [(''filled'', FInt 13), (''pipe'', FInt (- 1)), (''cleanup'', FInt 1)]),
     ([''IO'', ''AFTER''], [(''phase'', FStr ''FD_ROLLBACK''), (''fd'', FInt 3), (''files'', FInt 1),
       (''refs'', FInt 9), (''pipes'', FInt 0), (''procs'', FInt 3), (''free'', FInt 32500)]),
     ([''IO'', ''DEVICE''], [(''read'', FInt 16), (''cleanup'', FInt 1)]),
     ([''IO'', ''AFTER''], [(''phase'', FStr ''DEVICE''), (''fd'', FInt 3), (''files'', FInt 1),
       (''refs'', FInt 9), (''pipes'', FInt 0), (''procs'', FInt 3), (''free'', FInt 32500)]),
     ([''IO'', ''PASS''], [(''cleanup'', FInt 1)]),
     ([''IO'', ''AFTER''], [(''phase'', FStr ''PASS''), (''fd'', FInt 3), (''files'', FInt 1),
       (''refs'', FInt 9), (''pipes'', FInt 0), (''procs'', FInt 3), (''free'', FInt 32500)])]"


definition io_demo_phases :: io_phases where
  "io_demo_phases = map (\<lambda>l. (fst l ! 1, snd l)) (phase_lines io_demo)"

lemma io_demo_ok: "list_all io_ok io_demo"
  by code_simp

lemma io_demo_accepted: "validate_ioflow (framed ''ioflow'' io_demo) = Inr io_demo_phases"
proof -
  note groups = grouped_lines [OF io_demo_ok]
  have sub: "list_all io_ok (filter P io_demo)" for P using io_demo_ok by (auto simp: list_all_iff)
  have phase_ok: "list_all io_ok (phase_lines io_demo)" unfolding phase_lines_def by (rule sub)
  have names: "map (\<lambda>l. fst l ! 1) (phase_lines io_demo) = expected_order" "''AFTER'' \<notin> set expected_order" by code_simp+
  have phases: "fold_res io_phase_step [] (zip (io_marker_lines (framed ''ioflow'' io_demo)) expected_order) = Inr io_demo_phases"
  proof -
    have "dict_ok io_demo_phases" by code_simp
    then have "foldl (\<lambda>d l. dput (fst l ! 1) (snd l) d) [] (phase_lines io_demo) = io_demo_phases"
      using fold_new_entries [of "[]" io_demo_phases] by (simp add: io_demo_phases_def foldl_map)
    then show ?thesis unfolding groups io_phase_fold [OF phase_ok names] by (rule arg_cong)
  qed
  have "filter (\<lambda>l. fst l ! 1 = ''PASS'') io_demo = [([''IO'', ''PASS''], [(''cleanup'', FInt 1)])]" by code_simp
  moreover have "io_ok ([''IO'', ''PASS''], [(''cleanup'', FInt 1)])" by code_simp
  ultimately have passed: "io_pass (pass_lines (framed ''ioflow'' io_demo)) = Inr ()"
    using io_parse_rendered [of "([''IO'', ''PASS''], [(''cleanup'', FInt 1)])"] io_ok_words(1) [of "([''IO'', ''PASS''], [(''cleanup'', FInt 1)])"]
    by (simp add: groups io_pass_def fint_def)
  have scenarios: "io_scenarios io_demo_phases = Inr ()" by code_simp
  let ?after = "filter (\<lambda>l. fst l ! 1 = ''AFTER'') io_demo"
  let ?ledgers = "map (\<lambda>l. (fstr (snd l) ''phase'', snd l)) ?after"
  have "list_all (\<lambda>l. fst l ! 1 = ''AFTER'') ?after" by (simp add: list_all_iff)
  moreover have "distinct (dkeys ([] :: io_phases) @ map (\<lambda>l. fstr (snd l) ''phase'') ?after)" by code_simp
  ultimately have ledgers: "fold_res after_step [] (after_lines (framed ''ioflow'' io_demo)) = Inr ?ledgers"
    unfolding groups using after_lines_fold [OF sub, where d = "[]"] by simp
  have "length ?after = length expected_order + 1" "set (dkeys ?ledgers) = set (expected_order @ [''PASS''])"
    "requires (map (\<lambda>(phase, value). (io_ledger value = io_ledger (phase_at io_demo_phases ''BASE''), phase @ '' after-ledger did not return to BASE''))
         ?ledgers) = Inr ()" by code_simp+
  then have after: "io_after (phase_at io_demo_phases ''BASE'') (after_lines (framed ''ioflow'' io_demo)) = Inr ()"
    unfolding io_after_def ledgers bind_res_Inr by (simp add: groups)
  have "length (io_marker_lines (framed ''ioflow'' io_demo)) = length expected_order"
    unfolding groups names(1) [symmetric] by simp
  with framed_ends [of "''ioflow''" io_demo] show ?thesis
    unfolding validate_ioflow_def phases passed scenarios after bind_res_Inr by simp
qed

theorem accepted_ioflow_ledger_witness:
  "dkeys io_demo_phases = expected_order \<and>
   (\<exists>vs. map parse_after (after_lines (framed ''ioflow'' io_demo)) = map Inr vs \<and>
     list_all (\<lambda>v. io_ledger v = io_ledger (phase_at io_demo_phases ''BASE'')) vs) \<and>
   fint (phase_at io_demo_phases ''FULL'') ''occupancy'' = 512"
  using accepted_ioflow_ledger [OF io_demo_accepted] by blast

end
