(* ===== verification/CowTrace.thy ===== *)
theory CowTrace
  imports LabFields
begin

text \<open>
  The runner of the copy-on-write project, \<open>resources/copy-on-write/run-project.py\<close>: the field sets of its
  markers, the parser, the checks of page-table leaves and the oracle, one definition per scenario.
\<close>

unbundle bit_operations_syntax

section \<open>Field sets\<close>

definition CASE_NAMES :: "string list" where
  "CASE_NAMES = [''SHARE'', ''MULTI'', ''LAZY'', ''COPYOUT'', ''PARTIAL'', ''OOM'', ''ROLLBACK'', ''PAIR'', ''BOUNDARY'',
     ''TEARDOWN'']"

definition MARKER_FIELDS :: "(string \<times> string list) list" where
  "MARKER_FIELDS =
     [(''SHARE'', [''pa'', ''parent_new'', ''child_old'', ''before_flags'', ''before_refs'', ''before_cows'', ''after_flags'',
         ''after_refs'', ''after_cows'', ''fast_flags'', ''fast_ref'', ''fast_cow'', ''parent_alloc'', ''child_alloc'',
         ''values'']),
      (''MULTI'', [''root'', ''child'', ''grandchild'', ''shared_pa'', ''before_flags'', ''before_refs'', ''before_cows'',
         ''after_pa'', ''after_flags'', ''after_refs'', ''after_cows'', ''before_values'', ''after_values'']),
      (''LAZY'', [''before'', ''before_flags'', ''parent_pa'', ''child_pa'', ''after_flags'', ''after_refs'', ''after_cows'',
         ''values'']),
      (''COPYOUT'', [''parent_pa'', ''child_pa'', ''flags'', ''refs'', ''cows'', ''parent'', ''child'']),
      (''PARTIAL'', [''generation'', ''eligible'', ''first'', ''retry'', ''fail_at'', ''fired'', ''parent'', ''child'',
         ''parent_flags'', ''child_flags'', ''parent_refs'', ''child_refs'', ''parent_cows'', ''child_cows'',
         ''parent_values'', ''child_values'']),
      (''OOM'', [''generation'', ''eligible'', ''status'', ''fail_at'', ''fired'', ''old_pa'', ''old_flags'', ''old_ref'',
         ''old_cow'', ''fast_alloc'', ''value'']),
      (''ROLLBACK'', [''generation'', ''fork'', ''fail_at'', ''fired'', ''eligible'', ''preexisting_pa'', ''preexisting_flags'',
         ''preexisting_ref'', ''preexisting_cow'', ''new_parent_flags'', ''new_parent_ref'', ''new_parent_cow'',
         ''fast_flags'', ''fast_ref'', ''fast_cow'', ''fast_alloc'', ''setup_free'', ''after_fork_free'', ''values'']),
      (''PAIR'', [''generation'', ''pids'', ''harts'', ''arrived'', ''gate_open'', ''eligible'', ''old'', ''new'', ''flags'', ''refs'',
         ''cows'', ''values'']),
      (''BOUNDARY'', [''text_pa'', ''text_flags'', ''text_ref'', ''text_cow'', ''guard_parent_pa'', ''guard_child_pa'',
         ''guard_flags'', ''guard_cows'', ''guard_status'', ''text_status'', ''tail_status'']),
      (''TEARDOWN'', [''shrink_leaf'', ''child_pa'', ''parent_pa'', ''parent_flags'', ''parent_ref'', ''parent_cow'', ''exec_bad'',
         ''bad_before_pa'', ''bad_after_pa'', ''bad_flags'', ''bad_refs'', ''bad_cows'', ''bad_value'', ''exec_status'',
         ''errors'']),
      (''PASS'', [''cases'']),
      (''CLEAN'', [''base'', ''after'', ''errors'', ''active_before'', ''active_after'', ''refs_before'', ''refs_after''])]"

section \<open>Parsing\<close>

text \<open>\<open>re.fullmatch(r"([a-z_]+)=([^\s]+)", token)\<close>, where the token has no white space.\<close>

definition match_field :: "string \<Rightarrow> (string \<times> string) option" where
  "match_field token =
     (let key = takeWhile is_key_char token in
      case dropWhile is_key_char token of
        [] \<Rightarrow> None
      | e # raw \<Rightarrow> if key \<noteq> [] \<and> e = CHR ''='' \<and> raw \<noteq> [] then Some (key, raw) else None)"

definition cow_field_step :: "fval fields \<Rightarrow> string \<Rightarrow> fval fields result" where
  "cow_field_step values token =
     (case match_field token of
        None \<Rightarrow> bind_res (require False ''malformed marker field'') (\<lambda>_. Inr values)
      | Some (key, raw) \<Rightarrow>
          bind_res (require (key \<notin> set (dkeys values)) ''duplicate marker field'') (\<lambda>_.
            Inr (dput key (read_value raw) values)))"

definition cow_parse_fields :: "string \<Rightarrow> fval fields result" where
  "cow_parse_fields line =
     (let tokens = split_ws line in
      bind_res (require (length tokens \<ge> 3) ''marker has no fields'') (\<lambda>_.
        fold_res cow_field_step [] (drop 2 tokens)))"

definition require_exact_fields :: "fval fields \<Rightarrow> string list \<Rightarrow> string \<Rightarrow> unit result" where
  "require_exact_fields values expected context =
     require (set (dkeys values) = set expected) (context @ '' field set changed'')"

definition int_part :: "string \<Rightarrow> string \<Rightarrow> int result" where
  "int_part context part =
     (case py_int0 part of Some i \<Rightarrow> Inr i | None \<Rightarrow> Inl (LabError (context @ '' contains a non-integer value'')))"

definition parse_int_list :: "fval option \<Rightarrow> nat \<Rightarrow> string \<Rightarrow> int list result" where
  "parse_int_list value n context =
     (case value of
        Some (FInt i) \<Rightarrow> bind_res (require (n = 1) (context @ '' field count'')) (\<lambda>_. Inr [i])
      | Some (FStr s) \<Rightarrow>
          (let parts = split_on CHR ''/'' s in
           bind_res (require (length parts = n) (context @ '' field count changed'')) (\<lambda>_.
             map_res (int_part context) parts))
      | None \<Rightarrow> bind_res (require False (context @ '' is not a slash-separated field'')) (\<lambda>_. Inr []))"

definition cow_marker_lines :: "string \<Rightarrow> string \<Rightarrow> string list" where
  "cow_marker_lines text prefix =
     filter (\<lambda>line. starts_with line prefix) (map (strip_chars is_space) (splitlines text))"

text \<open>\<open>int(value)\<close> on a parsed value; text is read in base ten.\<close>

definition py_int :: "fval \<Rightarrow> int result" where
  "py_int v =
     (case v of
        FInt i \<Rightarrow> Inr i
      | FStr s \<Rightarrow>
          (case (if take 1 s = ''-'' then map_option uminus (digits_value 10 (drop 1 s))
                 else if take 1 s = ''+'' then digits_value 10 (drop 1 s) else digits_value 10 s) of
             Some i \<Rightarrow> Inr i
           | None \<Rightarrow> Inl ValueError))"

definition is_int :: "fval fields \<Rightarrow> string \<Rightarrow> bool" where
  "is_int d k \<longleftrightarrow> (case map_of d k of Some (FInt _) \<Rightarrow> True | _ \<Rightarrow> False)"

section \<open>Page-table leaves\<close>

definition validate_leaf_fields ::
  "fval fields \<Rightarrow> string \<Rightarrow> string \<Rightarrow> string \<Rightarrow> nat \<Rightarrow> int \<Rightarrow> int \<Rightarrow> int \<Rightarrow> string \<Rightarrow> unit result" where
  "validate_leaf_fields d flags refs cows n expected_flags expected_ref expected_cow context =
     bind_res (parse_int_list (map_of d flags) n (context @ '' flags'')) (\<lambda>flag_values.
     bind_res (parse_int_list (map_of d refs) n (context @ '' refs'')) (\<lambda>ref_values.
     bind_res (parse_int_list (map_of d cows) n (context @ '' cows'')) (\<lambda>cow_values.
     requires
       [(list_all (\<lambda>v. v AND 31 = expected_flags) flag_values, context @ '' PTE flag mask changed''),
        (list_all (\<lambda>v. v = expected_ref) ref_values, context @ '' refcount changed''),
        (list_all (\<lambda>v. v = expected_cow) cow_values, context @ '' normalized COW bit changed'')])))"

definition validate_single_leaf ::
  "fval fields \<Rightarrow> string \<Rightarrow> string \<Rightarrow> string \<Rightarrow> int \<Rightarrow> int \<Rightarrow> int \<Rightarrow> string \<Rightarrow> unit result" where
  "validate_single_leaf d flags ref cow expected_flags expected_ref expected_cow context =
     validate_leaf_fields d flags ref cow 1 expected_flags expected_ref expected_cow context"

section \<open>The oracle\<close>

definition cow_clean :: "fval fields \<Rightarrow> unit result" where
  "cow_clean clean =
     require (map_of clean ''base'' = map_of clean ''after'' \<and> map_of clean ''errors'' = Some (FInt 0) \<and>
       map_of clean ''active_before'' = map_of clean ''active_after'' \<and> map_of clean ''refs_before'' = map_of clean ''refs_after'' \<and>
       is_int clean ''active_before'' \<and> fint clean ''active_before'' > 0 \<and> is_int clean ''refs_before'' \<and>
       fint clean ''refs_before'' > 0) ''whole-worker free-page/refcount ledger did not recover''"

definition cow_share :: "fval fields \<Rightarrow> unit result" where
  "cow_share share =
     bind_res (requires
       [(map_of share ''pa'' = map_of share ''child_old'' \<and> map_of share ''pa'' \<noteq> map_of share ''parent_new'' \<and>
           is_int share ''pa'' \<and> fint share ''pa'' \<noteq> 0, ''share PA ownership relation failed''),
        (is_int share ''parent_new'' \<and> fint share ''parent_new'' \<noteq> 0, ''share private PA is zero'')]) (\<lambda>_.
     bind_res (validate_leaf_fields share ''before_flags'' ''before_refs'' ''before_cows'' 2 19 2 1 ''share before'') (\<lambda>_.
     bind_res (parse_int_list (map_of share ''after_flags'') 2 ''share after flags'') (\<lambda>after_flags.
     bind_res (parse_int_list (map_of share ''after_refs'') 2 ''share after refs'') (\<lambda>after_refs.
     bind_res (parse_int_list (map_of share ''after_cows'') 2 ''share after cows'') (\<lambda>after_cows.
     bind_res (require (map (\<lambda>v. v AND 31) after_flags = [23, 19] \<and> after_refs = [1, 1] \<and> after_cows = [0, 1])
       ''share after PTE ownership relation failed'') (\<lambda>_.
     bind_res (validate_single_leaf share ''fast_flags'' ''fast_ref'' ''fast_cow'' 23 1 0 ''share fast path'') (\<lambda>_.
     bind_res (parse_int_list (map_of share ''values'') 2 ''share values'') (\<lambda>share_values.
     require (map_of share ''parent_alloc'' = Some (FInt 1) \<and> map_of share ''child_alloc'' = Some (FInt 0) \<and>
       share_values = [34, 51]) ''share/fast-path oracle failed''))))))))"

definition cow_multi :: "fval fields \<Rightarrow> unit result" where
  "cow_multi multi =
     bind_res (parse_int_list (map_of multi ''before_flags'') 3 ''multi before flags'') (\<lambda>before_flags.
     bind_res (parse_int_list (map_of multi ''before_refs'') 3 ''multi before refs'') (\<lambda>before_refs.
     bind_res (parse_int_list (map_of multi ''before_cows'') 3 ''multi before cows'') (\<lambda>before_cows.
     bind_res (parse_int_list (map_of multi ''after_pa'') 3 ''multi after PA'') (\<lambda>after_pa.
     bind_res (parse_int_list (map_of multi ''after_flags'') 3 ''multi after flags'') (\<lambda>after_flags.
     bind_res (parse_int_list (map_of multi ''after_refs'') 3 ''multi after refs'') (\<lambda>after_refs.
     bind_res (parse_int_list (map_of multi ''after_cows'') 3 ''multi after cows'') (\<lambda>after_cows.
     bind_res (parse_int_list (map_of multi ''before_values'') 3 ''multi before values'') (\<lambda>before_values.
     bind_res (parse_int_list (map_of multi ''after_values'') 3 ''multi after values'') (\<lambda>after_values.
     require (list_all (\<lambda>k. is_int multi k \<and> fint multi k > 0) [''root'', ''child'', ''grandchild''] \<and>
       length (remdups (map (fint multi) [''root'', ''child'', ''grandchild''])) = 3 \<and>
       is_int multi ''shared_pa'' \<and> fint multi ''shared_pa'' \<noteq> 0 \<and>
       map (\<lambda>v. v AND 31) before_flags = [19, 19, 19] \<and> before_refs = [3, 3, 3] \<and> before_cows = [1, 1, 1] \<and>
       after_pa ! 0 = after_pa ! 1 \<and> after_pa ! 1 = fint multi ''shared_pa'' \<and>
       after_pa ! 2 \<noteq> 0 \<and> after_pa ! 2 \<noteq> fint multi ''shared_pa'' \<and>
       map (\<lambda>v. v AND 31) after_flags = [19, 19, 23] \<and> after_refs = [2, 2, 1] \<and> after_cows = [1, 1, 0] \<and>
       before_values = [33, 33, 33] \<and> after_values = [33, 33, 42])
       ''multi-generation write/refcount oracle failed'')))))))))"

definition cow_lazy :: "fval fields \<Rightarrow> unit result" where
  "cow_lazy lazy =
     bind_res (parse_int_list (map_of lazy ''before_flags'') 2 ''lazy before flags'') (\<lambda>before_flags.
     bind_res (parse_int_list (map_of lazy ''values'') 2 ''lazy values'') (\<lambda>lazy_values.
     bind_res (require (map_of lazy ''before'' = Some (FStr ''0/0'') \<and> before_flags = [0, 0] \<and> lazy_values = [102, 85] \<and>
       is_int lazy ''parent_pa'' \<and> is_int lazy ''child_pa'' \<and> fint lazy ''parent_pa'' \<noteq> 0 \<and> fint lazy ''child_pa'' \<noteq> 0 \<and>
       fint lazy ''parent_pa'' \<noteq> fint lazy ''child_pa'') ''lazy-hole oracle failed'') (\<lambda>_.
     validate_leaf_fields lazy ''after_flags'' ''after_refs'' ''after_cows'' 2 23 1 0 ''lazy after'')))"

definition cow_copyout :: "fval fields \<Rightarrow> unit result" where
  "cow_copyout copyout =
     bind_res (parse_int_list (map_of copyout ''flags'') 2 ''copyout flags'') (\<lambda>copyout_flags.
     bind_res (parse_int_list (map_of copyout ''refs'') 2 ''copyout refs'') (\<lambda>copyout_refs.
     bind_res (parse_int_list (map_of copyout ''cows'') 2 ''copyout cows'') (\<lambda>copyout_cows.
     bind_res (require (copyout_flags ! 0 AND 31 = 19 \<and> copyout_flags ! 1 AND 31 = 23 \<and> copyout_refs = [1, 1] \<and>
       copyout_cows = [1, 0]) ''copyout PTE ownership relation failed'') (\<lambda>_.
     bind_res (parse_int_list (map_of copyout ''child'') 4 ''copyout child bytes'') (\<lambda>copyout_values.
     require (map_of copyout ''parent'' = Some (FInt 68) \<and> copyout_values = [97, 98, 99, 100] \<and>
       is_int copyout ''parent_pa'' \<and> is_int copyout ''child_pa'' \<and> fint copyout ''parent_pa'' \<noteq> 0 \<and>
       fint copyout ''child_pa'' \<noteq> 0 \<and> fint copyout ''parent_pa'' \<noteq> fint copyout ''child_pa'')
       ''kernel copyout isolation oracle failed'')))))"

definition cow_partial :: "fval fields \<Rightarrow> unit result" where
  "cow_partial partial =
     bind_res (parse_int_list (map_of partial ''parent'') 2 ''partial parent PA'') (\<lambda>parent.
     bind_res (parse_int_list (map_of partial ''child'') 2 ''partial child PA'') (\<lambda>child.
     bind_res (validate_leaf_fields partial ''parent_flags'' ''parent_refs'' ''parent_cows'' 2 19 1 1 ''partial parent'') (\<lambda>_.
     bind_res (validate_leaf_fields partial ''child_flags'' ''child_refs'' ''child_cows'' 2 23 1 0 ''partial child'') (\<lambda>_.
     bind_res (parse_int_list (map_of partial ''parent_values'') 2 ''partial parent values'') (\<lambda>parent_values.
     bind_res (parse_int_list (map_of partial ''child_values'') 2 ''partial child values'') (\<lambda>child_values.
     require (has partial [(''generation'', FInt 5), (''eligible'', FInt 2), (''first'', FInt 16), (''retry'', FInt 16),
         (''fail_at'', FInt 2), (''fired'', FInt 1)] \<and>
       parent_values = [65, 65] \<and> child_values = [32, 48] \<and> list_all (\<lambda>pa. pa \<noteq> 0) (parent @ child) \<and>
       parent ! 0 \<noteq> child ! 0 \<and> parent ! 1 \<noteq> child ! 1 \<and> length (remdups parent) = 2 \<and> length (remdups child) = 2 \<and>
       length (remdups (parent @ child)) = 4) ''partial copyout/OOM oracle failed''))))))"

definition cow_oom :: "fval fields \<Rightarrow> unit result" where
  "cow_oom oom =
     bind_res (validate_single_leaf oom ''old_flags'' ''old_ref'' ''old_cow'' 19 1 1 ''store OOM old mapping'') (\<lambda>_.
     require (has oom [(''generation'', FInt 6), (''eligible'', FInt 1), (''status'', FInt (- 1)), (''fail_at'', FInt 1),
         (''fired'', FInt 1)] \<and> is_int oom ''old_pa'' \<and> fint oom ''old_pa'' \<noteq> 0 \<and>
       has oom [(''fast_alloc'', FInt 0), (''value'', FInt 51)]) ''store-fault OOM oracle failed'')"

definition cow_rollback :: "fval fields \<Rightarrow> unit result" where
  "cow_rollback rollback =
     bind_res (validate_single_leaf rollback ''preexisting_flags'' ''preexisting_ref'' ''preexisting_cow'' 19 2 1
       ''rollback preexisting'') (\<lambda>_.
     bind_res (validate_single_leaf rollback ''new_parent_flags'' ''new_parent_ref'' ''new_parent_cow'' 23 1 0
       ''rollback new parent'') (\<lambda>_.
     bind_res (validate_single_leaf rollback ''fast_flags'' ''fast_ref'' ''fast_cow'' 23 1 0 ''rollback fast path'') (\<lambda>_.
     bind_res (parse_int_list (map_of rollback ''values'') 3 ''rollback values'') (\<lambda>rollback_values.
     require (has rollback [(''generation'', FInt 7), (''fork'', FInt (- 1)), (''fail_at'', FInt 8), (''fired'', FInt 1),
         (''eligible'', FInt 8), (''fast_alloc'', FInt 0)] \<and>
       map_of rollback ''setup_free'' = map_of rollback ''after_fork_free'' \<and> rollback_values = [65, 82, 67] \<and>
       is_int rollback ''preexisting_pa'' \<and> fint rollback ''preexisting_pa'' \<noteq> 0 \<and>
       is_int rollback ''setup_free'' \<and> fint rollback ''setup_free'' > 0) ''partial fork rollback oracle failed''))))"

definition cow_pair :: "fval fields \<Rightarrow> unit result" where
  "cow_pair pair =
     bind_res (parse_int_list (map_of pair ''pids'') 2 ''pair pids'') (\<lambda>pids.
     bind_res (parse_int_list (map_of pair ''harts'') 2 ''pair harts'') (\<lambda>harts.
     bind_res (parse_int_list (map_of pair ''new'') 2 ''pair new PA'') (\<lambda>new.
     bind_res (parse_int_list (map_of pair ''refs'') 3 ''pair refs'') (\<lambda>refs.
     bind_res (parse_int_list (map_of pair ''flags'') 3 ''pair flags'') (\<lambda>flags.
     bind_res (parse_int_list (map_of pair ''cows'') 3 ''pair cows'') (\<lambda>cows.
     bind_res (require (map (\<lambda>v. v AND 31) flags = [19, 23, 23] \<and> cows = [1, 0, 0])
       ''two-hart PTE ownership relation failed'') (\<lambda>_.
     bind_res (parse_int_list (map_of pair ''values'') 2 ''pair values'') (\<lambda>pair_values.
     require (has pair [(''generation'', FInt 8), (''arrived'', FInt 3), (''gate_open'', FInt 1), (''eligible'', FInt 2)] \<and>
       sort pair_values = [114, 115] \<and> pids ! 0 \<noteq> pids ! 1 \<and> harts ! 0 \<noteq> harts ! 1 \<and>
       list_all (\<lambda>pid. pid > 0) pids \<and> list_all (\<lambda>hart. hart \<ge> 0) harts \<and>
       is_int pair ''old'' \<and> fint pair ''old'' \<noteq> 0 \<and> list_all (\<lambda>pa. pa \<noteq> 0) new \<and>
       length (remdups (fint pair ''old'' # new)) = 3 \<and> refs = [1, 1, 1])
       ''two-hart simultaneous split oracle failed''))))))))"

text \<open>\<open>int(boundary.get(key, -1))\<close>\<close>

definition boundary_int :: "fval fields \<Rightarrow> string \<Rightarrow> int result" where
  "boundary_int boundary key = (case map_of boundary key of None \<Rightarrow> Inr (- 1) | Some v \<Rightarrow> py_int v)"

definition cow_boundary :: "fval fields \<Rightarrow> unit result" where
  "cow_boundary boundary =
     bind_res (boundary_int boundary ''text_flags'') (\<lambda>text_flags.
     bind_res (boundary_int boundary ''text_ref'') (\<lambda>text_ref.
     bind_res (boundary_int boundary ''text_cow'') (\<lambda>text_cow.
     bind_res (require (text_flags AND 31 = 27 \<and> text_ref \<ge> 2 \<and> text_cow = 0)
       ''text boundary PTE ownership relation failed'') (\<lambda>_.
     bind_res (parse_int_list (map_of boundary ''guard_flags'') 2 ''guard flags'') (\<lambda>guard_flags.
     bind_res (parse_int_list (map_of boundary ''guard_cows'') 2 ''guard cows'') (\<lambda>guard_cows.
     require (is_int boundary ''text_pa'' \<and> fint boundary ''text_pa'' \<noteq> 0 \<and> is_int boundary ''guard_parent_pa'' \<and>
       is_int boundary ''guard_child_pa'' \<and> fint boundary ''guard_parent_pa'' \<noteq> 0 \<and> fint boundary ''guard_child_pa'' \<noteq> 0 \<and>
       fint boundary ''guard_parent_pa'' \<noteq> fint boundary ''guard_child_pa'' \<and>
       list_all (\<lambda>v. v AND 16 = 0) guard_flags \<and> guard_cows = [0, 0] \<and>
       has boundary [(''guard_status'', FInt (- 1)), (''text_status'', FInt (- 1)), (''tail_status'', FInt 0)])
       ''text/guard/tail boundary oracle failed''))))))"

definition cow_teardown :: "fval fields \<Rightarrow> unit result" where
  "cow_teardown teardown =
     bind_res (validate_single_leaf teardown ''parent_flags'' ''parent_ref'' ''parent_cow'' 19 1 1 ''teardown parent'') (\<lambda>_.
     bind_res (parse_int_list (map_of teardown ''bad_flags'') 2 ''teardown bad flags'') (\<lambda>bad_flags.
     bind_res (parse_int_list (map_of teardown ''bad_refs'') 2 ''teardown bad refs'') (\<lambda>bad_refs.
     bind_res (parse_int_list (map_of teardown ''bad_cows'') 2 ''teardown bad cows'') (\<lambda>bad_cows.
     require (has teardown [(''shrink_leaf'', FInt 0), (''child_pa'', FInt 0)] \<and>
       map_of teardown ''parent_pa'' \<noteq> Some (FInt 0) \<and> has teardown [(''exec_bad'', FInt (- 1))] \<and>
       map_of teardown ''bad_before_pa'' = map_of teardown ''bad_after_pa'' \<and>
       map_of teardown ''bad_before_pa'' \<noteq> Some (FInt 0) \<and>
       map (\<lambda>v. v AND 31) bad_flags = [19, 19] \<and> bad_refs = [2, 2] \<and> bad_cows = [1, 1] \<and>
       has teardown [(''bad_value'', FInt 25), (''exec_status'', FInt 0), (''errors'', FInt 0)])
       ''teardown/exec oracle failed''))))"

text \<open>The single line of a marker and its fields, which have to be those of \<open>MARKER_FIELDS\<close>.\<close>

definition cow_marker :: "string \<Rightarrow> string \<Rightarrow> (string \<times> fval fields) result" where
  "cow_marker text name =
     (let lines = cow_marker_lines text (''COW '' @ name @ '' '') in
      bind_res (require (length lines = 1) (''COW '' @ name @ '' marker count changed'')) (\<lambda>_.
      bind_res (cow_parse_fields (lines ! 0)) (\<lambda>values.
      bind_res (dget MARKER_FIELDS name) (\<lambda>expected.
      bind_res (require_exact_fields values expected (''COW '' @ name)) (\<lambda>_.
        Inr (lines ! 0, values))))))"

definition cow_closed :: "string \<Rightarrow> unit result" where
  "cow_closed text =
     require (list_all (\<lambda>line. takeWhile (\<lambda>c. c \<noteq> CHR '' '') (drop 4 line) \<in> set (CASE_NAMES @ [''PASS'', ''CLEAN'']))
         (filter (\<lambda>line. starts_with line ''COW '') (splitlines text)))
       ''unexpected COW markers''"

record cow_result =
  cr_markers :: "string list"
  cr_transcript :: string

definition validate_cowtrace :: "string \<Rightarrow> cow_result result" where
  "validate_cowtrace text =
     bind_res (require (cow_marker_lines text ''COW FAIL '' = []) ''cowtrace reported failed oracle(s)'') (\<lambda>_.
     bind_res (map_res (cow_marker text) CASE_NAMES) (\<lambda>cases.
     bind_res (cow_marker text ''PASS'') (\<lambda>(pass_line, passed).
     bind_res (require (map_of passed ''cases'' = Some (FInt (int (length CASE_NAMES))))
       ''COW PASS case count does not match observed cases'') (\<lambda>_.
     bind_res (cow_marker text ''CLEAN'') (\<lambda>(clean_line, clean).
     bind_res (cow_clean clean) (\<lambda>_.
     bind_res (cow_share (snd (cases ! 0))) (\<lambda>_.
     bind_res (cow_multi (snd (cases ! 1))) (\<lambda>_.
     bind_res (cow_lazy (snd (cases ! 2))) (\<lambda>_.
     bind_res (cow_copyout (snd (cases ! 3))) (\<lambda>_.
     bind_res (cow_partial (snd (cases ! 4))) (\<lambda>_.
     bind_res (cow_oom (snd (cases ! 5))) (\<lambda>_.
     bind_res (cow_rollback (snd (cases ! 6))) (\<lambda>_.
     bind_res (cow_pair (snd (cases ! 7))) (\<lambda>_.
     bind_res (cow_boundary (snd (cases ! 8))) (\<lambda>_.
     bind_res (cow_teardown (snd (cases ! 9))) (\<lambda>_.
     bind_res (cow_closed text) (\<lambda>_.
       Inr \<lparr>cr_markers = map fst cases @ [pass_line, clean_line], cr_transcript = text\<rparr>)))))))))))))))))"

definition cow_regression :: "string \<Rightarrow> string \<Rightarrow> unit result" where
  "cow_regression name text =
     requires
       [(\<not> contains text ''SOME TESTS FAILED'', ''related regression failed''),
        (count_sub ''ALL TESTS PASSED'' text = 1, ''related marker count changed''),
        (contains text (''test '' @ name @ '':''), ''related test did not execute''),
        (\<not> contains text ''COW '', ''audit marker leaked into related regression'')]"

end
