(* ===== verification/CowTraceProps.thy ===== *)
theory CowTraceProps
  imports CowTrace Transcript
begin

text \<open>
  Properties of the copy-on-write oracle: what an accepted transcript shows about every page-table leaf
  it lists, and the exceptions that the oracle can raise.
\<close>

section \<open>Leaves\<close>

text \<open>
  A mapped user leaf with its reference count and copy-on-write bit: a writable leaf is the only
  reference to its page and is not marked, every other leaf is marked.
\<close>

definition leaf_ok :: "int \<times> int \<times> int \<Rightarrow> bool" where
  "leaf_ok leaf = (case leaf of (flags, refs, cow) \<Rightarrow>
     bit flags 0 \<and> bit flags 4 \<and> (if bit flags 2 then refs = 1 \<and> cow = 0 else refs \<ge> 1 \<and> cow = 1))"

definition leaves_ok :: "fval fields \<Rightarrow> string \<times> string \<times> string \<times> nat \<Rightarrow> bool" where
  "leaves_ok d names = (case names of (flags, refs, cows, n) \<Rightarrow>
     bind_res (parse_int_list (map_of d flags) n []) (\<lambda>fs.
     bind_res (parse_int_list (map_of d refs) n []) (\<lambda>rs.
     bind_res (parse_int_list (map_of d cows) n []) (\<lambda>cs.
       Inr (length fs = n \<and> length rs = n \<and> length cs = n \<and> list_all leaf_ok (zip fs (zip rs cs)))))) = Inr True)"

lemma map_res_length: "map_res f xs = Inr ys \<Longrightarrow> length ys = length xs"
  by (induction xs arbitrary: ys) (auto simp: bind_res_eq_Inr)

lemma int_part_Inr: "int_part context part = Inr i \<longleftrightarrow> py_int0 part = Some i"
  by (simp add: int_part_def split: option.split)

lemma map_res_cong_Inr: "(\<And>x i. f x = Inr i \<longleftrightarrow> g x = Inr i) \<Longrightarrow> map_res f xs = Inr ys \<longleftrightarrow> map_res g xs = Inr ys"
  by (induction xs arbitrary: ys) (simp_all add: bind_res_eq_Inr)

lemma parse_int_list_any:
  assumes "parse_int_list v n context = Inr xs"
  shows "parse_int_list v n context' = Inr xs" and "length xs = n"
proof -
  have "map_res (int_part context) parts = Inr ys \<longleftrightarrow> map_res (int_part context') parts = Inr ys" for parts ys
    by (rule map_res_cong_Inr) (simp add: int_part_Inr)
  with assms show "parse_int_list v n context' = Inr xs"
    by (auto simp: parse_int_list_def Let_def bind_res_eq_Inr require_eq_Inr split: option.splits fval.splits)
  show "length xs = n" using assms
    by (auto simp: parse_int_list_def Let_def bind_res_eq_Inr require_eq_Inr split: option.splits fval.splits dest: map_res_length)
qed

lemma leaves_okI:
  assumes "parse_int_list (map_of d flags) n a = Inr fs" and "parse_int_list (map_of d refs) n b = Inr rs"
    and "parse_int_list (map_of d cows) n c = Inr cs" and "list_all leaf_ok (zip fs (zip rs cs))"
  shows "leaves_ok d (flags, refs, cows, n)"
  using assms(4) parse_int_list_any(2) [OF assms(1)] parse_int_list_any(2) [OF assms(2)] parse_int_list_any(2) [OF assms(3)]
  unfolding leaves_ok_def prod.case parse_int_list_any(1) [OF assms(1)] parse_int_list_any(1) [OF assms(2)] parse_int_list_any(1) [OF assms(3)]
  by simp

lemma masked_leaf:
  shows masked_shared: "and f 31 = 19 \<Longrightarrow> r \<ge> 1 \<Longrightarrow> leaf_ok (f, r, 1)"
    and masked_private: "and f 31 = 23 \<Longrightarrow> leaf_ok (f, 1, 0)"
proof -
  have "bit (19 :: int) 0 \<and> \<not> bit (19 :: int) 2 \<and> bit (19 :: int) 4" "bit (23 :: int) 0 \<and> bit (23 :: int) 2 \<and> bit (23 :: int) 4"
    by code_simp+
  then show "and f 31 = 19 \<Longrightarrow> r \<ge> 1 \<Longrightarrow> leaf_ok (f, r, 1)" "and f 31 = 23 \<Longrightarrow> leaf_ok (f, 1, 0)"
    using masked_bits [of f 19] masked_bits [of f 23] by (simp_all add: leaf_ok_def)
qed

lemma zip_const:
  assumes "list_all P fs" and "list_all (\<lambda>v. v = r) rs" and "list_all (\<lambda>v. v = c) cs" and "\<And>f. P f \<Longrightarrow> Q (f, r, c)"
  shows "list_all Q (zip fs (zip rs cs))"
  unfolding list_all_iff
proof
  fix leaf assume leaf: "leaf \<in> set (zip fs (zip rs cs))"
  obtain f a b where [simp]: "leaf = (f, a, b)" by (cases leaf)
  from leaf have "f \<in> set fs" "(a, b) \<in> set (zip rs cs)" by (auto dest: set_zip_leftD set_zip_rightD)
  moreover from this(2) have "a \<in> set rs" "b \<in> set cs" by (auto dest: set_zip_leftD set_zip_rightD)
  ultimately show "Q leaf" using assms by (auto simp: list_all_iff)
qed

lemma validate_leaves:
  assumes "validate_leaf_fields d flags refs cows n ef er ec context = Inr u" and "\<And>f. and f 31 = ef \<Longrightarrow> leaf_ok (f, er, ec)"
  shows "leaves_ok d (flags, refs, cows, n)"
proof -
  from assms(1) obtain fs rs cs where p: "parse_int_list (map_of d flags) n (context @ '' flags'') = Inr fs"
      "parse_int_list (map_of d refs) n (context @ '' refs'') = Inr rs" "parse_int_list (map_of d cows) n (context @ '' cows'') = Inr cs"
    and "list_all (\<lambda>v. and v 31 = ef) fs" "list_all (\<lambda>v. v = er) rs" "list_all (\<lambda>v. v = ec) cs"
    unfolding validate_leaf_fields_def by (auto elim!: bind_res_InrE simp: requires_eq_Inr simp del: requires.simps)
  then have "list_all leaf_ok (zip fs (zip rs cs))" using assms(2) by (intro zip_const)
  with p show ?thesis by (rule leaves_okI)
qed

lemma validate_shared: "validate_leaf_fields d flags refs cows n 19 r 1 context = Inr u \<Longrightarrow> r \<ge> 1 \<Longrightarrow> leaves_ok d (flags, refs, cows, n)"
  by (erule validate_leaves) (erule masked_shared)

lemma validate_private: "validate_leaf_fields d flags refs cows n 23 1 0 context = Inr u \<Longrightarrow> leaves_ok d (flags, refs, cows, n)"
  by (erule validate_leaves) (erule masked_private)

section \<open>Scenarios\<close>

definition COW_LEAVES :: "(string \<times> (string \<times> string \<times> string \<times> nat) list) list" where
  "COW_LEAVES =
     [(''SHARE'', [(''before_flags'', ''before_refs'', ''before_cows'', 2), (''after_flags'', ''after_refs'', ''after_cows'', 2),
        (''fast_flags'', ''fast_ref'', ''fast_cow'', 1)]),
      (''MULTI'', [(''before_flags'', ''before_refs'', ''before_cows'', 3), (''after_flags'', ''after_refs'', ''after_cows'', 3)]),
      (''LAZY'', [(''after_flags'', ''after_refs'', ''after_cows'', 2)]),
      (''COPYOUT'', [(''flags'', ''refs'', ''cows'', 2)]),
      (''PARTIAL'', [(''parent_flags'', ''parent_refs'', ''parent_cows'', 2), (''child_flags'', ''child_refs'', ''child_cows'', 2)]),
      (''OOM'', [(''old_flags'', ''old_ref'', ''old_cow'', 1)]),
      (''ROLLBACK'', [(''preexisting_flags'', ''preexisting_ref'', ''preexisting_cow'', 1),
        (''new_parent_flags'', ''new_parent_ref'', ''new_parent_cow'', 1), (''fast_flags'', ''fast_ref'', ''fast_cow'', 1)]),
      (''PAIR'', [(''flags'', ''refs'', ''cows'', 3)]),
      (''TEARDOWN'', [(''parent_flags'', ''parent_ref'', ''parent_cow'', 1), (''bad_flags'', ''bad_refs'', ''bad_cows'', 2)])]"

lemma share_leaves:
  assumes "cow_share d = Inr u"
  shows "list_all (leaves_ok d) [(''before_flags'', ''before_refs'', ''before_cows'', 2), (''after_flags'', ''after_refs'', ''after_cows'', 2),
        (''fast_flags'', ''fast_ref'', ''fast_cow'', 1)]"
proof -
  from assms obtain u1 u2 a b c fs where checks: "validate_leaf_fields d ''before_flags'' ''before_refs'' ''before_cows'' 2 19 2 1 a = Inr u1"
      "validate_single_leaf d ''fast_flags'' ''fast_ref'' ''fast_cow'' 23 1 0 b = Inr u2"
    and after: "parse_int_list (map_of d ''after_flags'') 2 ''share after flags'' = Inr fs"
      "parse_int_list (map_of d ''after_refs'') 2 ''share after refs'' = Inr [1, 1]"
      "parse_int_list (map_of d ''after_cows'') 2 ''share after cows'' = Inr [0, 1]" "map (\<lambda>v. and v 31) fs = [23, 19]"
    unfolding cow_share_def by (elim bind_res_InrE) (auto simp: require_eq_Inr)
  have "list_all leaf_ok (zip fs (zip [1, 1] [0, 1]))"
    using after(4) by (auto simp: masked_shared masked_private map_eq_Cons_conv)
  with after(1-3) have "leaves_ok d (''after_flags'', ''after_refs'', ''after_cows'', 2)" by (rule leaves_okI)
  with validate_shared [OF checks(1)] validate_private [OF checks(2) [unfolded validate_single_leaf_def]] show ?thesis by simp
qed

lemma multi_leaves:
  assumes "cow_multi d = Inr u"
  shows "list_all (leaves_ok d) [(''before_flags'', ''before_refs'', ''before_cows'', 3), (''after_flags'', ''after_refs'', ''after_cows'', 3)]"
    and "\<exists>pas. parse_int_list (map_of d ''after_pa'') 3 [] = Inr pas \<and>
      parse_int_list (map_of d ''after_refs'') 3 [] = Inr (map (\<lambda>pa. int (count_list pas pa)) pas)"
proof -
  from assms obtain fs gs pas where before: "parse_int_list (map_of d ''before_flags'') 3 ''multi before flags'' = Inr fs"
      "parse_int_list (map_of d ''before_refs'') 3 ''multi before refs'' = Inr [3, 3, 3]"
      "parse_int_list (map_of d ''before_cows'') 3 ''multi before cows'' = Inr [1, 1, 1]" "map (\<lambda>v. and v 31) fs = [19, 19, 19]"
    and after: "parse_int_list (map_of d ''after_flags'') 3 ''multi after flags'' = Inr gs"
      "parse_int_list (map_of d ''after_refs'') 3 ''multi after refs'' = Inr [2, 2, 1]"
      "parse_int_list (map_of d ''after_cows'') 3 ''multi after cows'' = Inr [1, 1, 0]" "map (\<lambda>v. and v 31) gs = [19, 19, 23]"
    and pages: "parse_int_list (map_of d ''after_pa'') 3 ''multi after PA'' = Inr pas" "pas ! 0 = pas ! 1" "pas ! 2 \<noteq> pas ! 1"
    unfolding cow_multi_def by (elim bind_res_InrE) (simp only: require_eq_Inr, metis)
  have "list_all leaf_ok (zip fs (zip [3, 3, 3] [1, 1, 1]))" "list_all leaf_ok (zip gs (zip [2, 2, 1] [1, 1, 0]))"
    using before(4) after(4) by (auto simp: masked_shared masked_private map_eq_Cons_conv)
  with before(1-3) after(1-3)
  show "list_all (leaves_ok d) [(''before_flags'', ''before_refs'', ''before_cows'', 3), (''after_flags'', ''after_refs'', ''after_cows'', 3)]"
    by (simp add: leaves_okI)
  from parse_int_list_any(2) [OF pages(1)] obtain a b c where "pas = [a, b, c]" by (auto simp: numeral_3_eq_3 length_Suc_conv)
  with pages(2,3) have "map (\<lambda>pa. int (count_list pas pa)) pas = [2, 2, 1]" by (auto simp: numeral_2_eq_2)
  with parse_int_list_any(1) [OF pages(1)] parse_int_list_any(1) [OF after(2)]
  show "\<exists>pas. parse_int_list (map_of d ''after_pa'') 3 [] = Inr pas \<and>
      parse_int_list (map_of d ''after_refs'') 3 [] = Inr (map (\<lambda>pa. int (count_list pas pa)) pas)" by metis
qed

lemma lazy_leaves: "cow_lazy d = Inr u \<Longrightarrow> leaves_ok d (''after_flags'', ''after_refs'', ''after_cows'', 2)"
  unfolding cow_lazy_def by (elim bind_res_InrE) (erule validate_private)

lemma copyout_leaves:
  assumes "cow_copyout d = Inr u"
  shows "leaves_ok d (''flags'', ''refs'', ''cows'', 2)"
proof -
  from assms obtain fs where fs: "parse_int_list (map_of d ''flags'') 2 ''copyout flags'' = Inr fs"
      "parse_int_list (map_of d ''refs'') 2 ''copyout refs'' = Inr [1, 1]" "parse_int_list (map_of d ''cows'') 2 ''copyout cows'' = Inr [1, 0]"
    and masks: "and (fs ! 0) 31 = 19" "and (fs ! 1) 31 = 23"
    unfolding cow_copyout_def by (elim bind_res_InrE) (auto simp: require_eq_Inr)
  from parse_int_list_any(2) [OF fs(1)] obtain a b where "fs = [a, b]" by (auto simp: numeral_2_eq_2 length_Suc_conv)
  with masks have "list_all leaf_ok (zip fs (zip [1, 1] [1, 0]))" by (auto simp: masked_shared masked_private)
  with fs show ?thesis by (rule leaves_okI)
qed

lemma partial_leaves:
  assumes "cow_partial d = Inr u"
  shows "list_all (leaves_ok d) [(''parent_flags'', ''parent_refs'', ''parent_cows'', 2), (''child_flags'', ''child_refs'', ''child_cows'', 2)]"
  using assms unfolding cow_partial_def by (elim bind_res_InrE) (auto intro: validate_private validate_shared [where r = 1])

lemma oom_leaves: "cow_oom d = Inr u \<Longrightarrow> leaves_ok d (''old_flags'', ''old_ref'', ''old_cow'', 1)"
  unfolding cow_oom_def validate_single_leaf_def by (elim bind_res_InrE) (erule validate_shared, simp)

lemma rollback_leaves:
  assumes "cow_rollback d = Inr u"
  shows "list_all (leaves_ok d) [(''preexisting_flags'', ''preexisting_ref'', ''preexisting_cow'', 1),
    (''new_parent_flags'', ''new_parent_ref'', ''new_parent_cow'', 1), (''fast_flags'', ''fast_ref'', ''fast_cow'', 1)]"
  using assms unfolding cow_rollback_def validate_single_leaf_def
  by (elim bind_res_InrE) (auto intro: validate_private validate_shared [where r = 2])

lemma pair_leaves:
  assumes "cow_pair d = Inr u"
  shows "leaves_ok d (''flags'', ''refs'', ''cows'', 3)"
proof -
  from assms obtain fs where fs: "parse_int_list (map_of d ''flags'') 3 ''pair flags'' = Inr fs"
      "parse_int_list (map_of d ''refs'') 3 ''pair refs'' = Inr [1, 1, 1]" "parse_int_list (map_of d ''cows'') 3 ''pair cows'' = Inr [1, 0, 0]"
    and masks: "map (\<lambda>v. and v 31) fs = [19, 23, 23]"
    unfolding cow_pair_def by (elim bind_res_InrE) (auto simp: require_eq_Inr)
  from masks have "list_all leaf_ok (zip fs (zip [1, 1, 1] [1, 0, 0]))" by (auto simp: masked_shared masked_private map_eq_Cons_conv)
  with fs show ?thesis by (rule leaves_okI)
qed

lemma teardown_leaves:
  assumes "cow_teardown d = Inr u"
  shows "list_all (leaves_ok d) [(''parent_flags'', ''parent_ref'', ''parent_cow'', 1), (''bad_flags'', ''bad_refs'', ''bad_cows'', 2)]"
proof -
  from assms obtain u1 c fs where parent: "validate_single_leaf d ''parent_flags'' ''parent_ref'' ''parent_cow'' 19 1 1 c = Inr u1"
    and fs: "parse_int_list (map_of d ''bad_flags'') 2 ''teardown bad flags'' = Inr fs"
      "parse_int_list (map_of d ''bad_refs'') 2 ''teardown bad refs'' = Inr [2, 2]"
      "parse_int_list (map_of d ''bad_cows'') 2 ''teardown bad cows'' = Inr [1, 1]"
    and masks: "map (\<lambda>v. and v 31) fs = [19, 19]"
    unfolding cow_teardown_def by (elim bind_res_InrE) (auto simp: require_eq_Inr)
  from masks have "list_all leaf_ok (zip fs (zip [2, 2] [1, 1]))" by (auto simp: masked_shared map_eq_Cons_conv)
  with fs have "leaves_ok d (''bad_flags'', ''bad_refs'', ''bad_cows'', 2)" by (rule leaves_okI)
  with validate_shared [OF parent [unfolded validate_single_leaf_def]] show ?thesis by simp
qed

section \<open>What an accepted transcript shows\<close>

text \<open>The fields of a scenario, read from the markers of the result.\<close>

definition cow_case :: "cow_result \<Rightarrow> string \<Rightarrow> fval fields option" where
  "cow_case r name = (case map_of (zip CASE_NAMES (cr_markers r)) name of
     None \<Rightarrow> None | Some line \<Rightarrow> (case cow_parse_fields line of Inl _ \<Rightarrow> None | Inr d \<Rightarrow> Some d))"

lemma map_res_nth: "map_res f xs = Inr ys \<Longrightarrow> i < length xs \<Longrightarrow> f (xs ! i) = Inr (ys ! i)"
  by (induction xs arbitrary: ys i) (auto simp: bind_res_eq_Inr nth_Cons split: nat.split)

lemma cow_marker_parsed: "cow_marker text name = Inr (line, d) \<Longrightarrow> cow_parse_fields line = Inr d"
  unfolding cow_marker_def Let_def by (elim bind_res_InrE) auto

lemma case_names: "distinct CASE_NAMES" "length CASE_NAMES = 10"
  by code_simp+

lemma cow_case_nth:
  assumes "map_res (cow_marker text) CASE_NAMES = Inr cases" and "cr_markers r = map fst cases @ rest" and "i < 10"
  shows "cow_case r (CASE_NAMES ! i) = Some (snd (cases ! i))"
proof -
  have len: "length cases = 10" using map_res_length [OF assms(1)] by (simp add: case_names)
  have "map_of (zip CASE_NAMES (cr_markers r)) (CASE_NAMES ! i) = Some (cr_markers r ! i)"
    using case_names len assms(2,3) by (simp add: zip_append2 map_of_zip_nth nth_append)
  moreover have "cr_markers r ! i = fst (cases ! i)" using assms(2,3) len by (simp add: nth_append)
  moreover have "cow_marker text (CASE_NAMES ! i) = Inr (cases ! i)" using map_res_nth [OF assms(1)] assms(3) by (simp add: case_names)
  then have "cow_parse_fields (fst (cases ! i)) = Inr (snd (cases ! i))" using cow_marker_parsed by (metis prod.collapse)
  ultimately show ?thesis by (simp add: cow_case_def)
qed

lemma validate_cowtraceD:
  assumes "validate_cowtrace text = Inr r"
  obtains cases :: "(string \<times> fval fields) list" and u0 u1 u2 u3 u4 u5 u6 u7 u9 where "\<forall>i < 10. cow_case r (CASE_NAMES ! i) = Some (snd (cases ! i))"
    and "cow_share (snd (cases ! 0)) = Inr u0" "cow_multi (snd (cases ! 1)) = Inr u1" "cow_lazy (snd (cases ! 2)) = Inr u2"
    "cow_copyout (snd (cases ! 3)) = Inr u3" "cow_partial (snd (cases ! 4)) = Inr u4" "cow_oom (snd (cases ! 5)) = Inr u5"
    "cow_rollback (snd (cases ! 6)) = Inr u6" "cow_pair (snd (cases ! 7)) = Inr u7" "cow_teardown (snd (cases ! 9)) = Inr u9"
proof -
  from assms obtain cases p c u0 u1 u2 u3 u4 u5 u6 u7 u9 where "map_res (cow_marker text) CASE_NAMES = Inr cases"
    and r: "Inr \<lparr>cr_markers = map fst cases @ [p, c], cr_transcript = text\<rparr> = (Inr r :: cow_result result)"
    and checks: "cow_share (snd (cases ! 0)) = Inr u0" "cow_multi (snd (cases ! 1)) = Inr u1" "cow_lazy (snd (cases ! 2)) = Inr u2"
    "cow_copyout (snd (cases ! 3)) = Inr u3" "cow_partial (snd (cases ! 4)) = Inr u4" "cow_oom (snd (cases ! 5)) = Inr u5"
    "cow_rollback (snd (cases ! 6)) = Inr u6" "cow_pair (snd (cases ! 7)) = Inr u7" "cow_teardown (snd (cases ! 9)) = Inr u9"
    unfolding validate_cowtrace_def case_prod_beta by (elim bind_res_InrE) (rule that, assumption+)
  moreover have "cr_markers r = map fst cases @ [p, c]" using r by auto
  ultimately have "\<forall>i < 10. cow_case r (CASE_NAMES ! i) = Some (snd (cases ! i))" using cow_case_nth by blast
  from that [OF this checks] show ?thesis .
qed


section \<open>Exceptions\<close>

lemma lab_only_field: "lab_only (cow_field_step d token)"
  by (auto simp: cow_field_step_def split: option.split)

lemma lab_only_ints [simp, intro!]: "lab_only (parse_int_list v n context)"
proof -
  have "lab_only (int_part context part)" for part by (auto simp: int_part_def split: option.split)
  then show ?thesis by (auto simp: parse_int_list_def Let_def split: option.split fval.split)
qed

lemma lab_only_leaves [simp, intro!]:
  "lab_only (validate_leaf_fields d flags refs cows n ef er ec context)" "lab_only (validate_single_leaf d flags refs cows ef er ec context)"
  by (auto simp: validate_leaf_fields_def validate_single_leaf_def simp del: requires.simps)

lemma lab_only_marker: "name \<in> set (dkeys MARKER_FIELDS) \<Longrightarrow> lab_only (cow_marker text name)"
proof -
  assume "name \<in> set (dkeys MARKER_FIELDS)"
  then obtain fs where "map_of MARKER_FIELDS name = Some fs" by (metis dkeys_def map_of_eq_None_iff option.exhaust set_map)
  then have "lab_only (dget MARKER_FIELDS name)" by (simp add: dget_def)
  then show ?thesis
    by (auto simp: cow_marker_def cow_parse_fields_def require_exact_fields_def Let_def intro!: lab_only_bind lab_only_fold lab_only_field)
qed

lemma marker_names: "list_all (\<lambda>name. name \<in> set (dkeys MARKER_FIELDS)) (CASE_NAMES @ [''PASS'', ''CLEAN''])"
  by code_simp

lemma lab_only_scenarios:
  "lab_only (cow_clean d)" "lab_only (cow_share d)" "lab_only (cow_multi d)" "lab_only (cow_lazy d)" "lab_only (cow_copyout d)"
  "lab_only (cow_partial d)" "lab_only (cow_oom d)" "lab_only (cow_rollback d)" "lab_only (cow_pair d)" "lab_only (cow_teardown d)"
  "lab_only (cow_closed text)"
  unfolding cow_clean_def cow_share_def cow_multi_def cow_lazy_def cow_copyout_def cow_partial_def cow_oom_def cow_rollback_def
    cow_pair_def cow_teardown_def cow_closed_def
  by (intro lab_only_bind lab_only_ints lab_only_leaves lab_only_basic lab_only_requires)+

definition text_field :: "fval fields \<Rightarrow> bool" where
  "text_field d = list_ex (\<lambda>k. case map_of d k of Some (FStr _) \<Rightarrow> True | _ \<Rightarrow> False) [''text_flags'', ''text_ref'', ''text_cow'']"

lemma boundary_raises:
  assumes "\<And>m. P (LabError m)" and "text_field d \<Longrightarrow> P ValueError"
  shows "raises P (cow_boundary d)"
proof -
  have int: "raises P (boundary_int d k)" if "k \<in> set [''text_flags'', ''text_ref'', ''text_cow'']" for k
    using that assms(2) by (auto simp: boundary_int_def py_int_def raises_def text_field_def list_ex_iff split: option.splits fval.splits)
  show ?thesis unfolding cow_boundary_def
    by (intro raises_bind int raises_lab [where P = P] assms(1) lab_only_ints lab_only_basic) simp_all
qed

text \<open>
  The copy-on-write oracle raises nothing but the error of the laboratory, with one exception: the text
  mapping of the boundary scenario is converted without the checks that guard every other field, so a
  transcript in which one of those three fields is not an integer literal can raise
  \<open>ValueError\<close>, which the runner does not catch.
\<close>

theorem cowtrace_exceptions:
  assumes "validate_cowtrace text = Inl e"
  shows "(\<exists>m. e = LabError m) \<or>
    e = ValueError \<and> (\<exists>line d. cow_marker text ''BOUNDARY'' = Inr (line, d) \<and> text_field d)"
proof -
  let ?P = "\<lambda>e. (\<exists>m. e = LabError m) \<or> e = ValueError \<and> (\<exists>line d. cow_marker text ''BOUNDARY'' = Inr (line, d) \<and> text_field d)"
  have lab: "raises ?P r" if "lab_only r" for r :: "'a result" using that by (rule raises_lab) simp
  have markers: "lab_only (cow_marker text name)" if "name \<in> set (CASE_NAMES @ [''PASS'', ''CLEAN''])" for name
    using that marker_names by (auto simp only: list_all_iff intro!: lab_only_marker)
  have boundary: "raises ?P (cow_boundary (snd (cases ! 8)))" if "map_res (cow_marker text) CASE_NAMES = Inr cases" for cases
  proof (rule boundary_raises)
    have "cow_marker text ''BOUNDARY'' = Inr (cases ! 8)"
      using map_res_nth [OF that, of 8] by (simp add: case_names) (simp add: CASE_NAMES_def)
    then show "?P ValueError" if "text_field (snd (cases ! 8))" using that by (metis prod.collapse)
  qed simp
  have "raises ?P (validate_cowtrace text)"
    unfolding validate_cowtrace_def case_prod_beta
    by (intro raises_bind boundary lab lab_only_scenarios lab_only_basic lab_only_map markers) simp_all
  with assms show ?thesis by (simp add: raises_def)
qed

section \<open>Rendered transcripts\<close>

definition cow_line :: "string list \<times> fval fields \<Rightarrow> bool" where
  "cow_line l \<longleftrightarrow> length (fst l) = 2 \<and> fst l ! 0 = ''COW'' \<and> plain_word (fst l ! 1) \<and> CHR ''='' \<notin> set (fst l ! 1) \<and> snd l \<noteq> [] \<and>
     list_all pair_ok (snd l) \<and> map_of MARKER_FIELDS (fst l ! 1) = Some (dkeys (snd l))"

lemma marker_fields_distinct: "list_all (\<lambda>(name, fs). distinct fs) MARKER_FIELDS"
  by code_simp

lemma cow_line_ok: "cow_line l \<Longrightarrow> line_ok l \<and> fst l = [''COW'', fst l ! 1]"
proof -
  assume l: "cow_line l"
  then have "(fst l ! 1, dkeys (snd l)) \<in> set MARKER_FIELDS" by (auto simp: cow_line_def dest: map_of_SomeD)
  then have "dict_ok (snd l)" using marker_fields_distinct by (auto simp: list_all_iff dict_ok_def dkeys_def)
  moreover have "plain_word ''COW''" by code_simp
  moreover have "fst l = [''COW'', fst l ! 1]" using l by (auto simp: cow_line_def numeral_2_eq_2 length_Suc_conv)
  moreover have "CHR ''='' \<notin> set ''COW''" by simp
  ultimately show ?thesis using l unfolding line_ok_def cow_line_def by (metis list.pred_inject list.distinct(1))
qed

lemma match_field_token:
  assumes "pair_ok (k, v)"
  shows "match_field (render_token k (show_value v)) = Some (k, show_value v)"
proof -
  have "\<not> is_key_char CHR ''=''" by code_simp
  moreover have "list_all is_key_char k" "k \<noteq> []" "show_value v \<noteq> []"
    using assms pair_ok_value(1) [OF assms] by (auto simp: pair_ok_def plain_word_def)
  ultimately show ?thesis
    by (simp add: match_field_def render_token_def takeWhile_append2 dropWhile_append2 list_all_iff)
qed

interpretation cow_tokens: token_parser cow_field_step show_value "\<lambda>k v. pair_ok (k, v)"
  by unfold_locales (auto simp: cow_field_step_def match_field_token pair_ok_value)

abbreviation rendered :: "string list \<times> fval fields \<Rightarrow> string" where
  "rendered l \<equiv> render_line (line_words l)"

lemma cow_parse_line:
  assumes "cow_line l"
  shows "cow_parse_fields (rendered l) = Inr (snd l)"
proof -
  from cow_line_ok [OF assms] have ok: "line_ok l" and lead: "fst l = [''COW'', fst l ! 1]" by auto
  have "cow_tokens.renderable (snd l)" using ok by (auto simp: line_ok_def cow_tokens.renderable_def list_all_iff)
  then have "fold_res cow_field_step [] (map (\<lambda>(k, v). render_token k (show_value v)) (snd l)) = Inr (snd l)"
    using cow_tokens.parse_tokens by (simp add: cow_tokens.tokens_def)
  moreover have "split_ws (rendered l) = [''COW'', fst l ! 1] @ map (\<lambda>(k, v). render_token k (show_value v)) (snd l)"
    using line_words_plain [OF ok] lead by (metis line_words_def render_line_words)
  moreover have "snd l \<noteq> []" using assms by (simp add: cow_line_def)
  ultimately show ?thesis by (simp add: cow_parse_fields_def Suc_le_eq)
qed

lemma cow_lines_script:
  assumes "list_all cow_line ls" and "plain_word name"
  shows "cow_marker_lines (script ls) (''COW '' @ name @ '' '') = map rendered (filter (\<lambda>l. fst l ! 1 = name) ls)"
proof -
  have ok: "list_all line_ok ls" and two: "two_words ls"
    using assms(1) cow_line_ok by (auto simp: two_words_def list_all_iff cow_line_def)
  have "plain_word ''COW''" by code_simp
  then have "lines_with (script ls) (''COW '' @ name @ '' '') = marked ''COW'' name ls"
    using script_two [OF two, of "''COW''" name] assms(2) by simp
  moreover have "cow_marker_lines (script ls) prefix = lines_with (script ls) prefix" for prefix
  proof -
    have "strip_chars is_space line = line" if "line \<in> set (splitlines (script ls))" for line
      using script_stripped [OF ok] that by (metis in_set_conv_nth nth_map)
    then have "map (strip_chars is_space) (filter P (splitlines (script ls))) = filter P (splitlines (script ls))" for P
      by (intro map_idI) auto
    then show ?thesis unfolding cow_marker_lines_def lines_with_def script_stripped [OF ok] by simp
  qed
  moreover have "filter (led [''COW'', name]) ls = filter (\<lambda>l. fst l ! 1 = name) ls"
    using assms(1) cow_line_ok by (intro filter_cong) (auto simp: led_def list_all_iff cow_line_def)
  ultimately show ?thesis by (simp add: marked_def)
qed

lemma cow_marker_script:
  assumes "list_all cow_line ls" and "filter (\<lambda>l. fst l ! 1 = name) ls = [l]"
  shows "cow_marker (script ls) name = Inr (rendered l, snd l)"
proof -
  have "l \<in> set (filter (\<lambda>l. fst l ! 1 = name) ls)" unfolding assms(2) by simp
  then have l: "cow_line l" "fst l ! 1 = name" using assms(1) by (auto simp: list_all_iff)
  then have "plain_word name" by (auto simp: cow_line_def)
  from cow_lines_script [OF assms(1) this] cow_parse_line [OF l(1)] l assms(2) show ?thesis
    by (simp add: cow_marker_def require_exact_fields_def cow_line_def dget_def)
qed

lemma filter_position: "distinct (map f ls) \<Longrightarrow> i < length ls \<Longrightarrow> filter (\<lambda>l. f l = f (ls ! i)) ls = [ls ! i]"
proof (induction ls arbitrary: i)
  case (Cons l ls)
  then show ?case
  proof (cases i)
    case 0
    have "filter (\<lambda>k. f k = f l) ls = []" using Cons.prems(1) by (auto simp: filter_empty_conv) (metis image_eqI)
    with 0 show ?thesis by simp
  next
    case (Suc j)
    then have "f l \<noteq> f (ls ! j)" using Cons.prems by (metis Suc_less_eq distinct.simps(2) image_eqI length_Cons list.set_map list.simps(9) nth_mem)
    with Suc show ?thesis using Cons.IH [of j] Cons.prems by simp
  qed
qed simp

definition cow_order :: "(string list \<times> fval fields) list \<Rightarrow> bool" where
  "cow_order ls \<longleftrightarrow> list_all cow_line ls \<and> map (\<lambda>l. fst l ! 1) ls = CASE_NAMES @ [''PASS'', ''CLEAN'']"

lemma cow_order_length: "cow_order ls \<Longrightarrow> length ls = 12"
  using length_map [of "\<lambda>l. fst l ! 1" ls] by (simp add: cow_order_def case_names del: length_map)

lemma cow_markers_script:
  assumes "cow_order ls"
  shows "map_res (cow_marker (script ls)) CASE_NAMES = Inr (map (\<lambda>l. (rendered l, snd l)) (take 10 ls))"
    and "cow_marker (script ls) ''PASS'' = Inr (rendered (ls ! 10), snd (ls ! 10))"
    and "cow_marker (script ls) ''CLEAN'' = Inr (rendered (ls ! 11), snd (ls ! 11))"
    and "cow_marker_lines (script ls) ''COW FAIL '' = []"
proof -
  let ?name = "\<lambda>l. fst l ! 1"
  let ?names = "CASE_NAMES @ [''PASS'', ''CLEAN'']"
  have lines: "list_all cow_line ls" and names: "map ?name ls = ?names" using assms by (auto simp: cow_order_def)
  have len: "length ls = 12" using assms by (rule cow_order_length)
  have "distinct ?names" by code_simp
  then have "distinct (map ?name ls)" by (simp only: names)
  then have at: "cow_marker (script ls) (?names ! i) = Inr (rendered (ls ! i), snd (ls ! i))" if "i < 12" for i
    using cow_marker_script [OF lines filter_position] that len names by (metis nth_map)
  have "cow_marker (script ls) (CASE_NAMES ! i) = Inr (rendered (ls ! i), snd (ls ! i))" if "i < 10" for i
    using at [of i] that case_names by (simp add: nth_append)
  then have "map_res (cow_marker (script ls)) (map ((!) CASE_NAMES) [0..<10]) = Inr (map (\<lambda>i. (rendered (ls ! i), snd (ls ! i))) [0..<10])"
    by (intro map_res_map) auto
  moreover have "map ((!) CASE_NAMES) [0..<10] = CASE_NAMES" using case_names by (metis map_nth)
  moreover have "map (\<lambda>i. (rendered (ls ! i), snd (ls ! i))) [0..<10] = map (\<lambda>l. (rendered l, snd l)) (take 10 ls)"
    using len by (intro nth_equalityI) auto
  ultimately show "map_res (cow_marker (script ls)) CASE_NAMES = Inr (map (\<lambda>l. (rendered l, snd l)) (take 10 ls))" by simp
  show "cow_marker (script ls) ''PASS'' = Inr (rendered (ls ! 10), snd (ls ! 10))"
    "cow_marker (script ls) ''CLEAN'' = Inr (rendered (ls ! 11), snd (ls ! 11))"
    using at [of 10] at [of 11] by (simp_all add: nth_append case_names)
  have "plain_word ''FAIL''" "''FAIL'' \<notin> set ?names" by code_simp+
  moreover have "?name l \<in> set ?names" if "l \<in> set ls" for l unfolding names [symmetric] using that by simp
  ultimately have "filter (\<lambda>l. ?name l = ''FAIL'') ls = []" unfolding filter_empty_conv by metis
  with cow_lines_script [OF lines \<open>plain_word ''FAIL''\<close>] show "cow_marker_lines (script ls) ''COW FAIL '' = []" by simp
qed

lemma cow_closed_script:
  assumes "cow_order ls"
  shows "cow_closed (script ls) = Inr ()"
proof -
  have lines: "list_all cow_line ls" and names: "map (\<lambda>l. fst l ! 1) ls = CASE_NAMES @ [''PASS'', ''CLEAN'']"
    using assms by (auto simp: cow_order_def)
  have word: "takeWhile (\<lambda>c. c \<noteq> CHR '' '') (w @ CHR '' '' # r) = w" if "CHR '' '' \<notin> set w" for w r using that by (induction w) auto
  have "takeWhile (\<lambda>c. c \<noteq> CHR '' '') (drop 4 (rendered l)) \<in> set (CASE_NAMES @ [''PASS'', ''CLEAN''])" if "l \<in> set ls" for l
  proof -
    from lines that have l: "cow_line l" by (simp add: list_all_iff)
    from l have "snd l \<noteq> []" by (simp add: cow_line_def)
    then obtain t ts where ts: "map (\<lambda>(k, v). render_token k (show_value v)) (snd l) = t # ts" by (metis list.exhaust map_is_Nil_conv)
    have "fst l = [''COW'', fst l ! 1]" using cow_line_ok [OF l] by blast
    then have "line_words l = [''COW'', fst l ! 1] @ t # ts" unfolding line_words_def ts by simp
    then have "drop 4 (rendered l) = fst l ! 1 @ CHR '' '' # render_line (t # ts)" by simp
    moreover have "CHR '' '' \<notin> set (fst l ! 1)"
      using l by (auto simp: cow_line_def plain_word_def list_all_iff is_space_def)
    moreover have "fst l ! 1 \<in> set (CASE_NAMES @ [''PASS'', ''CLEAN''])" unfolding names [symmetric] using that by simp
    ultimately show ?thesis by (simp only: word not_False_eq_True)
  qed
  then have "list_all (\<lambda>line. takeWhile (\<lambda>c. c \<noteq> CHR '' '') (drop 4 line) \<in> set (CASE_NAMES @ [''PASS'', ''CLEAN''])) (filter P (map rendered ls))" for P
    unfolding list_all_iff by auto
  moreover have "splitlines (script ls) = map rendered ls"
    using lines cow_line_ok splitlines_text(2) [OF script_plain] by (auto simp: script_def list_all_iff)
  ultimately show ?thesis unfolding cow_closed_def by (simp only: require_eq_Inr)
qed

definition cow_demo :: "(string list \<times> fval fields) list" where
  "cow_demo =
    [([''COW'', ''SHARE''], [(''pa'', FInt 4096), (''parent_new'', FInt 8192), (''child_old'', FInt 4096),
       (''before_flags'', FStr ''19/19''), (''before_refs'', FStr ''2/2''),
       (''before_cows'', FStr ''1/1''), (''after_flags'', FStr ''23/19''),
       (''after_refs'', FStr ''1/1''), (''after_cows'', FStr ''0/1''), (''fast_flags'', FInt 23),
       (''fast_ref'', FInt 1), (''fast_cow'', FInt 0), (''parent_alloc'', FInt 1),
       (''child_alloc'', FInt 0), (''values'', FStr ''34/51'')]),
     ([''COW'', ''MULTI''], [(''root'', FInt 3), (''child'', FInt 4), (''grandchild'', FInt 5),
       (''shared_pa'', FInt 4096), (''before_flags'', FStr ''19/19/19''),
       (''before_refs'', FStr ''3/3/3''), (''before_cows'', FStr ''1/1/1''),
       (''after_pa'', FStr ''4096/4096/8192''), (''after_flags'', FStr ''19/19/23''),
       (''after_refs'', FStr ''2/2/1''), (''after_cows'', FStr ''1/1/0''),
       (''before_values'', FStr ''33/33/33''), (''after_values'', FStr ''33/33/42'')]),
     ([''COW'', ''LAZY''], [(''before'', FStr ''0/0''), (''before_flags'', FStr ''0/0''),
       (''parent_pa'', FInt 4096), (''child_pa'', FInt 8192), (''after_flags'', FStr ''23/23''),
       (''after_refs'', FStr ''1/1''), (''after_cows'', FStr ''0/0''), (''values'', FStr ''102/85'')]),
     ([''COW'', ''COPYOUT''], [(''parent_pa'', FInt 4096), (''child_pa'', FInt 8192),
       (''flags'', FStr ''19/23''), (''refs'', FStr ''1/1''), (''cows'', FStr ''1/0''),
       (''parent'', FInt 68), (''child'', FStr ''97/98/99/100'')]),
     ([''COW'', ''PARTIAL''], [(''generation'', FInt 5), (''eligible'', FInt 2), (''first'', FInt 16),
       (''retry'', FInt 16), (''fail_at'', FInt 2), (''fired'', FInt 1),
       (''parent'', FStr ''4096/8192''), (''child'', FStr ''12288/16384''),
       (''parent_flags'', FStr ''19/19''), (''child_flags'', FStr ''23/23''),
       (''parent_refs'', FStr ''1/1''), (''child_refs'', FStr ''1/1''), (''parent_cows'', FStr ''1/1''),
       (''child_cows'', FStr ''0/0''), (''parent_values'', FStr ''65/65''),
       (''child_values'', FStr ''32/48'')]),
     ([''COW'', ''OOM''], [(''generation'', FInt 6), (''eligible'', FInt 1), (''status'', FInt (- 1)),
       (''fail_at'', FInt 1), (''fired'', FInt 1), (''old_pa'', FInt 4096), (''old_flags'', FInt 19),
       (''old_ref'', FInt 1), (''old_cow'', FInt 1), (''fast_alloc'', FInt 0), (''value'', FInt 51)]),
     ([''COW'', ''ROLLBACK''], [(''generation'', FInt 7), (''fork'', FInt (- 1)), (''fail_at'', FInt 8),
       (''fired'', FInt 1), (''eligible'', FInt 8), (''preexisting_pa'', FInt 4096),
       (''preexisting_flags'', FInt 19), (''preexisting_ref'', FInt 2), (''preexisting_cow'', FInt 1),
       (''new_parent_flags'', FInt 23), (''new_parent_ref'', FInt 1), (''new_parent_cow'', FInt 0),
       (''fast_flags'', FInt 23), (''fast_ref'', FInt 1), (''fast_cow'', FInt 0),
       (''fast_alloc'', FInt 0), (''setup_free'', FInt 100), (''after_fork_free'', FInt 100),
       (''values'', FStr ''65/82/67'')]),
     ([''COW'', ''PAIR''], [(''generation'', FInt 8), (''pids'', FStr ''6/7''), (''harts'', FStr ''0/1''),
       (''arrived'', FInt 3), (''gate_open'', FInt 1), (''eligible'', FInt 2), (''old'', FInt 4096),
       (''new'', FStr ''8192/12288''), (''flags'', FStr ''19/23/23''), (''refs'', FStr ''1/1/1''),
       (''cows'', FStr ''1/0/0''), (''values'', FStr ''115/114'')]),
     ([''COW'', ''BOUNDARY''], [(''text_pa'', FInt 4096), (''text_flags'', FInt 27), (''text_ref'', FInt 2),
       (''text_cow'', FInt 0), (''guard_parent_pa'', FInt 8192), (''guard_child_pa'', FInt 12288),
       (''guard_flags'', FStr ''7/7''), (''guard_cows'', FStr ''0/0''), (''guard_status'', FInt (- 1)),
       (''text_status'', FInt (- 1)), (''tail_status'', FInt 0)]),
     ([''COW'', ''TEARDOWN''], [(''shrink_leaf'', FInt 0), (''child_pa'', FInt 0),
       (''parent_pa'', FInt 4096), (''parent_flags'', FInt 19), (''parent_ref'', FInt 1),
       (''parent_cow'', FInt 1), (''exec_bad'', FInt (- 1)), (''bad_before_pa'', FInt 8192),
       (''bad_after_pa'', FInt 8192), (''bad_flags'', FStr ''19/19''), (''bad_refs'', FStr ''2/2''),
       (''bad_cows'', FStr ''1/1''), (''bad_value'', FInt 25), (''exec_status'', FInt 0),
       (''errors'', FInt 0)]),
     ([''COW'', ''PASS''], [(''cases'', FInt 10)]),
     ([''COW'', ''CLEAN''], [(''base'', FInt 90), (''after'', FInt 90), (''errors'', FInt 0),
       (''active_before'', FInt 5), (''active_after'', FInt 5), (''refs_before'', FInt 7),
       (''refs_after'', FInt 7)])]"


lemma cow_demo_order: "cow_order cow_demo"
  by code_simp

definition cow_checks :: "(string list \<times> fval fields) list \<Rightarrow> unit result" where
  "cow_checks ls =
     bind_res (cow_share (snd (ls ! 0))) (\<lambda>_. bind_res (cow_multi (snd (ls ! 1))) (\<lambda>_. bind_res (cow_lazy (snd (ls ! 2))) (\<lambda>_.
     bind_res (cow_copyout (snd (ls ! 3))) (\<lambda>_. bind_res (cow_partial (snd (ls ! 4))) (\<lambda>_. bind_res (cow_oom (snd (ls ! 5))) (\<lambda>_.
     bind_res (cow_rollback (snd (ls ! 6))) (\<lambda>_. bind_res (cow_pair (snd (ls ! 7))) (\<lambda>_.
     bind_res (cow_boundary (snd (ls ! 8))) (\<lambda>_. cow_teardown (snd (ls ! 9)))))))))))"

lemma validate_cow_script:
  assumes "cow_order ls" and "map_of (snd (ls ! 10)) ''cases'' = Some (FInt 10)" and "cow_clean (snd (ls ! 11)) = Inr ()"
  shows "validate_cowtrace (script ls) = bind_res (cow_checks ls) (\<lambda>_. Inr \<lparr>cr_markers = map rendered ls, cr_transcript = script ls\<rparr>)"
proof -
  have len: "length ls = 12" using assms(1) by (rule cow_order_length)
  then have "map rendered (take 10 ls) @ [rendered (ls ! 10), rendered (ls ! 11)] = map rendered ls"
    by (intro nth_equalityI) (auto simp: nth_append less_Suc_eq numeral_eq_Suc)
  moreover have "map (\<lambda>l. (rendered l, snd l)) (take 10 ls) ! i = (rendered (ls ! i), snd (ls ! i))" if "i < 10" for i
    using that len by simp
  ultimately show ?thesis using assms(2,3) case_names(2)
    by (simp add: validate_cowtrace_def cow_markers_script [OF assms(1)] cow_closed_script [OF assms(1)] cow_checks_def bind_res_assoc comp_def)
qed

lemma cow_demo_accepted: "validate_cowtrace (script cow_demo) = Inr \<lparr>cr_markers = map rendered cow_demo, cr_transcript = script cow_demo\<rparr>"
proof -
  have "cow_checks cow_demo = Inr ()" by code_simp
  moreover have "map_of (snd (cow_demo ! 10)) ''cases'' = Some (FInt 10)" "cow_clean (snd (cow_demo ! 11)) = Inr ()" by code_simp+
  ultimately show ?thesis using validate_cow_script [OF cow_demo_order] by simp
qed


text \<open>The same transcript with a flag field of the text mapping that is not a number.\<close>

definition cow_bad_demo :: "(string list \<times> fval fields) list" where
  "cow_bad_demo = cow_demo[8 := ([''COW'', ''BOUNDARY''], dput ''text_flags'' (FStr ''27/27'') (snd (cow_demo ! 8)))]"

theorem cowtrace_exceptions_witness:
  "validate_cowtrace (script cow_bad_demo) = Inl ValueError \<and>
   (\<exists>line d. cow_marker (script cow_bad_demo) ''BOUNDARY'' = Inr (line, d) \<and> text_field d)"
proof -
  have "cow_order cow_bad_demo" "cow_checks cow_bad_demo = Inl ValueError" by code_simp+
  moreover have "map_of (snd (cow_bad_demo ! 10)) ''cases'' = Some (FInt 10)" "cow_clean (snd (cow_bad_demo ! 11)) = Inr ()" by code_simp+
  ultimately have "validate_cowtrace (script cow_bad_demo) = Inl ValueError" using validate_cow_script [of cow_bad_demo] by simp
  with cowtrace_exceptions [OF this] show ?thesis by simp
qed

end
