(* ===== verification/CowPatch.thy ===== *)
theory CowPatch
  imports CowTrace
begin

text \<open>
  Patch inspection and source anchors of the copy-on-write project (\<open>resources/copy-on-write/run-project.py\<close>):
  the paths of a patch, the scope that a candidate patch may touch, the published fixture and the
  anchors that the pinned source has to contain.  A patch is its decoded text; a source tree is the
  dictionary of its regular files, from relative paths to their text.
\<close>

section \<open>Paths of a patch\<close>

text \<open>\<open>^diff --git a/(.+?) b/(.+?)$\<close> on one line: the first group is the shortest one that is followed by \<open>b/\<close>.\<close>

fun find_new :: "string \<Rightarrow> string \<Rightarrow> (string \<times> string) option" where
  "find_new old [] = None"
| "find_new old (c # cs) =
     (if old \<noteq> [] \<and> starts_with (c # cs) '' b/'' \<and> length cs > 2 then Some (old, drop 2 cs)
      else find_new (old @ [c]) cs)"

definition match_diff :: "string \<Rightarrow> (string \<times> string) option" where
  "match_diff line = (if starts_with line ''diff --git a/'' then find_new [] (drop 13 line) else None)"

text \<open>\<open>Path(s).is_absolute()\<close> and \<open>Path(s).parts\<close> below the root.\<close>

definition is_absolute :: "string \<Rightarrow> bool" where
  "is_absolute s \<longleftrightarrow> take 1 s = ''/''"

definition parts_of :: "string \<Rightarrow> string list" where
  "parts_of s = filter (\<lambda>p. p \<noteq> [] \<and> p \<noteq> ''.'') (split_on CHR ''/'' s)"

definition diff_step :: "string list \<Rightarrow> string \<Rightarrow> string list result" where
  "diff_step paths line =
     (case match_diff line of
        None \<Rightarrow> Inr paths
      | Some (old, new) \<Rightarrow>
          bind_res (requires
            [(old = new, ''rename patch is not allowed''),
             (\<not> is_absolute new \<and> ''..'' \<notin> set (parts_of new), ''unsafe patch path'')]) (\<lambda>_.
          Inr (if new \<in> set paths then paths else paths @ [new])))"

definition patch_paths :: "string \<Rightarrow> string list result" where
  "patch_paths patch =
     bind_res (fold_res diff_step [] (split_on CHR 0x0A patch)) (\<lambda>paths.
     bind_res (require (paths \<noteq> []) ''patch contains no git diff paths'') (\<lambda>_. Inr paths))"

definition forbidden :: "string list" where
  "forbidden = [''kernel/cowaudit.c'', ''kernel/cowaudit.h'', ''user/cowtrace.c'']"

definition scope_checks :: "string \<Rightarrow> (bool \<times> string) list" where
  "scope_checks path =
     [(path \<noteq> ''fs.img'' \<and> \<not> starts_with path ''docs/'', ''candidate patch changes publication/shared artifacts''),
      (starts_with path ''kernel/'' \<or> starts_with path ''user/'' \<or> path = ''Makefile'',
        ''candidate patch leaves xv6 source scope'')]"

definition validate_candidate_patch :: "string \<Rightarrow> string list result" where
  "validate_candidate_patch patch =
     bind_res (patch_paths patch) (\<lambda>paths.
     bind_res (require (list_all (\<lambda>path. path \<notin> set forbidden) paths) ''candidate must not include audit fixture files'') (\<lambda>_.
     bind_res (requires (concat (map scope_checks paths))) (\<lambda>_.
     bind_res (requires (map (\<lambda>token. (\<not> contains patch token, ''candidate patch embeds the publication fixture: '' @ token))
       [''COWAUDIT'', ''cowaudit'', ''cowtrace'', ''COW CLEAN'', ''COW PASS''])) (\<lambda>_.
       Inr paths))))"

section \<open>Source anchors\<close>

type_synonym sources = "(string, string) dict"

definition read_sources :: "sources \<Rightarrow> string list \<Rightarrow> (string, string) dict" where
  "read_sources root paths = concat (map (\<lambda>path. case map_of root path of None \<Rightarrow> [] | Some text \<Rightarrow> [(path, text)]) paths)"

definition require_tokens :: "string \<Rightarrow> string list \<Rightarrow> string \<Rightarrow> unit result" where
  "require_tokens text tokens context =
     require (filter (\<lambda>token. \<not> contains text token) tokens = []) (context @ '' missing anchors'')"

text \<open>\<open>require_tokens(sources[path], tokens, context)\<close>\<close>

definition source_tokens :: "(string, string) dict \<Rightarrow> string \<times> string list \<times> string \<Rightarrow> unit result" where
  "source_tokens sources anchor =
     (case anchor of (path, tokens, context) \<Rightarrow> bind_res (dget sources path) (\<lambda>text. require_tokens text tokens context))"

definition baseline_paths :: "string list" where
  "baseline_paths = [''kernel/riscv.h'', ''kernel/kalloc.c'', ''kernel/vm.c'', ''kernel/proc.c'', ''kernel/trap.c'', ''kernel/exec.c'',
     ''kernel/pipe.c'', ''user/usertests.c'']"

definition baseline_anchors :: "(string \<times> string list \<times> string) list" where
  "baseline_anchors =
     [(''kernel/riscv.h'', [''PTE_V'', ''PTE_R'', ''PTE_W'', ''PTE_X'', ''PTE_U'', ''PTE_FLAGS'', ''sfence_vma''], ''Sv39/PTE baseline''),
      (''kernel/kalloc.c'', [''kinit('', ''freerange('', ''kalloc('', ''kfree(''], ''allocator baseline''),
      (''kernel/vm.c'', [''walk('', ''mappages('', ''uvmcopy('', ''uvmunmap('', ''uvmfree('', ''copyout('', ''copyin(''],
        ''address-space baseline''),
      (''kernel/proc.c'', [''freeproc('', ''kfork('', ''proc_freepagetable(''], ''process teardown baseline''),
      (''kernel/trap.c'', [''usertrap(''], ''trap baseline''),
      (''kernel/exec.c'', [''kexec(''], ''exec baseline''),
      (''kernel/pipe.c'', [''piperead(''], ''pipe baseline''),
      (''user/usertests.c'', [''forktest('', ''copyout('', ''lazy_copy('', ''sbrkfail(''], ''regression baseline'')]"

definition analyze_baseline :: "sources \<Rightarrow> unit result" where
  "analyze_baseline root =
     (let sources = read_sources root baseline_paths in
      bind_res (require (length sources = length baseline_paths) ''pinned baseline source scope is incomplete'') (\<lambda>_.
      bind_res (fold_res (\<lambda>_. source_tokens sources) () baseline_anchors) (\<lambda>_.
      let all_source = py_join ''\<newline>'' (dvalues sources) in
      requires (map (\<lambda>token. (\<not> contains all_source token, ''pinned baseline unexpectedly contains candidate token: '' @ token))
        [''PTE_COW'', ''cow_resolve'', ''kref_get'', ''COWAUDIT'']))))"

definition AUDIT_PATHS :: "string list" where
  "AUDIT_PATHS = [''Makefile'', ''kernel/cowaudit.c'', ''kernel/cowaudit.h'', ''kernel/kalloc.c'', ''kernel/main.c'',
     ''kernel/syscall.c'', ''kernel/syscall.h'', ''kernel/sysproc.c'', ''user/cowtrace.c'', ''user/user.h'', ''user/usys.pl'']"

definition analyze_audit_patch :: "string \<Rightarrow> string list result" where
  "analyze_audit_patch patch =
     bind_res (patch_paths patch) (\<lambda>paths.
     bind_res (require (set paths = set AUDIT_PATHS) ''audit fixture scope changed'') (\<lambda>_.
     bind_res (require_tokens patch [''cowaudit'', ''COWAUDIT_'', ''cowaudit_kalloc_gate'', ''_cowtrace'', ''cowproject_'', ''COW SHARE'',
       ''COW PAIR'', ''COW CLEAN''] ''audit fixture'') (\<lambda>_.
     bind_res (requires
       [(\<not> contains patch ''PTE_COW'' \<and> \<not> contains patch ''kref_'', ''audit fixture leaks candidate-specific COW symbols''),
        (\<not> contains patch ''cow_resolve'' \<and> \<not> contains patch ''uvmcopy('',
          ''audit fixture must not publish a complete COW implementation'')]) (\<lambda>_.
       Inr paths))))"

definition analyze_fixture :: "sources \<Rightarrow> unit result" where
  "analyze_fixture root =
     (let sources = read_sources root AUDIT_PATHS in
      bind_res (require (''kernel/cowaudit.c'' \<in> set (dkeys sources) \<and> ''user/cowtrace.c'' \<in> set (dkeys sources))
        ''audit fixture files did not apply'') (\<lambda>_.
      fold_res (\<lambda>_. source_tokens sources) ()
        [(''Makefile'', [''$K/cowaudit.o'', ''$U/_cowtrace''], ''audit build registration''),
         (''kernel/cowaudit.c'', [''cowaudit_command'', ''cowaudit_kalloc_gate'', ''cowproject_ref'', ''cowproject_is_cow'',
            ''COWAUDIT_MODE_PAIR''], ''audit kernel seam''),
         (''user/cowtrace.c'', map (\<lambda>name. ''COW '' @ name) CASE_NAMES @ [''COW PASS cases=%d'', ''COW CLEAN'', ''active_before=%d'',
            ''refs_before=%d''], ''audit guest oracle'')]))"

section \<open>The candidate's adapter functions\<close>

text \<open>
  The regular expressions of the runner are sequences of literals, optional and mandatory white space and
  identifiers, in which each element ends where the next one cannot start; \<open>\b\<close> stands only in front.
\<close>

datatype rx = Lit string | Ws0 | Ws1 | Ident

definition is_word_char :: "char \<Rightarrow> bool" where
  "is_word_char c \<longleftrightarrow> is_key_char c \<or> is_digit c \<or> 65 \<le> (of_char c :: int) \<and> (of_char c :: int) \<le> 90"

fun rx_match :: "rx list \<Rightarrow> string \<Rightarrow> bool" where
  "rx_match [] s = True"
| "rx_match (Lit l # rs) s = (starts_with s l \<and> rx_match rs (drop (length l) s))"
| "rx_match (Ws0 # rs) s = rx_match rs (dropWhile is_space s)"
| "rx_match (Ws1 # rs) s = (take 1 s \<noteq> [] \<and> is_space (hd s) \<and> rx_match rs (dropWhile is_space s))"
| "rx_match (Ident # rs) s =
     (take 1 s \<noteq> [] \<and> is_word_char (hd s) \<and> \<not> is_digit (hd s) \<and> rx_match rs (dropWhile is_word_char s))"

text \<open>\<open>re.search(pattern, s)\<close>, where a pattern that starts with \<open>\b\<close> matches only after a non-word character.\<close>

fun rx_search :: "bool \<Rightarrow> rx list \<Rightarrow> bool \<Rightarrow> string \<Rightarrow> bool" where
  "rx_search boundary rs after_word [] = (\<not> (boundary \<and> after_word) \<and> rx_match rs [])"
| "rx_search boundary rs after_word (c # cs) =
     (\<not> (boundary \<and> after_word) \<and> rx_match rs (c # cs) \<or> rx_search boundary rs (is_word_char c) cs)"

definition adapter_signatures :: "(string \<times> rx list) list" where
  "adapter_signatures =
     [(''cowproject_ref'', [Lit ''uint'', Ws1, Lit ''cowproject_ref'', Ws0, Lit ''('', Ws0, Lit ''uint64'', Ws1, Ident, Ws0, Lit '')'',
         Ws0, Lit ''{'']),
      (''cowproject_active'', [Lit ''uint'', Ws1, Lit ''cowproject_active'', Ws0, Lit ''('', Ws0, Lit ''void'', Ws0, Lit '')'', Ws0, Lit ''{'']),
      (''cowproject_total'', [Lit ''uint'', Ws1, Lit ''cowproject_total'', Ws0, Lit ''('', Ws0, Lit ''void'', Ws0, Lit '')'', Ws0, Lit ''{'']),
      (''cowproject_errors'', [Lit ''uint'', Ws1, Lit ''cowproject_errors'', Ws0, Lit ''('', Ws0, Lit ''void'', Ws0, Lit '')'', Ws0, Lit ''{'']),
      (''cowproject_free_pages'', [Lit ''int'', Ws1, Lit ''cowproject_free_pages'', Ws0, Lit ''('', Ws0, Lit ''void'', Ws0, Lit '')'', Ws0,
         Lit ''{'']),
      (''cowproject_is_cow'', [Lit ''int'', Ws1, Lit ''cowproject_is_cow'', Ws0, Lit ''('', Ws0, Lit ''pte_t'', Ws1, Ident, Ws0, Lit '')'',
         Ws0, Lit ''{''])]"

definition is_source_file :: "string \<Rightarrow> bool" where
  "is_source_file path \<longleftrightarrow> (starts_with path ''kernel/'' \<or> starts_with path ''user/'') \<and>
     (let name = last (split_on CHR ''/'' path) in
      list_ex (\<lambda>suffix. ends_with name suffix \<and> length name > length suffix) [''.c'', ''.h'', ''.S''])"

definition analyze_candidate :: "sources \<Rightarrow> string list \<Rightarrow> unit result" where
  "analyze_candidate root candidate_paths =
     (let changed_text = py_join ''\<newline>'' (dvalues (read_sources root candidate_paths));
          all_source = py_join ''\<newline>'' (map snd (filter (\<lambda>(path, text). is_source_file path) root))
      in requires
        [(contains all_source ''uvmcopy('' \<and> contains all_source ''copyout('' \<and> contains all_source ''usertrap('',
           ''candidate does not cover fork, kernel copyout, and store-fault paths''),
         (rx_search False [Lit ''kalloc'', Ws0, Lit ''(''] False all_source \<and> rx_search False [Lit ''kfree'', Ws0, Lit ''(''] False all_source,
           ''candidate does not expose allocation and release paths''),
         (list_all (\<lambda>(name, pattern). rx_search True pattern False changed_text) adapter_signatures,
           ''candidate audit adapter signatures missing'')])"

end
