(* ===== verification/CowRun.thy ===== *)
theory CowRun
  imports CowPatch
begin

text \<open>
  The experiment of the copy-on-write project (\<open>resources/copy-on-write/run-project.py\<close>): the dialogue with the
  emulator, the guest runs, and the whole run with its nested \<open>try\<close>/\<open>finally\<close> blocks.  The machine is
  explicit: the temporary source tree, the scratch files, and the digests of the repository and of its
  disk image.  The programs that the runner starts are fields of the \<open>host\<close> record, an argument of the run.
\<close>

section \<open>Actions that may raise\<close>

type_synonym ('s, 'a) act = "'s \<Rightarrow> 's \<times> 'a result"

definition ret :: "'a \<Rightarrow> ('s, 'a) act" where
  "ret x s = (s, Inr x)"

definition lift :: "'a result \<Rightarrow> ('s, 'a) act" where
  "lift r s = (s, r)"

definition bind_act :: "('s, 'a) act \<Rightarrow> ('a \<Rightarrow> ('s, 'b) act) \<Rightarrow> ('s, 'b) act" where
  "bind_act m f s = (case m s of (s', Inl e) \<Rightarrow> (s', Inl e) | (s', Inr x) \<Rightarrow> f x s')"

text \<open>\<open>try: body finally: final\<close>; an exception of \<open>final\<close> replaces the one of the body.\<close>

definition finally_act :: "('s, 'a) act \<Rightarrow> ('s, 'b) act \<Rightarrow> ('s, 'a) act" where
  "finally_act body final s =
     (case body s of (s', r) \<Rightarrow> case final s' of (s'', Inl e) \<Rightarrow> (s'', Inl e) | (s'', Inr _) \<Rightarrow> (s'', r))"

section \<open>The emulator\<close>

text \<open>What one wait on the emulator's output yields: nothing before the deadline, or a chunk; an empty chunk is end of file.\<close>

datatype qemu_event = Quiet | Chunk string

record qemu =
  q_output :: string
  q_pending :: "qemu_event list"
  q_sent :: "string list"

fun read_until :: "string \<Rightarrow> nat \<Rightarrow> string \<Rightarrow> qemu_event list \<Rightarrow> (string \<times> qemu_event list) result" where
  "read_until marker start out [] =
     (if contains (drop start out) marker then Inr (out, []) else Inl (LabError ''QEMU watchdog waiting''))"
| "read_until marker start out (e # es) =
     (if contains (drop start out) marker then Inr (out, e # es)
      else case e of
        Quiet \<Rightarrow> Inl (LabError ''QEMU watchdog waiting'')
      | Chunk chunk \<Rightarrow>
          if chunk = [] then Inl (LabError ''QEMU closed output'')
          else read_until marker start (out @ remove_cr chunk) es)"

definition qemu_init :: "(string list \<Rightarrow> qemu_event list) \<Rightarrow> qemu result" where
  "qemu_init guest =
     bind_res (read_until ''$ '' 0 [] (guest [])) (\<lambda>(out, pending).
       Inr \<lparr>q_output = out, q_pending = pending, q_sent = []\<rparr>)"

definition qemu_command :: "(string list \<Rightarrow> qemu_event list) \<Rightarrow> string \<Rightarrow> qemu \<Rightarrow> (qemu \<times> string) result" where
  "qemu_command guest command q =
     (let start = length (q_output q); sent = q_sent q @ [command] in
      bind_res (read_until ''$ '' start (q_output q) (q_pending q @ guest sent)) (\<lambda>(out, pending).
        Inr (\<lparr>q_output = out, q_pending = pending, q_sent = sent\<rparr>, drop start out)))"

section \<open>The host\<close>

record machine =
  m_tree :: sources
  m_scratch :: "(string, string) dict"
  m_repo :: string
  m_image :: string

text \<open>What a path given with \<open>--candidate\<close> turns out to be.\<close>

datatype candidate =
    CandFile string
  | CandDir bool "string result"
  | CandOther

record host =
  h_baseline :: "string result"
  h_checked :: "string list \<Rightarrow> (machine, string) act"
  h_archive :: "string \<Rightarrow> sources result"
  h_audit :: string
  h_outside :: bool
  h_exists :: bool
  h_candidate :: candidate
  h_report_outside :: bool
  h_boot :: "machine \<Rightarrow> machine"
  h_guest :: "machine \<Rightarrow> string list \<Rightarrow> qemu_event list"
  h_stop :: "unit result"
  h_driver :: "string list \<Rightarrow> int \<Rightarrow> (machine, int option \<times> string) act"
  h_python :: string

section \<open>Guest runs\<close>

definition RELATED_TESTS :: "string list" where
  "RELATED_TESTS = [''forktest'', ''copyout'', ''lazy_copy'', ''sbrkfail'']"

definition run_driver :: "host \<Rightarrow> string list \<Rightarrow> int \<Rightarrow> (machine, string) act" where
  "run_driver h args cpus =
     bind_act (h_driver h args cpus) (\<lambda>(returncode, out).
     lift (bind_res (requires
       [(returncode \<noteq> None, ''test-xv6 watchdog expired''),
        (returncode = Some 0, ''test-xv6 failed''),
        (count_sub ''ALL TESTS PASSED'' out = 1, ''driver success marker count changed''),
        (\<not> contains out ''SOME TESTS FAILED'', ''driver reported failure''),
        (\<not> contains out ''COW '', ''COW marker leaked into driver'')]) (\<lambda>_. Inr out)))"

record cow_records =
  rec_cowtrace :: cow_result
  rec_related :: "(string, string) dict"
  rec_quick :: string
  rec_full :: string

definition related_step :: "(string list \<Rightarrow> qemu_event list) \<Rightarrow> qemu \<times> (string, string) dict \<Rightarrow> string \<Rightarrow> (qemu \<times> (string, string) dict) result" where
  "related_step guest st name =
     (case st of (q, related) \<Rightarrow>
      bind_res (qemu_command guest (''usertests '' @ name) q) (\<lambda>(q, transcript).
      bind_res (cow_regression name transcript) (\<lambda>_. Inr (q, dput name transcript related))))"

definition guest_session :: "(string list \<Rightarrow> qemu_event list) \<Rightarrow> (cow_result \<times> (string, string) dict) result" where
  "guest_session guest =
     bind_res (qemu_init guest) (\<lambda>q.
     bind_res (qemu_command guest ''cowtrace'' q) (\<lambda>(q, transcript).
     bind_res (validate_cowtrace transcript) (\<lambda>trace.
     bind_res (fold_res (related_step guest) (q, []) RELATED_TESTS) (\<lambda>(q, related).
       Inr (trace, related)))))"

definition run_dynamic :: "host \<Rightarrow> (machine, cow_records) act" where
  "run_dynamic h m =
     (let booted = h_boot h m in
      bind_act (finally_act (lift (guest_session (h_guest h booted))) (lift (h_stop h))) (\<lambda>(trace, related).
      bind_act (run_driver h [''-q'', ''usertests''] 2) (\<lambda>quick.
      bind_act (run_driver h [''usertests''] 1) (\<lambda>full.
        ret \<lparr>rec_cowtrace = trace, rec_related = related, rec_quick = quick, rec_full = full\<rparr>))) booted)"

section \<open>Patches and tools\<close>

definition make_command :: "string list \<Rightarrow> string list" where
  "make_command args = ''make'' # args"

definition apply_command :: "string \<Rightarrow> bool \<Rightarrow> string list" where
  "apply_command patch reverse =
     [''git'', ''apply'', ''--whitespace=error-all'', ''--recount'', ''--unidiff-zero''] @ (if reverse then [''-R''] else []) @ [patch]"

definition apply_patch :: "host \<Rightarrow> string \<Rightarrow> bool \<Rightarrow> (machine, unit) act" where
  "apply_patch h patch reverse = bind_act (h_checked h (apply_command patch reverse)) (\<lambda>_. ret ())"

definition make_clean :: "host \<Rightarrow> (machine, unit) act" where
  "make_clean h = bind_act (h_checked h (make_command [''clean''])) (\<lambda>_. ret ())"

definition first_line :: "string \<Rightarrow> string result" where
  "first_line out = (case splitlines out of [] \<Rightarrow> Inl IndexError | line # _ \<Rightarrow> Inr line)"

text \<open>\<open>re.search(r"^TOOLPREFIX := (\S*)$", database, re.MULTILINE)\<close>\<close>

definition tool_prefix :: "string \<Rightarrow> string option" where
  "tool_prefix database =
     (case filter (\<lambda>line. starts_with line ''TOOLPREFIX := '' \<and> list_all (\<lambda>c. \<not> is_space c) (drop 14 line)) (split_on CHR 0x0A database) of
        [] \<Rightarrow> None
      | line # _ \<Rightarrow> Some (drop 14 line))"

definition environment_record :: "host \<Rightarrow> (machine, string) act" where
  "environment_record h =
     bind_act (h_checked h (make_command [''-pn''])) (\<lambda>database.
     case tool_prefix database of
       None \<Rightarrow> lift (Inl (LabError ''cannot resolve Makefile TOOLPREFIX''))
     | Some prefix \<Rightarrow>
         bind_act (h_checked h [prefix @ ''gcc'', ''--version'']) (\<lambda>gcc.
         bind_act (lift (first_line gcc)) (\<lambda>compiler.
         bind_act (h_checked h [''uname'', ''-srmo'']) (\<lambda>uname.
         bind_act (h_checked h [''qemu-system-riscv64'', ''--version'']) (\<lambda>qemu_version.
         bind_act (lift (first_line qemu_version)) (\<lambda>emulator.
         bind_act (h_checked h [''make'', ''--version'']) (\<lambda>make_version.
         bind_act (lift (first_line make_version)) (\<lambda>make.
           ret (py_join ''; '' [strip_chars is_space uname, emulator, make, compiler, ''Python '' @ h_python h])))))))))"

definition candidate_patch :: "host \<Rightarrow> (machine, string) act" where
  "candidate_patch h =
     bind_act (lift (requires
       [(h_outside h, ''--candidate must point outside the repository''), (h_exists h, ''candidate does not exist'')])) (\<lambda>_.
     bind_act (lift (case h_candidate h of
         CandFile text \<Rightarrow> Inr text
       | CandDir worktree diff \<Rightarrow>
           bind_res (require worktree ''candidate directory must be a git worktree or provide a patch file'') (\<lambda>_. diff)
       | CandOther \<Rightarrow> bind_res (require False ''candidate is not a file or directory'') (\<lambda>_. Inr []))) (\<lambda>patch.
     bind_act (lift (require (strip_chars is_space patch \<noteq> []) ''candidate patch is empty'')) (\<lambda>_.
     bind_act (\<lambda>m. (m\<lparr>m_scratch := dput ''candidate.patch'' patch (m_scratch m)\<rparr>, Inr ())) (\<lambda>_.
     bind_act (lift (patch_paths patch)) (\<lambda>_. ret patch)))))"

section \<open>The run\<close>

text \<open>The local variables that record which patches have been applied.\<close>

record locals =
  l_candidate :: bool
  l_audit :: bool

text \<open>An action on the machine alone.\<close>

definition on_machine :: "(machine, 'a) act \<Rightarrow> (machine \<times> locals, 'a) act" where
  "on_machine act s = (case s of (m, l) \<Rightarrow> case act m of (m', r) \<Rightarrow> ((m', l), r))"

definition set_local :: "(locals \<Rightarrow> locals) \<Rightarrow> (machine \<times> locals, unit) act" where
  "set_local f s = (case s of (m, l) \<Rightarrow> ((m, f l), Inr ()))"

definition when_act :: "('s \<Rightarrow> bool) \<Rightarrow> ('s, unit) act \<Rightarrow> ('s, unit) act" where
  "when_act p act s = (if p s then act s else (s, Inr ()))"

definition checked_tree :: "(sources \<Rightarrow> 'a result) \<Rightarrow> (machine, 'a) act" where
  "checked_tree f m = (m, f (m_tree m))"

definition dict_eq :: "sources \<Rightarrow> sources \<Rightarrow> bool" where
  "dict_eq a b \<longleftrightarrow> set (dkeys a) = set (dkeys b) \<and> list_all (\<lambda>k. map_of a k = map_of b k) (dkeys a)"

definition cow_experiment :: "host \<Rightarrow> bool \<Rightarrow> (machine \<times> locals, cow_records option) act" where
  "cow_experiment h static_only =
     (if static_only then
        bind_act (on_machine (h_checked h (make_command [''-j2'', ''CPUS=2'', ''kernel/kernel'']))) (\<lambda>_. ret None)
      else
        bind_act (on_machine (candidate_patch h)) (\<lambda>patch.
        bind_act (lift (validate_candidate_patch patch)) (\<lambda>candidate_paths.
        bind_act (on_machine (apply_patch h ''candidate.patch'' False)) (\<lambda>_.
        bind_act (set_local (\<lambda>l. l\<lparr>l_candidate := True\<rparr>)) (\<lambda>_.
        bind_act (on_machine (checked_tree (\<lambda>root. analyze_candidate root candidate_paths))) (\<lambda>_.
        bind_act (lift (analyze_audit_patch (h_audit h))) (\<lambda>_.
        bind_act (on_machine (\<lambda>m. (m\<lparr>m_scratch := dput ''audit-fixture.patch'' (h_audit h) (m_scratch m)\<rparr>, Inr ()))) (\<lambda>_.
        bind_act (on_machine (apply_patch h ''audit-fixture.patch'' False)) (\<lambda>_.
        bind_act (set_local (\<lambda>l. l\<lparr>l_audit := True\<rparr>)) (\<lambda>_.
        bind_act (on_machine (checked_tree analyze_fixture)) (\<lambda>_.
        bind_act (on_machine (h_checked h (make_command [''-j2'', ''CPUS=2'', ''kernel/kernel'', ''user/_cowtrace'', ''fs.img'']))) (\<lambda>_.
        bind_act (on_machine (run_dynamic h)) (\<lambda>records. ret (Some records))))))))))))))"

definition cleanup :: "host \<Rightarrow> sources \<Rightarrow> (machine \<times> locals, unit) act" where
  "cleanup h original =
     finally_act (on_machine (make_clean h))
       (bind_act (when_act (\<lambda>(m, l). l_audit l) (on_machine (apply_patch h ''audit-fixture.patch'' True))) (\<lambda>_.
        bind_act (when_act (\<lambda>(m, l). l_candidate l) (on_machine (apply_patch h ''candidate.patch'' True))) (\<lambda>_.
        bind_act (on_machine (make_clean h)) (\<lambda>_.
          on_machine (checked_tree (\<lambda>root. require (dict_eq root original)
            ''temporary source did not return to pinned baseline''))))))"

text \<open>The part of the run inside the temporary directory.\<close>

definition in_directory :: "host \<Rightarrow> bool \<Rightarrow> string \<Rightarrow> (machine, cow_records option) act" where
  "in_directory h static_only baseline m =
     (case h_archive h baseline of
        Inl e \<Rightarrow> (m, Inl e)
      | Inr tree \<Rightarrow>
          bind_act (checked_tree analyze_baseline) (\<lambda>_.
          bind_act (environment_record h) (\<lambda>_.
          \<lambda>m. case finally_act (cow_experiment h static_only) (cleanup h tree) (m, \<lparr>l_candidate = False, l_audit = False\<rparr>) of
            ((m', _), r) \<Rightarrow> (m', r))) (m\<lparr>m_tree := tree\<rparr>))"

definition cow_run :: "host \<Rightarrow> bool \<Rightarrow> bool \<Rightarrow> bool \<Rightarrow> (machine, cow_records option) act" where
  "cow_run h static_only has_candidate has_report =
     bind_act (lift (h_baseline h)) (\<lambda>baseline.
     bind_act (h_checked h [''git'', ''rev-parse'', ''HEAD'']) (\<lambda>_.
     bind_act (lift (requires
       [(static_only \<or> has_candidate, ''--candidate is required unless --static-only is selected''),
        (has_candidate \<longrightarrow> h_outside h, ''--candidate must point outside the repository''),
        (has_candidate \<longrightarrow> h_exists h, ''candidate does not exist''),
        (has_report \<longrightarrow> h_report_outside h, ''--report must be outside repository'')])) (\<lambda>_.
     bind_act (\<lambda>m. (m, Inr (m_repo m, m_image m))) (\<lambda>(before_state, before_image).
     bind_act (lift (analyze_audit_patch (h_audit h))) (\<lambda>_.
     bind_act (in_directory h static_only baseline) (\<lambda>records.
     \<lambda>m. (m, bind_res (requires
       [(m_repo m = before_state, ''shared repository content, index, or generated navigation changed''),
        (m_image m = before_image, ''shared fs.img changed'')]) (\<lambda>_. Inr records))))))))"

text \<open>The exit status; an exception that \<open>main\<close> does not catch is passed on.\<close>

definition cow_main :: "host \<Rightarrow> bool \<Rightarrow> bool \<Rightarrow> bool \<Rightarrow> (machine, int) act" where
  "cow_main h static_only has_candidate has_report m =
     (case cow_run h static_only has_candidate has_report m of
        (m', Inr _) \<Rightarrow> (m', Inr 0)
      | (m', Inl (LabError _)) \<Rightarrow> (m', Inr 1)
      | (m', Inl OSError) \<Rightarrow> (m', Inr 1)
      | (m', Inl e) \<Rightarrow> (m', Inl e))"

end
