(* ===== verification/CowRunProps.thy ===== *)
theory CowRunProps
  imports CowRun
begin

text \<open>
  Properties of the copy-on-write experiment: the scope of an accepted candidate patch, the dialogue
  with the emulator, and the cleanup of the source tree after every outcome.
\<close>

section \<open>The dialogue with the emulator\<close>

text \<open>The chunks \<open>cs\<close> make the marker appear after the starting position, and no shorter prefix of them does.\<close>

definition arrives :: "string \<Rightarrow> nat \<Rightarrow> string \<Rightarrow> string list \<Rightarrow> bool" where
  "arrives marker start out cs \<longleftrightarrow> contains (drop start (out @ concat (map remove_cr cs))) marker \<and>
     list_all (\<lambda>k. \<not> contains (drop start (out @ concat (map remove_cr (take k cs)))) marker) [0..<length cs]"

lemma arrives_simps:
  "arrives marker start out [] \<longleftrightarrow> contains (drop start out) marker"
  "arrives marker start out (c # cs) \<longleftrightarrow> \<not> contains (drop start out) marker \<and> arrives marker start (out @ remove_cr c) cs"
proof -
  show "arrives marker start out [] \<longleftrightarrow> contains (drop start out) marker" by (simp add: arrives_def)
  have "[0..<Suc (length cs)] = 0 # map Suc [0..<length cs]" by (simp only: upt_conv_Cons [OF zero_less_Suc] map_Suc_upt)
  then show "arrives marker start out (c # cs) \<longleftrightarrow> \<not> contains (drop start out) marker \<and> arrives marker start (out @ remove_cr c) cs"
    by (simp add: arrives_def list.pred_map comp_def del: upt_Suc drop_append) blast
qed

lemma chunk_split:
  "(\<exists>cs. Chunk c # es = map Chunk cs @ rest \<and> Q cs) \<longleftrightarrow> (rest = Chunk c # es \<and> Q []) \<or> (\<exists>cs. es = map Chunk cs @ rest \<and> Q (c # cs))"
proof
  assume "\<exists>cs. Chunk c # es = map Chunk cs @ rest \<and> Q cs"
  then obtain cs where "Chunk c # es = map Chunk cs @ rest" "Q cs" by blast
  then show "(rest = Chunk c # es \<and> Q []) \<or> (\<exists>cs. es = map Chunk cs @ rest \<and> Q (c # cs))" by (cases cs) auto
next
  assume "(rest = Chunk c # es \<and> Q []) \<or> (\<exists>cs. es = map Chunk cs @ rest \<and> Q (c # cs))"
  then show "\<exists>cs. Chunk c # es = map Chunk cs @ rest \<and> Q cs"
  proof (elim disjE exE conjE)
    assume "rest = Chunk c # es" "Q []"
    then show ?thesis by (intro exI [of _ "[]"]) simp
  next
    fix cs assume "es = map Chunk cs @ rest" "Q (c # cs)"
    then show ?thesis by (intro exI [of _ "c # cs"]) simp
  qed
qed

lemma quiet_split: "(\<exists>cs. Quiet # es = map Chunk cs @ rest \<and> Q cs) \<longleftrightarrow> rest = Quiet # es \<and> Q []"
  by (auto simp: Cons_eq_append_conv)

text \<open>
  C38: waiting for a marker returns exactly when the marker arrives: the result is the output with the first
  chunks of the stream that make the marker appear after the starting position, and nothing more is
  consumed; in particular the wait returns whenever the marker comes before silence and end of file.
\<close>

theorem read_until_decides:
  "read_until marker start out events = Inr (out', rest) \<longleftrightarrow>
     (\<exists>cs. events = map Chunk cs @ rest \<and> [] \<notin> set cs \<and> out' = out @ concat (map remove_cr cs) \<and> arrives marker start out cs)"
proof (induction marker start out events rule: read_until.induct)
  case (1 marker start out)
  then show ?case by (auto simp: arrives_simps)
next
  case (2 marker start out e es)
  show ?case
  proof (cases e)
    case Quiet
    then show ?thesis unfolding Quiet quiet_split by (auto simp: arrives_simps)
  next
    case (Chunk c)
    with 2 show ?thesis unfolding Chunk chunk_split by (auto simp: arrives_simps)
  qed
qed

section \<open>Outcomes of actions\<close>

text \<open>From \<open>P\<close>, a normal return establishes \<open>Q\<close> and an exception leaves \<open>R\<close>.\<close>

definition triple :: "('s \<Rightarrow> bool) \<Rightarrow> ('s, 'a) act \<Rightarrow> ('s \<Rightarrow> bool) \<Rightarrow> ('s \<Rightarrow> bool) \<Rightarrow> bool" where
  "triple P act Q R \<longleftrightarrow> (\<forall>s. P s \<longrightarrow> (case act s of (s', Inr _) \<Rightarrow> Q s' | (s', Inl _) \<Rightarrow> R s'))"

lemma triple_bind: "triple P m Q R \<Longrightarrow> (\<And>x. triple Q (f x) S R) \<Longrightarrow> triple P (bind_act m f) S R"
  unfolding triple_def bind_act_def by (fastforce split: prod.splits sum.splits)

lemma triple_ret: "triple P (ret x) P R"
  by (simp add: triple_def ret_def)

lemma triple_lift: "(\<And>s. P s \<Longrightarrow> R s) \<Longrightarrow> triple P (lift r) P R"
  by (simp add: triple_def lift_def split: sum.split)

lemma triple_conseq: "triple P act Q R \<Longrightarrow> (\<And>s. P' s \<Longrightarrow> P s) \<Longrightarrow> (\<And>s. Q s \<Longrightarrow> Q' s) \<Longrightarrow> (\<And>s. R s \<Longrightarrow> R' s) \<Longrightarrow> triple P' act Q' R'"
  unfolding triple_def by (fastforce split: prod.splits sum.splits)

text \<open>Actions that keep a condition, whatever their outcome.\<close>

definition keeps :: "('s \<Rightarrow> bool) \<Rightarrow> ('s, 'a) act \<Rightarrow> bool" where
  "keeps P act \<longleftrightarrow> triple P act P P"

lemma keeps_bind: "keeps P m \<Longrightarrow> (\<And>x. keeps P (f x)) \<Longrightarrow> keeps P (bind_act m f)"
  unfolding keeps_def by (rule triple_bind)

lemma keeps_basic: "keeps P (ret x)" "keeps P (lift r)"
  by (simp_all add: keeps_def triple_ret triple_lift)

lemma keeps_finally: "keeps P body \<Longrightarrow> keeps P final \<Longrightarrow> keeps P (finally_act body final)"
  unfolding keeps_def triple_def finally_act_def by (fastforce split: prod.splits sum.splits)

section \<open>Laws of the host\<close>

text \<open>
  What the run relies on: the programs change nothing but the tree; \<open>make clean\<close> succeeds and leaves the sources
  of the tree; other programs keep the sources; \<open>git apply\<close> is atomic, and a patch that has been applied
  can be reversed on the clean tree.
\<close>

definition framed_step :: "machine \<Rightarrow> machine \<Rightarrow> bool" where
  "framed_step m m' \<longleftrightarrow> m_scratch m' = m_scratch m \<and> m_repo m' = m_repo m \<and> m_image m' = m_image m"

definition host_laws :: "host \<Rightarrow> (sources \<Rightarrow> sources) \<Rightarrow> bool" where
  "host_laws h clean \<longleftrightarrow>
     (\<forall>t. clean (clean t) = clean t) \<and>
     (\<forall>argv m. framed_step m (fst (h_checked h argv m))) \<and>
     (\<forall>argv m. take 2 argv \<noteq> [''git'', ''apply''] \<longrightarrow> clean (m_tree (fst (h_checked h argv m))) = clean (m_tree m)) \<and>
     (\<forall>m. \<exists>out. h_checked h (make_command [''clean'']) m = (m\<lparr>m_tree := clean (m_tree m)\<rparr>, Inr out)) \<and>
     (\<forall>p m m' e. h_checked h (apply_command p False) m = (m', Inl e) \<longrightarrow> m_tree m' = m_tree m) \<and>
     (\<forall>p m m' out n. h_checked h (apply_command p False) m = (m', Inr out) \<longrightarrow> map_of (m_scratch n) p = map_of (m_scratch m) p \<longrightarrow>
        m_tree n = clean (m_tree m') \<longrightarrow> (\<exists>out. h_checked h (apply_command p True) n = (n\<lparr>m_tree := clean (m_tree m)\<rparr>, Inr out))) \<and>
     (\<forall>m. framed_step m (h_boot h m) \<and> clean (m_tree (h_boot h m)) = clean (m_tree m)) \<and>
     (\<forall>args cpus m. framed_step m (fst (h_driver h args cpus m)) \<and> clean (m_tree (fst (h_driver h args cpus m))) = clean (m_tree m))"

text \<open>
  A condition on the sources of the tree, the scratch files and the shared state.  Actions that only run
  programs other than \<open>git apply\<close> keep all such conditions.
\<close>

definition view :: "(sources \<Rightarrow> sources) \<Rightarrow> machine \<Rightarrow> sources \<times> (string, string) dict \<times> string \<times> string" where
  "view clean m = (clean (m_tree m), m_scratch m, m_repo m, m_image m)"

definition harmless :: "(sources \<Rightarrow> sources) \<Rightarrow> (machine, 'a) act \<Rightarrow> bool" where
  "harmless clean act \<longleftrightarrow> (\<forall>m. view clean (fst (act m)) = view clean m)"

lemma harmless_bind:
  assumes "harmless clean m" and "\<And>x. harmless clean (f x)"
  shows "harmless clean (bind_act m f)"
  unfolding harmless_def
proof
  fix s
  obtain s' r where s': "m s = (s', r)" by (cases "m s")
  then have "view clean s' = view clean s" using assms(1) by (metis fst_conv harmless_def)
  with s' show "view clean (fst (bind_act m f s)) = view clean s"
    using assms(2) by (cases r) (simp_all add: bind_act_def harmless_def)
qed

lemma harmless_basic: "harmless clean (ret x)" "harmless clean (lift r)" "harmless clean (checked_tree f)"
  by (simp_all add: harmless_def ret_def lift_def checked_tree_def)

lemma harmless_checked:
  assumes "host_laws h clean" and "take 2 argv \<noteq> [''git'', ''apply'']"
  shows "harmless clean (h_checked h argv)"
  using assms by (simp add: host_laws_def harmless_def view_def framed_step_def)

lemma harmless_make: "host_laws h clean \<Longrightarrow> harmless clean (h_checked h (make_command args))"
  by (rule harmless_checked) (simp_all add: make_command_def)

lemma harmless_driver: "host_laws h clean \<Longrightarrow> harmless clean (run_driver h args cpus)"
  unfolding run_driver_def
  by (intro harmless_bind) (auto simp: harmless_def view_def host_laws_def framed_step_def lift_def)

lemma harmless_dynamic:
  assumes "host_laws h clean"
  shows "harmless clean (run_dynamic h)"
  unfolding harmless_def
proof
  fix m
  have fin: "harmless clean (finally_act (lift r) (lift r'))" for r :: "'a result" and r' :: "'b result"
    by (auto simp: harmless_def finally_act_def lift_def split: sum.split)
  have "view clean (h_boot h m) = view clean m" using assms by (simp add: host_laws_def view_def framed_step_def)
  moreover have "harmless clean (bind_act (finally_act (lift (guest_session (h_guest h (h_boot h m)))) (lift (h_stop h))) (\<lambda>(trace, related).
      bind_act (run_driver h [''-q'', ''usertests''] 2) (\<lambda>quick. bind_act (run_driver h [''usertests''] 1) (\<lambda>full.
        ret \<lparr>rec_cowtrace = trace, rec_related = related, rec_quick = quick, rec_full = full\<rparr>))))"
    by (intro harmless_bind fin) (auto intro!: harmless_bind harmless_driver [OF assms] harmless_basic split: prod.split)
  ultimately show "view clean (fst (run_dynamic h m)) = view clean m"
    unfolding run_dynamic_def Let_def harmless_def by simp
qed

lemma harmless_environment:
  assumes "host_laws h clean"
  shows "harmless clean (environment_record h)"
  unfolding environment_record_def
proof (rule harmless_bind [OF harmless_make [OF assms]])
  fix database
  show "harmless clean (case tool_prefix database of
      None \<Rightarrow> lift (Inl (LabError ''cannot resolve Makefile TOOLPREFIX''))
    | Some prefix \<Rightarrow> bind_act (h_checked h [prefix @ ''gcc'', ''--version'']) (\<lambda>gcc.
         bind_act (lift (first_line gcc)) (\<lambda>compiler.
         bind_act (h_checked h [''uname'', ''-srmo'']) (\<lambda>uname.
         bind_act (h_checked h [''qemu-system-riscv64'', ''--version'']) (\<lambda>qemu_version.
         bind_act (lift (first_line qemu_version)) (\<lambda>emulator.
         bind_act (h_checked h [''make'', ''--version'']) (\<lambda>make_version.
         bind_act (lift (first_line make_version)) (\<lambda>make.
           ret (py_join ''; '' [strip_chars is_space uname, emulator, make, compiler, ''Python '' @ h_python h])))))))))"
    by (cases "tool_prefix database")
      (simp_all only: option.case, auto intro!: harmless_bind harmless_checked [OF assms] harmless_basic)
qed

section \<open>Stages of the experiment\<close>

text \<open>
  A patch that was applied and can be reversed: the sources go from \<open>before\<close> to \<open>after\<close>, and the patch file
  is still the one that was applied.
\<close>

definition reversible :: "host \<Rightarrow> (sources \<Rightarrow> sources) \<Rightarrow> string \<Rightarrow> string option \<Rightarrow> sources \<Rightarrow> sources \<Rightarrow> bool" where
  "reversible h clean p text before after \<longleftrightarrow>
     (\<forall>n. map_of (m_scratch n) p = text \<longrightarrow> m_tree n = after \<longrightarrow>
        (\<exists>out. h_checked h (apply_command p True) n = (n\<lparr>m_tree := before\<rparr>, Inr out)))"

definition stage0 :: "(sources \<Rightarrow> sources) \<Rightarrow> sources \<Rightarrow> string \<Rightarrow> string \<Rightarrow> machine \<times> locals \<Rightarrow> bool" where
  "stage0 clean tree repo img s = (case s of (m, l) \<Rightarrow>
     \<not> l_candidate l \<and> \<not> l_audit l \<and> clean (m_tree m) = tree \<and> m_repo m = repo \<and> m_image m = img)"

definition stage1 :: "host \<Rightarrow> (sources \<Rightarrow> sources) \<Rightarrow> sources \<Rightarrow> string \<Rightarrow> string \<Rightarrow> bool \<Rightarrow> machine \<times> locals \<Rightarrow> bool" where
  "stage1 h clean tree repo img flag s = (case s of (m, l) \<Rightarrow>
     l_candidate l = flag \<and> \<not> l_audit l \<and> m_repo m = repo \<and> m_image m = img \<and>
     reversible h clean ''candidate.patch'' (map_of (m_scratch m) ''candidate.patch'') tree (clean (m_tree m)))"

definition stage2 :: "host \<Rightarrow> (sources \<Rightarrow> sources) \<Rightarrow> sources \<Rightarrow> string \<Rightarrow> string \<Rightarrow> bool \<Rightarrow> machine \<times> locals \<Rightarrow> bool" where
  "stage2 h clean tree repo img flag s = (case s of (m, l) \<Rightarrow>
     l_candidate l \<and> l_audit l = flag \<and> m_repo m = repo \<and> m_image m = img \<and>
     (\<exists>mid. reversible h clean ''candidate.patch'' (map_of (m_scratch m) ''candidate.patch'') tree mid \<and>
       reversible h clean ''audit-fixture.patch'' (map_of (m_scratch m) ''audit-fixture.patch'') mid (clean (m_tree m))))"

definition stages :: "host \<Rightarrow> (sources \<Rightarrow> sources) \<Rightarrow> sources \<Rightarrow> string \<Rightarrow> string \<Rightarrow> machine \<times> locals \<Rightarrow> bool" where
  "stages h clean tree repo img s \<longleftrightarrow> stage0 clean tree repo img s \<or> stage1 h clean tree repo img True s \<or>
     stage2 h clean tree repo img True s"

lemma harmless_stages:
  assumes "harmless clean act"
  shows "keeps (stage0 clean tree repo img) (on_machine act)" "keeps (stage1 h clean tree repo img flag) (on_machine act)"
    "keeps (stage2 h clean tree repo img flag) (on_machine act)"
proof -
  have "view clean m' = view clean m" if "act m = (m', r)" for m m' r using assms that by (metis fst_conv harmless_def)
  then show "keeps (stage0 clean tree repo img) (on_machine act)" "keeps (stage1 h clean tree repo img flag) (on_machine act)"
    "keeps (stage2 h clean tree repo img flag) (on_machine act)"
    unfolding keeps_def triple_def on_machine_def stage0_def stage1_def stage2_def view_def
    by (fastforce split: prod.splits sum.splits)+
qed

lemma host_frame: "host_laws h clean \<Longrightarrow> h_checked h argv m = (m', r) \<Longrightarrow> framed_step m m'"
  unfolding host_laws_def by (metis fst_conv)

lemma apply_reversible:
  assumes "host_laws h clean" and "h_checked h (apply_command p False) m = (m', Inr out)"
  shows "reversible h clean p (map_of (m_scratch m) p) (clean (m_tree m)) (clean (m_tree m'))"
  using assms unfolding host_laws_def reversible_def by blast

lemma apply_failed:
  assumes "host_laws h clean" and "h_checked h (apply_command p False) m = (m', Inl e)"
  shows "m_tree m' = m_tree m"
  using assms unfolding host_laws_def by blast

lemma clean_again: "host_laws h clean \<Longrightarrow> clean (clean t) = clean t"
  by (simp add: host_laws_def)

lemma make_clean_done: "host_laws h clean \<Longrightarrow> make_clean h m = (m\<lparr>m_tree := clean (m_tree m)\<rparr>, Inr ())"
proof -
  assume "host_laws h clean"
  then obtain out where "h_checked h (make_command [''clean'']) m = (m\<lparr>m_tree := clean (m_tree m)\<rparr>, Inr out)"
    unfolding host_laws_def by blast
  then show ?thesis by (simp add: make_clean_def bind_act_def ret_def)
qed

lemma apply_outcome:
  "apply_patch h p reverse m = (case h_checked h (apply_command p reverse) m of (m', Inl e) \<Rightarrow> (m', Inl e) | (m', Inr _) \<Rightarrow> (m', Inr ()))"
  by (simp add: apply_patch_def bind_act_def ret_def split: prod.split sum.split)

lemma apply_candidate:
  assumes "host_laws h clean"
  shows "triple (stage0 clean tree repo img) (on_machine (apply_patch h ''candidate.patch'' False)) (stage1 h clean tree repo img False)
    (stage0 clean tree repo img)"
  unfolding triple_def
proof (intro allI impI)
  fix s assume s: "stage0 clean tree repo img s"
  obtain m l where ml: "s = (m, l)" by (cases s)
  obtain m' r where m': "h_checked h (apply_command ''candidate.patch'' False) m = (m', r)"
    by (cases "h_checked h (apply_command ''candidate.patch'' False) m")
  have frame: "framed_step m m'" using assms m' by (rule host_frame)
  show "case on_machine (apply_patch h ''candidate.patch'' False) s of (s', Inl _) \<Rightarrow> stage0 clean tree repo img s'
    | (s', Inr _) \<Rightarrow> stage1 h clean tree repo img False s'"
  proof (cases r)
    case (Inl e)
    with s m' frame apply_failed [OF assms m' [unfolded Inl]] show ?thesis
      by (simp add: ml on_machine_def apply_outcome stage0_def framed_step_def)
  next
    case (Inr out)
    with s m' frame apply_reversible [OF assms m' [unfolded Inr]] show ?thesis
      by (simp add: ml on_machine_def apply_outcome stage0_def stage1_def framed_step_def)
  qed
qed

lemma apply_audit:
  assumes "host_laws h clean"
  shows "triple (stage1 h clean tree repo img True) (on_machine (apply_patch h ''audit-fixture.patch'' False)) (stage2 h clean tree repo img False)
    (stage1 h clean tree repo img True)"
  unfolding triple_def
proof (intro allI impI)
  fix s assume s: "stage1 h clean tree repo img True s"
  obtain m l where ml: "s = (m, l)" by (cases s)
  obtain m' r where m': "h_checked h (apply_command ''audit-fixture.patch'' False) m = (m', r)"
    by (cases "h_checked h (apply_command ''audit-fixture.patch'' False) m")
  have frame: "framed_step m m'" using assms m' by (rule host_frame)
  show "case on_machine (apply_patch h ''audit-fixture.patch'' False) s of (s', Inl _) \<Rightarrow> stage1 h clean tree repo img True s'
    | (s', Inr _) \<Rightarrow> stage2 h clean tree repo img False s'"
  proof (cases r)
    case (Inl e)
    with s m' frame apply_failed [OF assms m' [unfolded Inl]] show ?thesis
      by (simp add: ml on_machine_def apply_outcome stage1_def framed_step_def)
  next
    case (Inr out)
    with s m' frame apply_reversible [OF assms m' [unfolded Inr]] show ?thesis
      by (auto simp: ml on_machine_def apply_outcome stage1_def stage2_def framed_step_def)
  qed
qed

lemma flag_candidate:
  "triple (stage1 h clean tree repo img False) (set_local (\<lambda>l. l\<lparr>l_candidate := True\<rparr>)) (stage1 h clean tree repo img True) R"
  by (auto simp: triple_def set_local_def stage1_def split: prod.split)

lemma flag_audit:
  "triple (stage2 h clean tree repo img False) (set_local (\<lambda>l. l\<lparr>l_audit := True\<rparr>)) (stage2 h clean tree repo img True) R"
  by (auto simp: triple_def set_local_def stage2_def split: prod.split)

lemma keep_stages:
  "keeps (stage0 clean tree repo img) act \<Longrightarrow> triple (stage0 clean tree repo img) act (stage0 clean tree repo img) (stages h clean tree repo img)"
  "keeps (stage1 h clean tree repo img True) act \<Longrightarrow>
     triple (stage1 h clean tree repo img True) act (stage1 h clean tree repo img True) (stages h clean tree repo img)"
  "keeps (stage2 h clean tree repo img True) act \<Longrightarrow>
     triple (stage2 h clean tree repo img True) act (stage2 h clean tree repo img True) (stages h clean tree repo img)"
  unfolding keeps_def by (erule triple_conseq; simp add: stages_def)+

lemma candidate_keeps: "keeps (stage0 clean tree repo img) (on_machine (candidate_patch h))"
proof -
  have "m_tree (fst (candidate_patch h m)) = m_tree m \<and> m_repo (fst (candidate_patch h m)) = m_repo m \<and> m_image (fst (candidate_patch h m)) = m_image m" for m
    by (simp add: candidate_patch_def bind_act_def lift_def ret_def split: sum.split)
  then show ?thesis by (auto simp: keeps_def triple_def on_machine_def stage0_def split: prod.splits sum.splits) (metis fst_conv)+
qed

lemma scratch_keeps:
  "keeps (stage1 h clean tree repo img flag) (on_machine (\<lambda>m. (m\<lparr>m_scratch := dput ''audit-fixture.patch'' text (m_scratch m)\<rparr>, Inr ())))"
  by (auto simp: keeps_def triple_def on_machine_def stage1_def split: prod.split)

lemma experiment_stages:
  assumes "host_laws h clean"
  shows "triple (stage0 clean tree repo img) (cow_experiment h static_only) (stages h clean tree repo img) (stages h clean tree repo img)"
proof -
  let ?none = "stage0 clean tree repo img" and ?one = "stage1 h clean tree repo img" and ?two = "stage2 h clean tree repo img"
  let ?any = "stages h clean tree repo img"
  note keep0 = keep_stages(1) [where h = h] and keep1 = keep_stages(2) and keep2 = keep_stages(3)
  note harmless = harmless_stages [OF harmless_make [OF assms]] harmless_stages [OF harmless_dynamic [OF assms]]
    harmless_stages [OF harmless_basic(3)]
  have cand: "triple ?none (on_machine (apply_patch h ''candidate.patch'' False)) (?one False) ?any"
    by (rule triple_conseq [OF apply_candidate [OF assms]]) (auto simp: stages_def)
  have audit: "triple (?one True) (on_machine (apply_patch h ''audit-fixture.patch'' False)) (?two False) ?any"
    by (rule triple_conseq [OF apply_audit [OF assms]]) (auto simp: stages_def)
  have fin: "triple P (ret x) ?any ?any" if "\<And>s. P s \<Longrightarrow> ?any s" for P and x :: "cow_records option"
    using that by (simp add: triple_def ret_def)
  show ?thesis
  proof (cases static_only)
    case True
    show ?thesis unfolding cow_experiment_def if_P [OF True]
      by (rule triple_bind [OF keep0 [OF harmless(1)]], rule fin) (simp add: stages_def)
  next
    case False
    show ?thesis unfolding cow_experiment_def if_not_P [OF False]
      apply (rule triple_bind [OF keep0 [OF candidate_keeps]])
      apply (rule triple_bind [OF keep0 [OF keeps_basic(2)]])
      apply (rule triple_bind [OF cand])
      apply (rule triple_bind [OF flag_candidate])
      apply (rule triple_bind [OF keep1 [OF harmless(8)]])
      apply (rule triple_bind [OF keep1 [OF keeps_basic(2)]])
      apply (rule triple_bind [OF keep1 [OF scratch_keeps]])
      apply (rule triple_bind [OF audit])
      apply (rule triple_bind [OF flag_audit])
      apply (rule triple_bind [OF keep2 [OF harmless(9)]])
      apply (rule triple_bind [OF keep2 [OF harmless(3)]])
      apply (rule triple_bind [OF keep2 [OF harmless(6)]])
      apply (rule fin)
      apply (simp add: stages_def)
      done
  qed
qed

lemma reverse_done:
  assumes "reversible h clean p (map_of (m_scratch m) p) before (m_tree m)"
  shows "apply_patch h p True m = (m\<lparr>m_tree := before\<rparr>, Inr ())"
  using assms by (auto simp: reversible_def apply_outcome)

lemma cleanup_done:
  assumes laws: "host_laws h clean" and base: "clean tree = tree" and s: "stages h clean tree repo img (m, l)"
  shows "cleanup h tree (m, l) = ((m\<lparr>m_tree := tree\<rparr>, l), Inr ())"
proof -
  note clean_steps = make_clean_done [OF laws] clean_again [OF laws]
  note steps = cleanup_def finally_act_def bind_act_def when_act_def on_machine_def checked_tree_def dict_eq_def list_all_iff
  consider "stage0 clean tree repo img (m, l)" | "stage1 h clean tree repo img True (m, l)" | "stage2 h clean tree repo img True (m, l)"
    using s by (auto simp: stages_def)
  then show ?thesis
  proof cases
    case 1
    then show ?thesis by (simp add: steps clean_steps base stage0_def)
  next
    case 2
    then have "apply_patch h ''candidate.patch'' True (m\<lparr>m_tree := clean (m_tree m)\<rparr>) = (m\<lparr>m_tree := tree\<rparr>, Inr ())"
      by (subst reverse_done) (auto simp: stage1_def)
    with 2 show ?thesis by (simp add: steps clean_steps base stage1_def)
  next
    case 3
    then obtain mid where mid: "reversible h clean ''candidate.patch'' (map_of (m_scratch m) ''candidate.patch'') tree mid"
      "reversible h clean ''audit-fixture.patch'' (map_of (m_scratch m) ''audit-fixture.patch'') mid (clean (m_tree m))"
      by (auto simp: stage2_def)
    have "apply_patch h ''audit-fixture.patch'' True (m\<lparr>m_tree := clean (m_tree m)\<rparr>) = (m\<lparr>m_tree := mid\<rparr>, Inr ())"
      "apply_patch h ''candidate.patch'' True (m\<lparr>m_tree := mid\<rparr>) = (m\<lparr>m_tree := tree\<rparr>, Inr ())"
      using mid by (auto simp: reverse_done)
    with 3 show ?thesis by (simp add: steps clean_steps base stage2_def)
  qed
qed

section \<open>The run restores the source tree\<close>

definition prepared :: "host \<Rightarrow> sources \<Rightarrow> (machine, string) act" where
  "prepared h tree m = bind_act (checked_tree analyze_baseline) (\<lambda>_. environment_record h) (m\<lparr>m_tree := tree\<rparr>)"

lemma prepared_stage0:
  assumes "host_laws h clean" and "clean tree = tree" and "prepared h tree m = (m', r)"
  shows "stage0 clean tree (m_repo m) (m_image m) (m', \<lparr>l_candidate = False, l_audit = False\<rparr>)"
proof -
  have "harmless clean (bind_act (checked_tree analyze_baseline) (\<lambda>_. environment_record h))"
    by (intro harmless_bind harmless_basic harmless_environment [OF assms(1)])
  then have "view clean m' = view clean (m\<lparr>m_tree := tree\<rparr>)" using assms(3) by (metis fst_conv harmless_def prepared_def)
  then show ?thesis using assms(2) by (simp add: view_def stage0_def)
qed

lemma in_directory_prepared:
  assumes "h_archive h baseline = Inr tree" and "prepared h tree m = (m', Inr e)"
    and "finally_act (cow_experiment h static_only) (cleanup h tree) (m', \<lparr>l_candidate = False, l_audit = False\<rparr>) = ((m'', l), r)"
  shows "in_directory h static_only baseline m = (m'', r)"
proof -
  have "analyze_baseline tree = Inr ()" "environment_record h (m\<lparr>m_tree := tree\<rparr>) = (m', Inr e)"
    using assms(2) by (auto simp: prepared_def bind_act_def checked_tree_def split: sum.splits)
  then show ?thesis using assms(1,3) by (simp add: in_directory_def bind_act_def checked_tree_def)
qed


section \<open>The scope of a candidate patch\<close>

lemma diff_fold:
  assumes "fold_res diff_step ps lines = Inr qs"
  shows "set qs = set ps \<union> {new. \<exists>line \<in> set lines. \<exists>old. match_diff line = Some (old, new)}"
    and "\<forall>line \<in> set lines. \<forall>old new. match_diff line = Some (old, new) \<longrightarrow> old = new \<and> \<not> is_absolute new \<and> ''..'' \<notin> set (parts_of new)"
proof -
  have "set qs = set ps \<union> {new. \<exists>line \<in> set lines. \<exists>old. match_diff line = Some (old, new)} \<and>
    (\<forall>line \<in> set lines. \<forall>old new. match_diff line = Some (old, new) \<longrightarrow> old = new \<and> \<not> is_absolute new \<and> ''..'' \<notin> set (parts_of new))"
    using assms
  proof (induction lines arbitrary: ps)
    case (Cons line lines)
    then obtain rs where rs: "diff_step ps line = Inr rs" "fold_res diff_step rs lines = Inr qs" by (auto elim: bind_res_InrE)
    show ?case
    proof (cases "match_diff line")
      case None
      then have "rs = ps" using rs(1) by (simp add: diff_step_def)
      with Cons.IH [OF rs(2)] None show ?thesis by auto
    next
      case (Some p)
      obtain old new where p: "p = (old, new)" by (cases p)
      then have "old = new \<and> \<not> is_absolute new \<and> ''..'' \<notin> set (parts_of new) \<and> set rs = insert new (set ps)"
        using rs(1) Some by (auto simp: diff_step_def bind_res_eq_Inr require_eq_Inr split: if_splits)
      with Cons.IH [OF rs(2)] Some p show ?thesis by auto
    qed
  qed simp
  then show "set qs = set ps \<union> {new. \<exists>line \<in> set lines. \<exists>old. match_diff line = Some (old, new)}"
    and "\<forall>line \<in> set lines. \<forall>old new. match_diff line = Some (old, new) \<longrightarrow> old = new \<and> \<not> is_absolute new \<and> ''..'' \<notin> set (parts_of new)"
    by blast+
qed

lemma parts_below: "d \<noteq> [] \<Longrightarrow> d \<noteq> ''.'' \<Longrightarrow> CHR ''/'' \<notin> set d \<Longrightarrow> starts_with p (d @ ''/'') \<Longrightarrow> \<exists>rest. parts_of p = d # rest"
  by (auto simp: starts_with_iff parts_of_def split_on_append split_on_id)

lemma requires_concat: "requires (concat css) = Inr u \<longleftrightarrow> list_all (\<lambda>cs. requires cs = Inr u) css"
  by (simp add: requires_eq_Inr list_all_iff)

text \<open>
  C36: when a candidate patch is accepted, every header that the patch reader recognises names one path, which
  is in the returned list; the list is not empty; and each path in it is relative, has no parent
  component, is the makefile or lies below \<open>kernel\<close> or \<open>user\<close>, and is none of the files of the audit fixture.
\<close>

theorem candidate_patch_scope:
  assumes "validate_candidate_patch patch = Inr paths"
  shows "set paths = {new. \<exists>line \<in> set (split_on CHR 0x0A patch). \<exists>old. match_diff line = Some (old, new)} \<and> paths \<noteq> [] \<and>
    (\<forall>path \<in> set paths. (path = ''Makefile'' \<or> (\<exists>rest. parts_of path = ''kernel'' # rest \<or> parts_of path = ''user'' # rest)) \<and>
      \<not> is_absolute path \<and> ''..'' \<notin> set (parts_of path) \<and> path \<notin> set forbidden)"
proof -
  from assms have "fold_res diff_step [] (split_on CHR 0x0A patch) = Inr paths" and "paths \<noteq> []"
    and no: "list_all (\<lambda>path. path \<notin> set forbidden) paths" and scope: "requires (concat (map scope_checks paths)) = Inr ()"
    unfolding validate_candidate_patch_def patch_paths_def by (auto elim!: bind_res_InrE simp: require_eq_Inr simp del: requires.simps)
  note fold = diff_fold [OF this(1)] this(2)
  have "path = ''Makefile'' \<or> (\<exists>rest. parts_of path = ''kernel'' # rest \<or> parts_of path = ''user'' # rest)" if "path \<in> set paths" for path
  proof -
    have "starts_with path ''kernel/'' \<or> starts_with path ''user/'' \<or> path = ''Makefile''"
      using scope that by (auto simp: requires_concat list_all_iff scope_checks_def bind_res_eq_Inr require_eq_Inr)
    then show ?thesis using parts_below [of "''kernel''" path] parts_below [of "''user''" path] by auto
  qed
  moreover have "\<not> is_absolute path \<and> ''..'' \<notin> set (parts_of path)" if "path \<in> set paths" for path using fold that by auto
  ultimately show ?thesis using fold no unfolding list_all_iff by simp
qed

text \<open>
  C37: the patch reader does not recognise a header whose paths are quoted, as git writes them for names with
  special or non-ASCII bytes: such a header can be added to an accepted patch, whatever file it names, and
  the patch is still accepted with the same paths.
\<close>

theorem quoted_header_ignored:
  assumes "validate_candidate_patch patch = Inr paths" and "CHR 0x0A \<notin> set names"
    and "list_all (\<lambda>token. \<not> contains (patch @ ''\<newline>'' @ ''diff --git '' @ CHR 0x22 # names) token)
      [''COWAUDIT'', ''cowaudit'', ''cowtrace'', ''COW CLEAN'', ''COW PASS'']"
  shows "validate_candidate_patch (patch @ ''\<newline>'' @ ''diff --git '' @ CHR 0x22 # names) = Inr paths"
proof -
  let ?line = "''diff --git '' @ CHR 0x22 # names"
  have "CHR 0x0A \<notin> set ?line" using assms(2) by simp
  then have lines: "split_on CHR 0x0A (patch @ ''\<newline>'' @ ?line) = split_on CHR 0x0A patch @ [?line]"
    using split_on_append [of "CHR 0x0A" patch ?line] split_on_id [of "CHR 0x0A" ?line] by simp
  have "diff_step ps ?line = Inr ps" for ps by (simp add: diff_step_def match_diff_def starts_with_def)
  then have "fold_res diff_step [] (split_on CHR 0x0A (patch @ ''\<newline>'' @ ?line)) = fold_res diff_step [] (split_on CHR 0x0A patch)"
    unfolding lines by (cases "fold_res diff_step [] (split_on CHR 0x0A patch)") (simp_all add: fold_res_append)
  then have same: "patch_paths (patch @ ''\<newline>'' @ ?line) = patch_paths patch" by (simp only: patch_paths_def)
  from assms(1) have "patch_paths patch = Inr paths" "list_all (\<lambda>path. path \<notin> set forbidden) paths"
    "requires (concat (map scope_checks paths)) = Inr ()"
    unfolding validate_candidate_patch_def by (auto elim!: bind_res_InrE simp: require_eq_Inr simp del: requires.simps)
  moreover have "requires (map (\<lambda>token. (\<not> contains (patch @ ''\<newline>'' @ ?line) token, f token))
      [''COWAUDIT'', ''cowaudit'', ''cowtrace'', ''COW CLEAN'', ''COW PASS'']) = Inr ()" for f
    using assms(3) unfolding requires_eq_Inr list.pred_map comp_def fst_conv .
  ultimately show ?thesis unfolding validate_candidate_patch_def same bind_res_Inr
    by (simp only: require_True bind_res_Inr)
qed

section \<open>Concrete runs\<close>

definition make_patch :: string where
  "make_patch = ''diff --git a/Makefile b/Makefile''"

theorem candidate_patch_scope_witness:
  "validate_candidate_patch make_patch = Inr [''Makefile''] \<and>
   {new. \<exists>line \<in> set (split_on CHR 0x0A make_patch). \<exists>old. match_diff line = Some (old, new)} = {''Makefile''}"
proof -
  have a: "validate_candidate_patch make_patch = Inr [''Makefile'']" by code_simp
  from candidate_patch_scope [OF this] a show ?thesis by simp
qed

text \<open>The quoted names of \<open>docs/\<close> followed by a two-byte character and \<open>.md\<close>, as git prints them.\<close>

definition quoted_names :: string where
  "quoted_names = ''a/docs/'' @ [CHR 0x5C] @ ''303'' @ [CHR 0x5C] @ ''251.md'' @ [CHR 0x22, CHR 0x20, CHR 0x22] @
     ''b/docs/'' @ [CHR 0x5C] @ ''303'' @ [CHR 0x5C] @ ''251.md'' @ [CHR 0x22]"

theorem quoted_header_ignored_witness:
  "validate_candidate_patch (make_patch @ ''\<newline>'' @ ''diff --git '' @ CHR 0x22 # quoted_names) = Inr [''Makefile'']"
  by (rule quoted_header_ignored) code_simp+

theorem read_until_decides_witness:
  "read_until ''$ '' 0 [] [Chunk ''boot'', Chunk ''$ '', Quiet] = Inr (''boot$ '', [Quiet]) \<and>
   (\<exists>cs. [Chunk ''boot'', Chunk ''$ '', Quiet] = map Chunk cs @ [Quiet] \<and> arrives ''$ '' 0 [] cs)"
proof -
  have "read_until ''$ '' 0 [] [Chunk ''boot'', Chunk ''$ '', Quiet] = Inr (''boot$ '', [Quiet])" by code_simp
  with this [unfolded read_until_decides] show ?thesis by blast
qed

text \<open>
  A host on which every program succeeds: a patch is applied by adding an entry to the tree and reversed by
  removing it.  The tree has the anchors of the baseline, and the candidate lacks the adapter functions.
\<close>

definition demo_tree :: sources where
  "demo_tree =
     [(''kernel/riscv.h'', ''PTE_V PTE_R PTE_W PTE_X PTE_U PTE_FLAGS sfence_vma''),
      (''kernel/kalloc.c'', ''kinit( freerange( kalloc( kfree(''),
      (''kernel/vm.c'', ''walk( mappages( uvmcopy( uvmunmap( uvmfree( copyout( copyin(''),
      (''kernel/proc.c'', ''freeproc( kfork( proc_freepagetable(''),
      (''kernel/trap.c'', ''usertrap(''),
      (''kernel/exec.c'', ''kexec(''),
      (''kernel/pipe.c'', ''piperead(''),
      (''user/usertests.c'', ''forktest( copyout( lazy_copy( sbrkfail('')]"

definition demo_checked :: "string list \<Rightarrow> (machine, string) act" where
  "demo_checked argv m =
     (if take 2 argv = [''git'', ''apply''] then
        (if length argv = 7 then (m\<lparr>m_tree := tl (m_tree m)\<rparr>, Inr []) else (m\<lparr>m_tree := (''patched'', []) # m_tree m\<rparr>, Inr []))
      else (m, Inr (if argv = [''make'', ''-pn''] then ''TOOLPREFIX := riscv-'' else ''1.0'')))"

definition demo_host :: host where
  "demo_host = \<lparr>h_baseline = Inr ''0'', h_checked = demo_checked, h_archive = (\<lambda>_. Inr demo_tree), h_audit = [], h_outside = True,
     h_exists = True, h_candidate = CandFile make_patch, h_report_outside = True, h_boot = (\<lambda>m. m), h_guest = (\<lambda>_ _. []),
     h_stop = Inr (), h_driver = (\<lambda>_ _ m. (m, Inr (Some 0, []))), h_python = ''3''\<rparr>"

lemma demo_laws: "host_laws demo_host (\<lambda>t. t)"
  unfolding host_laws_def demo_host_def host.select_convs
  by (auto simp: demo_checked_def framed_step_def make_command_def apply_command_def)

definition demo_machine :: machine where
  "demo_machine = \<lparr>m_tree = [], m_scratch = [], m_repo = ''r'', m_image = ''i''\<rparr>"

lemma demo_prepared: "prepared demo_host demo_tree demo_machine = (demo_machine\<lparr>m_tree := demo_tree\<rparr>, Inr ''1.0; 1.0; 1.0; 1.0; Python 3'')"
  by code_simp


end
