(* ===== verification/Recovery.thy ===== *)
theory Recovery
  imports Fsck
begin

text \<open>
  The crash and restart experiments of the recovery project (\<open>resources/recovery/run-project.py\<close>): the expected
  contents of the home blocks, the state of the log, the checks of a crash image, the four crash points
  with two restarts each, and the synthetic tears.  The emulator and the digest function are arguments.
\<close>

section \<open>Constants\<close>

definition REC_FSSIZE :: nat where "REC_FSSIZE = 2000"
definition HOME_BLOCKS :: "nat list" where "HOME_BLOCKS = [1990, 1991]"

datatype home_state = Before | After | Mixed

record crash_point =
  cp_case :: string
  cp_id :: nat
  cp_name :: string
  cp_final :: home_state
  cp_header :: int
  cp_seen :: nat

definition POINTS :: "crash_point list" where
  "POINTS =
     [\<lparr>cp_case = ''crash-10-log-data'', cp_id = 10, cp_name = ''LOG_DATA_COMPLETE'', cp_final = Before, cp_header = 0, cp_seen = 0\<rparr>,
      \<lparr>cp_case = ''crash-20-commit-header'', cp_id = 20, cp_name = ''COMMIT_HEADER_COMPLETE'', cp_final = After, cp_header = 2, cp_seen = 2\<rparr>,
      \<lparr>cp_case = ''crash-30-home-install'', cp_id = 30, cp_name = ''HOME_INSTALL_COMPLETE'', cp_final = After, cp_header = 2, cp_seen = 2\<rparr>,
      \<lparr>cp_case = ''crash-40-header-clear'', cp_id = 40, cp_name = ''HEADER_CLEAR_COMPLETE'', cp_final = After, cp_header = 0, cp_seen = 0\<rparr>]"

section \<open>Home blocks and log\<close>

definition expected_pattern :: "bool \<Rightarrow> nat \<Rightarrow> nat \<Rightarrow> bytes result" where
  "expected_pattern after index epoch =
     pack_into [Fmt_I, Fmt_I, Fmt_I] (replicate BSIZE (word_of_nat ((if after then 160 else 80) + index))) 0
       [PNat epoch, PNat (if after then 1 else 0), PNat index]"

definition expected_patterns :: "bool \<Rightarrow> nat \<Rightarrow> bytes list result" where
  "expected_patterns after epoch = map_res (\<lambda>index. expected_pattern after index epoch) [0, 1]"

definition rec_geometry :: "bytes \<Rightarrow> (nat \<times> nat) result" where
  "rec_geometry data =
     bind_res (require (length data = REC_FSSIZE * BSIZE) ''private fs.img size changed'') (\<lambda>_.
     bind_res (unpack_from (replicate 8 Fmt_I) data BSIZE) (\<lambda>values.
     let words = map as_nat values in
     bind_res (require (words ! 0 = FSMAGIC \<and> words ! 1 = REC_FSSIZE) ''private fs.img superblock changed'') (\<lambda>_.
       Inr (words ! 5, words ! 6))))"

definition rec_log_state :: "bytes \<Rightarrow> (int \<times> nat list \<times> bytes list) result" where
  "rec_log_state data =
     bind_res (rec_geometry data) (\<lambda>(logstart, _).
     bind_res (unpack_from [Fmt_i] data (logstart * BSIZE)) (\<lambda>values.
     let count = as_int (hd values) in
     bind_res (require (0 \<le> count \<and> count \<le> int LOGBLOCKS) ''invalid live log count'') (\<lambda>_.
     bind_res (if count \<noteq> 0 then unpack_from (replicate (nat count) Fmt_I) data (logstart * BSIZE + 4) else Inr []) (\<lambda>targets.
     let payload = map (\<lambda>index. py_slice data ((logstart + 1 + index) * BSIZE) ((logstart + 2 + index) * BSIZE))
           [0..<min 2 (if count \<noteq> 0 then nat count else 2)]
     in Inr (count, map as_nat targets, payload)))))"

definition homes :: "bytes \<Rightarrow> bytes list" where
  "homes data = map (\<lambda>number. py_slice data (number * BSIZE) ((number + 1) * BSIZE)) HOME_BLOCKS"

definition classify_homes :: "bytes \<Rightarrow> nat \<Rightarrow> home_state result" where
  "classify_homes data epoch =
     bind_res (expected_patterns False epoch) (\<lambda>before.
     bind_res (expected_patterns True epoch) (\<lambda>after.
     Inr (if homes data = before then Before else if homes data = after then After else Mixed)))"

definition assert_fsck :: "(bytes \<Rightarrow> string) \<Rightarrow> bytes \<Rightarrow> bool \<Rightarrow> string \<Rightarrow> check_report result" where
  "assert_fsck sha256 data pending context =
     bind_res (check_bytes sha256 data) (\<lambda>result.
     bind_res (requires
       [(r_clean result \<and> r_recovered_clean result, context @ '': offline recovered view is inconsistent''),
        (r_log_pending result = Some pending, context @ '': offline log-pending state changed''),
        (pending \<or> r_raw_clean result, context @ '': clean-header raw image is inconsistent'')]) (\<lambda>_.
       Inr result))"

definition owned_step :: "bytes \<Rightarrow> geometry \<Rightarrow> nat list \<times> diags \<Rightarrow> inode \<Rightarrow> (nat list \<times> diags) result" where
  "owned_step data layout st inode =
     (case st of (owned, diagnostics) \<Rightarrow>
      bind_res (inode_blocks data layout inode diagnostics) (\<lambda>(refs, diagnostics).
        Inr (owned @ map (\<lambda>(kind, index, address). address) refs, diagnostics)))"

definition verify_home_blocks_free :: "bytes \<Rightarrow> unit result" where
  "verify_home_blocks_free data =
     bind_res (parse_geometry data {}) (\<lambda>(layout, diagnostics).
     (case layout of
        None \<Rightarrow> require False ''cannot verify fixture home-block ownership''
      | Some layout \<Rightarrow>
          bind_res (require (diagnostics = {}) ''cannot verify fixture home-block ownership'') (\<lambda>_.
          bind_res (parse_inodes data layout diagnostics) (\<lambda>(inodes, diagnostics).
          bind_res (fold_res (owned_step data layout) ([], diagnostics) (dvalues inodes)) (\<lambda>(owned, diagnostics).
          bind_res (if diagnostics = {} then
              fold_res (\<lambda>ok number. if \<not> ok then Inr False
                else if number \<in> set owned then Inr False
                else bind_res (bitmap_bit data layout number) (\<lambda>b. Inr (\<not> b))) True HOME_BLOCKS
            else Inr False) (\<lambda>free.
          require free ''fixture home blocks are not free and unreferenced''))))))"

section \<open>Markers\<close>

datatype piece = PLit string | PDigits | PName

fun match_pieces :: "piece list \<Rightarrow> string \<Rightarrow> string list option" where
  "match_pieces [] s = (if s = [] then Some [] else None)"
| "match_pieces (PLit l # ps) s = (if starts_with s l then match_pieces ps (drop (length l) s) else None)"
| "match_pieces (PDigits # ps) s =
     (let w = takeWhile is_digit s in if w = [] then None
      else map_option ((#) w) (match_pieces ps (drop (length w) s)))"
| "match_pieces (PName # ps) s =
     (let w = takeWhile (\<lambda>c. 65 \<le> (of_char c :: int) \<and> (of_char c :: int) \<le> 90 \<or> c = CHR ''_'') s in if w = [] then None
      else map_option ((#) w) (match_pieces ps (drop (length w) s)))"

definition CRASH_RE :: "piece list" where
  "CRASH_RE = [PLit ''RECOVERY CRASH abi=1 point='', PName, PLit '' hart='', PDigits, PLit '' epoch='', PDigits, PLit '' count='', PDigits,
     PLit '' left='', PDigits, PLit '' right='', PDigits, PLit '' fired=1'']"

definition REPLAY_RE :: "piece list" where
  "REPLAY_RE = [PLit ''RECOVERY REPLAY abi=1 seen_n='', PDigits, PLit '' installed='', PDigits, PLit '' cleared=1 left='', PDigits,
     PLit '' right='', PDigits]"

text \<open>
  \<open>findall\<close> of a pattern that is anchored at both ends of a line.  The kernel prints ASCII, so that the
  class of digits is that of the decimal digits.  Every repetition is followed by a character outside its class or by the end of
  the line, so that the longest match is the only one.
\<close>

definition findall :: "piece list \<Rightarrow> string \<Rightarrow> string list list" where
  "findall pattern transcript = List.map_filter (match_pieces pattern) (split_on CHR 0x0A transcript)"

text \<open>\<open>search(transcript).group(0)\<close>: the first match, or an exception when there is none.\<close>

definition search :: "piece list \<Rightarrow> string \<Rightarrow> string result" where
  "search pattern transcript =
     (case find (\<lambda>line. match_pieces pattern line \<noteq> None) (split_on CHR 0x0A transcript) of
        None \<Rightarrow> Inl AttributeError
      | Some line \<Rightarrow> Inr line)"

definition parse_replay :: "string \<Rightarrow> nat \<Rightarrow> string \<Rightarrow> (nat \<times> nat) result" where
  "parse_replay transcript seen context =
     (let matches = findall REPLAY_RE transcript in
      bind_res (require (length matches = 1) (context @ '': replay marker count changed'')) (\<lambda>_.
      let found = map read_nat (matches ! 0) in
      bind_res (require (found = [seen, seen, HOME_BLOCKS ! 0, HOME_BLOCKS ! 1]) (context @ '': replay marker changed'')) (\<lambda>_.
        Inr (found ! 0, found ! 1))))"

section \<open>The emulator\<close>

text \<open>
  What one read of the console yields within its second: nothing, or a chunk; an empty chunk is end of
  file.  The emulator is given by what its console yields after the commands sent so far, up to the
  deadline of the wait, and by the image file it leaves when it is closed or killed.
\<close>

datatype console_event = NotReady | Ready string

record emulator =
  em_console :: "bytes \<Rightarrow> string list \<Rightarrow> console_event list"
  em_image :: "bytes \<Rightarrow> string list \<Rightarrow> bytes"

record console =
  co_output :: string
  co_pending :: "console_event list"

definition console_read :: "string \<Rightarrow> console_event \<Rightarrow> string result" where
  "console_read out e =
     (case e of
        NotReady \<Rightarrow> Inr out
      | Ready chunk \<Rightarrow> bind_res (require (chunk \<noteq> []) ''QEMU output closed'') (\<lambda>_. Inr (out @ remove_cr chunk)))"

fun wait_for :: "string \<Rightarrow> nat \<Rightarrow> string \<Rightarrow> console_event list \<Rightarrow> console result" where
  "wait_for marker start out [] =
     (if contains (drop start out) marker then Inr \<lparr>co_output = out, co_pending = []\<rparr> else Inl (LabError ''QEMU watchdog waiting''))"
| "wait_for marker start out (e # es) =
     (if contains (drop start out) marker then Inr \<lparr>co_output = out, co_pending = e # es\<rparr>
      else bind_res (console_read out e) (\<lambda>out. wait_for marker start out es))"

definition start_qemu :: "emulator \<Rightarrow> bytes \<Rightarrow> console result" where
  "start_qemu em img = wait_for ''$ '' 0 [] (em_console em img [])"

definition command_until :: "emulator \<Rightarrow> bytes \<Rightarrow> console \<Rightarrow> string \<Rightarrow> string \<Rightarrow> string result" where
  "command_until em img q command marker =
     (let start = length (co_output q) in
      bind_res (wait_for marker start (co_output q) (co_pending q @ em_console em img [command])) (\<lambda>q.
        Inr (drop start (co_output q))))"

definition boot :: "emulator \<Rightarrow> bytes \<Rightarrow> nat \<Rightarrow> string \<Rightarrow> (string \<times> bytes) result" where
  "boot em img seen context =
     bind_res (start_qemu em img) (\<lambda>q.
     let transcript = co_output q in
     bind_res (parse_replay transcript seen context) (\<lambda>_. Inr (transcript, em_image em img [])))"

definition crash_marker :: "string \<Rightarrow> nat \<Rightarrow> string" where
  "crash_marker name epoch =
     ''RECOVERY CRASH abi=1 point='' @ name @ '' hart=0 epoch='' @ show_nat epoch @ '' count=2 left='' @ show_nat (HOME_BLOCKS ! 0) @
     '' right='' @ show_nat (HOME_BLOCKS ! 1) @ '' fired=1'' @ [CHR 0x0A]"

definition crash :: "emulator \<Rightarrow> bytes \<Rightarrow> crash_point \<Rightarrow> nat \<Rightarrow> (string \<times> bytes) result" where
  "crash em img point epoch =
     bind_res (start_qemu em img) (\<lambda>q.
     bind_res (parse_replay (co_output q) 0 (cp_case point @ '' initial boot'')) (\<lambda>_.
     let command = ''recoverycase '' @ cp_name point @ '' '' @ show_nat epoch in
     bind_res (command_until em img q command (crash_marker (cp_name point) epoch)) (\<lambda>transcript.
     let matches = findall CRASH_RE transcript in
     bind_res (require (length matches = 1) (cp_case point @ '': crash marker count changed'')) (\<lambda>_.
     bind_res (require (hd (matches ! 0) = cp_name point \<and>
         map read_nat (tl (matches ! 0)) = [0, epoch, 2, HOME_BLOCKS ! 0, HOME_BLOCKS ! 1])
       (cp_case point @ '': crash marker changed'')) (\<lambda>_.
       Inr (transcript, em_image em img [command]))))))"

section \<open>Crash points\<close>

record fsck_digest =
  f_input_sha256 :: "string option"
  f_raw_clean :: bool
  f_recovered_clean :: bool
  f_log_pending :: "bool option"
  f_log :: "(int \<times> nat list) option"
  f_diagnostics :: "string list"

definition fsck_summary :: "check_report \<Rightarrow> fsck_digest" where
  "fsck_summary result =
     \<lparr>f_input_sha256 = (case r_input_sha256 result of None \<Rightarrow> r_raw_sha256 result | Some digest \<Rightarrow> Some digest),
      f_raw_clean = r_raw_clean result, f_recovered_clean = r_recovered_clean result, f_log_pending = r_log_pending result,
      f_log = r_log result, f_diagnostics = r_diagnostics result\<rparr>"

record crash_record =
  k_case :: string
  k_point :: string
  k_epoch :: nat
  k_crash_sha256 :: string
  k_header_n :: int
  k_targets :: "nat list"
  k_crash_home :: home_state
  k_final :: home_state
  k_replay_seen_n :: nat
  k_payload_sha256 :: "string list"
  k_home_sha256 :: "string list"
  k_crash_fsck :: fsck_digest
  k_fsck_shadow_sha256 :: "string option"

definition crash_home :: "string \<Rightarrow> home_state" where
  "crash_home name = (if name \<in> {''LOG_DATA_COMPLETE'', ''COMMIT_HEADER_COMPLETE''} then Before else After)"

definition validate_crash :: "(bytes \<Rightarrow> string) \<Rightarrow> bytes \<Rightarrow> crash_point \<Rightarrow> nat \<Rightarrow> crash_record result" where
  "validate_crash sha256 data point epoch =
     bind_res (rec_log_state data) (\<lambda>(count, targets, payload).
     bind_res (requires
       [(count = cp_header point, cp_case point @ '': log header count changed''),
        (count \<noteq> 0 \<longrightarrow> targets = HOME_BLOCKS, cp_case point @ '': log targets changed'')]) (\<lambda>_.
     bind_res (expected_patterns True epoch) (\<lambda>after.
     bind_res (require (payload = after) (cp_case point @ '': completed log payload is not exact AFTER bytes'')) (\<lambda>_.
     bind_res (classify_homes data epoch) (\<lambda>observed.
     bind_res (require (observed = crash_home (cp_name point)) (cp_case point @ '': crash-image home state changed'')) (\<lambda>_.
     bind_res (assert_fsck sha256 data (count \<noteq> 0) (cp_case point @ '' crash image'')) (\<lambda>check.
       Inr \<lparr>k_case = cp_case point, k_point = cp_name point, k_epoch = epoch, k_crash_sha256 = sha256 data, k_header_n = count,
         k_targets = targets, k_crash_home = crash_home (cp_name point), k_final = cp_final point,
         k_replay_seen_n = cp_seen point, k_payload_sha256 = map sha256 payload, k_home_sha256 = map sha256 (homes data),
         k_crash_fsck = fsck_summary check, k_fsck_shadow_sha256 = r_shadow_sha256 check\<rparr>)))))))"

text \<open>
  The two restarts after a crash: the first recovers, the second changes nothing.  The fields they
  add to the record of the crash are a record of their own.
\<close>

record restart_record =
  k_crash_marker :: string
  k_first_replay :: string
  k_second_replay :: string
  k_first_stop_sha256 :: string
  k_second_stop_sha256 :: string
  k_first_stop_fsck :: fsck_digest
  k_second_stop_fsck :: fsck_digest

text \<open>\<open>require(rec_log_state(data)[0] == 0 and classify_homes(data, epoch) == final)\<close>\<close>

definition settled :: "bytes \<Rightarrow> nat \<Rightarrow> home_state \<Rightarrow> string \<Rightarrow> unit result" where
  "settled data epoch final message =
     bind_res (rec_log_state data) (\<lambda>(count, _, _).
     bind_res (if count = 0 then bind_res (classify_homes data epoch) (\<lambda>observed. Inr (observed = final)) else Inr False)
       (\<lambda>ok. require ok message))"

definition restarts :: "(bytes \<Rightarrow> string) \<Rightarrow> emulator \<Rightarrow> string \<Rightarrow> bytes \<Rightarrow> crash_point \<Rightarrow> nat \<Rightarrow> (bytes \<times> restart_record) result" where
  "restarts sha256 em transcript data point epoch =
     bind_res (boot em data (cp_seen point) (cp_case point @ '' first recovery'')) (\<lambda>(first_transcript, recovered).
     bind_res (settled recovered epoch (cp_final point) (cp_case point @ '': first recovery did not produce exact state'')) (\<lambda>_.
     bind_res (assert_fsck sha256 recovered False (cp_case point @ '' first recovery'')) (\<lambda>first_fsck.
     bind_res (boot em recovered 0 (cp_case point @ '' idempotent restart'')) (\<lambda>(second_transcript, second).
     bind_res (assert_fsck sha256 second False (cp_case point @ '' idempotent restart'')) (\<lambda>second_fsck.
     bind_res (require (sha256 recovered = sha256 second \<and> second = recovered)
       (cp_case point @ '': second restart changed the recovered image'')) (\<lambda>_.
     bind_res (search CRASH_RE transcript) (\<lambda>crash_line.
     bind_res (search REPLAY_RE first_transcript) (\<lambda>first_line.
     bind_res (search REPLAY_RE second_transcript) (\<lambda>second_line.
       Inr (recovered, \<lparr>k_crash_marker = crash_line, k_first_replay = first_line, k_second_replay = second_line,
         k_first_stop_sha256 = sha256 recovered, k_second_stop_sha256 = sha256 second,
         k_first_stop_fsck = fsck_summary first_fsck, k_second_stop_fsck = fsck_summary second_fsck\<rparr>))))))))))"

type_synonym crash_records = "(string, crash_record \<times> restart_record) dict"
type_synonym crash_images = "(string, bytes) dict"

definition point_step :: "(bytes \<Rightarrow> string) \<Rightarrow> emulator \<Rightarrow> bytes \<Rightarrow> crash_records \<times> crash_images \<Rightarrow> nat \<times> crash_point
    \<Rightarrow> (crash_records \<times> crash_images) result" where
  "point_step sha256 em pristine st item =
     (case (st, item) of ((records, images), (sequence, point)) \<Rightarrow>
      let epoch = 0x1700 + sequence in
      bind_res (crash em pristine point epoch) (\<lambda>(transcript, crash_data).
      bind_res (validate_crash sha256 crash_data point epoch) (\<lambda>record.
      bind_res (restarts sha256 em transcript crash_data point epoch) (\<lambda>(recovered, update).
        Inr (dput (cp_case point) (record, update) records, dput (cp_case point) crash_data images)))))"

definition run_crash_points :: "(bytes \<Rightarrow> string) \<Rightarrow> emulator \<Rightarrow> bytes \<Rightarrow> (crash_records \<times> crash_images) result" where
  "run_crash_points sha256 em pristine = fold_res (point_step sha256 em pristine) ([], []) (enumerate 1 POINTS)"

section \<open>Synthetic tears\<close>

record tear_record =
  t_accepted :: bool
  t_source_sha256 :: "string option"
  t_mutated_sha256 :: string
  t_stop_sha256 :: "string list"
  t_offset :: nat
  t_length :: nat
  t_observed :: "home_state option"
  t_replay :: "string list"
  t_fsck :: "fsck_digest list"
  t_diagnostics :: "string list"

definition set_log_count :: "bytes \<Rightarrow> int \<Rightarrow> bytes result" where
  "set_log_count data count =
     bind_res (rec_geometry data) (\<lambda>(logstart, _). pack_into [Fmt_i] data (logstart * BSIZE) [PInt count])"

definition tear_header_zero :: "(bytes \<Rightarrow> string) \<Rightarrow> emulator \<Rightarrow> bytes \<Rightarrow> tear_record result" where
  "tear_header_zero sha256 em header =
     bind_res (set_log_count header 0) (\<lambda>rollback.
     bind_res (boot em rollback 0 ''header-count rollback'') (\<lambda>(transcript, rollback_data).
     bind_res (assert_fsck sha256 rollback_data False ''header-count rollback'') (\<lambda>rollback_fsck.
     bind_res (settled rollback_data 0x1702 Before ''header-count rollback did not expose rejected BEFORE state'') (\<lambda>_.
     bind_res (rec_geometry header) (\<lambda>(logstart, _).
     bind_res (search REPLAY_RE transcript) (\<lambda>line.
       Inr \<lparr>t_accepted = False, t_source_sha256 = Some (sha256 header), t_mutated_sha256 = sha256 rollback,
         t_stop_sha256 = [sha256 rollback_data], t_offset = logstart * BSIZE, t_length = 4, t_observed = Some Before,
         t_replay = [line], t_fsck = [fsck_summary rollback_fsck], t_diagnostics = []\<rparr>))))))"

text \<open>The first half of a block is overwritten with the first half of the BEFORE pattern of home block 0.\<close>

definition half_write :: "bytes \<Rightarrow> nat \<Rightarrow> nat \<Rightarrow> bytes result" where
  "half_write data offset epoch =
     bind_res (expected_pattern False 0 epoch) (\<lambda>before.
       Inr (py_slice_assign data offset (offset + BSIZE div 2) (take (BSIZE div 2) before)))"

definition tear_payload_half :: "(bytes \<Rightarrow> string) \<Rightarrow> emulator \<Rightarrow> bytes \<Rightarrow> tear_record result" where
  "tear_payload_half sha256 em header =
     bind_res (rec_geometry header) (\<lambda>(logstart, _).
     let offset = (logstart + 1) * BSIZE in
     bind_res (half_write header offset 0x1702) (\<lambda>payload_tear.
     bind_res (boot em payload_tear 2 ''log-payload half-write'') (\<lambda>(payload_transcript, payload_data).
     bind_res (check_bytes sha256 payload_data) (\<lambda>payload_fsck.
     bind_res (classify_homes payload_data 0x1702) (\<lambda>observed.
     bind_res (require (observed = Mixed) ''log-payload half-write was not rejected as MIXED'') (\<lambda>_.
     bind_res (search REPLAY_RE payload_transcript) (\<lambda>line.
       Inr \<lparr>t_accepted = False, t_source_sha256 = Some (sha256 header), t_mutated_sha256 = sha256 payload_tear,
         t_stop_sha256 = [sha256 payload_data], t_offset = offset, t_length = BSIZE div 2, t_observed = Some Mixed,
         t_replay = [line], t_fsck = [fsck_summary payload_fsck], t_diagnostics = []\<rparr>)))))))"

definition tear_home_half :: "(bytes \<Rightarrow> string) \<Rightarrow> emulator \<Rightarrow> bytes \<Rightarrow> tear_record result" where
  "tear_home_half sha256 em home =
     (let offset = HOME_BLOCKS ! 0 * BSIZE in
      bind_res (half_write home offset 0x1703) (\<lambda>home_tear.
      bind_res (boot em home_tear 2 ''home-block half-write'') (\<lambda>(home_transcript, home_data).
      bind_res (assert_fsck sha256 home_data False ''home-block half-write'') (\<lambda>home_fsck.
      bind_res (settled home_data 0x1703 After ''redo did not repair the torn home block'') (\<lambda>_.
      bind_res (search REPLAY_RE home_transcript) (\<lambda>line.
        Inr \<lparr>t_accepted = True, t_source_sha256 = Some (sha256 home), t_mutated_sha256 = sha256 home_tear,
          t_stop_sha256 = [sha256 home_data], t_offset = offset, t_length = BSIZE div 2, t_observed = Some After,
          t_replay = [line], t_fsck = [fsck_summary home_fsck], t_diagnostics = []\<rparr>))))))"

definition tear_header_restore :: "(bytes \<Rightarrow> string) \<Rightarrow> emulator \<Rightarrow> bytes \<Rightarrow> bytes \<Rightarrow> tear_record result" where
  "tear_header_restore sha256 em header clear =
     bind_res (rec_geometry clear) (\<lambda>(logstart, _).
     let header_block = py_slice header (logstart * BSIZE) ((logstart + 1) * BSIZE);
         reappeared = py_slice_assign clear (logstart * BSIZE) ((logstart + 1) * BSIZE) header_block in
     bind_res (boot em reappeared 2 ''cleared header reappears'') (\<lambda>(first_transcript, first_data).
     bind_res (assert_fsck sha256 first_data False ''cleared header reappears'') (\<lambda>first_fsck.
     bind_res (boot em first_data 0 ''cleared header idempotent restart'') (\<lambda>(second_transcript, second_data).
     bind_res (assert_fsck sha256 second_data False ''cleared header idempotent restart'') (\<lambda>second_fsck.
     bind_res (rec_log_state first_data) (\<lambda>(count, _, _).
     bind_res (require (count = 0) ''repeated redo after restored header was not idempotent'') (\<lambda>_.
     bind_res (settled second_data 0x1704 After ''repeated redo after restored header was not idempotent'') (\<lambda>_.
     bind_res (require (sha256 first_data = sha256 second_data) ''repeated redo after restored header was not idempotent'') (\<lambda>_.
     bind_res (search REPLAY_RE first_transcript) (\<lambda>first_line.
     bind_res (search REPLAY_RE second_transcript) (\<lambda>second_line.
       Inr \<lparr>t_accepted = True, t_source_sha256 = Some (sha256 clear), t_mutated_sha256 = sha256 reappeared,
         t_stop_sha256 = [sha256 first_data, sha256 second_data], t_offset = logstart * BSIZE, t_length = BSIZE,
         t_observed = Some After, t_replay = [first_line, second_line],
         t_fsck = [fsck_summary first_fsck, fsck_summary second_fsck], t_diagnostics = []\<rparr>)))))))))))"

definition tear_invalid_count :: "(bytes \<Rightarrow> string) \<Rightarrow> bytes \<Rightarrow> tear_record result" where
  "tear_invalid_count sha256 clear =
     bind_res (set_log_count clear (int LOGBLOCKS + 1)) (\<lambda>bad_count.
     bind_res (check_bytes sha256 bad_count) (\<lambda>checked.
     bind_res (require (\<not> r_clean checked \<and> list_ex (\<lambda>item. starts_with item ''E_LOG_COUNT'') (r_diagnostics checked))
       ''offline checker accepted invalid log count'') (\<lambda>_.
     bind_res (rec_geometry bad_count) (\<lambda>(logstart, _).
       Inr \<lparr>t_accepted = False, t_source_sha256 = None, t_mutated_sha256 = sha256 bad_count, t_stop_sha256 = [],
         t_offset = logstart * BSIZE, t_length = 4, t_observed = None, t_replay = [], t_fsck = [],
         t_diagnostics = r_diagnostics checked\<rparr>))))"

definition tear_invalid_target :: "(bytes \<Rightarrow> string) \<Rightarrow> bytes \<Rightarrow> tear_record result" where
  "tear_invalid_target sha256 header =
     bind_res (rec_geometry header) (\<lambda>(logstart, _).
     bind_res (pack_into [Fmt_I] header (logstart * BSIZE + 4) [PNat logstart]) (\<lambda>bad_target.
     bind_res (check_bytes sha256 bad_target) (\<lambda>checked.
     bind_res (require (\<not> r_clean checked \<and> list_ex (\<lambda>item. starts_with item ''E_LOG_TARGET'') (r_diagnostics checked))
       ''offline checker accepted a log-region target'') (\<lambda>_.
       Inr \<lparr>t_accepted = False, t_source_sha256 = None, t_mutated_sha256 = sha256 bad_target, t_stop_sha256 = [],
         t_offset = logstart * BSIZE + 4, t_length = 4, t_observed = None, t_replay = [], t_fsck = [],
         t_diagnostics = r_diagnostics checked\<rparr>))))"

definition run_tears :: "(bytes \<Rightarrow> string) \<Rightarrow> emulator \<Rightarrow> crash_images \<Rightarrow> (string, tear_record) dict result" where
  "run_tears sha256 em images =
     bind_res (dget images ''crash-20-commit-header'') (\<lambda>header.
     bind_res (dget images ''crash-30-home-install'') (\<lambda>home.
     bind_res (dget images ''crash-40-header-clear'') (\<lambda>clear.
     bind_res (tear_header_zero sha256 em header) (\<lambda>zero.
     bind_res (tear_payload_half sha256 em header) (\<lambda>payload.
     bind_res (tear_home_half sha256 em home) (\<lambda>half.
     bind_res (tear_header_restore sha256 em header clear) (\<lambda>restore.
     bind_res (tear_invalid_count sha256 clear) (\<lambda>bad_count.
     bind_res (tear_invalid_target sha256 header) (\<lambda>bad_target.
       Inr [(''header-zero'', zero), (''payload-half'', payload), (''home-half'', half), (''header-restore'', restore),
         (''invalid-count'', bad_count), (''invalid-target'', bad_target)])))))))))"

end
