(* ===== verification/RecoveryImage.thy ===== *)
theory RecoveryImage
  imports FsckProps Recovery
begin

text \<open>
  The recovery experiments against the specification of the checker: consistency does not depend on
  the log, the checks of an image in closed form, what an accepted crash image promises about the
  recovered image, and that a kernel whose restart replays the log passes the restarts after a crash.
\<close>

section \<open>Consistency does not depend on the log\<close>

definition same_files :: "geometry \<Rightarrow> bytes \<Rightarrow> bytes \<Rightarrow> bool" where
  "same_files g d d' \<longleftrightarrow> length d' = length d \<and> (\<forall>n. g_inodestart g \<le> n \<longrightarrow> n < g_size g \<longrightarrow> block d' n = block d n)"

lemma div_ceiling:
  fixes k n b :: nat
  assumes "k < n" and "0 < b"
  shows "k div b < (n + b - 1) div b"
proof -
  have "k div b \<le> (n - 1) div b" using assms(1) by (intro div_le_mono) simp
  also have "\<dots> < (n - 1 + b) div b" using assms(2) by (subst div_add_self2) simp_all
  also have "n - 1 + b = n + b - 1" using assms(1) by simp
  finally show ?thesis .
qed

lemma same_files_inode:
  assumes "geometry_ok d g" and "same_files g d d'" and "i < g_ninodes g"
  shows "inode_at d' g i = inode_at d g i"
proof -
  let ?n = "g_inodestart g + i div IPB" and ?o = "i mod IPB * 64"
  have c: "IPB = 16" "BSIZE = 1024" by (simp_all add: fsck_consts)
  have "i div IPB < (g_ninodes g + IPB - 1) div IPB" using assms(3) by (rule div_ceiling) (simp add: c)
  then have n: "?n < g_size g" using assms(1) by (auto simp: geometry_ok_def)
  have "i * 64 = (i div 16 * 16 + i mod 16) * 64" by simp
  also have "\<dots> = i div 16 * 1024 + i mod 16 * 64" by (simp only: distrib_right mult.assoc)
  finally have pos: "g_inodestart g * BSIZE + i * 64 = ?n * BSIZE + ?o" unfolding c by (simp add: distrib_right)
  have "i mod 16 < 16" by simp
  then have "?o + 64 \<le> BSIZE" unfolding c by linarith
  then have "take 64 (drop (g_inodestart g * BSIZE + i * 64) x) = take 64 (drop ?o (block x ?n))" for x
    unfolding pos by (rule take_drop_block)
  moreover have "block d' ?n = block d ?n" using assms(2) n by (simp add: same_files_def)
  moreover have "decode_all DINODE x = decode_all DINODE (take 64 x)" for x
    by (rule decode_all_take [symmetric]) (simp add: DINODE_def)
  ultimately show ?thesis unfolding inode_at_def by metis
qed

lemma same_files_simps:
  assumes "geometry_ok d g" and "same_files g d d'"
  shows "live d' g = live d g" and "is_dir d' g = is_dir d g" and "inode_table d' g = inode_table d g"
    and "indirect_entries d' g = indirect_entries d g" and "n < g_size g \<Longrightarrow> marked d' g n = marked d g n"
proof -
  note ino = same_files_inode [OF assms]
  show live: "live d' g = live d g" by (auto simp: live_def ino fun_eq_iff)
  show "is_dir d' g = is_dir d g" by (auto simp: is_dir_def live ino live_def fun_eq_iff)
  show "inode_table d' g = inode_table d g"
    unfolding inode_table_def by (intro map_cong filter_cong) (auto simp: ino)
  have blk: "block d' n = block d n" if "g_inodestart g \<le> n" "n < g_size g" for n
    using assms(2) that by (simp add: same_files_def)
  have "g_inodestart g \<le> g_data_start g" using assms(1) by (simp add: geometry_ok_def)
  then show "indirect_entries d' g = indirect_entries d g"
    by (auto simp: indirect_entries_def Let_def in_region_def blk fun_eq_iff)
  assume "n < g_size g"
  then have "n div BPB < (g_size g + BPB - 1) div BPB" by (rule div_ceiling) (simp add: fsck_consts)
  then show "marked d' g n = marked d g n"
    using assms(1) by (auto simp: marked_def blk geometry_ok_def)
qed

lemma readable_region:
  assumes "readable d g ino" and "length (i_addrs ino) = 13" and "k < required_blocks ino"
  shows "in_region g (logical_blocks d g ino ! k)"
proof -
  have "k < MAXFILE" using assms(1,3) required_cover [of ino] by (simp add: readable_def)
  then show ?thesis using assms by (intro logical_region) (auto simp: readable_def block_map_ok_def)
qed

lemma same_files_entries:
  assumes "geometry_ok d g" and "same_files g d d'" and "live d g i" and "readable d g (inode_at d g i)"
  shows "dir_entries d' g i = dir_entries d g i"
proof -
  have i: "i < g_ninodes g" using assms(3) by (simp add: live_def)
  let ?ino = "inode_at d g i"
  have l: "logical_blocks d' g = logical_blocks d g"
    by (simp add: logical_blocks_def same_files_simps [OF assms(1,2)] fun_eq_iff)
  have "block d' (logical_blocks d g ?ino ! k) = block d (logical_blocks d g ?ino ! k)" if "k < required_blocks ?ino" for k
    using readable_region [OF assms(4) _ that] assms(1,2)
    by (auto simp: same_files_def in_region_def geometry_ok_def)
  then have "file_bytes d' g ?ino = file_bytes d g ?ino"
    by (auto simp: file_bytes_def l intro!: arg_cong [where f = concat] arg_cong [where f = "take _"])
  then show ?thesis by (simp add: dir_entries_def same_files_inode [OF assms(1,2) i])
qed

lemma same_files_consistent:
  assumes g: "geometry_ok d g" and same: "same_files g d d'" and ok: "fs_consistent d g"
  shows "fs_consistent d' g"
proof -
  note ino = same_files_inode [OF g same] and S = same_files_simps [OF g same]
  have lv: "live d g i \<Longrightarrow> i < g_ninodes g" for i by (simp add: live_def)
  have refs: "inode_refs d' g = inode_refs d g" "logical_blocks d' g = logical_blocks d g"
    by (simp_all add: inode_refs_def logical_blocks_def S fun_eq_iff)
  have es: "dir_entries d' g i = dir_entries d g i" if "is_dir d g i" for i
  proof -
    have "live d g i" using that by (simp add: is_dir_def)
    moreover have "readable d g (inode_at d g i)"
    proof -
      have "i \<in> {1..<g_ninodes g}" "i_type (inode_at d g i) \<noteq> 0"
        using \<open>live d g i\<close> by (auto simp: live_def fsck_consts)
      then have "i_size (inode_at d g i) \<le> MAXFILE * BSIZE"
        using ok unfolding fs_consistent_def inodes_ok_def by blast
      then show ?thesis using ok \<open>live d g i\<close> by (simp add: fs_consistent_def readable_def block_maps_ok_def)
    qed
    ultimately show ?thesis by (rule same_files_entries [OF g same])
  qed
  have dirs: "dir_list d' g = dir_list d g" by (simp add: dir_list_def live_list_def S)
  have li: "links d' g = links d g"
    unfolding links_def dirs by (rule arg_cong [where f = concat], rule map_cong) (auto simp: dir_list_def es)
  have owned: "owned_block_list d' g = owned_block_list d g"
    by (simp add: owned_block_list_def owned_refs_def refs_of_def refs S fun_eq_iff cong: map_cong)
  have maps: "block_map_ok d' g = block_map_ok d g" by (simp add: block_map_ok_def refs fun_eq_iff)
  have root: "live d g ROOTINO" using ok by (simp add: fs_consistent_def inodes_ok_def)
  have "inodes_ok d' g" using ok root lv by (simp add: fs_consistent_def inodes_ok_def S ino)
  moreover have "block_maps_ok d' g" using ok lv by (simp add: fs_consistent_def block_maps_ok_def S ino maps)
  moreover have "bitmap_ok d' g" using ok by (simp add: fs_consistent_def bitmap_ok_def owned S)
  moreover have "\<forall>i. is_dir d' g i \<longrightarrow> dir_ok d' g i"
    using ok lv by (simp add: fs_consistent_def dir_ok_def S es) (simp add: is_dir_def ino)
  moreover have "all_reachable d' g" using ok by (simp add: fs_consistent_def all_reachable_def S li)
  moreover have "tree_like (subdirs d' g)" using ok by (simp add: fs_consistent_def subdirs_def S li)
  moreover have "dots_ok d' g" using ok unfolding fs_consistent_def dots_ok_def S li by (metis es)
  moreover have "nlink_ok d' g" using ok lv by (simp add: fs_consistent_def nlink_ok_def subdirs_def S li ino)
  ultimately show ?thesis by (simp add: fs_consistent_def)
qed

section \<open>The checks of an image\<close>

text \<open>An image with a valid layout, a well-formed log and the size of the experiments.\<close>

definition rec_image :: "bytes \<Rightarrow> geometry \<Rightarrow> bool" where
  "rec_image d g \<longleftrightarrow> parse_geometry d {} = Inr (Some g, {}) \<and> log_ok d g \<and> g_size g = REC_FSSIZE"

lemma rec_imageD:
  assumes "rec_image d g"
  shows "parse_geometry d {} = Inr (Some g, {})" and "log_ok d g" and "geometry_ok d g" and "length d = REC_FSSIZE * BSIZE"
    and "image_blocks d = REC_FSSIZE" and "g_logstart g = 2" and "g_inodestart g = 33" and "g_size g = REC_FSSIZE"
  using assms parse_geometry_Some(1) [of d "{}" g "{}"]
  by (auto simp: rec_image_def geometry_ok_def image_blocks_def LOGBLOCKS_def)

lemma rec_image_replay:
  assumes "rec_image d g"
  shows "rec_image (replay d g) g" and "log_count (replay d g) g = 0" and "replay (replay d g) g = replay d g"
  using replay_geometry [OF rec_imageD(1,2) [OF assms]] replay_header [OF rec_imageD(3,2) [OF assms]]
    replay_replay [OF rec_imageD(3,2) [OF assms]] rec_imageD(8) [OF assms]
  by (simp_all add: rec_image_def)

lemma check_bytes_accepts:
  assumes "parse_geometry d {} = Inr (Some g, {})" and "log_ok d g"
  obtains r where "check_bytes sha256 d = Inr r" and "r_clean r \<longleftrightarrow> fs_consistent (replay d g) g"
    and "r_recovered_clean r = r_clean r" and "r_raw_clean r \<longleftrightarrow> fs_consistent d g"
    and "r_log_pending r = Some (log_count d g \<noteq> 0)"
proof -
  have g: "geometry_ok d g" using parse_geometry_Some(1) [OF assms(1)] .
  let ?s = "replay d g"
  have g': "geometry_ok ?s g" using geometry_ok_length [OF g replay_correct(1) [OF g assms(2)]] .
  obtain raw where raw: "inspect_view d g = Inr raw" "v_diagnostics raw = [] \<longleftrightarrow> fs_consistent d g"
    using inspect_view_decides [OF g] by metis
  obtain rep where rep: "inspect_view ?s g = Inr rep" "v_diagnostics rep = [] \<longleftrightarrow> fs_consistent ?s g"
    using inspect_view_decides [OF g'] by metis
  obtain r where r: "check_bytes sha256 d = Inr r" using check_bytes_report by metis
  then have "r_clean r \<longleftrightarrow> fs_consistent ?s g" "r_recovered_clean r = r_clean r" "r_raw_clean r \<longleftrightarrow> fs_consistent d g"
    "r_log_pending r = Some (log_count d g \<noteq> 0)"
    using raw(2) rep(2) by (auto simp: check_bytes_def assms(1) parse_log_accepts(1) [OF g assms(2)] raw(1) rep(1) Let_def)
  then show ?thesis by (rule that [OF r])
qed

lemma assert_fsck_accepts:
  assumes "rec_image d g"
  shows "(\<exists>r. assert_fsck sha256 d pending ctx = Inr r) \<longleftrightarrow>
    fs_consistent (replay d g) g \<and> pending = (log_count d g \<noteq> 0) \<and> (pending \<or> fs_consistent d g)"
proof -
  obtain r where "check_bytes sha256 d = Inr r" and "r_clean r \<longleftrightarrow> fs_consistent (replay d g) g"
    and "r_recovered_clean r = r_clean r" and "r_raw_clean r \<longleftrightarrow> fs_consistent d g"
    and "r_log_pending r = Some (log_count d g \<noteq> 0)"
    by (rule check_bytes_accepts [OF rec_imageD(1,2) [OF assms]])
  then show ?thesis by (auto simp: assert_fsck_def result_simps)
qed

lemma assert_fsck_geometry:
  assumes "assert_fsck sha256 d pending ctx = Inr r"
  obtains g where "parse_geometry d {} = Inr (Some g, {})" and "log_ok d g"
proof -
  obtain c where "check_bytes sha256 d = Inr c"
    and "r_clean c \<longleftrightarrow> (\<exists>g. parse_geometry d {} = Inr (Some g, {}) \<and> log_ok d g \<and> fs_consistent (replay d g) g)"
    by (rule check_bytes_report [of sha256 d])
  then show ?thesis using assms that by (auto simp: assert_fsck_def result_simps)
qed

lemma unpack_super: "2 * BSIZE \<le> length d \<Longrightarrow> unpack_from (replicate 8 Fmt_I) d BSIZE = Inr (map (\<lambda>k. PNat (super_word d k)) [0..<8])"
  using SUPER_values [of d] by (simp add: SUPER_def super_word_def)

lemma rec_geometry_eq:
  "rec_geometry d = Inr (l, i) \<longleftrightarrow>
     length d = REC_FSSIZE * BSIZE \<and> super_word d 0 = FSMAGIC \<and> super_word d 1 = REC_FSSIZE \<and> l = super_word d 5 \<and> i = super_word d 6"
proof (cases "length d = REC_FSSIZE * BSIZE")
  case True
  then have "2 * BSIZE \<le> length d" by (simp add: REC_FSSIZE_def)
  moreover have "[0..<8] = [0, 1, 2, 3, 4, 5, 6, 7::nat]" by (simp add: upt_rec)
  ultimately show ?thesis using True by (auto simp: rec_geometry_def unpack_super result_simps Let_def)
next
  case False
  then show ?thesis by (simp add: rec_geometry_def require_def)
qed

lemma parse_geometry_words:
  assumes "parse_geometry d {} = Inr (Some g, {})"
  shows "super_word d 0 = FSMAGIC" and "super_word d 1 = g_size g" and "super_word d 5 = g_logstart g"
    and "super_word d 6 = g_inodestart g"
  using assms parse_geometry_Some(4) [OF assms] by (auto simp: parse_geometry_eq Let_def split: if_splits)

lemma rec_image_geometry: "rec_image d g \<Longrightarrow> rec_geometry d = Inr (2, 33)"
  using parse_geometry_words [OF rec_imageD(1)] by (simp add: rec_geometry_eq rec_imageD)

lemma unpack_from_block:
  assumes "n < image_blocks d" and "off + calcsize fmt \<le> BSIZE"
  shows "unpack_from fmt d (n * BSIZE + off) = unpack_from fmt (block d n) off"
proof -
  have "n * BSIZE + BSIZE \<le> length d" using assms(1) by (rule block_bound)
  moreover have "decode_all fmt (drop (n * BSIZE + off) d) = decode_all fmt (drop off (block d n))"
    using take_drop_block [OF assms(2), of n d] by (metis decode_all_take order.refl)
  ultimately show ?thesis using assms by (simp add: unpack_from_def)
qed

definition payload_blocks :: "bytes \<Rightarrow> int \<Rightarrow> bytes list" where
  "payload_blocks d n = map (\<lambda>i. block d (3 + i)) [0..<min 2 (if n \<noteq> 0 then nat n else 2)]"

lemma rec_image_log_state:
  assumes "rec_image d g"
  shows "rec_log_state d = Inr (log_count d g, log_targets d g, payload_blocks d (log_count d g))"
proof -
  note I = rec_imageD [OF assms]
  have c: "0 \<le> log_count d g" "log_count d g \<le> int LOGBLOCKS" using I(2) by (simp_all add: log_ok_def)
  have l: "2 < image_blocks d" by (simp add: I(5) REC_FSSIZE_def)
  have n: "nat (log_count d g) \<le> 30" using c by (simp add: LOGBLOCKS_def)
  have h: "unpack_from [Fmt_i] d (2 * BSIZE) = Inr [PInt (log_count d g)]"
    using unpack_from_block [OF l, of 0 "[Fmt_i]"] log_header_count [OF I(3)] by (simp add: I(6) BSIZE_def)
  have t: "unpack_from (replicate (nat (log_count d g)) Fmt_I) d (2 * BSIZE + 4) = Inr (map PNat (log_targets d g))"
    using unpack_from_block [OF l, of 4 "replicate (nat (log_count d g)) Fmt_I"] log_header_targets [OF I(3) c] n
    by (simp add: I(6) BSIZE_def)
  have p: "py_slice d ((3 + i) * BSIZE) ((4 + i) * BSIZE) = block d (3 + i)" for i
    by (simp add: block_def Let_def algebra_simps)
  have z: "log_count d g = 0 \<Longrightarrow> log_targets d g = []" by (simp add: log_targets_def)
  show ?thesis
    unfolding rec_log_state_def rec_image_geometry [OF assms] bind_res_Inr prod.case h Let_def list.sel as_int.simps
    using c z by (auto simp: t p payload_blocks_def)
qed

lemma homes_blocks: "homes d = [block d 1990, block d 1991]"
  by (simp add: homes_def HOME_BLOCKS_def block_def Let_def)

section \<open>Patterns\<close>

definition pattern :: "bool \<Rightarrow> nat \<Rightarrow> nat \<Rightarrow> bytes" where
  "pattern after index epoch =
     le_bytes 4 epoch @ le_bytes 4 (of_bool after) @ le_bytes 4 index @
     replicate (BSIZE - 12) (word_of_nat ((if after then 160 else 80) + index))"

definition patterns :: "bool \<Rightarrow> nat \<Rightarrow> bytes list" where
  "patterns after epoch = [pattern after 0 epoch, pattern after 1 epoch]"

lemma length_pattern [simp]: "length (pattern after index epoch) = BSIZE"
  by (simp add: pattern_def BSIZE_def)

lemma expected_pattern_eq:
  "index < 2 ^ 32 \<Longrightarrow> expected_pattern after index epoch = (if epoch < 2 ^ 32 then Inr (pattern after index epoch) else Inl StructError)"
  by (auto simp: expected_pattern_def pack_into_def pattern_def py_slice_assign_def BSIZE_def)

lemma expected_patterns_eq:
  "expected_patterns after epoch = (if epoch < 2 ^ 32 then Inr (patterns after epoch) else Inl StructError)"
  by (simp add: expected_patterns_def expected_pattern_eq patterns_def)

text \<open>The two states differ in every byte behind the three words.\<close>

lemma pattern_nth:
  assumes "12 \<le> k" and "k < BSIZE"
  shows "pattern after index epoch ! k = word_of_nat ((if after then 160 else 80) + index)"
proof -
  let ?h = "le_bytes 4 epoch @ le_bytes 4 (of_bool after) @ le_bytes 4 index"
  have "(?h @ replicate (BSIZE - 12) b) ! k = b" for b using assms by (subst nth_append) simp
  then show ?thesis by (simp only: pattern_def append_assoc)
qed

lemma pattern_states: "pattern False 0 e \<noteq> pattern True 0 e'"
proof -
  have "pattern False 0 e ! 12 = 80" "pattern True 0 e' ! 12 = 160"
    by (simp_all add: pattern_nth BSIZE_def)
  moreover have "(80 :: byte) \<noteq> 160" by simp
  ultimately show ?thesis by metis
qed

definition home_of :: "bytes list \<Rightarrow> nat \<Rightarrow> home_state" where
  "home_of hs epoch = (if hs = patterns False epoch then Before else if hs = patterns True epoch then After else Mixed)"

lemma classify_homes_eq: "epoch < 2 ^ 32 \<Longrightarrow> classify_homes d epoch = Inr (home_of (homes d) epoch)"
  by (simp add: classify_homes_def expected_patterns_eq home_of_def)

lemma home_of_iff: "home_of hs epoch = (if a then After else Before) \<longleftrightarrow> hs = patterns a epoch"
  using pattern_states [of epoch epoch] by (auto simp: home_of_def patterns_def)

section \<open>Accepted crash images\<close>

definition crash_image :: "bytes \<Rightarrow> geometry \<Rightarrow> crash_point \<Rightarrow> nat \<Rightarrow> bool" where
  "crash_image d g point epoch \<longleftrightarrow>
     rec_image d g \<and> epoch < 2 ^ 32 \<and> log_count d g = cp_header point \<and>
     (cp_header point \<noteq> 0 \<longrightarrow> log_targets d g = HOME_BLOCKS) \<and>
     payload_blocks d (cp_header point) = patterns True epoch \<and>
     home_of (homes d) epoch = crash_home (cp_name point) \<and>
     fs_consistent (replay d g) g \<and> (cp_header point = 0 \<longrightarrow> fs_consistent d g)"

lemma crash_image_validated:
  assumes "crash_image d g point epoch"
  shows "\<exists>r. validate_crash sha256 d point epoch = Inr r"
proof -
  have I: "rec_image d g" and e: "epoch < 2 ^ 32" and n: "log_count d g = cp_header point"
    using assms by (simp_all add: crash_image_def)
  obtain r where "assert_fsck sha256 d (log_count d g \<noteq> 0) (cp_case point @ '' crash image'') = Inr r"
    using assert_fsck_accepts [OF I, of sha256 "log_count d g \<noteq> 0"] assms by (auto simp: crash_image_def)
  then show ?thesis
    unfolding validate_crash_def rec_image_log_state [OF I] bind_res_Inr prod.case
      expected_patterns_eq classify_homes_eq [OF e]
    using assms n e by (simp add: crash_image_def result_simps)
qed

lemma log_state_geometry: "rec_log_state d = Inr x \<Longrightarrow> length d = REC_FSSIZE * BSIZE \<and> super_word d 1 = REC_FSSIZE"
  unfolding rec_log_state_def by (erule bind_res_InrE) (auto simp: rec_geometry_eq)

lemma validated_crash_image:
  assumes "validate_crash sha256 d point epoch = Inr r"
  obtains g where "crash_image d g point epoch"
proof -
  let ?n = "cp_header point"
  obtain ts p where ls: "rec_log_state d = Inr (?n, ts, p)" and t: "?n \<noteq> 0 \<longrightarrow> ts = HOME_BLOCKS"
    and pats: "expected_patterns True epoch = Inr p" and st: "classify_homes d epoch = Inr (crash_home (cp_name point))"
    and fs: "\<exists>c. assert_fsck sha256 d (?n \<noteq> 0) (cp_case point @ '' crash image'') = Inr c"
    using assms unfolding validate_crash_def by (auto simp: result_simps)
  obtain g where pg: "parse_geometry d {} = Inr (Some g, {})" and ok: "log_ok d g"
    using fs assert_fsck_geometry by metis
  have I: "rec_image d g"
    using log_state_geometry [OF ls] pg ok parse_geometry_words(2) [OF pg] by (simp add: rec_image_def)
  have e: "epoch < 2 ^ 32" and p: "p = patterns True epoch" using pats by (auto simp: expected_patterns_eq split: if_splits)
  have eq: "log_count d g = ?n" "ts = log_targets d g" "p = payload_blocks d ?n"
    using rec_image_log_state [OF I] ls by auto
  have "fs_consistent (replay d g) g \<and> (?n \<noteq> 0 \<or> fs_consistent d g)"
    using fs assert_fsck_accepts [OF I, of sha256 "?n \<noteq> 0"] by blast
  then show ?thesis
    using that [of g] I e p t st eq by (auto simp: crash_image_def classify_homes_eq [OF e])
qed

section \<open>Recovery of a crash image\<close>

lemma payload_blocks_2: "n \<in> {0, 2} \<Longrightarrow> payload_blocks d n = [block d 3, block d 4]"
  by (auto simp: payload_blocks_def upt_rec)

lemma replay_homes:
  assumes "rec_image d g"
  shows "log_targets d g = HOME_BLOCKS \<Longrightarrow> homes (replay d g) = [block d 3, block d 4]"
    and "log_targets d g = [] \<Longrightarrow> homes (replay d g) = homes d"
proof -
  note I = rec_imageD [OF assms]
  have b: "block (replay d g) n = recovered_block d g n" if "n < 2000" for n
    using replay_correct(2) [OF I(3,2), of n] that by (simp add: I(8) REC_FSSIZE_def)
  have three: "2 + 1 + 0 = (3 :: nat)" "2 + 1 + 1 = (4 :: nat)" by simp_all
  show "homes (replay d g) = [block d 3, block d 4]" if ts: "log_targets d g = HOME_BLOCKS"
  proof -
    have "log_slot d g 1990 = Some 0" "log_slot d g 1991 = Some 1"
      by (simp_all add: log_slot_def ts HOME_BLOCKS_def upt_rec)
    then show ?thesis by (simp add: homes_blocks b recovered_block_def I(6) three del: One_nat_def)
  qed
  show "log_targets d g = [] \<Longrightarrow> homes (replay d g) = homes d"
    by (simp add: homes_blocks b recovered_block_def log_slot_def I(6))
qed

lemma POINTS_cases:
  assumes "point \<in> set POINTS"
  obtains (pending) "cp_header point = 2" "cp_seen point = 2" "cp_final point = After"
    | (idle) "cp_header point = 0" "cp_seen point = 0" "cp_final point = crash_home (cp_name point)"
  using assms by (auto simp: POINTS_def crash_home_def)

lemma crash_image_recovered:
  assumes "crash_image d g point epoch" and "point \<in> set POINTS"
  shows "home_of (homes (replay d g)) epoch = cp_final point" and "nat (log_count d g) = cp_seen point"
proof -
  have I: "rec_image d g" and n: "log_count d g = cp_header point" using assms(1) by (simp_all add: crash_image_def)
  have "home_of (homes (replay d g)) epoch = cp_final point \<and> nat (log_count d g) = cp_seen point"
    using assms(2)
  proof (cases rule: POINTS_cases)
    case pending
    then have "homes (replay d g) = patterns True epoch"
      using replay_homes(1) [OF I] assms(1) by (auto simp: crash_image_def payload_blocks_2)
    then show ?thesis using pending n home_of_iff [of _ epoch True] by simp
  next
    case idle
    then have "homes (replay d g) = homes d" using replay_homes(2) [OF I] n by (simp add: log_targets_def)
    then show ?thesis using idle n assms(1) by (simp add: crash_image_def)
  qed
  then show "home_of (homes (replay d g)) epoch = cp_final point" and "nat (log_count d g) = cp_seen point" by simp_all
qed

text \<open>
  What the experiments expect of the kernel's restart: on an image with a valid layout and a
  well-formed log, the log is replayed and the marker reports the number of installed blocks.
\<close>

definition replays :: "emulator \<Rightarrow> bool" where
  "replays em \<longleftrightarrow> (\<forall>d g. rec_image d g \<longrightarrow>
     (\<exists>q. start_qemu em d = Inr q \<and> em_image em d [] = replay d g \<and>
        map (map read_nat) (findall REPLAY_RE (co_output q)) = [[nat (log_count d g), nat (log_count d g), 1990, 1991]]))"

lemma search_findall: "findall pat t \<noteq> [] \<Longrightarrow> \<exists>line. search pat t = Inr line"
proof -
  have "List.map_filter (match_pieces pat) ls \<noteq> [] \<Longrightarrow> \<exists>l. find (\<lambda>line. match_pieces pat line \<noteq> None) ls = Some l" for ls
    by (induction ls) (auto simp: List.map_filter_simps split: option.splits)
  then show "findall pat t \<noteq> [] \<Longrightarrow> \<exists>line. search pat t = Inr line"
    unfolding findall_def search_def by fastforce
qed

lemma replays_boot:
  assumes "replays em" and "rec_image d g" and "nat (log_count d g) = n"
  obtains t line where "boot em d n ctx = Inr (t, replay d g)" and "search REPLAY_RE t = Inr line"
proof -
  obtain q where q: "start_qemu em d = Inr q" "em_image em d [] = replay d g"
    "map (map read_nat) (findall REPLAY_RE (co_output q)) = [[n, n, 1990, 1991]]"
    using assms(1) [unfolded replays_def, rule_format, OF assms(2)] unfolding assms(3) by (elim exE conjE)
  let ?t = "co_output q"
  obtain m where m: "findall REPLAY_RE ?t = [m]" "map read_nat m = [n, n, 1990, 1991]" using q(3) by auto
  then have "findall REPLAY_RE ?t \<noteq> []" by simp
  then obtain line where "search REPLAY_RE ?t = Inr line" using search_findall by blast
  moreover have "boot em d n ctx = Inr (?t, replay d g)"
    by (simp add: boot_def q(1,2) parse_replay_def m HOME_BLOCKS_def)
  ultimately show ?thesis by (rule that [rotated])
qed

lemma settledI:
  assumes "rec_image d g" and "log_count d g = 0" and "epoch < 2 ^ 32" and "home_of (homes d) epoch = final"
  shows "settled d epoch final m = Inr ()"
  using assms(2,4) by (simp add: settled_def rec_image_log_state [OF assms(1)] classify_homes_eq [OF assms(3)])

lemma recovered_asserted:
  assumes "rec_image d g" and "fs_consistent (replay d g) g"
  obtains r where "assert_fsck sha256 (replay d g) False ctx = Inr r"
  using assert_fsck_accepts [OF rec_image_replay(1) [OF assms(1)], of sha256 False ctx] assms(2)
  by (auto simp: rec_image_replay [OF assms(1)])

lemma crash_image_restarts:
  assumes "crash_image d g point epoch" and "point \<in> set POINTS" and "replays em" and "search CRASH_RE t = Inr line"
  shows "\<exists>u. restarts sha256 em t d point epoch = Inr (replay d g, u)"
proof -
  have I: "rec_image d g" and e: "epoch < 2 ^ 32" and ok: "fs_consistent (replay d g) g"
    using assms(1) by (simp_all add: crash_image_def)
  note R = rec_image_replay [OF I] and F = crash_image_recovered [OF assms(1,2)]
  obtain t1 l1 where b1: "boot em d (cp_seen point) (cp_case point @ '' first recovery'') = Inr (t1, replay d g)"
    and l1: "search REPLAY_RE t1 = Inr l1" by (rule replays_boot [OF assms(3) I F(2)])
  have "nat (log_count (replay d g) g) = 0" using R(2) by simp
  then obtain t2 l2 where b2: "boot em (replay d g) 0 (cp_case point @ '' idempotent restart'') = Inr (t2, replay d g)"
    and l2: "search REPLAY_RE t2 = Inr l2" using replays_boot [OF assms(3) R(1)] R(3) by metis
  obtain r1 where "assert_fsck sha256 (replay d g) False (cp_case point @ '' first recovery'') = Inr r1"
    by (rule recovered_asserted [OF I ok])
  moreover obtain r2 where "assert_fsck sha256 (replay d g) False (cp_case point @ '' idempotent restart'') = Inr r2"
    by (rule recovered_asserted [OF I ok])
  ultimately show ?thesis
    by (simp add: restarts_def b1 b2 l1 l2 settledI [OF R(1,2) e F(1)] assms(4))
qed

end
