(* ===== verification/KernelBio.thy ===== *)
theory KernelBio
  imports FsckLog
begin

text \<open>
  The buffer cache of the kernel (\<open>kernel/bio.c\<close>, \<open>kernel/buf.h\<close>, \<open>kernel/sleeplock.c\<close>) over the disk images of
  the offline checker.  A call runs in one process between its locks: the spin lock of the cache makes
  the updates of the list atomic, and a sleep lock that is held makes the call sleep.  The circular list
  of buffers is the sequence of indices that a walk from \<open>head.next\<close> visits.  The disk is a device that
  transfers one block for a request and records the writes it has completed, in order.
\<close>

section \<open>State\<close>

definition K_MAXOPBLOCKS :: nat where "K_MAXOPBLOCKS = 10"
definition K_LOGBLOCKS :: nat where "K_LOGBLOCKS = K_MAXOPBLOCKS * 3"
definition K_NBUF :: nat where "K_NBUF = K_MAXOPBLOCKS * 3"
definition K_ROOTDEV :: nat where "K_ROOTDEV = 1"

lemmas kernel_consts = K_MAXOPBLOCKS_def K_LOGBLOCKS_def K_NBUF_def K_ROOTDEV_def

text \<open>A call ends with a panic, goes to sleep, or writes past the end of an array.\<close>

datatype kfault = Panic string | Sleeps | Overrun

record sleeplock =
  sl_locked :: bool
  sl_pid :: nat

record kbuf =
  kb_valid :: bool
  kb_dev :: nat
  kb_blockno :: nat
  kb_lock :: sleeplock
  kb_refcnt :: "32 word"
  kb_data :: bytes

record bcache =
  bc_buf :: "kbuf list"
  bc_lru :: "nat list"

record klog =
  lg_start :: nat
  lg_outstanding :: int
  lg_committing :: bool
  lg_dev :: nat
  lg_n :: int
  lg_block :: "nat list"

record kernel =
  k_cache :: bcache
  k_log :: klog
  k_pid :: nat
  k_disk :: bytes
  k_writes :: "(nat \<times> bytes) list"

type_synonym 'a kop = "kernel \<Rightarrow> kfault + 'a \<times> kernel"

definition kbind :: "'a kop \<Rightarrow> ('a \<Rightarrow> 'b kop) \<Rightarrow> 'b kop" where
  "kbind m f k = (case m k of Inl e \<Rightarrow> Inl e | Inr (x, k') \<Rightarrow> f x k')"

definition kret :: "'a \<Rightarrow> 'a kop" where
  "kret x k = Inr (x, k)"

fun kfor :: "('a \<Rightarrow> unit kop) \<Rightarrow> 'a list \<Rightarrow> unit kop" where
  "kfor f [] = kret ()"
| "kfor f (x # xs) = kbind (f x) (\<lambda>_. kfor f xs)"

definition kmodify :: "(kernel \<Rightarrow> kernel) \<Rightarrow> unit kop" where
  "kmodify f k = Inr ((), f k)"

lemma kbind_simps [simp]:
  "m k = Inr (x, k') \<Longrightarrow> kbind m f k = f x k'" "m k = Inl e \<Longrightarrow> kbind m f k = Inl e"
  by (simp_all add: kbind_def)

lemma kret_run [simp]: "kret x k = Inr (x, k)"
  by (simp add: kret_def)

lemma kmodify_run [simp]: "kmodify f k = Inr ((), f k)"
  by (simp add: kmodify_def)

section \<open>Operations\<close>

definition buf :: "kernel \<Rightarrow> nat \<Rightarrow> kbuf" where
  "buf k i = bc_buf (k_cache k) ! i"

definition upd_buf :: "nat \<Rightarrow> (kbuf \<Rightarrow> kbuf) \<Rightarrow> kernel \<Rightarrow> kernel" where
  "upd_buf i f k = k\<lparr>k_cache := (k_cache k)\<lparr>bc_buf := (bc_buf (k_cache k))[i := f (buf k i)]\<rparr>\<rparr>"

definition acquiresleep :: "nat \<Rightarrow> unit kop" where
  "acquiresleep i k =
     (if sl_locked (kb_lock (buf k i)) then Inl Sleeps
      else Inr ((), upd_buf i (\<lambda>b. b\<lparr>kb_lock := \<lparr>sl_locked = True, sl_pid = k_pid k\<rparr>\<rparr>) k))"

definition releasesleep :: "nat \<Rightarrow> unit kop" where
  "releasesleep i = kmodify (upd_buf i (\<lambda>b. b\<lparr>kb_lock := \<lparr>sl_locked = False, sl_pid = 0\<rparr>\<rparr>))"

definition holdingsleep :: "kernel \<Rightarrow> nat \<Rightarrow> bool" where
  "holdingsleep k i \<longleftrightarrow> sl_locked (kb_lock (buf k i)) \<and> sl_pid (kb_lock (buf k i)) = k_pid k"

text \<open>
  The effect of \<open>virtio_disk_rw\<close> with a device that serves each request: the sector is computed in 32
  bits; the device fails a request beyond its end, and the interrupt handler panics on a failed request.
\<close>

definition disk_rw :: "nat \<Rightarrow> bool \<Rightarrow> unit kop" where
  "disk_rw i write k =
     (let b = buf k i; sector = (kb_blockno b * (BSIZE div 512)) mod 2 ^ 32; n = sector div (BSIZE div 512) in
      if \<not> n < image_blocks (k_disk k) then Inl (Panic ''virtio_disk_intr status'')
      else if write then Inr ((), k\<lparr>k_disk := write_block n (kb_data b) (k_disk k), k_writes := k_writes k @ [(n, kb_data b)]\<rparr>)
      else Inr ((), upd_buf i (\<lambda>b. b\<lparr>kb_data := block (k_disk k) n\<rparr>) k))"

definition binit :: bcache where
  "binit = \<lparr>bc_buf = replicate K_NBUF \<lparr>kb_valid = False, kb_dev = 0, kb_blockno = 0,
              kb_lock = \<lparr>sl_locked = False, sl_pid = 0\<rparr>, kb_refcnt = 0, kb_data = replicate BSIZE 0\<rparr>,
            bc_lru = foldl (\<lambda>l i. i # l) [] [0..<K_NBUF]\<rparr>"

definition keyed :: "kernel \<Rightarrow> nat \<Rightarrow> nat \<Rightarrow> nat \<Rightarrow> bool" where
  "keyed k dev blockno i \<longleftrightarrow> kb_dev (buf k i) = dev \<and> kb_blockno (buf k i) = blockno"

definition bget :: "nat \<Rightarrow> nat \<Rightarrow> nat kop" where
  "bget dev blockno k =
     (case find (keyed k dev blockno) (bc_lru (k_cache k)) of
        Some i \<Rightarrow> kbind (kmodify (upd_buf i (\<lambda>b. b\<lparr>kb_refcnt := kb_refcnt b + 1\<rparr>))) (\<lambda>_.
                  kbind (acquiresleep i) (\<lambda>_. kret i)) k
      | None \<Rightarrow>
          (case find (\<lambda>i. kb_refcnt (buf k i) = 0) (rev (bc_lru (k_cache k))) of
             Some i \<Rightarrow> kbind (kmodify (upd_buf i (\<lambda>b. b\<lparr>kb_dev := dev, kb_blockno := blockno, kb_valid := False, kb_refcnt := 1\<rparr>))) (\<lambda>_.
                       kbind (acquiresleep i) (\<lambda>_. kret i)) k
           | None \<Rightarrow> Inl (Panic ''bget: no buffers'')))"

definition bread :: "nat \<Rightarrow> nat \<Rightarrow> nat kop" where
  "bread dev blockno = kbind (bget dev blockno) (\<lambda>i k.
     if kb_valid (buf k i) then Inr (i, k)
     else kbind (disk_rw i False) (\<lambda>_. kbind (kmodify (upd_buf i (\<lambda>b. b\<lparr>kb_valid := True\<rparr>))) (\<lambda>_. kret i)) k)"

definition bwrite :: "nat \<Rightarrow> unit kop" where
  "bwrite i k = (if \<not> holdingsleep k i then Inl (Panic ''bwrite'') else disk_rw i True k)"

definition brelse :: "nat \<Rightarrow> unit kop" where
  "brelse i k =
     (if \<not> holdingsleep k i then Inl (Panic ''brelse'')
      else kbind (releasesleep i) (\<lambda>_. kmodify (\<lambda>k.
        let k = upd_buf i (\<lambda>b. b\<lparr>kb_refcnt := kb_refcnt b - 1\<rparr>) k in
        if kb_refcnt (buf k i) = 0
        then k\<lparr>k_cache := (k_cache k)\<lparr>bc_lru := i # remove1 i (bc_lru (k_cache k))\<rparr>\<rparr>
        else k)) k)"

definition bpin :: "nat \<Rightarrow> unit kop" where
  "bpin i = kmodify (upd_buf i (\<lambda>b. b\<lparr>kb_refcnt := kb_refcnt b + 1\<rparr>))"

definition bunpin :: "nat \<Rightarrow> unit kop" where
  "bunpin i = kmodify (upd_buf i (\<lambda>b. b\<lparr>kb_refcnt := kb_refcnt b - 1\<rparr>))"

text \<open>\<open>memmove\<close> into the data of a buffer.\<close>

definition set_data :: "nat \<Rightarrow> bytes \<Rightarrow> unit kop" where
  "set_data i data = kmodify (upd_buf i (\<lambda>b. b\<lparr>kb_data := data\<rparr>))"

section \<open>Invariant and contents\<close>

text \<open>
  The state of a cache that serves one device: no block has two buffers; a buffer with data belongs to a
  block of the device; one that nobody refers to agrees with the disk; a locked one is referred to.
\<close>

definition buf_ok :: "nat \<Rightarrow> bytes \<Rightarrow> kbuf \<Rightarrow> bool" where
  "buf_ok dev d b \<longleftrightarrow>
     (kb_valid b \<longrightarrow> kb_dev b = dev \<and> kb_blockno b < image_blocks d \<and> length (kb_data b) = BSIZE \<and>
        (kb_refcnt b = 0 \<longrightarrow> kb_data b = block d (kb_blockno b))) \<and>
     (sl_locked (kb_lock b) \<longrightarrow> kb_refcnt b \<noteq> 0)"

definition unique_keys :: "nat \<Rightarrow> kernel \<Rightarrow> bool" where
  "unique_keys dev k \<longleftrightarrow> (\<forall>i < K_NBUF. \<forall>j < K_NBUF. kb_dev (buf k i) = dev \<longrightarrow> kb_dev (buf k j) = dev \<longrightarrow>
     kb_blockno (buf k i) = kb_blockno (buf k j) \<longrightarrow> i = j)"

definition cache_ok :: "nat \<Rightarrow> kernel \<Rightarrow> bool" where
  "cache_ok dev k \<longleftrightarrow>
     length (bc_buf (k_cache k)) = K_NBUF \<and> distinct (bc_lru (k_cache k)) \<and> set (bc_lru (k_cache k)) = {..<K_NBUF} \<and>
     is_image (k_disk k) \<and> image_blocks (k_disk k) \<le> 2 ^ 31 \<and> unique_keys dev k \<and>
     (\<forall>i < K_NBUF. buf_ok dev (k_disk k) (buf k i))"

text \<open>What a process that reads a block sees: the buffered data, or the disk.\<close>

definition kview :: "nat \<Rightarrow> kernel \<Rightarrow> nat \<Rightarrow> bytes" where
  "kview dev k b =
     (case find (\<lambda>i. kb_valid (buf k i) \<and> keyed k dev b i) [0..<K_NBUF] of
        None \<Rightarrow> block (k_disk k) b | Some i \<Rightarrow> kb_data (buf k i))"

section \<open>Laws of the operations\<close>

lemma upd_buf_simps [simp]:
  "k_disk (upd_buf i f k) = k_disk k" "k_log (upd_buf i f k) = k_log k" "k_pid (upd_buf i f k) = k_pid k"
  "k_writes (upd_buf i f k) = k_writes k" "bc_lru (k_cache (upd_buf i f k)) = bc_lru (k_cache k)"
  "length (bc_buf (k_cache (upd_buf i f k))) = length (bc_buf (k_cache k))"
  by (simp_all add: upd_buf_def)

lemma buf_upd_buf: "i < length (bc_buf (k_cache k)) \<Longrightarrow> buf (upd_buf i f k) j = (if j = i then f (buf k i) else buf k j)"
  by (simp add: buf_def upd_buf_def)

lemma buf_updates [simp]:
  "buf (k\<lparr>k_disk := d\<rparr>) i = buf k i" "buf (k\<lparr>k_writes := w\<rparr>) i = buf k i" "buf (k\<lparr>k_log := l\<rparr>) i = buf k i"
  "buf (k\<lparr>k_cache := (k_cache k)\<lparr>bc_lru := lru\<rparr>\<rparr>) i = buf k i"
  by (simp_all add: buf_def)

lemma cache_okD:
  assumes "cache_ok dev k"
  shows "length (bc_buf (k_cache k)) = K_NBUF" and "set (bc_lru (k_cache k)) = {..<K_NBUF}" and "is_image (k_disk k)"
    and "image_blocks (k_disk k) \<le> 2 ^ 31" and "unique_keys dev k" and "i < K_NBUF \<Longrightarrow> buf_ok dev (k_disk k) (buf k i)"
  using assms by (simp_all add: cache_ok_def)

lemma kview_eqI:
  assumes "\<And>i. i < K_NBUF \<Longrightarrow> kb_valid (buf k i) \<Longrightarrow> keyed k dev b i \<Longrightarrow> kb_data (buf k i) = x"
    and "(\<And>i. i < K_NBUF \<Longrightarrow> kb_valid (buf k i) \<Longrightarrow> \<not> keyed k dev b i) \<Longrightarrow> block (k_disk k) b = x"
  shows "kview dev k b = x"
proof (cases "find (\<lambda>i. kb_valid (buf k i) \<and> keyed k dev b i) [0..<K_NBUF]")
  case None
  then have "kview dev k b = block (k_disk k) b" by (simp add: kview_def)
  moreover have "\<not> keyed k dev b i" if "i < K_NBUF" "kb_valid (buf k i)" for i using None that by (auto simp: find_None_iff)
  ultimately show ?thesis using assms(2) by simp
next
  case (Some i)
  then have "i < K_NBUF" "kb_valid (buf k i)" "keyed k dev b i" by (auto simp: find_Some_iff)
  with Some assms(1) show ?thesis by (simp add: kview_def)
qed

lemma kview_cached:
  assumes "cache_ok dev k" and "i < K_NBUF" and "kb_valid (buf k i)" and "keyed k dev b i"
  shows "kview dev k b = kb_data (buf k i)"
proof (rule kview_eqI)
  fix j
  assume "j < K_NBUF" "kb_valid (buf k j)" "keyed k dev b j"
  then have "j = i" using cache_okD(5) [OF assms(1)] assms(2,4) by (auto simp: unique_keys_def keyed_def)
  then show "kb_data (buf k j) = kb_data (buf k i)" by simp
qed (use assms in blast)

lemma kview_uncached:
  "(\<And>i. i < K_NBUF \<Longrightarrow> kb_valid (buf k i) \<Longrightarrow> \<not> keyed k dev b i) \<Longrightarrow> kview dev k b = block (k_disk k) b"
  by (rule kview_eqI) blast+

text \<open>A change of one buffer changes at most what is seen of its old and its new block.\<close>

lemma kview_upd_buf:
  assumes "cache_ok dev k" and "i < K_NBUF" and "cache_ok dev (upd_buf i f k)"
    and "\<not> keyed k dev b i" and "\<not> keyed (upd_buf i f k) dev b i"
  shows "kview dev (upd_buf i f k) b = kview dev k b"
proof (rule kview_eqI)
  note B = buf_upd_buf [of i k f, unfolded cache_okD(1) [OF assms(1)], OF assms(2)]
  have other: "buf (upd_buf i f k) j = buf k j" if "j \<noteq> i" for j using B that by simp
  show "kb_data (buf (upd_buf i f k) j) = kview dev k b"
    if "j < K_NBUF" "kb_valid (buf (upd_buf i f k) j)" "keyed (upd_buf i f k) dev b j" for j
  proof -
    have "j \<noteq> i" using that(3) assms(5) by blast
    then have "kb_valid (buf k j)" "keyed k dev b j" using that(2,3) other by (simp_all add: keyed_def)
    then show ?thesis using kview_cached [OF assms(1) that(1)] other [OF \<open>j \<noteq> i\<close>] by simp
  qed
  assume none: "\<And>j. j < K_NBUF \<Longrightarrow> kb_valid (buf (upd_buf i f k) j) \<Longrightarrow> \<not> keyed (upd_buf i f k) dev b j"
  have "\<not> keyed k dev b j" if "j < K_NBUF" "kb_valid (buf k j)" for j
    using none [OF that(1)] that(2) other [of j] assms(4) by (cases "j = i") (simp_all add: keyed_def)
  then show "block (k_disk (upd_buf i f k)) b = kview dev k b" by (simp add: kview_uncached)
qed

lemma cache_ok_upd_buf:
  assumes "cache_ok dev k" and "i < K_NBUF" and "buf_ok dev (k_disk k) (f (buf k i))"
    and "kb_dev (f (buf k i)) = dev \<Longrightarrow> \<forall>j < K_NBUF. j \<noteq> i \<longrightarrow> \<not> keyed k dev (kb_blockno (f (buf k i))) j"
  shows "cache_ok dev (upd_buf i f k)"
proof -
  note B = buf_upd_buf [of i k f, unfolded cache_okD(1) [OF assms(1)], OF assms(2)]
  have "unique_keys dev (upd_buf i f k)"
    unfolding unique_keys_def
  proof (intro allI impI)
    fix a c
    assume a: "a < K_NBUF" "c < K_NBUF" "kb_dev (buf (upd_buf i f k) a) = dev" "kb_dev (buf (upd_buf i f k) c) = dev"
      "kb_blockno (buf (upd_buf i f k) a) = kb_blockno (buf (upd_buf i f k) c)"
    have uk: "a = c" if "a \<noteq> i" "c \<noteq> i"
      using a that cache_okD(5) [OF assms(1)] by (simp add: B unique_keys_def)
    have "a = i \<Longrightarrow> c = i" using a assms(4) by (cases "c = i") (auto simp: B keyed_def)
    moreover have "c = i \<Longrightarrow> a = i" using a assms(4) by (cases "a = i") (auto simp: B keyed_def)
    ultimately show "a = c" using uk by blast
  qed
  then show ?thesis using assms(1,3) by (auto simp: cache_ok_def B)
qed

text \<open>The usual case: the buffer keeps its block.\<close>

lemma keep_key:
  assumes "cache_ok dev k" and "i < K_NBUF" and "kb_dev (f (buf k i)) = kb_dev (buf k i)" and "kb_blockno (f (buf k i)) = kb_blockno (buf k i)"
    and "buf_ok dev (k_disk k) (f (buf k i))"
  shows "cache_ok dev (upd_buf i f k)"
proof (rule cache_ok_upd_buf [where f = f, OF assms(1,2,5)])
  assume "kb_dev (f (buf k i)) = dev"
  then show "\<forall>j < K_NBUF. j \<noteq> i \<longrightarrow> \<not> keyed k dev (kb_blockno (f (buf k i))) j"
    using cache_okD(5) [OF assms(1)] assms(2-4) unfolding unique_keys_def keyed_def by metis
qed

lemma kview_cong:
  assumes "\<And>i. i < K_NBUF \<Longrightarrow> kb_valid (buf k' i) = kb_valid (buf k i) \<and> kb_dev (buf k' i) = kb_dev (buf k i) \<and>
      kb_blockno (buf k' i) = kb_blockno (buf k i) \<and> kb_data (buf k' i) = kb_data (buf k i)"
    and "k_disk k' = k_disk k"
  shows "kview dev k' = kview dev k"
proof
  fix b
  have "find (\<lambda>i. kb_valid (buf k' i) \<and> keyed k' dev b i) [0..<K_NBUF] = find (\<lambda>i. kb_valid (buf k i) \<and> keyed k dev b i) [0..<K_NBUF]"
    using assms(1) by (intro find_cong) (auto simp: keyed_def)
  moreover have "i < K_NBUF" if "find (\<lambda>i. kb_valid (buf k i) \<and> keyed k dev b i) [0..<K_NBUF] = Some i" for i
    using that by (auto simp: find_Some_iff)
  ultimately show "kview dev k' b = kview dev k b"
    using assms by (cases "find (\<lambda>i. kb_valid (buf k i) \<and> keyed k dev b i) [0..<K_NBUF]") (simp_all add: kview_def)
qed

lemma upd_buf_upd_buf: "i < length (bc_buf (k_cache k)) \<Longrightarrow> upd_buf i f (upd_buf i g k) = upd_buf i (\<lambda>b. f (g b)) k"
  by (simp add: upd_buf_def buf_def)

lemma upd_buf_cong: "f (buf k i) = g (buf k i) \<Longrightarrow> upd_buf i f k = upd_buf i g k"
  by (simp add: upd_buf_def)

lemma disk_block_number: "n < image_blocks d \<Longrightarrow> image_blocks d \<le> 2 ^ 31 \<Longrightarrow> n * (BSIZE div 512) mod 2 ^ 32 div (BSIZE div 512) = n"
  by (simp add: BSIZE_def)

text \<open>The buffer that \<open>bread\<close> returns.\<close>

definition held :: "kernel \<Rightarrow> sleeplock" where
  "held k = \<lparr>sl_locked = True, sl_pid = k_pid k\<rparr>"

definition loaded :: "nat \<Rightarrow> nat \<Rightarrow> kernel \<Rightarrow> nat \<Rightarrow> kbuf" where
  "loaded dev b k i = \<lparr>kb_valid = True, kb_dev = dev, kb_blockno = b, kb_lock = held k,
     kb_refcnt = kb_refcnt (buf k i) + 1, kb_data = kview dev k b\<rparr>"

definition reusable :: "nat \<Rightarrow> nat \<Rightarrow> kernel \<Rightarrow> nat \<Rightarrow> bool" where
  "reusable dev b k i \<longleftrightarrow> i < K_NBUF \<and>
     (keyed k dev b i \<or> kb_refcnt (buf k i) = 0 \<and> (\<forall>j < K_NBUF. \<not> keyed k dev b j))"

lemma bget_run:
  assumes "cache_ok dev k" and "\<And>i. i < K_NBUF \<Longrightarrow> keyed k dev b i \<Longrightarrow> \<not> sl_locked (kb_lock (buf k i))"
    and "(\<exists>i < K_NBUF. keyed k dev b i) \<or> (\<exists>i < K_NBUF. kb_refcnt (buf k i) = 0)"
  obtains i where "reusable dev b k i"
    and "bget dev b k = Inr (i, upd_buf i (\<lambda>c. if keyed k dev b i then c\<lparr>kb_refcnt := kb_refcnt c + 1, kb_lock := held k\<rparr>
           else c\<lparr>kb_dev := dev, kb_blockno := b, kb_valid := False, kb_refcnt := 1, kb_lock := held k\<rparr>) k)"
proof -
  note L = cache_okD(1,2) [OF assms(1)]
  show ?thesis
  proof (cases "find (keyed k dev b) (bc_lru (k_cache k))")
    case (Some i)
    then have i: "keyed k dev b i" "i < K_NBUF"
      using nth_mem L(2) by (fastforce simp: find_Some_iff)+
    then have free: "\<not> sl_locked (kb_lock (buf k i))" using assms(2) by blast
    show ?thesis
      by (rule that [of i])
        (use i Some free in \<open>simp_all add: reusable_def bget_def acquiresleep_def buf_upd_buf upd_buf_upd_buf L held_def\<close>)
  next
    case None
    then have none: "\<forall>j < K_NBUF. \<not> keyed k dev b j" using L(2) by (auto simp: find_None_iff)
    then obtain j where "j < K_NBUF" "kb_refcnt (buf k j) = 0" using assms(3) by blast
    then obtain i where i: "find (\<lambda>i. kb_refcnt (buf k i) = 0) (rev (bc_lru (k_cache k))) = Some i"
      using L(2) by (cases "find (\<lambda>i. kb_refcnt (buf k i) = 0) (rev (bc_lru (k_cache k)))") (auto simp: find_None_iff)
    then have "i \<in> set (rev (bc_lru (k_cache k)))" and z: "kb_refcnt (buf k i) = 0"
      by (auto simp: find_Some_iff) (metis length_rev nth_mem set_rev)
    then have n: "i < K_NBUF" using L(2) by simp
    then have free: "\<not> sl_locked (kb_lock (buf k i))" using cache_okD(6) [OF assms(1) n] z by (auto simp: buf_ok_def)
    show ?thesis
      by (rule that [of i])
        (use i None none n z free in \<open>simp_all add: reusable_def bget_def acquiresleep_def buf_upd_buf upd_buf_upd_buf L held_def\<close>)
  qed
qed

lemma bread_run:
  assumes "cache_ok dev k" and "b < image_blocks (k_disk k)"
    and "\<And>i. i < K_NBUF \<Longrightarrow> keyed k dev b i \<Longrightarrow> \<not> sl_locked (kb_lock (buf k i))"
    and "(\<exists>i < K_NBUF. keyed k dev b i) \<or> (\<exists>i < K_NBUF. kb_refcnt (buf k i) = 0)"
  obtains i where "reusable dev b k i" and "bread dev b k = Inr (i, upd_buf i (\<lambda>_. loaded dev b k i) k)"
proof -
  note L = cache_okD(1) [OF assms(1)]
  obtain i where i: "reusable dev b k i"
    and g: "bget dev b k = Inr (i, upd_buf i (\<lambda>c. if keyed k dev b i then c\<lparr>kb_refcnt := kb_refcnt c + 1, kb_lock := held k\<rparr>
           else c\<lparr>kb_dev := dev, kb_blockno := b, kb_valid := False, kb_refcnt := 1, kb_lock := held k\<rparr>) k)" (is "_ = Inr (i, ?k)")
    by (rule bget_run [OF assms(1,3,4)])
  have n: "i < K_NBUF" using i by (simp add: reusable_def)
  have "bread dev b k = Inr (i, upd_buf i (\<lambda>_. loaded dev b k i) k)"
  proof (cases "kb_valid (buf ?k i)")
    case True
    then have v: "keyed k dev b i" "kb_valid (buf k i)" using n by (auto simp: buf_upd_buf L split: if_splits)
    then have "kb_data (buf k i) = kview dev k b" using kview_cached [OF assms(1) n] by simp
    then have "?k = upd_buf i (\<lambda>_. loaded dev b k i) k"
      using v by (intro upd_buf_cong) (simp add: loaded_def keyed_def)
    then show ?thesis using True by (simp add: bread_def g)
  next
    case False
    have kv: "kview dev k b = block (k_disk k) b"
    proof (rule kview_uncached)
      fix j
      assume j: "j < K_NBUF" "kb_valid (buf k j)"
      show "\<not> keyed k dev b j"
      proof
        assume kj: "keyed k dev b j"
        then have "keyed k dev b i" using i j by (auto simp: reusable_def)
        then have "j = i" using kj j(1) n cache_okD(5) [OF assms(1)] by (simp add: unique_keys_def keyed_def)
        then show False using False j kj by (simp add: buf_upd_buf L n)
      qed
    qed
    have bn: "kb_blockno (buf ?k i) = b" using n by (simp add: buf_upd_buf L keyed_def)
    have "disk_rw i False ?k = Inr ((), upd_buf i (\<lambda>c. c\<lparr>kb_data := block (k_disk k) b\<rparr>) ?k)"
      using disk_block_number [OF assms(2) cache_okD(4) [OF assms(1)]] assms(2) by (simp add: disk_rw_def bn Let_def)
    then have "bread dev b k = Inr (i, upd_buf i (\<lambda>c. c\<lparr>kb_valid := True\<rparr>) (upd_buf i (\<lambda>c. c\<lparr>kb_data := block (k_disk k) b\<rparr>) ?k))"
      using False by (simp add: bread_def g)
    also have "upd_buf i (\<lambda>c. c\<lparr>kb_valid := True\<rparr>) (upd_buf i (\<lambda>c. c\<lparr>kb_data := block (k_disk k) b\<rparr>) ?k) = upd_buf i (\<lambda>_. loaded dev b k i) k"
      using i by (simp add: upd_buf_upd_buf n L) (intro upd_buf_cong, auto simp: loaded_def keyed_def kv reusable_def)
    finally show ?thesis .
  qed
  with i show ?thesis by (rule that)
qed

lemma length_kview:
  assumes "cache_ok dev k" and "b < image_blocks (k_disk k)"
  shows "length (kview dev k b) = BSIZE"
proof (cases "\<exists>j < K_NBUF. kb_valid (buf k j) \<and> keyed k dev b j")
  case True
  then obtain j where "j < K_NBUF" "kb_valid (buf k j)" "keyed k dev b j" by blast
  then show ?thesis using kview_cached [OF assms(1)] cache_okD(6) [OF assms(1)] by (simp add: buf_ok_def)
next
  case False
  then have "kview dev k b = block (k_disk k) b" by (intro kview_uncached) blast
  then show ?thesis using assms(2) by simp
qed

lemma bread_law:
  assumes "cache_ok dev k" and "reusable dev b k i" and "b < image_blocks (k_disk k)" and "kb_refcnt (buf k i) + 1 \<noteq> 0"
  shows "cache_ok dev (upd_buf i (\<lambda>_. loaded dev b k i) k)" (is "cache_ok dev ?k")
    and "kview dev (upd_buf i (\<lambda>_. loaded dev b k i) k) = kview dev k"
proof -
  note L = cache_okD(1) [OF assms(1)]
  have n: "i < K_NBUF" using assms(2) by (simp add: reusable_def)
  note B = buf_upd_buf [of i k "\<lambda>_. loaded dev b k i", unfolded L, OF n]
  have whole: "length (kview dev k b) = BSIZE" using length_kview [OF assms(1,3)] .
  have other: "\<not> keyed k dev b j" if "j < K_NBUF" "j \<noteq> i" for j
    using assms(2) that n cache_okD(5) [OF assms(1)] by (auto simp: reusable_def unique_keys_def keyed_def)
  show ok: "cache_ok dev ?k"
    using other assms(3,4) whole by (intro cache_ok_upd_buf [OF assms(1) n]) (auto simp: loaded_def buf_ok_def)
  show "kview dev ?k = kview dev k"
  proof
    fix c
    consider "c = b" | "c \<noteq> b" "keyed k dev c i" | "c \<noteq> b" "\<not> keyed k dev c i" by blast
    then show "kview dev ?k c = kview dev k c"
    proof cases
      case 1
      have "kview dev ?k b = kb_data (buf ?k i)" using B by (intro kview_cached [OF ok n]) (simp_all add: loaded_def keyed_def)
      then show ?thesis using B 1 by (simp add: loaded_def)
    next
      case 2
      then have z: "kb_refcnt (buf k i) = 0" using assms(2) by (auto simp: reusable_def keyed_def)
      have "\<not> keyed k dev c j" if "j < K_NBUF" "j \<noteq> i" for j
        using 2(2) that n cache_okD(5) [OF assms(1)] by (auto simp: unique_keys_def keyed_def)
      then have "kview dev ?k c = block (k_disk ?k) c"
        using 2(1) B by (intro kview_uncached) (auto simp: keyed_def loaded_def)
      moreover have "kview dev k c = block (k_disk k) c"
      proof (rule kview_eqI)
        fix j
        assume "j < K_NBUF" "kb_valid (buf k j)" "keyed k dev c j"
        moreover from this have "j = i" using \<open>\<And>j. j < K_NBUF \<Longrightarrow> j \<noteq> i \<Longrightarrow> \<not> keyed k dev c j\<close> by blast
        ultimately show "kb_data (buf k j) = block (k_disk k) c"
          using cache_okD(6) [OF assms(1) n] z by (auto simp: buf_ok_def keyed_def)
      qed simp
      ultimately show ?thesis by simp
    next
      case 3
      then show ?thesis using B by (intro kview_upd_buf [OF assms(1) n ok]) (simp_all add: keyed_def loaded_def)
    qed
  qed
qed

text \<open>Writing into a buffer that is referred to changes what is seen of its block, and nothing else.\<close>

lemma set_data_law:
  assumes "cache_ok dev k" and "i < K_NBUF" and "kb_valid (buf k i)" and "kb_refcnt (buf k i) \<noteq> 0" and "length x = BSIZE"
  shows "cache_ok dev (upd_buf i (\<lambda>c. c\<lparr>kb_data := x\<rparr>) k)" (is "cache_ok dev ?k")
    and "kview dev (upd_buf i (\<lambda>c. c\<lparr>kb_data := x\<rparr>) k) = (kview dev k)(kb_blockno (buf k i) := x)"
proof -
  note B = buf_upd_buf [of i k "\<lambda>c. c\<lparr>kb_data := x\<rparr>", unfolded cache_okD(1) [OF assms(1)], OF assms(2)]
  have bok: "buf_ok dev (k_disk k) (buf k i)" using cache_okD(6) [OF assms(1,2)] .
  then have dev: "kb_dev (buf k i) = dev" using assms(3) by (simp add: buf_ok_def)
  show ok: "cache_ok dev ?k" using bok assms(3-5) by (intro keep_key [OF assms(1,2)]) (simp_all add: buf_ok_def)
  show "kview dev ?k = (kview dev k)(kb_blockno (buf k i) := x)"
  proof
    fix c
    show "kview dev ?k c = ((kview dev k)(kb_blockno (buf k i) := x)) c"
    proof (cases "c = kb_blockno (buf k i)")
      case True
      have "kview dev ?k c = kb_data (buf ?k i)" using B dev assms(3) True by (intro kview_cached [OF ok assms(2)]) (simp_all add: keyed_def)
      then show ?thesis using B True by simp
    next
      case False
      then have "kview dev ?k c = kview dev k c" using B by (intro kview_upd_buf [OF assms(1,2) ok]) (simp_all add: keyed_def)
      then show ?thesis using False by simp
    qed
  qed
qed

lemma block_beyond: "is_image d \<Longrightarrow> image_blocks d \<le> c \<Longrightarrow> block d c = []"
proof -
  assume "is_image d" "image_blocks d \<le> c"
  then have "length d = image_blocks d * BSIZE" by (simp add: is_image_def image_blocks_def)
  also have "\<dots> \<le> c * BSIZE" using \<open>image_blocks d \<le> c\<close> by (rule mult_le_mono1)
  finally show ?thesis by (simp add: block_def py_slice_def Let_def)
qed

lemma block_written:
  assumes "is_image d" and "n < image_blocks d" and "length x = BSIZE"
  shows "block (write_block n x d) c = (if c = n then x else block d c)"
    and "image_blocks (write_block n x d) = image_blocks d" and "is_image (write_block n x d)"
proof -
  show len: "image_blocks (write_block n x d) = image_blocks d" and im: "is_image (write_block n x d)"
    using img.wr_blocks [OF assms] img.wr_device [OF assms] .
  show "block (write_block n x d) c = (if c = n then x else block d c)"
  proof (cases "c < image_blocks d")
    case True
    then show ?thesis using block_write_block [OF assms(2) _ assms(3)] by simp
  next
    case False
    then show ?thesis using block_beyond [OF im] block_beyond [OF assms(1)] len assms(2) by simp
  qed
qed

text \<open>The state after the device has written a buffer.\<close>

definition flushed :: "nat \<Rightarrow> kernel \<Rightarrow> kernel" where
  "flushed i k = k\<lparr>k_disk := write_block (kb_blockno (buf k i)) (kb_data (buf k i)) (k_disk k),
      k_writes := k_writes k @ [(kb_blockno (buf k i), kb_data (buf k i))]\<rparr>"

lemma flushed_simps [simp]:
  "buf (flushed i k) j = buf k j" "k_cache (flushed i k) = k_cache k" "k_log (flushed i k) = k_log k" "k_pid (flushed i k) = k_pid k"
  "k_disk (flushed i k) = write_block (kb_blockno (buf k i)) (kb_data (buf k i)) (k_disk k)"
  "k_writes (flushed i k) = k_writes k @ [(kb_blockno (buf k i), kb_data (buf k i))]"
  by (simp_all add: flushed_def buf_def)

lemma bwrite_run:
  assumes "cache_ok dev k" and "i < K_NBUF" and "kb_valid (buf k i)" and "kb_lock (buf k i) = held k"
  shows "bwrite i k = Inr ((), flushed i k)" (is "_ = Inr ((), ?k)")
    and "cache_ok dev (flushed i k)" and "kview dev (flushed i k) = kview dev k"
proof -
  have bok: "buf_ok dev (k_disk k) (buf k i)" using cache_okD(6) [OF assms(1,2)] .
  let ?n = "kb_blockno (buf k i)" and ?x = "kb_data (buf k i)"
  have b: "?n < image_blocks (k_disk k)" "length ?x = BSIZE" "kb_dev (buf k i) = dev" "kb_refcnt (buf k i) \<noteq> 0"
    using bok assms(3,4) by (auto simp: buf_ok_def held_def)
  note W = block_written [OF cache_okD(3) [OF assms(1)] b(1,2)]
  show "bwrite i k = Inr ((), ?k)"
    using disk_block_number [OF b(1) cache_okD(4) [OF assms(1)]] b(1) assms(4)
    by (simp add: bwrite_def holdingsleep_def held_def disk_rw_def flushed_def Let_def)
  have other: "kb_blockno (buf k j) \<noteq> ?n" if "j < K_NBUF" "kb_valid (buf k j)" "kb_refcnt (buf k j) = 0" for j
  proof
    assume "kb_blockno (buf k j) = ?n"
    moreover have "kb_dev (buf k j) = dev" using cache_okD(6) [OF assms(1) that(1)] that(2) by (simp add: buf_ok_def)
    ultimately have "j = i" using cache_okD(5) [OF assms(1)] b(3) assms(2) that(1) by (simp add: unique_keys_def)
    then show False using that(3) b(4) by simp
  qed
  have "buf_ok dev (k_disk ?k) (buf k j)" if "j < K_NBUF" for j
    using cache_okD(6) [OF assms(1) that] other [OF that] W(1,2) by (simp add: buf_ok_def)
  then show ok: "cache_ok dev ?k"
    using assms(1) W(2,3) by (auto simp: cache_ok_def unique_keys_def)
  show "kview dev ?k = kview dev k"
  proof
    fix c
    show "kview dev ?k c = kview dev k c"
    proof (cases "c = ?n")
      case True
      then have "kview dev ?k c = ?x" "kview dev k c = ?x"
        using kview_cached [OF ok assms(2)] kview_cached [OF assms(1,2)] assms(3) b(3) by (simp_all add: keyed_def)
      then show ?thesis by simp
    next
      case False
      then show ?thesis
        using W(1) by (simp add: kview_def keyed_def split: option.split)
    qed
  qed
qed

text \<open>Releasing a buffer: a last reference must leave data that agrees with the disk.\<close>

lemma brelse_run:
  assumes "cache_ok dev k" and "i < K_NBUF" and "kb_valid (buf k i)" and "kb_lock (buf k i) = held k"
    and "kb_refcnt (buf k i) = 1 \<Longrightarrow> kb_data (buf k i) = block (k_disk k) (kb_blockno (buf k i))"
  obtains k' where "brelse i k = Inr ((), k')" and "cache_ok dev k'" and "kview dev k' = kview dev k"
    and "\<forall>j < K_NBUF. buf k' j = (if j = i then (buf k i)\<lparr>kb_lock := \<lparr>sl_locked = False, sl_pid = 0\<rparr>, kb_refcnt := kb_refcnt (buf k i) - 1\<rparr> else buf k j)"
    and "k_disk k' = k_disk k" and "k_writes k' = k_writes k" and "k_log k' = k_log k" and "k_pid k' = k_pid k"
proof -
  note L = cache_okD(1,2) [OF assms(1)]
  let ?f = "\<lambda>c. c\<lparr>kb_lock := \<lparr>sl_locked = False, sl_pid = 0\<rparr>, kb_refcnt := kb_refcnt c - 1\<rparr>"
  let ?k = "upd_buf i ?f k"
  let ?k' = "if kb_refcnt (buf ?k i) = 0 then ?k\<lparr>k_cache := (k_cache ?k)\<lparr>bc_lru := i # remove1 i (bc_lru (k_cache ?k))\<rparr>\<rparr> else ?k"
  have B: "buf ?k j = (if j = i then ?f (buf k i) else buf k j)" for j using assms(2) by (simp add: buf_upd_buf L)
  have run: "brelse i k = Inr ((), ?k')"
    using assms(2,4) by (simp add: brelse_def holdingsleep_def held_def releasesleep_def upd_buf_upd_buf L Let_def)
  have "buf_ok dev (k_disk k) (?f (buf k i))"
    using cache_okD(6) [OF assms(1,2)] assms(3,5) by (auto simp: buf_ok_def)
  then have ok: "cache_ok dev ?k" by (intro keep_key [OF assms(1,2)]) simp_all
  have B': "buf ?k' j = (if j = i then ?f (buf k i) else buf k j)" for j
  proof -
    have "buf ?k' j = buf ?k j" by simp
    from trans [OF this B] show ?thesis .
  qed
  have same: "k_disk ?k' = k_disk k" "k_writes ?k' = k_writes k" "k_log ?k' = k_log k" "k_pid ?k' = k_pid k" by simp_all
  have lru: "distinct (bc_lru (k_cache k))" using assms(1) by (simp add: cache_ok_def)
  then have "distinct (i # remove1 i (bc_lru (k_cache k)))" "set (i # remove1 i (bc_lru (k_cache k))) = {..<K_NBUF}"
    using assms(2) L(2) by auto
  then have "cache_ok dev ?k'" using ok by (auto simp: cache_ok_def unique_keys_def)
  moreover have "kview dev ?k' = kview dev k" using B' same(1) by (intro kview_cong) auto
  ultimately show ?thesis using run B' same by (intro that [of ?k']) blast+
qed

text \<open>Changing a reference count: the pins of the log.\<close>

lemma refcnt_law:
  assumes "cache_ok dev k" and "i < K_NBUF" and "buf_ok dev (k_disk k) ((buf k i)\<lparr>kb_refcnt := f (kb_refcnt (buf k i))\<rparr>)"
  shows "cache_ok dev (upd_buf i (\<lambda>b. b\<lparr>kb_refcnt := f (kb_refcnt b)\<rparr>) k)"
    and "kview dev (upd_buf i (\<lambda>b. b\<lparr>kb_refcnt := f (kb_refcnt b)\<rparr>) k) = kview dev k"
proof -
  show "cache_ok dev (upd_buf i (\<lambda>b. b\<lparr>kb_refcnt := f (kb_refcnt b)\<rparr>) k)" using assms by (intro keep_key) simp_all
  show "kview dev (upd_buf i (\<lambda>b. b\<lparr>kb_refcnt := f (kb_refcnt b)\<rparr>) k) = kview dev k"
    using assms(2) by (intro kview_cong) (simp_all add: buf_upd_buf cache_okD(1) [OF assms(1)])
qed

lemma bpin_run:
  assumes "cache_ok dev k" and "i < K_NBUF" and "kb_refcnt (buf k i) + 1 \<noteq> 0"
  shows "bpin i k = Inr ((), upd_buf i (\<lambda>b. b\<lparr>kb_refcnt := kb_refcnt b + 1\<rparr>) k)"
    and "cache_ok dev (upd_buf i (\<lambda>b. b\<lparr>kb_refcnt := kb_refcnt b + 1\<rparr>) k)"
    and "kview dev (upd_buf i (\<lambda>b. b\<lparr>kb_refcnt := kb_refcnt b + 1\<rparr>) k) = kview dev k"
  using cache_okD(6) [OF assms(1,2)] assms(3)
  by (simp_all add: bpin_def refcnt_law [OF assms(1,2), where f = "\<lambda>r. r + 1"] buf_ok_def)

lemma bunpin_run:
  assumes "cache_ok dev k" and "i < K_NBUF" and "kb_refcnt (buf k i) \<noteq> 1"
  shows "bunpin i k = Inr ((), upd_buf i (\<lambda>b. b\<lparr>kb_refcnt := kb_refcnt b - 1\<rparr>) k)"
    and "cache_ok dev (upd_buf i (\<lambda>b. b\<lparr>kb_refcnt := kb_refcnt b - 1\<rparr>) k)"
    and "kview dev (upd_buf i (\<lambda>b. b\<lparr>kb_refcnt := kb_refcnt b - 1\<rparr>) k) = kview dev k"
  using cache_okD(6) [OF assms(1,2)] assms(3)
  by (simp_all add: bunpin_def refcnt_law [OF assms(1,2), where f = "\<lambda>r. r - 1"] buf_ok_def)

end
