(* ===== verification/KernelLog.thy ===== *)
theory KernelLog
  imports KernelBio
begin

text \<open>
  The write-ahead log of the kernel (\<open>kernel/log.c\<close>) with the part of \<open>fsinit\<close> that mounts it.  The entries of
  \<open>log.lh.block\<close> and the log start are kept as the 32-bit patterns under which \<open>bread\<close> receives them; the
  number of entries is a signed integer, as the header on disk can make it negative.
\<close>

section \<open>Operations\<close>

definition install_step :: "bool \<Rightarrow> nat \<Rightarrow> unit kop" where
  "install_step recovering tail k =
     kbind (bread (lg_dev (k_log k)) ((lg_start (k_log k) + tail + 1) mod 2 ^ 32)) (\<lambda>lbuf.
     kbind (bread (lg_dev (k_log k)) (lg_block (k_log k) ! tail)) (\<lambda>dbuf.
     kbind (\<lambda>k. set_data dbuf (kb_data (buf k lbuf)) k) (\<lambda>_.
     kbind (bwrite dbuf) (\<lambda>_.
     kbind (if recovering then kret () else bunpin dbuf) (\<lambda>_.
     kbind (brelse lbuf) (\<lambda>_. brelse dbuf)))))) k"

definition install_trans :: "bool \<Rightarrow> unit kop" where
  "install_trans recovering k = kfor (install_step recovering) [0..<nat (lg_n (k_log k))] k"

text \<open>A count above the capacity makes the loop of \<open>read_head\<close> write past the end of the array.\<close>

definition read_head :: "unit kop" where
  "read_head k =
     kbind (bread (lg_dev (k_log k)) (lg_start (k_log k))) (\<lambda>i k.
       let header = kb_data (buf k i); n = signed 32 (u32_at header 0) in
       if n > int K_LOGBLOCKS then Inl Overrun
       else kbind (kmodify (\<lambda>k. k\<lparr>k_log := (k_log k)\<lparr>lg_n := n,
              lg_block := map (\<lambda>j. u32_at header (4 + 4 * j)) [0..<nat n] @ drop (nat n) (lg_block (k_log k))\<rparr>\<rparr>)) (\<lambda>_. brelse i) k) k"

definition header_bytes :: "int \<Rightarrow> nat list \<Rightarrow> bytes \<Rightarrow> bytes" where
  "header_bytes n blocks old =
     le_bytes 4 (unsigned_of 32 n) @ concat (map (le_bytes 4) (take (nat n) blocks)) @ drop (4 + 4 * nat n) old"

definition write_head :: "unit kop" where
  "write_head k =
     kbind (bread (lg_dev (k_log k)) (lg_start (k_log k))) (\<lambda>i.
     kbind (\<lambda>k. set_data i (header_bytes (lg_n (k_log k)) (lg_block (k_log k)) (kb_data (buf k i))) k) (\<lambda>_.
     kbind (bwrite i) (\<lambda>_. brelse i))) k"

definition set_n :: "int \<Rightarrow> unit kop" where
  "set_n n = kmodify (\<lambda>k. k\<lparr>k_log := (k_log k)\<lparr>lg_n := n\<rparr>\<rparr>)"

definition recover_from_log :: "unit kop" where
  "recover_from_log = kbind read_head (\<lambda>_. kbind (install_trans True) (\<lambda>_. kbind (set_n 0) (\<lambda>_. write_head)))"

definition initlog :: "nat \<Rightarrow> bytes \<Rightarrow> unit kop" where
  "initlog dev sb = kbind (kmodify (\<lambda>k. k\<lparr>k_log := (k_log k)\<lparr>lg_start := u32_at sb 20, lg_dev := dev\<rparr>\<rparr>)) (\<lambda>_. recover_from_log)"

text \<open>\<open>readsb\<close>, and \<open>fsinit\<close> up to the reclaiming of orphaned inodes.\<close>

definition readsb :: "nat \<Rightarrow> bytes kop" where
  "readsb dev = kbind (bread dev 1) (\<lambda>i k. kbind (brelse i) (\<lambda>_. kret (take 32 (kb_data (buf k i)))) k)"

definition mount :: "nat \<Rightarrow> unit kop" where
  "mount dev = kbind (readsb dev) (\<lambda>sb k. if u32_at sb 0 \<noteq> FSMAGIC then Inl (Panic ''invalid file system'') else initlog dev sb k)"

definition begin_op :: "unit kop" where
  "begin_op k =
     (let l = k_log k in
      if lg_committing l then Inl Sleeps
      else if lg_n l + (lg_outstanding l + 1) * int K_MAXOPBLOCKS > int K_LOGBLOCKS then Inl Sleeps
      else Inr ((), k\<lparr>k_log := l\<lparr>lg_outstanding := lg_outstanding l + 1\<rparr>\<rparr>))"

definition write_log_step :: "nat \<Rightarrow> unit kop" where
  "write_log_step tail k =
     kbind (bread (lg_dev (k_log k)) ((lg_start (k_log k) + tail + 1) mod 2 ^ 32)) (\<lambda>to.
     kbind (bread (lg_dev (k_log k)) (lg_block (k_log k) ! tail)) (\<lambda>from.
     kbind (\<lambda>k. set_data to (kb_data (buf k from)) k) (\<lambda>_.
     kbind (bwrite to) (\<lambda>_.
     kbind (brelse from) (\<lambda>_. brelse to))))) k"

definition write_log :: "unit kop" where
  "write_log k = kfor write_log_step [0..<nat (lg_n (k_log k))] k"

definition commit :: "unit kop" where
  "commit k =
     (if lg_n (k_log k) > 0
      then kbind write_log (\<lambda>_. kbind write_head (\<lambda>_. kbind (install_trans False) (\<lambda>_. kbind (set_n 0) (\<lambda>_. write_head)))) k
      else Inr ((), k))"

definition set_committing :: "bool \<Rightarrow> unit kop" where
  "set_committing c = kmodify (\<lambda>k. k\<lparr>k_log := (k_log k)\<lparr>lg_committing := c\<rparr>\<rparr>)"

definition end_op :: "unit kop" where
  "end_op k =
     (let k = k\<lparr>k_log := (k_log k)\<lparr>lg_outstanding := lg_outstanding (k_log k) - 1\<rparr>\<rparr> in
      if lg_committing (k_log k) then Inl (Panic ''log.committing'')
      else if lg_outstanding (k_log k) = 0
      then kbind (set_committing True) (\<lambda>_. kbind commit (\<lambda>_. set_committing False)) k
      else Inr ((), k))"

definition log_write :: "nat \<Rightarrow> unit kop" where
  "log_write i k =
     (let l = k_log k; b = kb_blockno (buf k i) in
      if lg_n l \<ge> int K_LOGBLOCKS then Inl (Panic ''too big a transaction'')
      else if lg_outstanding l < 1 then Inl (Panic ''log_write outside of trans'')
      else let slot = length (takeWhile (\<lambda>x. x \<noteq> b) (take (nat (lg_n l)) (lg_block l)));
               k = k\<lparr>k_log := l\<lparr>lg_block := (lg_block l)[slot := b]\<rparr>\<rparr> in
        if int slot = lg_n l
        then kbind (bpin i) (\<lambda>_. kmodify (\<lambda>k. k\<lparr>k_log := (k_log k)\<lparr>lg_n := lg_n (k_log k) + 1\<rparr>\<rparr>)) k
        else Inr ((), k))"

text \<open>
  The use of the log by its clients: read a block, change it, record it, release it.  \<open>bzero\<close> is the
  instance that clears a block.
\<close>

definition update_block :: "nat \<Rightarrow> nat \<Rightarrow> (bytes \<Rightarrow> bytes) \<Rightarrow> unit kop" where
  "update_block dev bno f =
     kbind (bread dev bno) (\<lambda>bp.
     kbind (\<lambda>k. set_data bp (f (kb_data (buf k bp))) k) (\<lambda>_.
     kbind (log_write bp) (\<lambda>_. brelse bp)))"

definition bzero :: "nat \<Rightarrow> nat \<Rightarrow> unit kop" where
  "bzero dev bno = update_block dev bno (\<lambda>_. replicate BSIZE 0)"

text \<open>The kernel before the file system is mounted: static data is zero.\<close>

definition kernel_start :: "nat \<Rightarrow> bytes \<Rightarrow> kernel" where
  "kernel_start pid d = \<lparr>k_cache = binit,
     k_log = \<lparr>lg_start = 0, lg_outstanding = 0, lg_committing = False, lg_dev = 0, lg_n = 0, lg_block = replicate K_LOGBLOCKS 0\<rparr>,
     k_pid = pid, k_disk = d, k_writes = []\<rparr>"

section \<open>Two buffers at a time\<close>

text \<open>A state between two operations: no buffer is locked and a buffer that is referred to has its data.\<close>

definition calm :: "kernel \<Rightarrow> bool" where
  "calm k \<longleftrightarrow> (\<forall>i < K_NBUF. \<not> sl_locked (kb_lock (buf k i)) \<and> kb_refcnt (buf k i) + 1 \<noteq> 0 \<and>
     (kb_refcnt (buf k i) \<noteq> 0 \<longrightarrow> kb_valid (buf k i)))"

definition pinned :: "nat \<Rightarrow> kernel \<Rightarrow> nat \<Rightarrow> bool" where
  "pinned dev k b \<longleftrightarrow> (\<exists>i < K_NBUF. keyed k dev b i \<and> kb_refcnt (buf k i) \<noteq> 0)"

definition free_bufs :: "kernel \<Rightarrow> nat set" where
  "free_bufs k = {i. i < K_NBUF \<and> kb_refcnt (buf k i) = 0}"

text \<open>Enough buffers to hold blocks \<open>a\<close> and \<open>b\<close> at the same time.\<close>

definition room :: "nat \<Rightarrow> kernel \<Rightarrow> nat \<Rightarrow> bool" where
  "room dev k b \<longleftrightarrow> (\<exists>i. i \<in> free_bufs k \<and> (pinned dev k b \<or> (\<exists>j. j \<in> free_bufs k \<and> j \<noteq> i)))"

lemma kview_clean:
  assumes "cache_ok dev k" and "reusable dev b k i" and "kb_refcnt (buf k i) = 0"
  shows "kview dev k b = block (k_disk k) b"
proof (rule kview_eqI)
  fix j
  assume j: "j < K_NBUF" "kb_valid (buf k j)" "keyed k dev b j"
  then have "j = i" using assms(1,2) cache_okD(5) [OF assms(1)] by (auto simp: reusable_def unique_keys_def keyed_def)
  then show "kb_data (buf k j) = block (k_disk k) b" using cache_okD(6) [OF assms(1) j(1)] j assms(3) by (simp add: buf_ok_def keyed_def)
qed simp

text \<open>A buffer taken for a block: it held that block, or it was free and the block is seen as on disk.\<close>

definition fits :: "nat \<Rightarrow> nat \<Rightarrow> kernel \<Rightarrow> nat \<Rightarrow> bool" where
  "fits dev b k i \<longleftrightarrow> i < K_NBUF \<and> (if kb_refcnt (buf k i) = 0 then kview dev k b = block (k_disk k) b else keyed k dev b i) \<and>
     (pinned dev k b \<longrightarrow> keyed k dev b i)"

lemma two_reads:
  assumes "cache_ok dev k" and "calm k" and "a \<noteq> b" and "a < image_blocks (k_disk k)" and "b < image_blocks (k_disk k)" and "room dev k b"
  obtains i j k1 k2 where "bread dev a k = Inr (i, k1)" and "bread dev b k1 = Inr (j, k2)" and "i \<noteq> j"
    and "fits dev a k i" and "fits dev b k j" and "k_log k1 = k_log k"
    and "cache_ok dev k2" and "kview dev k2 = kview dev k"
    and "k_disk k2 = k_disk k" and "k_writes k2 = k_writes k" and "k_log k2 = k_log k" and "k_pid k2 = k_pid k"
    and "\<forall>l < K_NBUF. buf k2 l = (if l = i then loaded dev a k i else if l = j then loaded dev b k j else buf k l)"
proof -
  note L = cache_okD(1) [OF assms(1)]
  have calm: "\<not> sl_locked (kb_lock (buf k l))" "kb_refcnt (buf k l) + 1 \<noteq> 0" if "l < K_NBUF" for l
    using assms(2) that by (simp_all add: calm_def)
  obtain p where p: "p \<in> free_bufs k" "pinned dev k b \<or> (\<exists>j. j \<in> free_bufs k \<and> j \<noteq> p)" using assms(6) by (auto simp: room_def)
  have "(\<exists>i < K_NBUF. keyed k dev a i) \<or> (\<exists>i < K_NBUF. kb_refcnt (buf k i) = 0)" using p(1) by (auto simp: free_bufs_def)
  then obtain i where i: "reusable dev a k i" and r1: "bread dev a k = Inr (i, upd_buf i (\<lambda>_. loaded dev a k i) k)" (is "_ = Inr (i, ?k1)")
    using bread_run [OF assms(1,4)] calm(1) by metis
  have ni: "i < K_NBUF" using i by (simp add: reusable_def)
  note k1 = bread_law [OF assms(1) i assms(4) calm(2) [OF ni]]
  have B1: "buf (upd_buf i f k) l = (if l = i then f (buf k i) else buf k l)" for f l using ni by (simp add: buf_upd_buf L)
  have key1: "keyed ?k1 dev b l \<longleftrightarrow> l \<noteq> i \<and> keyed k dev b l" for l using assms(3) by (auto simp: keyed_def B1 loaded_def)
  have refi: "kb_refcnt (buf ?k1 i) \<noteq> 0" using calm(2) [OF ni] by (simp add: B1 loaded_def)
  have "(\<exists>l < K_NBUF. keyed ?k1 dev b l) \<or> (\<exists>l < K_NBUF. kb_refcnt (buf ?k1 l) = 0)"
  proof (cases "pinned dev k b")
    case True
    then obtain l where l: "l < K_NBUF" "keyed k dev b l" "kb_refcnt (buf k l) \<noteq> 0" by (auto simp: pinned_def)
    then have "l \<noteq> i" using i assms(3) by (auto simp: reusable_def keyed_def)
    then show ?thesis using l key1 by blast
  next
    case False
    then obtain q where "q \<in> free_bufs k" "q \<noteq> p" using p(2) by blast
    then obtain l where "l < K_NBUF" "l \<noteq> i" "kb_refcnt (buf k l) = 0" using p(1) by (auto simp: free_bufs_def)
    then show ?thesis by (auto simp: B1)
  qed
  moreover have "\<not> sl_locked (kb_lock (buf ?k1 l))" if "l < K_NBUF" "keyed ?k1 dev b l" for l
    using that key1 calm(1) by (simp add: B1)
  ultimately obtain j where j: "reusable dev b ?k1 j" and r2: "bread dev b ?k1 = Inr (j, upd_buf j (\<lambda>_. loaded dev b ?k1 j) ?k1)"
    using bread_run [OF k1(1), of b] assms(5) by (metis upd_buf_simps(1))
  have nj: "j < K_NBUF" using j by (simp add: reusable_def)
  have ij: "j \<noteq> i" using j key1 refi by (auto simp: reusable_def)
  have load: "loaded dev b ?k1 j = loaded dev b k j" using ij by (simp add: loaded_def [of dev b] k1(2) B1 held_def)
  have "kb_refcnt (buf ?k1 j) + 1 \<noteq> 0" using calm(2) [OF nj] ij by (simp add: B1)
  note k2 = bread_law [OF k1(1) j _ this, unfolded load]
  have B2: "buf (upd_buf j f ?k1) l = (if l = j then f (buf ?k1 j) else buf ?k1 l)" for f l using nj by (simp add: buf_upd_buf L)
  have "keyed k dev b j" if pb: "pinned dev k b"
  proof -
    obtain l where l: "l < K_NBUF" "keyed k dev b l" "kb_refcnt (buf k l) \<noteq> 0" using pb by (auto simp: pinned_def)
    then have "l \<noteq> i" using i assms(3) by (auto simp: reusable_def keyed_def)
    then have "keyed ?k1 dev b l" using l key1 by blast
    then show ?thesis using j l(1) key1 by (auto simp: reusable_def)
  qed
  then have fj: "fits dev b k j"
    using kview_clean [OF k1(1) j] j key1 ij nj by (auto simp: fits_def reusable_def B1 k1(2))
  have fi: "fits dev a k i" using kview_clean [OF assms(1) i] i by (auto simp: fits_def reusable_def pinned_def)
  show ?thesis
    by (rule that [OF r1 r2 ij [symmetric] fi fj]) (use k1 k2 assms(5) ij ni nj in \<open>simp_all add: load B1 B2 L\<close>)
qed

lemma two_releases:
  assumes "cache_ok dev k" and "x \<noteq> y" and "x < K_NBUF" and "y < K_NBUF"
    and "kb_valid (buf k x)" and "kb_valid (buf k y)" and "kb_lock (buf k x) = held k" and "kb_lock (buf k y) = held k"
    and "kb_refcnt (buf k x) = 1 \<Longrightarrow> kb_data (buf k x) = block (k_disk k) (kb_blockno (buf k x))"
    and "kb_refcnt (buf k y) = 1 \<Longrightarrow> kb_data (buf k y) = block (k_disk k) (kb_blockno (buf k y))"
  obtains k' where "kbind (brelse x) (\<lambda>_. brelse y) k = Inr ((), k')" and "cache_ok dev k'" and "kview dev k' = kview dev k"
    and "\<forall>l < K_NBUF. buf k' l = (if l = x \<or> l = y
           then (buf k l)\<lparr>kb_lock := \<lparr>sl_locked = False, sl_pid = 0\<rparr>, kb_refcnt := kb_refcnt (buf k l) - 1\<rparr> else buf k l)"
    and "k_disk k' = k_disk k" and "k_writes k' = k_writes k" and "k_log k' = k_log k" and "k_pid k' = k_pid k"
proof -
  obtain k1 where r1: "brelse x k = Inr ((), k1)" and ok1: "cache_ok dev k1" and v1: "kview dev k1 = kview dev k"
    and b1: "\<forall>j < K_NBUF. buf k1 j = (if j = x then (buf k x)\<lparr>kb_lock := \<lparr>sl_locked = False, sl_pid = 0\<rparr>, kb_refcnt := kb_refcnt (buf k x) - 1\<rparr> else buf k j)"
    and s1: "k_disk k1 = k_disk k" "k_writes k1 = k_writes k" "k_log k1 = k_log k" "k_pid k1 = k_pid k"
    by (rule brelse_run [OF assms(1,3,5,7,9)])
  have by1: "buf k1 y = buf k y" using b1 assms(2,4) by simp
  have lk: "kb_lock (buf k1 y) = held k1" using assms(8) by (simp add: by1 held_def s1)
  obtain k2 where r2: "brelse y k1 = Inr ((), k2)" and ok2: "cache_ok dev k2" and v2: "kview dev k2 = kview dev k1"
    and b2: "\<forall>j < K_NBUF. buf k2 j = (if j = y then (buf k1 y)\<lparr>kb_lock := \<lparr>sl_locked = False, sl_pid = 0\<rparr>, kb_refcnt := kb_refcnt (buf k1 y) - 1\<rparr> else buf k1 j)"
    and s2: "k_disk k2 = k_disk k1" "k_writes k2 = k_writes k1" "k_log k2 = k_log k1" "k_pid k2 = k_pid k1"
    by (rule brelse_run [OF ok1 assms(4) _ lk]) (use assms(6,10) in \<open>simp_all add: by1 s1\<close>)
  show ?thesis
    by (rule that [of k2]) (use assms(2) in \<open>simp_all add: r1 r2 ok2 v1 v2 b1 b2 s1 s2 by1\<close>)
qed

text \<open>
  What an operation leaves of the buffers between two calm states: the reference counts up to the given
  change, and the blocks of the buffers that were referred to.
\<close>

definition keeps :: "(nat \<Rightarrow> 32 word) \<Rightarrow> kernel \<Rightarrow> kernel \<Rightarrow> bool" where
  "keeps dec k k' \<longleftrightarrow> k_pid k' = k_pid k \<and> (\<forall>i < K_NBUF. kb_refcnt (buf k' i) = kb_refcnt (buf k i) - dec i \<and>
     (kb_refcnt (buf k i) \<noteq> 0 \<longrightarrow> kb_dev (buf k' i) = kb_dev (buf k i) \<and> kb_blockno (buf k' i) = kb_blockno (buf k i)))"

lemma loaded_simps [simp]:
  "kb_valid (loaded dev b k i)" "kb_dev (loaded dev b k i) = dev" "kb_blockno (loaded dev b k i) = b" "kb_lock (loaded dev b k i) = held k"
  "kb_refcnt (loaded dev b k i) = kb_refcnt (buf k i) + 1" "kb_data (loaded dev b k i) = kview dev k b"
  by (simp_all add: loaded_def)

lemma copy_run:
  assumes "cache_ok dev k2" and "s \<noteq> d" and "s < K_NBUF" and "d < K_NBUF" and "calm k"
    and "buf k2 s = loaded dev sb k s" and "buf k2 d = loaded dev db k d" and "sb < image_blocks (k_disk k)"
    and "cache_ok dev k" and "kview dev k2 = kview dev k" and "k_pid k2 = k_pid k"
  obtains k3 k4 where "set_data d (kb_data (buf k2 s)) k2 = Inr ((), k3)" and "bwrite d k3 = Inr ((), k4)"
    and "cache_ok dev k4" and "kview dev k4 = (kview dev k)(db := kview dev k sb)"
    and "k_disk k4 = write_block db (kview dev k sb) (k_disk k2)" and "k_writes k4 = k_writes k2 @ [(db, kview dev k sb)]"
    and "k_log k4 = k_log k2" and "k_pid k4 = k_pid k2"
    and "\<forall>l < K_NBUF. buf k4 l = (if l = d then (loaded dev db k d)\<lparr>kb_data := kview dev k sb\<rparr> else buf k2 l)"
proof -
  let ?x = "kview dev k sb"
  let ?k3 = "upd_buf d (\<lambda>c. c\<lparr>kb_data := ?x\<rparr>) k2"
  have x: "kb_data (buf k2 s) = ?x" "length ?x = BSIZE" using assms(6) length_kview [OF assms(9,8)] by (simp_all add: loaded_def)
  have v: "kb_valid (buf k2 d)" "kb_refcnt (buf k2 d) \<noteq> 0" "kb_blockno (buf k2 d) = db"
    using assms(4,5,7) by (simp_all add: loaded_def calm_def)
  note S = set_data_law [OF assms(1,4) v(1,2) x(2)]
  have B: "buf ?k3 l = (if l = d then (loaded dev db k d)\<lparr>kb_data := ?x\<rparr> else buf k2 l)" for l
    using assms(4,7) by (simp add: buf_upd_buf cache_okD(1) [OF assms(1)])
  have d: "kb_valid (buf ?k3 d)" "kb_lock (buf ?k3 d) = held ?k3" "kb_blockno (buf ?k3 d) = db" "kb_data (buf ?k3 d) = ?x"
    using assms(11) by (simp_all add: B) (simp_all add: loaded_def held_def)
  note W = bwrite_run [OF S(1) assms(4) d(1,2)]
  show ?thesis
    by (rule that [of ?k3 "flushed d ?k3"]) (use W S v assms(10) B in \<open>simp_all add: set_data_def x d\<close>)
qed

text \<open>The buffers after the two held ones have been given back.\<close>

lemma held_not_one:
  assumes "fits dev b k i" and "kb_refcnt (buf k i) + 1 = 1"
  shows "kview dev k b = block (k_disk k) b"
  using assms by (simp add: fits_def)

lemma write_log_step_run:
  assumes ok: "cache_ok dev k" "calm k" and log: "lg_dev (k_log k) = dev" "(lg_start (k_log k) + tail + 1) mod 2 ^ 32 = a"
      "lg_block (k_log k) ! tail = b"
    and ab: "a \<noteq> b" "a < image_blocks (k_disk k)" "b < image_blocks (k_disk k)" and room: "room dev k b"
  obtains k' where "write_log_step tail k = Inr ((), k')" and "cache_ok dev k'" and "calm k'" and "keeps (\<lambda>_. 0) k k'"
    and "kview dev k' = (kview dev k)(a := kview dev k b)" and "k_disk k' = write_block a (kview dev k b) (k_disk k)"
    and "k_writes k' = k_writes k @ [(a, kview dev k b)]" and "k_log k' = k_log k"
proof -
  obtain i j k1 k2 where r: "bread dev a k = Inr (i, k1)" "bread dev b k1 = Inr (j, k2)" and ij: "i \<noteq> j"
    and f: "fits dev a k i" "fits dev b k j" and l1: "k_log k1 = k_log k"
    and k2: "cache_ok dev k2" "kview dev k2 = kview dev k" "k_disk k2 = k_disk k" "k_writes k2 = k_writes k" "k_log k2 = k_log k" "k_pid k2 = k_pid k"
    and b2: "\<forall>l < K_NBUF. buf k2 l = (if l = i then loaded dev a k i else if l = j then loaded dev b k j else buf k l)"
    by (rule two_reads [OF ok ab room])
  have n: "i < K_NBUF" "j < K_NBUF" using f by (simp_all add: fits_def)
  have bij: "buf k2 i = loaded dev a k i" "buf k2 j = loaded dev b k j" using b2 n ij by simp_all
  obtain k3 k4 where s: "set_data i (kb_data (buf k2 j)) k2 = Inr ((), k3)" "bwrite i k3 = Inr ((), k4)"
    and k4: "cache_ok dev k4" "kview dev k4 = (kview dev k)(a := kview dev k b)"
      "k_disk k4 = write_block a (kview dev k b) (k_disk k2)" "k_writes k4 = k_writes k2 @ [(a, kview dev k b)]"
      "k_log k4 = k_log k2" "k_pid k4 = k_pid k2"
    and b4: "\<forall>l < K_NBUF. buf k4 l = (if l = i then (loaded dev a k i)\<lparr>kb_data := kview dev k b\<rparr> else buf k2 l)"
    by (rule copy_run [OF k2(1) ij [symmetric] n(2,1) ok(2) bij(2,1) ab(3) ok(1) k2(2,6)])
  note D = block_written [OF cache_okD(3) [OF ok(1)] ab(2) length_kview [OF ok(1) ab(3)]]
  have c4: "buf k4 i = (loaded dev a k i)\<lparr>kb_data := kview dev k b\<rparr>" "buf k4 j = loaded dev b k j" using b4 bij n ij by simp_all
  obtain k5 where r5: "kbind (brelse j) (\<lambda>_. brelse i) k4 = Inr ((), k5)" and k5: "cache_ok dev k5" "kview dev k5 = kview dev k4"
    and b5: "\<forall>l < K_NBUF. buf k5 l = (if l = j \<or> l = i
           then (buf k4 l)\<lparr>kb_lock := \<lparr>sl_locked = False, sl_pid = 0\<rparr>, kb_refcnt := kb_refcnt (buf k4 l) - 1\<rparr> else buf k4 l)"
    and s5: "k_disk k5 = k_disk k4" "k_writes k5 = k_writes k4" "k_log k5 = k_log k4" "k_pid k5 = k_pid k4"
  proof (rule two_releases [OF k4(1) ij [symmetric] n(2,1)])
    show "kb_data (buf k4 j) = block (k_disk k4) (kb_blockno (buf k4 j))" if "kb_refcnt (buf k4 j) = 1"
      using held_not_one [OF f(2)] that D(1) ab(1) by (simp add: c4 k4(3) k2(3) loaded_def)
    show "kb_data (buf k4 i) = block (k_disk k4) (kb_blockno (buf k4 i))" if "kb_refcnt (buf k4 i) = 1"
      using D(1) by (simp add: c4 k4(3) k2(3) loaded_def)
  qed (simp_all add: c4 loaded_def held_def k4(6) k2(6))
  have run: "write_log_step tail k = Inr ((), k5)"
    unfolding write_log_step_def log by (simp add: r s r5)
  have B: "buf k5 l = (if l = i then (loaded dev a k i)\<lparr>kb_data := kview dev k b, kb_lock := \<lparr>sl_locked = False, sl_pid = 0\<rparr>, kb_refcnt := kb_refcnt (buf k i)\<rparr>
      else if l = j then (loaded dev b k j)\<lparr>kb_lock := \<lparr>sl_locked = False, sl_pid = 0\<rparr>, kb_refcnt := kb_refcnt (buf k j)\<rparr> else buf k l)"
    if "l < K_NBUF" for l using b5 b4 b2 c4 that ij by simp
  have "calm k5" using ok(2) by (simp add: calm_def B)
  moreover have "keeps (\<lambda>_. 0) k k5" using f by (auto simp: keeps_def B s5 k4 k2 fits_def keyed_def)
  ultimately show ?thesis by (intro that [OF run k5(1)]) (simp_all add: k5 k4 k2 s5)
qed

lemma install_step_run:
  assumes ok: "cache_ok dev k" "calm k" and log: "lg_dev (k_log k) = dev" "(lg_start (k_log k) + tail + 1) mod 2 ^ 32 = a"
      "lg_block (k_log k) ! tail = b"
    and ab: "a \<noteq> b" "a < image_blocks (k_disk k)" "b < image_blocks (k_disk k)" and room: "room dev k b"
    and pin: "\<not> recovering \<Longrightarrow> pinned dev k b"
  obtains k' where "install_step recovering tail k = Inr ((), k')" and "cache_ok dev k'" and "calm k'"
    and "keeps (\<lambda>l. if \<not> recovering \<and> keyed k dev b l then 1 else 0) k k'"
    and "kview dev k' = (kview dev k)(b := kview dev k a)" and "k_disk k' = write_block b (kview dev k a) (k_disk k)"
    and "k_writes k' = k_writes k @ [(b, kview dev k a)]" and "k_log k' = k_log k"
proof -
  obtain i j k1 k2 where r: "bread dev a k = Inr (i, k1)" "bread dev b k1 = Inr (j, k2)" and ij: "i \<noteq> j"
    and f: "fits dev a k i" "fits dev b k j" and l1: "k_log k1 = k_log k"
    and k2: "cache_ok dev k2" "kview dev k2 = kview dev k" "k_disk k2 = k_disk k" "k_writes k2 = k_writes k" "k_log k2 = k_log k" "k_pid k2 = k_pid k"
    and b2: "\<forall>l < K_NBUF. buf k2 l = (if l = i then loaded dev a k i else if l = j then loaded dev b k j else buf k l)"
    by (rule two_reads [OF ok ab room])
  have n: "i < K_NBUF" "j < K_NBUF" using f by (simp_all add: fits_def)
  have bij: "buf k2 i = loaded dev a k i" "buf k2 j = loaded dev b k j" using b2 n ij by simp_all
  obtain k3 k4 where s: "set_data j (kb_data (buf k2 i)) k2 = Inr ((), k3)" "bwrite j k3 = Inr ((), k4)"
    and k4: "cache_ok dev k4" "kview dev k4 = (kview dev k)(b := kview dev k a)"
      "k_disk k4 = write_block b (kview dev k a) (k_disk k2)" "k_writes k4 = k_writes k2 @ [(b, kview dev k a)]"
      "k_log k4 = k_log k2" "k_pid k4 = k_pid k2"
    and b4: "\<forall>l < K_NBUF. buf k4 l = (if l = j then (loaded dev b k j)\<lparr>kb_data := kview dev k a\<rparr> else buf k2 l)"
    by (rule copy_run [OF k2(1) ij n ok(2) bij ab(2) ok(1) k2(2,6)])
  note D = block_written [OF cache_okD(3) [OF ok(1)] ab(3) length_kview [OF ok(1) ab(2)]]
  have c4: "buf k4 j = (loaded dev b k j)\<lparr>kb_data := kview dev k a\<rparr>" "buf k4 i = loaded dev a k i" using b4 bij n ij by simp_all
  have key: "keyed k dev b l \<longleftrightarrow> l = j" and pinj: "kb_refcnt (buf k j) \<noteq> 0" if "\<not> recovering" "l < K_NBUF" for l
  proof -
    have kj: "keyed k dev b j" using f(2) pin [OF that(1)] by (simp add: fits_def)
    have uniq: "keyed k dev b m \<longleftrightarrow> m = j" if "m < K_NBUF" for m
      using cache_okD(5) [OF ok(1)] n(2) kj that by (auto simp: unique_keys_def keyed_def)
    show "keyed k dev b l \<longleftrightarrow> l = j" using uniq that(2) .
    show "kb_refcnt (buf k j) \<noteq> 0" using pin [OF that(1)] uniq by (auto simp: pinned_def)
  qed
  let ?dec = "if recovering then 0 else 1 :: 32 word"
  let ?k5 = "if recovering then k4 else upd_buf j (\<lambda>b. b\<lparr>kb_refcnt := kb_refcnt b - 1\<rparr>) k4"
  have "kb_refcnt (buf k4 j) \<noteq> 1" if "\<not> recovering" using pinj [OF that n(2)] by (simp add: c4)
  note U = bunpin_run [OF k4(1) n(2)]
  have u: "(if recovering then kret () else bunpin j) k4 = Inr ((), ?k5)" and k5: "cache_ok dev ?k5" "kview dev ?k5 = kview dev k4"
    using U \<open>\<not> recovering \<Longrightarrow> kb_refcnt (buf k4 j) \<noteq> 1\<close> k4(1) by simp_all
  have s5: "k_disk ?k5 = k_disk k4" "k_writes ?k5 = k_writes k4" "k_log ?k5 = k_log k4" "k_pid ?k5 = k_pid k4" by simp_all
  have c5: "buf ?k5 l = (if l = j then (loaded dev b k j)\<lparr>kb_data := kview dev k a, kb_refcnt := kb_refcnt (buf k j) + 1 - ?dec\<rparr> else buf k2 l)"
    if "l < K_NBUF" for l
    using b4 that n(2) by (simp add: buf_upd_buf cache_okD(1) [OF k4(1)] c4)
  have d5: "buf ?k5 j = (loaded dev b k j)\<lparr>kb_data := kview dev k a, kb_refcnt := kb_refcnt (buf k j) + 1 - ?dec\<rparr>" "buf ?k5 i = loaded dev a k i"
    using c5 [OF n(1)] c5 [OF n(2)] ij bij by simp_all
  obtain k6 where r6: "kbind (brelse i) (\<lambda>_. brelse j) ?k5 = Inr ((), k6)" and k6: "cache_ok dev k6" "kview dev k6 = kview dev ?k5"
    and b6: "\<forall>l < K_NBUF. buf k6 l = (if l = i \<or> l = j
           then (buf ?k5 l)\<lparr>kb_lock := \<lparr>sl_locked = False, sl_pid = 0\<rparr>, kb_refcnt := kb_refcnt (buf ?k5 l) - 1\<rparr> else buf ?k5 l)"
    and s6: "k_disk k6 = k_disk ?k5" "k_writes k6 = k_writes ?k5" "k_log k6 = k_log ?k5" "k_pid k6 = k_pid ?k5"
  proof (rule two_releases [OF k5(1) ij n])
    show "kb_data (buf ?k5 i) = block (k_disk ?k5) (kb_blockno (buf ?k5 i))" if "kb_refcnt (buf ?k5 i) = 1"
      using held_not_one [OF f(1)] that D(1) ab(1) unfolding d5 s5 by (simp add: k4(3) k2(3))
    show "kb_data (buf ?k5 j) = block (k_disk ?k5) (kb_blockno (buf ?k5 j))" if "kb_refcnt (buf ?k5 j) = 1"
      using D(1) unfolding d5 s5 by (simp add: k4(3) k2(3))
    show "kb_lock (buf ?k5 i) = held ?k5" "kb_lock (buf ?k5 j) = held ?k5" unfolding d5 held_def s5 by (simp_all add: held_def k4(6) k2(6))
    show "kb_valid (buf ?k5 i)" "kb_valid (buf ?k5 j)" unfolding d5 by simp_all
  qed
  have run: "install_step recovering tail k = Inr ((), k6)"
    unfolding install_step_def log using u r6 by (cases recovering) (simp_all add: r s)
  have B: "buf k6 l = (if l = j then (loaded dev b k j)\<lparr>kb_data := kview dev k a, kb_lock := \<lparr>sl_locked = False, sl_pid = 0\<rparr>, kb_refcnt := kb_refcnt (buf k j) - ?dec\<rparr>
      else if l = i then (loaded dev a k i)\<lparr>kb_lock := \<lparr>sl_locked = False, sl_pid = 0\<rparr>, kb_refcnt := kb_refcnt (buf k i)\<rparr> else buf k l)"
    if "l < K_NBUF" for l using b6 [rule_format, OF that] c5 [OF that] b2 d5 that ij by (auto simp del: if_split)
  have "calm k6" using ok(2) pinj by (auto simp: calm_def B)
  moreover have "keeps (\<lambda>l. if \<not> recovering \<and> keyed k dev b l then 1 else 0) k k6"
    using f key by (auto simp: keeps_def B s6 s5 k4 k2 fits_def keyed_def)
  ultimately show ?thesis by (intro that [OF run k6(1)]) (simp_all add: k6 k5 k4 k2 s6 s5 del: if_split)
qed

section \<open>One buffer at a time\<close>

lemma one_read:
  assumes "cache_ok dev k" and "calm k" and "a < image_blocks (k_disk k)" and "free_bufs k \<noteq> {}"
  obtains i k1 where "bread dev a k = Inr (i, k1)" and "fits dev a k i" and "cache_ok dev k1" and "kview dev k1 = kview dev k"
    and "k_disk k1 = k_disk k" and "k_writes k1 = k_writes k" and "k_log k1 = k_log k" and "k_pid k1 = k_pid k"
    and "\<forall>l < K_NBUF. buf k1 l = (if l = i then loaded dev a k i else buf k l)"
proof -
  have calm: "\<not> sl_locked (kb_lock (buf k l))" "kb_refcnt (buf k l) + 1 \<noteq> 0" if "l < K_NBUF" for l
    using assms(2) that by (simp_all add: calm_def)
  have "(\<exists>i < K_NBUF. keyed k dev a i) \<or> (\<exists>i < K_NBUF. kb_refcnt (buf k i) = 0)" using assms(4) by (auto simp: free_bufs_def)
  then obtain i where i: "reusable dev a k i" and r1: "bread dev a k = Inr (i, upd_buf i (\<lambda>_. loaded dev a k i) k)"
    using bread_run [OF assms(1,3)] calm(1) by metis
  have ni: "i < K_NBUF" using i by (simp add: reusable_def)
  have "fits dev a k i" using kview_clean [OF assms(1) i] i by (auto simp: fits_def reusable_def pinned_def)
  then show ?thesis
    by (rule that [OF r1]) (use bread_law [OF assms(1) i assms(3) calm(2) [OF ni]] ni in \<open>simp_all add: buf_upd_buf cache_okD(1) [OF assms(1)]\<close>)
qed

text \<open>Giving one buffer back, possibly with new data that is on disk.\<close>

lemma one_release:
  assumes "cache_ok dev k1" and "calm k" and "fits dev a k i" and "k_pid k1 = k_pid k"
    and "\<forall>l < K_NBUF. buf k1 l = (if l = i then (loaded dev a k i)\<lparr>kb_data := x\<rparr> else buf k l)"
    and "kb_refcnt (buf k i) = 0 \<Longrightarrow> x = block (k_disk k1) a"
  obtains k' where "brelse i k1 = Inr ((), k')" and "cache_ok dev k'" and "calm k'" and "keeps (\<lambda>_. 0) k k'"
    and "kview dev k' = kview dev k1" and "k_disk k' = k_disk k1" and "k_writes k' = k_writes k1" and "k_log k' = k_log k1"
proof -
  have n: "i < K_NBUF" using assms(3) by (simp add: fits_def)
  have b: "buf k1 i = (loaded dev a k i)\<lparr>kb_data := x\<rparr>" using assms(5) n by simp
  obtain k' where r: "brelse i k1 = Inr ((), k')" and k': "cache_ok dev k'" "kview dev k' = kview dev k1"
    and b': "\<forall>j < K_NBUF. buf k' j = (if j = i then (buf k1 i)\<lparr>kb_lock := \<lparr>sl_locked = False, sl_pid = 0\<rparr>, kb_refcnt := kb_refcnt (buf k1 i) - 1\<rparr> else buf k1 j)"
    and s': "k_disk k' = k_disk k1" "k_writes k' = k_writes k1" "k_log k' = k_log k1" "k_pid k' = k_pid k1"
  proof (rule brelse_run [OF assms(1) n])
    show "kb_data (buf k1 i) = block (k_disk k1) (kb_blockno (buf k1 i))" if "kb_refcnt (buf k1 i) = 1"
      using that assms(6) by (simp add: b)
  qed (simp_all add: b held_def assms(4))
  have B: "buf k' l = (if l = i then (loaded dev a k i)\<lparr>kb_data := x, kb_lock := \<lparr>sl_locked = False, sl_pid = 0\<rparr>, kb_refcnt := kb_refcnt (buf k i)\<rparr> else buf k l)"
    if "l < K_NBUF" for l using b' assms(5) that by (simp add: b)
  have "calm k'" using assms(2) by (simp add: calm_def B)
  moreover have "keeps (\<lambda>_. 0) k k'" using assms(3) by (auto simp: keeps_def B s' assms(4) fits_def keyed_def)
  ultimately show ?thesis by (intro that [OF r k'(1)]) (simp_all add: k' s')
qed

lemma readsb_run:
  assumes "cache_ok dev k" and "calm k" and "1 < image_blocks (k_disk k)" and "free_bufs k \<noteq> {}"
  obtains k' where "readsb dev k = Inr (take 32 (kview dev k 1), k')" and "cache_ok dev k'" and "calm k'" and "keeps (\<lambda>_. 0) k k'"
    and "kview dev k' = kview dev k" and "k_disk k' = k_disk k" and "k_writes k' = k_writes k" and "k_log k' = k_log k"
proof -
  obtain i k1 where r: "bread dev 1 k = Inr (i, k1)" and f: "fits dev 1 k i" and k1: "cache_ok dev k1" "kview dev k1 = kview dev k"
      "k_disk k1 = k_disk k" "k_writes k1 = k_writes k" "k_log k1 = k_log k" "k_pid k1 = k_pid k"
    and b: "\<forall>l < K_NBUF. buf k1 l = (if l = i then loaded dev 1 k i else buf k l)"
    by (rule one_read [OF assms])
  have b1: "buf k1 i = loaded dev 1 k i" using b f by (simp add: fits_def)
  have clean: "kview dev k 1 = block (k_disk k1) 1" if "kb_refcnt (buf k i) = 0" using f that by (simp add: fits_def k1)
  have bufs: "\<forall>l < K_NBUF. buf k1 l = (if l = i then (loaded dev 1 k i)\<lparr>kb_data := kview dev k 1\<rparr> else buf k l)" using b by (simp add: loaded_def)
  obtain k' where "brelse i k1 = Inr ((), k')" "cache_ok dev k'" "calm k'" "keeps (\<lambda>_. 0) k k'" "kview dev k' = kview dev k1"
      "k_disk k' = k_disk k1" "k_writes k' = k_writes k1" "k_log k' = k_log k1"
    by (rule one_release [OF k1(1) assms(2) f k1(6) bufs clean])
  then show ?thesis by (intro that [of k']) (simp_all add: readsb_def r [simplified] k1 b1)
qed

lemma length_header_bytes:
  assumes "length old = BSIZE" and "n \<le> int K_LOGBLOCKS" and "length blocks = K_LOGBLOCKS"
  shows "length (header_bytes n blocks old) = BSIZE"
proof -
  have "nat n \<le> 30" using assms(2) by (simp add: kernel_consts)
  moreover have "length (concat (map (le_bytes 4) ts)) = 4 * length ts" for ts by (induction ts) simp_all
  ultimately show ?thesis using assms(1,3) by (simp add: header_bytes_def kernel_consts BSIZE_def)
qed

lemma write_head_run:
  assumes "cache_ok dev k" and "calm k" and "free_bufs k \<noteq> {}" and "lg_dev (k_log k) = dev" and "lg_start (k_log k) = a"
    and "a < image_blocks (k_disk k)" and "lg_n (k_log k) \<le> int K_LOGBLOCKS" and "length (lg_block (k_log k)) = K_LOGBLOCKS"
    and "h = header_bytes (lg_n (k_log k)) (lg_block (k_log k)) (kview dev k a)"
  obtains k' where "write_head k = Inr ((), k')" and "cache_ok dev k'" and "calm k'" and "keeps (\<lambda>_. 0) k k'"
    and "kview dev k' = (kview dev k)(a := h)" and "k_disk k' = write_block a h (k_disk k)"
    and "k_writes k' = k_writes k @ [(a, h)]" and "k_log k' = k_log k"
proof -
  obtain i k1 where r: "bread dev a k = Inr (i, k1)" and f: "fits dev a k i" and k1: "cache_ok dev k1" "kview dev k1 = kview dev k"
      "k_disk k1 = k_disk k" "k_writes k1 = k_writes k" "k_log k1 = k_log k" "k_pid k1 = k_pid k"
    and b: "\<forall>l < K_NBUF. buf k1 l = (if l = i then loaded dev a k i else buf k l)"
    by (rule one_read [OF assms(1,2,6,3)])
  have n: "i < K_NBUF" using f by (simp add: fits_def)
  have b1: "buf k1 i = loaded dev a k i" using b n by simp
  have lh: "length h = BSIZE" using length_header_bytes [OF length_kview [OF assms(1,6)] assms(7,8)] assms(9) by simp
  let ?k2 = "upd_buf i (\<lambda>c. c\<lparr>kb_data := h\<rparr>) k1"
  have v: "kb_valid (buf k1 i)" "kb_refcnt (buf k1 i) \<noteq> 0" using assms(2) n by (simp_all add: b1 calm_def)
  note S = set_data_law [OF k1(1) n v lh]
  have b2: "buf ?k2 l = (if l = i then (loaded dev a k i)\<lparr>kb_data := h\<rparr> else buf k1 l)" for l
    using n by (simp add: buf_upd_buf cache_okD(1) [OF k1(1)] b1)
  have "kb_valid (buf ?k2 i)" "kb_lock (buf ?k2 i) = held ?k2" by (simp_all add: b2 held_def k1)
  note W = bwrite_run [OF S(1) n this]
  let ?k3 = "flushed i ?k2"
  have pid3: "k_pid ?k3 = k_pid k" by (simp add: k1)
  have bufs: "\<forall>l < K_NBUF. buf ?k3 l = (if l = i then (loaded dev a k i)\<lparr>kb_data := h\<rparr> else buf k l)" using b by (simp add: b2)
  have clean: "h = block (k_disk ?k3) a" if "kb_refcnt (buf k i) = 0"
    using block_written(1) [OF cache_okD(3) [OF assms(1)] assms(6) lh] by (simp add: b2 k1)
  obtain k' where k': "brelse i ?k3 = Inr ((), k')" "cache_ok dev k'" "calm k'" "keeps (\<lambda>_. 0) k k'" "kview dev k' = kview dev ?k3"
      "k_disk k' = k_disk ?k3" "k_writes k' = k_writes ?k3" "k_log k' = k_log ?k3"
    by (rule one_release [OF W(2) assms(2) f pid3 bufs clean])
  have "set_data i (header_bytes (lg_n (k_log k1)) (lg_block (k_log k1)) (kb_data (buf k1 i))) k1 = Inr ((), ?k2)"
    by (simp add: set_data_def k1 b1 assms(9))
  then have "write_head k = Inr ((), k')" unfolding write_head_def assms(4,5) using k'(1) W(1) by (simp add: r)
  then show ?thesis by (rule that) (use k' W(3) S(2) in \<open>simp_all add: b1 b2 k1\<close>)
qed

end
