(* ===== verification/KernelCommit.thy ===== *)
theory KernelCommit
  imports KernelLog
begin

text \<open>
  The loops of the log: recovery installs the logged blocks, and a commit performs exactly the writes of
  the write-ahead protocol.  Between two operations the cache pins the logged blocks, once each, and
  refers to no other buffer; a block that is not pinned is seen as it is on disk.
\<close>

section \<open>Pinned blocks\<close>

definition steady :: "nat \<Rightarrow> kernel \<Rightarrow> nat set \<Rightarrow> bool" where
  "steady dev k T \<longleftrightarrow> cache_ok dev k \<and> calm k \<and> (\<forall>t \<in> T. \<exists>l < K_NBUF. keyed k dev t l) \<and>
     (\<forall>l < K_NBUF. kb_refcnt (buf k l) = (if kb_dev (buf k l) = dev \<and> kb_blockno (buf k l) \<in> T then 1 else 0))"

lemma steadyD:
  assumes "steady dev k T"
  shows "cache_ok dev k" and "calm k" and "t \<in> T \<Longrightarrow> pinned dev k t"
    and "l < K_NBUF \<Longrightarrow> kb_refcnt (buf k l) = (if kb_dev (buf k l) = dev \<and> kb_blockno (buf k l) \<in> T then 1 else 0)"
proof -
  show "pinned dev k t" if "t \<in> T"
  proof -
    from that obtain l where "l < K_NBUF" "keyed k dev t l" using assms by (auto simp: steady_def)
    then show ?thesis using assms that by (auto simp: steady_def pinned_def keyed_def)
  qed
qed (use assms in \<open>simp_all add: steady_def\<close>)

text \<open>An operation that keeps the references, except for those to the blocks \<open>B\<close>.\<close>

lemma steady_keeps:
  assumes "steady dev k T" and "cache_ok dev k'" and "calm k'" and "B \<subseteq> T"
    and "keeps dec k k'" and "\<And>l. l < K_NBUF \<Longrightarrow> dec l = (if \<exists>b \<in> B. keyed k dev b l then 1 else 0)"
  shows "steady dev k' (T - B)"
proof -
  have K: "kb_refcnt (buf k' l) = kb_refcnt (buf k l) - dec l"
    "kb_refcnt (buf k l) \<noteq> 0 \<Longrightarrow> kb_dev (buf k' l) = kb_dev (buf k l) \<and> kb_blockno (buf k' l) = kb_blockno (buf k l)" if "l < K_NBUF" for l
    using assms(5) that by (simp_all add: keeps_def)
  note S = steadyD(4) [OF assms(1)]
  have key: "\<exists>l < K_NBUF. keyed k dev t l \<and> keyed k' dev t l" if t: "t \<in> T" for t
  proof -
    obtain l where l: "l < K_NBUF" "keyed k dev t l" using assms(1) t by (auto simp: steady_def)
    then have "kb_refcnt (buf k l) \<noteq> 0" using S t by (simp add: keyed_def)
    then show ?thesis using K(2) l by (auto simp: keyed_def)
  qed
  have "kb_refcnt (buf k' l) = (if kb_dev (buf k' l) = dev \<and> kb_blockno (buf k' l) \<in> T - B then 1 else 0)" if l: "l < K_NBUF" for l
  proof (cases "kb_refcnt (buf k l) = 0")
    case True
    have "\<not> keyed k' dev t l" if "t \<in> T" for t
    proof
      assume "keyed k' dev t l"
      moreover obtain p where p: "p < K_NBUF" "keyed k dev t p" "keyed k' dev t p" using key \<open>t \<in> T\<close> by blast
      ultimately have "p = l" using cache_okD(5) [OF assms(2)] l by (auto simp: unique_keys_def keyed_def)
      then show False using S [OF l] True p \<open>t \<in> T\<close> by (simp add: keyed_def)
    qed
    moreover have "dec l = 0" using S [OF l] True assms(4,6) l by (auto simp: keyed_def)
    ultimately show ?thesis using K(1) [OF l] True by (auto simp: keyed_def)
  next
    case False
    then have "kb_dev (buf k l) = dev" "kb_blockno (buf k l) \<in> T" using S [OF l] by (auto split: if_splits)
    then show ?thesis using K [OF l] S [OF l] assms(6) [OF l] by (auto simp: keyed_def)
  qed
  moreover have "\<exists>l < K_NBUF. keyed k' dev t l" if "t \<in> T - B" for t using key that by blast
  ultimately show ?thesis using assms(2,3) by (simp add: steady_def)
qed

lemma steady_same: "steady dev k T \<Longrightarrow> cache_ok dev k' \<Longrightarrow> calm k' \<Longrightarrow> keeps (\<lambda>_. 0) k k' \<Longrightarrow> steady dev k' T"
  using steady_keeps [of dev k T k' "{}"] by simp

lemma steady_drop:
  assumes "steady dev k T" and "cache_ok dev k'" and "calm k'" and "b \<in> T" and "keeps (\<lambda>l. if keyed k dev b l then 1 else 0) k k'"
  shows "steady dev k' (T - {b})"
  using steady_keeps [OF assms(1-3), of "{b}"] assms(4,5) by simp

lemma steady_free:
  assumes "steady dev k T" and "finite T" and "card T < K_NBUF"
  shows "free_bufs k \<noteq> {}"
proof
  assume none: "free_bufs k = {}"
  have all: "kb_dev (buf k l) = dev" "kb_blockno (buf k l) \<in> T" if "l < K_NBUF" for l
    using steadyD(4) [OF assms(1) that] none that by (auto simp: free_bufs_def split: if_splits)
  have "inj_on (\<lambda>l. kb_blockno (buf k l)) {..<K_NBUF}"
    using cache_okD(5) [OF steadyD(1) [OF assms(1)]] all(1) by (auto simp: inj_on_def unique_keys_def)
  then have "card {..<K_NBUF} \<le> card T" using all(2) by (intro card_inj_on_le [OF _ _ assms(2)]) auto
  then show False using assms(3) by simp
qed

lemma steady_room:
  assumes "steady dev k T" and "finite T" and "card T < K_NBUF" and "b \<in> T"
  shows "room dev k b"
  using steady_free [OF assms(1-3)] steadyD(3) [OF assms(1,4)] by (auto simp: room_def)

lemma idle_room: "steady dev k {} \<Longrightarrow> room dev k b"
proof -
  assume "steady dev k {}"
  then have "0 \<in> free_bufs k" "1 \<in> free_bufs k" by (simp_all add: free_bufs_def steady_def kernel_consts)
  then show ?thesis by (auto simp: room_def)
qed

lemma steady_view:
  assumes "steady dev k T" and "b \<notin> T"
  shows "kview dev k b = block (k_disk k) b"
proof (rule kview_eqI)
  fix i
  assume i: "i < K_NBUF" "kb_valid (buf k i)" "keyed k dev b i"
  then have "kb_refcnt (buf k i) = 0" using steadyD(4) [OF assms(1) i(1)] assms(2) by (simp add: keyed_def)
  then show "kb_data (buf k i) = block (k_disk k) b"
    using cache_okD(6) [OF steadyD(1) [OF assms(1)] i(1)] i by (simp add: buf_ok_def keyed_def)
qed simp

lemma log_update [simp]:
  "cache_ok dev (k\<lparr>k_log := l\<rparr>) = cache_ok dev k" "kview dev (k\<lparr>k_log := l\<rparr>) = kview dev k" "calm (k\<lparr>k_log := l\<rparr>) = calm k"
  "free_bufs (k\<lparr>k_log := l\<rparr>) = free_bufs k" "steady dev (k\<lparr>k_log := l\<rparr>) T = steady dev k T"
  by (simp_all add: cache_ok_def unique_keys_def kview_def keyed_def calm_def free_bufs_def steady_def fun_eq_iff split: option.split)

section \<open>Loops\<close>

lemma kfor_upt:
  assumes "\<And>i k. i < n \<Longrightarrow> Q i k \<Longrightarrow> \<exists>k'. f i k = Inr ((), k') \<and> Q (Suc i) k'"
  shows "j \<le> n \<Longrightarrow> Q j k \<Longrightarrow> \<exists>k'. kfor f [j..<n] k = Inr ((), k') \<and> Q n k'"
proof (induction "n - j" arbitrary: j k)
  case 0
  then show ?case by simp
next
  case (Suc d)
  then have j: "j < n" by simp
  obtain k1 where k1: "f j k = Inr ((), k1)" "Q (Suc j) k1" using assms [OF j Suc.prems(2)] by blast
  have "\<exists>k'. kfor f [Suc j..<n] k1 = Inr ((), k') \<and> Q n k'" using Suc.hyps j k1(2) by simp
  then show ?case using k1(1) j by (simp add: upt_conv_Cons)
qed

text \<open>What is seen after a sequence of writes.\<close>

definition wview :: "(nat \<times> bytes) list \<Rightarrow> (nat \<Rightarrow> bytes) \<Rightarrow> nat \<Rightarrow> bytes" where
  "wview ws v = foldl (\<lambda>v (b, x). v(b := x)) v ws"

lemma wview_simps [simp]:
  "wview [] v = v" "wview ((b, x) # ws) v = wview ws (v(b := x))" "wview (ws @ vs) v = wview vs (wview ws v)"
  by (simp_all add: wview_def)

lemma wview_other: "b \<notin> fst ` set ws \<Longrightarrow> wview ws v b = v b"
  unfolding wview_def by (induction ws arbitrary: v) auto

lemma wview_map:
  "distinct (map f xs) \<Longrightarrow> x \<in> set xs \<Longrightarrow> wview (map (\<lambda>x. (f x, g x)) xs) v (f x) = g x"
proof (induction xs rule: rev_induct)
  case (snoc y xs)
  have "f y \<notin> f ` set xs" using snoc.prems(1) by simp
  then have "x = y" if "f x = f y" using snoc.prems(2) that by (metis UnE empty_iff empty_set imageI list.set(2) set_append singletonD insertE)
  then show ?case using snoc by auto
qed simp

text \<open>The log in memory, and where its blocks are on disk.\<close>

definition log_holds :: "nat \<Rightarrow> nat \<Rightarrow> nat list \<Rightarrow> klog \<Rightarrow> bool" where
  "log_holds dev s ts l \<longleftrightarrow> lg_dev l = dev \<and> lg_start l = s \<and> lg_n l = int (length ts) \<and> length ts \<le> K_LOGBLOCKS \<and>
     length (lg_block l) = K_LOGBLOCKS \<and> take (length ts) (lg_block l) = ts"

definition homes_ok :: "nat \<Rightarrow> nat \<Rightarrow> nat list \<Rightarrow> bool" where
  "homes_ok s N ts \<longleftrightarrow> s + K_LOGBLOCKS < N \<and> distinct ts \<and> (\<forall>t \<in> set ts. s + K_LOGBLOCKS < t \<and> t < N)"

lemma log_holds_nth: "log_holds dev s ts l \<Longrightarrow> i < length ts \<Longrightarrow> lg_block l ! i = ts ! i"
  unfolding log_holds_def by (metis nth_take)

lemma log_slot_block:
  assumes "cache_ok dev k" and "homes_ok s (image_blocks (k_disk k)) ts" and "log_holds dev s ts l" and "i < length ts"
  shows "(lg_start l + i + 1) mod 2 ^ 32 = s + 1 + i" and "s + 1 + i < image_blocks (k_disk k)" and "s + 1 + i \<noteq> ts ! i"
    and "ts ! i < image_blocks (k_disk k)" and "s < image_blocks (k_disk k)"
proof -
  have i: "i < K_LOGBLOCKS" "lg_start l = s" using assms(3,4) by (simp_all add: log_holds_def)
  then show lt: "s + 1 + i < image_blocks (k_disk k)" and "s < image_blocks (k_disk k)" using assms(2) by (simp_all add: homes_ok_def)
  then have "s + 1 + i < 2 ^ 32" using cache_okD(4) [OF assms(1)] by simp
  then show "(lg_start l + i + 1) mod 2 ^ 32 = s + 1 + i" using i(2) by simp
  have "ts ! i \<in> set ts" using assms(4) by simp
  then show "s + 1 + i \<noteq> ts ! i" "ts ! i < image_blocks (k_disk k)" using assms(2) i(1) by (auto simp: homes_ok_def)
qed

text \<open>The progress of a loop of writes: view, disk and completed writes follow the same list.\<close>

definition wrote :: "nat \<Rightarrow> (nat \<times> bytes) list \<Rightarrow> kernel \<Rightarrow> kernel \<Rightarrow> bool" where
  "wrote dev ws k k' \<longleftrightarrow> kview dev k' = wview ws (kview dev k) \<and> k_disk k' = img.write_all ws (k_disk k) \<and>
     k_writes k' = k_writes k @ ws \<and> image_blocks (k_disk k') = image_blocks (k_disk k)"

lemma wrote_Nil [simp]: "wrote dev [] k k"
  by (simp add: wrote_def img.write_all_def)

lemma wrote_blocks: "wrote dev ws k k' \<Longrightarrow> image_blocks (k_disk k') = image_blocks (k_disk k)"
  unfolding wrote_def by (elim conjE)

lemma wrote_log [simp]: "wrote dev ws (k\<lparr>k_log := l\<rparr>) k' = wrote dev ws k k'"
  by (simp add: wrote_def)

lemma wrote_trans: "wrote dev ws k k' \<Longrightarrow> wrote dev vs k' k'' \<Longrightarrow> wrote dev (ws @ vs) k k''"
  using wrote_blocks [of dev ws k k'] wrote_blocks [of dev vs k' k''] unfolding wrote_def
  by (elim conjE, intro conjI) (simp_all add: img.write_all_def)

lemma wrote_one:
  assumes "cache_ok dev k" and "kview dev k' = (kview dev k)(b := x)" and "k_disk k' = write_block b x (k_disk k)"
    and "k_writes k' = k_writes k @ [(b, x)]" and "b < image_blocks (k_disk k)" and "length x = BSIZE"
  shows "wrote dev [(b, x)] k k'"
  using assms block_written(2) [OF cache_okD(3) [OF assms(1)] assms(5,6)]
  by (simp add: wrote_def wview_def img.write_all_def)

lemma write_log_run:
  assumes "steady dev k (set ts)" and "log_holds dev s ts (k_log k)" and "homes_ok s (image_blocks (k_disk k)) ts" and "length ts < K_NBUF"
    and "ws = map (\<lambda>i. (s + 1 + i, kview dev k (ts ! i))) [0..<length ts]"
  obtains k' where "write_log k = Inr ((), k')" and "steady dev k' (set ts)" and "k_log k' = k_log k" and "wrote dev ws k k'"
proof -
  let ?ws = "\<lambda>i. map (\<lambda>i. (s + 1 + i, kview dev k (ts ! i))) [0..<i]"
  define Q where "Q i c \<longleftrightarrow> steady dev c (set ts) \<and> k_log c = k_log k \<and> wrote dev (?ws i) k c" for i c
  have "card (set ts) < K_NBUF" using assms(4) card_length [of ts] by linarith
  have step: "\<exists>k'. write_log_step i c = Inr ((), k') \<and> Q (Suc i) k'" if i: "i < length ts" and q: "Q i c" for i c
  proof -
    have c: "steady dev c (set ts)" "k_log c = k_log k" "wrote dev (?ws i) k c" using q by (simp_all add: Q_def)
    have N: "image_blocks (k_disk c) = image_blocks (k_disk k)" using wrote_blocks [OF c(3)] .
    note ok = steadyD(1,2) [OF c(1)]
    note A = log_slot_block [OF ok(1) assms(3) [folded N] assms(2) [folded c(2)] i]
    have rm: "room dev c (ts ! i)" using steady_room [OF c(1) _ \<open>card (set ts) < K_NBUF\<close>] i by simp
    have dev: "lg_dev (k_log c) = dev" and blk: "lg_block (k_log c) ! i = ts ! i"
      using assms(2) log_holds_nth [OF assms(2) i] by (simp_all add: c(2) log_holds_def)
    obtain k' where k': "write_log_step i c = Inr ((), k')" "cache_ok dev k'" "calm k'" "keeps (\<lambda>_. 0) c k'"
      "kview dev k' = (kview dev c)(s + 1 + i := kview dev c (ts ! i))" "k_disk k' = write_block (s + 1 + i) (kview dev c (ts ! i)) (k_disk c)"
      "k_writes k' = k_writes c @ [(s + 1 + i, kview dev c (ts ! i))]" "k_log k' = k_log c"
      by (rule write_log_step_run [OF ok dev A(1) blk A(3,2,4) rm])
    have "ts ! i \<in> set ts" "length ts \<le> K_LOGBLOCKS" using i assms(2) by (simp_all add: log_holds_def)
    then have "ts ! i \<notin> fst ` set (?ws i)" using assms(3) i by (fastforce simp: homes_ok_def)
    then have v: "kview dev c (ts ! i) = kview dev k (ts ! i)" using c(3) by (simp add: wrote_def wview_other)
    have "wrote dev [(s + 1 + i, kview dev k (ts ! i))] c k'"
      using wrote_one [OF ok(1) k'(5-7) A(2) length_kview [OF ok(1) A(4)]] v by simp
    then have "wrote dev (?ws (Suc i)) k k'" using wrote_trans [OF c(3)] by simp
    then show ?thesis using k' c steady_same [OF c(1) k'(2-4)] by (simp add: Q_def)
  qed
  have "Q 0 k" using assms(1) by (simp add: Q_def)
  then obtain k' where "kfor write_log_step [0..<length ts] k = Inr ((), k')" "Q (length ts) k'"
    using kfor_upt [of "length ts" Q write_log_step 0 k, OF step] by auto
  then show ?thesis using assms(2,5) by (intro that [of k']) (simp_all add: Q_def write_log_def log_holds_def)
qed

text \<open>
  Installing: at recovery no block is pinned; at a commit every home block is pinned and loses its pin
  when it is installed.
\<close>

lemma install_trans_run:
  assumes "steady dev k (if recovering then {} else set ts)" and "log_holds dev s ts (k_log k)"
    and "homes_ok s (image_blocks (k_disk k)) ts" and "\<not> recovering \<Longrightarrow> length ts < K_NBUF"
    and "ws = map (\<lambda>i. (ts ! i, kview dev k (s + 1 + i))) [0..<length ts]"
  obtains k' where "install_trans recovering k = Inr ((), k')" and "steady dev k' {}" and "k_log k' = k_log k" and "wrote dev ws k k'"
proof -
  let ?ws = "\<lambda>i. map (\<lambda>i. (ts ! i, kview dev k (s + 1 + i))) [0..<i]"
  let ?T = "\<lambda>i. if recovering then {} else set (drop i ts)"
  define Q where "Q i c \<longleftrightarrow> steady dev c (?T i) \<and> k_log c = k_log k \<and> wrote dev (?ws i) k c" for i c
  have step: "\<exists>k'. install_step recovering i c = Inr ((), k') \<and> Q (Suc i) k'" if i: "i < length ts" and q: "Q i c" for i c
  proof -
    have c: "steady dev c (?T i)" "k_log c = k_log k" "wrote dev (?ws i) k c" using q by (simp_all add: Q_def)
    have N: "image_blocks (k_disk c) = image_blocks (k_disk k)" using wrote_blocks [OF c(3)] .
    note ok = steadyD(1,2) [OF c(1)]
    note A = log_slot_block [OF ok(1) assms(3) [folded N] assms(2) [folded c(2)] i]
    have mem: "\<not> recovering \<Longrightarrow> ts ! i \<in> ?T i" using i by (simp add: Cons_nth_drop_Suc [symmetric])
    have card: "\<not> recovering \<Longrightarrow> card (?T i) < K_NBUF"
      using assms(4) card_length [of "drop i ts"] by simp
    have rm: "room dev c (ts ! i)"
    proof (cases recovering)
      case True
      then show ?thesis using c(1) idle_room by simp
    next
      case False
      then show ?thesis using steady_room [OF c(1) _ card mem] by simp
    qed
    have dev: "lg_dev (k_log c) = dev" and blk: "lg_block (k_log c) ! i = ts ! i"
      using assms(2) log_holds_nth [OF assms(2) i] by (simp_all add: c(2) log_holds_def)
    obtain k' where k': "install_step recovering i c = Inr ((), k')" "cache_ok dev k'" "calm k'"
      "keeps (\<lambda>l. if \<not> recovering \<and> keyed c dev (ts ! i) l then 1 else 0) c k'"
      "kview dev k' = (kview dev c)(ts ! i := kview dev c (s + 1 + i))" "k_disk k' = write_block (ts ! i) (kview dev c (s + 1 + i)) (k_disk c)"
      "k_writes k' = k_writes c @ [(ts ! i, kview dev c (s + 1 + i))]" "k_log k' = k_log c"
      by (rule install_step_run [OF ok dev A(1) blk A(3,2,4) rm steadyD(3) [OF c(1) mem]])
    have "length ts \<le> K_LOGBLOCKS" using assms(2) by (simp add: log_holds_def)
    then have "ts ! j \<noteq> s + 1 + i" if "j < i" for j
      using nth_mem [of j ts] assms(3) i that unfolding homes_ok_def by fastforce
    then have "s + 1 + i \<notin> fst ` set (?ws i)" by (auto, blast)
    then have v: "kview dev c (s + 1 + i) = kview dev k (s + 1 + i)" using c(3) by (simp add: wrote_def wview_other)
    have "wrote dev [(ts ! i, kview dev k (s + 1 + i))] c k'"
      using wrote_one [OF ok(1) k'(5-7) A(4) length_kview [OF ok(1) A(2)]] v by simp
    then have w: "wrote dev (?ws (Suc i)) k k'" using wrote_trans [OF c(3)] by simp
    have "steady dev k' (?T (Suc i))"
    proof (cases recovering)
      case True
      then show ?thesis using steady_same [OF c(1) k'(2,3)] k'(4) by simp
    next
      case False
      have "set (drop i ts) - {ts ! i} = set (drop (Suc i) ts)"
        using i assms(3) by (subst Cons_nth_drop_Suc [symmetric]) (auto simp: homes_ok_def dest: in_set_dropD, metis Cons_nth_drop_Suc distinct.simps(2) distinct_drop)
      then show ?thesis using steady_drop [OF c(1) k'(2,3) mem] k'(4) False by simp
    qed
    then show ?thesis using k' c w by (simp add: Q_def)
  qed
  have "Q 0 k" using assms(1) by (cases recovering) (simp_all add: Q_def)
  then obtain k' where "kfor (install_step recovering) [0..<length ts] k = Inr ((), k')" "Q (length ts) k'"
    using kfor_upt [of "length ts" Q "install_step recovering" 0 k, OF step] by auto
  then show ?thesis using assms(2,5) by (intro that [of k']) (simp_all add: Q_def install_trans_def log_holds_def split: if_splits)
qed

lemma read_head_run:
  assumes "steady dev k T" and "free_bufs k \<noteq> {}" and "lg_dev (k_log k) = dev" and "lg_start (k_log k) = s"
    and "s < image_blocks (k_disk k)" and "n = signed 32 (u32_at (kview dev k s) 0)" and "n \<le> int K_LOGBLOCKS"
  obtains k' where "read_head k = Inr ((), k')" and "steady dev k' T" and "wrote dev [] k k'"
    and "k_log k' = (k_log k)\<lparr>lg_n := n, lg_block := map (\<lambda>j. u32_at (kview dev k s) (4 + 4 * j)) [0..<nat n] @ drop (nat n) (lg_block (k_log k))\<rparr>"
proof -
  note ok = steadyD(1,2) [OF assms(1)]
  obtain i k1 where r: "bread dev s k = Inr (i, k1)" and f: "fits dev s k i" and k1: "cache_ok dev k1" "kview dev k1 = kview dev k"
      "k_disk k1 = k_disk k" "k_writes k1 = k_writes k" "k_log k1 = k_log k" "k_pid k1 = k_pid k"
    and b: "\<forall>l < K_NBUF. buf k1 l = (if l = i then loaded dev s k i else buf k l)"
    by (rule one_read [OF ok assms(5,2)])
  have b1: "buf k1 i = loaded dev s k i" using b f by (simp add: fits_def)
  let ?l = "(k_log k)\<lparr>lg_n := n, lg_block := map (\<lambda>j. u32_at (kview dev k s) (4 + 4 * j)) [0..<nat n] @ drop (nat n) (lg_block (k_log k))\<rparr>"
  let ?k2 = "k1\<lparr>k_log := ?l\<rparr>"
  have clean: "kview dev k s = block (k_disk ?k2) s" if "kb_refcnt (buf k i) = 0" using f that by (simp add: fits_def k1)
  have bufs: "\<forall>l < K_NBUF. buf ?k2 l = (if l = i then (loaded dev s k i)\<lparr>kb_data := kview dev k s\<rparr> else buf k l)" using b by (simp add: loaded_def)
  have ok2: "cache_ok dev ?k2" "k_pid ?k2 = k_pid k" using k1 by simp_all
  obtain k' where k': "brelse i ?k2 = Inr ((), k')" "cache_ok dev k'" "calm k'" "keeps (\<lambda>_. 0) k k'" "kview dev k' = kview dev ?k2"
      "k_disk k' = k_disk ?k2" "k_writes k' = k_writes ?k2" "k_log k' = k_log ?k2"
    by (rule one_release [OF ok2(1) ok(2) f ok2(2) bufs clean])
  have "read_head k = Inr ((), k')"
    unfolding read_head_def assms(3,4) using k'(1) assms(6,7) by (simp add: r b1 Let_def k1)
  then show ?thesis
    by (rule that) (use k' k1 steady_same [OF assms(1) k'(2-4)] in \<open>simp_all add: wrote_def img.write_all_def\<close>)
qed

section \<open>Recovery and commit\<close>

text \<open>The writes of the protocol: payload, header, home blocks, cleared header.\<close>

definition install_writes :: "nat \<Rightarrow> nat list \<Rightarrow> (nat \<Rightarrow> bytes) \<Rightarrow> (nat \<times> bytes) list" where
  "install_writes s ts v = map (\<lambda>i. (ts ! i, v (s + 1 + i))) [0..<length ts]"

definition payload_writes :: "nat \<Rightarrow> nat list \<Rightarrow> (nat \<Rightarrow> bytes) \<Rightarrow> (nat \<times> bytes) list" where
  "payload_writes s ts v = map (\<lambda>i. (s + 1 + i, v (ts ! i))) [0..<length ts]"

definition home_writes :: "nat list \<Rightarrow> (nat \<Rightarrow> bytes) \<Rightarrow> (nat \<times> bytes) list" where
  "home_writes ts v = map (\<lambda>t. (t, v t)) ts"

definition commit_header :: "nat list \<Rightarrow> bytes \<Rightarrow> bytes" where
  "commit_header ts old = header_bytes (int (length ts)) ts old"

definition clear_header :: "bytes \<Rightarrow> bytes" where
  "clear_header old = replicate 4 0 @ drop 4 old"

definition commit_writes :: "nat \<Rightarrow> nat list \<Rightarrow> (nat \<Rightarrow> bytes) \<Rightarrow> (nat \<times> bytes) list" where
  "commit_writes s ts v =
     payload_writes s ts v @ [(s, commit_header ts (v s))] @ home_writes ts v @ [(s, clear_header (commit_header ts (v s)))]"

lemma header_bytes_0: "header_bytes 0 blocks old = clear_header old"
  by (simp add: header_bytes_def clear_header_def unsigned_of_def le_bytes_0)

lemma log_header: "log_holds dev s ts l \<Longrightarrow> header_bytes (lg_n l) (lg_block l) old = commit_header ts old"
  by (simp add: log_holds_def header_bytes_def commit_header_def)

lemma idle_free: "steady dev k {} \<Longrightarrow> free_bufs k \<noteq> {}"
  using steady_free [of dev k "{}"] by (simp add: kernel_consts)

text \<open>Writing the header in a state between operations.\<close>

lemma write_head_steady:
  assumes "steady dev k T" and "free_bufs k \<noteq> {}" and "log_holds dev s ts (k_log k)" and "s < image_blocks (k_disk k)"
  obtains k' where "write_head k = Inr ((), k')" and "steady dev k' T" and "k_log k' = k_log k"
    and "wrote dev [(s, commit_header ts (kview dev k s))] k k'"
proof -
  note ok = steadyD(1,2) [OF assms(1)]
  have l: "lg_dev (k_log k) = dev" "lg_start (k_log k) = s" "lg_n (k_log k) \<le> int K_LOGBLOCKS" "length (lg_block (k_log k)) = K_LOGBLOCKS"
    using assms(3) by (simp_all add: log_holds_def)
  let ?h = "commit_header ts (kview dev k s)"
  obtain k' where k': "write_head k = Inr ((), k')" "cache_ok dev k'" "calm k'" "keeps (\<lambda>_. 0) k k'"
    "kview dev k' = (kview dev k)(s := ?h)" "k_disk k' = write_block s ?h (k_disk k)" "k_writes k' = k_writes k @ [(s, ?h)]" "k_log k' = k_log k"
    by (rule write_head_run [OF ok assms(2) l(1,2) assms(4) l(3,4) log_header [OF assms(3), symmetric]])
  have "length ?h = BSIZE" using length_header_bytes [OF length_kview [OF ok(1) assms(4)] l(3,4)] log_header [OF assms(3)] by simp
  then show ?thesis using k' steady_same [OF assms(1) k'(2-4)] wrote_one [OF ok(1) k'(5-7) assms(4)] by (intro that [of k'])
qed

lemma cleared_log: "log_holds dev s ts l \<Longrightarrow> log_holds dev s [] (l\<lparr>lg_n := 0\<rparr>)"
  by (simp add: log_holds_def)

lemma commit_header_Nil: "commit_header [] old = clear_header old"
  by (simp add: commit_header_def header_bytes_0)

text \<open>The last two steps of recovery and of commit.\<close>

lemma clear_run:
  assumes "steady dev k {}" and "log_holds dev s ts (k_log k)" and "s < image_blocks (k_disk k)"
  obtains k' where "kbind (set_n 0) (\<lambda>_. write_head) k = Inr ((), k')" and "steady dev k' {}" and "k_log k' = (k_log k)\<lparr>lg_n := 0\<rparr>"
    and "wrote dev [(s, clear_header (kview dev k s))] k k'"
proof -
  let ?k = "k\<lparr>k_log := (k_log k)\<lparr>lg_n := 0\<rparr>\<rparr>"
  obtain k' where k': "write_head ?k = Inr ((), k')" "steady dev k' {}" "k_log k' = k_log ?k"
    "wrote dev [(s, commit_header [] (kview dev ?k s))] ?k k'"
    by (rule write_head_steady [of dev ?k "{}" s "[]"]) (use assms idle_free [OF assms(1)] cleared_log [OF assms(2)] in simp_all)
  then show ?thesis by (intro that [of k']) (simp_all add: set_n_def commit_header_Nil)
qed

lemma recover_run:
  assumes "steady dev k {}" and "lg_dev (k_log k) = dev" and "lg_start (k_log k) = s" and "length (lg_block (k_log k)) = K_LOGBLOCKS"
    and "signed 32 (u32_at (block (k_disk k) s) 0) = int (length ts)" and "length ts \<le> K_LOGBLOCKS"
    and "ts = map (\<lambda>j. u32_at (block (k_disk k) s) (4 + 4 * j)) [0..<length ts]" and "homes_ok s (image_blocks (k_disk k)) ts"
  obtains k' where "recover_from_log k = Inr ((), k')" and "steady dev k' {}" and "log_holds dev s [] (k_log k')"
    and "wrote dev (install_writes s ts (block (k_disk k)) @ [(s, clear_header (block (k_disk k) s))]) k k'"
    and "lg_outstanding (k_log k') = lg_outstanding (k_log k)" and "lg_committing (k_log k') = lg_committing (k_log k)"
proof -
  have v: "kview dev k = block (k_disk k)" using steady_view [OF assms(1)] by auto
  have sN: "s < image_blocks (k_disk k)" using assms(8) by (simp add: homes_ok_def)
  have nh: "int (length ts) = signed 32 (u32_at (kview dev k s) 0)" "int (length ts) \<le> int K_LOGBLOCKS" using assms(5,6) v by simp_all
  obtain k1 where k1: "read_head k = Inr ((), k1)" "steady dev k1 {}" "wrote dev [] k k1"
    "k_log k1 = (k_log k)\<lparr>lg_n := int (length ts), lg_block := map (\<lambda>j. u32_at (kview dev k s) (4 + 4 * j)) [0..<nat (int (length ts))] @ drop (nat (int (length ts))) (lg_block (k_log k))\<rparr>"
    by (rule read_head_run [OF assms(1) idle_free [OF assms(1)] assms(2,3) sN nh])
  have L1: "log_holds dev s ts (k_log k1)"
    using assms(2-4,6) by (simp add: log_holds_def k1(4) v assms(7) [symmetric])
  have N1: "image_blocks (k_disk k1) = image_blocks (k_disk k)" and v1: "kview dev k1 = block (k_disk k)"
    using wrote_blocks [OF k1(3)] k1(3) v by (simp_all add: wrote_def)
  obtain k2 where k2: "install_trans True k1 = Inr ((), k2)" "steady dev k2 {}" "k_log k2 = k_log k1"
    "wrote dev (install_writes s ts (block (k_disk k))) k1 k2"
    by (rule install_trans_run [where recovering = True, of dev k1 ts s "install_writes s ts (block (k_disk k))"])
      (use k1(2) L1 assms(8) N1 v1 in \<open>simp_all add: install_writes_def\<close>)
  have "s \<notin> fst ` set (install_writes s ts (block (k_disk k)))"
    using assms(8) by (fastforce simp: install_writes_def homes_ok_def in_set_conv_nth)
  then have v2: "kview dev k2 s = block (k_disk k) s" using k2(4) v1 by (simp add: wrote_def wview_other)
  have sN2: "s < image_blocks (k_disk k2)" using wrote_blocks [OF k2(4)] N1 sN by simp
  obtain k3 where k3: "kbind (set_n 0) (\<lambda>_. write_head) k2 = Inr ((), k3)" "steady dev k3 {}" "k_log k3 = (k_log k2)\<lparr>lg_n := 0\<rparr>"
    "wrote dev [(s, clear_header (kview dev k2 s))] k2 k3"
    by (rule clear_run [OF k2(2) L1 [folded k2(3)] sN2])
  have w: "wrote dev (install_writes s ts (block (k_disk k)) @ [(s, clear_header (block (k_disk k) s))]) k k3"
    using wrote_trans [OF k1(3) wrote_trans [OF k2(4) k3(4)]] by (simp add: v2)
  show ?thesis
    by (rule that [of k3]) (use k1 k2 k3 w cleared_log [OF L1] in \<open>simp_all add: recover_from_log_def\<close>)
qed

lemma commit_run:
  assumes "steady dev k (set ts)" and "log_holds dev s ts (k_log k)" and "homes_ok s (image_blocks (k_disk k)) ts" and "length ts < K_NBUF" and "ts \<noteq> []"
  obtains k' where "commit k = Inr ((), k')" and "steady dev k' {}" and "k_log k' = (k_log k)\<lparr>lg_n := 0\<rparr>"
    and "wrote dev (commit_writes s ts (kview dev k)) k k'"
proof -
  let ?v = "kview dev k"
  let ?w1 = "payload_writes s ts ?v" and ?h = "commit_header ts (kview dev k s)"
  have sN: "s < image_blocks (k_disk k)" and below: "\<forall>t \<in> set ts. s + K_LOGBLOCKS < t" and dist: "distinct ts" and le: "length ts \<le> K_LOGBLOCKS"
    using assms(2,3) by (simp_all add: homes_ok_def log_holds_def)
  obtain k1 where k1: "write_log k = Inr ((), k1)" "steady dev k1 (set ts)" "k_log k1 = k_log k" "wrote dev ?w1 k k1"
    by (rule write_log_run [OF assms(1-4) refl]) (simp add: payload_writes_def)
  have N1: "image_blocks (k_disk k1) = image_blocks (k_disk k)" by (rule wrote_blocks [OF k1(4)])
  have v1: "kview dev k1 = wview ?w1 ?v" using k1(4) by (simp add: wrote_def)
  have v1s: "kview dev k1 s = ?v s" unfolding v1 by (rule wview_other) (auto simp: payload_writes_def)
  have "card (set ts) < K_NBUF" using assms(4) card_length [of ts] by linarith
  then have fr: "free_bufs k1 \<noteq> {}" using steady_free [OF k1(2)] by simp
  obtain k2 where k2: "write_head k1 = Inr ((), k2)" "steady dev k2 (set ts)" "k_log k2 = k_log k1" "wrote dev [(s, ?h)] k1 k2"
    using write_head_steady [OF k1(2) fr assms(2) [folded k1(3)] sN [folded N1], unfolded v1s] by metis
  have N2: "image_blocks (k_disk k2) = image_blocks (k_disk k)" using wrote_blocks [OF k2(4)] N1 by simp
  have v2: "kview dev k2 (s + 1 + i) = ?v (ts ! i)" if "i < length ts" for i
  proof -
    have "kview dev k2 (s + 1 + i) = wview ?w1 ?v (s + 1 + i)" using k2(4) v1 by (simp add: wrote_def)
    also have "\<dots> = ?v (ts ! i)"
      unfolding payload_writes_def using wview_map [of "\<lambda>i. s + 1 + i" "[0..<length ts]" i "\<lambda>i. ?v (ts ! i)" ?v] that by (simp add: distinct_map inj_on_def)
    finally show ?thesis .
  qed
  have "map (\<lambda>i. (ts ! i, kview dev k2 (s + 1 + i))) [0..<length ts] = map (\<lambda>i. (ts ! i, ?v (ts ! i))) [0..<length ts]" using v2 by simp
  also have "\<dots> = map (\<lambda>t. (t, ?v t)) (map ((!) ts) [0..<length ts])" by simp
  also have "\<dots> = home_writes ts ?v" by (simp only: home_writes_def map_nth)
  finally have w3: "home_writes ts ?v = map (\<lambda>i. (ts ! i, kview dev k2 (s + 1 + i))) [0..<length ts]" by simp
  obtain k3 where k3: "install_trans False k2 = Inr ((), k3)" "steady dev k3 {}" "k_log k3 = k_log k2" "wrote dev (home_writes ts ?v) k2 k3"
    by (rule install_trans_run [where recovering = False, of dev k2 ts s "home_writes ts ?v"])
      (use k2(2) k2(3) k1(3) assms(2-4) N2 w3 in simp_all)
  have "s \<notin> fst ` set (home_writes ts ?v)" using below by (auto simp: home_writes_def)
  then have v3: "kview dev k3 s = ?h" using k3(4) k2(4) by (simp add: wrote_def wview_other)
  have sN3: "s < image_blocks (k_disk k3)" using wrote_blocks [OF k3(4)] N2 sN by simp
  have L3: "log_holds dev s ts (k_log k3)" using assms(2) by (simp add: k3(3) k2(3) k1(3))
  obtain k4 where k4: "kbind (set_n 0) (\<lambda>_. write_head) k3 = Inr ((), k4)" "steady dev k4 {}" "k_log k4 = (k_log k3)\<lparr>lg_n := 0\<rparr>"
    "wrote dev [(s, clear_header (kview dev k3 s))] k3 k4"
    by (rule clear_run [OF k3(2) L3 sN3])
  have w: "wrote dev (commit_writes s ts ?v) k k4"
    using wrote_trans [OF k1(4) wrote_trans [OF k2(4) wrote_trans [OF k3(4) k4(4)]]] by (simp add: commit_writes_def v3)
  have "lg_n (k_log k) > 0" using assms(2,5) by (simp add: log_holds_def)
  then show ?thesis
    by (intro that [of k4]) (use k1 k2 k3 k4 w in \<open>simp_all add: commit_def\<close>)
qed

end
