(* ===== verification/KernelCrash.thy ===== *)
theory KernelCrash
  imports KernelCommit RecoveryImage
begin

text \<open>
  Crashes of the kernel: the disk after any number of completed writes, mounted again.  Mounting replays
  the log exactly as the offline checker does; a crash inside a commit recovers to the state before or
  after it, and a crash inside a recovery to the state that the recovery was about to reach.
\<close>

section \<open>Mounting\<close>

lemma parse_log_constants: "K_LOGBLOCKS = LOGBLOCKS" "K_ROOTDEV \<noteq> 0"
  by (simp_all add: kernel_consts LOGBLOCKS_def)

text \<open>An image that the kernel can mount, as the offline checker sees it.\<close>

definition mountable :: "bytes \<Rightarrow> geometry \<Rightarrow> bool" where
  "mountable d g \<longleftrightarrow> parse_geometry d {} = Inr (Some g, {}) \<and> log_ok d g \<and> g_size g \<le> 2 ^ 31"

lemma mountableD:
  assumes "mountable d g"
  shows "geometry_ok d g" and "log_ok d g" and "is_image d" and "image_blocks d = g_size g" and "g_size g \<le> 2 ^ 31"
    and "g_inodestart g = g_logstart g + K_LOGBLOCKS + 1" and "g_inodestart g < g_size g" and "g_logstart g = 2"
    and "u32_at (block d 1) 0 = FSMAGIC" and "u32_at (block d 1) 20 = g_logstart g"
proof -
  have p: "parse_geometry d {} = Inr (Some g, {})" and "log_ok d g" and "g_size g \<le> 2 ^ 31" using assms by (simp_all add: mountable_def)
  then show "log_ok d g" "g_size g \<le> 2 ^ 31" by simp_all
  show g: "geometry_ok d g" using parse_geometry_Some(1) [OF p] .
  then show "is_image d" "image_blocks d = g_size g" using geometry_ok_image by blast+
  show "g_inodestart g = g_logstart g + K_LOGBLOCKS + 1" "g_inodestart g < g_size g" "g_logstart g = 2"
    using g by (auto simp: geometry_ok_def parse_log_constants)
  have "2 * BSIZE \<le> length d" using parse_geometry_Some(4) [OF p] .
  then show "u32_at (block d 1) 0 = FSMAGIC" "u32_at (block d 1) 20 = g_logstart g"
    using parse_geometry_words(1,3) [OF p] super_word_block [of d 0] super_word_block [of d 5] by simp_all
qed

lemma start_steady:
  assumes "is_image d" and "image_blocks d \<le> 2 ^ 31" and "dev \<noteq> 0"
  shows "steady dev (kernel_start pid d) {}"
proof -
  have b: "buf (kernel_start pid d) i = \<lparr>kb_valid = False, kb_dev = 0, kb_blockno = 0, kb_lock = \<lparr>sl_locked = False, sl_pid = 0\<rparr>,
      kb_refcnt = 0, kb_data = replicate BSIZE 0\<rparr>" if "i < K_NBUF" for i
    using that by (simp add: buf_def kernel_start_def binit_def)
  have "bc_lru (k_cache (kernel_start pid d)) = rev [0..<K_NBUF]"
    by (simp add: kernel_start_def binit_def foldl_conv_fold rev_conv_fold flip: fold_rev)
  then show ?thesis
    using assms by (auto simp: steady_def cache_ok_def unique_keys_def calm_def b buf_ok_def)
      (simp_all add: kernel_start_def binit_def)
qed

lemma write_all_view:
  assumes "is_image d" and "img.writable d ws"
  shows "block (img.write_all ws d) = wview ws (block d)" and "is_image (img.write_all ws d)" and "image_blocks (img.write_all ws d) = image_blocks d"
proof -
  show "is_image (img.write_all ws d)" "image_blocks (img.write_all ws d) = image_blocks d"
    using img.write_all_device [OF assms] by simp_all
  show "block (img.write_all ws d) = wview ws (block d)"
    using assms
  proof (induction ws arbitrary: d)
    case (Cons w ws)
    obtain n x where w: "w = (n, x)" by (cases w)
    have nx: "n < image_blocks d" "length x = BSIZE" using Cons.prems(2) by (auto simp: img.writable_def w)
    note W = block_written [OF Cons.prems(1) nx]
    have "img.writable (write_block n x d) ws" using Cons.prems(2) W(2) by (simp add: img.writable_def)
    then have "block (img.write_all ws (write_block n x d)) = wview ws (block (write_block n x d))" using Cons.IH W(3) by blast
    moreover have "block (write_block n x d) = (block d)(n := x)" using W(1) by auto
    ultimately show ?case by (simp add: w img.write_all_def)
  qed (simp add: img.write_all_def)
qed

text \<open>Recovery of an image: what the checker calls the shadow.\<close>

definition recovery_writes :: "bytes \<Rightarrow> geometry \<Rightarrow> (nat \<times> bytes) list" where
  "recovery_writes d g = install_writes (g_logstart g) (log_targets d g) (block d) @ [(g_logstart g, clear_header (block d (g_logstart g)))]"

lemma recovery_writable:
  assumes "mountable d g"
  shows "img.writable d (recovery_writes d g)"
proof -
  note M = mountableD [OF assms]
  have "length (log_targets d g) \<le> K_LOGBLOCKS" using log_ok_length [OF M(2)] by (simp add: parse_log_constants)
  then have "g_logstart g + 1 + i < g_size g" if "i < length (log_targets d g)" for i using that M(6,7) by simp
  moreover have "\<forall>t \<in> set (log_targets d g). t < g_size g" using M(2) by (simp add: log_ok_def)
  moreover have "length (clear_header (block d (g_logstart g))) = BSIZE" using M(4,6,7) by (simp add: clear_header_def BSIZE_def)
  ultimately show ?thesis using M(4,6,7) by (auto simp: img.writable_def recovery_writes_def install_writes_def)
qed

lemma recovery_image:
  assumes "mountable d g"
  shows "img.write_all (recovery_writes d g) d = replay d g"
proof (rule image_eqI)
  note M = mountableD [OF assms] and R = replay_correct [OF mountableD(1,2) [OF assms]]
  note W = write_all_view [OF M(3) recovery_writable [OF assms]]
  show "is_image (replay d g)" using M(3) by (simp add: is_image_def R(1))
  have "length (img.write_all (recovery_writes d g) d) = image_blocks d * BSIZE"
    using W(2,3) unfolding is_image_def image_blocks_def by (metis dvd_div_mult_self)
  then show "length (img.write_all (recovery_writes d g) d) = length (replay d g)"
    using M(3) by (simp add: R(1) is_image_def image_blocks_def)
  fix b
  assume "b < image_blocks (replay d g)"
  then have b: "b < g_size g" using M(4) by (simp add: image_blocks_def R(1))
  let ?ts = "log_targets d g" and ?s = "g_logstart g"
  have dist: "distinct ?ts" using M(2) by (simp add: log_ok_def)
  have "wview (recovery_writes d g) (block d) b = recovered_block d g b"
  proof (cases "b = ?s")
    case True
    then show ?thesis by (simp add: recovery_writes_def recovered_block_def clear_header_def)
  next
    case False
    show ?thesis
    proof (cases "b \<in> set ?ts")
      case True
      then obtain i where i: "i < length ?ts" "b = ?ts ! i" by (auto simp: in_set_conv_nth)
      have "log_slot d g b = Some i" using i dist by (simp add: log_slot_def map_of_zip_nth)
      moreover have "wview (install_writes ?s ?ts (block d)) (block d) b = block d (?s + 1 + i)"
        unfolding install_writes_def i(2)
        using wview_map [of "(!) ?ts" "[0..<length ?ts]" i "\<lambda>i. block d (?s + 1 + i)"] i(1) dist by (simp add: map_nth)
      ultimately show ?thesis using False by (simp add: recovery_writes_def recovered_block_def)
    next
      case notin: False
      then have "log_slot d g b = None" by (simp add: log_slot_def map_of_zip_is_None)
      moreover have "b \<notin> fst ` set (install_writes ?s ?ts (block d))" using notin by (auto simp: install_writes_def)
      ultimately show ?thesis using False by (simp add: recovery_writes_def recovered_block_def wview_other)
    qed
  qed
  then show "block (img.write_all (recovery_writes d g) d) b = block (replay d g) b" using W(1) R(2) [OF b] by simp
qed

text \<open>A mounted kernel with no operation in progress.\<close>

definition idle :: "geometry \<Rightarrow> kernel \<Rightarrow> bool" where
  "idle g k \<longleftrightarrow> steady K_ROOTDEV k {} \<and> log_holds K_ROOTDEV (g_logstart g) [] (k_log k) \<and>
     lg_outstanding (k_log k) = 0 \<and> \<not> lg_committing (k_log k)"

lemma mount_run:
  assumes "mountable d g"
  obtains k where "mount K_ROOTDEV (kernel_start pid d) = Inr ((), k)" and "k_disk k = replay d g"
    and "k_writes k = recovery_writes d g" and "idle g k"
proof -
  note M = mountableD [OF assms]
  let ?k0 = "kernel_start pid d" and ?s = "g_logstart g" and ?ts = "log_targets d g"
  have k0: "k_disk ?k0 = d" "k_writes ?k0 = []" "lg_outstanding (k_log ?k0) = 0" "\<not> lg_committing (k_log ?k0)"
    "length (lg_block (k_log ?k0)) = K_LOGBLOCKS" by (simp_all add: kernel_start_def)
  have st: "steady K_ROOTDEV ?k0 {}" using start_steady [OF M(3)] M(4,5) parse_log_constants(2) by simp
  have v: "kview K_ROOTDEV ?k0 b = block d b" for b using steady_view [OF st] by (simp add: k0)
  have one: "1 < image_blocks (k_disk ?k0)" using M(4,6,7) by (simp add: k0)
  obtain k1 where k1: "readsb K_ROOTDEV ?k0 = Inr (take 32 (kview K_ROOTDEV ?k0 1), k1)" "cache_ok K_ROOTDEV k1" "calm k1" "keeps (\<lambda>_. 0) ?k0 k1"
    "kview K_ROOTDEV k1 = kview K_ROOTDEV ?k0" "k_disk k1 = k_disk ?k0" "k_writes k1 = k_writes ?k0" "k_log k1 = k_log ?k0"
    by (rule readsb_run [OF steadyD(1,2) [OF st] one idle_free [OF st]])
  let ?sb = "take 32 (block d 1)"
  have sb: "u32_at ?sb 0 = FSMAGIC" "u32_at ?sb 20 = ?s" using M(9,10) by (simp_all add: u32_at_take)
  let ?k2 = "k1\<lparr>k_log := (k_log k1)\<lparr>lg_start := ?s, lg_dev := K_ROOTDEV\<rparr>\<rparr>"
  have st2: "steady K_ROOTDEV ?k2 {}" using steady_same [OF st k1(2-4)] by simp
  have nts: "length ?ts = nat (log_count d g)" by (simp add: log_targets_def)
  then have cnt: "signed 32 (u32_at (block (k_disk ?k2) ?s) 0) = int (length ?ts)" using M(2) by (simp add: k1 k0 log_count_def [symmetric] log_ok_def)
  have le: "length ?ts \<le> K_LOGBLOCKS" using log_ok_length [OF M(2)] by (simp add: parse_log_constants)
  have ts: "?ts = map (\<lambda>j. u32_at (block (k_disk ?k2) ?s) (4 + 4 * j)) [0..<length ?ts]"
    unfolding nts by (simp add: k1 k0) (simp add: log_targets_def)
  have homes: "homes_ok ?s (image_blocks (k_disk ?k2)) ?ts" using M(2,4,6,7) by (auto simp: homes_ok_def k1 k0 log_ok_def)
  obtain k3 where k3: "recover_from_log ?k2 = Inr ((), k3)" "steady K_ROOTDEV k3 {}" "log_holds K_ROOTDEV ?s [] (k_log k3)"
    "wrote K_ROOTDEV (install_writes ?s ?ts (block (k_disk ?k2)) @ [(?s, clear_header (block (k_disk ?k2) ?s))]) ?k2 k3"
    "lg_outstanding (k_log k3) = lg_outstanding (k_log ?k2)" "lg_committing (k_log k3) = lg_committing (k_log ?k2)"
    by (rule recover_run [OF st2 _ _ _ cnt le ts homes]) (simp_all add: k1 k0)
  have "mount K_ROOTDEV ?k0 = Inr ((), k3)"
    using k1(1) k3(1) sb v [of 1] by (simp add: mount_def initlog_def)
  moreover have "wrote K_ROOTDEV (recovery_writes d g) ?k2 k3" using k3(4) by (simp add: k1 k0 recovery_writes_def)
  ultimately show ?thesis
    using k3(2,3,5,6) by (intro that [of k3]) (simp_all add: wrote_def k1 k0 recovery_image [OF assms] idle_def)
qed

section \<open>Crash images\<close>

definition file_block :: "geometry \<Rightarrow> nat \<Rightarrow> bool" where
  "file_block g b \<longleftrightarrow> g_inodestart g \<le> b \<and> b < g_size g"

lemma commit_header_words:
  assumes "length ts \<le> K_LOGBLOCKS" and "\<forall>t \<in> set ts. t < 2 ^ 32"
  shows "signed 32 (u32_at (commit_header ts old) 0) = int (length ts)"
    and "j < length ts \<Longrightarrow> u32_at (commit_header ts old) (4 + 4 * j) = ts ! j"
proof -
  have n: "length ts \<le> 30" using assms(1) by (simp add: kernel_consts)
  then have "unsigned_of 32 (int (length ts)) = length ts" by (simp add: unsigned_of_def)
  then have h: "commit_header ts old = concat (map (le_bytes 4) (length ts # ts)) @ drop (4 + 4 * length ts) old"
    by (simp add: commit_header_def header_bytes_def)
  have b: "\<forall>v \<in> set (length ts # ts). v < 2 ^ 32" using n assms(2) by simp
  have "u32_at (commit_header ts old) (4 * 0) = length ts" unfolding h using u32_at_words [OF _ b, of 0] by simp
  then show "signed 32 (u32_at (commit_header ts old) 0) = int (length ts)" using n by (simp add: signed_def)
  show "u32_at (commit_header ts old) (4 + 4 * j) = ts ! j" if "j < length ts"
    unfolding h using u32_at_words [OF _ b, of "Suc j"] that by simp
qed

lemma clear_header_count: "signed 32 (u32_at (clear_header old) 0) = 0"
proof -
  have "le_nat (replicate n 0) = 0" for n by (induction n) simp_all
  then show ?thesis by (simp add: clear_header_def u32_at_def py_slice_def signed_def)
qed

lemma length_commit_header:
  "length old = BSIZE \<Longrightarrow> length ts \<le> K_LOGBLOCKS \<Longrightarrow> length (commit_header ts old) = BSIZE"
  using length_header_bytes [of old "int (length ts)" "ts @ replicate (K_LOGBLOCKS - length ts) 0"]
  by (simp add: commit_header_def header_bytes_def)

text \<open>
  An image that differs from a mountable one outside the superblock: with an empty log its file blocks
  are those of the recovered image; with a committed log the home blocks come from the log.
\<close>

definition same_super :: "bytes \<Rightarrow> bytes \<Rightarrow> bool" where
  "same_super d c \<longleftrightarrow> length c = length d \<and> block c 1 = block d 1"

lemma empty_log_image:
  assumes "mountable d g" and "same_super d c" and "signed 32 (u32_at (block c (g_logstart g)) 0) = 0"
  shows "mountable c g" and "file_block g b \<Longrightarrow> block (replay c g) b = block c b"
proof -
  have t: "log_count c g = 0" "log_targets c g = []" using assms(3) by (simp_all add: log_count_def log_targets_def)
  show m: "mountable c g"
    using assms(1,2) t parse_geometry_cong [of c d] by (simp add: mountable_def same_super_def log_ok_def)
  show "block (replay c g) b = block c b" if "file_block g b"
    using replay_correct(2) [OF mountableD(1,2) [OF m], of b] mountableD(6) [OF m] that
    by (simp add: file_block_def recovered_block_def log_slot_def t)
qed

lemma committed_log_image:
  assumes "mountable d g" and "same_super d c" and "block c (g_logstart g) = commit_header ts old"
    and "length ts \<le> K_LOGBLOCKS" and "distinct ts" and "\<forall>t \<in> set ts. file_block g t"
  shows "mountable c g" and "file_block g b \<Longrightarrow> b \<notin> set ts \<Longrightarrow> block (replay c g) b = block c b"
    and "i < length ts \<Longrightarrow> block (replay c g) (ts ! i) = block c (g_logstart g + 1 + i)"
proof -
  note D = mountableD [OF assms(1)]
  have lt: "\<forall>t \<in> set ts. t < 2 ^ 32" using assms(6) D(5) by (auto simp: file_block_def)
  note H = commit_header_words [OF assms(4) lt, where old = old]
  have n: "log_count c g = int (length ts)" by (simp add: log_count_def assms(3) H(1))
  have ts: "log_targets c g = ts"
    by (rule nth_equalityI) (simp_all add: log_targets_def n assms(3) H(2))
  have ok: "log_ok c g" using assms(4-6) by (simp add: log_ok_def n ts parse_log_constants file_block_def)
  show m: "mountable c g" using assms(1,2) ok parse_geometry_cong [of c d] by (simp add: mountable_def same_super_def)
  note R = replay_correct(2) [OF mountableD(1,2) [OF m]]
  show "block (replay c g) b = block c b" if "file_block g b" "b \<notin> set ts"
  proof -
    have "log_slot c g b = None" using that(2) by (simp add: log_slot_def ts map_of_zip_is_None)
    then show ?thesis using R [of b] D(6) that(1) by (simp add: file_block_def recovered_block_def)
  qed
  show "block (replay c g) (ts ! i) = block c (g_logstart g + 1 + i)" if "i < length ts"
  proof -
    have "file_block g (ts ! i)" using assms(6) that by simp
    moreover have "log_slot c g (ts ! i) = Some i" using that assms(5) by (simp add: log_slot_def ts map_of_zip_nth)
    ultimately show ?thesis using R [of "ts ! i"] D(6) by (simp add: file_block_def recovered_block_def)
  qed
qed

lemma writable_take: "img.writable d ws \<Longrightarrow> img.writable d (take m ws)"
  unfolding img.writable_def using in_set_takeD by fast

lemma crash_super:
  assumes "mountable d g" and "img.writable d ws" and "1 \<notin> fst ` set ws"
  shows "same_super d (img.write_all (take m ws) d)"
    and "block (img.write_all (take m ws) d) = wview (take m ws) (block d)"
proof -
  note W = write_all_view [OF mountableD(3) [OF assms(1)] writable_take [OF assms(2)]]
  show "block (img.write_all (take m ws) d) = wview (take m ws) (block d)" by (rule W(1))
  have "1 \<notin> fst ` set (take m ws)" using assms(3) by (auto dest: in_set_takeD)
  then have "block (img.write_all (take m ws) d) 1 = block d 1" unfolding W(1) by (rule wview_other)
  moreover have "length (img.write_all (take m ws) d) = length d"
    using W(2,3) mountableD(3) [OF assms(1)] unfolding is_image_def image_blocks_def by (metis dvd_div_mult_self)
  ultimately show "same_super d (img.write_all (take m ws) d)" by (simp add: same_super_def)
qed

lemma commit_writable:
  assumes "mountable d g" and "length ts \<le> K_LOGBLOCKS" and "\<forall>t \<in> set ts. file_block g t \<and> length (v t) = BSIZE"
    and "length (v (g_logstart g)) = BSIZE"
  shows "img.writable d (commit_writes (g_logstart g) ts v)" and "1 \<notin> fst ` set (commit_writes (g_logstart g) ts v)"
proof -
  note D = mountableD [OF assms(1)]
  have h: "length (commit_header ts (v (g_logstart g))) = BSIZE" using length_commit_header [OF assms(4,2)] .
  then have "length (clear_header (commit_header ts (v (g_logstart g)))) = BSIZE" by (simp add: clear_header_def BSIZE_def)
  then show "img.writable d (commit_writes (g_logstart g) ts v)"
    using h assms(2,3) D(4,6,7)
    by (auto simp: img.writable_def commit_writes_def payload_writes_def home_writes_def file_block_def)
  show "1 \<notin> fst ` set (commit_writes (g_logstart g) ts v)"
    using assms(3) D(6,8) by (auto simp: commit_writes_def payload_writes_def home_writes_def file_block_def)
qed

lemma home_view:
  "b \<in> set (take k ts) \<Longrightarrow> wview (take k (home_writes ts v)) w b = v b"
  "b \<notin> set (take k ts) \<Longrightarrow> wview (take k (home_writes ts v)) w b = w b"
proof -
  have "wview (map (\<lambda>t. (t, v t)) us) w b = (if b \<in> set us then v b else w b)" for us
    by (induction us rule: rev_induct) auto
  from this [of "take k ts"]
  show "b \<in> set (take k ts) \<Longrightarrow> wview (take k (home_writes ts v)) w b = v b"
    "b \<notin> set (take k ts) \<Longrightarrow> wview (take k (home_writes ts v)) w b = w b"
    by (simp_all add: home_writes_def take_map)
qed

lemma payload_view:
  "i < length ts \<Longrightarrow> wview (payload_writes s ts v) w (s + 1 + i) = v (ts ! i)"
  "b \<le> s \<or> s + K_LOGBLOCKS < b \<Longrightarrow> length ts \<le> K_LOGBLOCKS \<Longrightarrow> wview (take m (payload_writes s ts v)) w b = w b"
proof -
  show "wview (payload_writes s ts v) w (s + 1 + i) = v (ts ! i)" if "i < length ts"
    unfolding payload_writes_def using wview_map [of "\<lambda>i. s + 1 + i" "[0..<length ts]" i "\<lambda>i. v (ts ! i)" w] that
    by (simp add: distinct_map inj_on_def)
  show "wview (take m (payload_writes s ts v)) w b = w b" if "b \<le> s \<or> s + K_LOGBLOCKS < b" "length ts \<le> K_LOGBLOCKS"
    using that by (intro wview_other) (auto simp: payload_writes_def take_map dest!: in_set_takeD)
qed

text \<open>The commit protocol: the header decides which state a crash recovers to.\<close>

lemma commit_crash:
  assumes "mountable d g" and "signed 32 (u32_at (block d (g_logstart g)) 0) = 0" and "length ts \<le> K_LOGBLOCKS" and "distinct ts"
    and "\<forall>t \<in> set ts. file_block g t \<and> length (v t) = BSIZE" and "v (g_logstart g) = block d (g_logstart g)"
    and "c = img.write_all (take m (commit_writes (g_logstart g) ts v)) d"
  shows "mountable c g" and "file_block g b \<Longrightarrow> block (replay c g) b = (if length ts < m \<and> b \<in> set ts then v b else block d b)"
proof -
  let ?s = "g_logstart g" and ?n = "length ts"
  let ?h = "commit_header ts (v ?s)"
  note D = mountableD [OF assms(1)]
  have s: "length (v ?s) = BSIZE" using D(4,6,7) by (simp add: assms(6))
  note C = crash_super [OF assms(1) commit_writable [OF assms(1,3,5) s], where m = m, folded assms(7)]
  have pl: "length (payload_writes ?s ts v) = ?n" and hl: "length (home_writes ts v) = ?n" by (simp_all add: payload_writes_def home_writes_def)
  have fb: "?s + K_LOGBLOCKS < b" if "file_block g b" for b using that D(6) by (simp add: file_block_def)
  have pv: "wview (payload_writes ?s ts v) w b = w b" if "file_block g b" for w b
    using payload_view(2) [OF _ assms(3), of b ?s ?n v w] fb [OF that] pl by simp
  have notin: "?s \<notin> set ts" using assms(5) fb by fastforce
  consider "m \<le> ?n" | "?n < m" "m \<le> 2 * ?n + 1" | "2 * ?n + 1 < m" by linarith
  then have "mountable c g \<and> (file_block g b \<longrightarrow> block (replay c g) b = (if ?n < m \<and> b \<in> set ts then v b else block d b))"
  proof cases
    case 1
    then have c: "block c = wview (take m (payload_writes ?s ts v)) (block d)"
      using C(2) by (simp add: commit_writes_def pl)
    have "block c ?s = block d ?s" unfolding c using payload_view(2) [OF _ assms(3)] by simp
    then have e: "signed 32 (u32_at (block c ?s) 0) = 0" using assms(2) by simp
    show ?thesis using empty_log_image [OF assms(1) C(1) e] 1 payload_view(2) [OF _ assms(3)] fb by (simp add: c)
  next
    case 2
    define k where "k = m - ?n - 1"
    have "take m (commit_writes ?s ts v) = payload_writes ?s ts v @ [(?s, ?h)] @ take k (home_writes ts v)"
      using 2 by (simp add: commit_writes_def pl hl k_def take_Cons')
    then have c: "block c b = wview (take k (home_writes ts v)) ((wview (payload_writes ?s ts v) (block d))(?s := ?h)) b" for b
      using C(2) by simp
    have hs: "block c ?s = ?h" unfolding c using home_view(2) notin by (metis fun_upd_same in_set_takeD)
    have dist: "distinct ts" "\<forall>t \<in> set ts. file_block g t" using assms(4,5) by simp_all
    note L = committed_log_image [OF assms(1) C(1) hs assms(3) dist]
    have "block (replay c g) b = (if b \<in> set ts then v b else block d b)" if b: "file_block g b"
    proof (cases "b \<in> set ts")
      case True
      then obtain i where i: "i < ?n" "b = ts ! i" by (auto simp: in_set_conv_nth)
      have "?s + 1 + i \<notin> set (take k ts)" using assms(3,5) fb i(1) by (fastforce dest: in_set_takeD)
      then have "block c (?s + 1 + i) = v (ts ! i)" unfolding c using home_view(2) payload_view(1) [OF i(1)] by simp
      then show ?thesis using L(3) [OF i(1)] i by simp
    next
      case False
      then have "b \<notin> set (take k ts)" by (auto dest: in_set_takeD)
      then have "block c b = block d b"
        unfolding c using home_view(2) pv [OF b] fb [OF b] by simp
      then show ?thesis using L(2) [OF b False] False by simp
    qed
    then show ?thesis using L(1) 2 by simp
  next
    case 3
    then have "take m (commit_writes ?s ts v) = payload_writes ?s ts v @ [(?s, ?h)] @ home_writes ts v @ [(?s, clear_header ?h)]"
      by (simp add: commit_writes_def pl hl)
    then have c: "block c b = ((wview (take ?n (home_writes ts v)) ((wview (payload_writes ?s ts v) (block d))(?s := ?h)))(?s := clear_header ?h)) b" for b
      using C(2) hl by simp
    have e: "signed 32 (u32_at (block c ?s) 0) = 0" unfolding c by (simp add: clear_header_count)
    note E = empty_log_image [OF assms(1) C(1) e]
    have "block c b = (if b \<in> set ts then v b else block d b)" if b: "file_block g b"
      unfolding c using home_view [of b ?n ts v] pv [OF b] fb [OF b] by simp
    then show ?thesis using E 3 by simp
  qed
  then show "mountable c g" "file_block g b \<Longrightarrow> block (replay c g) b = (if ?n < m \<and> b \<in> set ts then v b else block d b)" by simp_all
qed

text \<open>A crash inside recovery leaves an image that recovers to the same file blocks.\<close>

lemma recovery_crash:
  assumes "mountable d g" and "c = img.write_all (take m (recovery_writes d g)) d"
  shows "mountable c g" and "file_block g b \<Longrightarrow> block (replay c g) b = block (replay d g) b"
proof -
  let ?s = "g_logstart g" and ?ts = "log_targets d g"
  note D = mountableD [OF assms(1)]
  have ts: "\<forall>t \<in> set ?ts. file_block g t" using D(2) by (simp add: log_ok_def file_block_def)
  have iw: "length (install_writes ?s ?ts (block d)) = length ?ts" "fst ` set (install_writes ?s ?ts (block d)) \<subseteq> set ?ts"
    by (auto simp: install_writes_def)
  have one: "1 \<notin> fst ` set (recovery_writes d g)"
    using ts iw(2) D(6,8) by (fastforce simp: recovery_writes_def file_block_def)
  note C = crash_super [OF assms(1) recovery_writable [OF assms(1)] one, where m = m, folded assms(2)]
  show "mountable c g" "file_block g b \<Longrightarrow> block (replay c g) b = block (replay d g) b"
  proof -
    have "mountable c g \<and> (file_block g b \<longrightarrow> block (replay c g) b = block (replay d g) b)"
    proof (cases "m \<le> length ?ts")
      case True
      then have c: "block c = wview (take m (install_writes ?s ?ts (block d))) (block d)" using C(2) by (simp add: recovery_writes_def iw(1))
      have same: "block c x = block d x" if "x \<notin> set ?ts" for x
        unfolding c using iw(2) that by (intro wview_other) (auto dest!: in_set_takeD)
      have log: "block c x = block d x" if "x < g_inodestart g" for x
        using same [of x] ts that unfolding file_block_def by (meson leD)
      have s: "block c ?s = block d ?s" using log D(6) by simp
      then have n: "log_count c g = log_count d g" by (simp add: log_count_def)
      then have t: "log_targets c g = ?ts" using s by (simp add: log_targets_def)
      have m: "mountable c g"
        using assms(1) C(1) n t parse_geometry_cong [of c d] by (simp add: mountable_def same_super_def log_ok_def)
      moreover have "recovered_block c g b = recovered_block d g b" if "file_block g b"
      proof (cases "log_slot d g b")
        case None
        then have "b \<notin> set ?ts" by (simp add: log_slot_def map_of_zip_is_None)
        then have "block c b = block d b" by (rule same)
        moreover have "log_slot c g b = None" using None by (simp add: log_slot_def t)
        ultimately show ?thesis using None s by (simp add: recovered_block_def)
      next
        case (Some i)
        then have "i < length ?ts" unfolding log_slot_def by (auto dest!: map_of_SomeD simp: set_zip)
        then have "block c (?s + 1 + i) = block d (?s + 1 + i)"
          using log_ok_length [OF D(2)] D(6) by (intro log) (simp add: parse_log_constants)
        moreover have "b \<noteq> ?s" using that D(6) by (simp add: file_block_def)
        moreover have "log_slot c g b = Some i" using Some by (simp add: log_slot_def t)
        ultimately show ?thesis using Some by (simp add: recovered_block_def)
      qed
      ultimately show ?thesis
        using replay_correct(2) [OF mountableD(1,2) [OF m], of b] replay_correct(2) [OF D(1,2), of b] by (simp add: file_block_def)
    next
      case False
      then have "c = replay d g" using recovery_image [OF assms(1)] iw(1) by (simp add: assms(2) recovery_writes_def)
      moreover have "signed 32 (u32_at (block (replay d g) ?s) 0) = 0" using replay_header(1) [OF D(1,2)] by (simp add: log_count_def)
      ultimately show ?thesis using empty_log_image [OF assms(1) C(1)] by simp
    qed
    then show "mountable c g" "file_block g b \<Longrightarrow> block (replay c g) b = block (replay d g) b" by simp_all
  qed
qed

end
