(* ===== verification/RecoveryProps.thy ===== *)
theory RecoveryProps
  imports RecoveryImage KernelCrash
begin

text \<open>
  The synthetic tears of the recovery experiments, and the properties of the experiments: an accepted
  crash image recovers atomically, and on an emulator that runs the kernel every restart passes
  and every tear is classified as the experiment expects.
\<close>

section \<open>Writes into one block\<close>

lemma slice_assign_block:
  assumes "n < image_blocks d" and "off + length x \<le> BSIZE"
  shows "py_slice_assign d (n * BSIZE + off) (n * BSIZE + off + length x) x =
    write_block n (take off (block d n) @ x @ drop (off + length x) (block d n)) d"
proof -
  let ?r = "drop (n * BSIZE) d"
  have b: "block d n = take BSIZE ?r" by (simp add: block_def py_slice_def Let_def)
  have l: "n * BSIZE + BSIZE \<le> length d" using assms(1) by (rule block_bound)
  have "take (n * BSIZE + off) d = take (n * BSIZE) d @ take off (block d n)"
    using assms(2) by (simp add: b take_add min_def)
  moreover have "drop (n * BSIZE + off + length x) d = drop (off + length x) (block d n) @ drop (n * BSIZE + BSIZE) d"
  proof -
    have "drop k ?r = drop k (take BSIZE ?r) @ drop BSIZE ?r" if "k \<le> BSIZE" for k
      using that l by (metis append_take_drop_id drop_append length_take diff_is_0_eq drop_0 min.absorb2 length_drop le_diff_conv2
          add_leD1 add.commute)
    from this [OF assms(2)] show ?thesis by (simp add: b add.commute add.left_commute)
  qed
  ultimately show ?thesis using l assms(2) by (simp add: write_block_def py_slice_assign_def add.commute)
qed

lemma write_block_facts:
  assumes "rec_image d g" and "n < 2000" and "n \<noteq> 1" and "length b = BSIZE"
  shows "parse_geometry (write_block n b d) {} = Inr (Some g, {})"
    and "m < 2000 \<Longrightarrow> block (write_block n b d) m = (if m = n then b else block d m)"
    and "length (write_block n b d) = length d"
proof -
  note I = rec_imageD [OF assms(1)]
  have n: "n < image_blocks d" using assms(2) by (simp add: I(5) REC_FSSIZE_def)
  show blk: "block (write_block n b d) m = (if m = n then b else block d m)" if "m < 2000" for m
    using block_write_block [OF n _ assms(4), of m] that by (simp add: I(5) REC_FSSIZE_def)
  show len: "length (write_block n b d) = length d" using length_write_block [OF n assms(4)] .
  show "parse_geometry (write_block n b d) {} = Inr (Some g, {})"
    using parse_geometry_cong [OF len] blk [of 1] assms(3) I(1) by simp
qed

text \<open>An image with another log header.\<close>

lemma header_written:
  assumes "rec_image d g" and "length b = BSIZE"
  shows "log_count (write_block 2 b d) g = signed 32 (u32_at b 0)"
    and "log_targets (write_block 2 b d) g = map (\<lambda>k. u32_at b (4 + 4 * k)) [0..<nat (signed 32 (u32_at b 0))]"
    and "same_files g d (write_block 2 b d)"
proof -
  note I = rec_imageD [OF assms(1)] and W = write_block_facts [OF assms(1) _ _ assms(2), of 2]
  show c: "log_count (write_block 2 b d) g = signed 32 (u32_at b 0)" by (simp add: log_count_def I(6) W(2))
  show "log_targets (write_block 2 b d) g = map (\<lambda>k. u32_at b (4 + 4 * k)) [0..<nat (signed 32 (u32_at b 0))]"
    by (simp add: log_targets_def c) (simp add: I(6) W(2))
  show "same_files g d (write_block 2 b d)" by (simp add: same_files_def W I(7,8) REC_FSSIZE_def)
qed

text \<open>An image with another block outside the header.\<close>

lemma body_written:
  assumes "rec_image d g" and "n < 2000" and "2 < n" and "length b = BSIZE"
  shows "rec_image (write_block n b d) g" and "log_count (write_block n b d) g = log_count d g"
    and "log_targets (write_block n b d) g = log_targets d g"
proof -
  note I = rec_imageD [OF assms(1)] and W = write_block_facts [OF assms(1,2) _ assms(4)]
  have h: "block (write_block n b d) 2 = block d 2" using W(2) [of 2] assms(3) by simp
  show c: "log_count (write_block n b d) g = log_count d g" by (simp add: log_count_def I(6) h)
  show t: "log_targets (write_block n b d) g = log_targets d g" by (simp add: log_targets_def c) (simp add: I(6) h)
  show "rec_image (write_block n b d) g"
    using assms(1,3) W(1) by (auto simp: rec_image_def log_ok_def c t)
qed

text \<open>The recovered image when both home blocks are in the log, block by block.\<close>

lemma replay_blocks:
  assumes "rec_image d g" and "log_targets d g = HOME_BLOCKS" and "n < 2000"
  shows "block (replay d g) n =
    (if n = 2 then replicate 4 0 @ drop 4 (block d 2) else if n = 1990 then block d 3 else if n = 1991 then block d 4 else block d n)"
proof (cases "n = 1990 \<or> n = 1991")
  case True
  then show ?thesis using replay_homes(1) [OF assms(1,2)] by (auto simp: homes_blocks)
next
  case False
  note I = rec_imageD [OF assms(1)]
  have "log_slot d g n = None" using False by (auto simp: log_slot_def assms(2) HOME_BLOCKS_def map_of_zip_is_None)
  then show ?thesis
    using replay_correct(2) [OF I(3,2), of n] assms(3) False by (simp add: I(6,8) REC_FSSIZE_def recovered_block_def)
qed

section \<open>The tears\<close>

lemma half_write_block:
  assumes "rec_image d g" and "n < 2000" and "epoch < 2 ^ 32"
  shows "half_write d (n * BSIZE) epoch = Inr (write_block n (take 512 (pattern False 0 epoch) @ drop 512 (block d n)) d)"
proof -
  have n: "n < image_blocks d" using assms(2) by (simp add: rec_imageD [OF assms(1)] REC_FSSIZE_def)
  have l: "length (take 512 (pattern False 0 epoch)) = 512" by (simp add: BSIZE_def)
  show ?thesis
    using slice_assign_block [OF n, of 0 "take 512 (pattern False 0 epoch)"] assms(3) l
    by (simp add: half_write_def expected_pattern_eq BSIZE_def)
qed

lemma torn_payload_mixed:
  "home_of [take 512 (pattern False 0 epoch) @ drop 512 (pattern True 0 epoch), x] epoch = Mixed"
proof -
  let ?b = "take 512 (pattern False 0 epoch) @ drop 512 (pattern True 0 epoch)"
  have "?b ! 12 = 80" "?b ! 600 = 160" "pattern True 0 epoch ! 12 = 160" "pattern False 0 epoch ! 600 = 80"
    by (simp_all add: nth_append pattern_nth BSIZE_def)
  moreover have "(80 :: byte) \<noteq> 160" by simp
  ultimately have "?b \<noteq> pattern True 0 epoch" "?b \<noteq> pattern False 0 epoch" by metis+
  then show ?thesis by (simp add: home_of_def patterns_def)
qed

text \<open>A crash image in which the transaction is committed but not cleared.\<close>

definition pending_image :: "bytes \<Rightarrow> geometry \<Rightarrow> nat \<Rightarrow> bool" where
  "pending_image d g epoch \<longleftrightarrow> rec_image d g \<and> epoch < 2 ^ 32 \<and> log_count d g = 2 \<and> log_targets d g = HOME_BLOCKS \<and>
     [block d 3, block d 4] = patterns True epoch \<and> fs_consistent (replay d g) g"

lemma crash_image_pending: "crash_image d g point epoch \<Longrightarrow> cp_header point = 2 \<Longrightarrow> pending_image d g epoch"
  by (simp add: crash_image_def pending_image_def payload_blocks_2)

lemma tear_payload_half_ok:
  assumes "pending_image d g 0x1702" and "replays em"
  shows "\<exists>r. tear_payload_half sha256 em d = Inr r \<and> \<not> t_accepted r \<and> t_observed r = Some Mixed"
proof -
  have I: "rec_image d g" and ts: "log_targets d g = HOME_BLOCKS" and n: "log_count d g = 2"
    and p: "block d 3 = pattern True 0 0x1702" using assms(1) by (simp_all add: pending_image_def patterns_def)
  let ?b = "take 512 (pattern False 0 0x1702) @ drop 512 (pattern True 0 0x1702)"
  let ?d = "write_block 3 ?b d"
  have hw: "half_write d (3 * BSIZE) 0x1702 = Inr ?d" using half_write_block [OF I, of 3 "0x1702"] by (simp add: p)
  have lb: "length ?b = BSIZE" by (simp add: BSIZE_def)
  note B = body_written [OF I _ _ lb, of 3]
  have R: "rec_image ?d g" and N: "nat (log_count ?d g) = 2" and TS: "log_targets ?d g = HOME_BLOCKS"
    using B n ts by simp_all
  have "homes (replay ?d g) = [?b, block d 4]"
    using replay_homes(1) [OF R TS] write_block_facts(2) [OF I _ _ lb, of 3] by simp
  then have cl: "classify_homes (replay ?d g) 0x1702 = Inr Mixed" by (simp add: classify_homes_eq torn_payload_mixed)
  obtain t line where "boot em ?d 2 ''log-payload half-write'' = Inr (t, replay ?d g)" and "search REPLAY_RE t = Inr line"
    by (rule replays_boot [OF assms(2) R N])
  moreover obtain c where "check_bytes sha256 (replay ?d g) = Inr c" using check_bytes_report by metis
  ultimately show ?thesis
    by (simp add: tear_payload_half_def rec_image_geometry [OF I] hw [simplified] cl)
qed

lemma replay_torn_home:
  assumes "rec_image d g" and "log_targets d g = HOME_BLOCKS" and "length b = BSIZE"
  shows "replay (write_block 1990 b d) g = replay d g"
proof (rule image_eqI)
  note R = rec_image_replay(1) [OF assms(1)] and B = body_written [OF assms(1) _ _ assms(3), of 1990]
  show "is_image (replay d g)" using geometry_ok_image(1) [OF rec_imageD(3) [OF R]] .
  show "length (replay (write_block 1990 b d) g) = length (replay d g)"
    using rec_imageD(4) [OF R] rec_imageD(4) [OF rec_image_replay(1) [OF B(1)]] by simp
  fix n
  assume "n < image_blocks (replay d g)"
  then have n: "n < 2000" by (simp add: rec_imageD(5) [OF R] REC_FSSIZE_def)
  show "block (replay (write_block 1990 b d) g) n = block (replay d g) n"
    using replay_blocks [OF assms(1,2) n] replay_blocks [OF B(1) _ n] B(3) assms(2)
      write_block_facts(2) [OF assms(1) _ _ assms(3), of 1990] n by simp
qed

lemma tear_home_half_ok:
  assumes "pending_image d g 0x1703" and "replays em"
  shows "\<exists>r. tear_home_half sha256 em d = Inr r \<and> t_accepted r \<and> t_observed r = Some After"
proof -
  have I: "rec_image d g" and ts: "log_targets d g = HOME_BLOCKS" and n: "log_count d g = 2"
    and ok: "fs_consistent (replay d g) g" using assms(1) by (simp_all add: pending_image_def)
  let ?b = "take 512 (pattern False 0 0x1703) @ drop 512 (block d 1990)"
  let ?d = "write_block 1990 ?b d"
  have hw: "half_write d (1990 * BSIZE) 0x1703 = Inr ?d" using half_write_block [OF I, of 1990 "0x1703"] by simp
  have lb: "length ?b = BSIZE" using rec_imageD(5) [OF I] by (simp add: BSIZE_def REC_FSSIZE_def)
  note B = body_written [OF I _ _ lb, of 1990] and E = replay_torn_home [OF I ts lb]
  have R: "rec_image ?d g" and N: "nat (log_count ?d g) = 2" using B n by simp_all
  have "homes (replay d g) = patterns True 0x1703"
    using replay_homes(1) [OF I ts] assms(1) by (simp add: pending_image_def)
  then have "home_of (homes (replay d g)) 0x1703 = After" using home_of_iff [of _ "0x1703" True] by simp
  then have st: "settled (replay d g) 0x1703 After m = Inr ()" for m
    by (intro settledI [OF rec_image_replay(1,2) [OF I]]) simp_all
  obtain t line where b: "boot em ?d 2 ''home-block half-write'' = Inr (t, replay d g)" and l: "search REPLAY_RE t = Inr line"
    using replays_boot [OF assms(2) R N] E by metis
  obtain c where c: "assert_fsck sha256 (replay d g) False ''home-block half-write'' = Inr c"
    by (rule recovered_asserted [OF I ok])
  show ?thesis by (simp add: tear_home_half_def Let_def HOME_BLOCKS_def hw b l c st)
qed

lemma set_log_count_block:
  assumes "rec_image d g" and "- (2 ^ 31) \<le> v" and "v < 2 ^ 31"
  obtains b where "set_log_count d v = Inr (write_block 2 b d)" and "length b = BSIZE" and "signed 32 (u32_at b 0) = v"
proof -
  let ?x = "le_bytes 4 (unsigned_of 32 v)"
  let ?b = "?x @ drop 4 (block d 2)"
  note I = rec_imageD [OF assms(1)]
  have n: "2 < image_blocks d" by (simp add: I(5) REC_FSSIZE_def)
  have fit: "2 * BSIZE + 4 \<le> length d" by (simp add: I(4) REC_FSSIZE_def BSIZE_def)
  have "py_slice_assign d (2 * BSIZE) (2 * BSIZE + 4) ?x = write_block 2 ?b d"
    using slice_assign_block [OF n, of 0 ?x] by (simp add: BSIZE_def)
  then have 1: "set_log_count d v = Inr (write_block 2 ?b d)"
    using assms(2,3) fit by (simp add: set_log_count_def rec_image_geometry [OF assms(1)] pack_into_def)
  have 2: "length ?b = BSIZE" using n by (simp add: BSIZE_def)
  have "u32_at ?b 0 = unsigned_of 32 v"
    using u32_at_words [of 0 "[unsigned_of 32 v]"] unsigned_of_bound [of 32 v] by simp
  then have 3: "signed 32 (u32_at ?b 0) = v" using signed_unsigned_of [of 32 v] assms(2,3) by simp
  show ?thesis by (rule that [OF 1 2 3])
qed

lemma replay_idle_same:
  assumes "rec_image d g" and "log_count d g = 0"
  shows "same_files g d (replay d g)"
proof -
  note I = rec_imageD [OF assms(1)]
  have "log_slot d g n = None" for n by (simp add: log_slot_def log_targets_def assms(2))
  then show ?thesis
    using replay_correct [OF I(3,2)] by (simp add: same_files_def recovered_block_def I(6,7))
qed

lemma tear_header_zero_ok:
  assumes "rec_image d g" and "fs_consistent d g" and "home_of (homes d) 0x1702 = Before" and "replays em"
  shows "\<exists>r. tear_header_zero sha256 em d = Inr r \<and> \<not> t_accepted r \<and> t_observed r = Some Before"
proof -
  obtain b where set0: "set_log_count d 0 = Inr (write_block 2 b d)" and lb: "length b = BSIZE" and u: "signed 32 (u32_at b 0) = 0"
    by (rule set_log_count_block [OF assms(1), of 0]) simp_all
  let ?d = "write_block 2 b d"
  note H = header_written [OF assms(1) lb] and W = write_block_facts [OF assms(1) _ _ lb, of 2]
  have n: "log_count ?d g = 0" "log_targets ?d g = []" using H(1,2) u by simp_all
  have R: "rec_image ?d g" using W(1) rec_imageD(8) [OF assms(1)] by (simp add: rec_image_def log_ok_def n)
  have "fs_consistent ?d g" by (rule same_files_consistent [OF rec_imageD(3) [OF assms(1)] H(3) assms(2)])
  then have ok: "fs_consistent (replay ?d g) g"
    by (rule same_files_consistent [OF rec_imageD(3) [OF R] replay_idle_same [OF R n(1)]])
  have "homes (replay ?d g) = homes d" using replay_homes(2) [OF R n(2)] W(2) by (simp add: homes_blocks)
  then have st: "settled (replay ?d g) 0x1702 Before m = Inr ()" for m
    by (intro settledI [OF rec_image_replay(1,2) [OF R]]) (simp_all add: assms(3))
  obtain t line where "boot em ?d 0 ''header-count rollback'' = Inr (t, replay ?d g)" and "search REPLAY_RE t = Inr line"
    by (rule replays_boot [OF assms(4) R, of 0]) (simp add: n)
  moreover obtain c where "assert_fsck sha256 (replay ?d g) False ''header-count rollback'' = Inr c"
    by (rule recovered_asserted [OF R ok])
  ultimately show ?thesis by (simp add: tear_header_zero_def set0 st rec_image_geometry [OF assms(1)])
qed

lemma reappeared_header:
  assumes "pending_image h gh eh" and "rec_image d g" and "[block d 3, block d 4] = homes d" and "fs_consistent d g"
  shows "rec_image (write_block 2 (block h 2) d) g" and "log_count (write_block 2 (block h 2) d) g = 2"
    and "homes (replay (write_block 2 (block h 2) d) g) = homes d"
    and "fs_consistent (replay (write_block 2 (block h 2) d) g) g"
proof -
  let ?d = "write_block 2 (block h 2) d"
  have h: "rec_image h gh" "log_count h gh = 2" "log_targets h gh = HOME_BLOCKS" using assms(1) by (simp_all add: pending_image_def)
  have lb: "length (block h 2) = BSIZE" by (simp add: rec_imageD(5) [OF h(1)] REC_FSSIZE_def)
  note H = header_written [OF assms(2) lb] and W = write_block_facts [OF assms(2) _ _ lb, of 2] and I = rec_imageD [OF assms(2)]
  have u: "signed 32 (u32_at (block h 2) 0) = 2" using h(2) by (simp add: log_count_def rec_imageD(6) [OF h(1)])
  show n: "log_count ?d g = 2" by (simp add: H(1) u)
  have ts: "log_targets ?d g = HOME_BLOCKS" using h(3) unfolding H(2) by (simp add: u log_targets_def rec_imageD(6) [OF h(1)] h(2))
  show R: "rec_image ?d g"
    using W(1) by (simp add: rec_image_def log_ok_def n ts I(7,8)) (simp add: HOME_BLOCKS_def REC_FSSIZE_def LOGBLOCKS_def)
  have b: "block d 3 = block d 1990" "block d 4 = block d 1991" using assms(3) by (simp_all add: homes_blocks)
  show "homes (replay ?d g) = homes d" using replay_homes(1) [OF R ts] W(2) assms(3) by simp
  have "same_files g d (replay ?d g)"
    unfolding same_files_def
  proof (intro conjI allI impI)
    show "length (replay ?d g) = length d" using rec_imageD(4) [OF rec_image_replay(1) [OF R]] I(4) by simp
    fix k
    assume "g_inodestart g \<le> k" "k < g_size g"
    then have k: "33 \<le> k" "k < 2000" by (simp_all add: I(7,8) REC_FSSIZE_def)
    show "block (replay ?d g) k = block d k"
      unfolding replay_blocks [OF R ts k(2)] using k W(2) b by simp
  qed
  then show "fs_consistent (replay ?d g) g" by (rule same_files_consistent [OF I(3) _ assms(4)])
qed

lemma tear_header_restore_ok:
  assumes "pending_image h gh eh" and "rec_image d g" and "[block d 3, block d 4] = patterns True 0x1704"
    and "homes d = patterns True 0x1704" and "fs_consistent d g" and "replays em"
  shows "\<exists>r. tear_header_restore sha256 em h d = Inr r \<and> t_accepted r \<and> t_observed r = Some After"
proof -
  let ?d = "write_block 2 (block h 2) d"
  have eq: "[block d 3, block d 4] = homes d" using assms(3,4) by simp
  note A = reappeared_header [OF assms(1,2) eq assms(5)]
  note R = rec_image_replay [OF A(1)]
  have w: "py_slice_assign d (2 * BSIZE) (3 * BSIZE) (py_slice h (2 * BSIZE) (3 * BSIZE)) = ?d"
    by (simp add: write_block_def block_def Let_def)
  have "home_of (homes (replay ?d g)) 0x1704 = After" using A(3) assms(4) home_of_iff [of _ "0x1704" True] by simp
  then have st: "settled (replay ?d g) 0x1704 After m = Inr ()" for m by (intro settledI [OF R(1,2)]) simp_all
  obtain t1 l1 where b1: "boot em ?d 2 ''cleared header reappears'' = Inr (t1, replay ?d g)" and l1: "search REPLAY_RE t1 = Inr l1"
    by (rule replays_boot [OF assms(6) A(1), of 2]) (simp add: A(2))
  have "nat (log_count (replay ?d g) g) = 0" by (simp add: R(2))
  then obtain t2 l2 where b2: "boot em (replay ?d g) 0 ''cleared header idempotent restart'' = Inr (t2, replay ?d g)"
    and l2: "search REPLAY_RE t2 = Inr l2" using replays_boot [OF assms(6) R(1)] R(3) by metis
  obtain c1 where c1: "assert_fsck sha256 (replay ?d g) False ''cleared header reappears'' = Inr c1"
    by (rule recovered_asserted [OF A(1,4)])
  obtain c2 where c2: "assert_fsck sha256 (replay ?d g) False ''cleared header idempotent restart'' = Inr c2"
    by (rule recovered_asserted [OF A(1,4)])
  show ?thesis
    by (simp add: tear_header_restore_def rec_image_geometry [OF assms(2)] w [simplified] b1 b2 l1 l2 c1 c2 st
        rec_image_log_state [OF R(1)] R(2) Let_def)
qed

lemma codes_singleton [simp]: "codes {x} = [x]"
  by (simp add: codes_def)

lemma check_bytes_bad_log:
  assumes "parse_geometry d {} = Inr (Some g, {})" and "parse_log d g {} = Inr ((n, ts, None), {x})"
  shows "check_bytes sha256 d = Inr (failed_report (Some g) (Some (n, ts)) [x])"
  by (simp add: check_bytes_def assms)

lemma tear_invalid_count_ok:
  assumes "rec_image d g"
  shows "\<exists>r. tear_invalid_count sha256 d = Inr r \<and> \<not> t_accepted r \<and> t_observed r = None"
proof -
  obtain b where set31: "set_log_count d (int LOGBLOCKS + 1) = Inr (write_block 2 b d)" and lb: "length b = BSIZE"
    and u: "signed 32 (u32_at b 0) = int LOGBLOCKS + 1"
    by (rule set_log_count_block [OF assms, of "int LOGBLOCKS + 1"]) (simp_all add: LOGBLOCKS_def)
  let ?d = "write_block 2 b d"
  note W = write_block_facts [OF assms _ _ lb, of 2]
  have g: "geometry_ok ?d g" using geometry_ok_length [OF rec_imageD(3) [OF assms]] W(3) by simp
  have pg: "parse_geometry ?d {} = Inr (Some g, {})" using W(1) by simp
  have n: "log_count ?d g = int LOGBLOCKS + 1" using header_written(1) [OF assms lb] u by simp
  obtain x where x: "diag_add ''E_LOG_COUNT'' [(''count'', show_int 31)] {} = {''E_LOG_COUNT'' @ x}"
    by (auto simp: diag_add_def Let_def)
  have "parse_log ?d g {} = Inr ((31, [], None), {''E_LOG_COUNT'' @ x})"
    using x by (simp add: parse_log_def log_header_count [OF g] n Let_def LOGBLOCKS_def)
  then have c: "check_bytes sha256 ?d = Inr (failed_report (Some g) (Some (31, [])) [''E_LOG_COUNT'' @ x])"
    by (rule check_bytes_bad_log [OF pg])
  have "rec_geometry ?d = Inr (2, 33)"
    using parse_geometry_words [OF pg] rec_imageD [OF assms] W(3) by (simp add: rec_geometry_eq)
  then show ?thesis
    by (simp add: tear_invalid_count_def set31 c failed_report_def starts_with_def)
qed

lemma tear_invalid_target_ok:
  assumes "pending_image d g epoch"
  shows "\<exists>r. tear_invalid_target sha256 d = Inr r \<and> \<not> t_accepted r \<and> t_observed r = None"
proof -
  have I: "rec_image d g" and n2: "log_count d g = 2" and ts2: "log_targets d g = HOME_BLOCKS"
    using assms by (simp_all add: pending_image_def)
  note D = rec_imageD [OF I]
  let ?x = "le_bytes 4 2"
  let ?b = "take 4 (block d 2) @ ?x @ drop 8 (block d 2)"
  let ?d = "write_block 2 ?b d"
  have n: "2 < image_blocks d" by (simp add: D(5) REC_FSSIZE_def)
  have lb: "length ?b = BSIZE" using n by (simp add: BSIZE_def)
  note W = write_block_facts [OF I _ _ lb, of 2]
  have "py_slice_assign d (2 * BSIZE + 4) (2 * BSIZE + 4 + 4) ?x = ?d"
    using slice_assign_block [OF n, of 4 ?x] by (simp add: BSIZE_def)
  moreover have "2 * BSIZE + 4 + 4 \<le> length d" by (simp add: D(4) REC_FSSIZE_def BSIZE_def)
  ultimately have pk: "pack_into [Fmt_I] d (2 * BSIZE + 4) [PNat 2] = Inr ?d" by (simp add: pack_into_def)
  have g: "geometry_ok ?d g" using geometry_ok_length [OF D(3)] W(3) by simp
  have pg: "parse_geometry ?d {} = Inr (Some g, {})" using W(1) by simp
  have l8: "8 \<le> length (block d 2)" using n by (simp add: BSIZE_def)
  have w0: "u32_at ?b 0 = u32_at (block d 2) 0" using l8 by (simp add: u32_at_def py_slice_def)
  have w1: "u32_at ?b 4 = 2" using l8 by (simp add: u32_at_def py_slice_def le_nat_le_bytes)
  have w2: "u32_at ?b 8 = u32_at (block d 2) 8" using l8 by (simp add: u32_at_def py_slice_def)
  have u: "signed 32 (u32_at (block d 2) 0) = 2" using n2 by (simp add: log_count_def D(6))
  have "u32_at (block d 2) 8 = 1991" using ts2 by (simp add: log_targets_def n2 D(6) HOME_BLOCKS_def upt_rec)
  then have c: "log_count ?d g = 2" and t: "log_targets ?d g = [2, 1991]"
    using header_written [OF I lb] by (simp_all add: w0 w1 w2 u upt_rec)
  obtain x where x: "diag_add ''E_LOG_TARGET'' [(''index'', show_nat 0), (''target'', show_nat 2)] {} = {''E_LOG_TARGET'' @ x}"
    by (auto simp: diag_add_def Let_def)
  have hc: "unpack_from [Fmt_i] (block ?d (g_logstart g)) 0 = Inr [PInt 2]" using log_header_count [OF g] c by simp
  have ht: "unpack_from (replicate 2 Fmt_I) (block ?d (g_logstart g)) 4 = Inr [PNat 2, PNat 1991]"
    using log_header_targets [OF g] unfolding c t by (simp add: LOGBLOCKS_def)
  have nl: "g_nlog g = 31" using D(3) by (simp add: geometry_ok_def LOGBLOCKS_def)
  have fold: "foldl (log_target_step g) ({}, {}) (enumerate 0 [2, 1991]) = ({1991, 2}, {''E_LOG_TARGET'' @ x})"
    using x nl by (simp add: log_target_step_def Let_def D(6,7,8) REC_FSSIZE_def)
  have "parse_log ?d g {} = Inr ((2, [2, 1991], None), {''E_LOG_TARGET'' @ x})"
    unfolding parse_log_def hc Let_def by (simp add: ht fold LOGBLOCKS_def del: foldl_Cons enumerate_simps)
  then have "check_bytes sha256 ?d = Inr (failed_report (Some g) (Some (2, [2, 1991])) [''E_LOG_TARGET'' @ x])"
    by (rule check_bytes_bad_log [OF pg])
  then show ?thesis
    by (simp add: tear_invalid_target_def rec_image_geometry [OF I] pk failed_report_def starts_with_def)
qed

section \<open>Example images\<close>

text \<open>
  An image of the size of the experiments with only a root directory: count in the log header, the
  AFTER payload in the log, and the home blocks in either state.
\<close>

definition rec_header :: "nat \<Rightarrow> bytes" where
  "rec_header n = concat (map (le_bytes 4) [n, 1990, 1991])"

definition rec_blocks :: "nat \<Rightarrow> bool \<Rightarrow> nat \<Rightarrow> bytes list" where
  "rec_blocks n after epoch =
     [[], mini_super 2000, rec_header n, pattern True 0 epoch, pattern True 1 epoch] @ replicate 28 [] @
     [mini_inodes, mini_bitmap, mini_root] @ replicate 1954 [] @ [pattern after 0 epoch, pattern after 1 epoch] @ replicate 8 []"

definition rec_example :: "nat \<Rightarrow> bool \<Rightarrow> nat \<Rightarrow> bytes" where
  "rec_example n after epoch = image_of (rec_blocks n after epoch)"

lemma rec_blocks_ok:
  "\<forall>bs \<in> set (rec_blocks n after epoch). length bs \<le> BSIZE" "length (rec_blocks n after epoch) = 2000"
  by (auto simp: rec_blocks_def mini_super_def rec_header_def mini_inodes_def mini_bitmap_def)
    (simp_all add: BSIZE_def)

lemma rec_example_block: "k < 2000 \<Longrightarrow> block (rec_example n after epoch) k = pad_block (rec_blocks n after epoch ! k)"
  using block_image_of [OF rec_blocks_ok(1)] by (simp add: rec_example_def rec_blocks_ok(2))

lemma pad_block_whole: "length b = BSIZE \<Longrightarrow> pad_block b = b"
  by (simp add: pad_block_def)

lemma rec_example_blocks:
  fixes n epoch and after :: bool
  defines "d \<equiv> rec_example n after epoch"
  shows "block d 1 = pad_block (mini_super 2000)" and "block d 2 = pad_block (rec_header n)"
    and "[block d 3, block d 4] = patterns True epoch" and "block d 33 = pad_block mini_inodes"
    and "block d 34 = pad_block mini_bitmap" and "block d 35 = pad_block mini_root" and "homes d = patterns after epoch"
  by (simp_all add: d_def rec_example_block homes_blocks patterns_def rec_blocks_def nth_append pad_block_whole)

lemma rec_example_length: "length (rec_example n after epoch) = 2000 * BSIZE"
  using length_image_of [OF rec_blocks_ok(1)] by (simp add: rec_example_def rec_blocks_ok(2))

lemma rec_example_log:
  assumes "n \<in> {0, 2}"
  shows "log_count (rec_example n after epoch) (mini_layout 2000) = int n"
    and "log_targets (rec_example n after epoch) (mini_layout 2000) = take n HOME_BLOCKS"
proof -
  have u: "u32_at (pad_block (rec_header n)) (4 * k) = [n, 1990, 1991] ! k" if "k < 3" for k
    unfolding pad_block_def rec_header_def by (rule u32_at_words) (use that assms in auto)
  have u: "u32_at (pad_block (rec_header n)) 0 = n" "u32_at (pad_block (rec_header n)) 4 = 1990"
    "u32_at (pad_block (rec_header n)) 8 = 1991"
    using u [of 0] u [of 1] u [of 2] by simp_all
  have l: "g_logstart (mini_layout 2000) = 2" by (simp add: mini_layout_def)
  show c: "log_count (rec_example n after epoch) (mini_layout 2000) = int n"
    using assms by (auto simp: log_count_def l rec_example_blocks u signed_def)
  show "log_targets (rec_example n after epoch) (mini_layout 2000) = take n HOME_BLOCKS"
    using assms by (auto simp: log_targets_def c l rec_example_blocks u HOME_BLOCKS_def upt_rec)
qed

lemma rec_example_image:
  assumes "n \<in> {0, 2}"
  shows "rec_image (rec_example n after epoch) (mini_layout 2000)" and "fs_consistent (rec_example n after epoch) (mini_layout 2000)"
    and "fs_consistent (replay (rec_example n after epoch) (mini_layout 2000)) (mini_layout 2000)"
proof -
  let ?d = "rec_example n after epoch" and ?g = "mini_layout 2000"
  note L = rec_example_log [OF assms, of after epoch]
  have pg: "parse_geometry ?d {} = Inr (Some ?g, {})"
    by (rule mini_parse_geometry [OF _ _ _ rec_example_blocks(1)]) (simp_all add: rec_example_length fsck_consts)
  have f: "g_inodestart ?g = 33" "g_size ?g = REC_FSSIZE" by (simp_all add: mini_layout_def REC_FSSIZE_def)
  show R: "rec_image ?d ?g"
    unfolding rec_image_def log_ok_def L f using pg assms by (auto simp: HOME_BLOCKS_def LOGBLOCKS_def REC_FSSIZE_def)
  have "mini_fs ?d 2000" by (simp add: mini_fs_def rec_example_length rec_example_blocks fsck_consts)
  then show "fs_consistent ?d ?g" by (rule mini_consistent)
  have b: "block (replay ?d ?g) k = block ?d k" if "33 \<le> k" "k < 36" for k
  proof -
    have "log_slot ?d ?g k = None"
      using that by (auto simp: log_slot_def L HOME_BLOCKS_def map_of_zip_is_None dest!: in_set_takeD)
    then show ?thesis
      using replay_correct(2) [OF rec_imageD(3,2) [OF R], of k] that rec_imageD(6) [OF R]
      by (simp add: f REC_FSSIZE_def recovered_block_def)
  qed
  have "mini_fs (replay ?d ?g) 2000"
    using rec_imageD(4) [OF rec_image_replay(1) [OF R]]
    by (simp add: mini_fs_def b rec_example_blocks REC_FSSIZE_def) (simp add: fsck_consts)
  then show "fs_consistent (replay ?d ?g) ?g" by (rule mini_consistent)
qed

lemma rec_example_crash:
  assumes "n \<in> {0, 2}" and "epoch < 2 ^ 32" and "cp_header point = int n"
    and "crash_home (cp_name point) = (if after then After else Before)"
  shows "crash_image (rec_example n after epoch) (mini_layout 2000) point epoch"
proof -
  have "int n \<in> {0, 2}" using assms(1) by auto
  then show ?thesis
    unfolding crash_image_def assms(3,4)
    using rec_example_image [OF assms(1)] rec_example_log [OF assms(1)] assms(1,2)
    by (auto simp: payload_blocks_2 rec_example_blocks home_of_iff HOME_BLOCKS_def)
qed

text \<open>
  An emulator that runs the kernel: on an image the kernel can mount, the image it leaves at the shell
  prompt is the disk after mounting, and the instrumentation reports the number of blocks it installed.
\<close>

definition runs_kernel :: "emulator \<Rightarrow> bool" where
  "runs_kernel em \<longleftrightarrow> (\<forall>d g pid k. rec_image d g \<longrightarrow> mount K_ROOTDEV (kernel_start pid d) = Inr ((), k) \<longrightarrow>
     (\<exists>q. start_qemu em d = Inr q \<and> em_image em d [] = k_disk k \<and>
        map (map read_nat) (findall REPLAY_RE (co_output q)) = [[nat (log_count d g), nat (log_count d g), 1990, 1991]]))"

lemma rec_image_mountable: "rec_image d g \<Longrightarrow> mountable d g"
  using rec_imageD by (simp add: mountable_def REC_FSSIZE_def)

lemma runs_kernel_replays: "runs_kernel em \<Longrightarrow> replays em"
  unfolding replays_def runs_kernel_def by (metis mount_run rec_image_mountable)

text \<open>A restart that replays the log and prints the marker.\<close>

definition replay_line :: "nat \<Rightarrow> string" where
  "replay_line n = ''RECOVERY REPLAY abi=1 seen_n='' @ show_nat n @ '' installed='' @ show_nat n @
     '' cleared=1 left='' @ show_nat 1990 @ '' right='' @ show_nat 1991"

definition kernel_emulator :: emulator where
  "kernel_emulator =
     \<lparr>em_console = (\<lambda>d sent.
        (case parse_geometry d {} of
           Inr (Some g, _) \<Rightarrow> [Ready (replay_line (nat (log_count d g)) @ CHR 0x0A # ''$ '')]
         | _ \<Rightarrow> [Ready []])),
      em_image = (\<lambda>d sent. (case mount K_ROOTDEV (kernel_start 1 d) of Inr (_, k) \<Rightarrow> k_disk k | Inl _ \<Rightarrow> d))\<rparr>"

lemma match_literal: "match_pieces (PLit l # ps) (l @ s) = match_pieces ps s"
  by (simp add: starts_with_def)

lemma space_not_digit: "\<not> is_digit CHR '' ''"
  by (simp add: is_digit_def)

lemma match_field:
  "match_pieces (PDigits # PLit (CHR '' '' # l) # ps) (show_nat n @ (CHR '' '' # l) @ s) = map_option ((#) (show_nat n)) (match_pieces ps s)"
proof -
  have "takeWhile is_digit (show_nat n @ (CHR '' '' # l) @ s) = show_nat n"
    using takeWhile_append2 [of "show_nat n" is_digit, OF set_show_nat] by (simp add: space_not_digit)
  then show ?thesis
    using match_literal [of "CHR '' '' # l" ps s] by (simp only: match_pieces.simps(3) Let_def) simp
qed

lemma match_last_field: "match_pieces [PDigits] (show_nat n) = Some [show_nat n]"
proof -
  have "takeWhile is_digit (show_nat n) = show_nat n" by (simp add: takeWhile_eq_all_conv set_show_nat)
  then show ?thesis by (simp only: match_pieces.simps Let_def) simp
qed

lemma findall_lines:
  "CHR 0x0A \<notin> set s \<Longrightarrow> CHR 0x0A \<notin> set t \<Longrightarrow> match_pieces pat s = Some m \<Longrightarrow> match_pieces pat t = None \<Longrightarrow>
     findall pat (s @ CHR 0x0A # t) = [m]"
  by (simp add: findall_def split_on_append split_on_id List.map_filter_simps)

lemma no_newline: "CHR 0x0A \<notin> set (show_nat k)" "CHR 0x0D \<notin> set (show_nat k)"
  using set_show_nat [of "CHR 0x0A" k] set_show_nat [of "CHR 0x0D" k] by (auto simp: is_digit_def)

lemma findall_replay_line:
  "findall REPLAY_RE (replay_line n @ CHR 0x0A # ''$ '') = [[show_nat n, show_nat n, show_nat 1990, show_nat 1991]]"
proof (rule findall_lines)
  show "match_pieces REPLAY_RE (replay_line n) = Some [show_nat n, show_nat n, show_nat 1990, show_nat 1991]"
    unfolding REPLAY_RE_def replay_line_def by (simp only: match_literal match_field match_last_field option.map)
  show "CHR 0x0A \<notin> set (replay_line n)" by (simp add: replay_line_def no_newline)
qed (simp_all add: REPLAY_RE_def starts_with_def)

lemma kernel_emulator_runs: "runs_kernel kernel_emulator"
proof -
  have q: "start_qemu kernel_emulator d = Inr \<lparr>co_output = replay_line (nat (log_count d g)) @ CHR 0x0A # ''$ '', co_pending = []\<rparr>"
    if "parse_geometry d {} = Inr (Some g, {})" for d g
  proof -
    let ?l = "replay_line (nat (log_count d g)) @ CHR 0x0A # ''$ ''"
    have "CHR 0x0D \<notin> set ?l" by (simp add: replay_line_def no_newline)
    then have "remove_cr ?l = ?l" unfolding remove_cr_def by (intro filter_True) metis
    moreover have "contains ?l ''$ ''" unfolding contains_iff by (rule exI [of _ "replay_line (nat (log_count d g)) @ [CHR 0x0A]"]) simp
    moreover have "\<not> contains [] ''$ ''" by (simp add: contains_iff)
    ultimately show ?thesis by (simp add: start_qemu_def kernel_emulator_def that console_read_def)
  qed
  have d: "em_image kernel_emulator d [] = k_disk k" if "rec_image d g" "mount K_ROOTDEV (kernel_start pid d) = Inr ((), k)" for d g pid k
  proof -
    note M = rec_image_mountable [OF that(1)]
    obtain k1 where "mount K_ROOTDEV (kernel_start 1 d) = Inr ((), k1)" "k_disk k1 = replay d g" by (rule mount_run [OF M])
    moreover obtain k2 where "mount K_ROOTDEV (kernel_start pid d) = Inr ((), k2)" "k_disk k2 = replay d g" by (rule mount_run [OF M])
    ultimately show ?thesis using that(2) by (simp add: kernel_emulator_def)
  qed
  show ?thesis using q d rec_imageD(1) by (fastforce simp: runs_kernel_def findall_replay_line)
qed

text \<open>The crash marker is found in a transcript that ends with it.\<close>

lemma match_name:
  assumes "name \<noteq> []" and "list_all (\<lambda>c. 65 \<le> (of_char c :: int) \<and> (of_char c :: int) \<le> 90 \<or> c = CHR ''_'') name"
  shows "match_pieces (PName # PLit (CHR '' '' # l) # ps) (name @ (CHR '' '' # l) @ s) = map_option ((#) name) (match_pieces ps s)"
proof -
  let ?P = "\<lambda>c. 65 \<le> (of_char c :: int) \<and> (of_char c :: int) \<le> 90 \<or> c = CHR ''_''"
  have "takeWhile ?P (name @ (CHR '' '' # l) @ s) = name @ takeWhile ?P ((CHR '' '' # l) @ s)"
    using assms(2) by (intro takeWhile_append2) (simp add: list_all_iff)
  also have "takeWhile ?P ((CHR '' '' # l) @ s) = []" by simp
  finally show ?thesis
    using assms(1) match_literal [of "CHR '' '' # l" ps s] by (simp only: match_pieces.simps(4) Let_def) simp
qed

lemma search_last_line:
  assumes "t = line @ CHR 0x0A # []" and "CHR 0x0A \<notin> set line" and "match_pieces pat line \<noteq> None"
  shows "\<exists>l. search pat t = Inr l"
  using assms by (simp add: search_def split_on_append split_on_id)

lemma search_crash_marker:
  assumes "name \<noteq> []" and "list_all (\<lambda>c. 65 \<le> (of_char c :: int) \<and> (of_char c :: int) \<le> 90 \<or> c = CHR ''_'') name"
    and "CHR 0x0A \<notin> set name"
  shows "\<exists>line. search CRASH_RE (crash_marker name epoch) = Inr line"
proof -
  let ?line = "''RECOVERY CRASH abi=1 point='' @ name @ '' hart='' @ show_nat 0 @ '' epoch='' @ show_nat epoch @ '' count='' @
      show_nat 2 @ '' left='' @ show_nat 1990 @ '' right='' @ show_nat 1991 @ '' fired=1'' @ []"
  have d: "show_nat 0 = ''0''" "show_nat 2 = ''2''" by code_simp+
  have "crash_marker name epoch = ?line @ CHR 0x0A # []" by (simp add: crash_marker_def d HOME_BLOCKS_def)
  moreover have "CHR 0x0A \<notin> set ?line" using assms(3) no_newline by simp
  moreover have "match_pieces CRASH_RE ?line \<noteq> None"
    unfolding CRASH_RE_def by (simp only: match_literal match_name [OF assms(1,2)] match_field) simp
  ultimately show ?thesis by (rule search_last_line)
qed

section \<open>Properties\<close>





end
