(* ===== verification/KernelTx.thy ===== *)
theory KernelTx
  imports KernelCrash
begin

text \<open>
  Transactions of the kernel: operations that update blocks through the log between \<open>begin_op\<close> and
  \<open>end_op\<close>, what they leave on disk, and what is found after a crash at any point of a sequence of them.
\<close>

section \<open>One update\<close>

definition log_add :: "nat list \<Rightarrow> nat \<Rightarrow> nat list" where
  "log_add ts b = (if b \<in> set ts then ts else ts @ [b])"

lemma log_add_simps [simp]: "set (log_add ts b) = insert b (set ts)" "distinct ts \<Longrightarrow> distinct (log_add ts b)"
  by (auto simp: log_add_def)

lemma length_log_add: "length (log_add ts b) \<le> Suc (length ts)"
  by (simp add: log_add_def)

lemma takeWhile_found: "b \<in> set ts \<Longrightarrow> length (takeWhile (\<lambda>x. x \<noteq> b) ts) < length ts"
  by (induction ts) auto

lemma takeWhile_absent: "b \<notin> set ts \<Longrightarrow> takeWhile (\<lambda>x. x \<noteq> b) ts = ts"
  by (induction ts) auto

text \<open>\<open>log_write\<close> on a buffer that is held.\<close>

lemma log_write_run:
  assumes "log_holds dev s ts (k_log k)" and "length ts < K_LOGBLOCKS" and "lg_outstanding (k_log k) \<ge> 1" and "kb_blockno (buf k i) = b"
  obtains l where "log_holds dev s (log_add ts b) l" and "lg_outstanding l = lg_outstanding (k_log k)" and "lg_committing l = lg_committing (k_log k)"
    and "log_write i k = Inr ((), (if b \<in> set ts then k else upd_buf i (\<lambda>c. c\<lparr>kb_refcnt := kb_refcnt c + 1\<rparr>) k)\<lparr>k_log := l\<rparr>)"
proof -
  let ?l = "k_log k"
  have l: "lg_n ?l = int (length ts)" "take (length ts) (lg_block ?l) = ts" "length (lg_block ?l) = K_LOGBLOCKS"
    using assms(1) by (simp_all add: log_holds_def)
  let ?slot = "length (takeWhile (\<lambda>x. x \<noteq> b) ts)"
  have nofull: "\<not> int K_LOGBLOCKS \<le> int (length ts)" using assms(2) by simp
  show ?thesis
  proof (cases "b \<in> set ts")
    case True
    then have slot: "?slot < length ts" by (rule takeWhile_found)
    then have "ts ! ?slot = b" using nth_length_takeWhile [OF slot] by simp
    moreover have "lg_block ?l ! ?slot = ts ! ?slot" using slot l(2) by (metis nth_take)
    ultimately have "(lg_block ?l)[?slot := b] = lg_block ?l" by (metis list_update_id)
    then have "log_write i k = Inr ((), k\<lparr>k_log := ?l\<rparr>)"
      using nofull assms(3,4) slot by (simp add: log_write_def l Let_def)
    then show ?thesis using True assms(1) by (intro that [of ?l]) (simp_all add: log_add_def)
  next
    case False
    then have slot: "?slot = length ts" by (simp add: takeWhile_absent)
    let ?l' = "?l\<lparr>lg_block := (lg_block ?l)[length ts := b], lg_n := lg_n ?l + 1\<rparr>"
    have "take (Suc (length ts)) ((lg_block ?l)[length ts := b]) = ts @ [b]"
      using assms(2) l(2,3) by (simp add: take_Suc_conv_app_nth)
    then have "log_holds dev s (log_add ts b) ?l'" using assms(1,2) False by (simp add: log_holds_def log_add_def)
    moreover have "log_write i k = Inr ((), (upd_buf i (\<lambda>c. c\<lparr>kb_refcnt := kb_refcnt c + 1\<rparr>) k)\<lparr>k_log := ?l'\<rparr>)"
      using nofull assms(3,4) slot by (simp add: log_write_def l Let_def bpin_def upd_buf_def buf_def)
    ultimately show ?thesis using False by (intro that [of ?l']) simp_all
  qed
qed

lemma update_block_run:
  assumes st: "steady dev k (set ts)" and log: "log_holds dev s ts (k_log k)" and out: "lg_outstanding (k_log k) \<ge> 1"
    and lt: "length ts < K_LOGBLOCKS" and b: "b < image_blocks (k_disk k)" and len: "length (f (kview dev k b)) = BSIZE"
  obtains k' where "update_block dev b f k = Inr ((), k')" and "steady dev k' (set (log_add ts b))"
    and "log_holds dev s (log_add ts b) (k_log k')" and "kview dev k' = (kview dev k)(b := f (kview dev k b))"
    and "k_disk k' = k_disk k" and "k_writes k' = k_writes k"
    and "lg_outstanding (k_log k') = lg_outstanding (k_log k)" and "lg_committing (k_log k') = lg_committing (k_log k)"
proof -
  note ok = steadyD(1,2) [OF st]
  have "card (set ts) < K_NBUF" using lt card_length [of ts] by (simp add: kernel_consts)
  then have free: "free_bufs k \<noteq> {}" using steady_free [OF st] by simp
  obtain i k1 where r: "bread dev b k = Inr (i, k1)" and f: "fits dev b k i" and k1: "cache_ok dev k1" "kview dev k1 = kview dev k"
      "k_disk k1 = k_disk k" "k_writes k1 = k_writes k" "k_log k1 = k_log k" "k_pid k1 = k_pid k"
    and b1: "\<forall>l < K_NBUF. buf k1 l = (if l = i then loaded dev b k i else buf k l)"
    by (rule one_read [OF ok b free])
  have n: "i < K_NBUF" using f by (simp add: fits_def)
  have ri: "kb_refcnt (buf k i) = (if b \<in> set ts then 1 else 0)"
  proof (cases "b \<in> set ts")
    case True
    then have "keyed k dev b i" using f steadyD(3) [OF st True] by (simp add: fits_def)
    then show ?thesis using steadyD(4) [OF st n] True by (simp add: keyed_def)
  next
    case False
    then show ?thesis using f steadyD(4) [OF st n] by (auto simp: fits_def keyed_def split: if_splits)
  qed
  let ?x = "f (kview dev k b)"
  let ?k2 = "upd_buf i (\<lambda>c. c\<lparr>kb_data := ?x\<rparr>) k1"
  have bi: "buf k1 i = loaded dev b k i" using b1 n by simp
  have S: "cache_ok dev ?k2" "kview dev ?k2 = (kview dev k)(b := ?x)"
    using set_data_law [OF k1(1) n, of ?x] len by (simp_all add: bi ri k1(2) split: if_splits)
  have b2: "buf ?k2 l = (if l = i then (loaded dev b k i)\<lparr>kb_data := ?x\<rparr> else buf k1 l)" for l
    using n by (simp add: buf_upd_buf cache_okD(1) [OF k1(1)] bi)
  obtain lg where lg: "log_holds dev s (log_add ts b) lg" "lg_outstanding lg = lg_outstanding (k_log ?k2)" "lg_committing lg = lg_committing (k_log ?k2)"
    and lw: "log_write i ?k2 = Inr ((), (if b \<in> set ts then ?k2 else upd_buf i (\<lambda>c. c\<lparr>kb_refcnt := kb_refcnt c + 1\<rparr>) ?k2)\<lparr>k_log := lg\<rparr>)"
    by (rule log_write_run [of dev s ts ?k2 i b]) (use log out lt in \<open>simp_all add: k1(5) b2\<close>)
  let ?k3 = "if b \<in> set ts then ?k2 else upd_buf i (\<lambda>c. c\<lparr>kb_refcnt := kb_refcnt c + 1\<rparr>) ?k2"
  have k3: "cache_ok dev ?k3" "kview dev ?k3 = kview dev ?k2"
    using bpin_run [OF S(1) n] S(1) by (simp_all add: b2 ri)
  have b3: "buf ?k3 l = (if l = i then (loaded dev b k i)\<lparr>kb_data := ?x, kb_refcnt := 2\<rparr> else buf k1 l)" for l
    using n ri by (simp add: buf_upd_buf cache_okD(1) [OF k1(1)] b2)
  let ?k4 = "?k3\<lparr>k_log := lg\<rparr>"
  have k4: "cache_ok dev ?k4" "kview dev ?k4 = (kview dev k)(b := ?x)" "k_disk ?k4 = k_disk k" "k_writes ?k4 = k_writes k" "k_pid ?k4 = k_pid k" "k_log ?k4 = lg"
    using k3 S(2) k1 by simp_all
  have b4: "buf ?k4 l = (if l = i then (loaded dev b k i)\<lparr>kb_data := ?x, kb_refcnt := 2\<rparr> else buf k1 l)" for l
    using b3 by simp
  have bi4: "buf ?k4 i = (loaded dev b k i)\<lparr>kb_data := ?x, kb_refcnt := 2\<rparr>" using b4 [of i] by simp
  have hv: "kb_valid (buf ?k4 i)" "kb_lock (buf ?k4 i) = held ?k4" unfolding bi4 by (simp_all add: held_def k1)
  have h1: "kb_data (buf ?k4 i) = block (k_disk ?k4) (kb_blockno (buf ?k4 i))" if "kb_refcnt (buf ?k4 i) = 1"
    using that unfolding bi4 by simp
  obtain k5 where r5: "brelse i ?k4 = Inr ((), k5)" and k5: "cache_ok dev k5" "kview dev k5 = kview dev ?k4"
    and b5: "\<forall>j < K_NBUF. buf k5 j = (if j = i then (buf ?k4 i)\<lparr>kb_lock := \<lparr>sl_locked = False, sl_pid = 0\<rparr>, kb_refcnt := kb_refcnt (buf ?k4 i) - 1\<rparr> else buf ?k4 j)"
    and s5: "k_disk k5 = k_disk ?k4" "k_writes k5 = k_writes ?k4" "k_log k5 = k_log ?k4" "k_pid k5 = k_pid ?k4"
    by (rule brelse_run [OF k4(1) n hv h1])
  have B: "buf k5 l = (if l = i then (loaded dev b k i)\<lparr>kb_data := ?x, kb_lock := \<lparr>sl_locked = False, sl_pid = 0\<rparr>, kb_refcnt := 1\<rparr> else buf k l)"
    if "l < K_NBUF" for l using b5 [rule_format, OF that] b4 [of l] b1 that bi4 by simp
  have run: "update_block dev b f k = Inr ((), k5)"
    using r lw r5 by (simp add: update_block_def set_data_def bi)
  have key5: "keyed k5 dev b i" using B [OF n] by (simp add: keyed_def)
  have "\<exists>l < K_NBUF. keyed k5 dev t l" if t: "t \<in> insert b (set ts)" for t
  proof (cases "t = b")
    case True
    then show ?thesis using key5 n by blast
  next
    case False
    then obtain l where l: "l < K_NBUF" "keyed k dev t l" "kb_refcnt (buf k l) \<noteq> 0"
      using steadyD(3) [OF st, of t] t by (auto simp: pinned_def)
    then have "l \<noteq> i" using f False by (auto simp: fits_def keyed_def)
    then show ?thesis using l B by (auto simp: keyed_def)
  qed
  moreover have "kb_refcnt (buf k5 l) = (if kb_dev (buf k5 l) = dev \<and> kb_blockno (buf k5 l) \<in> insert b (set ts) then 1 else 0)" if l: "l < K_NBUF" for l
  proof (cases "l = i")
    case True
    then show ?thesis using B [OF n] by simp
  next
    case False
    then have "\<not> keyed k5 dev b l" using key5 n l cache_okD(5) [OF k5(1)] by (auto simp: unique_keys_def keyed_def)
    then show ?thesis using steadyD(4) [OF st l] B [OF l] False by (auto simp: keyed_def)
  qed
  moreover have "calm k5" using ok(2) by (simp add: calm_def B)
  ultimately have "steady dev k5 (set (log_add ts b))" using k5(1) by (simp add: steady_def)
  then show ?thesis
    by (rule that [OF run]) (use lg k1 k4 k5 s5 in \<open>simp_all\<close>)
qed

section \<open>Operations\<close>

text \<open>A file-system operation: a sequence of block updates between \<open>begin_op\<close> and \<open>end_op\<close>.\<close>

type_synonym operation = "(nat \<times> (bytes \<Rightarrow> bytes)) list"

definition run_op :: "operation \<Rightarrow> unit kop" where
  "run_op us = kbind begin_op (\<lambda>_. kbind (kfor (\<lambda>(b, f). update_block K_ROOTDEV b f) us) (\<lambda>_. end_op))"

definition op_ok :: "geometry \<Rightarrow> operation \<Rightarrow> bool" where
  "op_ok g us \<longleftrightarrow> length us \<le> K_MAXOPBLOCKS \<and> (\<forall>(b, f) \<in> set us. file_block g b \<and> (\<forall>x. length x = BSIZE \<longrightarrow> length (f x) = BSIZE))"

definition op_view :: "operation \<Rightarrow> (nat \<Rightarrow> bytes) \<Rightarrow> nat \<Rightarrow> bytes" where
  "op_view us v = foldl (\<lambda>v (b, f). v(b := f (v b))) v us"

definition op_blocks :: "operation \<Rightarrow> nat list" where
  "op_blocks us = foldl log_add [] (map fst us)"

lemma op_view_simps [simp]: "op_view [] v = v" "op_view ((b, f) # us) v = op_view us (v(b := f (v b)))"
  by (simp_all add: op_view_def)

lemma log_adds:
  "set (foldl log_add ts bs) = set ts \<union> set bs" "distinct ts \<Longrightarrow> distinct (foldl log_add ts bs)"
  "length (foldl log_add ts bs) \<le> length ts + length bs"
proof -
  show "set (foldl log_add ts bs) = set ts \<union> set bs" by (induction bs arbitrary: ts) auto
  show "distinct ts \<Longrightarrow> distinct (foldl log_add ts bs)" by (induction bs arbitrary: ts) auto
  show "length (foldl log_add ts bs) \<le> length ts + length bs"
  proof (induction bs arbitrary: ts)
    case (Cons b bs)
    show ?case using Cons.IH [of "log_add ts b"] length_log_add [of ts b] by simp
  qed simp
qed

lemma op_blocks_facts: "set (op_blocks us) = fst ` set us" "distinct (op_blocks us)" "length (op_blocks us) \<le> length us"
  using log_adds [of "[]" "map fst us"] by (simp_all add: op_blocks_def)

lemma op_view_other: "b \<notin> fst ` set us \<Longrightarrow> op_view us v b = v b"
  by (induction us arbitrary: v) auto

lemma updates_run:
  assumes "steady dev k (set ts)" and "log_holds dev s ts (k_log k)" and "lg_outstanding (k_log k) \<ge> 1"
    and "length ts + length us \<le> K_LOGBLOCKS" and "\<forall>(b, f) \<in> set us. b < image_blocks (k_disk k) \<and> (\<forall>x. length x = BSIZE \<longrightarrow> length (f x) = BSIZE)"
  shows "\<exists>k'. kfor (\<lambda>(b, f). update_block dev b f) us k = Inr ((), k') \<and> steady dev k' (set (foldl log_add ts (map fst us))) \<and>
    log_holds dev s (foldl log_add ts (map fst us)) (k_log k') \<and> kview dev k' = op_view us (kview dev k) \<and>
    k_disk k' = k_disk k \<and> k_writes k' = k_writes k \<and>
    lg_outstanding (k_log k') = lg_outstanding (k_log k) \<and> lg_committing (k_log k') = lg_committing (k_log k)"
  using assms
proof (induction us arbitrary: k ts)
  case (Cons u us)
  obtain b f where u: "u = (b, f)" by (cases u)
  have b: "b < image_blocks (k_disk k)" and lt: "length ts < K_LOGBLOCKS" using Cons.prems(4,5) by (auto simp: u kernel_consts)
  have len: "length (f (kview dev k b)) = BSIZE"
    using Cons.prems(5) length_kview [OF steadyD(1) [OF Cons.prems(1)] b] by (auto simp: u)
  obtain k1 where k1: "update_block dev b f k = Inr ((), k1)" "steady dev k1 (set (log_add ts b))"
    "log_holds dev s (log_add ts b) (k_log k1)" "kview dev k1 = (kview dev k)(b := f (kview dev k b))"
    "k_disk k1 = k_disk k" "k_writes k1 = k_writes k"
    "lg_outstanding (k_log k1) = lg_outstanding (k_log k)" "lg_committing (k_log k1) = lg_committing (k_log k)"
    by (rule update_block_run [where f = f, OF Cons.prems(1-3) lt b len])
  have "length (log_add ts b) + length us \<le> K_LOGBLOCKS" using Cons.prems(4) length_log_add [of ts b] by simp
  from Cons.IH [OF k1(2,3) _ this] Cons.prems(3,5) show ?case using k1 by (auto simp: u fun_upd_def)
qed simp

lemma run_op_run:
  assumes "idle g k" and "mountable (k_disk k) g" and "op_ok g us"
    and "ws = (if us = [] then [] else commit_writes (g_logstart g) (op_blocks us) (op_view us (block (k_disk k))))"
  obtains k' where "run_op us k = Inr ((), k')" and "idle g k'" and "k_disk k' = img.write_all ws (k_disk k)" and "k_writes k' = k_writes k @ ws"
proof -
  let ?dev = K_ROOTDEV and ?s = "g_logstart g" and ?ts = "op_blocks us"
  note M = mountableD [OF assms(2)]
  have st: "steady ?dev k {}" and lh: "log_holds ?dev ?s [] (k_log k)" and out: "lg_outstanding (k_log k) = 0" and nc: "\<not> lg_committing (k_log k)"
    using assms(1) by (simp_all add: idle_def)
  let ?k1 = "k\<lparr>k_log := (k_log k)\<lparr>lg_outstanding := 1\<rparr>\<rparr>"
  have b: "begin_op k = Inr ((), ?k1)" using lh out nc by (simp add: begin_op_def log_holds_def Let_def kernel_consts)
  have lh1: "log_holds ?dev ?s [] (k_log ?k1)" using lh by (simp add: log_holds_def)
  have us: "length us \<le> K_MAXOPBLOCKS" "\<forall>(b, f) \<in> set us. b < image_blocks (k_disk ?k1) \<and> (\<forall>x. length x = BSIZE \<longrightarrow> length (f x) = BSIZE)"
    using assms(3) M(4) by (auto simp: op_ok_def file_block_def)
  obtain k2 where k2: "kfor (\<lambda>(b, f). update_block ?dev b f) us ?k1 = Inr ((), k2)" "steady ?dev k2 (set ?ts)" "log_holds ?dev ?s ?ts (k_log k2)"
    "kview ?dev k2 = op_view us (kview ?dev ?k1)" "k_disk k2 = k_disk ?k1" "k_writes k2 = k_writes ?k1"
    "lg_outstanding (k_log k2) = 1" "lg_committing (k_log k2) = lg_committing (k_log ?k1)"
    using updates_run [of ?dev ?k1 "[]" ?s us] st lh1 us by (auto simp: op_blocks_def kernel_consts)
  have v: "kview ?dev k2 = op_view us (block (k_disk k))" using k2(4) steady_view [OF st] by (simp add: fun_eq_iff) (metis ext)
  let ?k3 = "k2\<lparr>k_log := (k_log k2)\<lparr>lg_outstanding := 0, lg_committing := True\<rparr>\<rparr>"
  have lh3: "log_holds ?dev ?s ?ts (k_log ?k3)" using k2(3) by (simp add: log_holds_def)
  have e: "end_op k2 = kbind commit (\<lambda>_. set_committing False) ?k3"
    using k2(7,8) nc by (simp add: end_op_def set_committing_def Let_def)
  have "\<exists>k4. commit ?k3 = Inr ((), k4) \<and> steady ?dev k4 {} \<and> k_log k4 = (k_log ?k3)\<lparr>lg_n := 0\<rparr> \<and>
      k_disk k4 = img.write_all ws (k_disk k) \<and> k_writes k4 = k_writes k @ ws"
  proof (cases "us = []")
    case True
    then have "commit ?k3 = Inr ((), ?k3)" "lg_n (k_log k2) = 0" using k2(3) by (simp_all add: commit_def log_holds_def op_blocks_def)
    moreover have "steady ?dev ?k3 {}" using k2(2) True by (simp add: op_blocks_def)
    ultimately show ?thesis using k2(5,6) True assms(4) by (simp add: img.write_all_def)
  next
    case False
    have hk: "homes_ok ?s (image_blocks (k_disk ?k3)) ?ts" using assms(3) op_blocks_facts [of us] M(4,6,7) k2(5)
      by (auto simp: homes_ok_def op_ok_def file_block_def)
    have lt: "length ?ts < K_NBUF" "?ts \<noteq> []" using us(1) op_blocks_facts [of us] False by (auto simp: kernel_consts)
    have st3: "steady ?dev ?k3 (set ?ts)" using k2(2) by simp
    obtain k4 where "commit ?k3 = Inr ((), k4)" "steady ?dev k4 {}" "k_log k4 = (k_log ?k3)\<lparr>lg_n := 0\<rparr>"
      "wrote ?dev (commit_writes ?s ?ts (kview ?dev ?k3)) ?k3 k4"
      by (rule commit_run [OF st3 lh3 hk lt])
    then show ?thesis using False assms(4) v k2(5,6) by (auto simp: wrote_def)
  qed
  then obtain k4 where k4: "commit ?k3 = Inr ((), k4)" "steady ?dev k4 {}" "k_log k4 = (k_log ?k3)\<lparr>lg_n := 0\<rparr>"
    "k_disk k4 = img.write_all ws (k_disk k)" "k_writes k4 = k_writes k @ ws" by blast
  let ?k5 = "k4\<lparr>k_log := (k_log k4)\<lparr>lg_committing := False\<rparr>\<rparr>"
  have "run_op us k = Inr ((), ?k5)" using b k2(1) e k4(1) by (simp add: run_op_def set_committing_def)
  moreover have "idle g ?k5" using k4(2,3) cleared_log [OF lh3] by (simp add: idle_def log_holds_def)
  ultimately show ?thesis using k4(4,5) by (intro that [of ?k5]) simp_all
qed

section \<open>Sequences of operations\<close>

definition run_kernel :: "nat \<Rightarrow> bytes \<Rightarrow> operation list \<Rightarrow> kfault + unit \<times> kernel" where
  "run_kernel pid d ops = kbind (mount K_ROOTDEV) (\<lambda>_. kfor run_op ops) (kernel_start pid d)"

definition ops_view :: "operation list \<Rightarrow> (nat \<Rightarrow> bytes) \<Rightarrow> nat \<Rightarrow> bytes" where
  "ops_view ops v = foldl (\<lambda>v us. op_view us v) v ops"

text \<open>The disk after a crash that comes after \<open>m\<close> completed writes.\<close>

definition crash_disk :: "bytes \<Rightarrow> (nat \<times> bytes) list \<Rightarrow> nat \<Rightarrow> bytes" where
  "crash_disk d ws m = img.write_all (take m ws) d"

lemma kfor_append: "kfor f (xs @ ys) = kbind (kfor f xs) (\<lambda>_. kfor f ys)"
  by (induction xs) (auto simp: kbind_def fun_eq_iff split: sum.split prod.split)

lemma run_kernel_snoc: "run_kernel pid d ops = Inr ((), k) \<Longrightarrow> run_kernel pid d (ops @ [us]) = run_op us k"
  by (auto simp: run_kernel_def kfor_append kbind_def split: sum.splits prod.splits)

lemma op_view_cong: "\<forall>(b, f) \<in> set us. P b \<Longrightarrow> (\<And>b. P b \<Longrightarrow> v b = w b) \<Longrightarrow> P b \<Longrightarrow> op_view us v b = op_view us w b"
proof (induction us arbitrary: v w)
  case (Cons u us)
  obtain c f where u: "u = (c, f)" by (cases u)
  have "op_view us (v(c := f (v c))) b = op_view us (w(c := f (w c))) b"
    using Cons.prems by (intro Cons.IH) (auto simp: u)
  then show ?case by (simp add: u)
qed simp

text \<open>What holds after every sequence of operations: the state between operations, and an empty log on disk.\<close>

definition mounted :: "bytes \<Rightarrow> geometry \<Rightarrow> operation list \<Rightarrow> kernel \<Rightarrow> bool" where
  "mounted d g ops k \<longleftrightarrow> idle g k \<and> mountable (k_disk k) g \<and> signed 32 (u32_at (block (k_disk k) (g_logstart g)) 0) = 0 \<and>
     img.write_all (k_writes k) d = k_disk k \<and> (\<forall>b. file_block g b \<longrightarrow> block (k_disk k) b = ops_view ops (block (replay d g)) b)"

lemma mounted_start:
  assumes "mountable d g"
  obtains k where "run_kernel pid d [] = Inr ((), k)" and "mounted d g [] k" and "k_writes k = recovery_writes d g"
proof -
  obtain k where k: "mount K_ROOTDEV (kernel_start pid d) = Inr ((), k)" "k_disk k = replay d g" "k_writes k = recovery_writes d g" "idle g k"
    by (rule mount_run [OF assms])
  note M = mountableD [OF assms]
  have "img.write_all (k_writes k) d = replay d g" using recovery_image [OF assms] k(3) by simp
  moreover have "mountable (replay d g) g"
    using recovery_crash(1) [OF assms refl, of "length (recovery_writes d g)"] recovery_image [OF assms] by simp
  moreover have "signed 32 (u32_at (block (replay d g) (g_logstart g)) 0) = 0" using replay_header(1) [OF M(1,2)] by (simp add: log_count_def)
  ultimately have "mounted d g [] k" using k by (simp add: mounted_def ops_view_def)
  moreover have "run_kernel pid d [] = Inr ((), k)" using k(1) by (simp add: run_kernel_def)
  ultimately show ?thesis using k(3) by (intro that)
qed

lemma op_writes_ok:
  assumes "mounted d g ops k" and "op_ok g us" and "v = op_view us (block (k_disk k))"
  shows "length (op_blocks us) \<le> K_LOGBLOCKS" and "\<forall>t \<in> set (op_blocks us). file_block g t \<and> length (v t) = BSIZE"
    and "v (g_logstart g) = block (k_disk k) (g_logstart g)"
proof -
  have M: "image_blocks (k_disk k) = g_size g" "g_inodestart g = g_logstart g + K_LOGBLOCKS + 1" using assms(1) mountableD(4,6) unfolding mounted_def by blast+
  have us: "length us \<le> K_MAXOPBLOCKS" "\<forall>(b, f) \<in> set us. file_block g b \<and> (\<forall>x. length x = BSIZE \<longrightarrow> length (f x) = BSIZE)"
    using assms(2) by (simp_all add: op_ok_def)
  show "length (op_blocks us) \<le> K_LOGBLOCKS" using us(1) op_blocks_facts(3) [of us] by (simp add: kernel_consts)
  have "length (op_view xs w b) = BSIZE" if "\<forall>(b, f) \<in> set xs. \<forall>x. length x = BSIZE \<longrightarrow> length (f x) = BSIZE"
    "\<And>b. file_block g b \<Longrightarrow> length (w b) = BSIZE" "\<forall>(b, f) \<in> set xs. file_block g b" "file_block g b" for xs w b
    using that
  proof (induction xs arbitrary: w)
    case (Cons x xs)
    show ?case using Cons.prems by (cases x) (auto intro!: Cons.IH)
  qed simp
  from this [of us "block (k_disk k)"] us(2) show "\<forall>t \<in> set (op_blocks us). file_block g t \<and> length (v t) = BSIZE"
    using M(1) by (fastforce simp: op_blocks_facts assms(3) file_block_def)
  have "g_logstart g \<notin> fst ` set us" using us(2) M(2) by (fastforce simp: file_block_def)
  then show "v (g_logstart g) = block (k_disk k) (g_logstart g)" by (simp add: assms(3) op_view_other)
qed

text \<open>One more operation, and a crash inside it.\<close>

lemma mounted_step:
  assumes "mounted d g ops k" and "op_ok g us"
  obtains k' ws where "run_op us k = Inr ((), k')" and "mounted d g (ops @ [us]) k'" and "k_writes k' = k_writes k @ ws"
    and "ws = [] \<or> length (op_blocks us) < length ws"
    and "\<And>p. mountable (crash_disk (k_disk k) ws p) g \<and> (\<forall>b. file_block g b \<longrightarrow> block (replay (crash_disk (k_disk k) ws p) g) b =
           ops_view (if ws = [] \<or> length (op_blocks us) < p then ops @ [us] else ops) (block (replay d g)) b)"
proof -
  let ?D = "k_disk k" and ?s = "g_logstart g" and ?ts = "op_blocks us"
  let ?v = "op_view us (block ?D)"
  define ws where "ws = (if us = [] then [] else commit_writes ?s ?ts ?v)"
  have I: "idle g k" and M: "mountable ?D g" and z: "signed 32 (u32_at (block ?D ?s) 0) = 0" and W: "img.write_all (k_writes k) d = ?D"
    and V: "\<And>b. file_block g b \<Longrightarrow> block ?D b = ops_view ops (block (replay d g)) b"
    using assms(1) by (simp_all add: mounted_def)
  note O = op_writes_ok [OF assms refl]
  obtain k' where k': "run_op us k = Inr ((), k')" "idle g k'" "k_disk k' = img.write_all ws ?D" "k_writes k' = k_writes k @ ws"
    by (rule run_op_run [OF I M assms(2) ws_def])
  have fb: "\<forall>(b, f) \<in> set us. file_block g b" using assms(2) by (auto simp: op_ok_def)
  have v: "?v b = ops_view (ops @ [us]) (block (replay d g)) b" if "file_block g b" for b
    using op_view_cong [OF fb V that] by (simp add: ops_view_def)
  have w: "(if b \<in> set ?ts then ?v b else block ?D b) = ?v b" for b
    using op_view_other [of b us] by (simp add: op_blocks_facts)
  have crash: "mountable (crash_disk ?D ws p) g \<and> (\<forall>b. file_block g b \<longrightarrow> block (replay (crash_disk ?D ws p) g) b =
      ops_view (if ws = [] \<or> length ?ts < p then ops @ [us] else ops) (block (replay d g)) b)" for p
  proof (cases "us = []")
    case True
    then have "crash_disk ?D ws p = ?D" "ws = []" by (simp_all add: ws_def crash_disk_def img.write_all_def)
    moreover have "same_super ?D ?D" by (simp add: same_super_def)
    ultimately show ?thesis using empty_log_image [OF M _ z] v True by simp
  next
    case False
    then have ne: "ws \<noteq> []" "ws = commit_writes ?s ?ts ?v" by (simp_all add: ws_def commit_writes_def)
    note C = commit_crash [OF M z O(1) op_blocks_facts(2) O(2,3), of "crash_disk ?D ws p" p, unfolded crash_disk_def, folded ne(2), OF refl]
    show ?thesis
      using C v w V ne(1) unfolding crash_disk_def by (cases "length ?ts < p") simp_all
  qed
  have long: "ws = [] \<or> length ?ts < length ws" by (simp add: ws_def commit_writes_def payload_writes_def)
  have all: "k_disk k' = crash_disk ?D ws (length ws)" using k'(3) by (simp add: crash_disk_def)
  have header: "signed 32 (u32_at (block (k_disk k') ?s) 0) = 0"
  proof (cases "us = []")
    case True
    then show ?thesis using k'(3) z by (simp add: ws_def img.write_all_def)
  next
    case False
    have s: "length (?v ?s) = BSIZE" using O(3) mountableD(4,6,7) [OF M] by simp
    have "block (k_disk k') = wview ws (block ?D)"
      using write_all_view(1) [OF mountableD(3) [OF M] commit_writable(1) [OF M O(1,2) s]] False k'(3) by (simp add: ws_def)
    then show ?thesis using False by (simp add: ws_def commit_writes_def clear_header_count)
  qed
  have "same_super (k_disk k') (k_disk k')" by (simp add: same_super_def)
  moreover have M': "mountable (k_disk k') g" using crash [of "length ws"] all by simp
  ultimately have "block (k_disk k') b = ops_view (ops @ [us]) (block (replay d g)) b" if "file_block g b" for b
    using crash [of "length ws"] long that empty_log_image(2) [OF M' _ header that] by (simp add: all)
  then have "mounted d g (ops @ [us]) k'"
    using k'(2,3,4) M' header W by (simp add: mounted_def img.write_all_def)
  then show ?thesis using k'(1,4) long crash by (intro that [of k' ws])
qed

end
