(* ===== verification/KernelProps.thy ===== *)
theory KernelProps
  imports KernelTx RecoveryProps
begin

text \<open>
  Properties of the kernel's buffer cache and log: what a read returns on every branch, that mounting
  agrees with the offline checker, that a crash at any point recovers to a state between two
  operations, that the admission of operations protects the capacity of the log, and where it does not
  protect the buffer cache.
\<close>

section \<open>Recovery\<close>

text \<open>
  C4: The kernel recovers what the offline checker predicts.  On an image with a valid superblock whose
  log the checker accepts, mounting the file system ends without panic, and the disk is then exactly
  the shadow image of the checker; the writes that were made are the logged blocks in log order, followed by
  the cleared header.
\<close>

theorem kernel_recovery_is_shadow:
  assumes "parse_geometry d {} = Inr (Some g, {})" and "parse_log d g {} = Inr ((cnt, targets, Some shadow), {})" and "g_size g \<le> 2 ^ 31"
  shows "\<exists>k. mount K_ROOTDEV (kernel_start pid d) = Inr ((), k) \<and> k_disk k = shadow \<and>
    map fst (k_writes k) = targets @ [g_logstart g] \<and> k_disk k = img.write_all (k_writes k) d"
proof -
  have g: "geometry_ok d g" using parse_geometry_Some(1) [OF assms(1)] .
  have ok: "log_ok d g" using parse_log_accepts(2) [OF g] assms(2) by auto
  have eq: "targets = log_targets d g" "shadow = replay d g" using parse_log_accepts(1) [OF g ok] assms(2) by auto
  have M: "mountable d g" using assms(1,3) ok by (simp add: mountable_def)
  obtain k where k: "mount K_ROOTDEV (kernel_start pid d) = Inr ((), k)" "k_disk k = replay d g" "k_writes k = recovery_writes d g"
    by (rule mount_run [OF M])
  have "map fst (recovery_writes d g) = log_targets d g @ [g_logstart g]"
    by (simp add: recovery_writes_def install_writes_def comp_def map_nth)
  then show ?thesis using k eq recovery_image [OF M] by simp
qed

theorem kernel_recovery_is_shadow_witness:
  "\<exists>k. mount K_ROOTDEV (kernel_start 1 crashed_image) = Inr ((), k) \<and> k_disk k = installed_image \<and> map fst (k_writes k) = [35, 2]"
proof -
  have "parse_log crashed_image mini_geometry {} = Inr ((1, [35], Some installed_image), {})"
    using parse_log_accepts(1) [OF mini_images_ok(2) mini_log(6)] by (simp add: mini_log mini_replay)
  from kernel_recovery_is_shadow [OF mini_images_geometry(2) this, where pid = 1] show ?thesis by (auto simp: mini_layout_def)
qed

section \<open>Crashes\<close>

lemma kernel_runs:
  assumes "mountable d g" and "\<forall>us \<in> set ops. op_ok g us"
  shows "\<exists>k. run_kernel pid d ops = Inr ((), k) \<and> mounted d g ops k"
  using assms(2)
proof (induction ops rule: rev_induct)
  case Nil
  then show ?case using mounted_start [OF assms(1)] by metis
next
  case (snoc us ops)
  then obtain k where k: "run_kernel pid d ops = Inr ((), k)" "mounted d g ops k" by auto
  have "op_ok g us" using snoc.prems by simp
  then obtain k' ws where "run_op us k = Inr ((), k')" "mounted d g (ops @ [us]) k'" "k_writes k' = k_writes k @ ws"
    using mounted_step [OF k(2)] by metis
  then show ?case using run_kernel_snoc [OF k(1)] by auto
qed

lemma crash_prefix:
  assumes "mountable d g" and "\<forall>us \<in> set ops. op_ok g us" and "run_kernel pid d ops = Inr ((), k)"
  shows "\<exists>j \<le> length ops. (\<forall>i \<le> length ops. \<forall>ki. run_kernel pid d (take i ops) = Inr ((), ki) \<and> length (k_writes ki) \<le> m \<longrightarrow> i \<le> j) \<and>
    mountable (crash_disk d (k_writes k) m) g \<and>
    (\<forall>b. file_block g b \<longrightarrow> block (replay (crash_disk d (k_writes k) m) g) b = ops_view (take j ops) (block (replay d g)) b)"
  using assms(2,3)
proof (induction ops arbitrary: k rule: rev_induct)
  case Nil
  obtain k0 where "run_kernel pid d [] = Inr ((), k0)" "k_writes k0 = recovery_writes d g" by (rule mounted_start [OF assms(1)])
  then show ?case using Nil recovery_crash [OF assms(1) refl, where m = m] by (simp add: crash_disk_def ops_view_def)
next
  case (snoc us ops)
  obtain k0 where k0: "run_kernel pid d ops = Inr ((), k0)" "mounted d g ops k0" using kernel_runs [OF assms(1)] snoc.prems(1) by fastforce
  have "op_ok g us" using snoc.prems(1) by simp
  from mounted_step [OF k0(2) this] obtain k' ws where r: "run_op us k0 = Inr ((), k')" and kw: "k_writes k' = k_writes k0 @ ws"
    and long: "ws = [] \<or> length (op_blocks us) < length ws"
    and crash: "\<And>p. mountable (crash_disk (k_disk k0) ws p) g \<and> (\<forall>b. file_block g b \<longrightarrow> block (replay (crash_disk (k_disk k0) ws p) g) b =
           ops_view (if ws = [] \<or> length (op_blocks us) < p then ops @ [us] else ops) (block (replay d g)) b)" by metis
  have W: "k_writes k = k_writes k0 @ ws" using snoc.prems(2) run_kernel_snoc [OF k0(1)] r kw by simp
  let ?n = "length (k_writes k0)"
  have full: "length (k_writes ki) = ?n + length ws" if "run_kernel pid d (take (Suc (length ops)) (ops @ [us])) = Inr ((), ki)" for ki
    using that snoc.prems(2) W by simp
  show ?case
  proof (cases "m < ?n")
    case True
    then have "crash_disk d (k_writes k) m = crash_disk d (k_writes k0) m" by (simp add: crash_disk_def W)
    moreover obtain j where "j \<le> length ops" "\<forall>i \<le> length ops. \<forall>ki. run_kernel pid d (take i ops) = Inr ((), ki) \<and> length (k_writes ki) \<le> m \<longrightarrow> i \<le> j"
      "mountable (crash_disk d (k_writes k0) m) g"
      "\<forall>b. file_block g b \<longrightarrow> block (replay (crash_disk d (k_writes k0) m) g) b = ops_view (take j ops) (block (replay d g)) b"
      using snoc.IH [OF _ k0(1)] snoc.prems(1) by auto
    ultimately show ?thesis
      using True full by (intro exI [of _ j]) (auto simp: le_Suc_eq)
  next
    case False
    define p where "p = m - ?n"
    have c: "crash_disk d (k_writes k) m = crash_disk (k_disk k0) ws p"
      using False k0(2) by (simp add: crash_disk_def W p_def mounted_def img.write_all_def)
    let ?j = "if ws = [] \<or> length (op_blocks us) < p then Suc (length ops) else length ops"
    have dur: "i \<le> ?j" if "i \<le> Suc (length ops)" "run_kernel pid d (take i (ops @ [us])) = Inr ((), ki)" "length (k_writes ki) \<le> m" for i ki
    proof (cases "i = Suc (length ops)")
      case True
      then have "length ws \<le> p" using full that by (simp add: p_def)
      then show ?thesis using that(1) long by auto
    next
      case False
      then show ?thesis using that(1) by auto
    qed
    have "take ?j (ops @ [us]) = (if ws = [] \<or> length (op_blocks us) < p then ops @ [us] else ops)" by simp
    then show ?thesis using crash [of p] dur unfolding c by (intro exI [of _ ?j]) auto
  qed
qed

text \<open>
  C2: Crash safety.  A kernel that mounts a disk and performs a sequence of operations, each with at most
  the announced number of block updates, runs to the end, and the file blocks are then those of the
  recovered disk with all updates applied.  If the machine stops after any number of completed disk writes,
  inside recovery, inside a commit or between operations, then mounting the disk again succeeds, and the file blocks
  are those after some prefix of the operations, which contains every operation that had returned:
  operations are atomic, ordered and durable.
\<close>

theorem crash_recovers_prefix:
  assumes "mountable d g" and "\<forall>us \<in> set ops. op_ok g us"
  shows "\<exists>k. run_kernel pid d ops = Inr ((), k) \<and>
    (\<forall>b. file_block g b \<longrightarrow> block (k_disk k) b = ops_view ops (block (replay d g)) b) \<and>
    (\<forall>m. \<exists>j \<le> length ops. \<exists>k'.
       (\<forall>i \<le> length ops. \<forall>ki. run_kernel pid d (take i ops) = Inr ((), ki) \<and> length (k_writes ki) \<le> m \<longrightarrow> i \<le> j) \<and>
       mount K_ROOTDEV (kernel_start pid' (crash_disk d (k_writes k) m)) = Inr ((), k') \<and>
       (\<forall>b. file_block g b \<longrightarrow> block (k_disk k') b = ops_view (take j ops) (block (replay d g)) b))"
proof -
  obtain k where k: "run_kernel pid d ops = Inr ((), k)" "mounted d g ops k" using kernel_runs [OF assms] by blast
  have "\<exists>j \<le> length ops. \<exists>k'. (\<forall>i \<le> length ops. \<forall>ki. run_kernel pid d (take i ops) = Inr ((), ki) \<and> length (k_writes ki) \<le> m \<longrightarrow> i \<le> j) \<and>
       mount K_ROOTDEV (kernel_start pid' (crash_disk d (k_writes k) m)) = Inr ((), k') \<and>
       (\<forall>b. file_block g b \<longrightarrow> block (k_disk k') b = ops_view (take j ops) (block (replay d g)) b)" for m
    using crash_prefix [OF assms k(1), of m] mount_run [of "crash_disk d (k_writes k) m" g pid'] by metis
  moreover have "\<forall>b. file_block g b \<longrightarrow> block (k_disk k) b = ops_view ops (block (replay d g)) b" using k(2) by (simp add: mounted_def)
  ultimately show ?thesis using k(1) by blast
qed

lemma crashed_mountable: "mountable crashed_image mini_geometry"
  using mini_images_geometry(2) mini_log(6) by (simp add: mountable_def mini_layout_def)

theorem crash_recovers_prefix_witness:
  "\<exists>k. run_kernel 1 crashed_image [[(34, \<lambda>_. replicate BSIZE 7)]] = Inr ((), k) \<and>
     block (k_disk k) 34 = replicate BSIZE 7 \<and> block (k_disk k) 35 = block crashed_image 3"
proof -
  have ok: "\<forall>us \<in> set [[(34, \<lambda>_ :: bytes. replicate BSIZE (7 :: byte))]]. op_ok mini_geometry us"
    by (simp add: op_ok_def file_block_def mini_layout_def kernel_consts)
  have fb: "file_block mini_geometry 34" "file_block mini_geometry 35" by (simp_all add: file_block_def mini_layout_def)
  obtain k where k: "run_kernel 1 crashed_image [[(34, \<lambda>_. replicate BSIZE 7)]] = Inr ((), k)"
    "\<forall>b. file_block mini_geometry b \<longrightarrow> block (k_disk k) b =
      ops_view [[(34, \<lambda>_. replicate BSIZE 7)]] (block (replay crashed_image mini_geometry)) b"
    using crash_recovers_prefix [OF crashed_mountable ok, where pid = 1] by blast
  have "block installed_image 35 = block crashed_image 3" by (simp add: mini_block mini_blocks_def nth_append)
  then show ?thesis using k fb by (simp add: ops_view_def mini_replay)
qed

section \<open>Reading a block\<close>

lemma bget_locked:
  assumes "cache_ok dev k" and "i < K_NBUF" and "keyed k dev b i" and "sl_locked (kb_lock (buf k i))"
  shows "bget dev b k = Inl Sleeps"
proof -
  note L = cache_okD(1,2) [OF assms(1)]
  have "find (keyed k dev b) (bc_lru (k_cache k)) \<noteq> None" using assms(2,3) L(2) by (auto simp: find_None_iff)
  then obtain j where j: "find (keyed k dev b) (bc_lru (k_cache k)) = Some j" by auto
  then have "keyed k dev b j" "j \<in> set (bc_lru (k_cache k))" by (auto simp: find_Some_iff)
  then have "j = i" using cache_okD(5) [OF assms(1)] assms(2,3) L(2) by (auto simp: unique_keys_def keyed_def)
  then show ?thesis using j assms(2,4) by (simp add: bget_def acquiresleep_def buf_upd_buf L)
qed

lemma bget_full:
  assumes "cache_ok dev k" and "\<forall>i < K_NBUF. \<not> keyed k dev b i \<and> kb_refcnt (buf k i) \<noteq> 0"
  shows "bget dev b k = Inl (Panic ''bget: no buffers'')"
proof -
  have "find (keyed k dev b) (bc_lru (k_cache k)) = None" "find (\<lambda>i. kb_refcnt (buf k i) = 0) (rev (bc_lru (k_cache k))) = None"
    using assms(2) cache_okD(2) [OF assms(1)] by (auto simp: find_None_iff)
  then show ?thesis by (simp add: bget_def)
qed

text \<open>
  C9: The buffer cache is transparent.  Reading a block of the disk goes to sleep when another holder has locked its buffer,
  panics when the block has no buffer and every buffer is referred to, and otherwise returns a buffer locked by the
  caller with the data last written to the block, in the cache or on disk; no other buffer and no block of the disk changes,
  and what any later read sees is unchanged, whichever buffer was recycled.
\<close>

theorem bread_total:
  assumes "cache_ok dev k" and "b < image_blocks (k_disk k)"
  shows "if \<exists>i < K_NBUF. keyed k dev b i \<and> sl_locked (kb_lock (buf k i)) then bread dev b k = Inl Sleeps
    else if (\<forall>i < K_NBUF. \<not> keyed k dev b i \<and> kb_refcnt (buf k i) \<noteq> 0) then bread dev b k = Inl (Panic ''bget: no buffers'')
    else \<exists>i k'. bread dev b k = Inr (i, k') \<and> i < K_NBUF \<and> kb_data (buf k' i) = kview dev k b \<and> holdingsleep k' i \<and>
      kb_refcnt (buf k' i) = kb_refcnt (buf k i) + 1 \<and> (\<forall>j < K_NBUF. j \<noteq> i \<longrightarrow> buf k' j = buf k j) \<and> k_disk k' = k_disk k \<and>
      (kb_refcnt (buf k i) + 1 \<noteq> 0 \<longrightarrow> cache_ok dev k' \<and> kview dev k' = kview dev k)"
proof (cases "\<exists>i < K_NBUF. keyed k dev b i \<and> sl_locked (kb_lock (buf k i))")
  case True
  then have "bget dev b k = Inl Sleeps" using bget_locked [OF assms(1)] by blast
  then show ?thesis using True by (simp add: bread_def)
next
  case unlocked: False
  show ?thesis
  proof (cases "\<forall>i < K_NBUF. \<not> keyed k dev b i \<and> kb_refcnt (buf k i) \<noteq> 0")
    case True
    then have "bget dev b k = Inl (Panic ''bget: no buffers'')" by (rule bget_full [OF assms(1)])
    then show ?thesis using True unlocked by (simp add: bread_def)
  next
    case False
    then have some: "(\<exists>i < K_NBUF. keyed k dev b i) \<or> (\<exists>i < K_NBUF. kb_refcnt (buf k i) = 0)" by blast
    have free: "\<not> sl_locked (kb_lock (buf k i))" if "i < K_NBUF" "keyed k dev b i" for i using unlocked that by blast
    obtain i where i: "reusable dev b k i" "bread dev b k = Inr (i, upd_buf i (\<lambda>_. loaded dev b k i) k)"
      by (rule bread_run [OF assms free some])
    then have "i < length (bc_buf (k_cache k))" by (simp add: reusable_def cache_okD(1) [OF assms(1)])
    then have "\<exists>i k'. bread dev b k = Inr (i, k') \<and> i < K_NBUF \<and> kb_data (buf k' i) = kview dev k b \<and> holdingsleep k' i \<and>
      kb_refcnt (buf k' i) = kb_refcnt (buf k i) + 1 \<and> (\<forall>j < K_NBUF. j \<noteq> i \<longrightarrow> buf k' j = buf k j) \<and> k_disk k' = k_disk k \<and>
      (kb_refcnt (buf k i) + 1 \<noteq> 0 \<longrightarrow> cache_ok dev k' \<and> kview dev k' = kview dev k)"
      using i bread_law [OF assms(1) i(1) assms(2)]
      by (intro exI [of _ i] exI [of _ "upd_buf i (\<lambda>_. loaded dev b k i) k"])
        (simp add: buf_upd_buf holdingsleep_def held_def reusable_def)
    then show ?thesis using False unlocked by (simp only: if_False)
  qed
qed

theorem bread_total_witness:
  "\<exists>i k'. bread 1 35 (kernel_start 1 crashed_image) = Inr (i, k') \<and> kb_data (buf k' i) = block crashed_image 35"
proof -
  have s: "steady 1 (kernel_start 1 crashed_image) {}"
    using start_steady [of crashed_image 1 1] mountableD(3,4,5) [OF crashed_mountable] by simp
  have d: "k_disk (kernel_start 1 crashed_image) = crashed_image" by (simp add: kernel_start_def)
  have v: "kview 1 (kernel_start 1 crashed_image) 35 = block crashed_image 35" using steady_view [OF s] d by simp
  have b: "35 < image_blocks (k_disk (kernel_start 1 crashed_image))" unfolding d using mountableD(4) [OF crashed_mountable] by (simp add: mini_layout_def)
  have "\<not> sl_locked (kb_lock (buf (kernel_start 1 crashed_image) i))" "kb_refcnt (buf (kernel_start 1 crashed_image) i) = 0" if "i < K_NBUF" for i
    using steadyD(2,4) [OF s] that by (simp_all add: calm_def)
  moreover have "0 < K_NBUF" by (simp add: kernel_consts)
  ultimately show ?thesis using bread_total [OF steadyD(1) [OF s] b] v by (auto split: if_splits)
qed

section \<open>Admission\<close>

text \<open>Operations that leave the log in memory as it is.\<close>

definition log_kept :: "'a kop \<Rightarrow> bool" where
  "log_kept m \<longleftrightarrow> (\<forall>k x k'. m k = Inr (x, k') \<longrightarrow> k_log k' = k_log k)"

named_theorems log_kept_rules \<open>operations that leave the log in memory as it is\<close>

lemma log_kept_bind [log_kept_rules]: "log_kept m \<Longrightarrow> (\<And>x. log_kept (f x)) \<Longrightarrow> log_kept (kbind m f)"
  by (fastforce simp: log_kept_def kbind_def split: sum.splits prod.splits)

lemma log_kept_ret [log_kept_rules]: "log_kept (kret x)"
  by (simp add: log_kept_def)

lemma log_kept_for [log_kept_rules]: "(\<And>x. log_kept (f x)) \<Longrightarrow> log_kept (kfor f xs)"
  by (induction xs) (simp_all add: log_kept_bind log_kept_ret)

lemma log_kept_basic [log_kept_rules]:
  "log_kept (acquiresleep i)" "log_kept (releasesleep i)" "log_kept (disk_rw i w)" "log_kept (set_data i d)"
  "log_kept (bpin i)" "log_kept (bunpin i)" "log_kept (kmodify (upd_buf i f))"
  by (auto simp: log_kept_def acquiresleep_def releasesleep_def disk_rw_def set_data_def bpin_def bunpin_def Let_def split: if_splits)

lemma log_kept_if: "log_kept a \<Longrightarrow> log_kept b \<Longrightarrow> log_kept (\<lambda>k. if P k then a k else b k)"
  by (simp add: log_kept_def)

lemma log_kept_bget [log_kept_rules]: "log_kept (bget dev b)"
proof -
  have "log_kept (kbind (kmodify (upd_buf i f)) (\<lambda>_. kbind (acquiresleep i) (\<lambda>_. kret i)))" for i f by (intro log_kept_rules)
  then show ?thesis by (fastforce simp: log_kept_def bget_def split: option.splits)
qed

lemma log_kept_bread [log_kept_rules]: "log_kept (bread dev b)"
  unfolding bread_def
proof (intro log_kept_bind log_kept_bget)
  fix i
  have "log_kept (\<lambda>k. Inr (i, k))" "log_kept (kbind (disk_rw i False) (\<lambda>_. kbind (kmodify (upd_buf i (\<lambda>b. b\<lparr>kb_valid := True\<rparr>))) (\<lambda>_. kret i)))"
    by (simp add: log_kept_def) (intro log_kept_rules)
  then show "log_kept (\<lambda>k. if kb_valid (buf k i) then Inr (i, k) else kbind (disk_rw i False) (\<lambda>_. kbind (kmodify (upd_buf i (\<lambda>b. b\<lparr>kb_valid := True\<rparr>))) (\<lambda>_. kret i)) k)"
    by (rule log_kept_if)
qed

lemma log_kept_bwrite [log_kept_rules]: "log_kept (bwrite i)"
  using log_kept_basic(3) [of i True] by (auto simp: log_kept_def bwrite_def split: if_splits)

lemma log_kept_brelse [log_kept_rules]: "log_kept (brelse i)"
  by (auto simp: log_kept_def brelse_def releasesleep_def Let_def split: if_splits)

lemma log_kept_read [log_kept_rules]: "(\<And>k i. log_kept (F k i)) \<Longrightarrow> log_kept (\<lambda>k. kbind (bread (d k) (a k)) (F k) k)"
  using log_kept_bind [OF log_kept_bread] unfolding log_kept_def by blast

lemma log_kept_data [log_kept_rules]: "log_kept (\<lambda>k. set_data i (f k) k)"
  using log_kept_basic(4) by (simp add: log_kept_def)

lemma log_kept_loop [log_kept_rules]: "(\<And>x. log_kept (f x)) \<Longrightarrow> log_kept (\<lambda>k. kfor f (xs k) k)"
  using log_kept_for unfolding log_kept_def by blast

lemma log_kept_steps [log_kept_rules]: "log_kept (install_step r tail)" "log_kept (write_log_step tail)" "log_kept write_head"
proof -
  have "log_kept (if r then kret () else bunpin j)" for j by (simp add: log_kept_rules)
  then show "log_kept (install_step r tail)" unfolding install_step_def [abs_def] by (intro log_kept_rules)
  show "log_kept (write_log_step tail)" unfolding write_log_step_def [abs_def] by (intro log_kept_rules)
  show "log_kept write_head" unfolding write_head_def [abs_def] by (intro log_kept_rules)
qed

lemma commit_log:
  assumes "commit k = Inr ((), k')" and "0 \<le> lg_n (k_log k)"
  shows "k_log k' = (k_log k)\<lparr>lg_n := 0\<rparr>"
proof (cases "lg_n (k_log k) > 0")
  case True
  have w: "log_kept write_log" "log_kept (install_trans False)"
    unfolding write_log_def [abs_def] install_trans_def [abs_def] by (intro log_kept_rules)+
  obtain k1 k2 k3 where "write_log k = Inr ((), k1)" "write_head k1 = Inr ((), k2)" "install_trans False k2 = Inr ((), k3)"
    "write_head (k3\<lparr>k_log := (k_log k3)\<lparr>lg_n := 0\<rparr>\<rparr>) = Inr ((), k')"
    using assms(1) True by (auto simp: commit_def kbind_def set_n_def split: sum.splits)
  then show ?thesis using w log_kept_steps(3) by (fastforce simp: log_kept_def)
next
  case False
  then show ?thesis using assms by (simp add: commit_def)
qed

text \<open>
  Interleaved operations: the state of the kernel, and for every operation in progress the number of
  blocks that it may still record.  An operation enters, records blocks and leaves; in between, anything
  may happen to buffers, disk and the running process.
\<close>

inductive log_step :: "kernel \<times> nat list \<Rightarrow> kernel \<times> nat list \<Rightarrow> bool" where
  enter: "begin_op k = Inr ((), k') \<Longrightarrow> log_step (k, rs) (k', K_MAXOPBLOCKS # rs)"
| record_block: "log_write i k = Inr ((), k') \<Longrightarrow> log_step (k, xs @ Suc r # ys) (k', xs @ r # ys)"
| leave: "end_op k = Inr ((), k') \<Longrightarrow> log_step (k, xs @ r # ys) (k', xs @ ys)"
| elsewhere: "k_log k' = k_log k \<Longrightarrow> log_step (k, rs) (k', rs)"

definition admitted :: "kernel \<times> nat list \<Rightarrow> bool" where
  "admitted = (\<lambda>(k, rs). 0 \<le> lg_n (k_log k) \<and> lg_n (k_log k) + int (sum_list rs) \<le> int K_LOGBLOCKS \<and>
     lg_outstanding (k_log k) = int (length rs) \<and> \<not> lg_committing (k_log k) \<and> (\<forall>r \<in> set rs. r \<le> K_MAXOPBLOCKS) \<and>
     (rs = [] \<longrightarrow> lg_n (k_log k) = 0))"

lemma sum_list_bound: "\<forall>r \<in> set rs. r \<le> b \<Longrightarrow> sum_list rs \<le> length rs * (b :: nat)"
  by (induction rs) (auto simp: add_mono)

lemma end_op_log:
  assumes "end_op k = Inr ((), k')" and "0 \<le> lg_n (k_log k)"
  shows "\<not> lg_committing (k_log k)"
    and "k_log k' = (k_log k)\<lparr>lg_outstanding := lg_outstanding (k_log k) - 1,
           lg_n := (if lg_outstanding (k_log k) = 1 then 0 else lg_n (k_log k)), lg_committing := False\<rparr>"
proof -
  show nc: "\<not> lg_committing (k_log k)" using assms(1) by (auto simp: end_op_def Let_def split: if_splits)
  show "k_log k' = (k_log k)\<lparr>lg_outstanding := lg_outstanding (k_log k) - 1,
           lg_n := (if lg_outstanding (k_log k) = 1 then 0 else lg_n (k_log k)), lg_committing := False\<rparr>"
  proof (cases "lg_outstanding (k_log k) = 1")
    case True
    let ?k = "k\<lparr>k_log := (k_log k)\<lparr>lg_outstanding := 0, lg_committing := True\<rparr>\<rparr>"
    obtain k1 where "commit ?k = Inr ((), k1)" "k' = k1\<lparr>k_log := (k_log k1)\<lparr>lg_committing := False\<rparr>\<rparr>"
      using assms(1) True nc by (auto simp: end_op_def Let_def set_committing_def kbind_def split: sum.splits)
    then show ?thesis using commit_log [of ?k k1] assms(2) True by simp
  next
    case False
    then show ?thesis using assms(1) nc by (cases "k_log k") (auto simp: end_op_def Let_def)
  qed
qed

lemma log_write_log:
  assumes "log_write i k = Inr ((), k')" and "0 \<le> lg_n (k_log k)"
  shows "lg_n (k_log k) \<le> lg_n (k_log k') \<and> lg_n (k_log k') \<le> lg_n (k_log k) + 1 \<and>
    lg_outstanding (k_log k') = lg_outstanding (k_log k) \<and> lg_committing (k_log k') = lg_committing (k_log k)"
  using assms by (auto simp: log_write_def Let_def bpin_def split: if_splits)

lemma admitted_step: "log_step s s' \<Longrightarrow> admitted s \<Longrightarrow> admitted s'"
proof (induction rule: log_step.induct)
  case (enter k k' rs)
  then have k': "k' = k\<lparr>k_log := (k_log k)\<lparr>lg_outstanding := lg_outstanding (k_log k) + 1\<rparr>\<rparr>"
    and g: "lg_n (k_log k) + (lg_outstanding (k_log k) + 1) * int K_MAXOPBLOCKS \<le> int K_LOGBLOCKS"
    by (auto simp: begin_op_def Let_def split: if_splits)
  have "sum_list rs \<le> length rs * K_MAXOPBLOCKS" using enter.prems by (intro sum_list_bound) (simp add: admitted_def)
  then have "int (sum_list rs) \<le> int (length rs * K_MAXOPBLOCKS)" by (rule of_nat_mono)
  then show ?case using enter.prems k' g by (simp add: admitted_def algebra_simps)
next
  case (record_block i k k' xs r ys)
  then show ?case using log_write_log [OF record_block.hyps] by (auto simp: admitted_def)
next
  case (leave k k' xs r ys)
  have "0 \<le> lg_n (k_log k)" using leave.prems by (simp add: admitted_def)
  note E = end_op_log [OF leave.hyps this]
  show ?case using leave.prems E(1) by (auto simp: admitted_def E(2))
next
  case (elsewhere k' k rs)
  then show ?case by (simp add: admitted_def)
qed



section \<open>A full transaction\<close>

lemma all_pinned:
  assumes "steady dev k (set ts)" and "distinct ts" and "length ts = K_NBUF" and "l < K_NBUF"
  shows "kb_refcnt (buf k l) \<noteq> 0" and "keyed k dev b l \<Longrightarrow> b \<in> set ts"
proof -
  define p where "p t = (SOME l. l < K_NBUF \<and> keyed k dev t l)" for t
  have p: "p t < K_NBUF \<and> keyed k dev t (p t)" if "t \<in> set ts" for t
    unfolding p_def by (rule someI_ex) (use assms(1) that in \<open>auto simp: steady_def\<close>)
  have "inj_on p (set ts)" using p by (auto simp: inj_on_def keyed_def) metis
  then have "card (p ` set ts) = K_NBUF" using assms(2,3) by (simp add: card_image distinct_card)
  moreover have "p ` set ts \<subseteq> {..<K_NBUF}" using p by auto
  ultimately have "p ` set ts = {..<K_NBUF}" by (intro card_subset_eq) simp_all
  then obtain t where t: "t \<in> set ts" "l = p t" using assms(4) by blast
  then have "keyed k dev t l" using p by blast
  then show "kb_refcnt (buf k l) \<noteq> 0" "keyed k dev b l \<Longrightarrow> b \<in> set ts"
    using steadyD(4) [OF assms(1,4)] t(1) by (auto simp: keyed_def)
qed

lemma commit_full:
  assumes "steady dev k (set ts)" and "log_holds dev s ts (k_log k)" and "homes_ok s (image_blocks (k_disk k)) ts" and "length ts = K_NBUF"
  shows "commit k = Inl (Panic ''bget: no buffers'')"
proof -
  have ts: "distinct ts" "\<forall>t \<in> set ts. s + K_LOGBLOCKS < t" using assms(3) by (simp_all add: homes_ok_def)
  have l: "lg_dev (k_log k) = dev" "lg_start (k_log k) = s" "lg_n (k_log k) = int K_NBUF" using assms(2,4) by (simp_all add: log_holds_def)
  have n: "[0..<K_NBUF] = 0 # [1..<K_NBUF]" by (simp add: upt_conv_Cons kernel_consts)
  have "0 < length ts" using assms(4) by (simp add: kernel_consts)
  note A = log_slot_block(1) [OF steadyD(1) [OF assms(1)] assms(3,2) this]
  have "\<not> keyed k dev (s + 1) i" if "i < K_NBUF" for i
    using all_pinned(2) [OF assms(1) ts(1) assms(4) that] ts(2) by (fastforce simp: kernel_consts)
  then have "bget dev (s + 1) k = Inl (Panic ''bget: no buffers'')"
    using all_pinned(1) [OF assms(1) ts(1) assms(4)] by (intro bget_full [OF steadyD(1) [OF assms(1)]]) blast
  then have "bread dev (s + 1) k = Inl (Panic ''bget: no buffers'')" by (simp add: bread_def)
  then have "write_log_step 0 k = Inl (Panic ''bget: no buffers'')"
    using A unfolding write_log_step_def l by simp
  then have "write_log k = Inl (Panic ''bget: no buffers'')" by (simp add: write_log_def l n)
  then show ?thesis using l by (simp add: commit_def kernel_consts)
qed

text \<open>
  C10: The buffer cache is one buffer too small for a full log.  Three operations that each record the announced maximum of
  ten blocks, thirty different ones together, are all admitted, and every update succeeds; but the thirty
  buffers of the cache are then all pinned, and when the last operation leaves, the commit panics, as it finds no
  buffer for the first log block.
\<close>

theorem full_transaction_panics:
  assumes "mountable d g" and "length us = 3 * K_MAXOPBLOCKS" and "distinct (map fst us)"
    and "\<forall>(b, f) \<in> set us. file_block g b \<and> (\<forall>x. length x = BSIZE \<longrightarrow> length (f x) = BSIZE)"
  shows "\<exists>k k'. mount K_ROOTDEV (kernel_start pid d) = Inr ((), k) \<and>
    kbind begin_op (\<lambda>_. kbind begin_op (\<lambda>_. kbind begin_op (\<lambda>_. kfor (\<lambda>(b, f). update_block K_ROOTDEV b f) us))) k = Inr ((), k') \<and>
    kbind end_op (\<lambda>_. kbind end_op (\<lambda>_. end_op)) k' = Inl (Panic ''bget: no buffers'')"
proof -
  let ?dev = K_ROOTDEV and ?s = "g_logstart g"
  note M = mountableD [OF assms(1)]
  obtain k where k: "mount ?dev (kernel_start pid d) = Inr ((), k)" "k_disk k = replay d g" "idle g k"
    by (rule mount_run [OF assms(1)])
  have st: "steady ?dev k {}" and lh: "log_holds ?dev ?s [] (k_log k)" and out: "lg_outstanding (k_log k) = 0" and nc: "\<not> lg_committing (k_log k)"
    using k(3) by (simp_all add: idle_def)
  have N: "image_blocks (k_disk k) = g_size g" using replay_correct(1) [OF M(1,2)] M(4) by (simp add: k(2) image_blocks_def)
  let ?k3 = "k\<lparr>k_log := (k_log k)\<lparr>lg_outstanding := 3\<rparr>\<rparr>"
  have b: "kbind begin_op (\<lambda>_. kbind begin_op (\<lambda>_. kbind begin_op f)) k = f () ?k3" for f :: "unit \<Rightarrow> unit kop"
    using lh out nc by (simp add: begin_op_def kbind_def log_holds_def Let_def kernel_consts)
  have lh3: "log_holds ?dev ?s [] (k_log ?k3)" using lh by (simp add: log_holds_def)
  have log_adds_new: "foldl log_add ts bs = ts @ bs" if "distinct (ts @ bs)" for ts bs
    using that by (induction bs arbitrary: ts) (auto simp: log_add_def)
  obtain k' where k': "kfor (\<lambda>(b, f). update_block ?dev b f) us ?k3 = Inr ((), k')" "steady ?dev k' (set (map fst us))"
    "log_holds ?dev ?s (map fst us) (k_log k')" "k_disk k' = k_disk k" "lg_outstanding (k_log k') = 3" "\<not> lg_committing (k_log k')"
    using updates_run [of ?dev ?k3 "[]" ?s us] st lh3 assms(2,4) nc N log_adds_new [of "[]" "map fst us"] assms(3)
    by (fastforce simp: kernel_consts file_block_def)
  let ?k4 = "k'\<lparr>k_log := (k_log k')\<lparr>lg_outstanding := 0, lg_committing := True\<rparr>\<rparr>"
  have "steady ?dev ?k4 (set (map fst us))" "log_holds ?dev ?s (map fst us) (k_log ?k4)" using k'(2,3) by (simp_all add: log_holds_def)
  moreover have "homes_ok ?s (image_blocks (k_disk ?k4)) (map fst us)"
    using assms(3,4) M(6,7) N k'(4) by (auto simp: homes_ok_def file_block_def)
  moreover have "length (map fst us) = K_NBUF" using assms(2) by (simp add: kernel_consts)
  ultimately have "commit ?k4 = Inl (Panic ''bget: no buffers'')" by (rule commit_full)
  then have "kbind end_op (\<lambda>_. kbind end_op (\<lambda>_. end_op)) k' = Inl (Panic ''bget: no buffers'')"
    using k'(5,6) by (simp add: end_op_def kbind_def set_committing_def Let_def)
  then show ?thesis using k(1) b [of "\<lambda>_. kfor (\<lambda>(b, f). update_block ?dev b f) us"] k'(1) by auto
qed

theorem full_transaction_panics_witness:
  "\<exists>k k'. mount K_ROOTDEV (kernel_start 1 (rec_example 0 False 0)) = Inr ((), k) \<and>
    kbind begin_op (\<lambda>_. kbind begin_op (\<lambda>_. kbind begin_op (\<lambda>_. kfor (\<lambda>(b, f). update_block K_ROOTDEV b f) (map (\<lambda>b. (b, id)) [100..<130])))) k = Inr ((), k') \<and>
    kbind end_op (\<lambda>_. kbind end_op (\<lambda>_. end_op)) k' = Inl (Panic ''bget: no buffers'')"
proof -
  have I: "rec_image (rec_example 0 False 0) (mini_layout 2000)" by (rule rec_example_image) simp
  have M: "mountable (rec_example 0 False 0) (mini_layout 2000)"
    using rec_imageD(1,2) [OF I] by (simp add: mountable_def mini_layout_def)
  show ?thesis
    by (rule full_transaction_panics [OF M]) (auto simp: kernel_consts file_block_def mini_layout_def comp_def)
qed

end
