(* ===== verification/Spec2Isabelle.thy ===== *)
theory Spec2Isabelle
  imports FsckProps KernelPipe PersistProps PersistScenarioProps CurriculumRelease NavigationProps SyncProps VmTraceProps LifecycleProps FsTraceProps DevTraceProps
    IoTraceProps CowTraceProps CowRunProps RecoveryProps KernelProps
begin

text \<open>
  A verification development for the xv6 kernel's log and for the Python tools of its tutorial
  (\<open>docs/xv6-tutorial\<close>): the offline file-system checker, the curriculum validator and navigation
  generator, and the runners of the laboratories, which build an instrumented kernel, run it in an emulator
  and judge the transcripts.

  \<^bold>\<open>Base library.\<close>  \<open>Prelude\<close> holds the result type of fallible functions, runs of
  \<open>require\<close> checks, loops with exceptions, the contract of trace reducers and Python dictionaries and
  slices.  \<open>PyStruct\<close> models \<open>bytes\<close> and the \<open>struct\<close> formats, \<open>PyText\<close> decimal numbers, substring
  search and the splitting and joining of text, \<open>Json\<close> decoded JSON values with the exceptions of the
  interpreter.  \<open>Markers\<close>, \<open>LabFields\<close> and \<open>Transcript\<close> hold what the laboratory oracles share: typed
  marker fields, checks that raise only the laboratory error, and transcripts printed line by line.

  \<^bold>\<open>Offline image checker\<close> (\<open>resources/recovery/fsck.py\<close>).  \<open>Fsck\<close> translates every function of
  the file; \<open>FsckLog\<close> proves geometry and log replay, \<open>FsckBlocks\<close> the inode table, block maps,
  ownership and bitmap, \<open>FsckDirs\<close> file contents and directory entries, \<open>FsckTree\<close> the search from
  the root, \<open>FsckView\<close> that the inspection decides a declarative consistency predicate;
  \<open>FsckExample\<close> holds concrete images and \<open>FsckProps\<close> the properties.

  \<^bold>\<open>Kernel\<close> (\<open>kernel/bio.c\<close>, \<open>kernel/log.c\<close>, with \<open>sleeplock.c\<close> and the mounting part of \<open>fs.c\<close>).
  \<open>KernelBio\<close> is the buffer cache over a disk that records its writes, with the invariant of the cache and the
  laws of its operations; \<open>KernelLog\<close> is the log, with the laws of its steps on one and two buffers;
  \<open>KernelCommit\<close> gives recovery and commit as sequences of writes, \<open>KernelCrash\<close> relates mounting to the replay of the
  offline checker and treats a crash inside a commit or a recovery, \<open>KernelTx\<close> runs operations. \<open>KernelProps\<close>
  shows that a crash at any point recovers to a prefix of the operations, that mounting produces the
  checker's shadow image, that the cache is transparent, that admission protects the log, and that a full
  log exhausts the cache.  A state is a \<open>kernel\<close> record; a call that panics, sleeps or overruns an array is a
  result of its own.  The reference counts are 32-bit words, the count in the log header a signed integer.
  \<open>KernelPipe\<close> models the pipes of \<open>kernel/pipe.c\<close> as bursts under their lock and shows that they are bounded
  first-in first-out queues across the wrap-around of their counters.

  \<^bold>\<open>Recovery project\<close> (\<open>resources/recovery/run-project.py\<close>).  \<open>Recovery\<close> models the checks of a crash
  image, the console dialogue, the four crash points with two restarts each and the six synthetic
  tears.  \<open>RecoveryImage\<close> reads the checks against the specification of the checker; \<open>RecoveryProps\<close>
  shows that an accepted crash image recovers atomically, and that on an emulator that runs the kernel
  the restarts pass and every tear is classified as expected.

  \<^bold>\<open>Persistence laboratory\<close> (\<open>resources/persistence/run-lab.py\<close>).  \<open>PersistTrace\<close> parses transcripts,
  \<open>PersistCache\<close> and \<open>PersistLog\<close> are the two reducers, \<open>PersistCases\<close> the oracles of the cases,
  \<open>PersistSynthetic\<close> the synthetic transcripts, \<open>PersistReplay\<close> runs the oracles on them; \<open>PersistProps\<close>
  shows mutual exclusion, balance, log capacity and write-ahead order of accepted transcripts.
  \<open>PersistScenario\<close> validates the scenario file and \<open>PersistScenarioProps\<close> shows that an accepted file fixes the table
  of cases the oracles read, and that its gates block only where blocking is possible.

  \<^bold>\<open>Curriculum validator and navigation\<close> (\<open>tools/validate.py\<close>, \<open>tools/generate_navigation.py\<close>).
  \<open>Curriculum\<close> translates the validator, \<open>CurriculumGraph\<close>, \<open>CurriculumProps\<close> and \<open>CurriculumRelease\<close> show
  what silence and exit status zero establish; \<open>Navigation\<close> and \<open>NavigationProps\<close> treat the generator.
  The file system, git and the pattern matchers of the standard library are fields of the \<open>world\<close> record.

  \<^bold>\<open>Laboratory oracles.\<close>  \<open>Sync\<close> (scheduling), \<open>VmTrace\<close> (virtual memory), \<open>Lifecycle\<close> (process
  lifecycle), \<open>FsTrace\<close> (file system), \<open>DevTrace\<close> (devices), \<open>IoTrace\<close> (communication) and \<open>CowTrace\<close>
  (copy-on-write) each translate the marker parser and the transcript oracle of one \<open>run-lab.py\<close> or
  \<open>run-project.py\<close>; the theories with suffix \<open>Props\<close> show what an accepted transcript establishes.

  \<^bold>\<open>Copy-on-write project\<close> (\<open>resources/copy-on-write/run-project.py\<close>).  \<open>CowPatch\<close> inspects patches and
  sources, \<open>CowRun\<close> is the whole run with its nested cleanup over an explicit machine; \<open>CowRunProps\<close>
  shows that the run restores the tree whichever step fails, given tools that behave as documented.

  \<^bold>\<open>Parameters.\<close>  SHA-256, the emulator (what its console yields and the image it leaves), the
  programs started by the runners (\<open>git\<close>, \<open>make\<close>, the test driver) and the file system are arguments;
  what a property needs of them is a named hypothesis (\<open>runs_kernel\<close>, \<open>host_laws\<close>), shown satisfiable by its
  witness.

  \<^bold>\<open>Bounds.\<close>  Every function is total: loops over finite data recurse on the data, the breadth-first
  search has a lexicographic measure, the depth-first search of the curriculum takes Python's recursion
  limit as an argument, and a wait on the console recurses on the reads before its deadline, after which
  the watchdog raises.

  \<^bold>\<open>Not modelled.\<close>  The kernel above and beside the log and the pipes: inodes, directories, processes, traps, page tables, system
  calls and the other devices; the descriptors and rings of the disk driver; wakeups; torn writes of a single
  block other than the synthetic tears; the user programs and the image builder.  Of the tools: process groups and signals, digests of whole directories, report files and
  progress messages, argument parsing; the source anchors and build steps of the smaller laboratories,
  which search fixed tokens in C sources; and the runners of the introductory units (adding a system
  call, boot and traps, system-call round trip, user programs), which drive the emulator and match fixed
  lines.  They are process control and text output around the oracles above.
\<close>

end
